(* ===== verification/Prelude.thy ===== *)
theory Prelude
  imports Complex_Main "HOL-Library.Word"
begin

text \<open>
  The vocabulary the components share: JavaScript strings as lists of UTF-16 code units,
  the values of type \<open>unknown\<close> the code inspects, the list and insertion-ordered map
  operations it uses, and the interfaces (locales) that several components rely on.
  The collections \<open>js_defs\<close> (definitions of the small JavaScript helpers) and
  \<open>guard_simps\<close> (guards of the operations) are filled by the components.
\<close>

named_theorems js_defs
named_theorems guard_simps

section \<open>Strings\<close>

type_synonym jschar = "16 word"
type_synonym jsstring = "jschar list"

text \<open>A literal of the source: each character is one code unit.\<close>

definition js :: "string \<Rightarrow> jsstring" where
  "js s = map of_char s"

lemma of_char_inject [simp]: "(of_char c :: 16 word) = of_char d \<longleftrightarrow> c = d"
proof
  assume eq: "(of_char c :: 16 word) = of_char d"
  have bound: "(of_char x :: nat) < 2 ^ 16" for x :: char
    by (rule less_trans [OF nat_of_char_less_256]) simp
  have as_nat: "unat (of_char x :: 16 word) = of_char x" for x :: char
  proof -
    have "(of_char x :: 16 word) = of_nat (of_char x)"
      by (rule of_nat_of_char [symmetric])
    then show ?thesis using bound [of x] by (simp add: unat_of_nat take_bit_nat_eq_self)
  qed
  from eq have "(of_char c :: nat) = of_char d"
    by (metis as_nat)
  then show "c = d" by simp
qed simp

lemma js_inject [simp]: "js s = js t \<longleftrightarrow> s = t"
  unfolding js_def by (rule inj_map_eq_map) (simp add: inj_def)

lemma js_Nil [simp]: "js [] = []"
  by (simp add: js_def)

lemma js_eq_Nil [simp]: "js s = [] \<longleftrightarrow> s = []" "[] = js s \<longleftrightarrow> s = []"
  by (auto simp: js_def)

lemma length_js [simp]: "length (js s) = length s"
  by (simp add: js_def)

text \<open>Character classes of the source's regular expressions.\<close>

definition is_digit :: "jschar \<Rightarrow> bool" where
  "is_digit c \<longleftrightarrow> 48 \<le> c \<and> c \<le> 57"

definition is_lower :: "jschar \<Rightarrow> bool" where
  "is_lower c \<longleftrightarrow> 97 \<le> c \<and> c \<le> 122"

definition is_upper :: "jschar \<Rightarrow> bool" where
  "is_upper c \<longleftrightarrow> 65 \<le> c \<and> c \<le> 90"

definition is_alnum :: "jschar \<Rightarrow> bool" where
  "is_alnum c \<longleftrightarrow> is_digit c \<or> is_lower c \<or> is_upper c"

text \<open>
  \<open>[a-z]\<close> under the flags \<open>i\<close> and \<open>u\<close> uses simple case folding, so it also
  matches U+017F (long s) and U+212A (Kelvin sign).
\<close>

definition is_alpha_iu :: "jschar \<Rightarrow> bool" where
  "is_alpha_iu c \<longleftrightarrow> is_lower c \<or> is_upper c \<or> c = 0x17F \<or> c = 0x212A"

text \<open>\<open>String.prototype.trim\<close>: white space and line terminators.\<close>

definition is_space :: "jschar \<Rightarrow> bool" where
  "is_space c \<longleftrightarrow> (9 \<le> c \<and> c \<le> 13) \<or> c = 32 \<or> c = 160 \<or> c = 0x1680
     \<or> (0x2000 \<le> c \<and> c \<le> 0x200A) \<or> c = 0x2028 \<or> c = 0x2029 \<or> c = 0x202F
     \<or> c = 0x205F \<or> c = 0x3000 \<or> c = 0xFEFF"

definition js_trim :: "jsstring \<Rightarrow> jsstring" where
  "js_trim s = rev (dropWhile is_space (rev (dropWhile is_space s)))"

text \<open>The control characters the sanitisers reject: codes up to 31 and 127 to 159.\<close>

definition is_control :: "jschar \<Rightarrow> bool" where
  "is_control c \<longleftrightarrow> c \<le> 31 \<or> (127 \<le> c \<and> c \<le> 159)"

fun starts_with :: "'a list \<Rightarrow> 'a list \<Rightarrow> bool" where
  "starts_with s [] = True"
| "starts_with [] (p # ps) = False"
| "starts_with (c # cs) (p # ps) = (c = p \<and> starts_with cs ps)"

lemma starts_with_iff: "starts_with s p \<longleftrightarrow> (\<exists>t. s = p @ t)"
  by (induction s p rule: starts_with.induct) auto

fun contains_sub :: "'a list \<Rightarrow> 'a list \<Rightarrow> bool" where
  "contains_sub [] p = (p = [])"
| "contains_sub (c # cs) p = (starts_with (c # cs) p \<or> contains_sub cs p)"

lemma dropWhile_rev_append:
  "\<exists>t. s = rev (dropWhile P (rev s)) @ t \<and> (\<forall>x \<in> set t. P x)"
proof -
  have "rev s = takeWhile P (rev s) @ dropWhile P (rev s)" by simp
  then have "s = rev (dropWhile P (rev s)) @ rev (takeWhile P (rev s))"
    by (metis rev_append rev_rev_ident)
  then show ?thesis by (metis set_rev set_takeWhileD)
qed

lemma hd_js_trim: "js_trim s \<noteq> [] \<Longrightarrow> \<not> is_space (hd (js_trim s))"
proof -
  let ?d = "dropWhile is_space s"
  assume ne: "js_trim s \<noteq> []"
  obtain t where t: "?d = js_trim s @ t"
    using dropWhile_rev_append [of ?d is_space] by (auto simp: js_trim_def)
  with ne have "hd ?d = hd (js_trim s)" and "?d \<noteq> []" by auto
  then show ?thesis using hd_dropWhile by metis
qed

lemma last_js_trim: "js_trim s \<noteq> [] \<Longrightarrow> \<not> is_space (last (js_trim s))"
  unfolding js_trim_def by (metis Nil_is_rev_conv hd_dropWhile last_rev)

lemma js_trim_fixed:
  "s = [] \<or> (\<not> is_space (hd s) \<and> \<not> is_space (last s)) \<Longrightarrow> js_trim s = s"
proof (cases s)
  case (Cons c cs)
  assume "s = [] \<or> (\<not> is_space (hd s) \<and> \<not> is_space (last s))"
  with Cons have h: "\<not> is_space c" and l: "\<not> is_space (last s)" by auto
  from h Cons have "dropWhile is_space s = s" by simp
  moreover have "dropWhile is_space (rev s) = rev s"
    using l Cons by (cases "rev s") (auto simp: last_rev hd_rev [symmetric])
  ultimately show ?thesis by (simp add: js_trim_def)
qed (simp add: js_trim_def)

lemma js_trim_idem [simp]: "js_trim (js_trim s) = js_trim s"
  by (rule js_trim_fixed) (use hd_js_trim last_js_trim in blast)

lemma js_trim_Nil [simp]: "js_trim [] = []"
  by (simp add: js_trim_def)

lemma set_js_trim: "set (js_trim s) \<subseteq> set s"
  proof
  fix x
  assume "x \<in> set (js_trim s)"
  then have "x \<in> set (dropWhile is_space s)"
    unfolding js_trim_def set_rev using set_dropWhileD set_rev by metis
  then show "x \<in> set s" by (metis set_dropWhileD)
qed

text \<open>\<open>Array.prototype.join\<close> and \<open>String.prototype.split\<close> with a one-character separator.\<close>

fun js_join :: "'a \<Rightarrow> 'a list list \<Rightarrow> 'a list" where
  "js_join sep [] = []"
| "js_join sep [s] = s"
| "js_join sep (s # t # ts) = s @ sep # js_join sep (t # ts)"

fun js_split :: "'a \<Rightarrow> 'a list \<Rightarrow> 'a list list" where
  "js_split sep [] = [[]]"
| "js_split sep (c # cs) =
     (if c = sep then [] # js_split sep cs
      else (case js_split sep cs of [] \<Rightarrow> [[c]] | w # ws \<Rightarrow> (c # w) # ws))"

lemma js_split_no_sep: "sep \<notin> set s \<Longrightarrow> js_split sep s = [s]"
  by (induction s) auto

lemma js_split_append_sep: "sep \<notin> set s \<Longrightarrow> js_split sep (s @ sep # t) = s # js_split sep t"
  by (induction s) auto

lemma js_split_join: "xs \<noteq> [] \<Longrightarrow> (\<forall>x \<in> set xs. sep \<notin> set x) \<Longrightarrow> js_split sep (js_join sep xs) = xs"
  by (induction sep xs rule: js_join.induct) (simp_all add: js_split_no_sep js_split_append_sep)

lemma js_split_nonempty: "js_split sep s \<noteq> []"
  by (induction s) (auto split: list.split)

section \<open>Numbers and unknown values\<close>

text \<open>
  A number of type \<open>unknown\<close>: the finite doubles are read as rationals, rounding of
  IEEE operations is outside the model. Milliseconds of \<open>Date.now()\<close> are \<open>int\<close>.
\<close>

datatype jsnum = NaN | PosInf | NegInf | Num rat

datatype jsval =
    JUndefined
  | JNull
  | JBool bool
  | JNumber jsnum
  | JString jsstring
  | JArray "jsval list"
  | JObject "(jsstring \<times> jsval) list"

text \<open>\<open>value.key\<close> on a value that passed \<open>typeof value === "object"\<close> and is not null.\<close>

fun jget :: "jsval \<Rightarrow> jsstring \<Rightarrow> jsval" where
  "jget (JObject kvs) k = (case map_of kvs k of None \<Rightarrow> JUndefined | Some v \<Rightarrow> v)"
| "jget _ k = JUndefined"

fun has_prop :: "jsval \<Rightarrow> jsstring \<Rightarrow> bool" where
  "has_prop (JObject kvs) k = (k \<in> fst ` set kvs)"
| "has_prop _ k = False"

text \<open>\<open>value && typeof value === "object"\<close>: arrays are objects, null is not.\<close>

fun is_object :: "jsval \<Rightarrow> bool" where
  "is_object (JObject kvs) = True"
| "is_object (JArray vs) = True"
| "is_object _ = False"

text \<open>\<open>value ?? 0\<close>.\<close>

definition or_zero :: "rat option \<Rightarrow> rat" where
  "or_zero t = (case t of None \<Rightarrow> 0 | Some v \<Rightarrow> v)"

definition trunc_rat :: "rat \<Rightarrow> int" where
  "trunc_rat x = (if x < 0 then \<lceil>x\<rceil> else \<lfloor>x\<rfloor>)"

definition js_clamp :: "'a::linorder \<Rightarrow> 'a \<Rightarrow> 'a \<Rightarrow> 'a" where
  "js_clamp lo hi x = min hi (max lo x)"

lemma js_clamp_bounds: "lo \<le> hi \<Longrightarrow> lo \<le> js_clamp lo hi x \<and> js_clamp lo hi x \<le> hi"
  by (auto simp: js_clamp_def)

lemma js_clamp_id: "lo \<le> x \<Longrightarrow> x \<le> hi \<Longrightarrow> js_clamp lo hi x = x"
  by (simp add: js_clamp_def max_def min_def)

lemma js_clamp_idem: "lo \<le> hi \<Longrightarrow> js_clamp lo hi (js_clamp lo hi x) = js_clamp lo hi x"
  by (simp add: js_clamp_bounds js_clamp_id)


section \<open>Lists and insertion-ordered maps\<close>

text \<open>\<open>Array.prototype.indexOf\<close>, with -1 for an element that is not there.\<close>

fun index_from :: "nat \<Rightarrow> 'a list \<Rightarrow> 'a \<Rightarrow> int" where
  "index_from n [] y = -1"
| "index_from n (x # xs) y = (if x = y then int n else index_from (Suc n) xs y)"

definition js_indexOf :: "'a list \<Rightarrow> 'a \<Rightarrow> int" where
  "js_indexOf xs y = index_from 0 xs y"

text \<open>\<open>Array.prototype.filter\<close> with the index as the callback's second argument.\<close>

fun filter_from :: "nat \<Rightarrow> ('a \<Rightarrow> nat \<Rightarrow> bool) \<Rightarrow> 'a list \<Rightarrow> 'a list" where
  "filter_from n f [] = []"
| "filter_from n f (x # xs) =
     (if f x n then x # filter_from (Suc n) f xs else filter_from (Suc n) f xs)"

definition js_filter_index :: "('a \<Rightarrow> nat \<Rightarrow> bool) \<Rightarrow> 'a list \<Rightarrow> 'a list" where
  "js_filter_index f xs = filter_from 0 f xs"

text \<open>The idiom \<open>xs.filter((x, i) => p(x) && xs.indexOf(x) === i)\<close>: first occurrences.\<close>

definition first_occurrences :: "('a \<Rightarrow> bool) \<Rightarrow> 'a list \<Rightarrow> 'a list" where
  "first_occurrences P xs = js_filter_index (\<lambda>x i. P x \<and> js_indexOf xs x = int i) xs"

lemma index_from_snoc:
  "index_from n (xs @ [x]) y =
     (if y \<in> set xs then index_from n xs y else if x = y then int (n + length xs) else -1)"
  by (induction xs arbitrary: n) auto

lemma index_from_bound: "y \<in> set xs \<Longrightarrow> index_from n xs y < int (n + length xs)"
proof (induction xs arbitrary: n)
  case (Cons x xs)
  show ?case
  proof (cases "x = y")
    case False
    with Cons.prems have "y \<in> set xs" by simp
    from Cons.IH [OF this, of "Suc n"] False show ?thesis by simp
  qed simp
qed simp

lemma filter_from_snoc:
  "filter_from n f (xs @ [x]) = filter_from n f xs @ (if f x (n + length xs) then [x] else [])"
  by (induction xs arbitrary: n) auto

lemma filter_from_cong:
  "(\<And>x i. x \<in> set xs \<Longrightarrow> f x i = g x i) \<Longrightarrow> filter_from n f xs = filter_from n g xs"
  by (induction xs arbitrary: n) auto

lemma first_occurrences_snoc:
  "first_occurrences P (xs @ [x]) =
     first_occurrences P xs @ (if P x \<and> x \<notin> set xs then [x] else [])"
proof -
  let ?f = "\<lambda>y i. P y \<and> js_indexOf (xs @ [x]) y = int i"
  let ?g = "\<lambda>y i. P y \<and> js_indexOf xs y = int i"
  have "filter_from 0 ?f xs = filter_from 0 ?g xs"
    by (rule filter_from_cong) (simp add: js_indexOf_def index_from_snoc)
  moreover have "?f x (length xs) \<longleftrightarrow> P x \<and> x \<notin> set xs"
    using index_from_bound [of x xs 0] by (auto simp: js_indexOf_def index_from_snoc)
  ultimately show ?thesis
    by (simp add: first_occurrences_def js_filter_index_def filter_from_snoc)
qed

lemma first_occurrences_Nil [simp]: "first_occurrences P [] = []"
  by (simp add: first_occurrences_def js_filter_index_def)

lemma set_first_occurrences [simp]: "set (first_occurrences P xs) = {x \<in> set xs. P x}"
  by (induction xs rule: rev_induct) (auto simp: first_occurrences_snoc)

lemma distinct_first_occurrences [simp]: "distinct (first_occurrences P xs)"
  by (induction xs rule: rev_induct) (auto simp: first_occurrences_snoc)

text \<open>A JavaScript \<open>Map\<close>: entries in insertion order, \<open>set\<close> of a present key keeps its place.\<close>

type_synonym ('k, 'v) jsmap = "('k \<times> 'v) list"

fun map_set :: "'k \<Rightarrow> 'v \<Rightarrow> ('k, 'v) jsmap \<Rightarrow> ('k, 'v) jsmap" where
  "map_set k v [] = [(k, v)]"
| "map_set k v ((k', v') # m) = (if k' = k then (k, v) # m else (k', v') # map_set k v m)"

definition map_delete :: "'k \<Rightarrow> ('k, 'v) jsmap \<Rightarrow> ('k, 'v) jsmap" where
  "map_delete k m = filter (\<lambda>(k', v). k' \<noteq> k) m"

definition map_keys :: "('k, 'v) jsmap \<Rightarrow> 'k list" where
  "map_keys m = map fst m"

definition map_ok :: "('k, 'v) jsmap \<Rightarrow> bool" where
  "map_ok m \<longleftrightarrow> distinct (map fst m)"

lemma map_of_map_set [simp]: "map_of (map_set k v m) = (map_of m)(k \<mapsto> v)"
  by (induction m) (auto simp: fun_eq_iff)

lemma set_keys_map_set [simp]: "fst ` set (map_set k v m) = insert k (fst ` set m)"
  by (induction k v m rule: map_set.induct) (simp_all add: insert_commute)

lemma map_of_map_delete [simp]: "map_of (map_delete k m) = (map_of m)(k := None)"
  by (induction m) (auto simp: map_delete_def fun_eq_iff)

lemma set_keys_map_delete [simp]: "fst ` set (map_delete k m) = fst ` set m - {k}"
  by (force simp: map_delete_def)

lemma map_ok_set [simp]: "map_ok m \<Longrightarrow> map_ok (map_set k v m)"
  unfolding map_ok_def
  by (induction k v m rule: map_set.induct) auto

lemma map_ok_delete [simp]: "map_ok m \<Longrightarrow> map_ok (map_delete k m)"
  unfolding map_ok_def map_delete_def by (induction m) auto

lemma map_ok_Nil [simp]: "map_ok []"
  by (simp add: map_ok_def)

section \<open>Interfaces\<close>

text \<open>
  The interface of a keyed store: what a lookup returns after an insertion and after a
  deletion, and an invariant that both keep.
\<close>

locale keyed_store =
  fixes store_get :: "'m \<Rightarrow> 'k \<Rightarrow> 'v option"
    and store_put :: "'k \<Rightarrow> 'v \<Rightarrow> 'm \<Rightarrow> 'm"
    and store_del :: "'k \<Rightarrow> 'm \<Rightarrow> 'm"
    and store_ok :: "'m \<Rightarrow> bool"
  assumes get_put: "store_ok m \<Longrightarrow> store_get (store_put k v m) = (store_get m)(k \<mapsto> v)"
    and get_del: "store_ok m \<Longrightarrow> store_get (store_del k m) = (store_get m)(k := None)"
    and ok_put: "store_ok m \<Longrightarrow> store_ok (store_put k v m)"
    and ok_del: "store_ok m \<Longrightarrow> store_ok (store_del k m)"
begin

lemma take_once: "store_ok m \<Longrightarrow> store_get (store_del k (store_put k v m)) k = None"
  by (simp add: get_del ok_put)

lemma del_other: "store_ok m \<Longrightarrow> k \<noteq> k' \<Longrightarrow> store_get (store_del k m) k' = store_get m k'"
  by (simp add: get_del)

lemma put_del_frame:
  "store_ok m \<Longrightarrow> store_get m k = None \<Longrightarrow> store_get (store_del k (store_put k v m)) = store_get m"
  by (auto simp: get_del get_put ok_put fun_eq_iff)

end

interpretation js_store: keyed_store map_of map_set map_delete map_ok
  by unfold_locales simp_all

text \<open>
  Generation counters: several components invalidate the callbacks they have handed out
  by increasing a counter that each callback captured. A step never decreases the
  counter, and a callback whose token differs from it does nothing.
\<close>

locale generation_counter =
  fixes gen :: "'s \<Rightarrow> nat"
    and step :: "'s \<Rightarrow> 's \<Rightarrow> bool"
  assumes gen_mono: "step s t \<Longrightarrow> gen s \<le> gen t"
begin

lemma gen_mono_star: "step\<^sup>*\<^sup>* s t \<Longrightarrow> gen s \<le> gen t"
  by (induction rule: rtranclp_induct) (auto dest: gen_mono)

lemma stale_forever: "step\<^sup>*\<^sup>* s t \<Longrightarrow> token < gen s \<Longrightarrow> token \<noteq> gen t"
  by (drule gen_mono_star) simp

end

locale generation_guard = generation_counter +
  fixes deliver :: "nat \<Rightarrow> 'e \<Rightarrow> 's \<Rightarrow> 's"
  assumes deliver_stale: "token \<noteq> gen s \<Longrightarrow> deliver token e s = s"
begin

lemma stale_inert: "step\<^sup>*\<^sup>* s t \<Longrightarrow> token < gen s \<Longrightarrow> deliver token e t = t"
  by (rule deliver_stale) (rule stale_forever)

lemma stale_run_inert:
  "step\<^sup>*\<^sup>* s t \<Longrightarrow> token < gen s \<Longrightarrow> fold (deliver token) es t = t"
  by (induction es) (simp_all add: stale_inert)

end

end
