(* ===== verification/Recovery.thy ===== *)
theory Recovery
  imports Prelude
begin

text \<open>
  \<open>web/src/components/live/playbackRecovery.ts\<close>: the retry budget of one live stream
  (\<open>PlaybackRecovery\<close>), the one-shot probe timer (\<open>PlaybackProbeScheduler\<close>) and the
  promoter that returns a fallback stream to its primary (\<open>PlaybackPrimaryPromoter\<close>).
  Times are \<open>int\<close> milliseconds, as \<open>Date.now()\<close> gives them.
\<close>

section \<open>Constants and transports\<close>

definition PLAYBACK_SETUP_MS :: int where [js_defs]: "PLAYBACK_SETUP_MS = 5000"
definition PLAYBACK_RETRY_INTERVAL_MS :: int where [js_defs]: "PLAYBACK_RETRY_INTERVAL_MS = 3000"
definition PLAYBACK_STALL_MS :: int where [js_defs]: "PLAYBACK_STALL_MS = 10000"
definition PLAYBACK_EPISODE_MS :: int where [js_defs]: "PLAYBACK_EPISODE_MS = 30000"
definition PLAYBACK_STABLE_RESET_MS :: int where [js_defs]: "PLAYBACK_STABLE_RESET_MS = 5000"
definition PLAYBACK_COOLDOWN_MS :: int where [js_defs]: "PLAYBACK_COOLDOWN_MS = 5000"
definition PLAYBACK_PRIMARY_PROBE_INTERVAL_MS :: int where
  [js_defs]: "PLAYBACK_PRIMARY_PROBE_INTERVAL_MS = 60000"

datatype transport = Webrtc | Mse

section \<open>The clock interface and the probe scheduler\<close>

text \<open>
  \<open>PlaybackProbeClock\<close>: the operations the constructor receives. \<open>'c\<close> is the state of
  the clock (the pending timers of the event loop), \<open>'cb\<close> the closures it holds.
\<close>

record ('c, 'cb) probe_clock =
  clock_now :: "'c \<Rightarrow> int"
  clock_set :: "'cb \<Rightarrow> int \<Rightarrow> 'c \<Rightarrow> nat \<times> 'c"
  clock_clear :: "nat \<Rightarrow> 'c \<Rightarrow> 'c"

record scheduler =
  timerId :: "nat option"
  sgeneration :: nat

definition new_scheduler :: scheduler where
  "new_scheduler = \<lparr>timerId = None, sgeneration = 0\<rparr>"

definition scheduler_clear :: "('c, 'cb) probe_clock \<Rightarrow> scheduler \<Rightarrow> 'c \<Rightarrow> scheduler \<times> 'c" where
  "scheduler_clear clk s c =
     (let s1 = s\<lparr>sgeneration := Suc (sgeneration s)\<rparr>
      in case timerId s1 of
           None \<Rightarrow> (s1, c)
         | Some i \<Rightarrow> (s1\<lparr>timerId := None\<rparr>, clock_clear clk i c))"

text \<open>\<open>mk\<close> builds the closure from the generation it captures.\<close>

definition scheduler_arm ::
  "('c, 'cb) probe_clock \<Rightarrow> (nat \<Rightarrow> 'cb) \<Rightarrow> int \<Rightarrow> scheduler \<Rightarrow> 'c \<Rightarrow> scheduler \<times> 'c" where
  "scheduler_arm clk mk until s c =
     (let (s1, c1) = scheduler_clear clk s c;
          (i, c2) = clock_set clk (mk (sgeneration s1)) (max 0 (until - clock_now clk c1)) c1
      in (s1\<lparr>timerId := Some i\<rparr>, c2))"

text \<open>The closure's body; the flag says that it went on to call \<open>probe()\<close>.\<close>

definition scheduler_fire :: "nat \<Rightarrow> scheduler \<Rightarrow> scheduler \<times> bool" where
  "scheduler_fire g s =
     (if g \<noteq> sgeneration s then (s, False)
      else (s\<lparr>timerId := None, sgeneration := Suc (sgeneration s)\<rparr>, True))"

lemma sgeneration_clear [simp]: "sgeneration (fst (scheduler_clear clk s c)) = Suc (sgeneration s)"
  by (simp add: scheduler_clear_def Let_def split: option.split)

lemma timerId_clear [simp]: "timerId (fst (scheduler_clear clk s c)) = None"
  by (simp add: scheduler_clear_def Let_def split: option.split)

lemma sgeneration_arm [simp]:
  "sgeneration (fst (scheduler_arm clk mk until s c)) = Suc (sgeneration s)"
  by (simp add: scheduler_arm_def Let_def split: prod.split)
     (metis fst_conv sgeneration_clear)

lemma timerId_arm: "timerId (fst (scheduler_arm clk mk until s c)) \<noteq> None"
  by (simp add: scheduler_arm_def Let_def split: prod.split)

lemma sgeneration_fire: "sgeneration s \<le> sgeneration (fst (scheduler_fire g s))"
  by (simp add: scheduler_fire_def)

subsection \<open>Any clock at all\<close>

text \<open>
  Calls of the scheduler against a clock that keeps no promise: it may run a closure it was
  given at any time, more than once, and after \<open>clear\<close>. \<open>issued\<close> are the generations
  captured by closures handed out, \<open>fired\<close> those whose closure called \<open>probe()\<close>.
\<close>

datatype sched_op = Arm int | Clear | Invoke nat

record 'c sched_run =
  machine :: scheduler
  clock :: 'c
  issued :: "nat list"
  fired :: "nat list"

fun sched_exec :: "('c, 'cb) probe_clock \<Rightarrow> (nat \<Rightarrow> 'cb) \<Rightarrow> 'c sched_run \<Rightarrow> sched_op \<Rightarrow> 'c sched_run" where
  "sched_exec clk mk r (Arm until) =
     (let (s, c) = scheduler_arm clk mk until (machine r) (clock r)
      in r\<lparr>machine := s, clock := c, issued := sgeneration s # issued r\<rparr>)"
| "sched_exec clk mk r Clear =
     (let (s, c) = scheduler_clear clk (machine r) (clock r) in r\<lparr>machine := s, clock := c\<rparr>)"
| "sched_exec clk mk r (Invoke g) =
     (if g \<in> set (issued r) then
        (let (s, p) = scheduler_fire g (machine r)
         in r\<lparr>machine := s, fired := (if p then g # fired r else fired r)\<rparr>)
      else r)"

definition sched_inv :: "'c sched_run \<Rightarrow> bool" where
  "sched_inv r \<longleftrightarrow> distinct (fired r) \<and> set (fired r) \<subseteq> set (issued r)
     \<and> (\<forall>g \<in> set (issued r). g \<le> sgeneration (machine r))
     \<and> (\<forall>g \<in> set (fired r). g < sgeneration (machine r))"

lemma scheduler_arm_gen:
  "scheduler_arm clk mk until s c = (s', c') \<Longrightarrow> sgeneration s' = Suc (sgeneration s)"
  by (metis fst_conv sgeneration_arm)

lemma scheduler_clear_gen:
  "scheduler_clear clk s c = (s', c') \<Longrightarrow> sgeneration s' = Suc (sgeneration s)"
  by (metis fst_conv sgeneration_clear)

lemma sched_inv_exec: "sched_inv r \<Longrightarrow> sched_inv (sched_exec clk mk r op)"
  by (cases op)
     (auto simp: sched_inv_def scheduler_fire_def split: prod.split
       dest!: scheduler_arm_gen scheduler_clear_gen)

lemma sched_inv_run: "sched_inv r \<Longrightarrow> sched_inv (fold (\<lambda>op r. sched_exec clk mk r op) ops r)"
  by (induction ops arbitrary: r) (simp_all add: sched_inv_exec)

definition sched_start :: "'c \<Rightarrow> 'c sched_run" where
  "sched_start c = \<lparr>machine = new_scheduler, clock = c, issued = [], fired = []\<rparr>"

lemma sched_inv_start: "sched_inv (sched_start c)"
  by (simp add: sched_inv_def sched_start_def)

lemma issued_mono: "set (issued r) \<subseteq> set (issued (sched_exec clk mk r op))"
  by (cases op) (auto split: prod.split)

text \<open>Once cleared or re-armed, a closure handed out before never reaches \<open>probe()\<close>.\<close>

lemma sched_gen_mono: "sgeneration (machine r) \<le> sgeneration (machine (sched_exec clk mk r op))"
  by (cases op)
     (auto simp: scheduler_fire_def split: prod.split
       dest!: scheduler_arm_gen scheduler_clear_gen)

interpretation sched_gen: generation_counter
  "\<lambda>r. sgeneration (machine r)" "\<lambda>r r'. \<exists>op. r' = sched_exec clk mk r op"
  by unfold_locales (auto intro: sched_gen_mono)


lemma fired_exec:
  "set (fired (sched_exec clk mk r op)) \<subseteq> insert (sgeneration (machine r)) (set (fired r))"
  by (cases op) (auto simp: scheduler_fire_def split: prod.split)

lemma fired_bounded:
  assumes "g < sgeneration (machine r)" and "g \<notin> set (fired r)"
  shows "g \<notin> set (fired (fold (\<lambda>op r. sched_exec clk mk r op) ops r))"
  using assms
proof (induction ops arbitrary: r)
  case (Cons op ops)
  from Cons.prems(1) have "g < sgeneration (machine (sched_exec clk mk r op))"
    using sched_gen_mono order_less_le_trans by blast
  moreover have "g \<notin> set (fired (sched_exec clk mk r op))"
    using fired_exec [of clk mk r op] Cons.prems by auto
  ultimately show ?case by (simp add: Cons.IH)
qed simp

section \<open>The retry budget\<close>

record recovery =
  streamNames :: "jsstring list"
  episodeStartedAt :: "int option"
  ladderStep :: nat
  stableSince :: "int option"
  lastProgressAt :: "int option"
  stallStartedAt :: "int option"

datatype recovery_step =
    TryTransport transport jsstring nat
  | Resubscribe nat
  | Cooldown int

text \<open>\<open>PlaybackPhase\<close>, as the session, the presentation and the diagnostics use it.\<close>

datatype playback_phase =
  Connecting | Retrying | Fallback | Recovering | Playing | Stalled | CoolingDown | UnsupportedPhase

definition recoveryAttemptPresentation ::
  "transport \<Rightarrow> jsstring \<Rightarrow> jsstring \<Rightarrow> transport \<Rightarrow> playback_phase \<times> bool \<times> bool" where
  "recoveryAttemptPresentation stepTransport stepStreamName primaryStreamName previousTransport =
     (let usingFallback = stepStreamName \<noteq> primaryStreamName
      in (if usingFallback then Fallback else Retrying, usingFallback, stepTransport \<noteq> previousTransport))"

definition new_recovery :: "jsstring list \<Rightarrow> recovery" where
  "new_recovery names =
     \<lparr>streamNames = first_occurrences (\<lambda>n. n \<noteq> []) names, episodeStartedAt = None,
      ladderStep = 0, stableSince = None, lastProgressAt = None, stallStartedAt = None\<rparr>"

definition remainingMs :: "recovery \<Rightarrow> int \<Rightarrow> int" where
  "remainingMs r now =
     (case episodeStartedAt r of
        None \<Rightarrow> PLAYBACK_EPISODE_MS
      | Some t \<Rightarrow> max 0 (t + PLAYBACK_EPISODE_MS - now))"

definition boundedDelayMs :: "recovery \<Rightarrow> int \<Rightarrow> int \<Rightarrow> int" where
  "boundedDelayMs r now maximumMs = max 0 (min maximumMs (remainingMs r now))"

definition stalledForMs :: "recovery \<Rightarrow> int \<Rightarrow> int" where
  "stalledForMs r now = (case stallStartedAt r of None \<Rightarrow> 0 | Some t \<Rightarrow> max 0 (now - t))"

definition cooldown :: "int \<Rightarrow> recovery_step" where
  "cooldown now = Cooldown (now + PLAYBACK_COOLDOWN_MS)"

text \<open>The array \<open>steps\<close>; an entry is a step that still lacks its attempt number.\<close>

definition ladder :: "jsstring list \<Rightarrow> (nat \<Rightarrow> recovery_step) list" where
  "ladder names =
     (case names of
        [] \<Rightarrow> []
      | primary # rest \<Rightarrow>
          [TryTransport Webrtc primary, TryTransport Mse primary]
          @ (case rest of [] \<Rightarrow> [] | fallback # _ \<Rightarrow> [TryTransport Mse fallback])
          @ [Resubscribe])"

definition nextFailure :: "recovery \<Rightarrow> int \<Rightarrow> recovery_step \<times> recovery" where
  "nextFailure r now =
     (let r1 = (case episodeStartedAt r of
                  None \<Rightarrow> r\<lparr>episodeStartedAt :=
                    Some (case stallStartedAt r of None \<Rightarrow> now | Some t \<Rightarrow> t)\<rparr>
                | Some _ \<Rightarrow> r)
      in if remainingMs r1 now = 0 then (cooldown now, r1)
         else if streamNames r1 = [] then (cooldown now, r1)
         else let i = ladderStep r1; r2 = r1\<lparr>ladderStep := Suc i\<rparr>; steps = ladder (streamNames r1)
              in if i < length steps then ((steps ! i) (Suc (Suc i)), r2) else (cooldown now, r2))"

definition recordProgress :: "recovery \<Rightarrow> int \<Rightarrow> bool \<times> recovery" where
  "recordProgress r now =
     (let fresh = (case (stableSince r, lastProgressAt r) of
                     (Some _, Some l) \<Rightarrow> now - l > PLAYBACK_STALL_MS
                   | _ \<Rightarrow> True);
          since = (if fresh then now else the (stableSince r));
          r1 = r\<lparr>stallStartedAt := None, stableSince := Some since, lastProgressAt := Some now\<rparr>
      in if now - since < PLAYBACK_STABLE_RESET_MS then (False, r1)
         else (True, r1\<lparr>episodeStartedAt := None, ladderStep := 0, stableSince := Some now\<rparr>))"

definition recordFailure :: "recovery \<Rightarrow> int \<Rightarrow> recovery" where
  "recordFailure r now =
     (let r1 = r\<lparr>stableSince := None\<rparr>
      in case stallStartedAt r1 of
           Some _ \<Rightarrow> r1
         | None \<Rightarrow> (let r2 = r1\<lparr>stallStartedAt := Some now\<rparr>
                   in case episodeStartedAt r2 of
                        None \<Rightarrow> r2\<lparr>episodeStartedAt := Some now\<rparr>
                      | Some _ \<Rightarrow> r2))"

definition restartEpisode :: "recovery \<Rightarrow> int \<Rightarrow> recovery" where
  "restartEpisode r now = r\<lparr>episodeStartedAt := Some now, ladderStep := 0, stableSince := None\<rparr>"

definition resetForPrimaryPromotion :: "recovery \<Rightarrow> recovery" where
  "resetForPrimaryPromotion r =
     r\<lparr>episodeStartedAt := None, ladderStep := 0, stableSince := None,
       lastProgressAt := None, stallStartedAt := None\<rparr>"

fun run_failures :: "recovery \<Rightarrow> int list \<Rightarrow> recovery_step list" where
  "run_failures r [] = []"
| "run_failures r (t # ts) = (let (st, r') = nextFailure (recordFailure r t) t in st # run_failures r' ts)"

fun run_progress :: "recovery \<Rightarrow> int list \<Rightarrow> bool list \<times> recovery" where
  "run_progress r [] = ([], r)"
| "run_progress r (t # ts) =
     (let (b, r1) = recordProgress r t; (bs, r2) = run_progress r1 ts in (b # bs, r2))"

subsection \<open>Failures walk down the ladder\<close>

fun is_cooldown :: "recovery_step \<Rightarrow> bool" where
  "is_cooldown (Cooldown _) = True"
| "is_cooldown _ = False"

lemma length_ladder: "length (ladder names) \<le> 4"
  by (auto simp: ladder_def split: list.split)

lemma ladder_Nil [simp]: "ladder [] = []"
  by (simp add: ladder_def)

lemma ladder_not_cooldown: "i < length (ladder names) \<Longrightarrow> \<not> is_cooldown ((ladder names ! i) n)"
  by (auto simp: ladder_def less_Suc_eq nth_Cons split: list.splits nat.split)

lemma recordFailure_fields [simp]:
  "streamNames (recordFailure r t) = streamNames r"
  "ladderStep (recordFailure r t) = ladderStep r"
  "stableSince (recordFailure r t) = None"
  by (auto simp: recordFailure_def Let_def split: option.split)

lemma recordFailure_started [simp]:
  "episodeStartedAt r = Some t0 \<Longrightarrow> episodeStartedAt (recordFailure r t) = Some t0"
  by (auto simp: recordFailure_def Let_def split: option.split)

lemma nextFailure_fields [simp]:
  "streamNames (snd (nextFailure r t)) = streamNames r"
  "stableSince (snd (nextFailure r t)) = stableSince r"
  "lastProgressAt (snd (nextFailure r t)) = lastProgressAt r"
  "stallStartedAt (snd (nextFailure r t)) = stallStartedAt r"
  by (auto simp: nextFailure_def Let_def split: option.split)

text \<open>One call inside a running episode, the three ways it can end.\<close>

lemma nextFailure_running:
  assumes "episodeStartedAt r = Some t0"
  shows "nextFailure r t =
    (if t0 + PLAYBACK_EPISODE_MS \<le> t \<or> streamNames r = [] then (cooldown t, r)
     else if ladderStep r < length (ladder (streamNames r))
       then ((ladder (streamNames r) ! ladderStep r) (Suc (Suc (ladderStep r))),
             r\<lparr>ladderStep := Suc (ladderStep r)\<rparr>)
       else (cooldown t, r\<lparr>ladderStep := Suc (ladderStep r)\<rparr>))"
  using assms by (auto simp: nextFailure_def remainingMs_def Let_def)

lemma nextFailure_started:
  "episodeStartedAt r = Some t0 \<Longrightarrow> episodeStartedAt (snd (nextFailure r t)) = Some t0"
  by (simp add: nextFailure_running)

lemma run_failures_running:
  assumes "episodeStartedAt r = Some t0" and "streamNames r \<noteq> []"
    and "\<forall>t \<in> set ts. t < t0 + PLAYBACK_EPISODE_MS" and "i < length ts"
  shows "run_failures r ts ! i =
    (let L = ladder (streamNames r); k = ladderStep r + i
     in if k < length L then (L ! k) (k + 2) else cooldown (ts ! i))"
  using assms
proof (induction ts arbitrary: r i)
  case (Cons t ts)
  let ?r = "recordFailure r t"
  from Cons.prems(3) have t: "\<not> t0 + PLAYBACK_EPISODE_MS \<le> t" by simp
  obtain st r' where nf: "nextFailure ?r t = (st, r')" by force
  have r': "r' = ?r\<lparr>ladderStep := Suc (ladderStep r)\<rparr>"
    and st: "st = (let L = ladder (streamNames r) in
       if ladderStep r < length L then (L ! ladderStep r) (ladderStep r + 2) else cooldown t)"
    using nf nextFailure_running [OF recordFailure_started [OF Cons.prems(1)], of t t] t Cons.prems(2)
    by (auto simp: Let_def split: if_splits)
  show ?case
  proof (cases i)
    case 0
    then show ?thesis by (simp add: nf st Let_def)
  next
    case (Suc j)
    have "run_failures r' ts ! j =
      (let L = ladder (streamNames r'); k = ladderStep r' + j
       in if k < length L then (L ! k) (k + 2) else cooldown (ts ! j))"
      by (rule Cons.IH) (use Cons.prems Suc r' in auto)
    then show ?thesis by (simp add: nf Suc r' Let_def)
  qed
qed simp

lemma recordFailure_first:
  "episodeStartedAt r = None \<Longrightarrow> stallStartedAt r = None \<Longrightarrow>
   recordFailure r t = r\<lparr>stableSince := None, stallStartedAt := Some t, episodeStartedAt := Some t\<rparr>"
  by (simp add: recordFailure_def Let_def)

lemma recordFailure_again:
  "stallStartedAt r = Some s \<Longrightarrow> recordFailure r t = r\<lparr>stableSince := None\<rparr>"
  by (simp add: recordFailure_def Let_def)

lemma run_failures_first:
  assumes "episodeStartedAt r = None" and "stallStartedAt r = None"
  shows "run_failures r (t # ts) = run_failures (recordFailure r t) (t # ts)"
  using assms by (cases r) (simp add: recordFailure_first recordFailure_again)

text \<open>The answers to failures in order of time, inside the budget and after it.\<close>

lemma length_run_failures [simp]: "length (run_failures r ts) = length ts"
  by (induction ts arbitrary: r) (simp_all split: prod.split)

lemma run_failures_take: "take n (run_failures r ts) = run_failures r (take n ts)"
proof (induction ts arbitrary: r n)
  case (Cons t ts)
  then show ?case by (cases n) (simp_all split: prod.split)
qed simp

lemma cooldown_late:
  "episodeStartedAt r = Some t0 \<Longrightarrow> i < length ts \<Longrightarrow> t0 + PLAYBACK_EPISODE_MS \<le> ts ! i \<Longrightarrow>
   run_failures r ts ! i = cooldown (ts ! i)"
proof (induction ts arbitrary: r i)
  case (Cons t ts)
  let ?r = "recordFailure r t"
  obtain st r' where nf: "nextFailure ?r t = (st, r')" by force
  note started = recordFailure_started [OF Cons.prems(1), of t]
  have r': "episodeStartedAt r' = Some t0" using nextFailure_started [OF started, of t] nf by simp
  show ?case
  proof (cases i)
    case 0
    then show ?thesis using Cons.prems nf nextFailure_running [OF started, of t] by simp
  next
    case (Suc j)
    then show ?thesis using Cons.IH [OF r', of j] Cons.prems nf by simp
  qed
qed simp

lemma run_failures_sorted:
  assumes started: "episodeStartedAt r = Some t0" and names: "streamNames r \<noteq> []"
    and times: "sorted ts" and i: "i < length ts"
  shows "run_failures r ts ! i =
    (if t0 + PLAYBACK_EPISODE_MS \<le> ts ! i then cooldown (ts ! i)
     else let L = ladder (streamNames r); k = ladderStep r + i
          in if k < length L then (L ! k) (k + 2) else cooldown (ts ! i))"
proof (cases "t0 + PLAYBACK_EPISODE_MS \<le> ts ! i")
  case False
  have "u \<le> ts ! i" if "u \<in> set (take (Suc i) ts)" for u
    using that times i by (auto simp: in_set_conv_nth less_Suc_eq_le intro: sorted_nth_mono)
  with False have early: "\<forall>u \<in> set (take (Suc i) ts). u < t0 + PLAYBACK_EPISODE_MS" by fastforce
  have "run_failures r ts ! i = run_failures r (take (Suc i) ts) ! i"
    by (metis run_failures_take nth_take lessI)
  then show ?thesis
    using run_failures_running [OF started names early, of i] i False by (simp add: Let_def)
qed (use cooldown_late [OF started i] in simp)

text \<open>The entries of the ladder, one by one.\<close>

lemma ladder_entries:
  "length (ladder (p # rest)) = (if rest = [] then 3 else 4)"
  "ladder (p # rest) ! 0 = TryTransport Webrtc p"
  "ladder (p # rest) ! Suc 0 = TryTransport Mse p"
  "ladder (p # rest) ! 2 = (if rest = [] then Resubscribe else TryTransport Mse (hd rest))"
  "rest \<noteq> [] \<Longrightarrow> ladder (p # rest) ! 3 = Resubscribe"
  by (auto simp: ladder_def numeral_2_eq_2 numeral_3_eq_3 split: list.split)

text \<open>C6: the order of recovery. From a fresh budget the failures of one episode are answered, in
  this order and with attempts numbered from 2, by WebRTC on the primary, MSE on the primary, MSE
  on the fallback if there is a second name, and the resubscription; every further failure, and
  every failure 30 seconds or more after the first one, is answered by a cooldown of 5 seconds.\<close>

theorem recovery_ladder:
  assumes names: "streamNames (new_recovery names) = primary # rest"
    and times: "sorted (t0 # ts)" and i: "i < length (t0 # ts)"
  shows "run_failures (new_recovery names) (t0 # ts) ! i =
    (let t = (t0 # ts) ! i; k = (if rest = [] \<and> 2 \<le> i then Suc i else i)
     in if t0 + 30000 \<le> t then Cooldown (t + 5000)
        else if k = 0 then TryTransport Webrtc primary 2
        else if k = 1 then TryTransport Mse primary 3
        else if k = 2 then TryTransport Mse (hd rest) 4
        else if k = 3 then Resubscribe (i + 2)
        else Cooldown (t + 5000))"
proof -
  let ?r = "new_recovery names" and ?t = "(t0 # ts) ! i"
  let ?q = "recordFailure ?r t0"
  have r: "episodeStartedAt ?r = None" "stallStartedAt ?r = None" "ladderStep ?r = 0"
    by (simp_all add: new_recovery_def)
  note q = recordFailure_first [OF r(1,2), of t0]
  have "run_failures ?q (t0 # ts) ! i =
    (if t0 + PLAYBACK_EPISODE_MS \<le> ?t then cooldown ?t
     else let L = ladder (streamNames ?q); k = ladderStep ?q + i
          in if k < length L then (L ! k) (k + 2) else cooldown ?t)"
    by (rule run_failures_sorted) (use q names times i in simp_all)
  moreover have "run_failures ?r (t0 # ts) = run_failures ?q (t0 # ts)"
    by (rule run_failures_first [OF r(1,2)])
  ultimately show ?thesis
    by (simp add: q r names ladder_entries cooldown_def PLAYBACK_EPISODE_MS_def PLAYBACK_COOLDOWN_MS_def
      Let_def del: run_failures.simps)
qed

lemma recovery_ladder_witness:
  "map (\<lambda>i. run_failures (new_recovery [js ''a'', [], js ''b'', js ''a'']) [0, 3000, 6000, 9000, 12000, 40000] ! i) [0, 1, 2, 3, 4, 5]
     = [TryTransport Webrtc (js ''a'') 2, TryTransport Mse (js ''a'') 3, TryTransport Mse (js ''b'') 4,
        Resubscribe 5, Cooldown 17000, Cooldown 45000]"
proof -
  have "first_occurrences (\<lambda>n. n \<noteq> []) [js ''a'', [], js ''b'', js ''a''] = [js ''a'', js ''b'']"
    by (simp add: first_occurrences_def js_filter_index_def js_indexOf_def)
  then have names: "streamNames (new_recovery [js ''a'', [], js ''b'', js ''a'']) = [js ''a'', js ''b'']"
    by (simp add: new_recovery_def)
  have times: "sorted [0, 3000, 6000, 9000, 12000, 40000 :: int]" by simp
  show ?thesis
    using recovery_ladder [OF names times, of 0] recovery_ladder [OF names times, of 1]
      recovery_ladder [OF names times, of 2] recovery_ladder [OF names times, of 3]
      recovery_ladder [OF names times, of 4] recovery_ladder [OF names times, of 5]
    by (simp del: run_failures.simps)
qed

subsection \<open>The budget of an episode\<close>

lemma run_failures_budget:
  assumes "episodeStartedAt r = Some t0" and "(t, st) \<in> set (zip ts (run_failures r ts))"
    and "\<not> is_cooldown st"
  shows "t < t0 + PLAYBACK_EPISODE_MS"
  using assms
proof (induction ts arbitrary: r)
  case (Cons u ts)
  obtain s r' where nf: "nextFailure (recordFailure r u) u = (s, r')" by force
  have started: "episodeStartedAt r' = Some t0"
    using nextFailure_started [OF recordFailure_started [OF Cons.prems(1)]] nf by (metis snd_conv)
  have "\<not> is_cooldown s \<Longrightarrow> u < t0 + PLAYBACK_EPISODE_MS"
    using nf nextFailure_running [OF recordFailure_started [OF Cons.prems(1)], of u u]
    by (auto simp: cooldown_def split: if_splits)
  then show ?case using Cons.prems Cons.IH [OF started] nf by auto
qed simp

lemma run_failures_count:
  assumes "episodeStartedAt r = Some t0"
  shows "length (filter (\<lambda>st. \<not> is_cooldown st) (run_failures r ts))
           \<le> length (ladder (streamNames r)) - ladderStep r"
  using assms
proof (induction ts arbitrary: r)
  case (Cons u ts)
  let ?r = "recordFailure r u"
  obtain s r' where nf: "nextFailure ?r u = (s, r')" by force
  have started: "episodeStartedAt r' = Some t0"
    using nextFailure_started [OF recordFailure_started [OF Cons.prems]] nf by (metis snd_conv)
  note IH = Cons.IH [OF started]
  have names: "streamNames r' = streamNames r" using nextFailure_fields(1) [of ?r u] nf by simp
  have step: "if is_cooldown s then ladderStep r \<le> ladderStep r'
    else ladderStep r' = Suc (ladderStep r) \<and> ladderStep r < length (ladder (streamNames r))"
    using nf nextFailure_running [OF recordFailure_started [OF Cons.prems], of u u]
      ladder_not_cooldown [of "ladderStep r" "streamNames r"]
    by (auto simp: cooldown_def split: if_splits)
  show ?case using IH step by (auto simp: nf names split: if_splits)
qed simp

text \<open>One episode spends at most four retries, and hands out none of them 30 seconds or
  more after it began.\<close>

theorem episode_budget:
  assumes "episodeStartedAt r = Some t0"
  shows "length (filter (\<lambda>st. \<not> is_cooldown st) (run_failures r ts)) \<le> 4
    \<and> (\<forall>i < length ts. is_cooldown (run_failures r ts ! i) \<or> ts ! i < t0 + PLAYBACK_EPISODE_MS)"
proof -
  have len: "length (run_failures r ts) = length ts" for r by simp
  have "(ts ! i, run_failures r ts ! i) \<in> set (zip ts (run_failures r ts))" if "i < length ts" for i
    using that len by (auto simp: set_zip)
  then show ?thesis
    using run_failures_count [OF assms, of ts] length_ladder [of "streamNames r"]
      run_failures_budget [OF assms] by fastforce
qed

lemma episode_budget_witness:
  "length (filter (\<lambda>st. \<not> is_cooldown st)
     (run_failures ((new_recovery [js ''a'', js ''b''])\<lparr>episodeStartedAt := Some 0\<rparr>) [1000, 29000, 30000])) \<le> 4
   \<and> is_cooldown (run_failures ((new_recovery [js ''a'', js ''b''])\<lparr>episodeStartedAt := Some 0\<rparr>)
       [1000, 29000, 30000] ! 2)"
  using episode_budget [of "(new_recovery [js ''a'', js ''b''])\<lparr>episodeStartedAt := Some 0\<rparr>" 0 "[1000, 29000, 30000]"]
  by (auto simp: PLAYBACK_EPISODE_MS_def dest!: spec [of _ 2] simp del: run_failures.simps)

subsection \<open>Only sustained progress restores the budget\<close>

fun gaps_within :: "int \<Rightarrow> int list \<Rightarrow> bool" where
  "gaps_within d (a # b # ts) = (b - a \<le> d \<and> gaps_within d (b # ts))"
| "gaps_within d _ = True"

lemma recordProgress_window:
  assumes "stableSince r = Some t0" and "lastProgressAt r = Some l" and "t - l \<le> PLAYBACK_STALL_MS"
  shows "recordProgress r t =
    (if t - t0 < PLAYBACK_STABLE_RESET_MS
     then (False, r\<lparr>stallStartedAt := None, stableSince := Some t0, lastProgressAt := Some t\<rparr>)
     else (True, r\<lparr>stallStartedAt := None, stableSince := Some t, lastProgressAt := Some t,
                   episodeStartedAt := None, ladderStep := 0\<rparr>))"
  using assms by (cases r) (simp add: recordProgress_def Let_def)

lemma recordProgress_first:
  "stableSince r = None \<Longrightarrow> recordProgress r t =
    (False, r\<lparr>stallStartedAt := None, stableSince := Some t, lastProgressAt := Some t\<rparr>)"
  by (simp add: recordProgress_def Let_def PLAYBACK_STABLE_RESET_MS_def)

lemma run_progress_window:
  assumes "stableSince r = Some t0" and "lastProgressAt r = Some l"
    and "gaps_within PLAYBACK_STALL_MS (l # ts)" and "\<forall>t \<in> set ts. t - t0 < PLAYBACK_STABLE_RESET_MS"
    and "run_progress r ts = (bs, r')"
  shows "True \<notin> set bs \<and> stableSince r' = Some t0 \<and> lastProgressAt r' = Some (last (l # ts))
    \<and> episodeStartedAt r' = episodeStartedAt r \<and> ladderStep r' = ladderStep r"
  using assms
proof (induction ts arbitrary: r l bs)
  case (Cons t ts)
  let ?r1 = "r\<lparr>stallStartedAt := None, stableSince := Some t0, lastProgressAt := Some t\<rparr>"
  have "recordProgress r t = (False, ?r1)"
    using Cons.prems by (simp add: recordProgress_window)
  with Cons.prems(5) obtain cs where run: "run_progress ?r1 ts = (cs, r')" and bs: "bs = False # cs"
    by (auto split: prod.splits)
  show ?case using Cons.IH [of ?r1 t cs] Cons.prems run bs by simp
qed simp

lemma gaps_within_snoc:
  "gaps_within d (a # ts @ [t]) \<longleftrightarrow> gaps_within d (a # ts) \<and> t - last (a # ts) \<le> d"
  by (induction ts arbitrary: a) auto

text \<open>Sustained progress restores the budget, and nothing less does. After a failure, while
  frames keep coming with gaps of at most 10 seconds, no progress resets the episode before
  the window is 5 seconds old, and the first one at 5 seconds or later does.\<close>

theorem stable_progress_resets:
  assumes "gaps_within PLAYBACK_STALL_MS (t0 # ts @ [t])"
    and "\<forall>u \<in> set ts. u - t0 < PLAYBACK_STABLE_RESET_MS"
    and "run_progress (recordFailure r f) (t0 # ts) = (bs, r')" and "recordProgress r' t = (b, r'')"
  shows "True \<notin> set bs \<and> episodeStartedAt r' = episodeStartedAt (recordFailure r f)
    \<and> ladderStep r' = ladderStep r \<and> (b \<longleftrightarrow> PLAYBACK_STABLE_RESET_MS \<le> t - t0)
    \<and> (b \<longrightarrow> remainingMs r'' now = PLAYBACK_EPISODE_MS \<and> ladderStep r'' = 0)"
proof -
  let ?r0 = "recordFailure r f"
  let ?r1 = "?r0\<lparr>stallStartedAt := None, stableSince := Some t0, lastProgressAt := Some t0\<rparr>"
  have "recordProgress ?r0 t0 = (False, ?r1)" by (simp add: recordProgress_first)
  with assms(3) obtain cs where cs: "run_progress ?r1 ts = (cs, r')" and bs: "bs = False # cs"
    by (auto split: prod.splits)
  have w: "True \<notin> set cs \<and> stableSince r' = Some t0 \<and> lastProgressAt r' = Some (last (t0 # ts))
    \<and> episodeStartedAt r' = episodeStartedAt ?r1 \<and> ladderStep r' = ladderStep ?r1"
    by (rule run_progress_window [OF _ _ _ assms(2) cs]) (use assms(1) gaps_within_snoc in auto)
  moreover have "t - last (t0 # ts) \<le> PLAYBACK_STALL_MS"
    using assms(1) gaps_within_snoc by blast
  ultimately have "recordProgress r' t =
    (if t - t0 < PLAYBACK_STABLE_RESET_MS
     then (False, r'\<lparr>stallStartedAt := None, stableSince := Some t0, lastProgressAt := Some t\<rparr>)
     else (True, r'\<lparr>stallStartedAt := None, stableSince := Some t, lastProgressAt := Some t,
                    episodeStartedAt := None, ladderStep := 0\<rparr>))"
    by (intro recordProgress_window) auto
  with assms(4) w bs show ?thesis by (auto simp: remainingMs_def split: if_splits)
qed

lemma stable_progress_resets_witness:
  "fst (recordProgress (snd (run_progress (recordFailure (new_recovery [js ''a'']) 0) [100, 2100, 4100])) 6100)"
proof -
  let ?run = "run_progress (recordFailure (new_recovery [js ''a'']) 0) [100, 2100, 4100]"
  obtain bs r' where run: "?run = (bs, r')" by force
  obtain b r'' where step: "recordProgress r' 6100 = (b, r'')" by force
  have "b \<longleftrightarrow> PLAYBACK_STABLE_RESET_MS \<le> 6100 - 100"
    using stable_progress_resets [OF _ _ run step]
    by (simp add: PLAYBACK_STALL_MS_def PLAYBACK_STABLE_RESET_MS_def)
  then show ?thesis by (simp only: run step PLAYBACK_STABLE_RESET_MS_def fst_conv snd_conv)
qed

section \<open>The scheduler under any clock\<close>

text \<open>Whatever the clock does with the closures it was given, each armed probe runs at most
  once, and once the scheduler has been cleared or re-armed no closure handed out before runs
  again.\<close>

theorem scheduler_fires_at_most_once:
  assumes "r = fold (\<lambda>op r. sched_exec clk mk r op) ops (sched_start c)"
    and "op = Clear \<or> (\<exists>until. op = Arm until)"
    and "r' = fold (\<lambda>op r. sched_exec clk mk r op) ops' (sched_exec clk mk r op)"
  shows "distinct (fired r') \<and> set (fired r') \<inter> set (issued r) \<subseteq> set (fired r)"
proof -
  have inv: "sched_inv r" unfolding assms(1) by (intro sched_inv_run sched_inv_start)
  then have "distinct (fired r')"
    unfolding assms(3) using sched_inv_run sched_inv_exec sched_inv_def by metis
  moreover have "g \<in> set (fired r)" if g: "g \<in> set (issued r)" "g \<in> set (fired r')" for g
  proof (rule ccontr)
    assume "g \<notin> set (fired r)"
    then have "g \<notin> set (fired (sched_exec clk mk r op))"
      using assms(2) by (auto split: prod.splits)
    moreover have "g < sgeneration (machine (sched_exec clk mk r op))"
      using inv g(1) assms(2)
      by (auto simp: sched_inv_def less_Suc_eq_le split: prod.splits
        dest!: scheduler_arm_gen scheduler_clear_gen)
    ultimately show False using g(2) fired_bounded assms(3) by blast
  qed
  ultimately show ?thesis by blast
qed

section \<open>The browser's clock\<close>

text \<open>
  \<open>browserPlaybackProbeClock\<close> over the event loop of the page: \<open>window.setTimeout\<close>
  hands out identifiers in increasing order and keeps the callback with its due time,
  \<open>window.clearTimeout\<close> forgets it. \<open>take_timer\<close> is the loop running a due timer.
\<close>

record 'cb event_loop =
  loopNow :: int
  nextTimer :: nat
  pendingTimers :: "(nat \<times> int \<times> 'cb) list"

definition set_timeout :: "'cb \<Rightarrow> int \<Rightarrow> 'cb event_loop \<Rightarrow> nat \<times> 'cb event_loop" where
  "set_timeout cb delayMs c =
     (nextTimer c, c\<lparr>nextTimer := Suc (nextTimer c),
        pendingTimers := map_set (nextTimer c) (loopNow c + delayMs, cb) (pendingTimers c)\<rparr>)"

definition clear_timeout :: "nat \<Rightarrow> 'cb event_loop \<Rightarrow> 'cb event_loop" where
  "clear_timeout i c = c\<lparr>pendingTimers := map_delete i (pendingTimers c)\<rparr>"

definition browserPlaybackProbeClock :: "('cb event_loop, 'cb) probe_clock" where
  "browserPlaybackProbeClock =
     \<lparr>clock_now = loopNow, clock_set = set_timeout, clock_clear = clear_timeout\<rparr>"

definition pending_callback :: "'cb event_loop \<Rightarrow> nat \<Rightarrow> 'cb option" where
  "pending_callback c i = map_option snd (map_of (pendingTimers c) i)"

definition loop_ok :: "'cb event_loop \<Rightarrow> bool" where
  "loop_ok c \<longleftrightarrow> map_ok (pendingTimers c) \<and> (\<forall>i \<ge> nextTimer c. map_of (pendingTimers c) i = None)"

definition empty_loop :: "'cb event_loop" where
  "empty_loop = \<lparr>loopNow = 0, nextTimer = 0, pendingTimers = []\<rparr>"

text \<open>What the scheduler relies on.\<close>

locale timeout_clock =
  fixes clk :: "('c, 'cb) probe_clock"
    and live :: "'c \<Rightarrow> nat \<Rightarrow> 'cb option"
    and clock_ok :: "'c \<Rightarrow> bool"
  assumes set_fresh: "clock_ok c \<Longrightarrow> clock_set clk cb d c = (i, c') \<Longrightarrow> live c i = None"
    and set_live: "clock_ok c \<Longrightarrow> clock_set clk cb d c = (i, c') \<Longrightarrow> live c' = (live c)(i \<mapsto> cb)"
    and set_ok: "clock_ok c \<Longrightarrow> clock_set clk cb d c = (i, c') \<Longrightarrow> clock_ok c'"
    and clear_live: "clock_ok c \<Longrightarrow> live (clock_clear clk i c) = (live c)(i := None)"
    and clear_ok: "clock_ok c \<Longrightarrow> clock_ok (clock_clear clk i c)"

text \<open>The closures of a scheduler that are pending: at most the one it is armed with.\<close>

definition owns_timer :: "('c \<Rightarrow> nat \<Rightarrow> 'cb option) \<Rightarrow> (nat \<Rightarrow> 'cb) \<Rightarrow> scheduler \<Rightarrow> 'c \<Rightarrow> bool" where
  "owns_timer live mk s c \<longleftrightarrow>
     (\<forall>i. timerId s = Some i \<longrightarrow> live c i = Some (mk (sgeneration s)))
     \<and> (\<forall>i g. live c i = Some (mk g) \<longrightarrow> timerId s = Some i)"

context timeout_clock
begin

lemma clear_owns:
  assumes "clock_ok c" and "owns_timer live mk s c" and "scheduler_clear clk s c = (s', c')"
  shows "clock_ok c' \<and> owns_timer live mk s' c' \<and> timerId s' = None \<and> (\<forall>i g. live c' i \<noteq> Some (mk g))"
proof (cases "timerId s")
  case None
  with assms(2) have none: "live c i \<noteq> Some (mk g)" for i g
    by (metis owns_timer_def option.distinct(1))
  from None assms(3) have "c' = c" and "timerId s' = None"
    by (auto simp: scheduler_clear_def Let_def)
  with none assms(1) show ?thesis by (simp add: owns_timer_def)
next
  case (Some j)
  with assms(3) have c': "c' = clock_clear clk j c" and s': "timerId s' = None"
    by (auto simp: scheduler_clear_def Let_def)
  have "live c' i \<noteq> Some (mk g)" for i g
    using assms(2) Some by (auto simp: c' clear_live [OF assms(1)] owns_timer_def)
  with s' c' assms(1) show ?thesis by (simp add: owns_timer_def clear_ok)
qed

lemma arm_owns:
  assumes ok: "clock_ok c" and owns: "owns_timer live mk s c"
    and arm: "scheduler_arm clk mk until s c = (s', c')"
  shows "clock_ok c' \<and> owns_timer live mk s' c' \<and> timerId s' \<noteq> None"
proof -
  obtain s1 c1 where cl: "scheduler_clear clk s c = (s1, c1)" by force
  obtain i c2 where st: "clock_set clk (mk (sgeneration s1)) (max 0 (until - clock_now clk c1)) c1 = (i, c2)"
    by force
  have s': "s' = s1\<lparr>timerId := Some i\<rparr>" and c': "c' = c2"
    using arm by (simp_all add: scheduler_arm_def cl st)
  note c = clear_owns [OF ok owns cl]
  show ?thesis
    using c set_live [OF _ st] set_ok [OF _ st] by (auto simp: owns_timer_def s' c' split: if_splits)
qed

end

lemma loop_ok_set:
  "loop_ok c \<Longrightarrow> set_timeout cb d c = (i, c') \<Longrightarrow>
   loop_ok c' \<and> pending_callback c i = None \<and> pending_callback c' = (pending_callback c)(i \<mapsto> cb)"
  by (auto simp: loop_ok_def set_timeout_def pending_callback_def fun_eq_iff)

interpretation browser_clock: timeout_clock browserPlaybackProbeClock pending_callback loop_ok
proof
  fix c :: "'cb event_loop" and cb d i c'
  assume ok: "loop_ok c"
  show "pending_callback (clock_clear browserPlaybackProbeClock i c) = (pending_callback c)(i := None)"
    by (auto simp: browserPlaybackProbeClock_def clear_timeout_def pending_callback_def)
  show "loop_ok (clock_clear browserPlaybackProbeClock i c)"
    using ok by (simp add: browserPlaybackProbeClock_def clear_timeout_def loop_ok_def)
  assume "clock_set browserPlaybackProbeClock cb d c = (i, c')"
  then have st: "set_timeout cb d c = (i, c')" by (simp add: browserPlaybackProbeClock_def)
  show "pending_callback c i = None" and "pending_callback c' = (pending_callback c)(i \<mapsto> cb)"
    and "loop_ok c'"
    using loop_ok_set [OF ok st] by simp_all
qed

text \<open>On the browser's clock a scheduler never has more than one of its timers pending.\<close>

lemma browser_arm_owns:
  assumes "loop_ok c" and "owns_timer pending_callback mk s c"
    and "scheduler_arm browserPlaybackProbeClock mk until s c = (s', c')"
  shows "loop_ok c' \<and> owns_timer pending_callback mk s' c' \<and> timerId s' \<noteq> None"
  using assms by (rule browser_clock.arm_owns)

lemma scheduler_fires_at_most_once_witness:
  "let clk = browserPlaybackProbeClock :: (nat event_loop, nat) probe_clock;
       r = fold (\<lambda>op r. sched_exec clk id r op) [Arm 10] (sched_start empty_loop);
       r' = fold (\<lambda>op r. sched_exec clk id r op) [Invoke 1, Arm 20, Invoke 1, Invoke 3, Invoke 3]
              (sched_exec clk id r Clear)
   in distinct (fired r') \<and> set (fired r') \<inter> set (issued r) \<subseteq> set (fired r)"
  unfolding Let_def by (rule scheduler_fires_at_most_once [OF refl _ refl]) simp

end
