(* ===== verification/Promoter.thy ===== *)
theory Promoter
  imports Recovery
begin

text \<open>
  \<open>PlaybackPrimaryPromoter\<close> of \<open>web/src/components/live/playbackRecovery.ts\<close>: while a
  stream plays from its fallback, probe the primary once a minute on both transports and
  report when it is back. A cycle that waits for its probe is a \<open>flight\<close>; its
  \<open>AbortController\<close> is identified with it. The callbacks are the events a step emits.
\<close>

section \<open>State and operations\<close>

record flight =
  flightToken :: nat
  flightTransport :: transport
  flightRest :: "transport list"
  flightAborted :: bool

record promoter =
  running :: bool
  pgeneration :: nat
  controller :: "nat option"
  preferredTransport :: transport
  callbacks :: bool
  pscheduler :: scheduler
  flights :: "(nat, flight) jsmap"
  nextFlight :: nat

datatype promo_event = ProbeStarted transport | ProbeFailed transport | Recovered transport

definition new_promoter :: promoter where
  "new_promoter = \<lparr>running = False, pgeneration = 0, controller = None, preferredTransport = Webrtc,
     callbacks = False, pscheduler = new_scheduler, flights = [], nextFlight = 0\<rparr>"

definition primaryProbeTransports :: "transport \<Rightarrow> transport list" where
  "primaryProbeTransports preferred = (if preferred = Webrtc then [Webrtc, Mse] else [Mse, Webrtc])"

text \<open>\<open>mk token g\<close> is the scheduler's closure that captured \<open>g\<close> around \<open>runCycle(token)\<close>.\<close>

definition promoter_schedule ::
  "('c, 'cb) probe_clock \<Rightarrow> (nat \<Rightarrow> nat \<Rightarrow> 'cb) \<Rightarrow> nat \<Rightarrow> promoter \<Rightarrow> 'c \<Rightarrow> promoter \<times> 'c" where
  "promoter_schedule clk mk token p c =
     (if \<not> running p \<or> token \<noteq> pgeneration p then (p, c)
      else (let (s, c') = scheduler_arm clk (mk token)
                            (clock_now clk c + PLAYBACK_PRIMARY_PROBE_INTERVAL_MS) (pscheduler p) c
            in (p\<lparr>pscheduler := s\<rparr>, c')))"

definition promoter_start ::
  "('c, 'cb) probe_clock \<Rightarrow> (nat \<Rightarrow> nat \<Rightarrow> 'cb) \<Rightarrow> transport \<Rightarrow> promoter \<Rightarrow> 'c \<Rightarrow> promoter \<times> 'c" where
  "promoter_start clk mk preferred p c =
     (if running p then (p, c)
      else (let p1 = p\<lparr>running := True, preferredTransport := preferred, callbacks := True,
                       pgeneration := Suc (pgeneration p)\<rparr>
            in promoter_schedule clk mk (pgeneration p1) p1 c))"

definition abort_flight :: "nat option \<Rightarrow> (nat, flight) jsmap \<Rightarrow> (nat, flight) jsmap" where
  "abort_flight ctl fs =
     (case ctl of
        None \<Rightarrow> fs
      | Some i \<Rightarrow> (case map_of fs i of
                    None \<Rightarrow> fs
                  | Some f \<Rightarrow> map_set i (f\<lparr>flightAborted := True\<rparr>) fs))"

definition promoter_stop :: "('c, 'cb) probe_clock \<Rightarrow> promoter \<Rightarrow> 'c \<Rightarrow> promoter \<times> 'c" where
  "promoter_stop clk p c =
     (let (s, c') = scheduler_clear clk (pscheduler p) c
      in (p\<lparr>running := False, pgeneration := Suc (pgeneration p), pscheduler := s,
            flights := abort_flight (controller p) (flights p), controller := None,
            callbacks := False\<rparr>, c'))"

text \<open>The \<open>for\<close> loop of \<open>runCycle\<close> from a given transport on, up to its next \<open>await\<close>.\<close>

fun run_cycle ::
  "('c, 'cb) probe_clock \<Rightarrow> (nat \<Rightarrow> nat \<Rightarrow> 'cb) \<Rightarrow> nat \<Rightarrow> transport list \<Rightarrow> promoter \<Rightarrow> 'c
     \<Rightarrow> promo_event list \<times> promoter \<times> 'c" where
  "run_cycle clk mk token [] p c = ([], promoter_schedule clk mk token p c)"
| "run_cycle clk mk token (t # rest) p c =
     (if \<not> running p \<or> token \<noteq> pgeneration p \<or> \<not> callbacks p then ([], p, c)
      else ([ProbeStarted t],
            p\<lparr>controller := Some (nextFlight p),
              flights := map_set (nextFlight p)
                \<lparr>flightToken = token, flightTransport = t, flightRest = rest, flightAborted = False\<rparr>
                (flights p),
              nextFlight := Suc (nextFlight p)\<rparr>, c))"

text \<open>The scheduler's closure.\<close>

definition promoter_timer ::
  "('c, 'cb) probe_clock \<Rightarrow> (nat \<Rightarrow> nat \<Rightarrow> 'cb) \<Rightarrow> nat \<Rightarrow> nat \<Rightarrow> promoter \<Rightarrow> 'c
     \<Rightarrow> promo_event list \<times> promoter \<times> 'c" where
  "promoter_timer clk mk token g p c =
     (case scheduler_fire g (pscheduler p) of
        (s, False) \<Rightarrow> ([], p\<lparr>pscheduler := s\<rparr>, c)
      | (s, True) \<Rightarrow> run_cycle clk mk token (primaryProbeTransports (preferredTransport p))
                      (p\<lparr>pscheduler := s\<rparr>) c)"

text \<open>The rest of the loop body, when the probe of flight \<open>i\<close> has settled (a rejection
  counts as not recovered).\<close>

definition probe_settled ::
  "('c, 'cb) probe_clock \<Rightarrow> (nat \<Rightarrow> nat \<Rightarrow> 'cb) \<Rightarrow> nat \<Rightarrow> bool \<Rightarrow> promoter \<Rightarrow> 'c
     \<Rightarrow> promo_event list \<times> promoter \<times> 'c" where
  "probe_settled clk mk i recovered p c =
     (case map_of (flights p) i of
        None \<Rightarrow> ([], p, c)
      | Some f \<Rightarrow>
          (let p1 = p\<lparr>flights := map_delete i (flights p)\<rparr>
           in if \<not> running p1 \<or> flightToken f \<noteq> pgeneration p1 \<or> flightAborted f \<or> \<not> callbacks p1
              then ([], p1, c)
              else (let p2 = p1\<lparr>controller := None\<rparr>
                    in if recovered
                       then ([Recovered (flightTransport f)], p2\<lparr>running := False, callbacks := False\<rparr>, c)
                       else (let (es, r) = run_cycle clk mk (flightToken f) (flightRest f) p2 c
                             in (ProbeFailed (flightTransport f) # es, r)))))"

section \<open>The invariant\<close>

text \<open>
  A flight is live when it would not be dropped at its guard, and stale when its probe has been
  told to stop and its cycle belongs to an earlier start; a running promoter waits for exactly one
  thing, its timer or its live flight, and every other flight is stale. \<open>live\<close> gives the closures pending on
  the clock; those of the promoter have the form \<open>mk token g\<close>.
\<close>

definition live_flight :: "promoter \<Rightarrow> nat \<Rightarrow> bool" where
  "live_flight p i \<longleftrightarrow> (\<exists>f. map_of (flights p) i = Some f \<and> flightToken f = pgeneration p \<and> \<not> flightAborted f)"

definition stale_flight :: "promoter \<Rightarrow> flight \<Rightarrow> bool" where
  "stale_flight p f \<longleftrightarrow> flightAborted f \<and> flightToken f < pgeneration p"

definition promo_inv ::
  "('c \<Rightarrow> nat \<Rightarrow> 'cb option) \<Rightarrow> (nat \<Rightarrow> nat \<Rightarrow> 'cb) \<Rightarrow> promoter \<Rightarrow> 'c \<Rightarrow> bool" where
  "promo_inv live mk p c \<longleftrightarrow>
     callbacks p = running p
     \<and> (\<forall>i g token. live c i = Some (mk token g) \<longrightarrow>
          timerId (pscheduler p) = Some i \<and> g = sgeneration (pscheduler p) \<and> token = pgeneration p)
     \<and> (\<forall>i. timerId (pscheduler p) = Some i \<longrightarrow>
          live c i = Some (mk (pgeneration p) (sgeneration (pscheduler p))))
     \<and> (\<forall>i f. map_of (flights p) i = Some f \<longrightarrow> controller p = Some i \<or> stale_flight p f)
     \<and> (\<forall>i. controller p = Some i \<longrightarrow> live_flight p i)
     \<and> (\<forall>i \<ge> nextFlight p. map_of (flights p) i = None)
     \<and> (\<forall>i f. map_of (flights p) i = Some f \<longrightarrow> flightToken f \<le> pgeneration p)
     \<and> (running p \<longrightarrow> (timerId (pscheduler p) = None) \<noteq> (controller p = None))
     \<and> (\<not> running p \<longrightarrow> timerId (pscheduler p) = None \<and> controller p = None)"

text \<open>The parts of the invariant.\<close>

lemma promo_invD:
  assumes "promo_inv live mk p c"
  shows promo_callbacks: "callbacks p = running p"
    and promo_pending: "live c i = Some (mk token g) \<Longrightarrow>
      timerId (pscheduler p) = Some i \<and> g = sgeneration (pscheduler p) \<and> token = pgeneration p"
    and promo_timer: "timerId (pscheduler p) = Some i \<Longrightarrow>
      live c i = Some (mk (pgeneration p) (sgeneration (pscheduler p)))"
    and promo_others: "map_of (flights p) i = Some f \<Longrightarrow> controller p = Some i \<or> stale_flight p f"
    and promo_controller: "controller p = Some i \<Longrightarrow> live_flight p i"
    and promo_fresh: "nextFlight p \<le> i \<Longrightarrow> map_of (flights p) i = None"
    and promo_token: "map_of (flights p) i = Some f \<Longrightarrow> flightToken f \<le> pgeneration p"
    and promo_driver: "running p \<Longrightarrow> (timerId (pscheduler p) = None) \<noteq> (controller p = None)"
    and promo_stopped: "\<not> running p \<Longrightarrow> timerId (pscheduler p) = None \<and> controller p = None"
proof -
  note I = assms [unfolded promo_inv_def]
  show "callbacks p = running p"
    by (rule I [THEN conjunct1])
  show "live c i = Some (mk token g) \<Longrightarrow>
      timerId (pscheduler p) = Some i \<and> g = sgeneration (pscheduler p) \<and> token = pgeneration p"
    by (rule I [THEN conjunct2, THEN conjunct1, rule_format])
  show "timerId (pscheduler p) = Some i \<Longrightarrow>
      live c i = Some (mk (pgeneration p) (sgeneration (pscheduler p)))"
    by (rule I [THEN conjunct2, THEN conjunct2, THEN conjunct1, rule_format])
  show "map_of (flights p) i = Some f \<Longrightarrow> controller p = Some i \<or> stale_flight p f"
    by (rule I [THEN conjunct2, THEN conjunct2, THEN conjunct2, THEN conjunct1, rule_format])
  show "controller p = Some i \<Longrightarrow> live_flight p i"
    by (rule I [THEN conjunct2, THEN conjunct2, THEN conjunct2, THEN conjunct2, THEN conjunct1, rule_format])
  show "nextFlight p \<le> i \<Longrightarrow> map_of (flights p) i = None"
    by (rule I [THEN conjunct2, THEN conjunct2, THEN conjunct2, THEN conjunct2, THEN conjunct2, THEN conjunct1, rule_format])
  show "map_of (flights p) i = Some f \<Longrightarrow> flightToken f \<le> pgeneration p"
    by (rule I [THEN conjunct2, THEN conjunct2, THEN conjunct2, THEN conjunct2, THEN conjunct2, THEN conjunct2, THEN conjunct1, rule_format])
  show "running p \<Longrightarrow> (timerId (pscheduler p) = None) \<noteq> (controller p = None)"
    by (rule I [THEN conjunct2, THEN conjunct2, THEN conjunct2, THEN conjunct2, THEN conjunct2, THEN conjunct2, THEN conjunct2, THEN conjunct1, rule_format])
  show "\<not> running p \<Longrightarrow> timerId (pscheduler p) = None \<and> controller p = None"
    by (rule I [THEN conjunct2, THEN conjunct2, THEN conjunct2, THEN conjunct2, THEN conjunct2, THEN conjunct2, THEN conjunct2, THEN conjunct2, rule_format])
qed

lemma promo_live: "promo_inv live mk p c \<Longrightarrow> live_flight p i \<Longrightarrow> controller p = Some i"
  using promo_others [of live mk p c i] by (auto simp: live_flight_def stale_flight_def)

text \<open>A promoter between two waits: no timer, no live flight.\<close>

definition promo_idle ::
  "('c \<Rightarrow> nat \<Rightarrow> 'cb option) \<Rightarrow> (nat \<Rightarrow> nat \<Rightarrow> 'cb) \<Rightarrow> promoter \<Rightarrow> 'c \<Rightarrow> bool" where
  "promo_idle live mk p c \<longleftrightarrow> callbacks p = running p
     \<and> (\<forall>i token g. live c i \<noteq> Some (mk token g)) \<and> timerId (pscheduler p) = None
     \<and> controller p = None \<and> (\<forall>i f. map_of (flights p) i = Some f \<longrightarrow> stale_flight p f)
     \<and> (\<forall>i \<ge> nextFlight p. map_of (flights p) i = None)
     \<and> (\<forall>i f. map_of (flights p) i = Some f \<longrightarrow> flightToken f \<le> pgeneration p)"

lemma idle_inv: "promo_idle live mk p c \<Longrightarrow> \<not> running p \<Longrightarrow> promo_inv live mk p c"
  by (simp add: promo_idle_def promo_inv_def)

lemma idle_stop: "promo_idle live mk p c \<Longrightarrow> promo_inv live mk (p\<lparr>running := False, callbacks := False\<rparr>) c"
  by (rule idle_inv) (simp_all add: promo_idle_def stale_flight_def)

lemma no_timer_none: "promo_inv live mk p c \<Longrightarrow> timerId (pscheduler p) = None \<Longrightarrow> live c i \<noteq> Some (mk token g)"
  using promo_pending [of live mk p c i token g] by auto

lemma stopped_idle: "promo_inv live mk p c \<Longrightarrow> \<not> running p \<Longrightarrow> promo_idle live mk p c"
  unfolding promo_idle_def
  using promo_others [of live mk p c] promo_stopped [of live mk p c]
  by (intro conjI allI impI) (auto dest: promo_callbacks no_timer_none promo_fresh promo_token)

lemma promo_inv_cong:
  assumes "\<And>i token g. live c' i = Some (mk token g) \<longleftrightarrow> live c i = Some (mk token g)"
  shows "promo_inv live mk p c' = promo_inv live mk p c"
  unfolding promo_inv_def assms ..

lemma live_flight_cong:
  "flights q = flights p \<Longrightarrow> pgeneration q = pgeneration p \<Longrightarrow> live_flight q i = live_flight p i"
  by (simp add: live_flight_def)

lemma map_of_abort:
  "map_of (abort_flight ctl fs) i =
     (if ctl = Some i then map_option (\<lambda>f. f\<lparr>flightAborted := True\<rparr>) (map_of fs i) else map_of fs i)"
  by (auto simp: abort_flight_def split: option.splits)

text \<open>A settled probe is dropped at its guard, or it is the promoter's only live flight.\<close>

lemma settled_stale:
  assumes "\<not> (running p \<and> live_flight p i)"
    and "probe_settled clk mk i b p c = (es, q)"
  shows "es = [] \<and> q = (p\<lparr>flights := map_delete i (flights p)\<rparr>, c) \<or> es = [] \<and> q = (p, c)"
proof (cases "map_of (flights p) i")
  case (Some f)
  with assms(1) have "\<not> running p \<or> flightToken f \<noteq> pgeneration p \<or> flightAborted f"
    by (auto simp: live_flight_def)
  with Some assms(2) show ?thesis by (auto simp: probe_settled_def Let_def)
qed (use assms in \<open>simp add: probe_settled_def\<close>)

lemma settled_live:
  assumes inv: "promo_inv live mk p c" and run: "running p" and live: "live_flight p i"
  obtains f where "map_of (flights p) i = Some f" "flightToken f = pgeneration p"
    and "promo_idle live mk (p\<lparr>flights := map_delete i (flights p), controller := None\<rparr>) c"
    and "probe_settled clk mk i b p c =
      (let p2 = p\<lparr>flights := map_delete i (flights p), controller := None\<rparr>
       in if b then ([Recovered (flightTransport f)], p2\<lparr>running := False, callbacks := False\<rparr>, c)
          else (let (es, r) = run_cycle clk mk (pgeneration p) (flightRest f) p2 c
                in (ProbeFailed (flightTransport f) # es, r)))"
proof -
  from live obtain f where f: "map_of (flights p) i = Some f" "flightToken f = pgeneration p" "\<not> flightAborted f"
    by (auto simp: live_flight_def)
  let ?p = "p\<lparr>flights := map_delete i (flights p), controller := None\<rparr>"
  have ctl: "controller p = Some i" by (rule promo_live [OF inv live])
  then have "timerId (pscheduler p) = None" using promo_driver [OF inv run] by simp
  moreover have "stale_flight ?p g" if "map_of (flights ?p) j = Some g" for j g
    using promo_others [OF inv, of j g] that ctl by (auto simp: stale_flight_def split: if_splits)
  ultimately have "promo_idle live mk ?p c"
    unfolding promo_idle_def
    using no_timer_none [OF inv] promo_callbacks [OF inv] promo_fresh [OF inv]
      promo_token [OF inv] by simp
  then show ?thesis
    using that [OF f(1,2)] f run promo_callbacks [OF inv] by (simp add: probe_settled_def Let_def)
qed

section \<open>Every operation keeps the invariant\<close>

text \<open>
  The contract a promoter needs of its clock is the scheduler's, with closures that can be told
  apart. The clock may be shared: an operation leaves the closures of others alone.
\<close>

definition same_others ::
  "('c \<Rightarrow> nat \<Rightarrow> 'cb option) \<Rightarrow> (nat \<Rightarrow> nat \<Rightarrow> 'cb) \<Rightarrow> 'c \<Rightarrow> 'c \<Rightarrow> bool" where
  "same_others live mk c c' \<longleftrightarrow>
     (\<forall>i cb. (\<forall>token g. cb \<noteq> mk token g) \<longrightarrow> (live c' i = Some cb \<longleftrightarrow> live c i = Some cb))"

lemma same_others_refl [simp]: "same_others live mk c c"
  by (simp add: same_others_def)

lemma same_others_trans: "same_others live mk a b \<Longrightarrow> same_others live mk b c \<Longrightarrow> same_others live mk a c"
  by (simp add: same_others_def)

locale promoter_clock = timeout_clock clk live clock_ok
  for clk :: "('c, 'cb) probe_clock" and live :: "'c \<Rightarrow> nat \<Rightarrow> 'cb option" and clock_ok :: "'c \<Rightarrow> bool" +
  fixes mk :: "nat \<Rightarrow> nat \<Rightarrow> 'cb"
  assumes mk_inject: "mk token g = mk token' g' \<longleftrightarrow> token = token' \<and> g = g'"
begin

lemma clear_others: "clock_ok c \<Longrightarrow> live c i = Some (mk token g) \<Longrightarrow> same_others live mk c (clock_clear clk i c)"
  by (auto simp: same_others_def clear_live)

lemma schedule_inv:
  assumes idle: "promo_idle live mk p c" and ok: "clock_ok c" and run: "running p"
    and sch: "promoter_schedule clk mk (pgeneration p) p c = (q, c')"
  shows "promo_inv live mk q c' \<and> clock_ok c' \<and> same_others live mk c c' \<and> running q"
proof -
  obtain s where arm: "scheduler_arm clk (mk (pgeneration p))
      (clock_now clk c + PLAYBACK_PRIMARY_PROBE_INTERVAL_MS) (pscheduler p) c = (s, c')"
    and q: "q = p\<lparr>pscheduler := s\<rparr>"
    using sch run by (auto simp: promoter_schedule_def split: prod.splits)
  have none: "timerId (pscheduler p) = None" using idle by (simp add: promo_idle_def)
  then obtain i d where st: "clock_set clk (mk (pgeneration p) (sgeneration s)) d c = (i, c')"
    and s: "timerId s = Some i" "sgeneration s = Suc (sgeneration (pscheduler p))"
    using arm by (auto simp: scheduler_arm_def scheduler_clear_def Let_def split: prod.splits)
  note live = set_live [OF ok st] and fresh = set_fresh [OF ok st]
  have "same_others live mk c c'" using live fresh by (auto simp: same_others_def)
  moreover have "promo_inv live mk q c'"
    using idle run s live by (auto simp: q promo_inv_def promo_idle_def live_flight_def stale_flight_def mk_inject split: if_splits)
  ultimately show ?thesis using set_ok [OF ok st] run by (simp add: q)
qed

lemma run_cycle_inv:
  assumes idle: "promo_idle live mk p c" and ok: "clock_ok c" and run: "running p"
    and cyc: "run_cycle clk mk (pgeneration p) ts p c = (es, q, c')"
  shows "promo_inv live mk q c' \<and> clock_ok c' \<and> same_others live mk c c' \<and> running q"
proof (cases ts)
  case Nil
  with cyc schedule_inv [OF idle ok run] show ?thesis by simp
next
  case (Cons t rest)
  with idle run cyc have "q = p\<lparr>controller := Some (nextFlight p),
      flights := map_set (nextFlight p)
        \<lparr>flightToken = pgeneration p, flightTransport = t, flightRest = rest, flightAborted = False\<rparr> (flights p),
      nextFlight := Suc (nextFlight p)\<rparr> \<and> c' = c"
    by (simp add: promo_idle_def)
  with idle run ok show ?thesis
    by (simp add: promo_inv_def promo_idle_def live_flight_def stale_flight_def)
qed

lemma timer_inv:
  assumes inv: "promo_inv live mk p c" and ok: "clock_ok c" and pend: "live c i = Some (mk token g)"
    and fire: "promoter_timer clk mk token g p (clock_clear clk i c) = (es, q, c')"
  shows "promo_inv live mk q c' \<and> clock_ok c' \<and> same_others live mk c c' \<and> running q"
proof -
  have i: "timerId (pscheduler p) = Some i" "g = sgeneration (pscheduler p)" "token = pgeneration p"
    using promo_pending [OF inv pend] by simp_all
  have run: "running p" and ctl: "controller p = None"
    using promo_stopped [OF inv] promo_driver [OF inv] i by auto
  let ?p = "p\<lparr>pscheduler := \<lparr>timerId = None, sgeneration = Suc g\<rparr>\<rparr>"
  have none: "live (clock_clear clk i c) j \<noteq> Some (mk token' g')" for j token' g'
    using clear_live [OF ok, of i] promo_pending [OF inv, of j token' g'] i(1) by auto
  have stale: "stale_flight p f" if "map_of (flights p) j = Some f" for j f
    using promo_others [OF inv that] ctl by simp
  have "promo_idle live mk ?p (clock_clear clk i c)"
    unfolding promo_idle_def
    using none stale run ctl promo_callbacks [OF inv] promo_fresh [OF inv] promo_token [OF inv]
    by (simp add: stale_flight_def)
  moreover have "run_cycle clk mk (pgeneration ?p) (primaryProbeTransports (preferredTransport p)) ?p
      (clock_clear clk i c) = (es, q, c')"
    using fire i by (cases "pscheduler p") (simp add: promoter_timer_def scheduler_fire_def)
  moreover have "running ?p" using run by simp
  ultimately have *: "promo_inv live mk q c' \<and> clock_ok c' \<and> same_others live mk (clock_clear clk i c) c' \<and> running q"
    by (intro run_cycle_inv clear_ok [OF ok])
  with same_others_trans [OF clear_others [OF ok pend]] show ?thesis by blast
qed

lemma settled_inv:
  assumes inv: "promo_inv live mk p c" and ok: "clock_ok c"
    and set: "probe_settled clk mk i b p c = (es, q, c')"
  shows "promo_inv live mk q c' \<and> clock_ok c' \<and> same_others live mk c c'"
proof (cases "running p \<and> live_flight p i")
  case True
  then have run: "running p" and lv: "live_flight p i" by simp_all
  from inv run lv obtain f where "map_of (flights p) i = Some f" "flightToken f = pgeneration p"
    and idle: "promo_idle live mk (p\<lparr>flights := map_delete i (flights p), controller := None\<rparr>) c"
    and eq: "probe_settled clk mk i b p c =
      (let p2 = p\<lparr>flights := map_delete i (flights p), controller := None\<rparr>
       in if b then ([Recovered (flightTransport f)], p2\<lparr>running := False, callbacks := False\<rparr>, c)
          else (let (es, r) = run_cycle clk mk (pgeneration p) (flightRest f) p2 c
                in (ProbeFailed (flightTransport f) # es, r)))"
    by (rule settled_live [where clk = clk and b = b])
  show ?thesis
  proof (cases b)
    case True
    then show ?thesis using eq set idle_stop [OF idle] ok by (simp add: Let_def)
  next
    case False
    then show ?thesis
      using eq set run_cycle_inv [OF idle ok] run by (auto simp: Let_def split: prod.splits)
  qed
next
  case False
  have drop: "q = p\<lparr>flights := map_delete i (flights p)\<rparr> \<and> c' = c \<or> q = p \<and> c' = c"
    using settled_stale [OF False set] by auto
  have ctl: "controller p \<noteq> Some i"
    using False promo_stopped [OF inv] promo_controller [OF inv] by (metis option.distinct(1))
  have live: "live_flight (p\<lparr>flights := map_delete i (flights p)\<rparr>) j \<longleftrightarrow> j \<noteq> i \<and> live_flight p j" for j
    by (auto simp: live_flight_def)
  have "promo_inv live mk (p\<lparr>flights := map_delete i (flights p)\<rparr>) c"
    unfolding promo_inv_def
  proof (intro conjI allI impI)
    fix k g token
    assume "live c k = Some (mk token g)"
    from promo_pending [OF inv this]
    show "timerId (pscheduler (p\<lparr>flights := map_delete i (flights p)\<rparr>)) = Some k"
      and "g = sgeneration (pscheduler (p\<lparr>flights := map_delete i (flights p)\<rparr>))"
      and "token = pgeneration (p\<lparr>flights := map_delete i (flights p)\<rparr>)" by simp_all
  next
    fix k
    assume "controller (p\<lparr>flights := map_delete i (flights p)\<rparr>) = Some k"
    then have "controller p = Some k" by simp
    then show "live_flight (p\<lparr>flights := map_delete i (flights p)\<rparr>) k"
      using promo_controller [OF inv] ctl live by auto
  next
    fix k f
    assume "map_of (flights (p\<lparr>flights := map_delete i (flights p)\<rparr>)) k = Some f"
    then have "map_of (flights p) k = Some f" by (simp split: if_splits)
    then show "controller (p\<lparr>flights := map_delete i (flights p)\<rparr>) = Some k
        \<or> stale_flight (p\<lparr>flights := map_delete i (flights p)\<rparr>) f"
      using promo_others [OF inv] by (simp add: stale_flight_def)
  next
    fix k f
    assume "map_of (flights (p\<lparr>flights := map_delete i (flights p)\<rparr>)) k = Some f"
    then have "map_of (flights p) k = Some f" by (simp split: if_splits)
    then show "flightToken f \<le> pgeneration (p\<lparr>flights := map_delete i (flights p)\<rparr>)"
      using promo_token [OF inv] by simp
  qed (use promo_callbacks [OF inv] promo_timer [OF inv] promo_fresh [OF inv]
         promo_driver [OF inv] promo_stopped [OF inv] in \<open>simp_all add: live\<close>)
  with drop inv ok show ?thesis by auto
qed

lemma start_inv:
  assumes inv: "promo_inv live mk p c" and ok: "clock_ok c"
    and start: "promoter_start clk mk pref p c = (q, c')"
  shows "promo_inv live mk q c' \<and> clock_ok c' \<and> same_others live mk c c' \<and> running q"
proof (cases "running p")
  case False
  let ?p = "p\<lparr>running := True, preferredTransport := pref, callbacks := True, pgeneration := Suc (pgeneration p)\<rparr>"
  note idle = stopped_idle [OF inv False]
  from idle have "promo_idle live mk ?p c"
    by (simp add: promo_idle_def stale_flight_def le_SucI less_SucI)
  from schedule_inv [OF this ok] False start show ?thesis by (simp add: promoter_start_def Let_def)
qed (use inv ok start in \<open>simp add: promoter_start_def\<close>)

lemma stop_inv:
  assumes inv: "promo_inv live mk p c" and ok: "clock_ok c"
    and stop: "promoter_stop clk p c = (q, c')"
  shows "promo_inv live mk q c' \<and> clock_ok c' \<and> same_others live mk c c' \<and> \<not> running q"
proof -
  obtain s where cl: "scheduler_clear clk (pscheduler p) c = (s, c')"
    and q: "q = p\<lparr>running := False, pgeneration := Suc (pgeneration p), pscheduler := s,
            flights := abort_flight (controller p) (flights p), controller := None, callbacks := False\<rparr>"
    using stop by (auto simp: promoter_stop_def split: prod.splits)
  have none: "timerId s = None" using cl timerId_clear by (metis fst_conv)
  have "clock_ok c' \<and> same_others live mk c c' \<and> (\<forall>i token g. live c' i \<noteq> Some (mk token g))"
  proof (cases "timerId (pscheduler p)")
    case None
    with cl show ?thesis using no_timer_none [OF inv None] ok
      by (simp add: scheduler_clear_def Let_def)
  next
    case (Some j)
    with cl have c': "c' = clock_clear clk j c" by (simp add: scheduler_clear_def Let_def)
    have "live c' i \<noteq> Some (mk token g)" for i token g
      using clear_live [OF ok, of j] promo_pending [OF inv, of i token g] Some by (auto simp: c')
    then show ?thesis
      using clear_ok [OF ok] clear_others [OF ok promo_timer [OF inv Some]] by (simp add: c')
  qed
  moreover have "stale_flight q f" if "map_of (flights q) i = Some f" for i f
    using that promo_token [OF inv, of i] promo_others [OF inv, of i]
    by (fastforce simp: q stale_flight_def map_of_abort less_Suc_eq_le split: if_splits)
  moreover from calculation have "promo_idle live mk q c'"
    using none promo_fresh [OF inv] promo_token [OF inv]
    by (auto simp: q promo_idle_def map_of_abort intro: le_SucI)
  ultimately show ?thesis
    using idle_inv [of live mk q c'] by (simp add: q)
qed

end

section \<open>Steps on the browser's clock\<close>

abbreviation cycle_closure :: "nat \<Rightarrow> nat \<Rightarrow> nat \<times> nat" where
  "cycle_closure token g \<equiv> (g, token)"

lemma browser_clock_simps [simp]:
  "clock_set browserPlaybackProbeClock = set_timeout"
  "clock_clear browserPlaybackProbeClock = clear_timeout"
  "clock_now browserPlaybackProbeClock = loopNow"
  by (simp_all add: browserPlaybackProbeClock_def)

interpretation browser_promoter: promoter_clock browserPlaybackProbeClock pending_callback loop_ok cycle_closure
  by unfold_locales auto

type_synonym promo_state = "promoter \<times> (nat \<times> nat) event_loop"

inductive promo_step :: "promo_state \<Rightarrow> promo_event list \<Rightarrow> promo_state \<Rightarrow> bool" where
  start: "promoter_start browserPlaybackProbeClock cycle_closure pref p c = q \<Longrightarrow>
     promo_step (p, c) [] q"
| stop: "promoter_stop browserPlaybackProbeClock p c = q \<Longrightarrow> promo_step (p, c) [] q"
| timer: "pending_callback c i = Some (cycle_closure token g) \<Longrightarrow>
     promoter_timer browserPlaybackProbeClock cycle_closure token g p (clear_timeout i c) = (es, q) \<Longrightarrow>
     promo_step (p, c) es q"
| settled: "probe_settled browserPlaybackProbeClock cycle_closure i b p c = (es, q) \<Longrightarrow>
     promo_step (p, c) es q"
| wait: "loopNow c \<le> t \<Longrightarrow> promo_step (p, c) [] (p, c\<lparr>loopNow := t\<rparr>)"

inductive promo_reach :: "promo_state \<Rightarrow> bool" where
  init: "promo_reach (new_promoter, empty_loop)"
| step: "promo_reach s \<Longrightarrow> promo_step s es s' \<Longrightarrow> promo_reach s'"

definition promo_ok :: "promo_state \<Rightarrow> bool" where
  "promo_ok s \<longleftrightarrow> promo_inv pending_callback cycle_closure (fst s) (snd s) \<and> loop_ok (snd s)"

lemma later_callbacks [simp]:
  "pending_callback (c\<lparr>loopNow := t\<rparr>) = pending_callback c"
  "loop_ok (c\<lparr>loopNow := t\<rparr>) = loop_ok c"
  by (rule ext, simp add: pending_callback_def) (simp add: loop_ok_def)

lemma promo_inv_later:
  "promo_inv pending_callback mk p (c\<lparr>loopNow := t\<rparr>) = promo_inv pending_callback mk p c"
  unfolding promo_inv_def later_callbacks ..

lemmas browser_promoter_inv =
  browser_promoter.start_inv browser_promoter.stop_inv
  browser_promoter.timer_inv [unfolded browser_clock_simps] browser_promoter.settled_inv

lemma promo_step_ok: "promo_step s es s' \<Longrightarrow> promo_ok s \<Longrightarrow> promo_ok s'"
proof (induction rule: promo_step.induct)
  case (start pref p c q)
  then show ?case
    unfolding promo_ok_def fst_conv snd_conv using browser_promoter_inv(1) [of p c pref "fst q" "snd q"]
    by (metis prod.collapse)
next
  case (stop p c q)
  then show ?case
    unfolding promo_ok_def fst_conv snd_conv using browser_promoter_inv(2) [of p c "fst q" "snd q"]
    by (metis prod.collapse)
next
  case (timer c i token g p es q)
  obtain p' c' where q: "q = (p', c')" by force
  have "promo_inv pending_callback cycle_closure p c" and "loop_ok c"
    using timer.prems by (simp_all add: promo_ok_def)
  from browser_promoter_inv(3) [OF this timer.hyps [unfolded q]] show ?case
    by (simp add: promo_ok_def q)
next
  case (settled i b p c es q)
  then show ?case
    unfolding promo_ok_def fst_conv snd_conv using browser_promoter_inv(4) [of p c i b es "fst q" "snd q"]
    by (metis prod.collapse)
next
  case (wait c t p)
  then show ?case by (simp add: promo_ok_def promo_inv_later)
qed

lemma new_promoter_inv: "promo_inv live mk new_promoter c \<longleftrightarrow> (\<forall>i token g. live c i \<noteq> Some (mk token g))"
  by (auto simp: promo_inv_def new_promoter_def new_scheduler_def live_flight_def)

lemma promo_reach_ok: "promo_reach s \<Longrightarrow> promo_ok s"
proof (induction rule: promo_reach.induct)
  case init
  show ?case by (simp add: promo_ok_def new_promoter_inv empty_loop_def loop_ok_def pending_callback_def)
qed (rule promo_step_ok)

lemma promo_reach_inv: "promo_reach (p, c) \<Longrightarrow> promo_inv pending_callback cycle_closure p c"
  using promo_reach_ok promo_ok_def by fastforce

text \<open>Every closure on the promoter's own loop is one of its own.\<close>

lemma browser_no_timer:
  "promo_inv pending_callback cycle_closure p c \<Longrightarrow> timerId (pscheduler p) = None \<Longrightarrow> pending_callback c i = None"
  using no_timer_none [of pending_callback cycle_closure p c i] by (cases "pending_callback c i") auto

lemma browser_timer_only:
  "promo_inv pending_callback cycle_closure p c \<Longrightarrow> pending_callback c i \<noteq> None \<Longrightarrow> timerId (pscheduler p) = Some i"
  using promo_pending [of pending_callback cycle_closure p c i] by (cases "pending_callback c i") auto

section \<open>Properties\<close>

text \<open>C11: the promoter is never stuck and never doubled. In every reachable state a running
  promoter waits for exactly one thing, its pending timer or its one live probe. A promoter that is
  not running has no pending timer, and every probe it has begun and that has not settled has been
  told to abort and carries the token of an earlier start, so that its answer is dropped.\<close>

theorem promoter_one_driver:
  assumes "promo_reach (p, c)"
  shows "(if running p
      then (\<exists>i. pending_callback c i \<noteq> None \<and> (\<forall>j. pending_callback c j \<noteq> None \<longrightarrow> j = i) \<and> (\<forall>j. \<not> live_flight p j))
         \<or> ((\<forall>i. pending_callback c i = None) \<and> (\<exists>i. live_flight p i \<and> (\<forall>j. live_flight p j \<longrightarrow> j = i)))
      else (\<forall>i. pending_callback c i = None)
         \<and> (\<forall>i f. map_of (flights p) i = Some f \<longrightarrow> flightAborted f \<and> flightToken f < pgeneration p))"
proof -
  note inv = promo_reach_inv [OF assms]
  show ?thesis
  proof (cases "running p")
    case False
    then have "timerId (pscheduler p) = None" and "controller p = None"
      using promo_stopped [OF inv] by simp_all
    with False browser_no_timer [OF inv] promo_others [OF inv] show ?thesis
      by (auto simp: stale_flight_def)
  next
    case run: True
    show ?thesis
    proof (cases "timerId (pscheduler p)")
      case None
      then obtain i where ctl: "controller p = Some i" using promo_driver [OF inv run] by auto
      have "live_flight p i" by (rule promo_controller [OF inv ctl])
      moreover have "j = i" if "live_flight p j" for j
        using promo_live [OF inv that] ctl by simp
      moreover have "\<forall>j. pending_callback c j = None" using browser_no_timer [OF inv None] by simp
      ultimately show ?thesis using run by metis
    next
      case (Some i)
      then have ctl: "controller p = None" using promo_driver [OF inv run] by auto
      have "\<not> live_flight p j" for j
        using promo_live [OF inv] ctl by (metis option.distinct(1))
      moreover have "j = i" if "pending_callback c j \<noteq> None" for j
        using browser_timer_only [OF inv that] Some by simp
      ultimately show ?thesis using promo_timer [OF inv Some] run by (metis option.distinct(1))
    qed
  qed
qed

text \<open>A run that is stopped while its first probe is under way: the probe is aborted.\<close>

lemma promoter_one_driver_witness:
  "let run = (\<lambda>s. promoter_timer browserPlaybackProbeClock cycle_closure 1 1 (fst s) (clear_timeout 0 (snd s)));
       s = snd (run (promoter_start browserPlaybackProbeClock cycle_closure Webrtc new_promoter empty_loop));
       q = fst (promoter_stop browserPlaybackProbeClock (fst s) (snd s))
   in live_flight (fst s) 0 \<and> (\<exists>f. map_of (flights q) 0 = Some f \<and> flightAborted f \<and> flightToken f < pgeneration q)"
proof -
  let ?a = "promoter_start browserPlaybackProbeClock cycle_closure Webrtc new_promoter empty_loop"
  let ?b = "promoter_timer browserPlaybackProbeClock cycle_closure 1 1 (fst ?a) (clear_timeout 0 (snd ?a))"
  let ?c = "promoter_stop browserPlaybackProbeClock (fst (snd ?b)) (snd (snd ?b))"
  note defs = promoter_start_def promoter_schedule_def scheduler_arm_def scheduler_clear_def Let_def
    new_promoter_def new_scheduler_def empty_loop_def set_timeout_def clear_timeout_def promoter_timer_def
    scheduler_fire_def primaryProbeTransports_def promoter_stop_def abort_flight_def pending_callback_def
  have "promo_reach ?a" by (rule promo_reach.step [OF promo_reach.init promo_step.start [OF refl]])
  moreover have "promo_step ?a (fst ?b) (snd ?b)"
  proof -
    have "promo_step (fst ?a, snd ?a) (fst ?b) (snd ?b)"
      by (rule promo_step.timer [of _ 0 1 1]) (simp_all add: defs)
    then show ?thesis by simp
  qed
  ultimately have b: "promo_reach (snd ?b)" by (rule promo_reach.step)
  then have "promo_reach (fst (snd ?b), snd (snd ?b))" by simp
  from promo_reach.step [OF this promo_step.stop [OF refl]] have c: "promo_reach (fst ?c, snd ?c)" by simp
  have run: "live_flight (fst (snd ?b)) 0" "map_of (flights (fst ?c)) 0 \<noteq> None" "\<not> running (fst ?c)"
    by (simp_all add: defs live_flight_def)
  then show ?thesis using promoter_one_driver [OF c] by (auto simp: Let_def)
qed

text \<open>The steps other than \<open>start\<close>, with the callbacks they call.\<close>

inductive promo_quiet :: "promo_state \<Rightarrow> promo_event list \<Rightarrow> promo_state \<Rightarrow> bool" where
  none: "promo_quiet s [] s"
| stop: "promo_quiet s es (p, c) \<Longrightarrow> promo_quiet s es (promoter_stop browserPlaybackProbeClock p c)"
| timer: "promo_quiet s es (p, c) \<Longrightarrow> pending_callback c i = Some (cycle_closure token g) \<Longrightarrow>
     promoter_timer browserPlaybackProbeClock cycle_closure token g p (clear_timeout i c) = (es', q) \<Longrightarrow>
     promo_quiet s (es @ es') q"
| settled: "promo_quiet s es (p, c) \<Longrightarrow>
     probe_settled browserPlaybackProbeClock cycle_closure i b p c = (es', q) \<Longrightarrow>
     promo_quiet s (es @ es') q"
| wait: "promo_quiet s es (p, c) \<Longrightarrow> promo_quiet s es (p, c\<lparr>loopNow := t\<rparr>)"

lemma quiet_stopped:
  "promo_quiet s es s' \<Longrightarrow> promo_ok s \<Longrightarrow> \<not> running (fst s) \<Longrightarrow> es = [] \<and> promo_ok s' \<and> \<not> running (fst s')"
proof (induction rule: promo_quiet.induct)
  case (stop s es p c)
  then show ?case
    using promo_step_ok [OF promo_step.stop [OF refl]] by (simp add: promoter_stop_def Let_def split: prod.splits)
next
  case (timer s es p c i token g es' q)
  then have "promo_ok (p, c)" and "\<not> running p" by simp_all
  then have "pending_callback c i = None"
    using browser_no_timer promo_stopped unfolding promo_ok_def by (metis fst_conv snd_conv)
  with timer.hyps show ?case by simp
next
  case (settled s es p c i b es' q)
  then have ok: "promo_ok (p, c)" and stopped: "\<not> running p" and "es = []" by simp_all
  moreover from stopped have "\<not> (running p \<and> live_flight p i)" by simp
  from settled_stale [OF this settled.hyps(2)]
  have "es' = []" and "running (fst q) = running p" by auto
  ultimately show ?case using promo_step_ok [OF promo_step.settled [OF settled.hyps(2)]] by simp
qed (simp_all add: promo_ok_def promo_inv_later)

text \<open>Stopping silences the promoter. After \<open>stop\<close>, whatever pending probe settles
  and whatever else happens short of a new \<open>start\<close>, no callback is called and the promoter
  stays stopped with nothing pending on the clock.\<close>

theorem stop_silences:
  assumes "promo_reach (p, c)"
    and "promo_quiet (promoter_stop browserPlaybackProbeClock p c) es (p', c')"
  shows "es = [] \<and> \<not> running p' \<and> (\<forall>i. pending_callback c' i = None)"
proof -
  let ?s = "promoter_stop browserPlaybackProbeClock p c"
  have "\<not> running (fst ?s)" by (simp add: promoter_stop_def Let_def split: prod.split)
  from quiet_stopped [OF assms(2) promo_step_ok [OF promo_step.stop [OF refl] promo_reach_ok [OF assms(1)]] this]
  have "es = []" and ok: "promo_ok (p', c')" and "\<not> running p'" by simp_all
  moreover from ok have "promo_inv pending_callback cycle_closure p' c'" by (simp add: promo_ok_def)
  ultimately show ?thesis using promo_stopped browser_no_timer by metis
qed

lemma stop_silences_witness:
  "\<not> running (fst (promoter_stop browserPlaybackProbeClock new_promoter (empty_loop :: (nat \<times> nat) event_loop)))"
proof -
  let ?s = "promoter_stop browserPlaybackProbeClock new_promoter (empty_loop :: (nat \<times> nat) event_loop)"
  have "promo_quiet ?s [] (fst ?s, snd ?s)" unfolding prod.collapse by (rule promo_quiet.none)
  from stop_silences [OF promo_reach.init this] show ?thesis by simp
qed

text \<open>A cycle without success. When its timer fires, the promoter probes the preferred
  transport, after its failure the other one, and after that failure waits for a new timer due
  exactly 60 seconds later; each probe is announced and each failure reported.\<close>

theorem failed_cycle_rearms:
  assumes "promo_reach (p, c)" and "running p" and "pending_callback c i = Some (cycle_closure token g)"
    and "promoter_timer browserPlaybackProbeClock cycle_closure token g p (clear_timeout i c) = (es1, (p1, c1))"
    and "controller p1 = Some a" and "c1' = c1\<lparr>loopNow := n1\<rparr>"
    and "probe_settled browserPlaybackProbeClock cycle_closure a False p1 c1' = (es2, (p2, c2))"
    and "controller p2 = Some b" and "c2' = c2\<lparr>loopNow := n2\<rparr>"
    and "probe_settled browserPlaybackProbeClock cycle_closure b False p2 c2' = (es3, (p3, c3))"
  shows "es1 @ es2 @ es3 =
      (let t = preferredTransport p; u = (if t = Webrtc then Mse else Webrtc)
       in [ProbeStarted t, ProbeFailed t, ProbeStarted u, ProbeFailed u])
    \<and> (\<exists>j. timerId (pscheduler p3) = Some j \<and>
         map_of (pendingTimers c3) j = Some (n2 + 60000, cycle_closure (pgeneration p) (sgeneration (pscheduler p3))))"
proof -
  note inv = promo_reach_inv [OF assms(1)]
  let ?t = "preferredTransport p" and ?u = "if preferredTransport p = Webrtc then Mse else Webrtc"
  have i: "g = sgeneration (pscheduler p)" "token = pgeneration p"
    using promo_pending [OF inv assms(3)] by simp_all
  have probes: "primaryProbeTransports ?t = [?t, ?u]"
    by (cases ?t) (simp_all add: primaryProbeTransports_def)
  define q where "q = p\<lparr>pscheduler := \<lparr>timerId = None, sgeneration = Suc g\<rparr>\<rparr>"
  have one: "es1 = [ProbeStarted ?t]" "c1 = clear_timeout i c" "a = nextFlight p"
    and p1: "p1 = q\<lparr>controller := Some (nextFlight p), flights := map_set (nextFlight p)
        \<lparr>flightToken = token, flightTransport = ?t, flightRest = [?u], flightAborted = False\<rparr> (flights p),
        nextFlight := Suc (nextFlight p)\<rparr>"
    using assms(4,5) i assms(2) promo_callbacks [OF inv] probes
    by (auto simp: q_def promoter_timer_def scheduler_fire_def)
  have "es2 = [ProbeFailed ?t, ProbeStarted ?u] \<and> c2 = c1'
      \<and> map_of (flights p2) b = Some \<lparr>flightToken = token, flightTransport = ?u, flightRest = [], flightAborted = False\<rparr>
      \<and> running p2 \<and> callbacks p2 \<and> pgeneration p2 = token \<and> pscheduler p2 = pscheduler q"
    using assms(7,8) i assms(2) promo_callbacks [OF inv]
    by (auto simp: probe_settled_def p1 one(3) q_def Let_def)
  note two = this
  then have three: "es3 = [ProbeFailed ?u]"
    and p3: "promoter_schedule browserPlaybackProbeClock cycle_closure token
       (p2\<lparr>flights := map_delete b (flights p2), controller := None\<rparr>) c2' = (p3, c3)"
    using assms(10) by (auto simp: probe_settled_def Let_def)
  obtain s where arm: "scheduler_arm browserPlaybackProbeClock (cycle_closure token)
        (n2 + PLAYBACK_PRIMARY_PROBE_INTERVAL_MS) (pscheduler q) c2' = (s, c3)" and s: "pscheduler p3 = s"
    using p3 two by (auto simp: promoter_schedule_def assms(9) split: prod.splits)
  from arm have "timerId s = Some (nextTimer c2') \<and> map_of (pendingTimers c3) (nextTimer c2') =
      Some (n2 + 60000, cycle_closure token (sgeneration s))"
    by (auto simp: scheduler_arm_def scheduler_clear_def q_def set_timeout_def assms(9)
        PLAYBACK_PRIMARY_PROBE_INTERVAL_MS_def)
  then show ?thesis using one(1) two three s i(2) by (simp add: Let_def)
qed

lemma split3: "x = (fst x, fst (snd x), snd (snd x))"
  by simp

lemma failed_cycle_rearms_witness:
  "let clk = browserPlaybackProbeClock;
       s = promoter_start clk cycle_closure Mse new_promoter empty_loop;
       r1 = promoter_timer clk cycle_closure 1 1 (fst s) (clear_timeout 0 (snd s));
       r2 = probe_settled clk cycle_closure 0 False (fst (snd r1)) ((snd (snd r1))\<lparr>loopNow := 60500\<rparr>);
       r3 = probe_settled clk cycle_closure 1 False (fst (snd r2)) ((snd (snd r2))\<lparr>loopNow := 61000\<rparr>)
   in fst r1 @ fst r2 @ fst r3 = [ProbeStarted Mse, ProbeFailed Mse, ProbeStarted Webrtc, ProbeFailed Webrtc]"
proof -
  let ?clk = "browserPlaybackProbeClock"
  let ?s = "promoter_start ?clk cycle_closure Mse new_promoter empty_loop"
  let ?r1 = "promoter_timer ?clk cycle_closure 1 1 (fst ?s) (clear_timeout 0 (snd ?s))"
  let ?r2 = "probe_settled ?clk cycle_closure 0 False (fst (snd ?r1)) ((snd (snd ?r1))\<lparr>loopNow := 60500\<rparr>)"
  let ?r3 = "probe_settled ?clk cycle_closure 1 False (fst (snd ?r2)) ((snd (snd ?r2))\<lparr>loopNow := 61000\<rparr>)"
  have s: "?s = (\<lparr>running = True, pgeneration = 1, controller = None, preferredTransport = Mse, callbacks = True,
       pscheduler = \<lparr>timerId = Some 0, sgeneration = 1\<rparr>, flights = [], nextFlight = 0\<rparr>,
       \<lparr>loopNow = 0, nextTimer = 1, pendingTimers = [(0, 60000, cycle_closure 1 1)]\<rparr>)"
    by code_simp
  have reach: "promo_reach (fst ?s, snd ?s)"
    unfolding prod.collapse by (rule promo_reach.step [OF promo_reach.init promo_step.start [OF refl]])
  have run: "running (fst ?s)" and pref: "preferredTransport (fst ?s) = Mse"
    and pend: "pending_callback (snd ?s) 0 = Some (cycle_closure 1 1)"
    unfolding s by (simp_all add: pending_callback_def)
  have c1: "controller (fst (snd ?r1)) = Some 0" unfolding s by code_simp
  have c2: "controller (fst (snd ?r2)) = Some 1" unfolding s by code_simp
  have "fst ?r1 @ fst ?r2 @ fst ?r3 =
     (let t = preferredTransport (fst ?s); u = (if t = Webrtc then Mse else Webrtc)
      in [ProbeStarted t, ProbeFailed t, ProbeStarted u, ProbeFailed u])"
    by (rule failed_cycle_rearms [OF reach run pend split3 c1 refl split3 c2 refl split3, THEN conjunct1])
  then show ?thesis by (simp only: pref Let_def) simp
qed

end
