(* ===== verification/Session.thy ===== *)
theory Session
  imports Promoter
begin

text \<open>
  The effect of \<open>useWebRtcMseStream\<close> (\<open>web/src/components/live/useWebRtcMseStream.ts\<close>): one
  live tile. Its closure variables are the record \<open>session\<close>, its handlers are functions
  on it, \<open>session_exec\<close> runs one event of the page. The video element contributes its
  \<open>currentTime\<close> and \<open>readyState\<close>; the connection of an attempt is identified with the
  token it was opened with and may call back at any time. A React state updater is applied when it
  is issued.
\<close>

section \<open>Types\<close>

datatype playback_error =
  NoError | SetupTimedOut | MediaStall | Socket | Signaling | Media | Unsupported | EpisodeExhausted

datatype surface =
  OfficialViewer | ViewerBrowser | OperatorLive | ViewerPage | ControlRoomPreview
| CameraProfilePreview | UnknownSurface

datatype candidate_role = PrimaryRole | FallbackRole | PrimaryProbeRole

datatype terminal_reason =
  FailedBy playback_error | RetryBudgetExhausted | PrimaryRestored | ResubscribeRequested
| CandidatesChanged | TransportChanged | SurfaceChanged | ComponentUnmounted

datatype connection_event =
  SocketOpen | SignalingAnswer | FirstTrack | MediaSourceOpen | MseReady | FirstMedia

datatype playback_event =
  ConnectionEvent connection_event | PrimaryProbeStarted | PrimaryProbeFailed | SessionClosed
| AttemptStarted | PlaybackStarted | PrimaryProbeSucceeded | AttemptFailed | EpisodeExhaustedEvent
| UnsupportedEvent

record attempt_options =
  optTransport :: transport
  optStreamName :: jsstring
  optAttempt :: nat
  optPhase :: playback_phase

record effect_inputs =
  inCandidateKey :: jsstring
  inPreferredTransport :: transport
  inResubscribeGeneration :: nat
  inSurface :: surface

record playback_state =
  pbTransport :: transport
  pbPhase :: playback_phase
  activeStreamName :: jsstring
  pbUsingFallback :: bool
  lastBinaryAt :: "int option"
  pbLastProgressAt :: "int option"
  pbReadyState :: nat
  pbStalledForMs :: int
  pbAttempt :: nat
  pbReconnectCount :: nat
  pbFallbackCount :: nat
  pbResubscribeCount :: nat
  pbErrorCategory :: playback_error

definition initialPlayback :: "jsstring \<Rightarrow> transport \<Rightarrow> playback_state" where
  "initialPlayback name tr =
     \<lparr>pbTransport = tr, pbPhase = Connecting, activeStreamName = name, pbUsingFallback = False,
      lastBinaryAt = None, pbLastProgressAt = None, pbReadyState = 0, pbStalledForMs = 0, pbAttempt = 1,
      pbReconnectCount = 0, pbFallbackCount = 0, pbResubscribeCount = 0, pbErrorCategory = NoError\<rparr>"

record diagnostic =
  dEvent :: playback_event
  dStreamName :: jsstring
  dCandidateRole :: candidate_role
  dTransport :: transport
  dPhase :: playback_phase
  dAttempt :: nat
  dAttemptGeneration :: nat
  dResubscribeGeneration :: nat
  dElapsedMs :: int
  dAttemptElapsedMs :: int
  dErrorCategory :: playback_error
  dTerminalReason :: "terminal_reason option"
  dReadyState :: nat
  dUsingFallback :: bool
  dReconnectCount :: nat
  dFallbackCount :: nat
  dSurface :: surface

text \<open>The optional fields of \<open>emitDiagnostic\<close>'s second argument.\<close>

record override =
  ovPhase :: "playback_phase option"
  ovErrorCategory :: "playback_error option"
  ovStreamName :: "jsstring option"
  ovTransport :: "transport option"
  ovAttempt :: "nat option"
  ovUsingFallback :: "bool option"
  ovCandidateRole :: "candidate_role option"
  ovTerminalReason :: "terminal_reason option"

definition no_override :: override where
  "no_override = \<lparr>ovPhase = None, ovErrorCategory = None, ovStreamName = None, ovTransport = None,
     ovAttempt = None, ovUsingFallback = None, ovCandidateRole = None, ovTerminalReason = None\<rparr>"

definition nullish :: "'a option \<Rightarrow> 'a \<Rightarrow> 'a" where
  [js_defs]: "nullish x y = (case x of None \<Rightarrow> y | Some v \<Rightarrow> v)"

text \<open>The closures on the page's timers. A recovery probe either begins a given attempt or, after
  a cooldown, restarts the episode.\<close>

datatype retry = BeginAttempt attempt_options playback_error | RestartEpisode

datatype session_cb =
  SetupTimeout nat
| StallTimeout nat
| RecoveryProbe retry nat
| PromoterTimer nat nat

record session =
  candidates :: "jsstring list"
  preferred :: transport
  effectInputs :: effect_inputs
  sessionStartedAt :: int
  sessRecovery :: recovery
  recoveryProbeScheduler :: scheduler
  primaryPromoter :: promoter
  destroyed :: bool
  generation :: nat
  closeConnection :: "nat option"
  setupTimer :: "nat option"
  stallTimer :: "nat option"
  lastVideoTime :: rat
  lastPresentedFrameAt :: int
  lastBinaryStateAt :: int
  lastProgressStateAt :: int
  attemptStartedAt :: int
  diagnosticPhase :: playback_phase
  attemptEvents :: "playback_event list"
  activeAttempt :: attempt_options
  reconnects :: nat
  fallbacks :: nat
  resubscribes :: nat
  playback :: playback_state
  page :: "session_cb event_loop"
  videoTime :: rat
  readyState :: nat
  openConnections :: "nat list"
  diagnostics :: "diagnostic list"

definition primary :: "session \<Rightarrow> jsstring" where
  "primary s = hd (candidates s)"

abbreviation now :: "session \<Rightarrow> int" where
  "now s \<equiv> loopNow (page s)"

section \<open>Handlers\<close>

definition diagnostic_of :: "playback_event \<Rightarrow> override \<Rightarrow> session \<Rightarrow> diagnostic" where
  "diagnostic_of ev ov s =
     (let name = nullish (ovStreamName ov) (optStreamName (activeAttempt s))
      in \<lparr>dEvent = ev, dStreamName = name,
          dCandidateRole = nullish (ovCandidateRole ov) (if name = primary s then PrimaryRole else FallbackRole),
          dTransport = nullish (ovTransport ov) (optTransport (activeAttempt s)),
          dPhase = nullish (ovPhase ov) (diagnosticPhase s),
          dAttempt = nullish (ovAttempt ov) (optAttempt (activeAttempt s)),
          dAttemptGeneration = generation s,
          dResubscribeGeneration = inResubscribeGeneration (effectInputs s),
          dElapsedMs = now s - sessionStartedAt s,
          dAttemptElapsedMs = now s - attemptStartedAt s,
          dErrorCategory = nullish (ovErrorCategory ov) NoError,
          dTerminalReason = ovTerminalReason ov,
          dReadyState = readyState s,
          dUsingFallback = nullish (ovUsingFallback ov) (name \<noteq> primary s),
          dReconnectCount = reconnects s, dFallbackCount = fallbacks s,
          dSurface = inSurface (effectInputs s)\<rparr>)"

definition emitDiagnostic :: "playback_event \<Rightarrow> override \<Rightarrow> session \<Rightarrow> session" where
  "emitDiagnostic ev ov s = s\<lparr>diagnostics := diagnostics s @ [diagnostic_of ev ov s]\<rparr>"

definition emitAttemptDiagnosticOnce :: "playback_event \<Rightarrow> override \<Rightarrow> session \<Rightarrow> session" where
  "emitAttemptDiagnosticOnce ev ov s =
     (if ev \<in> set (attemptEvents s) then s
      else emitDiagnostic ev ov (s\<lparr>attemptEvents := ev # attemptEvents s\<rparr>))"

definition clear_timer :: "nat option \<Rightarrow> session_cb event_loop \<Rightarrow> session_cb event_loop" where
  "clear_timer t c = (case t of None \<Rightarrow> c | Some i \<Rightarrow> clear_timeout i c)"

definition clearTimers :: "session \<Rightarrow> session" where
  "clearTimers s =
     (let c = clear_timer (stallTimer s) (clear_timer (setupTimer s) (page s));
          (sch, c) = scheduler_clear browserPlaybackProbeClock (recoveryProbeScheduler s) c;
          (prom, c) = promoter_stop browserPlaybackProbeClock (primaryPromoter s) c
      in s\<lparr>page := c, recoveryProbeScheduler := sch, primaryPromoter := prom,
           setupTimer := None, stallTimer := None\<rparr>)"

text \<open>\<open>close\<close> ends with \<open>video.load()\<close>, which sets \<open>currentTime\<close> to 0.\<close>

definition close_connection :: "nat \<Rightarrow> session \<Rightarrow> session" where
  "close_connection token s =
     s\<lparr>openConnections := removeAll token (openConnections s), videoTime := 0\<rparr>"

definition teardownAttempt :: "session \<Rightarrow> session" where
  "teardownAttempt s =
     (let s1 = clearTimers s;
          s2 = (case closeConnection s1 of
                  None \<Rightarrow> s1
                | Some token \<Rightarrow> close_connection token (s1\<lparr>closeConnection := None\<rparr>))
      in s2\<lparr>lastVideoTime := videoTime s2\<rparr>)"

definition publishAttempt :: "attempt_options \<Rightarrow> playback_error \<Rightarrow> session \<Rightarrow> session" where
  "publishAttempt opts err s =
     s\<lparr>lastBinaryStateAt := 0, lastProgressStateAt := 0, lastPresentedFrameAt := 0,
       playback :=
         \<lparr>pbTransport = optTransport opts, pbPhase = optPhase opts, activeStreamName = optStreamName opts,
          pbUsingFallback = (optStreamName opts \<noteq> primary s), lastBinaryAt = None, pbLastProgressAt = None,
          pbReadyState = readyState s, pbStalledForMs = stalledForMs (sessRecovery s) (now s),
          pbAttempt = optAttempt opts, pbReconnectCount = reconnects s, pbFallbackCount = fallbacks s,
          pbResubscribeCount = resubscribes s, pbErrorCategory = err\<rparr>\<rparr>"

definition arm_probe :: "int \<Rightarrow> retry \<Rightarrow> session \<Rightarrow> session" where
  "arm_probe until act s =
     (let (sch, c) = scheduler_arm browserPlaybackProbeClock (RecoveryProbe act) until
                       (recoveryProbeScheduler s) (page s)
      in s\<lparr>recoveryProbeScheduler := sch, page := c\<rparr>)"

definition enterCooldown :: "int \<Rightarrow> session \<Rightarrow> session" where
  "enterCooldown until s =
     (let s1 = emitDiagnostic EpisodeExhaustedEvent
                 (no_override\<lparr>ovPhase := Some CoolingDown, ovErrorCategory := Some EpisodeExhausted,
                    ovTerminalReason := Some RetryBudgetExhausted\<rparr>)
                 (s\<lparr>diagnosticPhase := CoolingDown\<rparr>);
          s2 = teardownAttempt (s1\<lparr>generation := Suc (generation s1)\<rparr>);
          s3 = s2\<lparr>playback := (playback s2)\<lparr>pbPhase := CoolingDown, pbReadyState := readyState s2,
                    pbStalledForMs := stalledForMs (sessRecovery s2) (now s2),
                    pbErrorCategory := EpisodeExhausted\<rparr>\<rparr>
      in arm_probe until RestartEpisode s3)"

definition scheduleRetry :: "attempt_options \<Rightarrow> playback_error \<Rightarrow> session \<Rightarrow> session" where
  "scheduleRetry opts err s =
     arm_probe (max (now s) (attemptStartedAt s + PLAYBACK_RETRY_INTERVAL_MS)) (BeginAttempt opts err) s"

fun advance :: "recovery_step \<Rightarrow> playback_error \<Rightarrow> session \<Rightarrow> session" where
  "advance (Cooldown until) err s = enterCooldown until s"
| "advance (Resubscribe attempt) err s =
     scheduleRetry \<lparr>optTransport = preferred s, optStreamName = primary s, optAttempt = attempt,
                    optPhase = Recovering\<rparr> err (s\<lparr>resubscribes := Suc (resubscribes s)\<rparr>)"
| "advance (TryTransport tr name attempt) err s =
     (let (phase, usingFallback, _) =
            recoveryAttemptPresentation tr name (primary s) (optTransport (activeAttempt s));
          s1 = (if usingFallback then s\<lparr>fallbacks := Suc (fallbacks s)\<rparr>
                else s\<lparr>reconnects := Suc (reconnects s)\<rparr>)
      in scheduleRetry \<lparr>optTransport = tr, optStreamName = name, optAttempt = attempt, optPhase = phase\<rparr> err s1)"

fun playbackFailureTerminalReason :: "playback_error \<Rightarrow> terminal_reason option" where
  "playbackFailureTerminalReason EpisodeExhausted = Some RetryBudgetExhausted"
| "playbackFailureTerminalReason NoError = None"
| "playbackFailureTerminalReason e = Some (FailedBy e)"

definition failAttempt :: "nat \<Rightarrow> playback_error \<Rightarrow> session \<Rightarrow> session" where
  "failAttempt token err s =
     (if destroyed s \<or> token \<noteq> generation s then s
      else (let failurePhase = (if err = MediaStall then Stalled else diagnosticPhase s);
                s1 = emitDiagnostic AttemptFailed
                       (no_override\<lparr>ovPhase := Some failurePhase, ovErrorCategory := Some err,
                          ovTerminalReason := playbackFailureTerminalReason err\<rparr>) s;
                s2 = (if err = Unsupported
                      then emitDiagnostic UnsupportedEvent
                             (no_override\<lparr>ovPhase := Some UnsupportedPhase, ovErrorCategory := Some err,
                                ovTerminalReason := Some (FailedBy Unsupported)\<rparr>) s1
                      else s1);
                s3 = teardownAttempt (s2\<lparr>sessRecovery := recordFailure (sessRecovery s2) (now s2),
                       generation := Suc (generation s2)\<rparr>);
                (step, r) = nextFailure (sessRecovery s3) (now s3)
            in advance step err (s3\<lparr>sessRecovery := r\<rparr>)))"

definition resetStallTimer :: "nat \<Rightarrow> session \<Rightarrow> session" where
  "resetStallTimer token s =
     (let (i, c) = set_timeout (StallTimeout token) PLAYBACK_STALL_MS (clear_timer (stallTimer s) (page s))
      in s\<lparr>stallTimer := Some i, page := c\<rparr>)"

definition ensurePrimaryPromotion :: "session \<Rightarrow> session" where
  "ensurePrimaryPromotion s =
     (if length (candidates s) < 2 \<or> optStreamName (activeAttempt s) = primary s
         \<or> running (primaryPromoter s) then s
      else (let (p, c) = promoter_start browserPlaybackProbeClock PromoterTimer (preferred s)
                           (primaryPromoter s) (page s)
            in s\<lparr>primaryPromoter := p, page := c\<rparr>))"

definition markProgress :: "nat \<Rightarrow> session \<Rightarrow> session" where
  "markProgress token s =
     (if destroyed s \<or> token \<noteq> generation s \<or> closeConnection s = None \<or> diagnosticPhase s = CoolingDown
      then s
      else (let s1 = resetStallTimer token
                       (s\<lparr>page := clear_timer (setupTimer s) (page s), setupTimer := None\<rparr>);
                s2 = emitAttemptDiagnosticOnce PlaybackStarted
                       (no_override\<lparr>ovPhase := Some Playing, ovErrorCategory := Some NoError\<rparr>)
                       (s1\<lparr>diagnosticPhase := Playing\<rparr>);
                (budgetReset, r) = recordProgress (sessRecovery s2) (now s2);
                s3 = s2\<lparr>sessRecovery := r\<rparr>;
                s4 = ensurePrimaryPromotion
                       (if budgetReset then s3\<lparr>reconnects := 0, fallbacks := 0, resubscribes := 0\<rparr> else s3)
            in if now s4 - lastProgressStateAt s4 < 1000 then s4
               else s4\<lparr>lastProgressStateAt := now s4,
                 playback := (playback s4)\<lparr>pbPhase := Playing, pbLastProgressAt := Some (now s4),
                   pbReadyState := readyState s4, pbStalledForMs := 0,
                   pbAttempt := (if budgetReset then 1 else pbAttempt (playback s4)),
                   pbReconnectCount := reconnects s4, pbFallbackCount := fallbacks s4,
                   pbResubscribeCount := resubscribes s4, pbErrorCategory := NoError\<rparr>\<rparr>))"

definition handleTimeUpdate :: "session \<Rightarrow> session" where
  "handleTimeUpdate s =
     (if videoTime s \<le> lastVideoTime s + 1 / 1000 then s
      else markProgress (generation s) (s\<lparr>lastVideoTime := videoTime s\<rparr>))"

definition presentedFrame :: "session \<Rightarrow> session" where
  "presentedFrame s =
     (if closeConnection s = None \<or> now s - lastPresentedFrameAt s < 1000 then s
      else markProgress (generation s) (s\<lparr>lastPresentedFrameAt := now s\<rparr>))"

definition beginAttempt :: "attempt_options \<Rightarrow> playback_error \<Rightarrow> session \<Rightarrow> session" where
  "beginAttempt opts previousError s =
     (if destroyed s then s
      else (let s1 = teardownAttempt s
            in if remainingMs (sessRecovery s1) (now s1) = 0
               then (let (step, r) = nextFailure (recordFailure (sessRecovery s1) (now s1)) (now s1)
                     in advance step EpisodeExhausted (s1\<lparr>sessRecovery := r\<rparr>))
               else (let token = Suc (generation s1);
                         s2 = publishAttempt opts previousError
                                (s1\<lparr>generation := token, activeAttempt := opts, attemptStartedAt := now s1,
                                    diagnosticPhase := optPhase opts, attemptEvents := []\<rparr>);
                         s3 = emitDiagnostic AttemptStarted
                                (no_override\<lparr>ovPhase := Some (optPhase opts),
                                   ovErrorCategory := Some previousError\<rparr>) s2;
                         (i, c) = set_timeout (SetupTimeout token)
                                    (boundedDelayMs (sessRecovery s3) (now s3) PLAYBACK_SETUP_MS) (page s3)
                     in s3\<lparr>setupTimer := Some i, page := c, closeConnection := Some token,
                           openConnections := token # openConnections s3\<rparr>)))"

text \<open>The callbacks handed to the connection of an attempt.\<close>

definition connectionEvent :: "nat \<Rightarrow> connection_event \<Rightarrow> session \<Rightarrow> session" where
  "connectionEvent token ev s =
     (if \<not> destroyed s \<and> token = generation s
      then emitAttemptDiagnosticOnce (ConnectionEvent ev) no_override s else s)"

definition connectionBinary :: "nat \<Rightarrow> session \<Rightarrow> session" where
  "connectionBinary token s =
     (if destroyed s \<or> token \<noteq> generation s then s
      else if now s - lastBinaryStateAt s < 1000 then s
      else s\<lparr>lastBinaryStateAt := now s,
             playback := (playback s)\<lparr>lastBinaryAt := Some (now s), pbReadyState := readyState s\<rparr>\<rparr>)"

definition probe_override :: "transport \<Rightarrow> playback_phase \<Rightarrow> session \<Rightarrow> override" where
  "probe_override tr phase s =
     no_override\<lparr>ovStreamName := Some (primary s), ovTransport := Some tr, ovPhase := Some phase,
       ovAttempt := Some (Suc (optAttempt (activeAttempt s))), ovUsingFallback := Some True,
       ovCandidateRole := Some PrimaryProbeRole\<rparr>"

text \<open>The callbacks handed to the promoter.\<close>

fun promotion :: "promo_event \<Rightarrow> session \<Rightarrow> session" where
  "promotion (ProbeStarted tr) s = emitDiagnostic PrimaryProbeStarted (probe_override tr Fallback s) s"
| "promotion (ProbeFailed tr) s = emitDiagnostic PrimaryProbeFailed (probe_override tr Fallback s) s"
| "promotion (Recovered tr) s =
     (if destroyed s \<or> optStreamName (activeAttempt s) = primary s \<or> diagnosticPhase s \<noteq> Playing then s
      else (let s1 = emitDiagnostic PrimaryProbeSucceeded
                       ((probe_override tr Recovering s)\<lparr>ovTerminalReason := Some PrimaryRestored\<rparr>) s;
                s2 = s1\<lparr>reconnects := Suc (reconnects s1),
                        sessRecovery := resetForPrimaryPromotion (sessRecovery s1)\<rparr>
            in beginAttempt \<lparr>optTransport = tr, optStreamName = primary s2,
                 optAttempt = Suc (optAttempt (activeAttempt s2)), optPhase = Recovering\<rparr> NoError s2))"

fun playbackSessionCloseReason :: "effect_inputs \<Rightarrow> effect_inputs \<Rightarrow> terminal_reason" where
  "playbackSessionCloseReason started current =
     (if inResubscribeGeneration started \<noteq> inResubscribeGeneration current then ResubscribeRequested
      else if inCandidateKey started \<noteq> inCandidateKey current then CandidatesChanged
      else if inPreferredTransport started \<noteq> inPreferredTransport current then TransportChanged
      else if inSurface started \<noteq> inSurface current then SurfaceChanged
      else ComponentUnmounted)"

definition cleanup :: "effect_inputs \<Rightarrow> session \<Rightarrow> session" where
  "cleanup current s =
     (let s1 = emitDiagnostic SessionClosed
                 (no_override\<lparr>ovTerminalReason := Some (playbackSessionCloseReason (effectInputs s) current)\<rparr>) s
      in teardownAttempt (s1\<lparr>destroyed := True, generation := Suc (generation s1)\<rparr>))"

section \<open>Starting a session and running the page\<close>

definition candidate_separator :: jschar where
  "candidate_separator = 0x1F"

definition candidateKey :: "jsstring list \<Rightarrow> jsstring" where
  "candidateKey names = js_join candidate_separator (filter (\<lambda>n. n \<noteq> []) names)"

definition effect_candidates :: "jsstring \<Rightarrow> jsstring list" where
  "effect_candidates key = (if key = [] then [] else js_split candidate_separator key)"

text \<open>The body of the effect; \<open>None\<close> when there is no video element or no candidate.\<close>

definition start_session ::
  "bool \<Rightarrow> effect_inputs \<Rightarrow> playback_state \<Rightarrow> int \<Rightarrow> session option" where
  "start_session hasVideo inputs shown startedAt =
     (let cands = effect_candidates (inCandidateKey inputs)
      in if \<not> hasVideo \<or> cands = [] then None
         else (let first = \<lparr>optTransport = inPreferredTransport inputs, optStreamName = hd cands,
                            optAttempt = 1, optPhase = Connecting\<rparr>
               in Some (beginAttempt first NoError
                 \<lparr>candidates = cands, preferred = inPreferredTransport inputs, effectInputs = inputs,
                  sessionStartedAt = startedAt, sessRecovery = new_recovery cands,
                  recoveryProbeScheduler = new_scheduler, primaryPromoter = new_promoter,
                  destroyed = False, generation = 0, closeConnection = None, setupTimer = None,
                  stallTimer = None, lastVideoTime = -1, lastPresentedFrameAt = 0, lastBinaryStateAt = 0,
                  lastProgressStateAt = 0, attemptStartedAt = startedAt, diagnosticPhase = Connecting,
                  attemptEvents = [], activeAttempt = first, reconnects = 0, fallbacks = 0,
                  resubscribes = 0, playback = shown,
                  page = \<lparr>loopNow = startedAt, nextTimer = 0, pendingTimers = []\<rparr>,
                  videoTime = 0, readyState = 0, openConnections = [], diagnostics = []\<rparr>)))"

fun run_retry :: "retry \<Rightarrow> session \<Rightarrow> session" where
  "run_retry (BeginAttempt opts err) s = beginAttempt opts err s"
| "run_retry RestartEpisode s =
     beginAttempt \<lparr>optTransport = preferred s, optStreamName = primary s, optAttempt = 1, optPhase = Retrying\<rparr>
       EpisodeExhausted (s\<lparr>sessRecovery := restartEpisode (sessRecovery s) (now s)\<rparr>)"

text \<open>A promoter step on the page's timers, then the callbacks it called.\<close>

definition promoter_effect :: "promo_event list \<times> promoter \<times> session_cb event_loop \<Rightarrow> session \<Rightarrow> session" where
  "promoter_effect r s = (case r of (es, p, c) \<Rightarrow> fold promotion es (s\<lparr>primaryPromoter := p, page := c\<rparr>))"

fun run_callback :: "session_cb \<Rightarrow> session \<Rightarrow> session" where
  "run_callback (SetupTimeout token) s = failAttempt token SetupTimedOut s"
| "run_callback (StallTimeout token) s = failAttempt token MediaStall s"
| "run_callback (RecoveryProbe act g) s =
     (case scheduler_fire g (recoveryProbeScheduler s) of
        (sch, False) \<Rightarrow> s\<lparr>recoveryProbeScheduler := sch\<rparr>
      | (sch, True) \<Rightarrow> run_retry act (s\<lparr>recoveryProbeScheduler := sch\<rparr>))"
| "run_callback (PromoterTimer token g) s =
     promoter_effect (promoter_timer browserPlaybackProbeClock PromoterTimer token g
                        (primaryPromoter s) (page s)) s"

datatype session_event =
  Fire nat
| FromConnection nat connection_event
| Binary nat
| Failure nat playback_error
| TimeUpdate
| PresentedFrame
| ProbeSettled nat bool
| Wait int
| Video rat nat
| Cleanup effect_inputs

definition due :: "session \<Rightarrow> nat \<Rightarrow> session_cb option" where
  "due s i = (case map_of (pendingTimers (page s)) i of
                None \<Rightarrow> None
              | Some (dueAt, cb) \<Rightarrow> if dueAt \<le> now s then Some cb else None)"

text \<open>One event. A timer fires only when it is pending and due, time does not go back, and the
  listeners of \<open>video\<close> are gone after the cleanup.\<close>

fun session_exec :: "session_event \<Rightarrow> session \<Rightarrow> session" where
  "session_exec (Fire i) s =
     (case due s i of
        None \<Rightarrow> s
      | Some cb \<Rightarrow> run_callback cb (s\<lparr>page := clear_timeout i (page s)\<rparr>))"
| "session_exec (FromConnection token ev) s = connectionEvent token ev s"
| "session_exec (Binary token) s = connectionBinary token s"
| "session_exec (Failure token err) s = failAttempt token err s"
| "session_exec TimeUpdate s = (if destroyed s then s else handleTimeUpdate s)"
| "session_exec PresentedFrame s = (if destroyed s then s else presentedFrame s)"
| "session_exec (ProbeSettled i b) s =
     promoter_effect (probe_settled browserPlaybackProbeClock PromoterTimer i b (primaryPromoter s) (page s)) s"
| "session_exec (Wait t) s = s\<lparr>page := (page s)\<lparr>loopNow := max (now s) t\<rparr>\<rparr>"
| "session_exec (Video t n) s = s\<lparr>videoTime := t, readyState := n\<rparr>"
| "session_exec (Cleanup current) s = (if destroyed s then s else cleanup current s)"

definition session_run :: "session_event list \<Rightarrow> session \<Rightarrow> session" where
  "session_run evs s = fold session_exec evs s"

end
