(* ===== verification/SessionInv.thy ===== *)
theory SessionInv
  imports Session
begin

text \<open>
  The invariant of a live tile's session: a live session is in one of three modes (waiting
  for a retry, setting up an attempt, playing), each with the timers that will end it, and a
  destroyed one has nothing left.
\<close>

abbreviation pend :: "session \<Rightarrow> nat \<Rightarrow> session_cb option" where
  "pend s \<equiv> pending_callback (page s)"

interpretation session_promoter:
  promoter_clock browserPlaybackProbeClock pending_callback loop_ok PromoterTimer
  by unfold_locales auto

section \<open>The page's timers\<close>

lemma map_of_clear_timeout [simp]:
  "map_of (pendingTimers (clear_timeout i c)) = (map_of (pendingTimers c))(i := None)"
  by (simp add: clear_timeout_def)

lemma pending_clear_timeout [simp]: "pending_callback (clear_timeout i c) = (pending_callback c)(i := None)"
  by (auto simp: pending_callback_def)

lemma loop_clear_timeout [simp]:
  "loop_ok c \<Longrightarrow> loop_ok (clear_timeout i c)" "loopNow (clear_timeout i c) = loopNow c"
  by (simp_all add: clear_timeout_def loop_ok_def)

lemma pending_clear_timer:
  "pending_callback (clear_timer t c) i = (if t = Some i then None else pending_callback c i)"
  by (simp add: clear_timer_def split: option.split)

lemma loop_clear_timer [simp]:
  "loop_ok c \<Longrightarrow> loop_ok (clear_timer t c)" "loopNow (clear_timer t c) = loopNow c"
  by (simp_all add: clear_timer_def split: option.split)

lemma set_timeoutD:
  assumes "loop_ok c" and "set_timeout cb d c = (i, c')"
  shows "loop_ok c'" "pending_callback c' = (pending_callback c)(i \<mapsto> cb)" "pending_callback c i = None"
    "map_of (pendingTimers c') i = Some (loopNow c + d, cb)" "loopNow c' = loopNow c"
  using loop_ok_set [OF assms] assms(2) by (auto simp: set_timeout_def)

lemma scheduler_clear_page:
  assumes "loop_ok c" and "scheduler_clear browserPlaybackProbeClock sch c = (sch', c')"
  shows "loop_ok c'" "timerId sch' = None" "loopNow c' = loopNow c"
    "pending_callback c' i = (if timerId sch = Some i then None else pending_callback c i)"
  using assms by (auto simp: scheduler_clear_def Let_def split: option.splits)

lemma scheduler_arm_page:
  assumes ok: "loop_ok c" and none: "timerId sch = None"
    and arm: "scheduler_arm browserPlaybackProbeClock mk until sch c = (sch', c')"
  obtains i d where "timerId sch' = Some i" "loop_ok c'" "loopNow c' = loopNow c"
    "pending_callback c' = (pending_callback c)(i \<mapsto> mk (sgeneration sch'))" "pending_callback c i = None"
    "map_of (pendingTimers c') i = Some (d, mk (sgeneration sch'))" "d = max (loopNow c) until"
proof -
  obtain i where st: "set_timeout (mk (Suc (sgeneration sch))) (max 0 (until - loopNow c)) c = (i, c')"
    and sch': "sch' = sch\<lparr>sgeneration := Suc (sgeneration sch), timerId := Some i\<rparr>"
    using arm none by (auto simp: scheduler_arm_def scheduler_clear_def Let_def split: prod.splits)
  show ?thesis
    by (rule that [of i "loopNow c + max 0 (until - loopNow c)"])
       (use set_timeoutD [OF ok st] in \<open>simp_all add: sch'\<close>)
qed

lemma promoter_now:
  "loopNow (snd (promoter_schedule browserPlaybackProbeClock mk token p c)) = loopNow c"
  "loopNow (snd (promoter_start browserPlaybackProbeClock mk pref p c)) = loopNow c"
  "loopNow (snd (promoter_stop browserPlaybackProbeClock p c)) = loopNow c"
  "loopNow (snd (snd (run_cycle browserPlaybackProbeClock mk token ts p c))) = loopNow c"
  "loopNow (snd (snd (promoter_timer browserPlaybackProbeClock mk token g p c))) = loopNow c"
  "loopNow (snd (snd (probe_settled browserPlaybackProbeClock mk i b p c))) = loopNow c"
proof -
  show sch: "loopNow (snd (promoter_schedule browserPlaybackProbeClock mk token p c)) = loopNow c" for token p c
    by (auto simp: promoter_schedule_def scheduler_arm_def scheduler_clear_def Let_def set_timeout_def
        split: prod.splits option.splits)
  show "loopNow (snd (promoter_start browserPlaybackProbeClock mk pref p c)) = loopNow c"
    by (simp add: promoter_start_def Let_def sch)
  show "loopNow (snd (promoter_stop browserPlaybackProbeClock p c)) = loopNow c"
    by (auto simp: promoter_stop_def scheduler_clear_def Let_def split: option.splits)
  show cyc: "loopNow (snd (snd (run_cycle browserPlaybackProbeClock mk token ts p c))) = loopNow c" for token ts p c
    by (cases ts) (simp_all add: sch)
  show "loopNow (snd (snd (promoter_timer browserPlaybackProbeClock mk token g p c))) = loopNow c"
    by (auto simp: promoter_timer_def cyc split: prod.splits bool.splits)
  show "loopNow (snd (snd (probe_settled browserPlaybackProbeClock mk i b p c))) = loopNow c"
    using cyc by (auto simp: probe_settled_def Let_def split: option.splits prod.splits) (metis snd_conv)
qed

section \<open>Tearing an attempt down\<close>

text \<open>Every closure that is not the promoter's belongs to one of the three other timers.\<close>

definition covered :: "session \<Rightarrow> bool" where
  "covered s \<longleftrightarrow> loop_ok (page s)
     \<and> promo_inv pending_callback PromoterTimer (primaryPromoter s) (page s)
     \<and> (\<forall>i cb. pend s i = Some cb \<longrightarrow> (\<forall>t g. cb \<noteq> PromoterTimer t g) \<longrightarrow>
          setupTimer s = Some i \<or> stallTimer s = Some i \<or> timerId (recoveryProbeScheduler s) = Some i)
     \<and> (\<forall>i t g. setupTimer s = Some i \<or> stallTimer s = Some i \<or> timerId (recoveryProbeScheduler s) = Some i \<longrightarrow>
          pend s i \<noteq> Some (PromoterTimer t g))
     \<and> openConnections s = (case closeConnection s of None \<Rightarrow> [] | Some t \<Rightarrow> [t])"

text \<open>Nothing runs.\<close>

definition quiet :: "session \<Rightarrow> bool" where
  "quiet s \<longleftrightarrow> loop_ok (page s) \<and> (\<forall>i. pend s i = None)
     \<and> promo_inv pending_callback PromoterTimer (primaryPromoter s) (page s)
     \<and> \<not> running (primaryPromoter s) \<and> setupTimer s = None \<and> stallTimer s = None
     \<and> timerId (recoveryProbeScheduler s) = None \<and> closeConnection s = None \<and> openConnections s = []"

lemma quiet_covered: "quiet s \<Longrightarrow> covered s"
  by (simp add: quiet_def covered_def)

lemma clear_foreign:
  assumes "\<And>t g. pending_callback c i \<noteq> Some (PromoterTimer t g)"
  shows "promo_inv pending_callback PromoterTimer p (clear_timeout i c) = promo_inv pending_callback PromoterTimer p c"
  by (rule promo_inv_cong) (use assms in auto)

lemma clear_timer_foreign:
  assumes "\<And>i t g. tm = Some i \<Longrightarrow> pending_callback c i \<noteq> Some (PromoterTimer t g)"
  shows "promo_inv pending_callback PromoterTimer p (clear_timer tm c) = promo_inv pending_callback PromoterTimer p c"
  using assms by (cases tm) (simp_all add: clear_timer_def clear_foreign)

lemma clearTimers_page:
  assumes cov: "covered s"
  obtains sch prom c where "clearTimers s = s\<lparr>page := c, recoveryProbeScheduler := sch,
      primaryPromoter := prom, setupTimer := None, stallTimer := None\<rparr>"
    "loop_ok c" "\<And>i. pending_callback c i = None" "timerId sch = None" "\<not> running prom"
    "promo_inv pending_callback PromoterTimer prom c" "loopNow c = now s"
proof -
  let ?c1 = "clear_timer (stallTimer s) (clear_timer (setupTimer s) (page s))"
  obtain sch c2 where sc: "scheduler_clear browserPlaybackProbeClock (recoveryProbeScheduler s) ?c1 = (sch, c2)"
    by force
  obtain prom c where st: "promoter_stop browserPlaybackProbeClock (primaryPromoter s) c2 = (prom, c)"
    by force
  have ok1: "loop_ok ?c1" using cov by (simp add: covered_def)
  note c2 = scheduler_clear_page [OF ok1 sc]
  have c2_pend: "pending_callback c2 i = (if setupTimer s = Some i \<or> stallTimer s = Some i
      \<or> timerId (recoveryProbeScheduler s) = Some i then None else pend s i)" for i
    by (simp add: c2(4) pending_clear_timer)
  have inv2: "promo_inv pending_callback PromoterTimer (primaryPromoter s) c2"
  proof -
    have "pending_callback c2 i = Some (PromoterTimer t g) \<longleftrightarrow> pend s i = Some (PromoterTimer t g)" for i t g
      using cov by (auto simp: c2_pend covered_def)
    from promo_inv_cong [of pending_callback c2 PromoterTimer "page s", OF this]
    show ?thesis using cov by (simp add: covered_def)
  qed
  note stop = session_promoter.stop_inv [OF inv2 c2(1) st]
  have "pending_callback c i = None" for i
  proof (cases "pending_callback c i")
    case (Some cb)
    show ?thesis
    proof (cases "\<exists>t g. cb = PromoterTimer t g")
      case True
      with Some stop promo_stopped no_timer_none show ?thesis by metis
    next
      case False
      with Some stop have "pending_callback c2 i = Some cb" by (simp add: same_others_def)
      with False cov show ?thesis by (auto simp: c2_pend covered_def split: if_splits)
    qed
  qed
  moreover have "loopNow c = now s"
    using promoter_now(3) [of "primaryPromoter s" c2] c2(3) by (simp add: st)
  ultimately show ?thesis
    using that [of prom sch c] stop c2(2) by (simp add: clearTimers_def sc st)
qed

text \<open>What a teardown leaves alone.\<close>

definition same_core :: "session \<Rightarrow> session \<Rightarrow> bool" where
  "same_core s t \<longleftrightarrow> candidates t = candidates s \<and> preferred t = preferred s \<and> destroyed t = destroyed s
     \<and> generation t = generation s \<and> now t = now s \<and> attemptStartedAt t = attemptStartedAt s
     \<and> diagnosticPhase t = diagnosticPhase s \<and> activeAttempt t = activeAttempt s
     \<and> sessRecovery t = sessRecovery s \<and> diagnostics t = diagnostics s \<and> playback t = playback s
     \<and> effectInputs t = effectInputs s \<and> readyState t = readyState s \<and> reconnects t = reconnects s
     \<and> fallbacks t = fallbacks s \<and> resubscribes t = resubscribes s \<and> attemptEvents t = attemptEvents s
     \<and> sessionStartedAt t = sessionStartedAt s"

lemma teardown_quiet:
  assumes "covered s"
  shows "quiet (teardownAttempt s) \<and> same_core s (teardownAttempt s)"
proof -
  obtain sch prom c where "clearTimers s = s\<lparr>page := c, recoveryProbeScheduler := sch,
      primaryPromoter := prom, setupTimer := None, stallTimer := None\<rparr>"
    "loop_ok c" "\<And>i. pending_callback c i = None" "timerId sch = None" "\<not> running prom"
    "promo_inv pending_callback PromoterTimer prom c" "loopNow c = now s"
    using clearTimers_page [OF assms] by metis
  with assms show ?thesis
    by (auto simp: teardownAttempt_def close_connection_def quiet_def same_core_def covered_def Let_def
        split: option.splits)
qed

section \<open>The three modes of a live session\<close>

definition waiting :: "session \<Rightarrow> bool" where
  "waiting s \<longleftrightarrow> \<not> destroyed s \<and> closeConnection s = None \<and> openConnections s = []
     \<and> setupTimer s = None \<and> stallTimer s = None \<and> \<not> running (primaryPromoter s)
     \<and> (\<exists>i act d. timerId (recoveryProbeScheduler s) = Some i
          \<and> map_of (pendingTimers (page s)) i = Some (d, RecoveryProbe act (sgeneration (recoveryProbeScheduler s)))
          \<and> attemptStartedAt s + PLAYBACK_RETRY_INTERVAL_MS \<le> d \<and> d \<le> now s + PLAYBACK_COOLDOWN_MS
          \<and> (\<forall>j. j \<noteq> i \<longrightarrow> pend s j = None))"

definition attempting :: "session \<Rightarrow> bool" where
  "attempting s \<longleftrightarrow> \<not> destroyed s \<and> closeConnection s = Some (generation s)
     \<and> openConnections s = [generation s] \<and> timerId (recoveryProbeScheduler s) = None"

definition settingUp :: "session \<Rightarrow> bool" where
  "settingUp s \<longleftrightarrow> attempting s \<and> stallTimer s = None \<and> \<not> running (primaryPromoter s)
     \<and> (\<exists>i d. setupTimer s = Some i
          \<and> map_of (pendingTimers (page s)) i = Some (d, SetupTimeout (generation s))
          \<and> d \<le> attemptStartedAt s + PLAYBACK_SETUP_MS
          \<and> (\<forall>j. j \<noteq> i \<longrightarrow> pend s j = None))"

definition playingBack :: "session \<Rightarrow> bool" where
  "playingBack s \<longleftrightarrow> attempting s \<and> setupTimer s = None \<and> diagnosticPhase s = Playing
     \<and> (running (primaryPromoter s) \<longleftrightarrow>
          2 \<le> length (candidates s) \<and> optStreamName (activeAttempt s) \<noteq> primary s)
     \<and> (\<exists>i d. stallTimer s = Some i
          \<and> map_of (pendingTimers (page s)) i = Some (d, StallTimeout (generation s))
          \<and> d \<le> now s + PLAYBACK_STALL_MS
          \<and> (\<forall>j. j \<noteq> i \<longrightarrow> pend s j = None \<or> (\<exists>t g. pend s j = Some (PromoterTimer t g))))"

definition closed :: "session \<Rightarrow> bool" where
  "closed s \<longleftrightarrow> destroyed s \<and> quiet s"

definition session_inv :: "session \<Rightarrow> bool" where
  "session_inv s \<longleftrightarrow> loop_ok (page s)
     \<and> promo_inv pending_callback PromoterTimer (primaryPromoter s) (page s)
     \<and> attemptStartedAt s \<le> now s
     \<and> (closed s \<or> waiting s \<or> settingUp s \<or> playingBack s)"

lemma pend_of: "map_of (pendingTimers c) i = Some (d, cb) \<Longrightarrow> pending_callback c i = Some cb"
  by (simp add: pending_callback_def)

lemma promoter_idle_timer:
  "promo_inv live mk p c \<Longrightarrow> \<not> running p \<Longrightarrow> live c i \<noteq> Some (mk t g)"
  using promo_stopped no_timer_none by metis

lemma coveredI:
  assumes "loop_ok (page s)" and "promo_inv pending_callback PromoterTimer (primaryPromoter s) (page s)"
    and "\<And>i cb. pend s i = Some cb \<Longrightarrow> (\<And>t g. cb \<noteq> PromoterTimer t g) \<Longrightarrow>
      setupTimer s = Some i \<or> stallTimer s = Some i \<or> timerId (recoveryProbeScheduler s) = Some i"
    and "\<And>i t g. setupTimer s = Some i \<or> stallTimer s = Some i \<or> timerId (recoveryProbeScheduler s) = Some i
      \<Longrightarrow> pend s i \<noteq> Some (PromoterTimer t g)"
    and "openConnections s = (case closeConnection s of None \<Rightarrow> [] | Some t \<Rightarrow> [t])"
  shows "covered s"
  unfolding covered_def using assms by blast

lemma waiting_covered:
  assumes "waiting s" and "loop_ok (page s)"
    and "promo_inv pending_callback PromoterTimer (primaryPromoter s) (page s)"
  shows "covered s"
proof -
  from assms(1) obtain i act d where i: "timerId (recoveryProbeScheduler s) = Some i"
      "\<forall>j. j \<noteq> i \<longrightarrow> pend s j = None"
    and rest: "closeConnection s = None" "openConnections s = []" "setupTimer s = None" "stallTimer s = None"
      "\<not> running (primaryPromoter s)"
    unfolding waiting_def by blast
  have only: "j = i" if "pend s j = Some cb" for j cb using i(2) that by (metis option.distinct(1))
  show ?thesis
  proof (rule coveredI [OF assms(2,3)])
    fix j cb
    assume "pend s j = Some cb"
    then show "setupTimer s = Some j \<or> stallTimer s = Some j \<or> timerId (recoveryProbeScheduler s) = Some j"
      using i(1) only by blast
  next
    show "pend s j \<noteq> Some (PromoterTimer t g)" for j t g
      by (rule promoter_idle_timer [OF assms(3) rest(5)])
  qed (simp add: rest)
qed

lemma settingUp_covered:
  assumes "settingUp s" and "loop_ok (page s)"
    and "promo_inv pending_callback PromoterTimer (primaryPromoter s) (page s)"
  shows "covered s"
proof -
  from assms(1) obtain i d where i: "setupTimer s = Some i" "\<forall>j. j \<noteq> i \<longrightarrow> pend s j = None"
    and rest: "closeConnection s = Some (generation s)" "openConnections s = [generation s]"
      "stallTimer s = None" "timerId (recoveryProbeScheduler s) = None" "\<not> running (primaryPromoter s)"
    unfolding settingUp_def attempting_def by blast
  have only: "j = i" if "pend s j = Some cb" for j cb using i(2) that by (metis option.distinct(1))
  show ?thesis
  proof (rule coveredI [OF assms(2,3)])
    fix j cb
    assume "pend s j = Some cb"
    then show "setupTimer s = Some j \<or> stallTimer s = Some j \<or> timerId (recoveryProbeScheduler s) = Some j"
      using i(1) only by blast
  next
    show "pend s j \<noteq> Some (PromoterTimer t g)" for j t g
      by (rule promoter_idle_timer [OF assms(3) rest(5)])
  qed (simp add: rest)
qed

lemma playingBack_covered:
  assumes "playingBack s" and "loop_ok (page s)"
    and "promo_inv pending_callback PromoterTimer (primaryPromoter s) (page s)"
  shows "covered s"
proof -
  from assms(1) obtain i d where st: "stallTimer s = Some i"
      "map_of (pendingTimers (page s)) i = Some (d, StallTimeout (generation s))"
      "\<forall>j. j \<noteq> i \<longrightarrow> pend s j = None \<or> (\<exists>t g. pend s j = Some (PromoterTimer t g))"
    and rest: "closeConnection s = Some (generation s)" "openConnections s = [generation s]"
      "setupTimer s = None" "timerId (recoveryProbeScheduler s) = None"
    unfolding playingBack_def attempting_def by blast
  show ?thesis
  proof (rule coveredI [OF assms(2,3)])
    fix j cb
    assume "pend s j = Some cb" and "\<And>t g. cb \<noteq> PromoterTimer t g"
    then have "j = i" using st(3) by (metis option.distinct(1) option.inject)
    then show "setupTimer s = Some j \<or> stallTimer s = Some j \<or> timerId (recoveryProbeScheduler s) = Some j"
      using st(1) by simp
  next
    fix j t g
    assume "setupTimer s = Some j \<or> stallTimer s = Some j \<or> timerId (recoveryProbeScheduler s) = Some j"
    then have "j = i" using st(1) rest by simp
    then show "pend s j \<noteq> Some (PromoterTimer t g)" using pend_of [OF st(2)] by simp
  qed (simp add: rest)
qed

lemma inv_covered: "session_inv s \<Longrightarrow> covered s"
  unfolding session_inv_def closed_def
  using waiting_covered settingUp_covered playingBack_covered quiet_covered by blast

subsection \<open>Into the waiting mode\<close>

lemma arm_probe_waiting:
  assumes q: "quiet s" and alive: "\<not> destroyed s" and started: "attemptStartedAt s \<le> now s"
    and lo: "attemptStartedAt s + PLAYBACK_RETRY_INTERVAL_MS \<le> max (now s) until"
    and hi: "until \<le> now s + PLAYBACK_COOLDOWN_MS"
  shows "session_inv (arm_probe until act s) \<and> waiting (arm_probe until act s)"
proof -
  obtain sch c where arm: "scheduler_arm browserPlaybackProbeClock (RecoveryProbe act) until
      (recoveryProbeScheduler s) (page s) = (sch, c)" by force
  from q have ok: "loop_ok (page s)" and none: "timerId (recoveryProbeScheduler s) = None"
    by (simp_all add: quiet_def)
  obtain i d where i: "timerId sch = Some i" "loop_ok c" "loopNow c = now s"
    "pending_callback c = (pend s)(i \<mapsto> RecoveryProbe act (sgeneration sch))" "pend s i = None"
    "map_of (pendingTimers c) i = Some (d, RecoveryProbe act (sgeneration sch))" "d = max (now s) until"
    by (rule scheduler_arm_page [OF ok none arm])
  have s': "arm_probe until act s = s\<lparr>recoveryProbeScheduler := sch, page := c\<rparr>"
    by (simp add: arm_probe_def arm)
  have "promo_inv pending_callback PromoterTimer (primaryPromoter s) c"
    using promo_inv_cong [of pending_callback c PromoterTimer "page s"] q i(4)
    by (auto simp: quiet_def)
  moreover have "waiting (arm_probe until act s)"
    unfolding s' waiting_def using q alive i lo hi
    by (auto simp: quiet_def PLAYBACK_COOLDOWN_MS_def)
  ultimately show ?thesis using i(2,3) started by (simp add: session_inv_def s')
qed

lemma emitDiagnostic_simps [simp]:
  "covered (emitDiagnostic ev ov s) = covered s" "quiet (emitDiagnostic ev ov s) = quiet s"
  by (simp_all add: emitDiagnostic_def covered_def quiet_def)

lemma enterCooldown_waiting:
  assumes "covered s" and "\<not> destroyed s" and "attemptStartedAt s \<le> now s"
  shows "session_inv (enterCooldown (now s + PLAYBACK_COOLDOWN_MS) s) \<and> waiting (enterCooldown (now s + PLAYBACK_COOLDOWN_MS) s)"
proof -
  define s1 where "s1 = emitDiagnostic EpisodeExhaustedEvent
                 (no_override\<lparr>ovPhase := Some CoolingDown, ovErrorCategory := Some EpisodeExhausted,
                    ovTerminalReason := Some RetryBudgetExhausted\<rparr>)
                 (s\<lparr>diagnosticPhase := CoolingDown\<rparr>)"
  define s2 where "s2 = teardownAttempt (s1\<lparr>generation := Suc (generation s1)\<rparr>)"
  have "covered (s1\<lparr>generation := Suc (generation s1)\<rparr>)"
    using assms(1) by (simp add: s1_def covered_def emitDiagnostic_def)
  from teardown_quiet [OF this] have q: "quiet s2"
    and core: "same_core (s1\<lparr>generation := Suc (generation s1)\<rparr>) s2"
    by (simp_all add: s2_def)
  have facts: "now s2 = now s" "attemptStartedAt s2 = attemptStartedAt s" "\<not> destroyed s2"
    using core assms(2) by (simp_all add: same_core_def s1_def emitDiagnostic_def)
  let ?s3 = "s2\<lparr>playback := (playback s2)\<lparr>pbPhase := CoolingDown, pbReadyState := readyState s2,
                    pbStalledForMs := stalledForMs (sessRecovery s2) (now s2),
                    pbErrorCategory := EpisodeExhausted\<rparr>\<rparr>"
  have "quiet ?s3" using q by (simp add: quiet_def)
  moreover have "enterCooldown (now s + PLAYBACK_COOLDOWN_MS) s
      = arm_probe (now s + PLAYBACK_COOLDOWN_MS) RestartEpisode ?s3"
    by (simp add: enterCooldown_def s1_def s2_def Let_def)
  ultimately show ?thesis
    using arm_probe_waiting [of ?s3] facts assms(3)
    by (simp add: PLAYBACK_RETRY_INTERVAL_MS_def PLAYBACK_COOLDOWN_MS_def)
qed

lemma advance_waiting:
  assumes q: "quiet s" and alive: "\<not> destroyed s" and started: "attemptStartedAt s \<le> now s"
    and until: "\<And>u. step = Cooldown u \<Longrightarrow> u = now s + PLAYBACK_COOLDOWN_MS"
  shows "session_inv (advance step err s) \<and> waiting (advance step err s)"
proof -
  have retry: "session_inv (scheduleRetry opts err t) \<and> waiting (scheduleRetry opts err t)"
    if "quiet t" "\<not> destroyed t" "attemptStartedAt t \<le> now t" for opts t
    unfolding scheduleRetry_def using that
    by (intro arm_probe_waiting) (auto simp: PLAYBACK_RETRY_INTERVAL_MS_def PLAYBACK_COOLDOWN_MS_def)
  show ?thesis
  proof (cases step)
    case (Cooldown u)
    with until enterCooldown_waiting [OF quiet_covered [OF q] alive started] show ?thesis by simp
  next
    case (Resubscribe n)
    have "quiet (s\<lparr>resubscribes := Suc (resubscribes s)\<rparr>)" using q by (simp add: quiet_def)
    from retry [OF this] alive started Resubscribe show ?thesis by simp
  next
    case (TryTransport tr name n)
    have "quiet (s\<lparr>fallbacks := Suc (fallbacks s)\<rparr>)" "quiet (s\<lparr>reconnects := Suc (reconnects s)\<rparr>)"
      using q by (simp_all add: quiet_def)
    from this [THEN retry] alive started TryTransport show ?thesis
      by (simp add: recoveryAttemptPresentation_def Let_def)
  qed
qed

lemma nextFailure_cooldown: "nextFailure r t = (Cooldown u, r') \<Longrightarrow> u = t + PLAYBACK_COOLDOWN_MS"
  using ladder_not_cooldown
  by (auto simp: nextFailure_def cooldown_def Let_def split: option.splits if_splits)
     (metis is_cooldown.simps(1))+

lemma quiet_recovery [simp]: "quiet (s\<lparr>sessRecovery := r\<rparr>) = quiet s"
  by (simp add: quiet_def)

lemma failAttempt_waiting:
  assumes "covered s" and "\<not> destroyed s" and "attemptStartedAt s \<le> now s" and "token = generation s"
  shows "session_inv (failAttempt token err s) \<and> waiting (failAttempt token err s)"
proof -
  define s2 where "s2 = (let s1 = emitDiagnostic AttemptFailed
           (no_override\<lparr>ovPhase := Some (if err = MediaStall then Stalled else diagnosticPhase s),
              ovErrorCategory := Some err, ovTerminalReason := playbackFailureTerminalReason err\<rparr>) s
     in if err = Unsupported
        then emitDiagnostic UnsupportedEvent
               (no_override\<lparr>ovPhase := Some UnsupportedPhase, ovErrorCategory := Some err,
                  ovTerminalReason := Some (FailedBy Unsupported)\<rparr>) s1
        else s1)"
  define t where "t = s2\<lparr>sessRecovery := recordFailure (sessRecovery s2) (now s2), generation := Suc (generation s2)\<rparr>"
  define s3 where "s3 = teardownAttempt t"
  obtain step r where nf: "nextFailure (sessRecovery s3) (now s3) = (step, r)" by force
  have eq: "failAttempt token err s = advance step err (s3\<lparr>sessRecovery := r\<rparr>)"
    using assms(2,4) nf by (simp add: failAttempt_def s3_def t_def s2_def Let_def)
  have t: "covered t" "now t = now s" "attemptStartedAt t = attemptStartedAt s" "destroyed t = destroyed s"
    using assms(1) by (simp_all add: t_def s2_def covered_def emitDiagnostic_def Let_def)
  from teardown_quiet [OF t(1)] t assms(2,3) have "quiet s3" "\<not> destroyed s3" "attemptStartedAt s3 \<le> now s3"
    by (simp_all add: s3_def same_core_def)
  then show ?thesis
    unfolding eq by (intro advance_waiting) (use nf nextFailure_cooldown in auto)
qed

subsection \<open>Into the setup mode\<close>

lemma beginAttempt_inv:
  assumes cov: "covered s" and alive: "\<not> destroyed s" and started: "attemptStartedAt s \<le> now s"
  shows "session_inv (beginAttempt opts err s)
    \<and> (if remainingMs (sessRecovery s) (now s) = 0 then waiting (beginAttempt opts err s)
       else settingUp (beginAttempt opts err s))"
proof -
  define s1 where "s1 = teardownAttempt s"
  from teardown_quiet [OF cov] have q: "quiet s1" and core: "same_core s s1" by (simp_all add: s1_def)
  have s1: "\<not> destroyed s1" "now s1 = now s" "attemptStartedAt s1 = attemptStartedAt s"
    "sessRecovery s1 = sessRecovery s" "generation s1 = generation s"
    using core alive by (simp_all add: same_core_def)
  show ?thesis
  proof (cases "remainingMs (sessRecovery s) (now s) = 0")
    case True
    obtain step r where nf: "nextFailure (recordFailure (sessRecovery s1) (now s1)) (now s1) = (step, r)" by force
    have eq: "beginAttempt opts err s = advance step EpisodeExhausted (s1\<lparr>sessRecovery := r\<rparr>)"
      using True alive nf by (simp add: beginAttempt_def s1_def [symmetric] s1 Let_def)
    have "session_inv (beginAttempt opts err s) \<and> waiting (beginAttempt opts err s)"
      unfolding eq by (intro advance_waiting) (use q s1 started nf nextFailure_cooldown in auto)
    with True show ?thesis by simp
  next
    case False
    define s3 where "s3 = emitDiagnostic AttemptStarted
        (no_override\<lparr>ovPhase := Some (optPhase opts), ovErrorCategory := Some err\<rparr>)
        (publishAttempt opts err
           (s1\<lparr>generation := Suc (generation s), activeAttempt := opts, attemptStartedAt := now s,
               diagnosticPhase := optPhase opts, attemptEvents := []\<rparr>))"
    have s3: "page s3 = page s1" "sessRecovery s3 = sessRecovery s1" "generation s3 = Suc (generation s)"
      "attemptStartedAt s3 = now s" "destroyed s3 = destroyed s1" "stallTimer s3 = stallTimer s1"
      "openConnections s3 = openConnections s1"
      "primaryPromoter s3 = primaryPromoter s1" "recoveryProbeScheduler s3 = recoveryProbeScheduler s1"
      by (simp_all add: s3_def emitDiagnostic_def publishAttempt_def s1)
    obtain i c where st: "set_timeout (SetupTimeout (Suc (generation s)))
        (boundedDelayMs (sessRecovery s) (now s) PLAYBACK_SETUP_MS) (page s1) = (i, c)" by force
    have eq: "beginAttempt opts err s = s3\<lparr>setupTimer := Some i, page := c,
        closeConnection := Some (Suc (generation s)), openConnections := Suc (generation s) # openConnections s3\<rparr>"
      using False alive st
      by (simp add: beginAttempt_def s1_def [symmetric] s1 s3_def [symmetric] s3 Let_def)
    from q have ok: "loop_ok (page s1)" by (simp add: quiet_def)
    note c = set_timeoutD [OF ok st]
    have inv: "promo_inv pending_callback PromoterTimer (primaryPromoter s1) c"
      using promo_inv_cong [of pending_callback c PromoterTimer "page s1"] q c(2)
      by (auto simp: quiet_def)
    have "boundedDelayMs (sessRecovery s) (now s) PLAYBACK_SETUP_MS \<le> PLAYBACK_SETUP_MS"
      by (simp add: boundedDelayMs_def PLAYBACK_SETUP_MS_def)
    then have "settingUp (beginAttempt opts err s)"
      unfolding eq settingUp_def attempting_def using q c s3 s1 by (auto simp: quiet_def)
    with False inv c s3 s1 show ?thesis by (simp add: session_inv_def eq)
  qed
qed

section \<open>Fields the invariant does not read\<close>

lemmas session_mode_defs =
  session_inv_def closed_def waiting_def settingUp_def playingBack_def attempting_def quiet_def primary_def

lemma session_inv_irrelevant [simp]:
  "session_inv (s\<lparr>diagnostics := ds\<rparr>) = session_inv s"
  "session_inv (s\<lparr>playback := pb\<rparr>) = session_inv s"
  "session_inv (s\<lparr>lastProgressStateAt := t\<rparr>) = session_inv s"
  "session_inv (s\<lparr>lastBinaryStateAt := t\<rparr>) = session_inv s"
  "session_inv (s\<lparr>lastPresentedFrameAt := t\<rparr>) = session_inv s"
  "session_inv (s\<lparr>lastVideoTime := x\<rparr>) = session_inv s"
  "session_inv (s\<lparr>videoTime := x\<rparr>) = session_inv s"
  "session_inv (s\<lparr>readyState := n\<rparr>) = session_inv s"
  "session_inv (s\<lparr>attemptEvents := es\<rparr>) = session_inv s"
  "session_inv (s\<lparr>sessRecovery := r\<rparr>) = session_inv s"
  "session_inv (s\<lparr>reconnects := n\<rparr>) = session_inv s"
  "session_inv (s\<lparr>fallbacks := n\<rparr>) = session_inv s"
  "session_inv (s\<lparr>resubscribes := n\<rparr>) = session_inv s"
  by (simp_all add: session_mode_defs)

lemma session_inv_emit [simp]:
  "session_inv (emitDiagnostic ev ov s) = session_inv s"
  "session_inv (emitAttemptDiagnosticOnce ev ov s) = session_inv s"
  by (simp_all add: emitDiagnostic_def emitAttemptDiagnosticOnce_def)

section \<open>Progress\<close>

lemma clear_timeout_covered:
  assumes cov: "covered s" and "pend s i = Some cb" and "\<And>t g. cb \<noteq> PromoterTimer t g"
  shows "covered (s\<lparr>page := clear_timeout i (page s)\<rparr>)"
  using cov clear_foreign [of "page s" i "primaryPromoter s"] assms(2,3)
  by (auto simp: covered_def split: if_splits)

text \<open>A playing session whose promotion is not settled yet.\<close>

definition progressing :: "session \<Rightarrow> bool" where
  "progressing s \<longleftrightarrow> loop_ok (page s)
     \<and> promo_inv pending_callback PromoterTimer (primaryPromoter s) (page s)
     \<and> attemptStartedAt s \<le> now s \<and> attempting s \<and> setupTimer s = None \<and> diagnosticPhase s = Playing
     \<and> (running (primaryPromoter s) \<longrightarrow>
          2 \<le> length (candidates s) \<and> optStreamName (activeAttempt s) \<noteq> primary s)
     \<and> (\<exists>i d. stallTimer s = Some i
          \<and> map_of (pendingTimers (page s)) i = Some (d, StallTimeout (generation s))
          \<and> d \<le> now s + PLAYBACK_STALL_MS
          \<and> (\<forall>j. j \<noteq> i \<longrightarrow> pend s j = None \<or> (\<exists>t g. pend s j = Some (PromoterTimer t g))))"

text \<open>The due times of timers that are not the promoter's do not change when it schedules.\<close>

lemma schedule_frame:
  assumes "loop_ok c" and "timerId (pscheduler p) \<noteq> Some j" and "pending_callback c j \<noteq> None"
  shows "map_of (pendingTimers (snd (promoter_schedule browserPlaybackProbeClock mk token p c))) j
    = map_of (pendingTimers c) j"
proof -
  have "map_of (pendingTimers (snd (set_timeout cb d c'))) j = map_of (pendingTimers c) j"
    if "nextTimer c' = nextTimer c" "map_of (pendingTimers c') j = map_of (pendingTimers c) j" for cb d c'
    using that assms(1,3) by (auto simp: set_timeout_def loop_ok_def pending_callback_def)
  from this [of c] this [of "clear_timeout k c" for k] assms(2) show ?thesis
    by (auto simp: promoter_schedule_def scheduler_arm_def scheduler_clear_def Let_def clear_timeout_def
        split: prod.splits option.splits) (metis snd_conv)+
qed

lemma run_cycle_frame:
  assumes "loop_ok c" and "timerId (pscheduler p) \<noteq> Some j" and "pending_callback c j \<noteq> None"
  shows "map_of (pendingTimers (snd (snd (run_cycle browserPlaybackProbeClock mk token ts p c)))) j
    = map_of (pendingTimers c) j"
  using schedule_frame [OF assms] by (cases ts) simp_all

lemma start_frame:
  assumes "loop_ok c" and "timerId (pscheduler p) \<noteq> Some j" and "pending_callback c j \<noteq> None"
  shows "map_of (pendingTimers (snd (promoter_start browserPlaybackProbeClock mk pref p c))) j
    = map_of (pendingTimers c) j"
  using assms by (simp add: promoter_start_def schedule_frame Let_def)

lemma other_than_promoter:
  "promo_inv pending_callback PromoterTimer p c \<Longrightarrow> pending_callback c j = Some cb \<Longrightarrow>
   (\<And>t g. cb \<noteq> PromoterTimer t g) \<Longrightarrow> timerId (pscheduler p) \<noteq> Some j"
  using promo_timer by fastforce

lemma ensure_playing:
  assumes p: "progressing s"
  shows "session_inv (ensurePrimaryPromotion s) \<and> playingBack (ensurePrimaryPromotion s)"
proof (cases "2 \<le> length (candidates s) \<and> optStreamName (activeAttempt s) \<noteq> primary s \<and> \<not> running (primaryPromoter s)")
  case False
  then have "ensurePrimaryPromotion s = s" by (auto simp: ensurePrimaryPromotion_def)
  moreover have "playingBack s"
    using p False unfolding progressing_def playingBack_def by metis
  ultimately show ?thesis using p by (simp add: session_inv_def progressing_def)
next
  case True
  obtain prom c where st: "promoter_start browserPlaybackProbeClock PromoterTimer (preferred s)
      (primaryPromoter s) (page s) = (prom, c)" by force
  then have eq: "ensurePrimaryPromotion s = s\<lparr>primaryPromoter := prom, page := c\<rparr>"
    using True by (simp add: ensurePrimaryPromotion_def)
  from p have ok: "loop_ok (page s)" and inv: "promo_inv pending_callback PromoterTimer (primaryPromoter s) (page s)"
    by (simp_all add: progressing_def)
  note start = session_promoter.start_inv [OF inv ok st]
  have time: "loopNow c = now s" using promoter_now(2) st by (metis snd_conv)
  obtain i d where i: "stallTimer s = Some i"
      "map_of (pendingTimers (page s)) i = Some (d, StallTimeout (generation s))"
      "d \<le> now s + PLAYBACK_STALL_MS"
      "\<forall>j. j \<noteq> i \<longrightarrow> pend s j = None \<or> (\<exists>t g. pend s j = Some (PromoterTimer t g))"
    using p unfolding progressing_def by blast
  have "map_of (pendingTimers c) i = Some (d, StallTimeout (generation s))"
    using start_frame [OF ok other_than_promoter [OF inv pend_of [OF i(2)]], of PromoterTimer "preferred s"]
      i(2) pend_of [OF i(2)] by (simp add: st)
  moreover have "pending_callback c j = None \<or> (\<exists>t g. pending_callback c j = Some (PromoterTimer t g))" if "j \<noteq> i" for j
  proof (rule ccontr)
    assume "\<not> ?thesis"
    then obtain cb where "pending_callback c j = Some cb" "\<forall>t g. cb \<noteq> PromoterTimer t g" by auto
    moreover from this start have "pend s j = Some cb" by (simp add: same_others_def)
    ultimately show False using i(4) that by (metis option.distinct(1) option.inject)
  qed
  ultimately show ?thesis
    using p start time i(1,3) True by (simp add: eq session_inv_def playingBack_def progressing_def attempting_def primary_def)
qed

lemma attempting_cases:
  assumes "session_inv s" and "\<not> destroyed s" and "closeConnection s \<noteq> None"
  shows "settingUp s \<or> playingBack s"
  using assms unfolding session_inv_def closed_def waiting_def by blast

lemma reset_progressing:
  assumes inv: "session_inv s" and "\<not> destroyed s" and "closeConnection s \<noteq> None"
  shows "progressing ((resetStallTimer (generation s)
    (s\<lparr>page := clear_timer (setupTimer s) (page s), setupTimer := None\<rparr>))\<lparr>diagnosticPhase := Playing\<rparr>)"
proof -
  let ?c1 = "clear_timer (stallTimer s) (clear_timer (setupTimer s) (page s))"
  obtain i c where st: "set_timeout (StallTimeout (generation s)) PLAYBACK_STALL_MS ?c1 = (i, c)" by force
  have cov: "covered s" by (rule inv_covered [OF inv])
  then have ok: "loop_ok (page s)"
    and pinv: "promo_inv pending_callback PromoterTimer (primaryPromoter s) (page s)"
    by (simp_all add: covered_def)
  note c = set_timeoutD [OF loop_clear_timer(1) [OF loop_clear_timer(1) [OF ok]] st]
  note modes = attempting_cases [OF assms]
  then have att: "attempting s" and runs: "running (primaryPromoter s) \<longrightarrow>
      2 \<le> length (candidates s) \<and> optStreamName (activeAttempt s) \<noteq> primary s"
    unfolding settingUp_def playingBack_def by blast+
  have rest: "pending_callback c j = None \<or> (\<exists>t g. pending_callback c j = Some (PromoterTimer t g))" if "j \<noteq> i" for j
  proof (rule ccontr)
    assume "\<not> ?thesis"
    then obtain cb where cb: "pending_callback c j = Some cb" "\<forall>t g. cb \<noteq> PromoterTimer t g" by auto
    then have "pend s j = Some cb" "setupTimer s \<noteq> Some j" "stallTimer s \<noteq> Some j"
      using that by (auto simp: c(2) pending_clear_timer split: if_splits)
    with cov cb att show False by (auto simp: covered_def attempting_def)
  qed
  have foreign: "pending_callback c j = Some (PromoterTimer t g) \<longleftrightarrow> pend s j = Some (PromoterTimer t g)" for j t g
    using cov c(3) by (auto simp: c(2) pending_clear_timer covered_def split: if_splits)
  have "promo_inv pending_callback PromoterTimer (primaryPromoter s) c"
    using promo_inv_cong [of pending_callback c PromoterTimer "page s", OF foreign] pinv by simp
  moreover have "attemptStartedAt s \<le> now s" using inv by (simp add: session_inv_def)
  ultimately show ?thesis
    using st c(1,4,5) att runs rest
    by (simp add: progressing_def resetStallTimer_def attempting_def primary_def)
qed

lemma progressing_irrelevant:
  "progressing (emitAttemptDiagnosticOnce ev ov s) = progressing s"
  "progressing (s\<lparr>sessRecovery := r\<rparr>) = progressing s"
  "progressing (s\<lparr>reconnects := 0, fallbacks := 0, resubscribes := 0\<rparr>) = progressing s"
  by (simp_all add: progressing_def emitAttemptDiagnosticOnce_def emitDiagnostic_def attempting_def primary_def)

lemma markProgress_inv:
  assumes inv: "session_inv s"
  shows "session_inv (markProgress token s)"
proof (cases "destroyed s \<or> token \<noteq> generation s \<or> closeConnection s = None \<or> diagnosticPhase s = CoolingDown")
  case True
  with inv show ?thesis by (simp add: markProgress_def)
next
  case False
  define s2 where "s2 = emitAttemptDiagnosticOnce PlaybackStarted
     (no_override\<lparr>ovPhase := Some Playing, ovErrorCategory := Some NoError\<rparr>)
     ((resetStallTimer (generation s)
        (s\<lparr>page := clear_timer (setupTimer s) (page s), setupTimer := None\<rparr>))\<lparr>diagnosticPhase := Playing\<rparr>)"
  obtain b r where rp: "recordProgress (sessRecovery s2) (now s2) = (b, r)" by force
  define s4 where "s4 = ensurePrimaryPromotion
     (if b then s2\<lparr>sessRecovery := r\<rparr>\<lparr>reconnects := 0, fallbacks := 0, resubscribes := 0\<rparr> else s2\<lparr>sessRecovery := r\<rparr>)"
  have "progressing s2"
    using reset_progressing [OF inv] False by (simp add: s2_def progressing_irrelevant)
  then have "session_inv s4"
    unfolding s4_def by (intro ensure_playing [THEN conjunct1]) (simp add: progressing_irrelevant)
  moreover have "\<exists>pb t. markProgress token s =
      (if now s4 - lastProgressStateAt s4 < 1000 then s4 else s4\<lparr>lastProgressStateAt := t, playback := pb\<rparr>)"
  proof -
    have token: "token = generation s" using False by simp
    show ?thesis
      unfolding markProgress_def token if_not_P [OF False [unfolded token]] Let_def s2_def [symmetric] rp prod.case s4_def [symmetric]
      by blast
  qed
  ultimately show ?thesis by auto
qed

section \<open>Every event keeps the invariant\<close>

fun is_recovered :: "promo_event \<Rightarrow> bool" where
  "is_recovered (Recovered t) = True"
| "is_recovered _ = False"

lemma emit_appends: "\<exists>ds. emitDiagnostic ev ov s = s\<lparr>diagnostics := diagnostics s @ ds\<rparr>"
  unfolding emitDiagnostic_def by (rule exI) (rule refl)

lemma promotion_diagnostics:
  "\<not> is_recovered e \<Longrightarrow> \<exists>ds. promotion e s = s\<lparr>diagnostics := diagnostics s @ ds\<rparr>"
  by (cases e) (simp_all only: promotion.simps emit_appends is_recovered.simps simp_thms)

lemma promotions_diagnostics:
  "(\<forall>e \<in> set es. \<not> is_recovered e) \<Longrightarrow> \<exists>ds. fold promotion es s = s\<lparr>diagnostics := diagnostics s @ ds\<rparr>"
proof (induction es arbitrary: s)
  case Nil
  show ?case by (rule exI [of _ "[]"]) simp
next
  case (Cons e es)
  obtain ds where ds: "promotion e s = s\<lparr>diagnostics := diagnostics s @ ds\<rparr>"
    using promotion_diagnostics Cons.prems by (metis list.set_intros(1))
  obtain ds' where "fold promotion es (promotion e s)
      = (promotion e s)\<lparr>diagnostics := diagnostics (promotion e s) @ ds'\<rparr>"
    using Cons.IH [of "promotion e s"] Cons.prems by auto
  then have "fold promotion (e # es) s = s\<lparr>diagnostics := diagnostics s @ (ds @ ds')\<rparr>" by (simp add: ds)
  then show ?case by (rule exI)
qed

lemma run_cycle_events: "run_cycle clk mk token ts p c = (es, q) \<Longrightarrow> \<forall>e \<in> set es. \<not> is_recovered e"
  by (cases ts) (auto split: if_splits)

lemma due_pending:
  "due s i = Some cb \<Longrightarrow> \<exists>d. map_of (pendingTimers (page s)) i = Some (d, cb)"
  by (auto simp: due_def split: option.splits prod.splits if_splits)

lemma promo_quiet_mode:
  assumes "session_inv s" and "running (primaryPromoter s)"
  shows "playingBack s"
  using assms unfolding session_inv_def closed_def quiet_def waiting_def settingUp_def by blast

text \<open>A promoter that went on: the promoter and the page changed, some diagnostics were reported.\<close>

lemma promoter_continues:
  assumes inv: "session_inv s" and play: "playingBack s"
    and p: "promo_inv pending_callback PromoterTimer prom c" "loop_ok c" "running prom" "loopNow c = now s"
    and others: "same_others pending_callback PromoterTimer (page s) c"
    and run: "running (primaryPromoter s)"
    and frame: "\<And>j. pend s j \<noteq> None \<Longrightarrow> timerId (pscheduler (primaryPromoter s)) \<noteq> Some j \<Longrightarrow>
      map_of (pendingTimers c) j = map_of (pendingTimers (page s)) j"
    and es: "\<forall>e \<in> set es. \<not> is_recovered e"
  shows "session_inv (promoter_effect (es, prom, c) s)"
proof -
  obtain ds where "promoter_effect (es, prom, c) s = s\<lparr>primaryPromoter := prom, page := c,
      diagnostics := diagnostics s @ ds\<rparr>"
    using promotions_diagnostics [OF es, of "s\<lparr>primaryPromoter := prom, page := c\<rparr>"]
    by (auto simp: promoter_effect_def)
  note eq = this
  obtain i d where i: "stallTimer s = Some i"
      "map_of (pendingTimers (page s)) i = Some (d, StallTimeout (generation s))"
      "d \<le> now s + PLAYBACK_STALL_MS"
      "\<forall>j. j \<noteq> i \<longrightarrow> pend s j = None \<or> (\<exists>t g. pend s j = Some (PromoterTimer t g))"
    using play unfolding playingBack_def by blast
  have pinv: "promo_inv pending_callback PromoterTimer (primaryPromoter s) (page s)"
    using inv by (simp add: session_inv_def)
  have "map_of (pendingTimers c) i = Some (d, StallTimeout (generation s))"
    using frame [of i] other_than_promoter [OF pinv pend_of [OF i(2)]] i(2) pend_of [OF i(2)] by simp
  moreover have "pending_callback c j = None \<or> (\<exists>t g. pending_callback c j = Some (PromoterTimer t g))" if "j \<noteq> i" for j
  proof (rule ccontr)
    assume "\<not> ?thesis"
    then obtain cb where "pending_callback c j = Some cb" "\<forall>t g. cb \<noteq> PromoterTimer t g" by auto
    moreover from this others have "pend s j = Some cb" by (simp add: same_others_def)
    ultimately show False using i(4) that by (metis option.distinct(1) option.inject)
  qed
  ultimately have "playingBack (s\<lparr>primaryPromoter := prom, page := c\<rparr>)"
    using play run p(3,4) i(1,3) by (simp add: playingBack_def attempting_def primary_def)
  then have "session_inv (s\<lparr>primaryPromoter := prom, page := c\<rparr>)"
    using inv p by (simp add: session_inv_def)
  moreover have "session_inv (s\<lparr>primaryPromoter := prom, page := c, diagnostics := diagnostics s @ ds\<rparr>)
      = session_inv (s\<lparr>primaryPromoter := prom, page := c\<rparr>)"
    by (rule session_inv_irrelevant)
  ultimately show ?thesis by (simp add: eq)
qed

lemma session_inv_promoter:
  assumes inv: "session_inv s" and run: "running prom = running (primaryPromoter s)"
    and p: "promo_inv pending_callback PromoterTimer prom (page s)"
  shows "session_inv (s\<lparr>primaryPromoter := prom, page := page s\<rparr>)"
proof -
  let ?t = "s\<lparr>primaryPromoter := prom, page := page s\<rparr>"
  have "waiting ?t = waiting s" by (simp add: waiting_def run)
  moreover have "settingUp ?t = settingUp s" by (simp add: settingUp_def attempting_def run)
  moreover have "playingBack ?t = playingBack s" by (simp add: playingBack_def attempting_def primary_def run)
  moreover have "closed s \<Longrightarrow> closed ?t" using run p by (simp add: closed_def quiet_def)
  ultimately show ?thesis using inv p unfolding session_inv_def by simp blast
qed

lemma fire_promoter_inv:
  assumes inv: "session_inv s" and pend: "pend s i = Some (PromoterTimer token g)"
  shows "session_inv (promoter_effect (promoter_timer browserPlaybackProbeClock PromoterTimer token g
    (primaryPromoter s) (clear_timeout i (page s))) s)"
proof -
  have ok: "loop_ok (page s)" and pinv: "promo_inv pending_callback PromoterTimer (primaryPromoter s) (page s)"
    using inv by (simp_all add: session_inv_def)
  obtain es prom c where tm: "promoter_timer browserPlaybackProbeClock PromoterTimer token g
      (primaryPromoter s) (clear_timeout i (page s)) = (es, prom, c)" by (metis prod_cases3)
  note t = session_promoter.timer_inv [OF pinv ok pend, unfolded browser_clock_simps, OF tm]
  have id: "timerId (pscheduler (primaryPromoter s)) = Some i" "g = sgeneration (pscheduler (primaryPromoter s))"
    using promo_pending [OF pinv pend] by simp_all
  have run: "running (primaryPromoter s)"
    using promo_stopped [OF pinv] id by (metis option.distinct(1))
  let ?p = "(primaryPromoter s)\<lparr>pscheduler := \<lparr>timerId = None, sgeneration = Suc g\<rparr>\<rparr>"
  have cyc: "run_cycle browserPlaybackProbeClock PromoterTimer token
      (primaryProbeTransports (preferredTransport (primaryPromoter s))) ?p (clear_timeout i (page s)) = (es, prom, c)"
    using tm id by (cases "pscheduler (primaryPromoter s)") (simp add: promoter_timer_def scheduler_fire_def)
  have frame: "map_of (pendingTimers c) j = map_of (pendingTimers (page s)) j"
    if "pend s j \<noteq> None" "timerId (pscheduler (primaryPromoter s)) \<noteq> Some j" for j
    using run_cycle_frame [of "clear_timeout i (page s)" ?p j PromoterTimer token
        "primaryProbeTransports (preferredTransport (primaryPromoter s))"] that id(1) ok
    by (simp add: cyc)
  have "loopNow c = now s"
    using promoter_now(5) [of PromoterTimer token g "primaryPromoter s" "clear_timeout i (page s)"] by (simp add: tm)
  then show ?thesis
    unfolding tm using promoter_continues [OF inv promo_quiet_mode [OF inv run] _ _ _ _ _ run frame]
      t run_cycle_events [OF cyc] by blast
qed

lemma settled_probe_inv:
  assumes inv: "session_inv s"
  shows "session_inv (promoter_effect (probe_settled browserPlaybackProbeClock PromoterTimer i b
    (primaryPromoter s) (page s)) s)"
proof -
  let ?p = "primaryPromoter s"
  have ok: "loop_ok (page s)" and pinv: "promo_inv pending_callback PromoterTimer ?p (page s)"
    using inv by (simp_all add: session_inv_def)
  obtain es prom c where ps: "probe_settled browserPlaybackProbeClock PromoterTimer i b ?p (page s) = (es, prom, c)"
    by (metis prod_cases3)
  note t = session_promoter.settled_inv [OF pinv ok ps]
  show ?thesis
  proof (cases "running ?p \<and> live_flight ?p i")
    case False
    from settled_stale [OF this ps] have "es = []" "c = page s" "running prom = running ?p" by auto
    then show ?thesis
      unfolding ps using session_inv_promoter [OF inv, of prom] t by (simp add: promoter_effect_def)
  next
    case True
    then have run: "running ?p" and lv: "live_flight ?p i" by simp_all
    note play = promo_quiet_mode [OF inv run]
    have "controller ?p = Some i" by (rule promo_live [OF pinv lv])
    then have none: "timerId (pscheduler ?p) = None" using promo_driver [OF pinv run] by simp
    obtain f where "map_of (flights ?p) i = Some f" "flightToken f = pgeneration ?p"
      "promo_idle pending_callback PromoterTimer (?p\<lparr>flights := map_delete i (flights ?p), controller := None\<rparr>) (page s)"
      and eq: "probe_settled browserPlaybackProbeClock PromoterTimer i b ?p (page s) =
        (let p2 = ?p\<lparr>flights := map_delete i (flights ?p), controller := None\<rparr>
         in if b then ([Recovered (flightTransport f)], p2\<lparr>running := False, callbacks := False\<rparr>, page s)
            else (let (es, r) = run_cycle browserPlaybackProbeClock PromoterTimer (pgeneration ?p) (flightRest f) p2 (page s)
                  in (ProbeFailed (flightTransport f) # es, r)))"
      by (rule settled_live [OF pinv run lv, where clk = browserPlaybackProbeClock and b = b])
    note f = this
    let ?p2 = "?p\<lparr>flights := map_delete i (flights ?p), controller := None\<rparr>"
    show ?thesis
    proof (cases b)
      case False
      then obtain es' where cyc: "run_cycle browserPlaybackProbeClock PromoterTimer (pgeneration ?p2) (flightRest f) ?p2 (page s)
          = (es', prom, c)" and es: "es = ProbeFailed (flightTransport f) # es'"
        using ps eq by (auto simp: Let_def split: prod.splits)
      have "running ?p2" using run by simp
      note t' = session_promoter.run_cycle_inv [OF f(3) ok this cyc]
      have frame: "map_of (pendingTimers c) j = map_of (pendingTimers (page s)) j"
        if "pend s j \<noteq> None" "timerId (pscheduler ?p) \<noteq> Some j" for j
        using run_cycle_frame [OF ok _ that(1), of ?p2 PromoterTimer "pgeneration ?p2" "flightRest f", unfolded cyc snd_conv]
          that(2) by simp
      have "loopNow c = now s"
        using promoter_now(4) [of PromoterTimer "pgeneration ?p2" "flightRest f" ?p2 "page s", unfolded cyc snd_conv] .
      moreover have "\<forall>e \<in> set es. \<not> is_recovered e" using run_cycle_events [OF cyc] by (simp add: es)
      ultimately show ?thesis
        unfolding ps using promoter_continues [OF inv play _ _ _ _ _ run frame] t' by blast
    next
      case True
      with ps eq have res: "es = [Recovered (flightTransport f)]" "prom = ?p2\<lparr>running := False, callbacks := False\<rparr>" "c = page s"
        by (simp_all add: Let_def)
      define s1 where "s1 = s\<lparr>primaryPromoter := prom, page := c\<rparr>"
      have "covered s1"
        using inv_covered [OF inv] t by (simp add: s1_def covered_def res(3))
      moreover have facts: "\<not> destroyed s1" "optStreamName (activeAttempt s1) \<noteq> primary s1"
          "diagnosticPhase s1 = Playing" "attemptStartedAt s1 \<le> now s1"
        using play run inv by (simp_all add: s1_def playingBack_def attempting_def primary_def session_inv_def res(3))
      ultimately have "session_inv (promotion (Recovered (flightTransport f)) s1)"
        by (auto simp: Let_def covered_def emitDiagnostic_def intro!: beginAttempt_inv [THEN conjunct1])
      then show ?thesis by (simp add: ps res promoter_effect_def s1_def del: promotion.simps)
    qed
  qed
qed

lemma pending_closures:
  assumes inv: "session_inv s" and pend: "pend s i = Some cb"
  shows "case cb of
      SetupTimeout t \<Rightarrow> settingUp s \<and> t = generation s
    | StallTimeout t \<Rightarrow> playingBack s \<and> t = generation s
    | RecoveryProbe act g \<Rightarrow> waiting s \<and> timerId (recoveryProbeScheduler s) = Some i
        \<and> g = sgeneration (recoveryProbeScheduler s) \<and> (\<forall>j. j \<noteq> i \<longrightarrow> pend s j = None)
    | PromoterTimer t g \<Rightarrow> playingBack s"
proof -
  have pinv: "promo_inv pending_callback PromoterTimer (primaryPromoter s) (page s)"
    using inv by (simp add: session_inv_def)
  consider "closed s" | "waiting s" | "settingUp s" | "playingBack s"
    using inv unfolding session_inv_def by blast
  then show ?thesis
  proof cases
    case 1
    with pend show ?thesis by (simp add: closed_def quiet_def)
  next
    case 2
    then obtain k act d where k: "timerId (recoveryProbeScheduler s) = Some k"
        "map_of (pendingTimers (page s)) k = Some (d, RecoveryProbe act (sgeneration (recoveryProbeScheduler s)))"
        "\<forall>j. j \<noteq> k \<longrightarrow> pend s j = None"
      unfolding waiting_def by blast
    from k(3) pend have "i = k" by (metis option.distinct(1))
    with pend pend_of [OF k(2)] k(1,3) 2 show ?thesis by auto
  next
    case 3
    then obtain k d where k: "map_of (pendingTimers (page s)) k = Some (d, SetupTimeout (generation s))"
        "\<forall>j. j \<noteq> k \<longrightarrow> pend s j = None"
      unfolding settingUp_def by blast
    from k(2) pend have "i = k" by (metis option.distinct(1))
    with pend pend_of [OF k(1)] 3 show ?thesis by auto
  next
    case 4
    then obtain k d where k: "map_of (pendingTimers (page s)) k = Some (d, StallTimeout (generation s))"
        "\<forall>j. j \<noteq> k \<longrightarrow> pend s j = None \<or> (\<exists>t g. pend s j = Some (PromoterTimer t g))"
      unfolding playingBack_def by blast
    show ?thesis
    proof (cases "i = k")
      case True
      with pend pend_of [OF k(1)] 4 show ?thesis by auto
    next
      case False
      with k(2) pend 4 show ?thesis by (auto split: session_cb.split)
    qed
  qed
qed

lemma attempt_timeout_inv:
  assumes inv: "session_inv s" and "pend s i = Some cb" and "cb = SetupTimeout t \<or> cb = StallTimeout t"
  shows "session_inv (failAttempt t err (s\<lparr>page := clear_timeout i (page s)\<rparr>))"
proof -
  have facts: "t = generation s" "\<not> destroyed s"
    using pending_closures [OF inv assms(2)] assms(3)
    by (auto simp: settingUp_def playingBack_def attempting_def)
  have cov: "covered (s\<lparr>page := clear_timeout i (page s)\<rparr>)"
    by (rule clear_timeout_covered [OF inv_covered [OF inv] assms(2)]) (use assms(3) in auto)
  have "attemptStartedAt s \<le> now s" using inv by (simp add: session_inv_def)
  then show ?thesis using failAttempt_waiting [OF cov] facts by simp
qed

lemma recovery_probe_quiet:
  assumes inv: "session_inv s" and pend: "pend s i = Some (RecoveryProbe act g)"
  shows "scheduler_fire g (recoveryProbeScheduler s) =
      (\<lparr>timerId = None, sgeneration = Suc g\<rparr>, True)"
    and "quiet (s\<lparr>page := clear_timeout i (page s), recoveryProbeScheduler := \<lparr>timerId = None, sgeneration = Suc g\<rparr>\<rparr>)"
    and "\<not> destroyed s"
proof -
  have w: "waiting s" and i: "timerId (recoveryProbeScheduler s) = Some i" "g = sgeneration (recoveryProbeScheduler s)"
      "\<forall>j. j \<noteq> i \<longrightarrow> pend s j = None"
    using pending_closures [OF inv pend] by simp_all
  show "scheduler_fire g (recoveryProbeScheduler s) = (\<lparr>timerId = None, sgeneration = Suc g\<rparr>, True)"
    using i(2) by (cases "recoveryProbeScheduler s") (simp add: scheduler_fire_def)
  show "\<not> destroyed s" using w by (simp add: waiting_def)
  have pinv: "promo_inv pending_callback PromoterTimer (primaryPromoter s) (page s)"
    and ok: "loop_ok (page s)"
    using inv by (simp_all add: session_inv_def)
  have "promo_inv pending_callback PromoterTimer (primaryPromoter s) (clear_timeout i (page s))"
    using clear_foreign [of "page s" i "primaryPromoter s"] pend pinv by simp
  then show "quiet (s\<lparr>page := clear_timeout i (page s), recoveryProbeScheduler := \<lparr>timerId = None, sgeneration = Suc g\<rparr>\<rparr>)"
    using w i(3) ok by (simp add: quiet_def waiting_def)
qed

lemma run_callback_inv:
  assumes inv: "session_inv s" and pend: "pend s i = Some cb"
  shows "session_inv (run_callback cb (s\<lparr>page := clear_timeout i (page s)\<rparr>))"
proof (cases cb)
  case (SetupTimeout t)
  then show ?thesis using attempt_timeout_inv [OF inv pend, of t] by simp
next
  case (StallTimeout t)
  then show ?thesis using attempt_timeout_inv [OF inv pend, of t] by simp
next
  case (RecoveryProbe act g)
  note q = recovery_probe_quiet [OF inv pend [unfolded RecoveryProbe]]
  let ?s = "s\<lparr>page := clear_timeout i (page s), recoveryProbeScheduler := \<lparr>timerId = None, sgeneration = Suc g\<rparr>\<rparr>"
  have started: "attemptStartedAt s \<le> now s" using inv by (simp add: session_inv_def)
  have go: "session_inv (beginAttempt opts err t)"
    if "quiet t" "\<not> destroyed t" "attemptStartedAt t \<le> now t" for opts err t
    using beginAttempt_inv [OF quiet_covered [OF that(1)] that(2,3)] by blast
  have "session_inv (run_retry act ?s)"
  proof (cases act)
    case (BeginAttempt opts err)
    then show ?thesis using go [OF q(2)] q(3) started by simp
  next
    case RestartEpisode
    have "quiet (?s\<lparr>sessRecovery := r\<rparr>)" for r using q(2) by (simp only: quiet_recovery)
    from go [OF this] show ?thesis using q(3) started RestartEpisode by simp
  qed
  then show ?thesis by (simp add: RecoveryProbe q(1))
next
  case (PromoterTimer token g)
  have "promoter_effect r (s\<lparr>page := c\<rparr>) = promoter_effect r s" for r c
    by (simp add: promoter_effect_def split: prod.split)
  with fire_promoter_inv [OF inv] pend PromoterTimer show ?thesis by simp
qed

lemma wait_session_inv: "session_inv s \<Longrightarrow> session_inv (s\<lparr>page := (page s)\<lparr>loopNow := max (now s) t\<rparr>\<rparr>)"
proof -
  assume inv: "session_inv s"
  let ?t = "s\<lparr>page := (page s)\<lparr>loopNow := max (now s) t\<rparr>\<rparr>"
  have p: "promo_inv pending_callback PromoterTimer (primaryPromoter ?t) (page ?t)"
    using inv promo_inv_later [where mk = PromoterTimer and p = "primaryPromoter s" and c = "page s"] by (simp add: session_inv_def)
  have "waiting s \<Longrightarrow> waiting ?t"
    unfolding waiting_def by (simp, elim conjE exE) (intro exI conjI, assumption, assumption, simp_all)
  moreover have "settingUp s \<Longrightarrow> settingUp ?t" by (simp add: settingUp_def attempting_def)
  moreover have "playingBack s \<Longrightarrow> playingBack ?t"
  proof -
    assume pb: "playingBack s"
    then obtain i d where i: "stallTimer s = Some i"
      "map_of (pendingTimers (page s)) i = Some (d, StallTimeout (generation s))"
      "d \<le> now s + PLAYBACK_STALL_MS"
      "\<forall>j. j \<noteq> i \<longrightarrow> pend s j = None \<or> (\<exists>t g. pend s j = Some (PromoterTimer t g))"
      unfolding playingBack_def by blast
    then have "d \<le> max (now s) t + PLAYBACK_STALL_MS" by simp
    with pb i show ?thesis by (simp add: playingBack_def attempting_def primary_def)
  qed
  moreover have "closed s \<Longrightarrow> closed ?t" using p by (simp add: closed_def quiet_def)
  ultimately show ?thesis using inv p unfolding session_inv_def by simp (metis max.coboundedI1)
qed

lemma failure_inv: "session_inv s \<Longrightarrow> session_inv (failAttempt token err s)"
proof (cases "destroyed s \<or> token \<noteq> generation s")
  case True
  then show "session_inv s \<Longrightarrow> ?thesis" by (simp add: failAttempt_def)
next
  case False
  assume inv: "session_inv s"
  then have "attemptStartedAt s \<le> now s" by (simp add: session_inv_def)
  with failAttempt_waiting [OF inv_covered [OF inv]] False show ?thesis by simp
qed

lemma cleanup_inv: "session_inv s \<Longrightarrow> session_inv (cleanup current s) \<and> closed (cleanup current s)"
proof -
  assume inv: "session_inv s"
  define t where "t = (emitDiagnostic SessionClosed
      (no_override\<lparr>ovTerminalReason := Some (playbackSessionCloseReason (effectInputs s) current)\<rparr>) s)
      \<lparr>destroyed := True, generation := Suc (generation s)\<rparr>"
  have "cleanup current s = teardownAttempt t"
    by (simp add: cleanup_def t_def emitDiagnostic_def Let_def)
  moreover have "covered t"
    using inv_covered [OF inv] by (simp add: t_def covered_def emitDiagnostic_def)
  moreover have "destroyed t" "attemptStartedAt t \<le> now t"
    using inv by (simp_all add: t_def emitDiagnostic_def session_inv_def)
  ultimately show ?thesis
    using teardown_quiet [of t] by (simp add: session_inv_def closed_def quiet_def same_core_def)
qed

lemma session_exec_inv: "session_inv s \<Longrightarrow> session_inv (session_exec ev s)"
proof (cases ev)
  case (Fire i)
  assume inv: "session_inv s"
  show ?thesis
  proof (cases "due s i")
    case (Some cb)
    then have "pend s i = Some cb" using due_pending pend_of by metis
    with run_callback_inv [OF inv] Some Fire show ?thesis by simp
  qed (use inv Fire in simp)
qed (simp_all add: connectionEvent_def connectionBinary_def handleTimeUpdate_def presentedFrame_def
       markProgress_inv failure_inv wait_session_inv cleanup_inv settled_probe_inv)

lemma session_run_inv: "session_inv s \<Longrightarrow> session_inv (session_run evs s)"
  unfolding session_run_def by (induction evs arbitrary: s) (simp_all add: session_exec_inv)

lemma start_session_inv: "start_session v inputs shown t0 = Some s \<Longrightarrow> session_inv s"
proof -
  assume st: "start_session v inputs shown t0 = Some s"
  then obtain first s0 where s: "s = beginAttempt first NoError s0"
    and s0: "destroyed s0 = False" "page s0 = \<lparr>loopNow = t0, nextTimer = 0, pendingTimers = []\<rparr>"
      "attemptStartedAt s0 = t0" "primaryPromoter s0 = new_promoter" "openConnections s0 = []"
      "closeConnection s0 = None" "setupTimer s0 = None" "stallTimer s0 = None"
      "recoveryProbeScheduler s0 = new_scheduler"
    by (auto simp: start_session_def Let_def split: if_splits)
  have "quiet s0"
    using s0 by (simp add: quiet_def loop_ok_def pending_callback_def new_promoter_inv new_scheduler_def)
      (simp add: new_promoter_def)
  then show ?thesis
    unfolding s using beginAttempt_inv [OF quiet_covered] s0 by simp
qed

end
