(* ===== verification/SessionProps.thy ===== *)
theory SessionProps
  imports SessionInv
begin

text \<open>
  What a live tile's session promises: it always goes on by itself, it never holds two
  connections, the callbacks of an attempt that was given up do nothing, retries keep their distance,
  and nothing happens after the cleanup.
\<close>

section \<open>Generations\<close>

lemma teardown_fields [simp]:
  "generation (teardownAttempt s) = generation s"
  "destroyed (teardownAttempt s) = destroyed s"
  "attemptStartedAt (teardownAttempt s) = attemptStartedAt s"
  "sessRecovery (teardownAttempt s) = sessRecovery s"
  "now (teardownAttempt s) = now s"
proof -
  have "loopNow (snd (scheduler_clear browserPlaybackProbeClock sch c)) = loopNow c"
    for sch and c :: "session_cb event_loop"
    by (auto simp: scheduler_clear_def Let_def split: option.splits)
  note this [simp]
  have "now (clearTimers s) = now s \<and> generation (clearTimers s) = generation s
      \<and> destroyed (clearTimers s) = destroyed s \<and> attemptStartedAt (clearTimers s) = attemptStartedAt s
      \<and> sessRecovery (clearTimers s) = sessRecovery s"
  proof -
    let ?c = "clear_timer (stallTimer s) (clear_timer (setupTimer s) (page s))"
    obtain sch c prom c' where sc: "scheduler_clear browserPlaybackProbeClock (recoveryProbeScheduler s) ?c = (sch, c)"
      and pr: "promoter_stop browserPlaybackProbeClock (primaryPromoter s) c = (prom, c')" by force
    have "loopNow c = now s"
      using \<open>\<And>sch c. loopNow (snd (scheduler_clear browserPlaybackProbeClock sch c)) = loopNow c\<close>
        [of "recoveryProbeScheduler s" ?c] by (simp add: sc)
    moreover have "loopNow c' = loopNow c" using promoter_now(3) [of "primaryPromoter s" c] by (simp add: pr)
    ultimately show ?thesis by (simp add: clearTimers_def sc pr)
  qed
  then show "generation (teardownAttempt s) = generation s"
    and "destroyed (teardownAttempt s) = destroyed s"
    and "attemptStartedAt (teardownAttempt s) = attemptStartedAt s"
    and "sessRecovery (teardownAttempt s) = sessRecovery s"
    and "now (teardownAttempt s) = now s"
    by (simp_all add: teardownAttempt_def close_connection_def Let_def split: option.split)
qed

lemma emit_fields [simp]:
  "generation (emitDiagnostic ev ov s) = generation s"
  "destroyed (emitDiagnostic ev ov s) = destroyed s"
  "attemptStartedAt (emitDiagnostic ev ov s) = attemptStartedAt s"
  "sessRecovery (emitDiagnostic ev ov s) = sessRecovery s"
  "now (emitDiagnostic ev ov s) = now s"
  "generation (emitAttemptDiagnosticOnce ev ov s) = generation s"
  "destroyed (emitAttemptDiagnosticOnce ev ov s) = destroyed s"
  by (simp_all add: emitDiagnostic_def emitAttemptDiagnosticOnce_def)

lemma arm_probe_generation [simp]: "generation (arm_probe until act s) = generation s"
  by (simp add: arm_probe_def split: prod.split)

lemma enterCooldown_generation [simp]: "generation (enterCooldown until s) = Suc (generation s)"
  by (simp add: enterCooldown_def Let_def)

lemma advance_generation: "generation s \<le> generation (advance step err s)"
  by (cases step) (auto simp: scheduleRetry_def recoveryAttemptPresentation_def Let_def)

text \<open>The state in which a failure asks the ladder for the next step.\<close>

definition failed_state :: "playback_error \<Rightarrow> session \<Rightarrow> session" where
  "failed_state err s =
     (let s1 = emitDiagnostic AttemptFailed
           (no_override\<lparr>ovPhase := Some (if err = MediaStall then Stalled else diagnosticPhase s),
              ovErrorCategory := Some err, ovTerminalReason := playbackFailureTerminalReason err\<rparr>) s;
          s2 = (if err = Unsupported
                then emitDiagnostic UnsupportedEvent
                       (no_override\<lparr>ovPhase := Some UnsupportedPhase, ovErrorCategory := Some err,
                          ovTerminalReason := Some (FailedBy Unsupported)\<rparr>) s1
                else s1)
      in teardownAttempt (s2\<lparr>sessRecovery := recordFailure (sessRecovery s) (now s),
           generation := Suc (generation s)\<rparr>))"

lemma failed_state_fields [simp]:
  "generation (failed_state err s) = Suc (generation s)"
  "destroyed (failed_state err s) = destroyed s"
  "attemptStartedAt (failed_state err s) = attemptStartedAt s"
  "sessRecovery (failed_state err s) = recordFailure (sessRecovery s) (now s)"
  "now (failed_state err s) = now s"
  by (simp_all add: failed_state_def Let_def)

lemma failAttempt_current:
  assumes "\<not> destroyed s"
  shows "failAttempt (generation s) err s =
    (let (step, r) = nextFailure (recordFailure (sessRecovery s) (now s)) (now s)
     in advance step err ((failed_state err s)\<lparr>sessRecovery := r\<rparr>))"
  using assms by (simp add: failAttempt_def failed_state_def Let_def)

lemma failAttempt_generation:
  "generation s \<le> generation (failAttempt token err s)"
  "\<not> destroyed s \<Longrightarrow> token = generation s \<Longrightarrow> generation s < generation (failAttempt token err s)"
proof -
  have less: "generation s < generation (failAttempt token err s)" if "\<not> destroyed s" "token = generation s"
  proof -
    obtain step r where nf: "nextFailure (recordFailure (sessRecovery s) (now s)) (now s) = (step, r)" by force
    show ?thesis
      using advance_generation [of "(failed_state err s)\<lparr>sessRecovery := r\<rparr>" step err]
      unfolding that(2) failAttempt_current [OF that(1)] nf by simp
  qed
  then show "\<not> destroyed s \<Longrightarrow> token = generation s \<Longrightarrow> generation s < generation (failAttempt token err s)" .
  show "generation s \<le> generation (failAttempt token err s)"
    using less by (cases "destroyed s \<or> token \<noteq> generation s") (auto simp: failAttempt_def)
qed

lemma nextFailure_exhausted:
  assumes "remainingMs r t = 0"
  shows "nextFailure (recordFailure r t) t = (cooldown t, recordFailure r t)"
proof -
  obtain t0 where "episodeStartedAt r = Some t0"
    using assms by (cases "episodeStartedAt r") (auto simp: remainingMs_def PLAYBACK_EPISODE_MS_def)
  moreover from this have "t0 + PLAYBACK_EPISODE_MS \<le> t"
    using assms by (simp add: remainingMs_def)
  ultimately show ?thesis
    using nextFailure_running [OF recordFailure_started] by simp
qed

lemma beginAttempt_generation:
  "\<not> destroyed s \<Longrightarrow> generation (beginAttempt opts err s) = Suc (generation s)"
  by (auto simp: beginAttempt_def publishAttempt_def nextFailure_exhausted cooldown_def Let_def split: prod.split)

lemma begin_generation: "generation s \<le> generation (beginAttempt opts err s)"
  by (cases "destroyed s") (simp add: beginAttempt_def, simp add: beginAttempt_generation)

lemma promotion_generation: "generation s \<le> generation (promotion e s)"
  by (cases e) (auto simp: Let_def intro!: order_trans [OF _ begin_generation])

lemma promotions_generation: "generation s \<le> generation (fold promotion es s)"
  by (induction es arbitrary: s) (auto intro: order_trans [OF promotion_generation])

lemma effect_generation: "generation s \<le> generation (promoter_effect r s)"
proof -
  obtain es p c where r: "r = (es, p, c)" by (metis prod_cases3)
  show ?thesis
    using promotions_generation [of "s\<lparr>primaryPromoter := p, page := c\<rparr>" es] by (simp add: promoter_effect_def r)
qed

lemma ensure_generation [simp]: "generation (ensurePrimaryPromotion s) = generation s"
  by (simp add: ensurePrimaryPromotion_def split: prod.split)

lemma markProgress_generation [simp]: "generation (markProgress token s) = generation s"
  by (auto simp: markProgress_def resetStallTimer_def Let_def split: prod.splits)

lemma run_callback_generation: "generation s \<le> generation (run_callback cb s)"
proof (cases cb)
  case (RecoveryProbe act g)
  have "generation t \<le> generation (run_retry act t)" for t
    by (cases act) (auto intro: order_trans [OF _ begin_generation])
  from this [of "s\<lparr>recoveryProbeScheduler := sch\<rparr>" for sch] RecoveryProbe show ?thesis
    by (auto split: prod.split bool.split)
qed (simp_all add: failAttempt_generation effect_generation)

lemma session_exec_generation: "generation s \<le> generation (session_exec ev s)"
proof (cases ev)
  case (Fire i)
  then show ?thesis
    using run_callback_generation [of "s\<lparr>page := clear_timeout i (page s)\<rparr>"]
    by (simp split: option.split)
qed (simp_all add: connectionEvent_def connectionBinary_def handleTimeUpdate_def presentedFrame_def
       failAttempt_generation effect_generation cleanup_def Let_def)

text \<open>The callbacks that captured a token, as one delivery function.\<close>

datatype attempt_callback =
  OnEvent connection_event | OnBinary | OnFailure playback_error | OnProgress

fun deliver_callback :: "nat \<Rightarrow> attempt_callback \<Rightarrow> session \<Rightarrow> session" where
  "deliver_callback token (OnEvent ev) s = connectionEvent token ev s"
| "deliver_callback token OnBinary s = connectionBinary token s"
| "deliver_callback token (OnFailure err) s = failAttempt token err s"
| "deliver_callback token OnProgress s = markProgress token s"

interpretation session_tokens: generation_guard generation
  "\<lambda>s t. \<exists>ev. t = session_exec ev s" deliver_callback
proof
  fix s t :: session
  assume "\<exists>ev. t = session_exec ev s"
  then show "generation s \<le> generation t" using session_exec_generation by blast
next
  fix token e and s :: session
  assume "token \<noteq> generation s"
  then show "deliver_callback token e s = s"
    by (cases e) (simp_all add: connectionEvent_def connectionBinary_def failAttempt_def markProgress_def)
qed

lemma session_run_steps: "(\<lambda>s t. \<exists>ev. t = session_exec ev s)\<^sup>*\<^sup>* s (session_run evs s)"
  unfolding session_run_def
proof (induction evs arbitrary: s)
  case (Cons ev evs)
  have "(\<lambda>s t. \<exists>ev. t = session_exec ev s)\<^sup>*\<^sup>* s (session_exec ev s)" by blast
  with Cons [of "session_exec ev s"] show ?case by (simp add: rtranclp_trans)
qed simp

text \<open>C7: an attempt that was given up is deaf. Once the session has moved past the generation
  of an attempt, no event, no media, no failure and no progress reported for it has any effect,
  whatever happened in between and however many such callbacks arrive.\<close>

theorem stale_attempt_is_inert:
  assumes "token < generation s" and "t = session_run evs s"
  shows "fold (deliver_callback token) cbs t = t"
  unfolding assms(2) by (rule session_tokens.stale_run_inert [OF session_run_steps assms(1)])

text \<open>A session to evaluate on: it has just begun its first attempt at time 0.\<close>

definition demo_session :: "jsstring list \<Rightarrow> session" where
  "demo_session names =
     (let inputs = \<lparr>inCandidateKey = candidateKey names, inPreferredTransport = Webrtc,
                    inResubscribeGeneration = 0, inSurface = OperatorLive\<rparr>
      in the (start_session True inputs (initialPlayback (hd names) Webrtc) 0))"

lemma demo_started:
  "start_session True \<lparr>inCandidateKey = candidateKey [js ''main'', js ''sub''], inPreferredTransport = Webrtc,
      inResubscribeGeneration = 0, inSurface = OperatorLive\<rparr> (initialPlayback (js ''main'') Webrtc) 0
    = Some (demo_session [js ''main'', js ''sub''])"
proof -
  have "effect_candidates (candidateKey [js ''main'', js ''sub'']) \<noteq> []"
    by (simp add: effect_candidates_def js_split_nonempty candidateKey_def)
  then show ?thesis by (simp add: demo_session_def start_session_def Let_def)
qed

lemma begin_alive: "\<not> destroyed s \<Longrightarrow> \<not> destroyed (beginAttempt opts err s)"
  by (simp add: beginAttempt_def nextFailure_exhausted cooldown_def enterCooldown_def arm_probe_def
      publishAttempt_def Let_def split: prod.split)

lemma started_fields:
  assumes "start_session v inputs shown t0 = Some s"
  shows "generation s = 1" "\<not> destroyed s"
proof -
  from assms obtain first s0 where "s = beginAttempt first NoError s0" "destroyed s0 = False" "generation s0 = 0"
    by (auto simp: start_session_def Let_def split: if_splits)
  then show "generation s = 1" "\<not> destroyed s"
    by (simp_all add: beginAttempt_generation begin_alive)
qed

lemmas demo_generation = started_fields(1) [OF demo_started]
lemmas demo_alive = started_fields(2) [OF demo_started]

lemma stale_attempt_is_inert_witness:
  "fold (deliver_callback 0) [OnFailure Socket, OnProgress, OnBinary]
     (session_run [Wait 100] (demo_session [js ''main'', js ''sub'']))
   = session_run [Wait 100] (demo_session [js ''main'', js ''sub''])"
  by (rule stale_attempt_is_inert [OF _ refl]) (simp add: demo_generation)

section \<open>The session goes on by itself\<close>

lemma due_after_wait:
  assumes "map_of (pendingTimers (page s)) i = Some (d, cb)"
  shows "session_run [Wait d, Fire i] s =
    run_callback cb (s\<lparr>page := clear_timeout i ((page s)\<lparr>loopNow := max (now s) d\<rparr>)\<rparr>)"
  using assms by (simp add: session_run_def due_def)

lemma run_retry_generation: "\<not> destroyed s \<Longrightarrow> generation (run_retry act s) = Suc (generation s)"
  by (cases act) (simp_all add: beginAttempt_generation)

text \<open>C1: a live tile is never stuck. Whatever happened to a session that has not been cleaned up,
  one of its own timers falls due within the next ten seconds, and when it fires the session leaves
  its current attempt or pause for the next one.\<close>

theorem session_goes_on:
  assumes "start_session v inputs shown t0 = Some s0" and "s = session_run evs s0" and "\<not> destroyed s"
  shows "\<exists>i d. d \<le> now s + PLAYBACK_STALL_MS \<and> generation s < generation (session_run [Wait d, Fire i] s)"
proof -
  have inv: "session_inv s"
    unfolding assms(2) by (rule session_run_inv [OF start_session_inv [OF assms(1)]])
  then consider "waiting s" | "settingUp s" | "playingBack s"
    using assms(3) unfolding session_inv_def closed_def by blast
  then show ?thesis
  proof cases
    case 1
    then obtain i act d where i: "timerId (recoveryProbeScheduler s) = Some i"
        "map_of (pendingTimers (page s)) i = Some (d, RecoveryProbe act (sgeneration (recoveryProbeScheduler s)))"
        "d \<le> now s + PLAYBACK_COOLDOWN_MS"
      unfolding waiting_def by blast
    have "generation s < generation (session_run [Wait d, Fire i] s)"
      unfolding due_after_wait [OF i(2)] using assms(3)
      by (simp add: scheduler_fire_def run_retry_generation)
    moreover have "d \<le> now s + PLAYBACK_STALL_MS"
      using i(3) by (simp add: PLAYBACK_COOLDOWN_MS_def PLAYBACK_STALL_MS_def)
    ultimately show ?thesis by blast
  next
    case 2
    then obtain i d where i: "map_of (pendingTimers (page s)) i = Some (d, SetupTimeout (generation s))"
        "d \<le> attemptStartedAt s + PLAYBACK_SETUP_MS"
      unfolding settingUp_def by blast
    have "generation s < generation (session_run [Wait d, Fire i] s)"
      unfolding due_after_wait [OF i(1)] run_callback.simps
      using failAttempt_generation(2) [of "s\<lparr>page := clear_timeout i ((page s)\<lparr>loopNow := max (now s) d\<rparr>)\<rparr>"]
        assms(3) by simp
    moreover have "d \<le> now s + PLAYBACK_STALL_MS"
      using i(2) inv by (simp add: session_inv_def PLAYBACK_SETUP_MS_def PLAYBACK_STALL_MS_def)
    ultimately show ?thesis by blast
  next
    case 3
    then obtain i d where i: "map_of (pendingTimers (page s)) i = Some (d, StallTimeout (generation s))"
        "d \<le> now s + PLAYBACK_STALL_MS"
      unfolding playingBack_def by blast
    have "generation s < generation (session_run [Wait d, Fire i] s)"
      unfolding due_after_wait [OF i(1)] run_callback.simps
      using failAttempt_generation(2) [of "s\<lparr>page := clear_timeout i ((page s)\<lparr>loopNow := max (now s) d\<rparr>)\<rparr>"]
        assms(3) by simp
    with i(2) show ?thesis by blast
  qed
qed

lemma session_goes_on_witness:
  "\<exists>i d. d \<le> now (demo_session [js ''main'', js ''sub'']) + PLAYBACK_STALL_MS
     \<and> 1 < generation (session_run [Wait d, Fire i] (demo_session [js ''main'', js ''sub'']))"
proof -
  have "demo_session [js ''main'', js ''sub''] = session_run [] (demo_session [js ''main'', js ''sub''])"
    by (simp add: session_run_def)
  from session_goes_on [OF demo_started this demo_alive] show ?thesis
    by (simp add: demo_generation)
qed

section \<open>One connection at a time\<close>

text \<open>C8: in every state of a session at most one player connection is open; it is the one the
  session would close, it belongs to the current generation, and none is open after the cleanup.\<close>

theorem one_connection:
  assumes "start_session v inputs shown t0 = Some s0" and "s = session_run evs s0"
  shows "(openConnections s = [] \<and> closeConnection s = None)
    \<or> (openConnections s = [generation s] \<and> closeConnection s = Some (generation s) \<and> \<not> destroyed s)"
proof -
  have "session_inv s"
    unfolding assms(2) by (rule session_run_inv [OF start_session_inv [OF assms(1)]])
  then show ?thesis
    unfolding session_mode_defs by (elim conjE disjE) simp_all
qed

lemma one_connection_witness:
  "let s = session_run [Wait 5000, Fire 0, Wait 5000, Fire 1] (demo_session [js ''main'', js ''sub''])
   in openConnections s = [] \<or> openConnections s = [generation s]"
  unfolding Let_def using one_connection [OF demo_started refl] by blast

section \<open>After the cleanup\<close>

lemma closed_exec:
  assumes "session_inv s" and "closed s"
  shows "closed (session_exec ev s) \<and> diagnostics (session_exec ev s) = diagnostics s
    \<and> playback (session_exec ev s) = playback s"
proof -
  have c: "destroyed s" "\<And>i. pend s i = None" "\<not> running (primaryPromoter s)"
    using assms(2) by (simp_all add: closed_def quiet_def)
  have inv': "session_inv (session_exec ev s)" by (rule session_exec_inv [OF assms(1)])
  have none: "due s i = None" for i
    using c(2) [of i] by (auto simp: due_def pending_callback_def)
  have "destroyed (session_exec ev s) \<and> diagnostics (session_exec ev s) = diagnostics s
      \<and> playback (session_exec ev s) = playback s"
  proof (cases ev)
    case (ProbeSettled i b)
    obtain es p c' where ps: "probe_settled browserPlaybackProbeClock PromoterTimer i b (primaryPromoter s) (page s) = (es, p, c')"
      by (metis prod_cases3)
    have "es = []" using settled_stale [OF _ ps] c(3) by blast
    with ProbeSettled c(1) show ?thesis by (simp add: ps promoter_effect_def)
  qed (simp_all add: c(1) none connectionEvent_def connectionBinary_def failAttempt_def)
  with inv' show ?thesis
    unfolding session_inv_def waiting_def settingUp_def playingBack_def attempting_def by blast
qed

lemma closed_run:
  "session_inv s \<Longrightarrow> closed s \<Longrightarrow> closed (session_run evs s) \<and> diagnostics (session_run evs s) = diagnostics s
    \<and> playback (session_run evs s) = playback s"
  unfolding session_run_def
proof (induction evs arbitrary: s)
  case (Cons ev evs)
  from Cons.IH [OF session_exec_inv [OF Cons.prems(1)]] closed_exec [OF Cons.prems]
  show ?case by simp
qed simp

text \<open>C9: the cleanup is final. From then on, whatever events still arrive, the session reports
  no diagnostic, publishes no state, keeps no timer pending on the page, holds no connection and its
  promoter does not run.\<close>

theorem cleanup_is_final:
  assumes "start_session v inputs shown t0 = Some s0" and "s = session_exec (Cleanup current) (session_run evs s0)"
    and "t = session_run evs' s"
  shows "diagnostics t = diagnostics s \<and> playback t = playback s \<and> (\<forall>i. pending_callback (page t) i = None)
    \<and> openConnections t = [] \<and> \<not> running (primaryPromoter t)"
proof -
  have inv: "session_inv (session_run evs s0)"
    by (rule session_run_inv [OF start_session_inv [OF assms(1)]])
  have "session_inv s" unfolding assms(2) by (rule session_exec_inv [OF inv])
  moreover have "closed s"
  proof (cases "destroyed (session_run evs s0)")
    case True
    then show ?thesis using inv
      by (auto simp: assms(2) session_inv_def waiting_def settingUp_def playingBack_def attempting_def)
  qed (use cleanup_inv [OF inv] assms(2) in simp)
  ultimately show ?thesis
    unfolding assms(3) using closed_run by (simp add: closed_def quiet_def)
qed

lemma cleanup_is_final_witness:
  "openConnections (session_run [TimeUpdate, Failure 1 Socket]
     (session_exec (Cleanup \<lparr>inCandidateKey = [], inPreferredTransport = Mse, inResubscribeGeneration = 1,
        inSurface = OperatorLive\<rparr>) (session_run [Wait 10] (demo_session [js ''main'', js ''sub''])))) = []"
  using cleanup_is_final [OF demo_started refl refl] by blast

section \<open>The modes as an abstract machine\<close>

datatype mode = Closed | Waiting | SettingUp | PlayingBack

definition mode_of :: "session \<Rightarrow> mode" where
  "mode_of s = (if destroyed s then Closed else if closeConnection s = None then Waiting
     else if setupTimer s \<noteq> None then SettingUp else PlayingBack)"

fun mode_next :: "mode \<Rightarrow> session_event \<Rightarrow> mode list" where
  "mode_next Closed ev = [Closed]"
| "mode_next m (Cleanup current) = [Closed]"
| "mode_next m (Failure token err) = [m, Waiting]"
| "mode_next Waiting (Fire i) = [Waiting, SettingUp]"
| "mode_next SettingUp (Fire i) = [SettingUp, Waiting]"
| "mode_next PlayingBack (Fire i) = [PlayingBack, Waiting]"
| "mode_next SettingUp TimeUpdate = [SettingUp, PlayingBack]"
| "mode_next SettingUp PresentedFrame = [SettingUp, PlayingBack]"
| "mode_next PlayingBack (ProbeSettled i b) = [PlayingBack, SettingUp]"
| "mode_next m ev = [m]"

lemma mode_of_simps:
  "waiting s \<Longrightarrow> mode_of s = Waiting" "settingUp s \<Longrightarrow> mode_of s = SettingUp"
  "playingBack s \<Longrightarrow> mode_of s = PlayingBack" "closed s \<Longrightarrow> mode_of s = Closed"
  by (auto simp: mode_of_def waiting_def settingUp_def playingBack_def attempting_def closed_def)

lemma mode_cases:
  assumes "session_inv s"
  obtains "mode_of s = Closed" "closed s" | "mode_of s = Waiting" "waiting s"
    | "mode_of s = SettingUp" "settingUp s" | "mode_of s = PlayingBack" "playingBack s"
  using assms mode_of_simps unfolding session_inv_def by blast

lemma ensure_fields [simp]:
  "destroyed (ensurePrimaryPromotion s) = destroyed s"
  "closeConnection (ensurePrimaryPromotion s) = closeConnection s"
  "openConnections (ensurePrimaryPromotion s) = openConnections s"
  "setupTimer (ensurePrimaryPromotion s) = setupTimer s"
  "attemptStartedAt (ensurePrimaryPromotion s) = attemptStartedAt s"
  by (simp_all add: ensurePrimaryPromotion_def split: prod.split)

lemma markProgress_fields [simp]:
  "destroyed (markProgress token s) = destroyed s"
  "closeConnection (markProgress token s) = closeConnection s"
  "openConnections (markProgress token s) = openConnections s"
  "attemptStartedAt (markProgress token s) = attemptStartedAt s"
  "setupTimer s = None \<Longrightarrow> setupTimer (markProgress token s) = None"
  by (auto simp: markProgress_def resetStallTimer_def emitAttemptDiagnosticOnce_def emitDiagnostic_def Let_def
      split: prod.splits)

lemma quiet_effect_fields:
  assumes "\<forall>e \<in> set es. \<not> is_recovered e"
  shows "destroyed (promoter_effect (es, p, c) s) = destroyed s"
    "closeConnection (promoter_effect (es, p, c) s) = closeConnection s"
    "openConnections (promoter_effect (es, p, c) s) = openConnections s"
    "setupTimer (promoter_effect (es, p, c) s) = setupTimer s"
    "attemptStartedAt (promoter_effect (es, p, c) s) = attemptStartedAt s"
  using promotions_diagnostics [OF assms, of "s\<lparr>primaryPromoter := p, page := c\<rparr>"]
  by (auto simp: promoter_effect_def)

lemma timer_events:
  "promoter_timer clk mk token g p c = (es, q) \<Longrightarrow> \<forall>e \<in> set es. \<not> is_recovered e"
  by (auto simp: promoter_timer_def split: prod.splits bool.splits dest: run_cycle_events)

text \<open>What firing a timer can do, by the closure it runs.\<close>

lemma fire_cases:
  assumes inv: "session_inv s" and due: "due s i = Some cb"
  shows "(waiting s \<and> (\<exists>act d. attemptStartedAt s + PLAYBACK_RETRY_INTERVAL_MS \<le> d \<and> d \<le> now s
            \<and> session_exec (Fire i) s = run_retry act (s\<lparr>page := clear_timeout i (page s),
                recoveryProbeScheduler := \<lparr>timerId = None, sgeneration = Suc (sgeneration (recoveryProbeScheduler s))\<rparr>\<rparr>)
            \<and> (waiting (session_exec (Fire i) s)
               \<or> settingUp (session_exec (Fire i) s) \<and> attemptStartedAt (session_exec (Fire i) s) = now s)))
     \<or> ((settingUp s \<or> playingBack s) \<and> waiting (session_exec (Fire i) s))
     \<or> (playingBack s \<and> destroyed (session_exec (Fire i) s) = destroyed s
          \<and> closeConnection (session_exec (Fire i) s) = closeConnection s
          \<and> openConnections (session_exec (Fire i) s) = openConnections s
          \<and> setupTimer (session_exec (Fire i) s) = setupTimer s)"
proof -
  obtain d where d: "map_of (pendingTimers (page s)) i = Some (d, cb)" "d \<le> now s"
    using due by (auto simp: due_def split: option.splits prod.splits if_splits)
  note pend = pend_of [OF d(1)]
  have exec: "session_exec (Fire i) s = run_callback cb (s\<lparr>page := clear_timeout i (page s)\<rparr>)"
    using due by simp
  note closures = pending_closures [OF inv pend]
  have started: "attemptStartedAt s \<le> now s" using inv by (simp add: session_inv_def)
  have timeout: "waiting (session_exec (Fire i) s)"
    if "cb = SetupTimeout (generation s) \<or> cb = StallTimeout (generation s)" "\<not> destroyed s"
  proof -
    have "covered (s\<lparr>page := clear_timeout i (page s)\<rparr>)"
      by (rule clear_timeout_covered [OF inv_covered [OF inv] pend]) (use that in auto)
    from failAttempt_waiting [OF this] that started exec show ?thesis by auto
  qed
  show ?thesis
  proof (cases cb)
    case (SetupTimeout t)
    with closures timeout show ?thesis by (auto simp: settingUp_def attempting_def)
  next
    case (StallTimeout t)
    with closures timeout show ?thesis by (auto simp: playingBack_def attempting_def)
  next
    case (PromoterTimer token g)
    obtain es p c where tm: "promoter_timer browserPlaybackProbeClock PromoterTimer token g
        (primaryPromoter s) (clear_timeout i (page s)) = (es, p, c)" by (metis prod_cases3)
    note f = quiet_effect_fields [OF timer_events [OF tm], of p c "s\<lparr>page := clear_timeout i (page s)\<rparr>"]
    have "session_exec (Fire i) s = promoter_effect (es, p, c) (s\<lparr>page := clear_timeout i (page s)\<rparr>)"
      unfolding exec PromoterTimer by (simp add: tm)
    moreover have "playingBack s" using closures PromoterTimer by simp
    ultimately show ?thesis using f by (simp del: session_exec.simps)
  next
    case (RecoveryProbe act g)
    with closures have w: "waiting s" and i: "timerId (recoveryProbeScheduler s) = Some i"
      "g = sgeneration (recoveryProbeScheduler s)" by simp_all
    from w i(1) d(1) have lo: "attemptStartedAt s + PLAYBACK_RETRY_INTERVAL_MS \<le> d"
      unfolding waiting_def by auto
    note q = recovery_probe_quiet [OF inv pend [unfolded RecoveryProbe]]
    let ?s = "s\<lparr>page := clear_timeout i (page s), recoveryProbeScheduler := \<lparr>timerId = None, sgeneration = Suc g\<rparr>\<rparr>"
    have eq: "session_exec (Fire i) s = run_retry act ?s" unfolding exec RecoveryProbe by (simp add: q(1))
    have start: "waiting (beginAttempt opts err t) \<or>
        settingUp (beginAttempt opts err t) \<and> attemptStartedAt (beginAttempt opts err t) = now t"
      if "quiet t" "\<not> destroyed t" "attemptStartedAt t \<le> now t" for opts err t
    proof (cases "remainingMs (sessRecovery t) (now t) = 0")
      case False
      then have "attemptStartedAt (beginAttempt opts err t) = now t"
        using that(2) by (simp add: beginAttempt_def publishAttempt_def Let_def split: prod.split)
      with False beginAttempt_inv [OF quiet_covered [OF that(1)] that(2,3)] show ?thesis by simp
    qed (use beginAttempt_inv [OF quiet_covered [OF that(1)] that(2,3)] in simp)
    have "quiet (?s\<lparr>sessRecovery := r\<rparr>)" for r using q(2) by (simp only: quiet_recovery)
    from start [OF this] start [OF q(2)] q(3) started
    have "waiting (run_retry act ?s) \<or> settingUp (run_retry act ?s) \<and> attemptStartedAt (run_retry act ?s) = now s"
      by (cases act) simp_all
    with w lo d(2) i(2) show ?thesis unfolding eq by blast
  qed
qed

lemma failure_cases:
  "session_inv s \<Longrightarrow> failAttempt token err s = s \<or> waiting (failAttempt token err s)"
  using failAttempt_waiting [OF inv_covered] by (cases "destroyed s \<or> token \<noteq> generation s")
    (auto simp: failAttempt_def session_inv_def)

lemma settled_cases:
  assumes inv: "session_inv s" and t_def: "t = session_exec (ProbeSettled i b) s"
  shows "(destroyed t = destroyed s \<and> closeConnection t = closeConnection s
      \<and> openConnections t = openConnections s \<and> setupTimer t = setupTimer s)
    \<or> (playingBack s \<and> settingUp t)"
proof -
  let ?p = "primaryPromoter s"
  have ok: "loop_ok (page s)" and pinv: "promo_inv pending_callback PromoterTimer ?p (page s)"
    using inv by (simp_all add: session_inv_def)
  obtain es prom c where ps: "probe_settled browserPlaybackProbeClock PromoterTimer i b ?p (page s) = (es, prom, c)"
    by (metis prod_cases3)
  show ?thesis
  proof (cases "\<forall>e \<in> set es. \<not> is_recovered e")
    case True
    from quiet_effect_fields [OF this] show ?thesis by (simp add: t_def ps)
  next
    case False
    have run: "running ?p" and lv: "live_flight ?p i"
      using settled_stale [OF _ ps] False by fastforce+
    note play = promo_quiet_mode [OF inv run]
    obtain f where "map_of (flights ?p) i = Some f" "flightToken f = pgeneration ?p"
      "promo_idle pending_callback PromoterTimer (?p\<lparr>flights := map_delete i (flights ?p), controller := None\<rparr>) (page s)"
      and eq: "probe_settled browserPlaybackProbeClock PromoterTimer i b ?p (page s) =
        (let p2 = ?p\<lparr>flights := map_delete i (flights ?p), controller := None\<rparr>
         in if b then ([Recovered (flightTransport f)], p2\<lparr>running := False, callbacks := False\<rparr>, page s)
            else (let (es, r) = run_cycle browserPlaybackProbeClock PromoterTimer (pgeneration ?p) (flightRest f) p2 (page s)
                  in (ProbeFailed (flightTransport f) # es, r)))"
      by (rule settled_live [OF pinv run lv, where clk = browserPlaybackProbeClock and b = b])
    have b
    proof (rule ccontr)
      assume "\<not> b"
      then obtain es' where "es = ProbeFailed (flightTransport f) # es'" and
        "run_cycle browserPlaybackProbeClock PromoterTimer (pgeneration ?p) (flightRest f)
          (?p\<lparr>flights := map_delete i (flights ?p), controller := None\<rparr>) (page s) = (es', prom, c)"
        using ps eq by (auto simp: Let_def split: prod.splits)
      with False run_cycle_events show False by fastforce
    qed
    with ps eq have res: "es = [Recovered (flightTransport f)]" "c = page s" by (simp_all add: Let_def)
    define s1 where "s1 = s\<lparr>primaryPromoter := prom, page := c\<rparr>"
    note t' = session_promoter.settled_inv [OF pinv ok ps]
    have cov: "covered s1"
      using inv_covered [OF inv] t' by (simp add: s1_def covered_def res(2))
    have facts: "\<not> destroyed s1" "optStreamName (activeAttempt s1) \<noteq> primary s1"
        "diagnosticPhase s1 = Playing" "attemptStartedAt s1 \<le> now s1"
      using play run inv by (simp_all add: s1_def playingBack_def attempting_def primary_def session_inv_def res(2))
    define s2 where "s2 = (let s2 = emitDiagnostic PrimaryProbeSucceeded
          ((probe_override (flightTransport f) Recovering s1)\<lparr>ovTerminalReason := Some PrimaryRestored\<rparr>) s1
       in s2\<lparr>reconnects := Suc (reconnects s2), sessRecovery := resetForPrimaryPromotion (sessRecovery s2)\<rparr>)"
    have "t = promotion (Recovered (flightTransport f)) s1"
      by (simp add: t_def ps res(1) promoter_effect_def s1_def del: promotion.simps)
    then obtain opts where "t = beginAttempt opts NoError s2"
      using facts by (auto simp: s2_def Let_def)
    moreover have "covered s2" "\<not> destroyed s2" "attemptStartedAt s2 \<le> now s2"
        "remainingMs (sessRecovery s2) (now s2) \<noteq> 0"
      using cov facts by (simp_all add: s2_def Let_def covered_def emitDiagnostic_def remainingMs_def
          resetForPrimaryPromotion_def PLAYBACK_EPISODE_MS_def)
    ultimately have "settingUp t" using beginAttempt_inv [of s2] by simp
    with play show ?thesis by blast
  qed
qed

lemma mode_of_cong:
  "destroyed t = destroyed s \<Longrightarrow> closeConnection t = closeConnection s \<Longrightarrow> setupTimer t = setupTimer s \<Longrightarrow>
   mode_of t = mode_of s"
  by (simp add: mode_of_def)

lemma markProgress_mode:
  assumes "session_inv s"
  shows "mode_of (markProgress token s) = mode_of s \<or> (mode_of s = SettingUp \<and> mode_of (markProgress token s) = PlayingBack)"
  by (cases "setupTimer s = None") (auto simp: mode_of_def)

text \<open>C2: the detailed session implements the four-mode machine: every event moves its mode along
  an edge of \<open>mode_next\<close>. In particular playback starts only from an attempt that is being set
  up, a promotion restarts only a playing session, and a closed session stays closed.\<close>

theorem session_refines_modes:
  assumes "start_session v inputs shown t0 = Some s0" and "s = session_run evs s0"
  shows "mode_of (session_exec ev s) \<in> set (mode_next (mode_of s) ev)"
proof -
  have inv: "session_inv s"
    unfolding assms(2) by (rule session_run_inv [OF start_session_inv [OF assms(1)]])
  show ?thesis
  proof (cases "mode_of s = Closed")
    case True
    then have "closed s" using inv by (auto elim: mode_cases)
    with closed_exec [OF inv] mode_of_simps(4) True show ?thesis by simp
  next
    case False
    then have alive: "\<not> destroyed s" by (auto simp: mode_of_def)
    note notClosed = False
    show ?thesis
    proof (cases ev)
      case (Fire i)
      show ?thesis
      proof (cases "due s i")
        case None
        with Fire show ?thesis by (cases "mode_of s") simp_all
      next
        case (Some cb)
        have same: "mode_of (session_exec (Fire i) s) = mode_of s" if
          "destroyed (session_exec (Fire i) s) = destroyed s"
          "closeConnection (session_exec (Fire i) s) = closeConnection s"
          "setupTimer (session_exec (Fire i) s) = setupTimer s"
          using that by (rule mode_of_cong)
        from fire_cases [OF inv Some] mode_of_simps same show ?thesis
          unfolding Fire by (elim disjE conjE exE) simp_all
      qed
    next
      case (Failure token err)
      with failure_cases [OF inv, of token err] mode_of_simps(1) notClosed show ?thesis
        by (cases "mode_of s") auto
    next
      case (ProbeSettled i b)
      have "mode_of (session_exec ev s) = mode_of s
          \<or> mode_of s = PlayingBack \<and> mode_of (session_exec ev s) = SettingUp"
        using settled_cases [OF inv refl, of i b] mode_of_simps(2,3) mode_of_cong unfolding ProbeSettled by blast
      with ProbeSettled show ?thesis by (cases "mode_of s") (auto simp del: session_exec.simps)
    next
      case (Cleanup current)
      with cleanup_inv [OF inv] alive mode_of_simps(4) show ?thesis by (cases "mode_of s") auto
    next
      case TimeUpdate
      have "session_inv (s\<lparr>lastVideoTime := videoTime s\<rparr>)" using inv by simp
      from markProgress_mode [OF this, of "generation s"] alive TimeUpdate show ?thesis
        by (cases "mode_of s") (auto simp: handleTimeUpdate_def mode_of_def split: if_splits)
    next
      case PresentedFrame
      have "session_inv (s\<lparr>lastPresentedFrameAt := now s\<rparr>)" using inv by simp
      from markProgress_mode [OF this, of "generation s"] alive PresentedFrame show ?thesis
        by (cases "mode_of s") (auto simp: presentedFrame_def mode_of_def split: if_splits)
    next
      case (FromConnection token e)
      have "mode_of (session_exec ev s) = mode_of s"
        by (auto simp: FromConnection connectionEvent_def mode_of_def emitAttemptDiagnosticOnce_def emitDiagnostic_def)
      then show ?thesis using FromConnection by (cases "mode_of s") (auto simp del: session_exec.simps)
    next
      case (Binary token)
      have "mode_of (session_exec ev s) = mode_of s"
        by (auto simp: Binary connectionBinary_def mode_of_def)
      then show ?thesis using Binary by (cases "mode_of s") (auto simp del: session_exec.simps)
    qed (cases "mode_of s"; simp add: mode_of_def split: if_splits)+
  qed
qed

lemma session_refines_modes_witness:
  "mode_of (session_exec (Fire 0) (session_run [Wait 5000] (demo_session [js ''main'', js ''sub''])))
     \<in> set (mode_next (mode_of (session_run [Wait 5000] (demo_session [js ''main'', js ''sub'']))) (Fire 0))"
  by (rule session_refines_modes [OF demo_started refl])

section \<open>Retries keep their distance\<close>

lemma irrelevant_open:
  "openConnections (emitAttemptDiagnosticOnce ev ov s) = openConnections s"
  by (simp add: emitAttemptDiagnosticOnce_def emitDiagnostic_def)

lemma opens_only_by_fire:
  assumes inv: "session_inv s" and ev: "\<And>i b. ev \<noteq> ProbeSettled i b" "\<And>i. ev \<noteq> Fire i"
  shows "openConnections (session_exec ev s) = openConnections s \<or> openConnections (session_exec ev s) = []"
proof (cases ev)
  case (Failure token err)
  with failure_cases [OF inv, of token err] show ?thesis by (auto simp: waiting_def)
next
  case (Cleanup current)
  with cleanup_inv [OF inv] show ?thesis by (auto simp: closed_def quiet_def)
qed (use ev in \<open>auto simp: connectionEvent_def connectionBinary_def handleTimeUpdate_def presentedFrame_def irrelevant_open\<close>)

text \<open>C10: a retry keeps three seconds of distance. Unless it is the promoter that returns to the
  primary, a connection is opened only 3 seconds or more after the previous attempt began, so
  refused connections cannot spin.\<close>

theorem retries_keep_distance:
  assumes "start_session v inputs shown t0 = Some s0" and "s = session_run evs s0"
    and "\<And>i b. ev \<noteq> ProbeSettled i b"
    and "openConnections (session_exec ev s) \<noteq> openConnections s" and "openConnections (session_exec ev s) \<noteq> []"
  shows "attemptStartedAt s + PLAYBACK_RETRY_INTERVAL_MS \<le> attemptStartedAt (session_exec ev s)"
proof -
  have inv: "session_inv s"
    unfolding assms(2) by (rule session_run_inv [OF start_session_inv [OF assms(1)]])
  obtain i where i: "ev = Fire i" using opens_only_by_fire [OF inv assms(3)] assms(4,5) by blast
  show ?thesis
  proof (cases "due s i")
    case None
    with assms(4) i show ?thesis by simp
  next
    case (Some cb)
    have "\<not> waiting (session_exec (Fire i) s)" using assms(5) i by (auto simp: waiting_def)
    with fire_cases [OF inv Some] assms(4) i show ?thesis by auto
  qed
qed

lemma Failure_not_probe: "Fire j \<noteq> ProbeSettled i b"
  by simp

lemma retries_keep_distance_witness:
  "let s = session_run [Failure 1 Socket, Wait 3000] (demo_session [js ''main'', js ''sub''])
   in attemptStartedAt s = 0 \<and> 3000 \<le> attemptStartedAt (session_exec (Fire 1) s)"
proof -
  let ?s = "session_run [Failure 1 Socket, Wait 3000] (demo_session [js ''main'', js ''sub''])"
  have begun: "attemptStartedAt ?s = 0" by code_simp
  have before: "openConnections ?s = []" by code_simp
  have after: "openConnections (session_exec (Fire 1) ?s) = [3]" by code_simp
  have "attemptStartedAt ?s + PLAYBACK_RETRY_INTERVAL_MS \<le> attemptStartedAt (session_exec (Fire 1) ?s)"
    by (rule retries_keep_distance [OF demo_started refl Failure_not_probe]) (simp_all only: before after, simp_all)
  then show ?thesis by (simp only: Let_def begun PLAYBACK_RETRY_INTERVAL_MS_def) simp
qed

section \<open>A failure follows the ladder\<close>

text \<open>What the session does for a step of the ladder, and when.\<close>

fun retry_of :: "session \<Rightarrow> playback_error \<Rightarrow> recovery_step \<Rightarrow> retry" where
  "retry_of s err (Cooldown until) = RestartEpisode"
| "retry_of s err (Resubscribe n) = BeginAttempt
     \<lparr>optTransport = preferred s, optStreamName = primary s, optAttempt = n, optPhase = Recovering\<rparr> err"
| "retry_of s err (TryTransport tr name n) = BeginAttempt
     \<lparr>optTransport = tr, optStreamName = name, optAttempt = n,
      optPhase = (if name = primary s then Retrying else Fallback)\<rparr> err"

fun retry_at :: "session \<Rightarrow> recovery_step \<Rightarrow> int" where
  "retry_at s (Cooldown until) = until"
| "retry_at s _ = max (now s) (attemptStartedAt s + PLAYBACK_RETRY_INTERVAL_MS)"

text \<open>\<open>t\<close> has the probe pending at the given time; it reported more than \<open>s\<close>.\<close>

definition armed :: "session \<Rightarrow> retry \<Rightarrow> int \<Rightarrow> session \<Rightarrow> bool" where
  "armed t act dueAt s \<longleftrightarrow>
     (\<exists>i g. map_of (pendingTimers (page t)) i = Some (dueAt, RecoveryProbe act g))
     \<and> (\<exists>ds. diagnostics t = diagnostics s @ ds) \<and> sessRecovery t = sessRecovery s"

lemma arm_probe_armed:
  assumes q: "quiet s'" and "\<exists>ds. diagnostics s' = diagnostics s @ ds" and "sessRecovery s' = sessRecovery s"
    and "dueAt = max (now s') until"
  shows "armed (arm_probe until act s') act dueAt s"
proof -
  obtain sch c where arm: "scheduler_arm browserPlaybackProbeClock (RecoveryProbe act) until
      (recoveryProbeScheduler s') (page s') = (sch, c)" by force
  from q have ok: "loop_ok (page s')" and none: "timerId (recoveryProbeScheduler s') = None"
    by (simp_all add: quiet_def)
  obtain i d where "map_of (pendingTimers c) i = Some (d, RecoveryProbe act (sgeneration sch))" "d = max (now s') until"
    by (rule scheduler_arm_page [OF ok none arm])
  then show ?thesis using assms(2-4) unfolding armed_def arm_probe_def arm by auto
qed

lemma scheduleRetry_armed:
  assumes "quiet s'" and "diagnostics s' = diagnostics s" and "sessRecovery s' = sessRecovery s"
    and "now s' = now s" and "attemptStartedAt s' = attemptStartedAt s"
  shows "armed (scheduleRetry opts err s') (BeginAttempt opts err)
    (max (now s) (attemptStartedAt s + PLAYBACK_RETRY_INTERVAL_MS)) s"
  unfolding scheduleRetry_def by (rule arm_probe_armed [OF assms(1)]) (use assms in simp_all)

lemma advance_armed:
  assumes q: "quiet s" and until: "\<And>u. step = Cooldown u \<Longrightarrow> now s \<le> u"
  shows "armed (advance step err s) (retry_of s err step) (retry_at s step) s"
proof (cases step)
  case (Resubscribe n)
  have "quiet (s\<lparr>resubscribes := Suc (resubscribes s)\<rparr>)" using q by (simp add: quiet_def)
  from scheduleRetry_armed [OF this, of s] Resubscribe show ?thesis
    by (simp add: primary_def)
next
  case (TryTransport tr name n)
  have "quiet (s\<lparr>fallbacks := Suc (fallbacks s)\<rparr>)" "quiet (s\<lparr>reconnects := Suc (reconnects s)\<rparr>)"
    using q by (simp_all add: quiet_def)
  from scheduleRetry_armed [OF this(1), of s] scheduleRetry_armed [OF this(2), of s] TryTransport show ?thesis
    by (simp add: recoveryAttemptPresentation_def primary_def Let_def)
next
  case (Cooldown u)
  define s1 where "s1 = emitDiagnostic EpisodeExhaustedEvent
                 (no_override\<lparr>ovPhase := Some CoolingDown, ovErrorCategory := Some EpisodeExhausted,
                    ovTerminalReason := Some RetryBudgetExhausted\<rparr>)
                 (s\<lparr>diagnosticPhase := CoolingDown\<rparr>)"
  let ?s2 = "teardownAttempt (s1\<lparr>generation := Suc (generation s1)\<rparr>)"
  have "covered (s1\<lparr>generation := Suc (generation s1)\<rparr>)"
    using quiet_covered [OF q] by (simp add: s1_def covered_def emitDiagnostic_def)
  from teardown_quiet [OF this] have q2: "quiet ?s2"
    and core: "same_core (s1\<lparr>generation := Suc (generation s1)\<rparr>) ?s2" by simp_all
  define s3 where "s3 = ?s2\<lparr>playback := (playback ?s2)\<lparr>pbPhase := CoolingDown, pbReadyState := readyState ?s2,
                    pbStalledForMs := stalledForMs (sessRecovery ?s2) (now ?s2),
                    pbErrorCategory := EpisodeExhausted\<rparr>\<rparr>"
  have "quiet s3" using q2 by (simp add: s3_def quiet_def)
  moreover have "\<exists>ds. diagnostics s3 = diagnostics s @ ds" "sessRecovery s3 = sessRecovery s" "now s3 = now s"
    using core by (simp_all add: s3_def same_core_def) (simp_all add: s1_def emitDiagnostic_def)
  moreover have "advance step err s = arm_probe u RestartEpisode s3"
    by (simp add: Cooldown enterCooldown_def s1_def s3_def Let_def)
  ultimately show ?thesis
    using until [OF Cooldown] by (auto simp: Cooldown max_def intro!: arm_probe_armed)
qed

lemma failed_state_quiet:
  assumes "covered s"
  shows "quiet (failed_state err s) \<and> preferred (failed_state err s) = preferred s
    \<and> candidates (failed_state err s) = candidates s
    \<and> (\<exists>d ds. diagnostics (failed_state err s) = diagnostics s @ d # ds \<and> dEvent d = AttemptFailed
        \<and> dErrorCategory d = err \<and> dAttemptGeneration d = generation s)"
proof -
  define t where "t = (let s1 = emitDiagnostic AttemptFailed
           (no_override\<lparr>ovPhase := Some (if err = MediaStall then Stalled else diagnosticPhase s),
              ovErrorCategory := Some err, ovTerminalReason := playbackFailureTerminalReason err\<rparr>) s;
          s2 = (if err = Unsupported
                then emitDiagnostic UnsupportedEvent
                       (no_override\<lparr>ovPhase := Some UnsupportedPhase, ovErrorCategory := Some err,
                          ovTerminalReason := Some (FailedBy Unsupported)\<rparr>) s1
                else s1)
      in s2\<lparr>sessRecovery := recordFailure (sessRecovery s) (now s), generation := Suc (generation s)\<rparr>)"
  have eq: "failed_state err s = teardownAttempt t" by (simp add: failed_state_def t_def Let_def)
  have cov: "covered t" and "preferred t = preferred s" "candidates t = candidates s"
    using assms by (simp_all add: t_def covered_def emitDiagnostic_def Let_def)
  moreover have "\<exists>d ds. diagnostics t = diagnostics s @ d # ds \<and> dEvent d = AttemptFailed
        \<and> dErrorCategory d = err \<and> dAttemptGeneration d = generation s"
    by (simp add: t_def emitDiagnostic_def diagnostic_of_def nullish_def no_override_def Let_def)
  ultimately show ?thesis
    using teardown_quiet [OF cov] by (simp add: eq same_core_def)
qed

text \<open>C3: a failure of the current attempt is reported and follows the recovery ladder. It is
  recorded as \<open>attempt_failed\<close> with its category, the connection is closed, and the one probe
  left pending on the page will begin exactly the attempt the ladder's next step names (or restart
  the episode after a cooldown), at the retry distance.\<close>

theorem failure_follows_ladder:
  assumes "start_session v inputs shown t0 = Some s0" and "s = session_run evs s0" and "\<not> destroyed s"
    and "nextFailure (recordFailure (sessRecovery s) (now s)) (now s) = (step, r)"
    and "t = session_exec (Failure (generation s) err) s"
  shows "(\<exists>i g. map_of (pendingTimers (page t)) i = Some (retry_at s step, RecoveryProbe (retry_of s err step) g)
        \<and> (\<forall>j. j \<noteq> i \<longrightarrow> pending_callback (page t) j = None))
    \<and> openConnections t = [] \<and> sessRecovery t = r
    \<and> (\<exists>d ds. diagnostics t = diagnostics s @ d # ds \<and> dEvent d = AttemptFailed
        \<and> dErrorCategory d = err \<and> dAttemptGeneration d = generation s)"
proof -
  have inv: "session_inv s"
    unfolding assms(2) by (rule session_run_inv [OF start_session_inv [OF assms(1)]])
  let ?f = "(failed_state err s)\<lparr>sessRecovery := r\<rparr>"
  note f = failed_state_quiet [OF inv_covered [OF inv], of err]
  have eq: "t = advance step err ?f"
    using assms(3,4,5) by (simp add: failAttempt_current)
  have q: "quiet ?f" using f by simp
  have "u = now s + PLAYBACK_COOLDOWN_MS" if "step = Cooldown u" for u
    using nextFailure_cooldown assms(4) that by blast
  then have "now ?f \<le> u" if "step = Cooldown u" for u using that by (simp add: PLAYBACK_COOLDOWN_MS_def)
  then have "armed (advance step err ?f) (retry_of ?f err step) (retry_at ?f step) ?f"
    by (rule advance_armed [OF q])
  then obtain i g ds where p:
    "map_of (pendingTimers (page t)) i = Some (retry_at ?f step, RecoveryProbe (retry_of ?f err step) g)"
    "diagnostics t = diagnostics (failed_state err s) @ ds" "sessRecovery t = r"
    by (auto simp: armed_def eq)
  have "retry_at ?f step = retry_at s step" by (cases step) simp_all
  moreover have "retry_of ?f err step = retry_of s err step"
    using f by (cases step) (simp_all add: primary_def)
  moreover have w: "waiting t"
    using failAttempt_waiting [OF inv_covered [OF inv]] assms(3,5) inv by (simp add: session_inv_def)
  moreover have "\<forall>j. j \<noteq> i \<longrightarrow> pend t j = None"
    using w pend_of [OF p(1)] unfolding waiting_def by (metis option.distinct(1))
  ultimately show ?thesis using p f by (auto simp: waiting_def)
qed

lemma failure_follows_ladder_witness:
  "let s = session_run [] (demo_session [js ''main'', js ''sub'']); t = session_exec (Failure (generation s) Socket) s
   in \<exists>i g. map_of (pendingTimers (page t)) i =
        Some (3000, RecoveryProbe (BeginAttempt \<lparr>optTransport = Webrtc, optStreamName = js ''main'', optAttempt = 2,
          optPhase = Retrying\<rparr> Socket) g)"
proof -
  let ?s = "session_run [] (demo_session [js ''main'', js ''sub''])"
  obtain r where nf: "nextFailure (recordFailure (sessRecovery ?s) (now ?s)) (now ?s)
      = (TryTransport Webrtc (js ''main'') 2, r)" and r: "r = snd (nextFailure (recordFailure (sessRecovery ?s) (now ?s)) (now ?s))"
  proof -
    have "fst (nextFailure (recordFailure (sessRecovery ?s) (now ?s)) (now ?s)) = TryTransport Webrtc (js ''main'') 2"
      by code_simp
    then show ?thesis using that by (metis prod.collapse)
  qed
  have alive: "\<not> destroyed ?s" using demo_alive by (simp add: session_run_def)
  have at: "retry_at ?s (TryTransport Webrtc (js ''main'') 2) = 3000" by code_simp
  have retry: "retry_of ?s Socket (TryTransport Webrtc (js ''main'') 2) = BeginAttempt \<lparr>optTransport = Webrtc,
      optStreamName = js ''main'', optAttempt = 2, optPhase = Retrying\<rparr> Socket" by code_simp
  from failure_follows_ladder [OF demo_started refl alive nf refl, of Socket]
  show ?thesis unfolding Let_def at retry by blast
qed

section \<open>Returning to the primary\<close>

text \<open>A tile that plays from its fallback keeps trying to return. While a session with a
  primary and a fallback plays a stream other than its primary, its promoter waits for the
  next probe or for a probe's result; while it plays the primary, or does not play, no promoter timer is
  pending.\<close>

theorem fallback_keeps_probing:
  assumes "start_session v inputs shown t0 = Some s0" and "s = session_run evs s0"
  shows "if mode_of s = PlayingBack \<and> 2 \<le> length (candidates s)
         \<and> optStreamName (activeAttempt s) \<noteq> hd (candidates s)
      then (\<exists>i t g. pending_callback (page s) i = Some (PromoterTimer t g)) \<noteq> (\<exists>i. live_flight (primaryPromoter s) i)
      else \<forall>i t g. pending_callback (page s) i \<noteq> Some (PromoterTimer t g)"
proof -
  have inv: "session_inv s"
    unfolding assms(2) by (rule session_run_inv [OF start_session_inv [OF assms(1)]])
  let ?p = "primaryPromoter s"
  have pinv: "promo_inv pending_callback PromoterTimer ?p (page s)" using inv by (simp add: session_inv_def)
  have run: "running ?p \<longleftrightarrow> mode_of s = PlayingBack \<and> 2 \<le> length (candidates s)
      \<and> optStreamName (activeAttempt s) \<noteq> hd (candidates s)"
    using inv by (rule mode_cases)
      (simp_all add: closed_def quiet_def waiting_def settingUp_def playingBack_def primary_def)
  show ?thesis
  proof (cases "running ?p")
    case False
    with promoter_idle_timer [OF pinv] run show ?thesis by auto
  next
    case True
    have "(\<exists>i t g. pend s i = Some (PromoterTimer t g)) \<longleftrightarrow> timerId (pscheduler ?p) \<noteq> None"
      using promo_timer [OF pinv] no_timer_none [OF pinv] by (metis option.exhaust)
    moreover have "(\<exists>i. live_flight ?p i) \<longleftrightarrow> controller ?p \<noteq> None"
      by (cases "controller ?p") (auto dest: promo_live [OF pinv] promo_controller [OF pinv])
    ultimately show ?thesis using promo_driver [OF pinv True] True run by (simp only: if_True) metis
  qed
qed

lemma fallback_keeps_probing_witness:
  "let s = session_run [Failure 1 Socket, Wait 3000, Fire 1, Failure 3 Media, Wait 6000, Fire 3, Failure 5 Media,
        Wait 9000, Fire 5, Video 1 4, TimeUpdate] (demo_session [js ''main'', js ''sub''])
   in optStreamName (activeAttempt s) = js ''sub'' \<and>
      (\<exists>i t g. pending_callback (page s) i = Some (PromoterTimer t g)) \<noteq> (\<exists>i. live_flight (primaryPromoter s) i)"
proof -
  let ?s = "session_run [Failure 1 Socket, Wait 3000, Fire 1, Failure 3 Media, Wait 6000, Fire 3, Failure 5 Media,
        Wait 9000, Fire 5, Video 1 4, TimeUpdate] (demo_session [js ''main'', js ''sub''])"
  have m: "mode_of ?s = PlayingBack" by code_simp
  have l: "2 \<le> length (candidates ?s)" by code_simp
  have n: "optStreamName (activeAttempt ?s) = js ''sub''" by code_simp
  have "optStreamName (activeAttempt ?s) \<noteq> hd (candidates ?s)" by code_simp
  with fallback_keeps_probing [OF demo_started refl, of "[Failure 1 Socket, Wait 3000, Fire 1, Failure 3 Media,
      Wait 6000, Fire 3, Failure 5 Media, Wait 9000, Fire 5, Video 1 4, TimeUpdate]"] m l n
  show ?thesis unfolding Let_def by (simp only: simp_thms if_True)
qed

section \<open>The candidate key\<close>

text \<open>The effect recovers the candidates from its dependency key. Joining the non-empty stream
  names with the unit separator and splitting the key again gives the same names in the same order,
  provided no name contains the separator.\<close>

theorem candidate_key_roundtrip:
  assumes "\<forall>n \<in> set names. candidate_separator \<notin> set n"
  shows "effect_candidates (candidateKey names) = filter (\<lambda>n. n \<noteq> []) names"
proof (cases "filter (\<lambda>n. n \<noteq> []) names")
  case Nil
  then show ?thesis by (simp add: effect_candidates_def candidateKey_def)
next
  case (Cons m ms)
  have "js_join candidate_separator (filter (\<lambda>n. n \<noteq> []) names) \<noteq> []"
  proof -
    have "m \<noteq> []" using Cons filter_eq_ConsD by fastforce
    then show ?thesis unfolding Cons by (cases ms) simp_all
  qed
  moreover have "\<forall>x \<in> set (filter (\<lambda>n. n \<noteq> []) names). candidate_separator \<notin> set x" using assms by simp
  ultimately show ?thesis
    using Cons js_split_join [of "filter (\<lambda>n. n \<noteq> []) names" candidate_separator]
    by (simp add: effect_candidates_def candidateKey_def del: set_filter)
qed

lemma candidate_key_roundtrip_witness:
  "effect_candidates (candidateKey [js ''main'', [], js ''sub'']) = [js ''main'', js ''sub'']"
proof -
  have "\<forall>n \<in> set [js ''main'', [], js ''sub'']. candidate_separator \<notin> set n" by code_simp
  from candidate_key_roundtrip [OF this] show ?thesis by simp
qed

end
