(* ===== verification/Connection.thy ===== *)
theory Connection
  imports Session
begin

text \<open>
  \<open>web/src/components/live/playbackConnection.ts\<close>: one player connection
  (\<open>openPlaybackConnection\<close>, WebRTC and MSE), the progress verifier and the primary probe; with
  \<open>msePlayback.ts\<close> (the MSE control message) and \<open>webrtcReceipt.ts\<close> (the receipt
  statistics). The closure variables of a connection are the record \<open>connection\<close>; what the
  browser does (a call that throws, a promise that settles, a parsed message) is the content of the
  event that reports it.
\<close>

section \<open>Control messages and receipts\<close>

datatype mse_control = MseInit jsstring | MseError | MseInvalid

text \<open>The argument is the result of \<open>JSON.parse\<close>, \<open>None\<close> when it threw.\<close>

fun parseMseControlMessage :: "jsval option \<Rightarrow> mse_control" where
  "parseMseControlMessage None = MseInvalid"
| "parseMseControlMessage (Some message) =
     (if \<not> is_object message \<or> \<not> has_prop message (js ''type'') then MseInvalid
      else case (jget message (js ''type''), jget message (js ''value'')) of
             (JString t, JString v) \<Rightarrow>
               if t = js ''mse'' then MseInit v else if t = js ''error'' then MseError else MseInvalid
           | (JString t, _) \<Rightarrow> if t = js ''error'' then MseError else MseInvalid
           | _ \<Rightarrow> MseInvalid)"

record receipt =
  bytesReceived :: rat
  packetsReceived :: rat

fun nonNegativeNumber :: "jsval \<Rightarrow> rat" where
  "nonNegativeNumber (JNumber (Num x)) = (if x > 0 then x else 0)"
| "nonNegativeNumber _ = 0"

definition inbound_video :: "jsval \<Rightarrow> bool" where
  "inbound_video stat \<longleftrightarrow> is_object stat \<and> jget stat (js ''type'') = JString (js ''inbound-rtp'')
     \<and> (jget stat (js ''kind'') = JString (js ''video'') \<or> jget stat (js ''mediaType'') = JString (js ''video''))"

definition inboundVideoReceipt :: "jsval list \<Rightarrow> receipt" where
  "inboundVideoReceipt report =
     fold (\<lambda>stat r. if inbound_video stat
                    then \<lparr>bytesReceived = bytesReceived r + nonNegativeNumber (jget stat (js ''bytesReceived'')),
                          packetsReceived = packetsReceived r + nonNegativeNumber (jget stat (js ''packetsReceived''))\<rparr>
                    else r)
       report \<lparr>bytesReceived = 0, packetsReceived = 0\<rparr>"

definition receiptAdvanced :: "receipt option \<Rightarrow> receipt \<Rightarrow> bool" where
  "receiptAdvanced previous current =
     (let baseline = nullish previous \<lparr>bytesReceived = 0, packetsReceived = 0\<rparr>
      in bytesReceived current > bytesReceived baseline \<or> packetsReceived current > packetsReceived baseline)"

section \<open>The state of a connection\<close>

type_synonym byte = "8 word"

datatype connection_error = SocketError | SignalingError | MediaError | UnsupportedError

definition MSE_PENDING_CAPACITY :: int where
  "MSE_PENDING_CAPACITY = 2 * 1024 * 1024"

record source_buffer =
  updating :: bool
  buffered :: "(rat \<times> rat) list"
  appended :: "byte list"

datatype socket_message =
  Candidate jsstring | Offer jsstring | Codecs jsstring

record connection =
  conTransport :: transport
  conClosed :: bool
  ws :: "bool option"  \<comment> \<open>the socket; whether its readyState is OPEN\<close>
  peer :: bool
  mediaSource :: bool
  sourceBuffer :: "source_buffer option"
  objectURL :: bool
  statsTimer :: bool
  statsPending :: bool
  previousReceipt :: receipt
  pending :: "byte list option"  \<comment> \<open>the first pendingLength bytes of the array, once allocated\<close>
  conCurrentTime :: rat
  sent :: "socket_message list"
  events :: "connection_event list"
  binaries :: nat
  failures :: "connection_error list"
  microtasks :: "connection_error list"

definition connection_fail :: "connection_error \<Rightarrow> connection \<Rightarrow> connection" where
  "connection_fail e c = (if conClosed c then c else c\<lparr>failures := failures c @ [e]\<rparr>)"

definition emit_event :: "connection_event \<Rightarrow> connection \<Rightarrow> connection" where
  "emit_event e c = c\<lparr>events := events c @ [e]\<rparr>"

definition emit_binary :: "connection \<Rightarrow> connection" where
  "emit_binary c = c\<lparr>binaries := Suc (binaries c)\<rparr>"

text \<open>\<open>close\<close>: handlers are detached by dropping the objects they hang on.\<close>

definition connection_close :: "connection \<Rightarrow> connection" where
  "connection_close c =
     (if conClosed c then c
      else c\<lparr>conClosed := True, statsTimer := False, sourceBuffer := None, ws := None, peer := False,
             mediaSource := False, objectURL := False, conCurrentTime := 0\<rparr>)"

text \<open>The state before the transport is set up.\<close>

definition blank_connection :: "transport \<Rightarrow> rat \<Rightarrow> connection" where
  "blank_connection tr time =
     \<lparr>conTransport = tr, conClosed = False, ws = None, peer = False, mediaSource = False, sourceBuffer = None,
      objectURL = False, statsTimer = False, statsPending = False,
      previousReceipt = \<lparr>bytesReceived = 0, packetsReceived = 0\<rparr>, pending = None, conCurrentTime = time,
      sent = [], events = [], binaries = 0, failures = [], microtasks = []\<rparr>"

text \<open>
  What the browser offers: whether the transport's class exists, and where the set-up throws.
  WebRTC: before the peer is assigned, before the statistics timer, before the socket or not at all.
  MSE: before the media source, or before the listeners, or not at all.
\<close>

datatype setup_outcome = NoClass | ThrowsEarly | ThrowsMiddle | ThrowsLate | SetUp

fun openPlaybackConnection :: "transport \<Rightarrow> rat \<Rightarrow> setup_outcome \<Rightarrow> connection" where
  "openPlaybackConnection tr time NoClass = (blank_connection tr time)\<lparr>microtasks := [UnsupportedError]\<rparr>"
| "openPlaybackConnection tr time ThrowsEarly = (blank_connection tr time)\<lparr>microtasks := [MediaError]\<rparr>"
| "openPlaybackConnection Webrtc time ThrowsMiddle =
     (blank_connection Webrtc time)\<lparr>peer := True, microtasks := [MediaError]\<rparr>"
| "openPlaybackConnection Webrtc time ThrowsLate =
     (blank_connection Webrtc time)\<lparr>peer := True, statsTimer := True, microtasks := [MediaError]\<rparr>"
| "openPlaybackConnection Webrtc time SetUp =
     (blank_connection Webrtc time)\<lparr>peer := True, statsTimer := True, ws := Some False\<rparr>"
| "openPlaybackConnection Mse time ThrowsMiddle =
     (blank_connection Mse time)\<lparr>mediaSource := True, microtasks := [MediaError]\<rparr>"
| "openPlaybackConnection Mse time ThrowsLate =
     (blank_connection Mse time)\<lparr>mediaSource := True, pending := Some [], microtasks := [MediaError]\<rparr>"
| "openPlaybackConnection Mse time SetUp =
     (blank_connection Mse time)\<lparr>mediaSource := True, pending := Some [], objectURL := True\<rparr>"

section \<open>Handlers of the MSE transport\<close>

definition append_buffer :: "bool \<Rightarrow> byte list \<Rightarrow> connection \<Rightarrow> connection" where
  "append_buffer throws data c =
     (case sourceBuffer c of
        None \<Rightarrow> c
      | Some sb \<Rightarrow>
          if throws then connection_fail MediaError c
          else c\<lparr>sourceBuffer := Some (sb\<lparr>updating := True, appended := appended sb @ data\<rparr>)\<rparr>)"

definition flush :: "bool \<Rightarrow> connection \<Rightarrow> connection" where
  "flush throws c =
     (case (sourceBuffer c, pending c) of
        (Some sb, Some data) \<Rightarrow>
          if updating sb \<or> data = [] then c else append_buffer throws data (c\<lparr>pending := Some []\<rparr>)
      | _ \<Rightarrow> c)"

definition handleUpdateEnd :: "bool \<Rightarrow> bool \<Rightarrow> connection \<Rightarrow> connection" where
  "handleUpdateEnd throwsAppend throwsRemove c =
     (let c1 = flush throwsAppend c
      in case sourceBuffer c1 of
           None \<Rightarrow> c1
         | Some sb \<Rightarrow>
             if updating sb \<or> buffered sb = [] then c1
             else (let end' = snd (last (buffered sb)); start = fst (hd (buffered sb));
                       c2 = (if end' - start > 10 \<and> \<not> throwsRemove
                             then c1\<lparr>sourceBuffer := Some (sb\<lparr>updating := True\<rparr>)\<rparr> else c1)
                   in if end' - conCurrentTime c2 > 5 then c2\<lparr>conCurrentTime := end' - 1 / 2\<rparr> else c2))"

definition mse_binary :: "bool \<Rightarrow> byte list \<Rightarrow> connection \<Rightarrow> connection" where
  "mse_binary throws chunk c =
     (let c1 = emit_binary (emit_event FirstMedia c)
      in case (sourceBuffer c1, pending c1) of
           (Some sb, Some data) \<Rightarrow>
             if \<not> updating sb \<and> data = [] then append_buffer throws chunk c1
             else if int (length data + length chunk) \<le> MSE_PENDING_CAPACITY then c1\<lparr>pending := Some (data @ chunk)\<rparr>
             else connection_fail MediaError c1
         | (Some sb, None) \<Rightarrow>
             if \<not> updating sb then append_buffer throws chunk c1 else connection_fail MediaError c1
         | (None, Some data) \<Rightarrow>
             if int (length data + length chunk) \<le> MSE_PENDING_CAPACITY then c1\<lparr>pending := Some (data @ chunk)\<rparr>
             else connection_fail MediaError c1
         | (None, None) \<Rightarrow> connection_fail MediaError c1)"

definition mse_control_message :: "bool \<Rightarrow> jsval option \<Rightarrow> connection \<Rightarrow> connection" where
  "mse_control_message throws raw c =
     (case parseMseControlMessage raw of
        MseInit codec \<Rightarrow>
          if throws then connection_fail MediaError c
          else emit_event MseReady (c\<lparr>sourceBuffer := Some \<lparr>updating = False, buffered = [], appended = []\<rparr>\<rparr>)
      | _ \<Rightarrow> connection_fail SignalingError c)"

section \<open>Events\<close>

text \<open>
  The source is attached to the video once \<open>objectURL\<close> is set, the handlers of the peer are
  installed once \<open>statsTimer\<close> runs; \<open>sourceopen\<close> is delivered once.
\<close>

datatype connection_input =
  Microtask
| SourceOpen
| SourceError
| SocketOpened jsstring        \<comment> \<open>the codecs the browser supports (MSE)\<close>
| OfferReady "jsstring option" \<comment> \<open>the offer, None when creating or setting it failed\<close>
| SocketText bool "jsval option"
| SocketBytes bool "byte list"
| SocketLost
| RemoteRejected               \<comment> \<open>the remote description or a candidate was rejected\<close>
| Track
| LocalCandidate jsstring
| PeerFailed
| StatsTick
| StatsResult "jsval list option"
| UpdateEnd bool bool "(rat \<times> rat) list"
| BufferError
| PlaysTo rat
| Close

definition webrtc_text :: "jsval option \<Rightarrow> connection \<Rightarrow> connection" where
  "webrtc_text raw c =
     (case raw of
        None \<Rightarrow> connection_fail SignalingError c
      | Some message \<Rightarrow>
          (case (jget message (js ''type''), jget message (js ''value'')) of
             (JString t, JString v) \<Rightarrow>
               if t = js ''webrtc/answer'' then emit_event SignalingAnswer c
               else if t = js ''webrtc/candidate'' then c
               else if t = js ''error'' then connection_fail SignalingError c else c
           | (JString t, _) \<Rightarrow> if t = js ''error'' then connection_fail SignalingError c else c
           | _ \<Rightarrow> c))"

fun connection_exec :: "connection_input \<Rightarrow> connection \<Rightarrow> connection" where
  "connection_exec Microtask c =
     (case microtasks c of [] \<Rightarrow> c | e # es \<Rightarrow> connection_fail e (c\<lparr>microtasks := es\<rparr>))"
| "connection_exec SourceOpen c =
     (if conClosed c \<or> \<not> objectURL c \<or> ws c \<noteq> None then c
      else (emit_event MediaSourceOpen c)\<lparr>ws := Some False\<rparr>)"
| "connection_exec SourceError c = (if objectURL c then connection_fail MediaError c else c)"
| "connection_exec (SocketOpened codecs) c =
     (if ws c = None then c
      else (let c1 = emit_event SocketOpen (c\<lparr>ws := Some True\<rparr>)
            in case conTransport c of
                 Webrtc \<Rightarrow> c1
               | Mse \<Rightarrow> c1\<lparr>sent := sent c1 @ [Codecs codecs]\<rparr>))"
| "connection_exec (OfferReady None) c = (if conTransport c = Webrtc then connection_fail SignalingError c else c)"
| "connection_exec (OfferReady (Some sdp)) c =
     (if conTransport c \<noteq> Webrtc \<or> conClosed c \<or> ws c \<noteq> Some True then c
      else c\<lparr>sent := sent c @ [Offer sdp]\<rparr>)"
| "connection_exec (SocketText throws raw) c =
     (if ws c = None then c
      else case conTransport c of Webrtc \<Rightarrow> webrtc_text raw c | Mse \<Rightarrow> mse_control_message throws raw c)"
| "connection_exec (SocketBytes throws chunk) c =
     (if ws c = None then c
      else case conTransport c of Webrtc \<Rightarrow> c | Mse \<Rightarrow> mse_binary throws chunk c)"
| "connection_exec SocketLost c =
     (if ws c = None then c else connection_fail SocketError (c\<lparr>ws := Some False\<rparr>))"
| "connection_exec RemoteRejected c = connection_fail SignalingError c"
| "connection_exec Track c = (if conClosed c \<or> \<not> statsTimer c then c else emit_event FirstTrack c)"
| "connection_exec (LocalCandidate v) c =
     (if conClosed c \<or> ws c \<noteq> Some True \<or> \<not> peer c then c else c\<lparr>sent := sent c @ [Candidate v]\<rparr>)"
| "connection_exec PeerFailed c = (if statsTimer c then connection_fail MediaError c else c)"
| "connection_exec StatsTick c =
     (if \<not> statsTimer c \<or> statsPending c \<or> conClosed c then c else c\<lparr>statsPending := True\<rparr>)"
| "connection_exec (StatsResult r) c =
     (if \<not> statsPending c then c
      else case r of
             None \<Rightarrow> c\<lparr>statsPending := False\<rparr>
           | Some report \<Rightarrow>
               if conClosed c then c\<lparr>statsPending := False\<rparr>
               else (let receipt = inboundVideoReceipt report;
                         c1 = (if receiptAdvanced (Some (previousReceipt c)) receipt
                               then emit_binary (emit_event FirstMedia c) else c)
                     in c1\<lparr>previousReceipt := receipt, statsPending := False\<rparr>))"
| "connection_exec (UpdateEnd throwsAppend throwsRemove ranges) c =
     (case sourceBuffer c of
        None \<Rightarrow> c
      | Some sb \<Rightarrow>
          if \<not> updating sb then c
          else handleUpdateEnd throwsAppend throwsRemove
                 (c\<lparr>sourceBuffer := Some (sb\<lparr>updating := False, buffered := ranges\<rparr>)\<rparr>))"
| "connection_exec BufferError c = (if sourceBuffer c = None then c else connection_fail MediaError c)"
| "connection_exec (PlaysTo t) c = c\<lparr>conCurrentTime := t\<rparr>"
| "connection_exec Close c = connection_close c"

definition connection_run :: "connection_input list \<Rightarrow> connection \<Rightarrow> connection" where
  "connection_run is c = fold connection_exec is c"

section \<open>The progress verifier and the primary probe\<close>

definition PLAYBACK_PRIMARY_PROBE_TIMEOUT_MS :: int where "PLAYBACK_PRIMARY_PROBE_TIMEOUT_MS = 8000"
definition PLAYBACK_PRIMARY_PROBE_PROGRESS_SECONDS :: rat where "PLAYBACK_PRIMARY_PROBE_PROGRESS_SECONDS = 1"

text \<open>\<open>observe\<close> on the verifier's baseline.\<close>

fun observe :: "jsnum \<Rightarrow> rat option \<Rightarrow> bool \<times> rat option" where
  "observe (Num t) baseline =
     (if t \<le> 0 then (False, baseline)
      else case baseline of
             None \<Rightarrow> (False, Some t)
           | Some b \<Rightarrow> if t < b then (False, Some t)
                       else (t - b \<ge> PLAYBACK_PRIMARY_PROBE_PROGRESS_SECONDS, Some b))"
| "observe _ baseline = (False, baseline)"

record probe =
  settled :: "bool option"  \<comment> \<open>the value the promise was resolved with\<close>
  resolutions :: nat
  baseline :: "rat option"
  abortListener :: bool
  progressTimer :: bool
  deadlineTimer :: bool
  timeListener :: bool
  probeConnection :: "bool option"  \<comment> \<open>None before it is opened; whether it is open\<close>
  videoAttached :: bool

definition probe_close :: "probe \<Rightarrow> probe" where
  "probe_close p = (case probeConnection p of None \<Rightarrow> p | Some _ \<Rightarrow> p\<lparr>probeConnection := Some False\<rparr>)"

definition probe_settle :: "bool \<Rightarrow> probe \<Rightarrow> probe" where
  "probe_settle recovered p =
     (if settled p \<noteq> None then p
      else (probe_close (p\<lparr>settled := Some recovered, abortListener := False, progressTimer := False,
                           deadlineTimer := False, timeListener := False\<rparr>))
             \<lparr>videoAttached := False, resolutions := Suc (resolutions p)\<rparr>)"

text \<open>\<open>failsNow\<close>: the connection reports a failure while it is being opened.\<close>

definition probe_open :: "bool \<Rightarrow> probe" where
  "probe_open failsNow =
     (let p = \<lparr>settled = None, resolutions = 0, baseline = None, abortListener = True, progressTimer = True,
               deadlineTimer = True, timeListener = True, probeConnection = None, videoAttached = True\<rparr>;
          p1 = (if failsNow then probe_settle False p else p);
          p2 = p1\<lparr>probeConnection := Some True\<rparr>
      in if settled p2 \<noteq> None then probe_close p2 else p2)"

definition probePlaybackProgress :: "bool \<Rightarrow> bool \<Rightarrow> probe" where
  "probePlaybackProgress aborted failsNow =
     (if aborted
      then \<lparr>settled = Some False, resolutions = 1, baseline = None, abortListener = False, progressTimer = False,
            deadlineTimer = False, timeListener = False, probeConnection = None, videoAttached = False\<rparr>
      else probe_open failsNow)"

datatype probe_input = CheckProgress jsnum | TimeUpdated jsnum | Deadline | Aborted | ProbeConnectionFailed

definition checkProgress :: "jsnum \<Rightarrow> probe \<Rightarrow> probe" where
  "checkProgress t p =
     (let (ok, b) = observe t (baseline p); p1 = p\<lparr>baseline := b\<rparr>
      in if ok then probe_settle True p1 else p1)"

fun probe_exec :: "probe_input \<Rightarrow> probe \<Rightarrow> probe" where
  "probe_exec (CheckProgress t) p = (if progressTimer p then checkProgress t p else p)"
| "probe_exec (TimeUpdated t) p = (if timeListener p then checkProgress t p else p)"
| "probe_exec Deadline p = (if deadlineTimer p then probe_settle False p else p)"
| "probe_exec Aborted p = (if abortListener p then probe_settle False p else p)"
| "probe_exec ProbeConnectionFailed p = probe_settle False p"

section \<open>Codecs\<close>

definition CODECS :: "jsstring list" where
  "CODECS = map js [''avc1.640029'', ''avc1.64002A'', ''avc1.640033'', ''mp4a.40.2'', ''mp4a.40.5'', ''opus'']"

definition codec_type :: "jsstring \<Rightarrow> jsstring" where
  "codec_type codec = js ''video/mp4; codecs='' @ [0x22] @ codec @ [0x22]"

text \<open>\<open>isTypeSupported\<close> is the browser's.\<close>

definition supportedCodecs :: "(jsstring \<Rightarrow> bool) \<Rightarrow> jsstring" where
  "supportedCodecs isTypeSupported =
     js_join 0x2C (filter (\<lambda>codec. isTypeSupported (codec_type codec)) CODECS)"

section \<open>Media is appended in order\<close>

fun bytes_of :: "connection_input \<Rightarrow> byte list" where
  "bytes_of (SocketBytes throws chunk) = chunk"
| "bytes_of _ = []"

fun is_text :: "connection_input \<Rightarrow> bool" where
  "is_text (SocketText throws raw) = True"
| "is_text _ = False"

fun delivered :: "connection_input list \<Rightarrow> connection \<Rightarrow> byte list" where
  "delivered [] c = []"
| "delivered (i # is) c = (if ws c = None then [] else bytes_of i) @ delivered is (connection_exec i c)"

definition queued :: "connection \<Rightarrow> byte list" where
  "queued c = (case pending c of None \<Rightarrow> [] | Some data \<Rightarrow> data)"

definition media_bytes :: "connection \<Rightarrow> byte list" where
  "media_bytes c = (case sourceBuffer c of None \<Rightarrow> [] | Some sb \<Rightarrow> appended sb) @ queued c"

lemma connection_fail_fields [simp]:
  "conClosed (connection_fail e c) = conClosed c" "sourceBuffer (connection_fail e c) = sourceBuffer c"
  "pending (connection_fail e c) = pending c" "ws (connection_fail e c) = ws c"
  "conTransport (connection_fail e c) = conTransport c" "events (connection_fail e c) = events c"
  "binaries (connection_fail e c) = binaries c" "sent (connection_fail e c) = sent c"
  by (simp_all add: connection_fail_def)

lemma failures_fail: "failures (connection_fail e c) = failures c @ (if conClosed c then [] else [e])"
  by (simp add: connection_fail_def)

lemma connection_emit_fields [simp]:
  "conClosed (emit_event e c) = conClosed c" "sourceBuffer (emit_event e c) = sourceBuffer c"
  "pending (emit_event e c) = pending c" "ws (emit_event e c) = ws c"
  "conTransport (emit_event e c) = conTransport c" "failures (emit_event e c) = failures c"
  "conClosed (emit_binary c) = conClosed c" "sourceBuffer (emit_binary c) = sourceBuffer c"
  "pending (emit_binary c) = pending c" "ws (emit_binary c) = ws c"
  "conTransport (emit_binary c) = conTransport c" "failures (emit_binary c) = failures c"
  by (simp_all add: emit_event_def emit_binary_def)

lemmas connection_handler_defs =
  append_buffer_def flush_def handleUpdateEnd_def mse_binary_def mse_control_message_def webrtc_text_def
  connection_close_def

text \<open>Failures only grow, and a connection never reopens.\<close>

lemma failures_append: "\<exists>es. failures (append_buffer t d c) = failures c @ es"
  by (auto simp: append_buffer_def failures_fail split: option.split)

lemma failures_flush: "\<exists>es. failures (flush t c) = failures c @ es"
  using failures_append [of t _ "c\<lparr>pending := Some []\<rparr>"] by (auto simp: flush_def split: option.split)

lemma failures_updateEnd: "\<exists>es. failures (handleUpdateEnd ta tr c) = failures c @ es"
  using failures_flush [of ta c] by (auto simp: handleUpdateEnd_def Let_def split: option.split)

lemma failures_exec: "\<exists>es. failures (connection_exec i c) = failures c @ es"
proof (cases i)
  case (UpdateEnd ta tr ranges)
  show ?thesis
  proof (cases "sourceBuffer c")
    case (Some sb)
    then show ?thesis
      using failures_updateEnd [of ta tr "c\<lparr>sourceBuffer := Some (sb\<lparr>updating := False, buffered := ranges\<rparr>)\<rparr>"] UpdateEnd
      by auto
  qed (simp add: UpdateEnd)
next
  case (SocketBytes t chunk)
  show ?thesis
    using failures_append [of t chunk "emit_binary (emit_event FirstMedia c)"] SocketBytes
    by (auto simp: mse_binary_def failures_fail Let_def split: option.split transport.split)
next
  case (OfferReady v)
  then show ?thesis by (cases v) (auto simp: failures_fail)
qed (auto simp: connection_handler_defs failures_fail Let_def split: option.split list.split transport.split
       mse_control.split jsval.split)

lemma failures_run: "\<exists>es. failures (connection_run is c) = failures c @ es"
  unfolding connection_run_def
proof (induction "is" arbitrary: c)
  case (Cons i "is")
  obtain es es' where "failures (connection_exec i c) = failures c @ es"
    and "failures (fold connection_exec is (connection_exec i c)) = failures (connection_exec i c) @ es'"
    using failures_exec Cons by metis
  then show ?case by simp
qed simp

lemma connection_closed_exec: "conClosed c \<Longrightarrow> conClosed (connection_exec i c)"
proof (cases i)
  case (UpdateEnd ta tr ranges)
  assume "conClosed c"
  with UpdateEnd show ?thesis
    by (auto simp: connection_handler_defs Let_def split: option.split)
next
  case (OfferReady v)
  assume "conClosed c"
  with OfferReady show ?thesis by (cases v) auto
qed (auto simp: connection_handler_defs Let_def split: option.split list.split transport.split
       mse_control.split jsval.split)

lemma connection_closed_run: "conClosed c \<Longrightarrow> conClosed (connection_run is c)"
  unfolding connection_run_def by (induction "is" arbitrary: c) (simp_all add: connection_closed_exec)

lemma transport_exec [simp]: "conTransport (connection_exec i c) = conTransport c"
proof (cases i)
  case (UpdateEnd ta tr ranges)
  then show ?thesis by (auto simp: connection_handler_defs Let_def split: option.split)
next
  case (OfferReady v)
  then show ?thesis by (cases v) auto
qed (auto simp: connection_handler_defs Let_def split: option.split list.split transport.split
       mse_control.split jsval.split)

lemma media_append:
  "failures (append_buffer t d c) = failures c \<Longrightarrow> \<not> conClosed c \<Longrightarrow> sourceBuffer c \<noteq> None \<Longrightarrow> queued c = [] \<Longrightarrow>
   media_bytes (append_buffer t d c) = media_bytes c @ d"
  by (auto simp: append_buffer_def media_bytes_def queued_def failures_fail split: option.splits if_splits)

lemma media_flush:
  assumes "failures (flush t c) = failures c" and "\<not> conClosed c"
  shows "media_bytes (flush t c) = media_bytes c"
proof (cases "sourceBuffer c")
  case (Some sb)
  show ?thesis
  proof (cases "pending c")
    case p: (Some d)
    show ?thesis
    proof (cases "updating sb \<or> d = []")
      case False
      let ?c = "c\<lparr>pending := Some []\<rparr>"
      have "flush t c = append_buffer t d ?c" using Some p False by (simp add: flush_def)
      moreover have "failures (append_buffer t d ?c) = failures ?c" using assms(1) calculation by simp
      from media_append [OF this] have "media_bytes (append_buffer t d ?c) = media_bytes ?c @ d"
        using assms(2) Some by (simp add: queued_def)
      ultimately show ?thesis using Some p by (simp add: media_bytes_def queued_def)
    qed (use Some p in \<open>auto simp: flush_def\<close>)
  qed (use Some in \<open>simp add: flush_def\<close>)
qed (simp add: flush_def)

lemma media_updateEnd:
  assumes "failures (handleUpdateEnd ta tr c) = failures c" and "\<not> conClosed c"
  shows "media_bytes (handleUpdateEnd ta tr c) = media_bytes c"
proof -
  have eq: "media_bytes (handleUpdateEnd ta tr c) = media_bytes (flush ta c)
      \<and> failures (handleUpdateEnd ta tr c) = failures (flush ta c)"
    by (auto simp: handleUpdateEnd_def Let_def media_bytes_def queued_def split: option.split)
  with media_flush [of ta c] assms show ?thesis by simp
qed

lemma media_binary:
  assumes "failures (mse_binary t chunk c) = failures c" and "\<not> conClosed c"
  shows "media_bytes (mse_binary t chunk c) = media_bytes c @ chunk"
proof -
  let ?c = "emit_binary (emit_event FirstMedia c)"
  have f: "failures (connection_fail e ?c) \<noteq> failures c" for e
    using assms(2) by (simp add: failures_fail)
  have m: "media_bytes ?c = media_bytes c" by (simp add: media_bytes_def queued_def)
  have a: "media_bytes (append_buffer t chunk ?c) = media_bytes c @ chunk"
    if "sourceBuffer c = Some sb" "queued c = []" "failures (append_buffer t chunk ?c) = failures c" for sb
    using media_append [of t chunk ?c] that assms(2) m by (simp add: queued_def)
  show ?thesis
  proof (cases "sourceBuffer c")
    case None
    then show ?thesis
      using assms(1) f by (cases "pending c")
        (auto simp: mse_binary_def media_bytes_def queued_def Let_def split: if_splits)
  next
    case (Some sb)
    show ?thesis
    proof (cases "\<not> updating sb \<and> queued c = []")
      case True
      then have "mse_binary t chunk c = append_buffer t chunk ?c"
        using Some by (auto simp: mse_binary_def queued_def Let_def split: option.split)
      with a [OF Some] True assms(1) show ?thesis by simp
    next
      case False
      with Some assms(1) f show ?thesis
        by (cases "pending c") (auto simp: mse_binary_def media_bytes_def queued_def Let_def split: if_splits)
    qed
  qed
qed

lemma media_exec:
  assumes mse: "conTransport c = Mse" and open': "\<not> conClosed (connection_exec i c)"
    and ok: "failures (connection_exec i c) = failures c"
    and once: "is_text i \<Longrightarrow> sourceBuffer c = None"
  shows "media_bytes (connection_exec i c) = media_bytes c @ (if ws c = None then [] else bytes_of i)"
proof -
  have alive: "\<not> conClosed c" using open' connection_closed_exec by blast
  show ?thesis
  proof (cases i)
    case (SocketBytes t chunk)
    then show ?thesis using media_binary [of t chunk c] ok alive mse by (simp split: if_splits)
  next
    case (SocketText t raw)
    then show ?thesis using once ok mse alive
      by (auto simp: mse_control_message_def media_bytes_def queued_def failures_fail split: mse_control.splits)
  next
    case (UpdateEnd ta tr ranges)
    show ?thesis
    proof (cases "sourceBuffer c")
      case (Some sb)
      let ?c = "c\<lparr>sourceBuffer := Some (sb\<lparr>updating := False, buffered := ranges\<rparr>)\<rparr>"
      have "media_bytes ?c = media_bytes c" using Some by (simp add: media_bytes_def queued_def)
      then show ?thesis using media_updateEnd [of ta tr ?c] ok alive Some UpdateEnd by (simp split: if_splits)
    qed (simp add: UpdateEnd)
  next
    case Close
    then show ?thesis using open' alive by (simp add: connection_close_def split: if_splits)
  next
    case (OfferReady v)
    then show ?thesis using mse by (cases v) simp_all
  next
    case (StatsResult r)
    then show ?thesis by (auto simp: media_bytes_def queued_def Let_def emit_event_def emit_binary_def split: option.split)
  qed (auto simp: media_bytes_def queued_def connection_fail_def emit_event_def mse Let_def split: list.split)
qed

lemma text_buffer:
  "sourceBuffer c = None \<Longrightarrow> \<not> is_text i \<Longrightarrow> sourceBuffer (connection_exec i c) = None"
proof (cases i)
  case (OfferReady v)
  then show "sourceBuffer c = None \<Longrightarrow> \<not> is_text i \<Longrightarrow> ?thesis" by (cases v) auto
qed (auto simp: connection_handler_defs Let_def split: option.split list.split transport.split)

lemma media_run:
  assumes "conTransport c = Mse" and "\<not> conClosed (connection_run is c)"
    and "failures (connection_run is c) = failures c"
    and "length (filter is_text is) \<le> (if sourceBuffer c = None then 1 else 0)"
  shows "media_bytes (connection_run is c) = media_bytes c @ delivered is c"
  using assms
proof (induction "is" arbitrary: c)
  case (Cons i "is")
  let ?c = "connection_exec i c"
  have run: "connection_run (i # is) c = connection_run is ?c" by (simp add: connection_run_def)
  obtain es es' where e: "failures ?c = failures c @ es" "failures (connection_run is ?c) = failures ?c @ es'"
    using failures_exec failures_run by metis
  then have "es = []" "es' = []" using Cons.prems(3) run by simp_all
  note f = e [unfolded this, simplified]
  have alive: "\<not> conClosed ?c" using Cons.prems(2) run connection_closed_run by metis
  have texts: "length (filter is_text is) \<le> (if sourceBuffer ?c = None then 1 else 0)"
    using Cons.prems(4) text_buffer [of c i] by (cases "is_text i") (auto split: if_splits)
  have "media_bytes ?c = media_bytes c @ (if ws c = None then [] else bytes_of i)"
    by (rule media_exec) (use Cons.prems alive f in \<open>auto split: if_splits\<close>)
  moreover have "media_bytes (connection_run is ?c) = media_bytes ?c @ delivered is ?c"
    by (rule Cons.IH) (use Cons.prems run f texts in simp_all)
  ultimately show ?case by (simp add: run)
qed (simp add: connection_run_def)

text \<open>C32: media is neither lost nor reordered. As long as an MSE connection is open, has reported no
  failure and got at most one control message, the bytes appended to the source buffer followed by
  the bytes still queued are exactly the bytes the socket delivered, in their order.\<close>

theorem mse_media_in_order:
  assumes "c = connection_run is (openPlaybackConnection Mse time SetUp)"
    and "\<not> conClosed c" and "failures c = []" and "length (filter is_text is) \<le> 1"
  shows "(case sourceBuffer c of None \<Rightarrow> [] | Some sb \<Rightarrow> appended sb) @ (case pending c of None \<Rightarrow> [] | Some d \<Rightarrow> d)
    = delivered is (openPlaybackConnection Mse time SetUp)"
proof -
  have "media_bytes (connection_run is (openPlaybackConnection Mse time SetUp))
      = media_bytes (openPlaybackConnection Mse time SetUp) @ delivered is (openPlaybackConnection Mse time SetUp)"
    by (rule media_run) (use assms in \<open>simp_all add: blank_connection_def\<close>)
  then show ?thesis
    unfolding assms(1) by (simp add: media_bytes_def queued_def blank_connection_def)
qed

definition demo_mse :: "connection_input list" where
  "demo_mse = [SourceOpen, SocketOpened (js ''opus''),
     SocketText False (Some (JObject [(js ''type'', JString (js ''mse'')), (js ''value'', JString (js ''avc1''))])),
     SocketBytes False [1, 2], SocketBytes False [3], SocketBytes False [4, 5], UpdateEnd False False [(0, 2)]]"

lemma mse_media_in_order_witness:
  "let c = connection_run demo_mse (openPlaybackConnection Mse 0 SetUp)
   in (case sourceBuffer c of None \<Rightarrow> [] | Some sb \<Rightarrow> appended sb) @ (case pending c of None \<Rightarrow> [] | Some d \<Rightarrow> d)
        = [1, 2, 3, 4, 5]"
proof -
  let ?c = "connection_run demo_mse (openPlaybackConnection Mse 0 SetUp)"
  have "\<not> conClosed ?c" by code_simp
  moreover have "failures ?c = []" by code_simp
  moreover have "length (filter is_text demo_mse) \<le> 1" by code_simp
  moreover have "delivered demo_mse (openPlaybackConnection Mse 0 SetUp) = [1, 2, 3, 4, 5]" by code_simp
  ultimately show ?thesis using mse_media_in_order [OF refl, of demo_mse 0] by (simp add: Let_def)
qed

section \<open>The queue is bounded\<close>

lemma queued_append [simp]: "queued (append_buffer t d c) = queued c"
  by (auto simp: append_buffer_def queued_def split: option.split)

lemma queued_fields [simp]:
  "queued (c\<lparr>ws := w\<rparr>) = queued c" "queued (c\<lparr>sent := x\<rparr>) = queued c" "queued (c\<lparr>statsPending := b\<rparr>) = queued c"
  "queued (c\<lparr>microtasks := es\<rparr>) = queued c" "queued (c\<lparr>sourceBuffer := sb\<rparr>) = queued c" "queued (emit_event e c) = queued c"
  "queued (c\<lparr>previousReceipt := p\<rparr>) = queued c" "queued (c\<lparr>conCurrentTime := x0\<rparr>) = queued c" "queued (emit_binary c) = queued c"
  by (simp_all add: queued_def emit_event_def emit_binary_def)

lemma queued_fail: "queued (connection_fail e c) = queued c"
  by (simp add: queued_def connection_fail_def)

lemma queued_close: "queued (connection_close c) = queued c"
  by (simp add: queued_def connection_close_def)

lemma queued_control: "queued (mse_control_message v raw c) = queued c"
  by (simp add: mse_control_message_def queued_fail split: mse_control.split)

lemma queued_webrtc: "queued (webrtc_text raw c) = queued c"
  by (simp add: webrtc_text_def queued_fail split: option.split jsval.split)

lemma queued_flush: "queued (flush t c) = queued c \<or> queued (flush t c) = []"
  by (auto simp: flush_def queued_def append_buffer_def split: option.split)

lemma queued_updateEnd: "queued (handleUpdateEnd ta tr c) = queued (flush ta c)"
  by (auto simp: handleUpdateEnd_def queued_def Let_def split: option.split)

lemma queued_exec:
  assumes "int (length (queued c)) \<le> MSE_PENDING_CAPACITY"
  shows "int (length (queued (connection_exec i c))) \<le> MSE_PENDING_CAPACITY"
proof (cases i)
  case (SocketBytes t chunk)
  then show ?thesis
    using assms queued_append [of t chunk "emit_binary (emit_event FirstMedia c)"]
    by (auto simp: mse_binary_def queued_def Let_def split: option.splits transport.splits)
next
  case (UpdateEnd ta tr ranges)
  show ?thesis
  proof (cases "sourceBuffer c")
    case (Some sb)
    let ?c = "c\<lparr>sourceBuffer := Some (sb\<lparr>updating := False, buffered := ranges\<rparr>)\<rparr>"
    have "queued ?c = queued c" by (simp add: queued_def)
    with Some UpdateEnd assms queued_updateEnd [of ta tr ?c] queued_flush [of ta ?c] show ?thesis
      by (auto simp: MSE_PENDING_CAPACITY_def)
  qed (use assms UpdateEnd in simp)
next
  case (OfferReady v)
  with assms show ?thesis by (cases v) (auto simp: queued_def connection_fail_def)
next
  case (SocketText v raw)
  with assms show ?thesis by (simp add: queued_control queued_webrtc split: transport.split)
next
  case (StatsResult r)
  with assms show ?thesis by (simp add: Let_def split: option.split)
next
  case Microtask
  with assms show ?thesis by (simp add: queued_fail split: list.split)
qed (use assms in \<open>auto simp: queued_fail queued_close Let_def split: transport.split\<close>)

lemma queued_run:
  "int (length (queued c)) \<le> MSE_PENDING_CAPACITY \<Longrightarrow> int (length (queued (connection_run is c))) \<le> MSE_PENDING_CAPACITY"
  unfolding connection_run_def by (induction "is" arbitrary: c) (simp_all add: queued_exec)

text \<open>The queue of an MSE connection never holds more than its two mebibytes, whatever the socket
  sends and the source buffer does.\<close>

theorem mse_queue_bounded:
  "(case pending (connection_run is (openPlaybackConnection tr time outcome)) of
      None \<Rightarrow> 0 | Some data \<Rightarrow> int (length data)) \<le> 2097152"
proof -
  have "queued (openPlaybackConnection tr time outcome) = []"
    by (cases outcome; cases tr) (simp_all add: queued_def blank_connection_def)
  then have "int (length (queued (openPlaybackConnection tr time outcome))) \<le> MSE_PENDING_CAPACITY"
    by (simp add: MSE_PENDING_CAPACITY_def)
  from queued_run [OF this, of "is"] show ?thesis
    by (simp add: queued_def MSE_PENDING_CAPACITY_def split: option.splits)
qed

section \<open>A closed connection is silent\<close>

text \<open>What \<open>close\<close> leaves: nothing that could deliver an event.\<close>

definition released :: "connection \<Rightarrow> bool" where
  "released c \<longleftrightarrow> conClosed c \<and> ws c = None \<and> sourceBuffer c = None \<and> \<not> peer c \<and> \<not> mediaSource c
     \<and> \<not> objectURL c \<and> \<not> statsTimer c"

definition same_reports :: "connection \<Rightarrow> connection \<Rightarrow> bool" where
  "same_reports c c' \<longleftrightarrow> failures c' = failures c \<and> events c' = events c \<and> binaries c' = binaries c \<and> sent c' = sent c"

lemma released_exec: "released c \<Longrightarrow> released (connection_exec i c) \<and> same_reports c (connection_exec i c)"
proof (cases i)
  case (OfferReady v)
  then show "released c \<Longrightarrow> ?thesis" by (cases v) (auto simp: released_def same_reports_def connection_fail_def)
next
  case (StatsResult r)
  then show "released c \<Longrightarrow> ?thesis" by (auto simp: released_def same_reports_def split: option.split)
qed (auto simp: released_def same_reports_def connection_fail_def connection_close_def split: list.split)

lemma released_run: "released c \<Longrightarrow> released (connection_run is c) \<and> same_reports c (connection_run is c)"
  unfolding connection_run_def
proof (induction "is" arbitrary: c)
  case (Cons i "is")
  from Cons.IH [of "connection_exec i c"] released_exec [OF Cons.prems, of i] show ?case
    by (auto simp: same_reports_def)
qed (simp add: same_reports_def)

definition closed_means_released :: "connection \<Rightarrow> bool" where
  "closed_means_released c \<longleftrightarrow> (conClosed c \<longrightarrow> released c)"

lemma closed_means_released_exec:
  assumes "closed_means_released c"
  shows "closed_means_released (connection_exec i c)"
proof (cases "conClosed c")
  case True
  with assms released_exec show ?thesis by (simp add: closed_means_released_def)
next
  case open': False
  have "\<not> conClosed (append_buffer t d c')" if "\<not> conClosed c'" for t d c'
    using that by (auto simp: append_buffer_def split: option.split)
  then have upd: "\<not> conClosed (handleUpdateEnd ta tr c')" if "\<not> conClosed c'" for ta tr c'
    using that by (auto simp: handleUpdateEnd_def flush_def Let_def split: option.split)
  have "i = Close \<or> \<not> conClosed (connection_exec i c)"
  proof (cases i)
    case (UpdateEnd ta tr ranges)
    with open' upd show ?thesis by (auto split: option.split)
  next
    case (OfferReady v)
    with open' show ?thesis by (cases v) auto
  qed (use open' in \<open>auto simp: connection_handler_defs Let_def split: option.split list.split transport.split
       mse_control.split jsval.split\<close>)
  then show ?thesis
    using open' by (auto simp: closed_means_released_def connection_close_def released_def)
qed

lemma closed_means_released_run: "closed_means_released c \<Longrightarrow> closed_means_released (connection_run is c)"
  unfolding connection_run_def by (induction "is" arbitrary: c) (simp_all add: closed_means_released_exec)

text \<open>Closing a connection is final and complete. Whatever happened before, \<open>close\<close> releases the
  socket, the peer, the media source, its URL and the statistics timer, and from then on no event,
  media notice, failure or message leaves the connection, whatever the browser still delivers.\<close>

theorem closed_connection_silent:
  assumes "c = connection_run (is @ [Close]) (openPlaybackConnection tr time outcome)"
  shows "released c \<and> same_reports c (connection_run inputs' c) \<and> connection_exec Close c = c"
proof -
  have "\<not> conClosed (openPlaybackConnection tr time outcome)"
    by (cases outcome; cases tr) (simp_all add: blank_connection_def)
  then have "closed_means_released (openPlaybackConnection tr time outcome)"
    by (simp add: closed_means_released_def)
  from closed_means_released_run [OF this, of "is @ [Close]"] have "conClosed c \<longrightarrow> released c"
    by (simp add: closed_means_released_def assms)
  moreover have "conClosed c" by (simp add: assms connection_run_def connection_close_def)
  ultimately show ?thesis using released_run by (simp add: connection_close_def)
qed

lemma closed_connection_silent_witness:
  "released (connection_run ([SourceOpen, SocketOpened (js ''opus'')] @ [Close]) (openPlaybackConnection Mse 0 SetUp))"
  using closed_connection_silent [OF refl] by blast

section \<open>Media before the control message\<close>

text \<open>C34: media that arrives before the control message is never played. Once bytes are queued and
  the source buffer is idle, no further media is appended, and the connection fails when the queue
  overflows: an idle buffer is flushed only at an \<open>updateend\<close>, which never comes.\<close>

theorem early_media_stalls:
  assumes "conTransport c = Mse" and "ws c \<noteq> None" and "\<not> conClosed c"
    and "sourceBuffer c = Some sb" and "\<not> updating sb" and "pending c = Some data" and "data \<noteq> []"
    and "int (length data) \<le> MSE_PENDING_CAPACITY"
    and "\<forall>i \<in> set is. (\<exists>t chunk. i = SocketBytes t chunk) \<or> (\<exists>ta tr ranges. i = UpdateEnd ta tr ranges)"
  shows "sourceBuffer (connection_run is c) = Some sb
    \<and> (MSE_PENDING_CAPACITY < int (length data + length (concat (map bytes_of is))) \<longrightarrow>
        MediaError \<in> set (failures (connection_run is c)))"
  using assms
proof (induction "is" arbitrary: c data)
  case (Cons i "is")
  have run: "connection_run (i # is) c = connection_run is (connection_exec i c)" by (simp add: connection_run_def)
  show ?case
  proof (cases "\<exists>ta tr ranges. i = UpdateEnd ta tr ranges")
    case True
    then have "connection_exec i c = c" and "bytes_of i = []" using Cons.prems by auto
    then show ?thesis using Cons.IH [OF Cons.prems(1-8)] Cons.prems(9) run by simp
  next
    case False
    then obtain t chunk where i: "i = SocketBytes t chunk" using Cons.prems(9) by auto
    let ?c = "emit_binary (emit_event FirstMedia c)"
    show ?thesis
    proof (cases "int (length data + length chunk) \<le> MSE_PENDING_CAPACITY")
      case True
      then have exec: "connection_exec i c = ?c\<lparr>pending := Some (data @ chunk)\<rparr>"
        using Cons.prems by (auto simp: i mse_binary_def)
      have "sourceBuffer (connection_run is (connection_exec i c)) = Some sb
        \<and> (MSE_PENDING_CAPACITY < int (length (data @ chunk) + length (concat (map bytes_of is))) \<longrightarrow>
            MediaError \<in> set (failures (connection_run is (connection_exec i c))))"
        by (rule Cons.IH) (use Cons.prems exec True in simp_all)
      then show ?thesis unfolding run by (simp add: i add.assoc del: connection_exec.simps)
    next
      case False
      then have exec: "connection_exec i c = connection_fail MediaError ?c"
        using Cons.prems by (auto simp: i mse_binary_def)
      have "sourceBuffer (connection_run is (connection_exec i c)) = Some sb"
        by (rule Cons.IH [of _ data, THEN conjunct1]) (use Cons.prems exec in simp_all)
      moreover have "MediaError \<in> set (failures (connection_exec i c))"
        using Cons.prems(3) by (simp add: exec failures_fail)
      ultimately show ?thesis using failures_run [of "is" "connection_exec i c"] run by auto
    qed
  qed
qed (simp add: connection_run_def MSE_PENDING_CAPACITY_def)

lemma early_media_stalls_witness:
  "sourceBuffer (connection_run [SocketBytes False [4], UpdateEnd False False [], SocketBytes False [5]]
     (connection_run [SourceOpen, SocketOpened (js ''opus''), SocketBytes False [1],
        SocketText False (Some (JObject [(js ''type'', JString (js ''mse'')), (js ''value'', JString (js ''avc1''))]))]
       (openPlaybackConnection Mse 0 SetUp)))
   = Some \<lparr>updating = False, buffered = [], appended = []\<rparr>"
proof -
  let ?c = "connection_run [SourceOpen, SocketOpened (js ''opus''), SocketBytes False [1],
        SocketText False (Some (JObject [(js ''type'', JString (js ''mse'')), (js ''value'', JString (js ''avc1''))]))]
       (openPlaybackConnection Mse 0 SetUp)"
  have c: "conTransport ?c = Mse" "ws ?c \<noteq> None" "\<not> conClosed ?c"
    "sourceBuffer ?c = Some \<lparr>updating = False, buffered = [], appended = []\<rparr>" "pending ?c = Some [1]"
    by code_simp+
  have n: "\<not> updating \<lparr>updating = False, buffered = [], appended = []\<rparr>" "[1 :: byte] \<noteq> []"
    "int (length [1 :: byte]) \<le> MSE_PENDING_CAPACITY" by (simp_all add: MSE_PENDING_CAPACITY_def)
  show ?thesis
    by (rule early_media_stalls [OF c(1-4) n(1) c(5) n(2,3), THEN conjunct1]) auto
qed

section \<open>The probe settles once\<close>

definition probe_released :: "probe \<Rightarrow> bool" where
  "probe_released p \<longleftrightarrow> \<not> abortListener p \<and> \<not> progressTimer p \<and> \<not> deadlineTimer p \<and> \<not> timeListener p
     \<and> probeConnection p \<noteq> Some True \<and> \<not> videoAttached p"

definition probe_ok :: "probe \<Rightarrow> bool" where
  "probe_ok p \<longleftrightarrow> (if settled p = None then resolutions p = 0 \<and> probeConnection p = Some True \<and> videoAttached p
        \<and> abortListener p \<and> deadlineTimer p
      else resolutions p = 1 \<and> probe_released p)"

lemma settle_ok: "probe_ok p \<Longrightarrow> probe_ok (probe_settle b p) \<and> settled (probe_settle b p) \<noteq> None"
  by (auto simp: probe_ok_def probe_settle_def probe_close_def probe_released_def)

lemma settle_fields [simp]:
  "settled p = None \<Longrightarrow> settled (probe_settle b p) = Some b"
  "baseline (probe_settle b p) = baseline p"
  by (simp_all add: probe_settle_def probe_close_def split: option.split)

lemma probe_ok_baseline: "probe_ok (p\<lparr>baseline := b\<rparr>) = probe_ok p"
  by (simp add: probe_ok_def probe_released_def)

lemma checkProgress_ok: "probe_ok p \<Longrightarrow> probe_ok (checkProgress t p)"
  by (simp add: checkProgress_def probe_ok_baseline settle_ok Let_def split: prod.split)

lemma probe_exec_ok: "probe_ok p \<Longrightarrow> probe_ok (probe_exec i p)"
  by (cases i) (simp_all add: checkProgress_ok settle_ok)

lemma probe_start_ok: "probe_ok (probePlaybackProgress aborted failsNow)"
  by (auto simp: probe_ok_def probePlaybackProgress_def probe_open_def probe_settle_def probe_close_def
      probe_released_def Let_def)

lemma probe_run_ok: "probe_ok p \<Longrightarrow> probe_ok (fold probe_exec is p)"
  by (induction "is" arbitrary: p) (simp_all add: probe_exec_ok)

lemma probe_settled_stays:
  assumes "settled p \<noteq> None"
  shows "settled (fold probe_exec is p) = settled p"
proof -
  have step: "settled (probe_exec i p) = settled p" if "settled p \<noteq> None" for i p
    using that by (cases i) (auto simp: checkProgress_def probe_settle_def Let_def split: prod.split)
  show ?thesis using assms by (induction "is" arbitrary: p) (simp_all add: step)
qed

text \<open>C33: a primary probe resolves exactly once and leaves nothing behind. However its timers, its
  abort signal, its video and its connection call back, the promise is resolved at most once, its
  value never changes, and once it is resolved the connection is closed, both timers and both
  listeners are gone and the video element is removed; the deadline and the abort always settle it.\<close>

theorem probe_settles_once:
  assumes "p = fold probe_exec is (probePlaybackProgress aborted failsNow)"
  shows "resolutions p = (if settled p = None then 0 else 1)
    \<and> (settled p \<noteq> None \<longrightarrow> settled (fold probe_exec inputs' p) = settled p \<and> probe_released (fold probe_exec inputs' p))
    \<and> settled (probe_exec Deadline p) \<noteq> None \<and> settled (probe_exec Aborted p) \<noteq> None"
proof -
  have ok: "probe_ok p" unfolding assms by (rule probe_run_ok [OF probe_start_ok])
  then have "resolutions p = (if settled p = None then 0 else 1)" by (simp add: probe_ok_def)
  moreover have "settled (fold probe_exec inputs' p) = settled p \<and> probe_released (fold probe_exec inputs' p)"
    if "settled p \<noteq> None"
    using probe_settled_stays [OF that, of inputs'] probe_run_ok [OF ok, of inputs'] that by (auto simp: probe_ok_def)
  moreover have "settled (probe_exec Deadline p) \<noteq> None \<and> settled (probe_exec Aborted p) \<noteq> None"
  proof (cases "settled p = None")
    case True
    then have "deadlineTimer p" "abortListener p" using ok by (simp_all add: probe_ok_def)
    then show ?thesis using settle_ok [OF ok, of False] by simp
  next
    case False
    then show ?thesis using probe_settled_stays [OF False, of "[Deadline]"] probe_settled_stays [OF False, of "[Aborted]"] by simp
  qed
  ultimately show ?thesis by blast
qed

lemma probe_settles_once_witness:
  "resolutions (fold probe_exec [CheckProgress (Num 1), TimeUpdated (Num 3), Deadline] (probePlaybackProgress False False)) = 1"
proof -
  let ?p = "fold probe_exec [CheckProgress (Num 1), TimeUpdated (Num 3), Deadline] (probePlaybackProgress False False)"
  have "settled ?p \<noteq> None" by code_simp
  then show ?thesis by (subst probe_settles_once [OF refl, THEN conjunct1]) (simp only: if_False)
qed

text \<open>The times the verifier looked at.\<close>

fun observed :: "probe_input list \<Rightarrow> rat list" where
  "observed [] = []"
| "observed (CheckProgress (Num t) # is) = t # observed is"
| "observed (TimeUpdated (Num t) # is) = t # observed is"
| "observed (i # is) = observed is"

lemma checkProgress_true:
  assumes "settled p = None" and "settled (checkProgress t p) = Some True"
  obtains x b where "t = Num x" "baseline p = Some b" "b + 1 \<le> x"
  using assms
  by (cases t) (auto simp: checkProgress_def probe_settle_def probe_close_def Let_def
      PLAYBACK_PRIMARY_PROBE_PROGRESS_SECONDS_def split: if_splits option.splits)

lemma checkProgress_baseline:
  assumes "baseline (checkProgress t p) = Some b"
  shows "baseline p = Some b \<or> (t = Num b \<and> 0 < b)"
proof (cases t)
  case (Num x)
  then show ?thesis using assms
    by (auto simp: checkProgress_def probe_settle_def probe_close_def Let_def split: if_splits option.splits)
qed (use assms in \<open>auto simp: checkProgress_def Let_def\<close>)

lemma probe_true_progress:
  assumes "settled p \<noteq> Some True" and "settled (fold probe_exec is p) = Some True"
    and "\<And>b. baseline p = Some b \<Longrightarrow> 0 < b \<and> b \<in> B"
  shows "\<exists>a b. a \<in> B \<union> set (observed is) \<and> b \<in> set (observed is) \<and> 0 < a \<and> a + 1 \<le> b"
  using assms
proof (induction "is" arbitrary: p B)
  case (Cons i "is")
  have none: "settled p = None"
    using probe_settled_stays [of p "i # is"] Cons.prems(1,2) by (cases "settled p") auto
  have seen: "set (observed is) \<subseteq> set (observed (i # is))"
    by (cases i) (metis observed.simps jsnum.exhaust list.set_intros(2) subsetI)+
  have new: "x \<in> set (observed (i # is))" if "i = CheckProgress (Num x) \<or> i = TimeUpdated (Num x)" for x
    using that by auto
  show ?case
  proof (cases "settled (probe_exec i p) = Some True")
    case True
    then obtain t where t: "i = CheckProgress t \<or> i = TimeUpdated t" "settled (checkProgress t p) = Some True"
      using none by (cases i) (auto split: if_splits)
    then obtain x b where "t = Num x" "baseline p = Some b" "b + 1 \<le> x"
      using checkProgress_true [OF none] by metis
    with t new [of x] Cons.prems(3) show ?thesis by blast
  next
    case False
    have run: "settled (fold probe_exec is (probe_exec i p)) = Some True" using Cons.prems(2) by simp
    have base: "0 < b \<and> b \<in> B \<union> set (observed (i # is))" if b: "baseline (probe_exec i p) = Some b" for b
    proof -
      have "baseline p = Some b \<or> ((i = CheckProgress (Num b) \<or> i = TimeUpdated (Num b)) \<and> 0 < b)"
        using b checkProgress_baseline
        by (cases i) (auto split: if_splits)
      with Cons.prems(3) new show ?thesis by blast
    qed
    from Cons.IH [OF False run base] seen show ?thesis by blast
  qed
qed simp

text \<open>A probe reports the primary as recovered only on evidence: two of the video times it looked
  at lie at least one second apart, the earlier one being positive.\<close>

theorem probe_success_is_progress:
  assumes "settled (fold probe_exec is (probePlaybackProgress aborted failsNow)) = Some True"
  shows "\<exists>a b. a \<in> set (observed is) \<and> b \<in> set (observed is) \<and> 0 < a \<and> a + 1 \<le> b"
proof -
  let ?p = "probePlaybackProgress aborted failsNow"
  have "settled ?p \<noteq> Some True" and "baseline ?p = None"
    by (auto simp: probePlaybackProgress_def probe_open_def probe_settle_def probe_close_def Let_def)
  from probe_true_progress [OF this(1) assms, of "{}"] this(2) show ?thesis by simp
qed

lemma probe_success_is_progress_witness:
  "\<exists>a b. a \<in> set [1, 1 / 2, 2 :: rat] \<and> b \<in> set [1, 1 / 2, 2] \<and> 0 < a \<and> a + 1 \<le> b"
proof -
  have "settled (fold probe_exec [CheckProgress (Num 1), TimeUpdated (Num (1 / 2)), CheckProgress (Num 2)]
      (probePlaybackProgress False False)) = Some True" by code_simp
  from probe_success_is_progress [OF this] show ?thesis by simp
qed

end
