(* ===== verification/Names.thy ===== *)
theory Names
  imports Prelude
begin

text \<open>
  The patterns by which the viewer and the live page recognise names: URL-like strings, operation
  keys, diagnostic codes and identifiers. Each function is one regular expression of the source.
  Before them the tests on values of type \<open>unknown\<close> that several components make.
\<close>

section \<open>Tests on unknown values\<close>

definition is_int_value :: "jsval \<Rightarrow> bool" where
  "is_int_value v = (case v of JNumber (Num x) \<Rightarrow> \<lfloor>x\<rfloor> = \<lceil>x\<rceil> | _ \<Rightarrow> False)"

fun is_bool_value :: "jsval \<Rightarrow> bool" where
  "is_bool_value (JBool b) = True" | "is_bool_value _ = False"

fun is_string_value :: "jsval \<Rightarrow> bool" where
  "is_string_value (JString s) = True" | "is_string_value _ = False"

fun nonempty_string :: "jsval \<Rightarrow> bool" where
  "nonempty_string (JString s) = (s \<noteq> [])" | "nonempty_string _ = False"

fun string_of :: "jsval \<Rightarrow> jsstring" where
  "string_of (JString s) = s" | "string_of _ = []"

definition int_value :: "int \<Rightarrow> jsval" where "int_value i = JNumber (Num (of_int i))"

text \<open>\<open>Boolean(value)\<close>\<close>

fun truthy :: "jsval \<Rightarrow> bool" where
  "truthy JUndefined = False"
| "truthy JNull = False"
| "truthy (JBool b) = b"
| "truthy (JNumber NaN) = False"
| "truthy (JNumber (Num x)) = (x \<noteq> 0)"
| "truthy (JNumber _) = True"
| "truthy (JString s) = (s \<noteq> [])"
| "truthy (JArray vs) = True"
| "truthy (JObject kvs) = True"

section \<open>Patterns\<close>

text \<open>\<open>[a-z0-9+.-]\<close> under the flags \<open>iu\<close>.\<close>

definition is_scheme_char :: "jschar \<Rightarrow> bool" where
  "is_scheme_char c \<longleftrightarrow> is_alpha_iu c \<or> is_digit c \<or> c = 0x2B \<or> c = 0x2E \<or> c = 0x2D"

fun scheme_rest :: "jsstring \<Rightarrow> bool" where
  "scheme_rest [] = False"
| "scheme_rest (c # cs) = (c = 0x3A \<or> (is_scheme_char c \<and> scheme_rest cs))"

text \<open>\<open>/^[a-z][a-z0-9+.-]*:/iu\<close>\<close>

fun url_like :: "jsstring \<Rightarrow> bool" where
  "url_like [] = False"
| "url_like (c # cs) = (is_alpha_iu c \<and> scheme_rest cs)"

text \<open>\<open>[A-Za-z0-9._-]\<close>, without and with the flags \<open>iu\<close>.\<close>

definition is_key_char :: "jschar \<Rightarrow> bool" where
  "is_key_char c \<longleftrightarrow> is_alnum c \<or> c = 0x2E \<or> c = 0x5F \<or> c = 0x2D"

definition is_key_char_iu :: "jschar \<Rightarrow> bool" where
  "is_key_char_iu c \<longleftrightarrow> is_alpha_iu c \<or> is_digit c \<or> c = 0x2E \<or> c = 0x5F \<or> c = 0x2D"

text \<open>\<open>/^[A-Za-z0-9][A-Za-z0-9._-]{lo,hi}$/u\<close>\<close>

definition ident_pattern :: "nat \<Rightarrow> nat \<Rightarrow> jsstring \<Rightarrow> bool" where
  "ident_pattern lo hi s = (case s of [] \<Rightarrow> False
     | c # cs \<Rightarrow> is_alnum c \<and> lo \<le> length cs \<and> length cs \<le> hi \<and> list_all is_key_char cs)"

text \<open>\<open>/^[a-z][a-z0-9_]{lo,hi}$/u\<close>\<close>

definition is_code_char :: "jschar \<Rightarrow> bool" where
  "is_code_char c \<longleftrightarrow> is_lower c \<or> is_digit c \<or> c = 0x5F"

definition diagnostic_code :: "nat \<Rightarrow> nat \<Rightarrow> jsstring \<Rightarrow> bool" where
  "diagnostic_code lo hi s = (case s of [] \<Rightarrow> False
     | c # cs \<Rightarrow> is_lower c \<and> lo \<le> length cs \<and> length cs \<le> hi \<and> list_all is_code_char cs)"

definition has_control :: "jsstring \<Rightarrow> bool" where
  "has_control s \<longleftrightarrow> list_ex is_control s"

lemma has_control_iff: "has_control s \<longleftrightarrow> (\<exists>c \<in> set s. is_control c)"
  by (simp add: has_control_def list_ex_iff)

lemma ident_pattern_mono: "ident_pattern lo hi s \<Longrightarrow> lo' \<le> lo \<Longrightarrow> hi \<le> hi' \<Longrightarrow> ident_pattern lo' hi' s"
  by (auto simp: ident_pattern_def split: list.splits)

lemma key_char_not_space: "is_key_char c \<Longrightarrow> \<not> is_space c \<and> \<not> is_control c"
  by (auto simp: is_key_char_def is_alnum_def is_digit_def is_lower_def is_upper_def is_space_def is_control_def word_le_nat_alt)

end
