(* ===== verification/Pipe.thy ===== *)
theory Pipe
  imports Names
begin

text \<open>
  \<open>viewer-app/src/managementPipe.ts\<close>: the viewer's connection to its management service. The
  private fields of \<open>ManagementConnection\<close> are the record \<open>pipe\<close>; its requests, the framing of
  \<open>receive\<close> and the ways it ends are functions on it. \<open>parse\<close> is
  \<open>JSON.parse(line.toString("utf8"))\<close>, \<open>encode\<close> the bytes of \<open>JSON.stringify\<close>; every statement holds
  for all of them.
\<close>

section \<open>Errors and values\<close>

type_synonym byte = "8 word"

definition MANAGEMENT_PROTOCOL_VERSION :: rat where "MANAGEMENT_PROTOCOL_VERSION = 2"
definition MAX_MANAGEMENT_MESSAGE_BYTES :: int where "MAX_MANAGEMENT_MESSAGE_BYTES = 64 * 1024"
definition MANAGEMENT_REQUEST_TIMEOUT_MS :: int where "MANAGEMENT_REQUEST_TIMEOUT_MS = 5000"

datatype pipe_error =
  ManagementRequestError jsstring jsstring
| PlainError jsstring

datatype failure_code = RequestTimeout | ConnectTimeout | LeaseFailed | PipeClosed | TransportFailed

definition managementFailureCode :: "pipe_error \<Rightarrow> failure_code" where
  "managementFailureCode e =
     (case e of
        ManagementRequestError code message \<Rightarrow>
          if code = js ''request_timeout'' then RequestTimeout
          else if code = js ''connect_timeout'' then ConnectTimeout
          else if code = js ''lease_failed'' then LeaseFailed
          else if message = js ''management pipe closed'' then PipeClosed else TransportFailed
      | PlainError message \<Rightarrow>
          if message = js ''management pipe closed'' then PipeClosed else TransportFailed)"

definition isResponse :: "jsval \<Rightarrow> bool" where
  "isResponse v \<longleftrightarrow> is_object v \<and> jget v (js ''version'') = JNumber (Num MANAGEMENT_PROTOCOL_VERSION)
     \<and> nonempty_string (jget v (js ''requestId'')) \<and> is_bool_value (jget v (js ''ok''))"

definition isEventEnvelope :: "jsval \<Rightarrow> bool" where
  "isEventEnvelope v \<longleftrightarrow> is_object v \<and> jget v (js ''version'') = JNumber (Num MANAGEMENT_PROTOCOL_VERSION)
     \<and> is_string_value (jget v (js ''event'')) \<and> nonempty_string (jget v (js ''eventId''))
     \<and> \<not> has_prop v (js ''requestId'')"

definition isViewerStatus :: "jsval \<Rightarrow> bool" where
  "isViewerStatus v \<longleftrightarrow> is_object v \<and> is_bool_value (jget v (js ''configured''))
     \<and> is_string_value (jget v (js ''connection'')) \<and> is_bool_value (jget v (js ''autoStart''))
     \<and> is_bool_value (jget v (js ''leaseAvailable''))"

definition isLeaseGrant :: "jsval \<Rightarrow> bool" where
  "isLeaseGrant v \<longleftrightarrow> is_object v \<and> nonempty_string (jget v (js ''leaseId''))
     \<and> is_int_value (jget v (js ''heartbeatSeconds''))
     \<and> (case jget v (js ''heartbeatSeconds'') of JNumber (Num x) \<Rightarrow> x > 0 | _ \<Rightarrow> False)"

section \<open>Commands\<close>

datatype viewer_command =
  ReloadLive jsstring
| ResubscribeStream jsstring jsstring  \<comment> \<open>stream name, operation key\<close>
| RestartViewer jsstring

definition safeOperationKey :: "jsval \<Rightarrow> bool" where
  "safeOperationKey v = (case v of
     JString s \<Rightarrow> 0 < length s \<and> length s \<le> 128 \<and> list_all is_key_char_iu s | _ \<Rightarrow> False)"

definition safeStreamName :: "jsval \<Rightarrow> bool" where
  "safeStreamName v = (case v of
     JString s \<Rightarrow>
       if length s = 0 \<or> length s > 128 \<or> s \<noteq> js_trim s then False
       else if url_like s \<or> starts_with s (js ''//'') then False
       else \<not> has_control s
   | _ \<Rightarrow> False)"

definition viewerCommandFromEvent :: "jsval \<Rightarrow> viewer_command option" where
  "viewerCommandFromEvent event =
     (let payload = jget event (js ''payload''); key = jget payload (js ''operationKey'');
          kind = jget payload (js ''type'')
      in if jget event (js ''event'') \<noteq> JString (js ''viewer_command'') \<or> \<not> is_object payload then None
         else if \<not> safeOperationKey key then None
         else if kind = JString (js ''reload_live'') then Some (ReloadLive (string_of key))
         else if kind = JString (js ''restart_viewer'') then Some (RestartViewer (string_of key))
         else if kind = JString (js ''resubscribe_stream'') \<and> safeStreamName (jget payload (js ''streamName''))
         then Some (ResubscribeStream (string_of (jget payload (js ''streamName''))) (string_of key))
         else None)"

section \<open>The connection\<close>

datatype outcome = Resolved jsval | Rejected pipe_error

record pipe =
  pClosed :: bool
  buffer :: "byte list"
  pendingRequests :: "(jsstring, unit) jsmap"  \<comment> \<open>by request id; each has its timer\<close>
  issuedRequests :: "jsstring list"
  outcomes :: "(jsstring \<times> outcome) list"
  commands :: "viewer_command list"
  disconnects :: "pipe_error list"
  written :: "byte list list"
  socketGone :: bool                           \<comment> \<open>destroyed: no extra data is delivered\<close>
  socketEnded :: bool

definition new_pipe :: pipe where
  "new_pipe = \<lparr>pClosed = False, buffer = [], pendingRequests = [], issuedRequests = [], outcomes = [],
     commands = [], disconnects = [], written = [], socketGone = False, socketEnded = False\<rparr>"

definition rejectPending :: "pipe_error \<Rightarrow> pipe \<Rightarrow> pipe" where
  "rejectPending e p = p\<lparr>outcomes := outcomes p @ map (\<lambda>i. (i, Rejected e)) (map_keys (pendingRequests p)),
     pendingRequests := []\<rparr>"

definition pipe_fail :: "pipe_error \<Rightarrow> pipe \<Rightarrow> pipe" where
  "pipe_fail e p =
     (if pClosed p then p
      else (let p1 = rejectPending e (p\<lparr>pClosed := True\<rparr>) in p1\<lparr>disconnects := disconnects p1 @ [e]\<rparr>))"

definition terminate :: "pipe_error \<Rightarrow> pipe \<Rightarrow> pipe" where
  "terminate e p = (if pClosed p then p else (pipe_fail e p)\<lparr>socketGone := True\<rparr>)"

definition pipe_close :: "pipe \<Rightarrow> pipe" where
  "pipe_close p =
     (if pClosed p then p
      else (rejectPending (PlainError (js ''management pipe closed'')) (p\<lparr>pClosed := True\<rparr>))\<lparr>socketEnded := True\<rparr>)"

text \<open>\<open>requestId\<close> is the fresh \<open>randomUUID()\<close>.\<close>

definition request_value :: "jsstring \<Rightarrow> jsstring \<Rightarrow> jsval option \<Rightarrow> jsval" where
  "request_value requestId kind payload =
     JObject ([(js ''version'', JNumber (Num MANAGEMENT_PROTOCOL_VERSION)), (js ''requestId'', JString requestId),
               (js ''type'', JString kind)]
              @ (case payload of None \<Rightarrow> [] | Some v \<Rightarrow> [(js ''payload'', v)]))"

definition request ::
  "(jsval \<Rightarrow> byte list) \<Rightarrow> jsstring \<Rightarrow> jsstring \<Rightarrow> jsval option \<Rightarrow> pipe \<Rightarrow> pipe" where
  "request encode requestId kind payload p =
     (let p0 = p\<lparr>issuedRequests := issuedRequests p @ [requestId]\<rparr>
      in if pClosed p then p0\<lparr>outcomes := outcomes p0 @ [(requestId, Rejected (PlainError (js ''management pipe closed'')))]\<rparr>
         else (let encoded = encode (request_value requestId kind payload) @ [10]
               in if int (length encoded) > MAX_MANAGEMENT_MESSAGE_BYTES
                  then p0\<lparr>outcomes := outcomes p0 @
                            [(requestId, Rejected (PlainError (js ''management message exceeds 64 KiB'')))]\<rparr>
                  else p0\<lparr>pendingRequests := map_set requestId () (pendingRequests p0),
                          written := written p0 @ [encoded]\<rparr>))"

section \<open>Receiving\<close>

definition destroy :: "pipe \<Rightarrow> pipe" where
  "destroy p = p\<lparr>socketGone := True\<rparr>"

text \<open>\<open>value || fallback\<close> on a field typed as an optional string.\<close>

fun or_string :: "jsval \<Rightarrow> jsstring \<Rightarrow> jsstring" where
  "or_string (JString s) d = (if s = [] then d else s)"
| "or_string _ d = d"

definition settle_response :: "jsval \<Rightarrow> pipe \<Rightarrow> pipe" where
  "settle_response r p =
     (let i = string_of (jget r (js ''requestId''))
      in case map_of (pendingRequests p) i of
           None \<Rightarrow> p
         | Some _ \<Rightarrow>
             p\<lparr>pendingRequests := map_delete i (pendingRequests p),
               outcomes := outcomes p @
                 [(i, if jget r (js ''ok'') = JBool True then Resolved (jget r (js ''payload''))
                      else Rejected (ManagementRequestError
                             (or_string (jget r (js ''errorCode'')) (js ''request_failed''))
                             (or_string (jget r (js ''message'')) (js ''management request failed''))))]\<rparr>)"

text \<open>One line; the flag says whether the loop goes on.\<close>

definition handle_line :: "(byte list \<Rightarrow> jsval option) \<Rightarrow> byte list \<Rightarrow> pipe \<Rightarrow> bool \<times> pipe" where
  "handle_line parse line p =
     (if line = [] \<or> int (length line) > MAX_MANAGEMENT_MESSAGE_BYTES then (False, destroy p)
      else case parse line of
             None \<Rightarrow> (False, destroy p)
           | Some decoded \<Rightarrow>
               if isEventEnvelope decoded
               then (case viewerCommandFromEvent decoded of
                       None \<Rightarrow> (False, destroy p)
                     | Some command \<Rightarrow> (True, p\<lparr>commands := commands p @ [command]\<rparr>))
               else if \<not> isResponse decoded then (False, destroy p)
               else (True, settle_response decoded p))"

function receive_loop :: "(byte list \<Rightarrow> jsval option) \<Rightarrow> byte list \<Rightarrow> pipe \<Rightarrow> pipe" where
  "receive_loop parse buf p =
     (if 10 \<notin> set buf
      then (let p1 = p\<lparr>buffer := buf\<rparr>
            in if int (length buf) > MAX_MANAGEMENT_MESSAGE_BYTES then destroy p1 else p1)
      else (let line = takeWhile (\<lambda>b. b \<noteq> 10) buf; rest = drop (Suc (length line)) buf;
                (continue, p1) = handle_line parse line p
            in if continue then receive_loop parse rest p1 else p1\<lparr>buffer := rest\<rparr>))"
  by pat_completeness auto

termination
proof (relation "measure (\<lambda>(parse, buf, p). length buf)")
  fix buf :: "byte list" and line rest :: "byte list"
  assume "\<not> 10 \<notin> set buf" and "line = takeWhile (\<lambda>b. b \<noteq> 10) buf" and "rest = drop (Suc (length line)) buf"
  then have "length rest < length buf" by (cases buf) auto
  then show "((parse, rest, p1), (parse, buf, p)) \<in> measure (\<lambda>(parse, buf, p). length buf)"
    for parse :: "byte list \<Rightarrow> jsval option" and p1 p :: pipe by simp
qed simp

declare receive_loop.simps [simp del]

definition receive :: "(byte list \<Rightarrow> jsval option) \<Rightarrow> byte list \<Rightarrow> pipe \<Rightarrow> pipe" where
  "receive parse chunk p = receive_loop parse (buffer p @ chunk) p"

section \<open>Events of the connection\<close>

datatype pipe_input =
  Request jsstring jsstring "jsval option"
| Data "byte list"
| Timeout jsstring
| WriteFailed pipe_error
| SocketFailed pipe_error
| SocketClosed
| HeartbeatFailed pipe_error
| CloseCall

fun pipe_exec :: "(jsval \<Rightarrow> byte list) \<Rightarrow> (byte list \<Rightarrow> jsval option) \<Rightarrow> pipe_input \<Rightarrow> pipe \<Rightarrow> pipe" where
  "pipe_exec encode parse (Request i kind payload) p = request encode i kind payload p"
| "pipe_exec encode parse (Data chunk) p = (if socketGone p then p else receive parse chunk p)"
| "pipe_exec encode parse (Timeout i) p =
     (if i \<in> set (map_keys (pendingRequests p))
      then terminate (ManagementRequestError (js ''request_timeout'') (js ''management request timed out'')) p
      else p)"
| "pipe_exec encode parse (WriteFailed e) p = terminate e p"
| "pipe_exec encode parse (SocketFailed e) p = pipe_fail e (p\<lparr>socketGone := True\<rparr>)"
| "pipe_exec encode parse SocketClosed p =
     pipe_fail (PlainError (js ''management pipe closed'')) (p\<lparr>socketGone := True\<rparr>)"
| "pipe_exec encode parse (HeartbeatFailed e) p = terminate e p"
| "pipe_exec encode parse CloseCall p = pipe_close p"

definition pipe_run ::
  "(jsval \<Rightarrow> byte list) \<Rightarrow> (byte list \<Rightarrow> jsval option) \<Rightarrow> pipe_input list \<Rightarrow> pipe \<Rightarrow> pipe" where
  "pipe_run encode parse ins p = fold (pipe_exec encode parse) ins p"

section \<open>The requests and what their callers get\<close>

definition objectPayload :: "jsval \<Rightarrow> (jsstring \<times> jsval) list" where
  "objectPayload v = (case v of JObject kvs \<Rightarrow> kvs | _ \<Rightarrow> [])"

definition with_lease :: "jsval \<Rightarrow> jsstring \<Rightarrow> jsval" where
  "with_lease payload leaseId = JObject (map_set (js ''leaseId'') (JString leaseId) (objectPayload payload))"

definition command_result :: "jsstring \<Rightarrow> jsstring \<Rightarrow> bool \<Rightarrow> jsstring option \<Rightarrow> jsval" where
  "command_result leaseId operationKey succeeded errorCode =
     JObject ([(js ''leaseId'', JString leaseId), (js ''operationKey'', JString operationKey),
               (js ''succeeded'', JBool succeeded)]
       @ (if succeeded then []
          else [(js ''errorCode'', JString (case errorCode of None \<Rightarrow> js ''viewer_command_failed''
                  | Some c \<Rightarrow> if c = [] then js ''viewer_command_failed'' else c))]))"

datatype pipe_call =
  GetStatus
| Configure jsval
| AcquireLease
| Heartbeat jsstring
| ReleaseLease jsstring
| ReportViewer jsstring jsstring
| ReportRenderer jsstring jsval
| ReportStream jsstring jsval
| ReportDiagnostic jsstring jsval
| ReportCommandResult jsstring jsstring bool "jsstring option"

fun call_request :: "pipe_call \<Rightarrow> jsstring \<times> jsval option" where
  "call_request GetStatus = (js ''get_status'', None)"
| "call_request (Configure draft) = (js ''configure'', Some draft)"
| "call_request AcquireLease = (js ''acquire_lease'', None)"
| "call_request (Heartbeat leaseId) = (js ''lease_heartbeat'', Some (JObject [(js ''leaseId'', JString leaseId)]))"
| "call_request (ReleaseLease leaseId) = (js ''release_lease'', Some (JObject [(js ''leaseId'', JString leaseId)]))"
| "call_request (ReportViewer leaseId state) =
     (js ''viewer_status'', Some (JObject [(js ''leaseId'', JString leaseId), (js ''state'', JString state)]))"
| "call_request (ReportRenderer leaseId payload) = (js ''renderer_status'', Some (with_lease payload leaseId))"
| "call_request (ReportStream leaseId payload) = (js ''stream_telemetry'', Some (with_lease payload leaseId))"
| "call_request (ReportDiagnostic leaseId payload) = (js ''diagnostic_event'', Some (with_lease payload leaseId))"
| "call_request (ReportCommandResult leaseId operationKey succeeded errorCode) =
     (js ''command_result'', Some (command_result leaseId operationKey succeeded errorCode))"

text \<open>What the caller's promise becomes; \<open>Inl\<close> a rejection.\<close>

fun call_result :: "pipe_call \<Rightarrow> outcome \<Rightarrow> pipe_error + jsval" where
  "call_result call (Rejected e) = Inl e"
| "call_result GetStatus (Resolved v) =
     (if isViewerStatus v then Inr v else Inl (PlainError (js ''management service returned an invalid status'')))"
| "call_result (Configure draft) (Resolved v) =
     (if isViewerStatus v then Inr v else Inl (PlainError (js ''management service returned an invalid status'')))"
| "call_result AcquireLease (Resolved v) =
     (if isLeaseGrant v then Inr v else Inl (PlainError (js ''management service returned an invalid lease'')))"
| "call_result call (Resolved v) = Inr JUndefined"

text \<open>The constructor's guard and the race of \<open>connect\<close>.\<close>

definition valid_request_timeout :: "jsnum \<Rightarrow> bool" where
  "valid_request_timeout t \<longleftrightarrow> is_int_value (JNumber t)
     \<and> (case t of Num x \<Rightarrow> \<not> x < 1 \<and> \<not> x > 30000 | _ \<Rightarrow> False)"

datatype connect_input = Connected | ConnectError pipe_error | ConnectTimer

record connecting =
  tempListeners :: bool
  connectTimer :: bool
  candidateDestroyed :: bool
  connectResult :: "(pipe_error + pipe) option"

definition start_connecting :: "jsnum \<Rightarrow> connecting" where
  "start_connecting timeoutMs =
     (if valid_request_timeout timeoutMs
      then \<lparr>tempListeners = True, connectTimer = True, candidateDestroyed = False, connectResult = None\<rparr>
      else \<lparr>tempListeners = False, connectTimer = False, candidateDestroyed = False,
            connectResult = Some (Inl (PlainError (js ''management request timeout is invalid'')))\<rparr>)"

fun connect_exec :: "connect_input \<Rightarrow> connecting \<Rightarrow> connecting" where
  "connect_exec Connected c =
     (if tempListeners c
      then \<lparr>tempListeners = False, connectTimer = False, candidateDestroyed = candidateDestroyed c,
            connectResult = Some (Inr new_pipe)\<rparr> else c)"
| "connect_exec (ConnectError e) c =
     (if tempListeners c
      then \<lparr>tempListeners = False, connectTimer = False, candidateDestroyed = candidateDestroyed c,
            connectResult = Some (Inl e)\<rparr> else c)"
| "connect_exec ConnectTimer c =
     (if connectTimer c
      then \<lparr>tempListeners = False, connectTimer = False, candidateDestroyed = True,
            connectResult = Some (Inl (ManagementRequestError (js ''connect_timeout'')
              (js ''management pipe connect timed out'')))\<rparr> else c)"

section \<open>Framing does not depend on how the bytes arrive\<close>

lemma settle_response_buffer [simp]:
  "settle_response r (p\<lparr>buffer := x\<rparr>) = (settle_response r p)\<lparr>buffer := x\<rparr>"
  by (cases p) (simp add: settle_response_def Let_def split: option.split)

lemma handle_line_buffer:
  "handle_line parse line (p\<lparr>buffer := x\<rparr>) =
     (fst (handle_line parse line p), (snd (handle_line parse line p))\<lparr>buffer := x\<rparr>)"
  by (cases p) (auto simp: handle_line_def destroy_def settle_response_def Let_def split: option.split)

lemma handle_line_stop: "handle_line parse line p = (False, q) \<Longrightarrow> socketGone q"
  by (auto simp: handle_line_def destroy_def split: if_splits option.splits)

lemma handle_line_gone: "handle_line parse line p = (b, q) \<Longrightarrow> socketGone p \<Longrightarrow> socketGone q"
  by (auto simp: handle_line_def destroy_def settle_response_def Let_def split: if_splits option.splits)

lemma receive_loop_buffer:
  "receive_loop parse buf (p\<lparr>buffer := x\<rparr>) = receive_loop parse buf p"
proof (induction parse buf p arbitrary: x rule: receive_loop.induct)
  case (1 parse buf p)
  let ?line = "takeWhile (\<lambda>b. b \<noteq> 10) buf" and ?rest = "drop (Suc (length (takeWhile (\<lambda>b. b \<noteq> 10) buf))) buf"
  show ?case
  proof (cases "10 \<in> set buf")
    case False
    then show ?thesis by (simp add: receive_loop.simps [of _ buf])
  next
    case True
    obtain b q where h: "handle_line parse ?line p = (b, q)" by force
    show ?thesis
    proof (cases b)
      case True
      with "1.IH" [OF _ refl refl] \<open>10 \<in> set buf\<close> h show ?thesis
        by (simp add: receive_loop.simps [of _ buf] handle_line_buffer)
    next
      case False
      with \<open>10 \<in> set buf\<close> h show ?thesis
        by (simp add: receive_loop.simps [of _ buf] handle_line_buffer)
    qed
  qed
qed

lemma receive_loop_append:
  "\<not> socketGone (receive_loop parse buf p) \<Longrightarrow>
   receive_loop parse (buf @ extra) p = receive parse extra (receive_loop parse buf p)"
proof (induction parse buf p rule: receive_loop.induct)
  case (1 parse buf p)
  let ?line = "takeWhile (\<lambda>b. b \<noteq> 10) buf" and ?rest = "drop (Suc (length (takeWhile (\<lambda>b. b \<noteq> 10) buf))) buf"
  show ?case
  proof (cases "10 \<in> set buf")
    case False
    then have "receive_loop parse buf p = p\<lparr>buffer := buf\<rparr>"
      using "1.prems" by (auto simp: receive_loop.simps [of _ buf] destroy_def Let_def split: if_splits)
    then show ?thesis by (simp add: receive_def receive_loop_buffer)
  next
    case True
    have line: "takeWhile (\<lambda>b. b \<noteq> 10) (buf @ extra) = ?line" using True by (simp add: takeWhile_append1)
    have "length ?line < length buf" using True by (induction buf) auto
    then have rest: "drop (Suc (length ?line)) (buf @ extra) = ?rest @ extra" by simp
    obtain b q where h: "handle_line parse ?line p = (b, q)" by force
    show ?thesis
    proof (cases b)
      case False
      with h have "socketGone q" using handle_line_stop by simp
      with "1.prems" True h False show ?thesis by (simp add: receive_loop.simps [of _ buf])
    next
      case b: True
      have loop: "receive_loop parse buf p = receive_loop parse ?rest q"
        using True h b by (simp add: receive_loop.simps [of _ buf])
      have "receive_loop parse (buf @ extra) p = receive_loop parse (?rest @ extra) q"
        using True h b line rest by (simp add: receive_loop.simps [of _ "buf @ extra"])
      moreover have "receive_loop parse (?rest @ extra) q = receive parse extra (receive_loop parse ?rest q)"
        by (rule "1.IH" [OF _ refl refl h [symmetric] refl b]) (use True "1.prems" loop in simp_all)
      ultimately show ?thesis by (simp add: loop)
    qed
  qed
qed

lemma receive_append:
  "\<not> socketGone (receive parse a p) \<Longrightarrow> receive parse (a @ b) p = receive parse b (receive parse a p)"
  using receive_loop_append [of parse "buffer p @ a" p b] by (simp add: receive_def)

lemma gone_run:
  "socketGone p \<Longrightarrow> socketGone (fold (pipe_exec encode parse) (map Data chunks) p)"
  by (induction chunks arbitrary: p) simp_all

text \<open>C37: framing does not depend on how the bytes arrive. However the service's byte stream is cut
  into chunks, and as long as the connection is not torn down for a protocol error, the viewer ends
  in the same state as if all of it had arrived at once: the same requests settled with the same
  values, the same commands in the same order, the same bytes left in the buffer.\<close>

theorem framing_chunk_independent:
  assumes "\<not> socketGone p" and "chunks \<noteq> []"
    and "\<not> socketGone (pipe_run encode parse (map Data chunks) p)"
  shows "pipe_run encode parse (map Data chunks) p = pipe_run encode parse [Data (concat chunks)] p"
  using assms(2,1,3) unfolding pipe_run_def
proof (induction chunks arbitrary: p rule: list_nonempty_induct)
  case (cons a rest)
  let ?q = "receive parse a p"
  have q: "\<not> socketGone ?q" using cons.prems gone_run [of ?q encode parse rest] by auto
  then have "fold (pipe_exec encode parse) (map Data rest) ?q = fold (pipe_exec encode parse) [Data (concat rest)] ?q"
    using cons.IH [OF q] cons.prems by simp
  with cons.prems(1) q show ?case by (simp add: receive_append)
qed simp

definition demo_parse :: "byte list \<Rightarrow> jsval option" where
  "demo_parse line = (case line of
     [x, y] \<Rightarrow> Some (JObject [(js ''version'', JNumber (Num 2)), (js ''requestId'', JString [ucast x]),
                              (js ''ok'', JBool (y = 1)), (js ''payload'', JString [ucast y])])
   | _ \<Rightarrow> None)"

definition demo_encode :: "jsval \<Rightarrow> byte list" where
  "demo_encode v = [1]"

lemma framing_chunk_independent_witness:
  "pipe_run demo_encode demo_parse (map Data [[65], [1, 10, 66], [2, 10, 67]]) new_pipe
     = pipe_run demo_encode demo_parse [Data (concat [[65], [1, 10, 66], [2, 10, 67]])] new_pipe"
proof -
  have "\<not> socketGone (pipe_run demo_encode demo_parse (map Data [[65], [1, 10, 66], [2, 10, 67]]) new_pipe)"
    by (simp add: pipe_run_def receive_def receive_loop.simps new_pipe_def handle_line_def demo_parse_def
        isEventEnvelope_def isResponse_def settle_response_def MANAGEMENT_PROTOCOL_VERSION_def
        MAX_MANAGEMENT_MESSAGE_BYTES_def Let_def)
  then show ?thesis by (intro framing_chunk_independent) (simp_all add: new_pipe_def)
qed

section \<open>Every request is settled exactly once\<close>

text \<open>What the callers are owed: each issued request is either still pending or settled, once.\<close>

definition accounted :: "pipe \<Rightarrow> bool" where
  "accounted p \<longleftrightarrow> distinct (map_keys (pendingRequests p) @ map fst (outcomes p))
     \<and> set (map_keys (pendingRequests p) @ map fst (outcomes p)) = set (issuedRequests p)
     \<and> (pClosed p \<longrightarrow> pendingRequests p = [])
     \<and> length (disconnects p) \<le> (if pClosed p then 1 else 0)"

lemma map_keys_Nil [simp]: "map_keys [] = []"
  by (simp add: map_keys_def)

lemma map_keys_set_fresh: "i \<notin> set (map_keys m) \<Longrightarrow> map_keys (map_set i v m) = map_keys m @ [i]"
  by (induction i v m rule: map_set.induct) (auto simp: map_keys_def)

lemma set_map_keys_delete [simp]: "set (map_keys (map_delete i m)) = set (map_keys m) - {i}"
  by (auto simp: map_keys_def map_delete_def)

lemma distinct_map_keys_delete: "distinct (map_keys m) \<Longrightarrow> distinct (map_keys (map_delete i m))"
  unfolding map_keys_def map_delete_def by (induction m) auto

lemma accounted_cong:
  "pendingRequests q = pendingRequests p \<Longrightarrow> outcomes q = outcomes p \<Longrightarrow> issuedRequests q = issuedRequests p \<Longrightarrow>
   pClosed q = pClosed p \<Longrightarrow> disconnects q = disconnects p \<Longrightarrow> accounted q = accounted p"
  by (simp add: accounted_def)

lemma accounted_request:
  assumes "accounted p" and "i \<notin> set (issuedRequests p)"
  shows "accounted (request encode i kind payload p)"
proof -
  have "i \<notin> set (map_keys (pendingRequests p))" "i \<notin> set (map fst (outcomes p))"
    using assms by (auto simp: accounted_def)
  with assms show ?thesis
    by (auto simp: accounted_def request_def Let_def map_keys_set_fresh)
qed

lemma accounted_fail: "accounted p \<Longrightarrow> accounted (pipe_fail e p)"
  by (auto simp: accounted_def pipe_fail_def rejectPending_def comp_def image_Un image_image Let_def)

lemma accounted_terminate: "accounted p \<Longrightarrow> accounted (terminate e p)"
  using accounted_fail [of p e] accounted_cong [of "(pipe_fail e p)\<lparr>socketGone := True\<rparr>" "pipe_fail e p"]
  by (simp add: terminate_def)

lemma accounted_close: "accounted p \<Longrightarrow> accounted (pipe_close p)"
  by (auto simp: accounted_def pipe_close_def rejectPending_def comp_def image_Un image_image Let_def)

lemma accounted_settle:
  assumes "accounted p"
  shows "accounted (settle_response r p)"
proof (cases "map_of (pendingRequests p) (string_of (jget r (js ''requestId'')))")
  case (Some u)
  let ?i = "string_of (jget r (js ''requestId''))"
  have "?i \<in> set (map_keys (pendingRequests p))"
    using Some unfolding map_keys_def by (metis map_of_eq_None_iff option.discI set_map)
  moreover have "pendingRequests p \<noteq> []" using Some by auto
  ultimately show ?thesis
    using assms Some distinct_map_keys_delete [of "pendingRequests p" ?i]
    by (auto simp: accounted_def settle_response_def Let_def)
qed (use assms in \<open>simp add: settle_response_def\<close>)

lemma accounted_line: "handle_line parse line p = (b, q) \<Longrightarrow> accounted p \<Longrightarrow> accounted q"
proof -
  assume h: "handle_line parse line p = (b, q)" and acc: "accounted p"
  have "q = p\<lparr>socketGone := True\<rparr> \<or> (\<exists>cs. q = p\<lparr>commands := cs\<rparr>) \<or> (\<exists>r. q = settle_response r p)"
    using h by (auto simp: handle_line_def destroy_def split: if_splits option.splits)
  then show ?thesis
    using acc accounted_settle accounted_cong [of "p\<lparr>socketGone := True\<rparr>" p]
      accounted_cong [of "p\<lparr>commands := cs\<rparr>" p for cs] by auto
qed

lemma accounted_loop: "accounted p \<Longrightarrow> accounted (receive_loop parse buf p)"
proof (induction parse buf p rule: receive_loop.induct)
  case (1 parse buf p)
  let ?line = "takeWhile (\<lambda>b. b \<noteq> 10) buf"
  have buf: "accounted (q\<lparr>buffer := x\<rparr>) = accounted q" for q x by (rule accounted_cong) simp_all
  have gone: "accounted (q\<lparr>socketGone := True\<rparr>) = accounted q" for q by (rule accounted_cong) simp_all
  show ?case
  proof (cases "10 \<in> set buf")
    case False
    with "1.prems" buf gone show ?thesis by (simp add: receive_loop.simps [of _ buf] destroy_def Let_def)
  next
    case True
    obtain b q where h: "handle_line parse ?line p = (b, q)" by force
    note acc = accounted_line [OF h "1.prems"]
    show ?thesis
    proof (cases b)
      case b: True
      have "accounted (receive_loop parse (drop (Suc (length ?line)) buf) q)"
        by (rule "1.IH" [OF _ refl refl h [symmetric] refl b acc]) (use True in simp)
      with True h b show ?thesis by (simp add: receive_loop.simps [of _ buf])
    next
      case False
      with True h acc buf show ?thesis by (simp add: receive_loop.simps [of _ buf])
    qed
  qed
qed

fun request_ids :: "pipe_input list \<Rightarrow> jsstring list" where
  "request_ids [] = []"
| "request_ids (Request i kind payload # ins) = i # request_ids ins"
| "request_ids (_ # ins) = request_ids ins"

lemma issued_loop: "issuedRequests (receive_loop parse buf p) = issuedRequests p"
proof (induction parse buf p rule: receive_loop.induct)
  case (1 parse buf p)
  let ?line = "takeWhile (\<lambda>b. b \<noteq> 10) buf"
  obtain b q where h: "handle_line parse ?line p = (b, q)" by force
  have q: "issuedRequests q = issuedRequests p"
    using h by (auto simp: handle_line_def destroy_def settle_response_def Let_def split: if_splits option.splits)
  show ?case
  proof (cases "10 \<in> set buf \<and> b")
    case True
    with "1.IH" [OF _ refl refl h [symmetric] refl] q h show ?thesis by (simp add: receive_loop.simps [of _ buf])
  next
    case False
    with q h show ?thesis by (auto simp: receive_loop.simps [of _ buf] destroy_def Let_def)
  qed
qed

lemma issued_exec:
  "issuedRequests (pipe_exec encode parse ev p) = issuedRequests p @ request_ids [ev]"
  by (cases ev) (simp_all add: request_def receive_def issued_loop terminate_def pipe_fail_def pipe_close_def
      rejectPending_def Let_def)

lemma accounted_exec:
  assumes "accounted p" and "set (request_ids [ev]) \<inter> set (issuedRequests p) = {}"
  shows "accounted (pipe_exec encode parse ev p)"
proof (cases ev)
  case (Request i kind payload)
  with assms accounted_request show ?thesis by simp
next
  case (SocketFailed e)
  have "accounted (p\<lparr>socketGone := True\<rparr>)" using assms(1) accounted_cong [of "p\<lparr>socketGone := True\<rparr>" p] by simp
  with SocketFailed accounted_fail show ?thesis by simp
next
  case SocketClosed
  have "accounted (p\<lparr>socketGone := True\<rparr>)" using assms(1) accounted_cong [of "p\<lparr>socketGone := True\<rparr>" p] by simp
  with SocketClosed accounted_fail show ?thesis by simp
qed (use assms(1) in \<open>simp_all add: receive_def accounted_loop accounted_terminate accounted_close\<close>)

lemma request_ids_Cons: "request_ids (ev # ins) = request_ids [ev] @ request_ids ins"
  by (cases ev) simp_all

lemma accounted_run:
  assumes "accounted p" and "distinct (request_ids ins)" and "set (request_ids ins) \<inter> set (issuedRequests p) = {}"
  shows "accounted (pipe_run encode parse ins p)
    \<and> issuedRequests (pipe_run encode parse ins p) = issuedRequests p @ request_ids ins"
  using assms unfolding pipe_run_def
proof (induction ins arbitrary: p)
  case (Cons ev ins)
  let ?q = "pipe_exec encode parse ev p"
  have "accounted ?q" by (rule accounted_exec) (use Cons.prems request_ids_Cons [of ev ins] in auto)
  moreover have "set (request_ids ins) \<inter> set (issuedRequests ?q) = {}" "distinct (request_ids ins)"
    using Cons.prems request_ids_Cons [of ev ins] by (auto simp: issued_exec)
  ultimately have "accounted (fold (pipe_exec encode parse) ins ?q)
      \<and> issuedRequests (fold (pipe_exec encode parse) ins ?q) = issuedRequests ?q @ request_ids ins"
    by (intro Cons.IH)
  then show ?case using request_ids_Cons [of ev ins] by (simp add: issued_exec)
qed simp

text \<open>C36: no caller of the management pipe is left hanging, and none is answered twice. With fresh
  request identifiers, every request is at any time either pending or settled, exactly once; when the
  connection has ended, for whatever reason, nothing is pending any more, so every request was
  settled; and the disconnect handlers are told at most once.\<close>

theorem requests_settled_once:
  assumes "distinct (request_ids ins)" and "p = pipe_run encode parse ins new_pipe"
  shows "distinct (map fst (outcomes p))
    \<and> set (map_keys (pendingRequests p)) = set (request_ids ins) - set (map fst (outcomes p))
    \<and> (pClosed p \<longrightarrow> set (map fst (outcomes p)) = set (request_ids ins))
    \<and> length (disconnects p) \<le> 1"
proof -
  have "accounted new_pipe" by (simp add: accounted_def new_pipe_def map_keys_def)
  from accounted_run [OF this assms(1)] have acc: "accounted p" and issued: "issuedRequests p = request_ids ins"
    by (simp_all add: assms(2) new_pipe_def)
  have "distinct (map_keys (pendingRequests p) @ map fst (outcomes p))"
    and all: "set (map_keys (pendingRequests p) @ map fst (outcomes p)) = set (request_ids ins)"
    and closed: "pClosed p \<longrightarrow> pendingRequests p = []"
    and "length (disconnects p) \<le> (if pClosed p then 1 else 0)"
    using acc unfolding accounted_def issued by auto
  moreover from this(1) have "set (map_keys (pendingRequests p)) = set (request_ids ins) - set (map fst (outcomes p))"
    unfolding all [symmetric] by auto
  moreover from all closed have "pClosed p \<longrightarrow> set (map fst (outcomes p)) = set (request_ids ins)" by auto
  ultimately show ?thesis by (auto split: if_splits)
qed

lemma requests_settled_once_witness:
  "let p = pipe_run demo_encode demo_parse
         [Request [65] (js ''get_status'') None, Data [65, 1, 10], Request [66] (js ''get_status'') None, Timeout [66]] new_pipe
   in set (map fst (outcomes p)) = {[65], [66]}"
proof -
  let ?ins = "[Request [65] (js ''get_status'') None, Data [65, 1, 10], Request [66] (js ''get_status'') None, Timeout [66]]"
  have d: "distinct (request_ids ?ins)" by simp
  have "pClosed (pipe_run demo_encode demo_parse ?ins new_pipe)"
    by (simp add: pipe_run_def request_def demo_encode_def receive_def receive_loop.simps new_pipe_def handle_line_def demo_parse_def
        isEventEnvelope_def isResponse_def settle_response_def MANAGEMENT_PROTOCOL_VERSION_def
        MAX_MANAGEMENT_MESSAGE_BYTES_def Let_def terminate_def pipe_fail_def map_keys_def rejectPending_def)
  with requests_settled_once [OF d refl, of demo_encode demo_parse] show ?thesis
    by (simp add: Let_def insert_commute)
qed

section \<open>Only safe commands are delivered\<close>

fun safe_command :: "viewer_command \<Rightarrow> bool" where
  "safe_command (ReloadLive key) = safeOperationKey (JString key)"
| "safe_command (RestartViewer key) = safeOperationKey (JString key)"
| "safe_command (ResubscribeStream name key) =
     (safeOperationKey (JString key) \<and> safeStreamName (JString name))"

lemma string_of_safe:
  "safeOperationKey v \<Longrightarrow> v = JString (string_of v)" "safeStreamName v \<Longrightarrow> v = JString (string_of v)"
  by (cases v; simp add: safeOperationKey_def safeStreamName_def)+

lemma event_command_safe: "viewerCommandFromEvent event = Some c \<Longrightarrow> safe_command c"
  using string_of_safe by (auto simp: viewerCommandFromEvent_def Let_def split: if_splits)

definition commands_safe :: "pipe \<Rightarrow> bool" where
  "commands_safe p \<longleftrightarrow> (\<forall>c \<in> set (commands p). safe_command c)"

lemma commands_safe_line: "handle_line parse line p = (b, q) \<Longrightarrow> commands_safe p \<Longrightarrow> commands_safe q"
  by (auto simp: handle_line_def destroy_def settle_response_def commands_safe_def Let_def event_command_safe
      split: if_splits option.splits)

lemma commands_safe_loop: "commands_safe p \<Longrightarrow> commands_safe (receive_loop parse buf p)"
proof (induction parse buf p rule: receive_loop.induct)
  case (1 parse buf p)
  let ?line = "takeWhile (\<lambda>b. b \<noteq> 10) buf"
  obtain b q where h: "handle_line parse ?line p = (b, q)" by force
  note safe = commands_safe_line [OF h "1.prems"]
  show ?case
  proof (cases "10 \<in> set buf \<and> b")
    case True
    with "1.IH" [OF _ refl refl h [symmetric] refl] safe h show ?thesis by (simp add: receive_loop.simps [of _ buf])
  next
    case False
    with safe h "1.prems" show ?thesis
      by (auto simp: receive_loop.simps [of _ buf] destroy_def commands_safe_def Let_def)
  qed
qed

text \<open>Whatever bytes arrive on the pipe, every command handed to the viewer carries a safe
  operation key, and a stream name in a command is trimmed, at most 128 characters long, not URL-like and free of
  control characters.\<close>

theorem delivered_commands_safe:
  "list_all safe_command (commands (pipe_run encode parse ins new_pipe))"
proof -
  have step: "commands_safe (pipe_exec encode parse ev p)" if "commands_safe p" for ev p
    using that by (cases ev) (auto simp: request_def receive_def commands_safe_loop terminate_def pipe_fail_def pipe_close_def
        rejectPending_def commands_safe_def Let_def dest: commands_safe_loop [unfolded commands_safe_def])
  have "commands_safe (fold (pipe_exec encode parse) ins p)" if "commands_safe p" for p
    using that by (induction ins arbitrary: p) (simp_all add: step)
  moreover have "commands_safe new_pipe" by (simp add: commands_safe_def new_pipe_def)
  ultimately show ?thesis unfolding pipe_run_def commands_safe_def list_all_iff by blast
qed

end
