(* ===== verification/Bridge.thy ===== *)
theory Bridge
  imports Names "HOL-Library.Monad_Syntax"
begin

text \<open>
  \<open>web/src/components/live/viewerBridge.ts\<close> and \<open>web/src/app/playbackDiagnosticsApi.ts\<close>: what
  the live page tells the native viewer and the server, and what it lets the viewer tell it. The
  sanitisers are functions from an \<open>unknown\<close> object to the cleaned object (an association list in
  insertion order) or \<open>None\<close>; the full-screen observation of a bridge is the record \<open>observation\<close>.
\<close>

type_synonym jsobject = "(jsstring \<times> jsval) list"

section \<open>The recognised values\<close>

definition TRANSPORTS :: "jsstring list" where
  "TRANSPORTS = [js ''webrtc'', js ''mse'']"

definition PHASES :: "jsstring list" where
  "PHASES = [js ''connecting'', js ''retrying'', js ''fallback'', js ''recovering'', js ''playing'', js ''stalled'',
     js ''cooldown'', js ''unsupported'']"

definition ERRORS :: "jsstring list" where
  "ERRORS = [js ''none'', js ''setup_timeout'', js ''media_stall'', js ''socket'', js ''signaling'', js ''media'',
     js ''unsupported'', js ''episode_exhausted'']"

definition DIAGNOSTIC_LEVELS :: "jsstring list" where
  "DIAGNOSTIC_LEVELS = [js ''debug'', js ''info'', js ''warn'', js ''error'']"

definition DIAGNOSTIC_COMPONENTS :: "jsstring list" where
  "DIAGNOSTIC_COMPONENTS = [js ''viewer.main'', js ''viewer.renderer'', js ''viewer.playback'', js ''viewer.control'']"

definition DIAGNOSTIC_EVENT :: "jsstring \<Rightarrow> bool" where "DIAGNOSTIC_EVENT = diagnostic_code 1 63"
definition DIAGNOSTIC_CODE :: "jsstring \<Rightarrow> bool" where "DIAGNOSTIC_CODE = diagnostic_code 0 63"
definition DIAGNOSTIC_CORRELATION :: "jsstring \<Rightarrow> bool" where "DIAGNOSTIC_CORRELATION = ident_pattern 0 127"
definition DIAGNOSTIC_SESSION :: "jsstring \<Rightarrow> bool" where "DIAGNOSTIC_SESSION = ident_pattern 7 127"

definition DIAGNOSTIC_SURFACES :: "jsstring list" where
  "DIAGNOSTIC_SURFACES = [js ''official_viewer'', js ''viewer_browser'', js ''operator_live'', js ''viewer_page'',
     js ''control_room_preview'', js ''camera_profile_preview'', js ''unknown'']"

definition DIAGNOSTIC_CANDIDATE_ROLES :: "jsstring list" where
  "DIAGNOSTIC_CANDIDATE_ROLES = [js ''primary'', js ''fallback'', js ''primary_probe'']"

definition DIAGNOSTIC_TERMINAL_REASONS :: "jsstring list" where
  "DIAGNOSTIC_TERMINAL_REASONS =
    [js ''setup_timeout'', js ''media_stall'', js ''socket'', js ''signaling'', js ''media'', js ''unsupported'',
     js ''retry_budget_exhausted'', js ''primary_restored'', js ''resubscribe_requested'', js ''candidates_changed'',
     js ''transport_changed'', js ''surface_changed'', js ''component_unmounted'']"

text \<open>\<open>typeof v === "string" && p(v)\<close>\<close>

fun string_with :: "(jsstring \<Rightarrow> bool) \<Rightarrow> jsval \<Rightarrow> bool" where
  "string_with P (JString s) = P s" | "string_with P _ = False"

definition bridge_safeStreamName :: "jsval \<Rightarrow> bool" where
  "bridge_safeStreamName v = (case v of
     JString value \<Rightarrow>
       if length value = 0 \<or> length value > 128 then False
       else (let trimmed = js_trim value in
         value = trimmed \<and> length trimmed > 0 \<and> \<not> has_control value \<and> \<not> url_like trimmed
         \<and> \<not> starts_with trimmed (js ''//''))
   | _ \<Rightarrow> False)"

section \<open>Diagnostics for the viewer\<close>

definition copyPatternString :: "jsobject \<Rightarrow> jsval \<Rightarrow> jsstring \<Rightarrow> (jsstring \<Rightarrow> bool) \<Rightarrow> jsobject option" where
  "copyPatternString output input key pattern =
     (let v = jget input key in
      if v = JUndefined then Some output
      else if \<not> string_with pattern v then None
      else Some (map_set key v output))"

definition copyEnumString :: "jsobject \<Rightarrow> jsval \<Rightarrow> jsstring \<Rightarrow> jsstring list \<Rightarrow> jsobject option" where
  "copyEnumString output input key allowed =
     (let v = jget input key in
      if v = JUndefined then Some output
      else if \<not> string_with (\<lambda>s. s \<in> set allowed) v then None
      else Some (map_set key v output))"

definition copyBoundedDiagnosticInteger :: "jsobject \<Rightarrow> jsval \<Rightarrow> jsstring \<Rightarrow> int \<Rightarrow> int \<Rightarrow> jsobject" where
  "copyBoundedDiagnosticInteger output input key minimum maximum =
     (case jget input key of
        JNumber (Num x) \<Rightarrow> map_set key (JNumber (Num (of_int (min maximum (max minimum (trunc_rat x)))))) output
      | _ \<Rightarrow> output)"

definition safeViewerDiagnostic :: "jsval \<Rightarrow> jsobject option" where
  "safeViewerDiagnostic input =
    (if \<not> string_with (\<lambda>s. s \<in> set DIAGNOSTIC_LEVELS) (jget input (js ''level''))
        \<or> \<not> string_with (\<lambda>s. s \<in> set DIAGNOSTIC_COMPONENTS) (jget input (js ''component''))
        \<or> \<not> string_with DIAGNOSTIC_EVENT (jget input (js ''event'')) then None
     else do {
       let d = [(js ''level'', jget input (js ''level'')), (js ''component'', jget input (js ''component'')),
                (js ''event'', jget input (js ''event''))];
       d \<leftarrow> copyPatternString d input (js ''correlationId'') DIAGNOSTIC_CORRELATION;
       d \<leftarrow> copyPatternString d input (js ''sessionId'') DIAGNOSTIC_SESSION;
       d \<leftarrow> copyPatternString d input (js ''documentId'') DIAGNOSTIC_SESSION;
       d \<leftarrow> (let v = jget input (js ''streamName'') in
             if v \<noteq> JUndefined
             then if \<not> bridge_safeStreamName v then None else Some (map_set (js ''streamName'') v d)
             else Some d);
       d \<leftarrow> copyEnumString d input (js ''transport'') TRANSPORTS;
       d \<leftarrow> copyEnumString d input (js ''phase'') PHASES;
       d \<leftarrow> copyEnumString d input (js ''surface'') DIAGNOSTIC_SURFACES;
       d \<leftarrow> copyEnumString d input (js ''candidateRole'') DIAGNOSTIC_CANDIDATE_ROLES;
       d \<leftarrow> copyEnumString d input (js ''terminalReason'') DIAGNOSTIC_TERMINAL_REASONS;
       d \<leftarrow> copyPatternString d input (js ''state'') DIAGNOSTIC_CODE;
       d \<leftarrow> copyPatternString d input (js ''errorCode'') DIAGNOSTIC_CODE;
       let d = copyBoundedDiagnosticInteger d input (js ''attempt'') 0 32;
       let d = copyBoundedDiagnosticInteger d input (js ''attemptGeneration'') 0 1000000;
       let d = copyBoundedDiagnosticInteger d input (js ''resubscribeGeneration'') 0 1000000;
       let d = copyBoundedDiagnosticInteger d input (js ''durationMs'') 0 (30 * 60000);
       let d = copyBoundedDiagnosticInteger d input (js ''attemptElapsedMs'') 0 (30 * 60000);
       let d = copyBoundedDiagnosticInteger d input (js ''retryMs'') 0 (30 * 60000);
       let d = copyBoundedDiagnosticInteger d input (js ''readyState'') 0 4;
       let d = copyBoundedDiagnosticInteger d input (js ''reconnectCount'') 0 100;
       let d = copyBoundedDiagnosticInteger d input (js ''fallbackCount'') 0 100;
       Some (case jget input (js ''usingFallback'') of
               JBool b \<Rightarrow> map_set (js ''usingFallback'') (JBool b) d | _ \<Rightarrow> d)
     })"

section \<open>Telemetry and commands\<close>

definition telemetry_numbers :: "jsstring list" where
  "telemetry_numbers = [js ''lastBinaryAt'', js ''lastProgressAt'', js ''readyState'', js ''stalledForMs'',
     js ''reconnectCount'', js ''fallbackCount'', js ''resubscribeCount'']"

definition copy_telemetry_number :: "jsval \<Rightarrow> jsstring \<Rightarrow> jsobject \<Rightarrow> jsobject" where
  "copy_telemetry_number input key telemetry =
     (case jget input key of
        JNumber (Num x) \<Rightarrow> if x \<ge> 0 then map_set key (JNumber (Num (of_int \<lfloor>x\<rfloor>))) telemetry else telemetry
      | _ \<Rightarrow> telemetry)"

definition safeTelemetry :: "jsval \<Rightarrow> jsobject option" where
  "safeTelemetry input =
    (if \<not> bridge_safeStreamName (jget input (js ''streamName''))
        \<or> \<not> string_with (\<lambda>s. s \<in> set TRANSPORTS) (jget input (js ''transport''))
        \<or> \<not> string_with (\<lambda>s. s \<in> set PHASES) (jget input (js ''phase'')) then None
     else (let t = fold (copy_telemetry_number input) telemetry_numbers
                 [(js ''streamName'', jget input (js ''streamName'')), (js ''transport'', jget input (js ''transport'')),
                  (js ''phase'', jget input (js ''phase''))]
           in Some (if string_with (\<lambda>s. s \<in> set ERRORS) (jget input (js ''errorCategory''))
                    then map_set (js ''errorCategory'') (jget input (js ''errorCategory'')) t else t)))"

definition safeCommand :: "jsval \<Rightarrow> jsstring option" where
  "safeCommand input =
     (if \<not> is_object input then None
      else if jget input (js ''type'') \<noteq> JString (js ''resubscribe_stream'')
              \<or> \<not> bridge_safeStreamName (jget input (js ''streamName'')) then None
      else (case jget input (js ''streamName'') of JString s \<Rightarrow> Some s | _ \<Rightarrow> None))"

text \<open>The callback of \<open>subscribeViewerCommands\<close>: the name handed to the handler, or a refusal.\<close>

definition on_command :: "jsstring list option \<Rightarrow> jsval \<Rightarrow> jsstring option" where
  "on_command registeredStreamNames input =
     (case safeCommand input of
        None \<Rightarrow> None
      | Some name \<Rightarrow>
          (case registeredStreamNames of
             Some names \<Rightarrow> if name \<in> set names then Some name else None
           | None \<Rightarrow> Some name))"

text \<open>
  A bridge as the reports see it: which functions it has and whether they throw. The result is
  what reaches the viewer.
\<close>

record native_bridge =
  hasReportDiagnostic :: bool
  reportThrows :: bool
  hasSetFullscreen :: bool
  hasOnFullscreenChange :: bool

definition reportViewerDiagnostic :: "native_bridge option \<Rightarrow> jsval \<Rightarrow> jsobject option" where
  "reportViewerDiagnostic bridge input =
     (case safeViewerDiagnostic input of
        None \<Rightarrow> None
      | Some d \<Rightarrow> (case bridge of
            None \<Rightarrow> None
          | Some b \<Rightarrow> if \<not> hasReportDiagnostic b then None else if reportThrows b then None else Some d))"

definition reportViewerStream :: "native_bridge option \<Rightarrow> jsval \<Rightarrow> jsobject option" where
  "reportViewerStream bridge input =
     (case (safeTelemetry input, bridge) of
        (Some t, Some b) \<Rightarrow> if reportThrows b then None else Some t
      | _ \<Rightarrow> None)"

definition hasViewerFullscreenBridge :: "native_bridge option \<Rightarrow> bool" where
  "hasViewerFullscreenBridge bridge =
     (case bridge of None \<Rightarrow> False | Some b \<Rightarrow> hasSetFullscreen b \<and> hasOnFullscreenChange b)"

section \<open>Full screen\<close>

text \<open>
  The observation of one bridge with the session storage, the subscriptions (numbered in the order
  they are made) and a log of what each was told.
\<close>

record observation =
  obsValue :: "bool option"
  eventRevision :: nat
  commandGeneration :: nat
  handlers :: "nat list"
  nextHandler :: nat
  told :: "(nat \<times> bool) list"
  storedFullscreen :: "jsstring option"  \<comment> \<open>sessionStorage\<close>

definition bool_string :: "bool \<Rightarrow> jsstring" where
  "bool_string b = (if b then js ''true'' else js ''false'')"

definition fullscreenObservation :: "jsstring option \<Rightarrow> observation" where
  "fullscreenObservation stored =
     \<lparr>obsValue = (if stored = Some (js ''true'') \<or> stored = Some (js ''false'') then Some (stored = Some (js ''true'')) else None),
      eventRevision = 0, commandGeneration = 0, handlers = [], nextHandler = 0, told = [], storedFullscreen = stored\<rparr>"

definition publishFullscreenObservation :: "bool \<Rightarrow> observation \<Rightarrow> observation" where
  "publishFullscreenObservation fullscreen ob =
     (let o1 = ob\<lparr>storedFullscreen := Some (bool_string fullscreen)\<rparr>
      in if obsValue ob = Some fullscreen then o1
         else o1\<lparr>obsValue := Some fullscreen, told := told ob @ map (\<lambda>h. (h, fullscreen)) (handlers ob)\<rparr>)"

definition native_fullscreen :: "jsval \<Rightarrow> observation \<Rightarrow> observation" where
  "native_fullscreen v ob =
     (case v of
        JBool b \<Rightarrow> publishFullscreenObservation b (ob\<lparr>eventRevision := Suc (eventRevision ob)\<rparr>)
      | _ \<Rightarrow> ob)"

text \<open>\<open>requestViewerFullscreen\<close> up to its \<open>await\<close>, and what follows it.\<close>

definition request_fullscreen :: "observation \<Rightarrow> (nat \<times> nat) \<times> observation" where
  "request_fullscreen ob =
     (let o1 = ob\<lparr>commandGeneration := Suc (commandGeneration ob)\<rparr>
      in ((commandGeneration o1, eventRevision o1), o1))"

definition fullscreen_answer :: "nat \<times> nat \<Rightarrow> jsval \<Rightarrow> observation \<Rightarrow> observation" where
  "fullscreen_answer token actual ob =
     (case (token, actual) of
        ((generation, revision), JBool b) \<Rightarrow>
          if generation = commandGeneration ob \<and> revision = eventRevision ob
          then publishFullscreenObservation b ob else ob
      | _ \<Rightarrow> ob)"

text \<open>
  \<open>subscribeViewerFullscreen\<close>: \<open>sync\<close> are the values the bridge reports while it registers the
  callback, \<open>throws\<close> whether it throws after that.
\<close>

definition subscribeViewerFullscreen :: "jsval list \<Rightarrow> bool \<Rightarrow> observation \<Rightarrow> observation" where
  "subscribeViewerFullscreen sync throws ob =
     (let h = nextHandler ob;
          o1 = ob\<lparr>handlers := handlers ob @ [h], nextHandler := Suc h\<rparr>;
          o2 = fold native_fullscreen sync o1
      in if throws then o2\<lparr>handlers := filter (\<lambda>x. x \<noteq> h) (handlers o2)\<rparr>
         else (case obsValue o2 of
                 Some v \<Rightarrow> if h \<notin> fst ` set (told o2) then o2\<lparr>told := told o2 @ [(h, v)]\<rparr> else o2
               | None \<Rightarrow> o2))"

definition unsubscribe_fullscreen :: "nat \<Rightarrow> observation \<Rightarrow> observation" where
  "unsubscribe_fullscreen h ob = ob\<lparr>handlers := filter (\<lambda>x. x \<noteq> h) (handlers ob)\<rparr>"

datatype fullscreen_input =
  NativeEvent jsval
| FullscreenRequest
| FullscreenAnswer "nat \<times> nat" jsval
| Subscribe "jsval list" bool
| Unsubscribe nat

fun fullscreen_exec :: "fullscreen_input \<Rightarrow> observation \<Rightarrow> observation" where
  "fullscreen_exec (NativeEvent v) ob = native_fullscreen v ob"
| "fullscreen_exec FullscreenRequest ob = snd (request_fullscreen ob)"
| "fullscreen_exec (FullscreenAnswer token v) ob = fullscreen_answer token v ob"
| "fullscreen_exec (Subscribe sync throws) ob = subscribeViewerFullscreen sync throws ob"
| "fullscreen_exec (Unsubscribe h) ob = unsubscribe_fullscreen h ob"

section \<open>A sanitiser as a table of fields\<close>

text \<open>What a field of a diagnostic does with the input's value: drop the field, keep a value, or refuse.\<close>

datatype field_action = Skip | Keep jsval | Refuse

fun apply_action :: "jsstring \<Rightarrow> field_action \<Rightarrow> jsobject \<Rightarrow> jsobject option" where
  "apply_action k Skip d = Some d"
| "apply_action k (Keep v) d = Some (map_set k v d)"
| "apply_action k Refuse d = None"

fun run_fields :: "(jsstring \<times> (jsval \<Rightarrow> field_action)) list \<Rightarrow> jsval \<Rightarrow> jsobject \<Rightarrow> jsobject option" where
  "run_fields [] input d = Some d"
| "run_fields ((k, f) # fs) input d = Option.bind (apply_action k (f (jget input k)) d) (run_fields fs input)"

definition accepts :: "(jsval \<Rightarrow> bool) \<Rightarrow> jsval \<Rightarrow> field_action" where
  "accepts P v = (if v = JUndefined then Skip else if P v then Keep v else Refuse)"

definition requires :: "(jsval \<Rightarrow> bool) \<Rightarrow> jsval \<Rightarrow> field_action" where
  "requires P v = (if P v then Keep v else Refuse)"

definition clamps :: "int \<Rightarrow> int \<Rightarrow> jsval \<Rightarrow> field_action" where
  "clamps lo hi v = (case v of JNumber (Num x) \<Rightarrow> Keep (JNumber (Num (of_int (min hi (max lo (trunc_rat x)))))) | _ \<Rightarrow> Skip)"

definition boolean_field :: "jsval \<Rightarrow> field_action" where
  "boolean_field v = (case v of JBool b \<Rightarrow> Keep v | _ \<Rightarrow> Skip)"

abbreviation one_of :: "jsstring list \<Rightarrow> jsval \<Rightarrow> bool" where
  "one_of xs \<equiv> string_with (\<lambda>s. s \<in> set xs)"

definition diagnostic_fields :: "(jsstring \<times> (jsval \<Rightarrow> field_action)) list" where
  "diagnostic_fields =
    [(js ''level'', requires (one_of DIAGNOSTIC_LEVELS)), (js ''component'', requires (one_of DIAGNOSTIC_COMPONENTS)),
     (js ''event'', requires (string_with DIAGNOSTIC_EVENT)),
     (js ''correlationId'', accepts (string_with DIAGNOSTIC_CORRELATION)),
     (js ''sessionId'', accepts (string_with DIAGNOSTIC_SESSION)), (js ''documentId'', accepts (string_with DIAGNOSTIC_SESSION)),
     (js ''streamName'', accepts bridge_safeStreamName), (js ''transport'', accepts (one_of TRANSPORTS)),
     (js ''phase'', accepts (one_of PHASES)), (js ''surface'', accepts (one_of DIAGNOSTIC_SURFACES)),
     (js ''candidateRole'', accepts (one_of DIAGNOSTIC_CANDIDATE_ROLES)),
     (js ''terminalReason'', accepts (one_of DIAGNOSTIC_TERMINAL_REASONS)),
     (js ''state'', accepts (string_with DIAGNOSTIC_CODE)), (js ''errorCode'', accepts (string_with DIAGNOSTIC_CODE)),
     (js ''attempt'', clamps 0 32), (js ''attemptGeneration'', clamps 0 1000000),
     (js ''resubscribeGeneration'', clamps 0 1000000), (js ''durationMs'', clamps 0 (30 * 60000)),
     (js ''attemptElapsedMs'', clamps 0 (30 * 60000)), (js ''retryMs'', clamps 0 (30 * 60000)),
     (js ''readyState'', clamps 0 4), (js ''reconnectCount'', clamps 0 100), (js ''fallbackCount'', clamps 0 100),
     (js ''usingFallback'', boolean_field)]"

lemma copyPatternString_action:
  "copyPatternString d input k P = apply_action k (accepts (string_with P) (jget input k)) d"
  by (simp add: copyPatternString_def accepts_def Let_def)

lemma copyEnumString_action:
  "copyEnumString d input k xs = apply_action k (accepts (one_of xs) (jget input k)) d"
  by (simp add: copyEnumString_def accepts_def Let_def)

lemma streamName_action:
  "(let v = jget input k in
      if v \<noteq> JUndefined then if \<not> bridge_safeStreamName v then None else Some (map_set k v d) else Some d)
    = apply_action k (accepts bridge_safeStreamName (jget input k)) d"
  by (simp add: accepts_def Let_def)

lemma copyBounded_action:
  "Some (copyBoundedDiagnosticInteger d input k lo hi) = apply_action k (clamps lo hi (jget input k)) d"
  by (auto simp: copyBoundedDiagnosticInteger_def clamps_def split: jsval.split jsnum.split)

lemma boolean_action:
  "Some (case jget input k of JBool b \<Rightarrow> map_set k (JBool b) d | _ \<Rightarrow> d) = apply_action k (boolean_field (jget input k)) d"
  by (auto simp: boolean_field_def split: jsval.split)

lemma bind_bounded:
  "f (copyBoundedDiagnosticInteger d input k lo hi) = Option.bind (apply_action k (clamps lo hi (jget input k)) d) f"
  unfolding copyBounded_action [symmetric] by simp

lemma run_fields_eta:
  "run_fields [] input = Some"
  "run_fields ((k, f) # fs) input = (\<lambda>d. Option.bind (apply_action k (f (jget input k)) d) (run_fields fs input))"
  by (simp_all add: fun_eq_iff)

lemma safeViewerDiagnostic_fields: "safeViewerDiagnostic input = run_fields diagnostic_fields input []"
  unfolding safeViewerDiagnostic_def Let_def copyPatternString_action copyEnumString_action
    boolean_action streamName_action [unfolded Let_def]
  unfolding bind_bounded [where f = "\<lambda>d. apply_action k a d" for k a]
  by (simp add: diagnostic_fields_def requires_def bind_bounded run_fields_eta del: run_fields.simps)

section \<open>Sanitising is a projection\<close>

text \<open>What the table keeps of an input, in the order of the fields.\<close>

fun kept :: "(jsstring \<times> (jsval \<Rightarrow> field_action)) list \<Rightarrow> jsval \<Rightarrow> jsobject" where
  "kept [] input = []"
| "kept ((k, f) # fs) input = (case f (jget input k) of Keep v \<Rightarrow> (k, v) # kept fs input | _ \<Rightarrow> kept fs input)"

definition refuses :: "(jsstring \<times> (jsval \<Rightarrow> field_action)) list \<Rightarrow> jsval \<Rightarrow> bool" where
  "refuses fs input \<longleftrightarrow> list_ex (\<lambda>(k, f). f (jget input k) = Refuse) fs"

lemma map_set_fresh: "k \<notin> fst ` set d \<Longrightarrow> map_set k v d = d @ [(k, v)]"
  by (induction k v d rule: map_set.induct) auto

lemma run_fields_kept:
  "distinct (map fst fs) \<Longrightarrow> fst ` set d \<inter> set (map fst fs) = {} \<Longrightarrow>
   run_fields fs input d = (if refuses fs input then None else Some (d @ kept fs input))"
proof (induction fs arbitrary: d)
  case (Cons f fs)
  obtain k act where f: "f = (k, act)" by force
  show ?case
  proof (cases "act (jget input k)")
    case Skip
    with f Cons.prems show ?thesis by (simp add: Cons.IH refuses_def)
  next
    case (Keep v)
    have "k \<notin> fst ` set d" using Cons.prems f by auto
    then have "map_set k v d = d @ [(k, v)]" by (rule map_set_fresh)
    moreover have "fst ` set (d @ [(k, v)]) \<inter> set (map fst fs) = {}" using Cons.prems f by auto
    ultimately show ?thesis using Cons.prems Cons.IH f Keep by (simp add: refuses_def)
  next
    case Refuse
    with f show ?thesis by (simp add: refuses_def)
  qed
qed (simp add: refuses_def)

lemma kept_keys: "fst ` set (kept fs input) \<subseteq> set (map fst fs)"
proof (induction fs)
  case (Cons g fs)
  obtain k f where g: "g = (k, f)" by force
  have "fst ` set (kept (g # fs) input) \<subseteq> insert k (fst ` set (kept fs input))"
    by (auto simp: g split: field_action.split)
  also have "\<dots> \<subseteq> insert k (set (map fst fs))" using Cons.IH by auto
  finally show ?case by (simp add: g)
qed simp

lemma map_of_kept:
  "distinct (map fst fs) \<Longrightarrow> (k, f) \<in> set fs \<Longrightarrow>
   map_of (kept fs input) k = (case f (jget input k) of Keep v \<Rightarrow> Some v | _ \<Rightarrow> None)"
proof (induction fs)
  case (Cons g fs)
  obtain k' f' where g: "g = (k', f')" by force
  show ?case
  proof (cases "k' = k")
    case True
    with g Cons.prems have f': "f' = f" and "k \<notin> set (map fst fs)" by force+
    with kept_keys [of fs input] have "k \<notin> fst ` set (kept fs input)" by auto
    then have "map_of (kept fs input) k = None" by (simp add: map_of_eq_None_iff)
    with g f' True show ?thesis by (auto split: field_action.split)
  next
    case False
    with Cons g have "map_of (kept fs input) k = (case f (jget input k) of Keep v \<Rightarrow> Some v | _ \<Rightarrow> None)" by auto
    with g False show ?thesis by (auto split: field_action.split)
  qed
qed simp

definition stable_field :: "(jsval \<Rightarrow> field_action) \<Rightarrow> bool" where
  "stable_field f \<longleftrightarrow> (\<forall>v w. f v = Keep w \<longrightarrow> f w = Keep w) \<and> (\<forall>v. f v = Skip \<longrightarrow> f JUndefined = Skip)"

lemma stable_accepts: "stable_field (accepts P)"
  by (auto simp: stable_field_def accepts_def)

lemma stable_requires: "stable_field (requires P)"
  by (auto simp: stable_field_def requires_def)

lemma trunc_rat_of_int [simp]: "trunc_rat (of_int i) = i"
  by (simp add: trunc_rat_def)

lemma stable_clamps: "lo \<le> hi \<Longrightarrow> stable_field (clamps lo hi)"
  by (auto simp: stable_field_def clamps_def split: jsval.splits jsnum.splits)

lemma stable_boolean: "stable_field boolean_field"
  by (auto simp: stable_field_def boolean_field_def split: jsval.splits)

lemmas stable_fields = stable_accepts stable_requires stable_clamps stable_boolean

lemma kept_idem:
  assumes d: "distinct (map fst fs)" and st: "\<forall>(k, f) \<in> set fs. stable_field f" and r: "\<not> refuses fs input"
  shows "\<not> refuses fs (JObject (kept fs input)) \<and> kept fs (JObject (kept fs input)) = kept fs input"
proof -
  have same: "f (jget (JObject (kept fs input)) k) = f (jget input k)" if kf: "(k, f) \<in> set fs" for k f
  proof -
    have s: "stable_field f" using st kf by auto
    have nr: "f (jget input k) \<noteq> Refuse" using r kf by (auto simp: refuses_def list_ex_iff)
    show ?thesis
    proof (cases "f (jget input k)")
      case Skip
      with map_of_kept [OF d kf, of input] s show ?thesis by (auto simp: stable_field_def)
    next
      case (Keep v)
      with map_of_kept [OF d kf, of input] s show ?thesis by (auto simp: stable_field_def)
    qed (use nr in simp)
  qed
  have "kept gs (JObject (kept fs input)) = kept gs input" if "set gs \<subseteq> set fs" for gs
    using that
  proof (induction gs)
    case (Cons g gs)
    obtain k f where g: "g = (k, f)" by force
    with Cons.prems have "f (jget (JObject (kept fs input)) k) = f (jget input k)" by (intro same) simp
    with g Cons show ?case by (simp del: jget.simps split: field_action.split)
  qed simp
  moreover have "refuses fs (JObject (kept fs input)) = refuses fs input"
    unfolding refuses_def list_ex_iff by (rule bex_cong) (auto simp del: jget.simps simp: same)
  ultimately show ?thesis using r by simp
qed

lemma diagnostic_fields_distinct: "distinct (map fst diagnostic_fields)"
  by (simp add: diagnostic_fields_def)

lemma safeViewerDiagnostic_kept:
  "safeViewerDiagnostic input =
     (if refuses diagnostic_fields input then None else Some (kept diagnostic_fields input))"
  using run_fields_kept [OF diagnostic_fields_distinct, of "[]" input] by (simp add: safeViewerDiagnostic_fields)

text \<open>What a page's diagnostic becomes before it is handed to the viewer. The sanitised object has
  recognised keys only, and sanitising it again changes nothing: every value in it is one the
  sanitiser accepts, and every integer is already within its bounds.\<close>

theorem diagnostic_sanitised:
  assumes "safeViewerDiagnostic input = Some d"
  shows "safeViewerDiagnostic (JObject d) = Some d \<and> set (map fst d) \<subseteq> set (map fst diagnostic_fields)"
proof -
  from assms have r: "\<not> refuses diagnostic_fields input" and d: "d = kept diagnostic_fields input"
    by (auto simp: safeViewerDiagnostic_kept split: if_splits)
  have "\<forall>(k, f) \<in> set diagnostic_fields. stable_field f"
    by (simp add: diagnostic_fields_def stable_fields)
  from kept_idem [OF diagnostic_fields_distinct this r] show ?thesis
    using kept_keys [of diagnostic_fields input] by (simp add: safeViewerDiagnostic_kept d)
qed

definition demo_diagnostic :: jsval where
  "demo_diagnostic = JObject
    [(js ''level'', JString (js ''warn'')), (js ''component'', JString (js ''viewer.playback'')),
     (js ''event'', JString [0x61, 0x62]), (js ''sessionId'', JString [0x61, 0x62, 0x63, 0x64, 0x65, 0x66, 0x67, 0x68]),
     (js ''rawUrl'', JString (js ''rtsp://operator@camera/live'')), (js ''attempt'', JNumber (Num 99))]"

lemma diagnostic_sanitised_witness:
  "safeViewerDiagnostic (JObject (kept diagnostic_fields demo_diagnostic)) = Some (kept diagnostic_fields demo_diagnostic)"
proof -
  have "safeViewerDiagnostic demo_diagnostic = Some (kept diagnostic_fields demo_diagnostic)"
    unfolding safeViewerDiagnostic_kept
    by (simp add: refuses_def diagnostic_fields_def demo_diagnostic_def requires_def accepts_def clamps_def boolean_field_def
        DIAGNOSTIC_LEVELS_def DIAGNOSTIC_COMPONENTS_def DIAGNOSTIC_EVENT_def DIAGNOSTIC_SESSION_def diagnostic_code_def
        ident_pattern_def is_alnum_def is_key_char_def is_lower_def is_code_char_def)
  from diagnostic_sanitised [OF this] show ?thesis by simp
qed

section \<open>Full screen follows the native window\<close>

definition last_told :: "observation \<Rightarrow> nat \<Rightarrow> bool option" where
  "last_told ob h = map_of (rev (told ob)) h"

text \<open>Every subscriber outside \<open>late\<close>, and every one inside that was told anything, knows the value.\<close>

definition told_current :: "nat set \<Rightarrow> observation \<Rightarrow> bool" where
  "told_current late ob \<longleftrightarrow>
     (\<forall>h \<in> set (handlers ob). \<forall>v. (h \<in> late \<longrightarrow> h \<in> fst ` set (told ob)) \<longrightarrow> obsValue ob = Some v \<longrightarrow> last_told ob h = Some v)"

definition numbered :: "observation \<Rightarrow> bool" where
  "numbered ob \<longleftrightarrow> (\<forall>h \<in> set (handlers ob) \<union> fst ` set (told ob). h < nextHandler ob)"

lemma map_of_told_all: "map_of (rev (map (\<lambda>h. (h, v)) hs)) h = (if h \<in> set hs then Some v else None)"
  by (induction hs rule: rev_induct) auto

lemma last_told_append:
  "map_of (rev (xs @ ys)) h = (case map_of (rev ys) h of None \<Rightarrow> map_of (rev xs) h | Some v \<Rightarrow> Some v)"
  by (simp add: map_add_def)

lemma publish_current: "told_current late ob \<Longrightarrow> told_current late (publishFullscreenObservation b ob)"
  by (auto simp: told_current_def publishFullscreenObservation_def last_told_def last_told_append map_of_told_all Let_def)

lemma publish_numbered: "numbered ob \<Longrightarrow> numbered (publishFullscreenObservation b ob)"
  by (auto simp: numbered_def publishFullscreenObservation_def Let_def)

lemma native_current: "told_current late ob \<Longrightarrow> told_current late (native_fullscreen v ob)"
  using publish_current [of late "ob\<lparr>eventRevision := Suc (eventRevision ob)\<rparr>"]
  by (cases v) (simp_all add: native_fullscreen_def told_current_def last_told_def)

lemma native_numbered: "numbered ob \<Longrightarrow> numbered (native_fullscreen v ob)"
  using publish_numbered [of "ob\<lparr>eventRevision := Suc (eventRevision ob)\<rparr>"]
  by (cases v) (simp_all add: native_fullscreen_def numbered_def)

lemma native_frame:
  "handlers (native_fullscreen v ob) = handlers ob" "nextHandler (native_fullscreen v ob) = nextHandler ob"
  by (cases v; simp add: native_fullscreen_def publishFullscreenObservation_def Let_def)+

lemma fold_native:
  "told_current late ob \<Longrightarrow> numbered ob \<Longrightarrow>
   told_current late (fold native_fullscreen vs ob) \<and> numbered (fold native_fullscreen vs ob)
   \<and> handlers (fold native_fullscreen vs ob) = handlers ob \<and> nextHandler (fold native_fullscreen vs ob) = nextHandler ob"
  by (induction vs arbitrary: ob) (simp_all add: native_current native_numbered native_frame)

lemma subscribe_current:
  assumes "told_current {} ob" and "numbered ob"
  shows "told_current {} (subscribeViewerFullscreen sync throws ob) \<and> numbered (subscribeViewerFullscreen sync throws ob)"
proof -
  let ?h = "nextHandler ob"
  let ?o1 = "ob\<lparr>handlers := handlers ob @ [?h], nextHandler := Suc ?h\<rparr>"
  let ?o2 = "fold native_fullscreen sync ?o1"
  have fresh: "?h \<notin> fst ` set (told ob)" using assms(2) by (auto simp: numbered_def)
  have "told_current {?h} ?o1"
    using assms(1) fresh by (auto simp: told_current_def last_told_def)
  moreover have "numbered ?o1" using assms(2) by (auto simp: numbered_def less_Suc_eq)
  ultimately have o2: "told_current {?h} ?o2" "numbered ?o2" "nextHandler ?o2 = Suc ?h"
    using fold_native [of "{?h}" ?o1 sync] by simp_all
  show ?thesis
  proof (cases throws)
    case True
    then show ?thesis
      using o2 by (auto simp: subscribeViewerFullscreen_def Let_def told_current_def last_told_def numbered_def)
  next
    case False
    then show ?thesis
      using o2 by (auto simp: subscribeViewerFullscreen_def Let_def told_current_def last_told_def last_told_append
          numbered_def split: option.splits)
  qed
qed

lemma exec_current:
  assumes "told_current {} ob" and "numbered ob"
  shows "told_current {} (fullscreen_exec i ob) \<and> numbered (fullscreen_exec i ob)"
proof (cases i)
  case (NativeEvent v)
  with assms show ?thesis by (simp add: native_current native_numbered)
next
  case (FullscreenAnswer token v)
  with assms publish_current publish_numbered show ?thesis
    by (simp add: fullscreen_answer_def split: prod.split jsval.split)
next
  case (Subscribe sync throws)
  with assms show ?thesis by (simp add: subscribe_current)
qed (use assms in \<open>auto simp: request_fullscreen_def unsubscribe_fullscreen_def
    told_current_def last_told_def numbered_def Let_def\<close>)

text \<open>Every subscriber knows the state of the window. Whatever the native side reports, however
  requests and their answers interleave, and whatever is told while a subscription is being made, the last
  value each current subscriber was told is the observed one.\<close>

theorem fullscreen_subscribers_current:
  assumes "ob = fold fullscreen_exec ins (fullscreenObservation stored)" and "h \<in> set (handlers ob)"
    and "obsValue ob = Some v"
  shows "last_told ob h = Some v"
proof -
  have "told_current {} (fold fullscreen_exec ins o') \<and> numbered (fold fullscreen_exec ins o')"
    if "told_current {} o'" "numbered o'" for o'
    using that by (induction ins arbitrary: o') (simp_all add: exec_current)
  moreover have "told_current {} (fullscreenObservation stored)" "numbered (fullscreenObservation stored)"
    by (simp_all add: told_current_def numbered_def fullscreenObservation_def)
  ultimately have "told_current {} ob" using assms(1) by simp
  with assms(2,3) show ?thesis by (simp add: told_current_def)
qed

lemma fullscreen_subscribers_current_witness:
  "last_told (fold fullscreen_exec [Subscribe [] False, NativeEvent (JBool True), Subscribe [JBool True] False]
     (fullscreenObservation (Some (js ''false'')))) 1 = Some True"
  by (rule fullscreen_subscribers_current [OF refl])
    (simp_all add: fullscreenObservation_def subscribeViewerFullscreen_def native_fullscreen_def
      publishFullscreenObservation_def Let_def)

section \<open>Late acknowledgements\<close>

fun supersedes :: "fullscreen_input \<Rightarrow> bool" where
  "supersedes (NativeEvent (JBool b)) = True"
| "supersedes FullscreenRequest = True"
| "supersedes _ = False"

lemma native_revision:
  "eventRevision ob \<le> eventRevision (native_fullscreen v ob)
    \<and> commandGeneration (native_fullscreen v ob) = commandGeneration ob"
  by (cases v) (simp_all add: native_fullscreen_def publishFullscreenObservation_def Let_def)

lemma fold_native_revision:
  "eventRevision ob \<le> eventRevision (fold native_fullscreen vs ob)
    \<and> commandGeneration (fold native_fullscreen vs ob) = commandGeneration ob"
proof (induction vs arbitrary: ob)
  case (Cons v vs)
  from Cons [of "native_fullscreen v ob"] native_revision [of ob v] show ?case by (simp del: fold_simps add: fold_Cons)
qed simp

lemma exec_counters:
  "eventRevision ob \<le> eventRevision (fullscreen_exec i ob) \<and> commandGeneration ob \<le> commandGeneration (fullscreen_exec i ob)
   \<and> (supersedes i \<longrightarrow> eventRevision ob < eventRevision (fullscreen_exec i ob)
                     \<or> commandGeneration ob < commandGeneration (fullscreen_exec i ob))"
proof (cases i)
  case (NativeEvent v)
  then show ?thesis
    by (cases v) (simp_all add: native_fullscreen_def publishFullscreenObservation_def Let_def)
next
  case (FullscreenAnswer token v)
  then show ?thesis
    by (cases v) (auto simp: fullscreen_answer_def publishFullscreenObservation_def Let_def split: prod.split)
next
  case (Subscribe sync throws)
  then show ?thesis
    using fold_native_revision [of "ob\<lparr>handlers := handlers ob @ [nextHandler ob], nextHandler := Suc (nextHandler ob)\<rparr>" sync]
    by (auto simp: subscribeViewerFullscreen_def Let_def split: option.split)
qed (simp_all add: request_fullscreen_def unsubscribe_fullscreen_def Let_def)

lemma run_counters:
  "eventRevision ob \<le> eventRevision (fold fullscreen_exec ins ob)
   \<and> commandGeneration ob \<le> commandGeneration (fold fullscreen_exec ins ob)
   \<and> (list_ex supersedes ins \<longrightarrow> eventRevision ob < eventRevision (fold fullscreen_exec ins ob)
        \<or> commandGeneration ob < commandGeneration (fold fullscreen_exec ins ob))"
proof (induction ins arbitrary: ob)
  case (Cons i ins)
  from Cons.IH [of "fullscreen_exec i ob"] exec_counters [of ob i] show ?case by auto
qed simp

text \<open>The native window wins over late acknowledgements. The answer to a full-screen request changes
  nothing once the window itself has reported a state, or a newer request was made, after it.\<close>

theorem late_acknowledgement_ignored:
  assumes "request_fullscreen ob = (token, ob')" and "list_ex supersedes ins"
  shows "fullscreen_answer token actual (fold fullscreen_exec ins ob') = fold fullscreen_exec ins ob'"
  using assms run_counters [of ob' ins]
  by (cases actual) (auto simp: request_fullscreen_def fullscreen_answer_def Let_def)

lemma late_acknowledgement_ignored_witness:
  "fullscreen_answer (1, 0) (JBool False)
     (fold fullscreen_exec [NativeEvent (JBool True)] (snd (request_fullscreen (fullscreenObservation None))))
   = fold fullscreen_exec [NativeEvent (JBool True)] (snd (request_fullscreen (fullscreenObservation None)))"
  by (rule late_acknowledgement_ignored [of "fullscreenObservation None"])
    (simp_all add: request_fullscreen_def fullscreenObservation_def Let_def)

end
