(* ===== verification/Diagnostics.thy ===== *)
theory Diagnostics
  imports Bridge
begin

text \<open>
  \<open>web/src/app/playbackDiagnosticsApi.ts\<close>: the playback events of the live page. An event that
  passes \<open>safePlaybackDiagnostic\<close> is posted to the server as it is and handed to the native viewer
  through \<open>reportViewerDiagnostic\<close>, whose own sanitiser is in \<open>Bridge\<close>.
\<close>

definition playbackDiagnosticEvents :: "(jsstring \<times> jsstring) list" where
  "playbackDiagnosticEvents =
    [(js ''socket_open'', js ''debug''), (js ''signaling_answer'', js ''debug''), (js ''first_track'', js ''debug''),
     (js ''media_source_open'', js ''debug''), (js ''mse_ready'', js ''debug''), (js ''first_media'', js ''debug''),
     (js ''primary_probe_started'', js ''debug''), (js ''primary_probe_failed'', js ''debug''),
     (js ''session_closed'', js ''debug''), (js ''attempt_started'', js ''info''), (js ''playback_started'', js ''info''),
     (js ''primary_probe_succeeded'', js ''info''), (js ''attempt_failed'', js ''warn''),
     (js ''episode_exhausted'', js ''error''), (js ''unsupported'', js ''error'')]"

definition playback_transports :: "jsstring list" where
  "playback_transports = [js ''webrtc'', js ''mse'']"

definition playback_phases :: "jsstring list" where
  "playback_phases = [js ''connecting'', js ''retrying'', js ''fallback'', js ''recovering'', js ''playing'', js ''stalled'',
     js ''cooldown'', js ''unsupported'']"

definition errorCategories :: "jsstring list" where
  "errorCategories = [js ''none'', js ''setup_timeout'', js ''media_stall'', js ''socket'', js ''signaling'', js ''media'',
     js ''unsupported'', js ''episode_exhausted'']"

definition playbackSurfaces :: "jsstring list" where
  "playbackSurfaces = [js ''official_viewer'', js ''viewer_browser'', js ''operator_live'', js ''viewer_page'',
     js ''control_room_preview'', js ''camera_profile_preview'', js ''unknown'']"

definition candidateRoles :: "jsstring list" where
  "candidateRoles = [js ''primary'', js ''fallback'', js ''primary_probe'']"

definition terminalReasons :: "jsstring list" where
  "terminalReasons =
    [js ''setup_timeout'', js ''media_stall'', js ''socket'', js ''signaling'', js ''media'', js ''unsupported'',
     js ''retry_budget_exhausted'', js ''primary_restored'', js ''resubscribe_requested'', js ''candidates_changed'',
     js ''transport_changed'', js ''surface_changed'', js ''component_unmounted'']"

definition sessionPattern :: "jsstring \<Rightarrow> bool" where "sessionPattern = ident_pattern 7 63"

text \<open>The type \<open>SafePlaybackDiagnostic\<close>.\<close>

record safe_event =
  pdSession :: jsstring
  pdDocument :: "jsstring option"
  pdSurface :: "jsstring option"
  pdEvent :: jsstring
  pdStream :: jsstring
  pdRole :: "jsstring option"
  pdTransport :: jsstring
  pdPhase :: jsstring
  pdAttempt :: int
  pdGeneration :: "int option"
  pdResubscribe :: "int option"
  pdElapsed :: int
  pdAttemptElapsed :: int
  pdError :: jsstring
  pdReason :: "jsstring option"
  pdReady :: int
  pdFallback :: bool
  pdReconnects :: int
  pdFallbacks :: int

definition playbackDiagnosticLevel :: "jsstring \<Rightarrow> jsstring option" where
  "playbackDiagnosticLevel event = map_of playbackDiagnosticEvents event"

definition known_event :: "jsstring \<Rightarrow> bool" where
  "known_event event \<longleftrightarrow> playbackDiagnosticLevel event \<noteq> None"

definition boundedString :: "jsval \<Rightarrow> nat \<Rightarrow> jsstring option" where
  "boundedString v maximum =
     (case v of JString s \<Rightarrow> if length s > 0 \<and> length s \<le> maximum then Some s else None | _ \<Rightarrow> None)"

definition boundedInteger :: "jsval \<Rightarrow> int \<Rightarrow> int \<Rightarrow> int \<Rightarrow> int" where
  "boundedInteger v minimum maximum fallback =
     (case v of JNumber (Num x) \<Rightarrow> min maximum (max minimum (trunc_rat x)) | _ \<Rightarrow> fallback)"

definition optionalBoundedInteger :: "jsval \<Rightarrow> int \<Rightarrow> int \<Rightarrow> int option" where
  "optionalBoundedInteger v minimum maximum =
     (case v of JNumber (Num x) \<Rightarrow> Some (min maximum (max minimum (trunc_rat x))) | _ \<Rightarrow> None)"

text \<open>\<open>!s || !P(s)\<close> on a string or null, and \<open>v ?? d\<close>.\<close>

definition fails :: "(jsstring \<Rightarrow> bool) \<Rightarrow> jsstring option \<Rightarrow> bool" where
  "fails P s = (case s of None \<Rightarrow> True | Some t \<Rightarrow> \<not> P t)"

definition nullish_or :: "jsval \<Rightarrow> jsval \<Rightarrow> jsval" where
  "nullish_or v d = (if v = JUndefined \<or> v = JNull then d else v)"

definition streamName_ok :: "jsstring \<Rightarrow> bool" where
  "streamName_ok s \<longleftrightarrow> s = js_trim s \<and> \<not> list_ex (\<lambda>c. c = 13 \<or> c = 10 \<or> c = 9) s"

text \<open>The strings \<open>safePlaybackDiagnostic\<close> reads, each with its bound.\<close>

definition error_input :: "jsval \<Rightarrow> jsval" where
  "error_input input = nullish_or (jget input (js ''errorCategory'')) (JString (js ''none''))"

definition diagnostic_string :: "jsval \<Rightarrow> string \<Rightarrow> nat \<Rightarrow> jsstring option" where
  "diagnostic_string input key n = boundedString (jget input (js key)) n"

definition optional_fails :: "(jsstring \<Rightarrow> bool) \<Rightarrow> jsval \<Rightarrow> string \<Rightarrow> nat \<Rightarrow> bool" where
  "optional_fails P input key n \<longleftrightarrow> jget input (js key) \<noteq> JUndefined \<and> fails P (diagnostic_string input key n)"

definition diagnostic_rejected :: "jsval \<Rightarrow> bool" where
  "diagnostic_rejected input \<longleftrightarrow>
     fails sessionPattern (diagnostic_string input ''sessionId'' 64)
     \<or> optional_fails sessionPattern input ''documentId'' 64
     \<or> fails known_event (diagnostic_string input ''event'' 32)
     \<or> fails streamName_ok (diagnostic_string input ''streamName'' 128)
     \<or> fails (\<lambda>t. t \<in> set playback_transports) (diagnostic_string input ''transport'' 8)
     \<or> fails (\<lambda>t. t \<in> set playback_phases) (diagnostic_string input ''phase'' 16)
     \<or> fails (\<lambda>t. t \<in> set errorCategories) (boundedString (error_input input) 24)
     \<or> optional_fails (\<lambda>t. t \<in> set playbackSurfaces) input ''surface'' 32
     \<or> optional_fails (\<lambda>t. t \<in> set candidateRoles) input ''candidateRole'' 16
     \<or> optional_fails (\<lambda>t. t \<in> set terminalReasons) input ''terminalReason'' 32"

definition diagnostic_event :: "jsval \<Rightarrow> safe_event" where
  "diagnostic_event input =
     \<lparr>pdSession = the (diagnostic_string input ''sessionId'' 64), pdDocument = diagnostic_string input ''documentId'' 64,
      pdSurface = diagnostic_string input ''surface'' 32, pdEvent = the (diagnostic_string input ''event'' 32),
      pdStream = the (diagnostic_string input ''streamName'' 128), pdRole = diagnostic_string input ''candidateRole'' 16,
      pdTransport = the (diagnostic_string input ''transport'' 8), pdPhase = the (diagnostic_string input ''phase'' 16),
      pdAttempt = boundedInteger (jget input (js ''attempt'')) 1 32 1,
      pdGeneration = optionalBoundedInteger (jget input (js ''attemptGeneration'')) 1 1000000,
      pdResubscribe = optionalBoundedInteger (jget input (js ''resubscribeGeneration'')) 0 1000000,
      pdElapsed = boundedInteger (jget input (js ''elapsedMs'')) 0 (30 * 60000) 0,
      pdAttemptElapsed = boundedInteger (jget input (js ''attemptElapsedMs'')) 0 (30 * 60000) 0,
      pdError = the (boundedString (error_input input) 24), pdReason = diagnostic_string input ''terminalReason'' 32,
      pdReady = boundedInteger (jget input (js ''readyState'')) 0 4 0,
      pdFallback = (jget input (js ''usingFallback'') = JBool True),
      pdReconnects = boundedInteger (jget input (js ''reconnectCount'')) 0 100 0,
      pdFallbacks = boundedInteger (jget input (js ''fallbackCount'')) 0 100 0\<rparr>"

definition safePlaybackDiagnostic :: "jsval \<Rightarrow> safe_event option" where
  "safePlaybackDiagnostic input = (if diagnostic_rejected input then None else Some (diagnostic_event input))"

text \<open>The object \<open>reportPlaybackDiagnostic\<close> hands to \<open>reportViewerDiagnostic\<close>.\<close>

definition entry :: "jsstring \<Rightarrow> jsval option \<Rightarrow> jsobject" where
  "entry k v = (case v of None \<Rightarrow> [] | Some w \<Rightarrow> [(k, w)])"

definition viewer_diagnostic :: "safe_event \<Rightarrow> jsobject" where
  "viewer_diagnostic e =
     [(js ''level'', case playbackDiagnosticLevel (pdEvent e) of None \<Rightarrow> JNull | Some l \<Rightarrow> JString l),
      (js ''component'', JString (js ''viewer.playback'')), (js ''event'', JString (pdEvent e)),
      (js ''sessionId'', JString (pdSession e))]
     @ entry (js ''documentId'') (map_option JString (pdDocument e))
     @ entry (js ''surface'') (map_option JString (pdSurface e))
     @ [(js ''streamName'', JString (pdStream e))]
     @ entry (js ''candidateRole'') (map_option JString (pdRole e))
     @ [(js ''transport'', JString (pdTransport e)), (js ''phase'', JString (pdPhase e)), (js ''attempt'', int_value (pdAttempt e))]
     @ entry (js ''attemptGeneration'') (map_option int_value (pdGeneration e))
     @ entry (js ''resubscribeGeneration'') (map_option int_value (pdResubscribe e))
     @ [(js ''durationMs'', int_value (pdElapsed e)), (js ''attemptElapsedMs'', int_value (pdAttemptElapsed e)),
        (js ''readyState'', int_value (pdReady e)), (js ''usingFallback'', JBool (pdFallback e)),
        (js ''reconnectCount'', int_value (pdReconnects e)), (js ''fallbackCount'', int_value (pdFallbacks e))]
     @ entry (js ''terminalReason'') (map_option JString (pdReason e))
     @ (if pdError e = js ''none'' then [] else [(js ''errorCode'', JString (pdError e))])"

text \<open>What \<open>reportPlaybackDiagnostic\<close> sends: to the viewer, and to the server if there is a \<open>fetch\<close>.\<close>

definition reportPlaybackDiagnostic ::
  "native_bridge option \<Rightarrow> bool \<Rightarrow> jsval \<Rightarrow> jsobject option \<times> safe_event option" where
  "reportPlaybackDiagnostic bridge has_fetch input =
     (case safePlaybackDiagnostic input of
        None \<Rightarrow> (None, None)
      | Some e \<Rightarrow> (reportViewerDiagnostic bridge (JObject (viewer_diagnostic e)), if has_fetch then Some e else None))"

section \<open>What an event can be\<close>

definition event_ok :: "safe_event \<Rightarrow> bool" where
  "event_ok e \<longleftrightarrow> sessionPattern (pdSession e) \<and> pred_option sessionPattern (pdDocument e)
     \<and> pred_option (\<lambda>s. s \<in> set playbackSurfaces) (pdSurface e) \<and> known_event (pdEvent e)
     \<and> 0 < length (pdStream e) \<and> length (pdStream e) \<le> 128 \<and> streamName_ok (pdStream e)
     \<and> pred_option (\<lambda>s. s \<in> set candidateRoles) (pdRole e)
     \<and> pdTransport e \<in> set playback_transports \<and> pdPhase e \<in> set playback_phases
     \<and> 1 \<le> pdAttempt e \<and> pdAttempt e \<le> 32
     \<and> pred_option (\<lambda>g. 1 \<le> g \<and> g \<le> 1000000) (pdGeneration e)
     \<and> pred_option (\<lambda>g. 0 \<le> g \<and> g \<le> 1000000) (pdResubscribe e)
     \<and> 0 \<le> pdElapsed e \<and> pdElapsed e \<le> 1800000 \<and> 0 \<le> pdAttemptElapsed e \<and> pdAttemptElapsed e \<le> 1800000
     \<and> pdError e \<in> set errorCategories \<and> pred_option (\<lambda>s. s \<in> set terminalReasons) (pdReason e)
     \<and> 0 \<le> pdReady e \<and> pdReady e \<le> 4 \<and> 0 \<le> pdReconnects e \<and> pdReconnects e \<le> 100
     \<and> 0 \<le> pdFallbacks e \<and> pdFallbacks e \<le> 100"

lemma boundedString_SomeD: "boundedString v n = Some s \<Longrightarrow> v = JString s \<and> 0 < length s \<and> length s \<le> n"
  by (cases v) (auto simp: boundedString_def split: if_splits)

lemma boundedString_undefined: "boundedString JUndefined n = None"
  by (simp add: boundedString_def)

lemma boundedInteger_bounds:
  "lo \<le> hi \<Longrightarrow> lo \<le> d \<Longrightarrow> d \<le> hi \<Longrightarrow> lo \<le> boundedInteger v lo hi d \<and> boundedInteger v lo hi d \<le> hi"
  by (auto simp: boundedInteger_def split: jsval.split jsnum.split)

lemma optionalBoundedInteger_bounds:
  "lo \<le> hi \<Longrightarrow> pred_option (\<lambda>g. lo \<le> g \<and> g \<le> hi) (optionalBoundedInteger v lo hi)"
  by (auto simp: optionalBoundedInteger_def split: jsval.split jsnum.split)

lemma fails_iff: "\<not> fails P s \<longleftrightarrow> (\<exists>t. s = Some t \<and> P t)"
  by (auto simp: fails_def split: option.split)

lemma not_fails: "\<not> fails P s \<Longrightarrow> P (the s)"
  by (auto simp: fails_iff)

lemma not_fails_in: "\<not> fails (\<lambda>t. t \<in> set xs) s \<Longrightarrow> the s \<in> set xs"
  by (auto simp: fails_iff)

lemma optional_passes: "\<not> optional_fails P input k n \<Longrightarrow> pred_option P (diagnostic_string input k n)"
  by (cases "diagnostic_string input k n") (auto simp: optional_fails_def fails_def diagnostic_string_def boundedString_undefined)

lemma string_bounds:
  assumes "\<not> fails P (diagnostic_string input k n)"
  shows "the (diagnostic_string input k n) \<noteq> []" and "length (the (diagnostic_string input k n)) \<le> n"
  using assms boundedString_SomeD [of "jget input (js k)" n] by (auto simp: fails_iff diagnostic_string_def)

lemmas integer_bounds = boundedInteger_bounds [of 0 "30 * 60000" 0, simplified] boundedInteger_bounds [of 1 32 1, simplified]
  boundedInteger_bounds [of 0 4 0, simplified] boundedInteger_bounds [of 0 100 0, simplified]
  optionalBoundedInteger_bounds [of 1 1000000, simplified] optionalBoundedInteger_bounds [of 0 1000000, simplified]

lemma event_ok_event:
  assumes "\<not> diagnostic_rejected input"
  shows "event_ok (diagnostic_event input)"
  unfolding event_ok_def diagnostic_event_def safe_event.select_convs
  using assms [unfolded diagnostic_rejected_def de_Morgan_disj]
  by (intro conjI) (simp_all add: not_fails not_fails_in optional_passes string_bounds integer_bounds
      string_bounds [of streamName_ok] not_fails [of streamName_ok])

text \<open>C39: whatever object it is given, \<open>safePlaybackDiagnostic\<close> produces nothing or an event whose strings
  are recognised ones, whose stream name is trimmed, at most 128 units long and free of line breaks
  and tabs, and whose numbers are integers within their bounds.\<close>

theorem playback_event_ok:
  assumes "safePlaybackDiagnostic input = Some e"
  shows "event_ok e"
  using assms event_ok_event by (auto simp: safePlaybackDiagnostic_def split: if_splits)

definition demo_event :: jsval where
  "demo_event = JObject
    [(js ''sessionId'', JString [0x61, 0x62, 0x63, 0x64, 0x65, 0x66, 0x67, 0x68]), (js ''event'', JString (js ''socket_open'')),
     (js ''streamName'', JString [0x79, 0x61, 0x72, 0x64]), (js ''transport'', JString (js ''mse'')),
     (js ''phase'', JString (js ''connecting'')), (js ''attempt'', JNumber (Num 99))]"

lemmas diagnostic_eval = diagnostic_rejected_def diagnostic_event_def diagnostic_string_def optional_fails_def boundedString_def
  error_input_def nullish_or_def fails_def sessionPattern_def known_event_def playbackDiagnosticLevel_def
  playbackDiagnosticEvents_def streamName_ok_def playback_transports_def playback_phases_def errorCategories_def
  playbackSurfaces_def candidateRoles_def terminalReasons_def boundedInteger_def optionalBoundedInteger_def
  ident_pattern_def is_alnum_def is_key_char_def is_lower_def js_trim_def is_space_def

lemma demo_event_accepted: "\<not> diagnostic_rejected demo_event"
  by (simp add: demo_event_def diagnostic_eval)

lemma playback_event_ok_witness: "event_ok (diagnostic_event demo_event)"
  by (rule playback_event_ok [of demo_event]) (simp add: safePlaybackDiagnostic_def demo_event_accepted)

section \<open>Nothing is lost on the way to the viewer\<close>

definition settled_field :: "(jsval \<Rightarrow> field_action) \<Rightarrow> jsval \<Rightarrow> bool" where
  "settled_field f v \<longleftrightarrow> f v = (if v = JUndefined then Skip else Keep v)"

lemma kept_settled:
  assumes fields: "\<forall>(k, f) \<in> set fs. settled_field f (jget input k)" and d: "distinct (map fst fs)"
  shows "\<not> refuses fs input"
    and "k \<in> set (map fst fs) \<Longrightarrow> jget (JObject (kept fs input)) k = jget input k"
proof -
  show "\<not> refuses fs input"
    using fields by (auto simp: refuses_def list_ex_iff settled_field_def split: if_splits)
  assume "k \<in> set (map fst fs)"
  then obtain f where kf: "(k, f) \<in> set fs" by auto
  then have "settled_field f (jget input k)" using fields by auto
  then show "jget (JObject (kept fs input)) k = jget input k"
    using map_of_kept [OF d kf, of input] by (auto simp: settled_field_def split: if_splits)
qed

lemma settled_accepts: "v = JUndefined \<or> P v \<Longrightarrow> settled_field (accepts P) v"
  by (auto simp: settled_field_def accepts_def)

lemma settled_requires: "P v \<Longrightarrow> v \<noteq> JUndefined \<Longrightarrow> settled_field (requires P) v"
  by (simp add: settled_field_def requires_def)

lemma settled_clamps: "v = JUndefined \<or> (\<exists>i. v = int_value i \<and> lo \<le> i \<and> i \<le> hi) \<Longrightarrow> settled_field (clamps lo hi) v"
  by (auto simp: settled_field_def clamps_def int_value_def)

lemma settled_boolean: "v = JUndefined \<or> (\<exists>b. v = JBool b) \<Longrightarrow> settled_field boolean_field v"
  by (auto simp: settled_field_def boolean_field_def)

lemma jget_entry [simp]:
  "map_of (entry k v @ d) k' = (if k' = k \<and> v \<noteq> None then v else map_of d k')"
  by (auto simp: entry_def split: option.split)

lemma diagnostic_code_of_error: "e \<in> set errorCategories \<Longrightarrow> e \<noteq> js ''none'' \<Longrightarrow> DIAGNOSTIC_CODE e"
  by (auto simp: errorCategories_def DIAGNOSTIC_CODE_def diagnostic_code_def js_def is_lower_def is_code_char_def)

lemma known_event_fields:
  assumes "known_event ev"
  shows "DIAGNOSTIC_EVENT ev" and "\<exists>l. playbackDiagnosticLevel ev = Some l \<and> l \<in> set DIAGNOSTIC_LEVELS"
proof -
  have codes: "list_all (\<lambda>(n, l). DIAGNOSTIC_EVENT n \<and> l \<in> set DIAGNOSTIC_LEVELS) playbackDiagnosticEvents"
    by (simp add: playbackDiagnosticEvents_def DIAGNOSTIC_LEVELS_def)
      (simp add: DIAGNOSTIC_EVENT_def diagnostic_code_def js_def is_lower_def is_code_char_def)
  obtain l where "(ev, l) \<in> set playbackDiagnosticEvents" "playbackDiagnosticLevel ev = Some l"
    using assms by (auto simp: known_event_def playbackDiagnosticLevel_def dest: map_of_SomeD)
  with codes show "DIAGNOSTIC_EVENT ev" "\<exists>l. playbackDiagnosticLevel ev = Some l \<and> l \<in> set DIAGNOSTIC_LEVELS"
    by (auto simp: list_all_iff)
qed

lemma session_pattern_wider: "sessionPattern s \<Longrightarrow> DIAGNOSTIC_SESSION s"
  by (auto simp: sessionPattern_def DIAGNOSTIC_SESSION_def elim: ident_pattern_mono)

lemma same_values:
  "playback_transports = TRANSPORTS" "playback_phases = PHASES" "playbackSurfaces = DIAGNOSTIC_SURFACES"
  "candidateRoles = DIAGNOSTIC_CANDIDATE_ROLES" "terminalReasons = DIAGNOSTIC_TERMINAL_REASONS"
  by (simp_all add: playback_transports_def TRANSPORTS_def playback_phases_def PHASES_def playbackSurfaces_def
      DIAGNOSTIC_SURFACES_def candidateRoles_def DIAGNOSTIC_CANDIDATE_ROLES_def terminalReasons_def
      DIAGNOSTIC_TERMINAL_REASONS_def)

abbreviation optional_value :: "('a \<Rightarrow> jsval) \<Rightarrow> 'a option \<Rightarrow> jsval" where
  "optional_value f x \<equiv> case_option JUndefined f x"

lemma viewer_lookup:
  fixes e :: safe_event
  defines "get \<equiv> \<lambda>k. jget (JObject (viewer_diagnostic e)) (js k)"
  shows "get ''level'' = (case playbackDiagnosticLevel (pdEvent e) of None \<Rightarrow> JNull | Some l \<Rightarrow> JString l)"
    and "get ''component'' = JString (js ''viewer.playback'')" and "get ''event'' = JString (pdEvent e)"
    and "get ''correlationId'' = JUndefined" and "get ''sessionId'' = JString (pdSession e)"
    and "get ''documentId'' = optional_value JString (pdDocument e)"
    and "get ''streamName'' = JString (pdStream e)" and "get ''transport'' = JString (pdTransport e)"
    and "get ''phase'' = JString (pdPhase e)" and "get ''surface'' = optional_value JString (pdSurface e)"
    and "get ''candidateRole'' = optional_value JString (pdRole e)"
    and "get ''terminalReason'' = optional_value JString (pdReason e)" and "get ''state'' = JUndefined"
    and "get ''errorCode'' = (if pdError e = js ''none'' then JUndefined else JString (pdError e))"
    and "get ''attempt'' = int_value (pdAttempt e)"
    and "get ''attemptGeneration'' = optional_value int_value (pdGeneration e)"
    and "get ''resubscribeGeneration'' = optional_value int_value (pdResubscribe e)"
    and "get ''durationMs'' = int_value (pdElapsed e)" and "get ''attemptElapsedMs'' = int_value (pdAttemptElapsed e)"
    and "get ''retryMs'' = JUndefined" and "get ''readyState'' = int_value (pdReady e)"
    and "get ''reconnectCount'' = int_value (pdReconnects e)" and "get ''fallbackCount'' = int_value (pdFallbacks e)"
    and "get ''usingFallback'' = JBool (pdFallback e)"
  unfolding get_def by (simp_all add: viewer_diagnostic_def del: map_of_append split: option.split)

lemma viewer_keys: "fst ` set (viewer_diagnostic e) \<subseteq> set (map fst diagnostic_fields)"
  by (auto simp: viewer_diagnostic_def diagnostic_fields_def entry_def split: option.splits if_splits)

lemma settled_optional:
  "pred_option Q x \<Longrightarrow> (\<And>y. Q y \<Longrightarrow> P (f y)) \<Longrightarrow> settled_field (accepts P) (optional_value f x)"
  by (cases x) (auto intro!: settled_accepts)

lemma settled_optional_int:
  "pred_option (\<lambda>i. lo' \<le> i \<and> i \<le> hi) x \<Longrightarrow> lo \<le> lo' \<Longrightarrow> settled_field (clamps lo hi) (optional_value int_value x)"
  by (cases x) (auto intro!: settled_clamps)

lemma viewer_settled:
  assumes "event_ok e" and "bridge_safeStreamName (JString (pdStream e))"
  shows "\<forall>(k, f) \<in> set diagnostic_fields. settled_field f (jget (JObject (viewer_diagnostic e)) k)"
proof -
  note ok = assms(1) [unfolded event_ok_def]
  obtain l where l: "playbackDiagnosticLevel (pdEvent e) = Some l" "l \<in> set DIAGNOSTIC_LEVELS"
    and ev: "DIAGNOSTIC_EVENT (pdEvent e)" using ok known_event_fields by blast
  have err: "pdError e = js ''none'' \<or> DIAGNOSTIC_CODE (pdError e)" using ok diagnostic_code_of_error by blast
  show ?thesis
    unfolding diagnostic_fields_def list.set ball_simps(5,7) prod.case viewer_lookup
  proof (intro conjI TrueI)
    show "settled_field (accepts (string_with DIAGNOSTIC_SESSION)) (optional_value JString (pdDocument e))"
      using ok by (intro settled_optional [of sessionPattern]) (simp_all add: session_pattern_wider)
    show "settled_field (accepts (one_of DIAGNOSTIC_SURFACES)) (optional_value JString (pdSurface e))"
      using ok by (intro settled_optional [of "\<lambda>s. s \<in> set DIAGNOSTIC_SURFACES"]) (simp_all add: same_values)
    show "settled_field (accepts (one_of DIAGNOSTIC_CANDIDATE_ROLES)) (optional_value JString (pdRole e))"
      using ok by (intro settled_optional [of "\<lambda>s. s \<in> set DIAGNOSTIC_CANDIDATE_ROLES"]) (simp_all add: same_values)
    show "settled_field (accepts (one_of DIAGNOSTIC_TERMINAL_REASONS)) (optional_value JString (pdReason e))"
      using ok by (intro settled_optional [of "\<lambda>s. s \<in> set DIAGNOSTIC_TERMINAL_REASONS"]) (simp_all add: same_values)
    show "settled_field (clamps 0 1000000) (optional_value int_value (pdGeneration e))"
      using ok by (intro settled_optional_int [of 1]) simp_all
    show "settled_field (clamps 0 1000000) (optional_value int_value (pdResubscribe e))"
      using ok by (intro settled_optional_int [of 0]) simp_all
  qed (use ok l ev err assms(2) in \<open>auto intro!: settled_requires settled_accepts settled_clamps settled_boolean
        simp: session_pattern_wider same_values DIAGNOSTIC_COMPONENTS_def\<close>)
qed

text \<open>A playback event that may be reported reaches the native viewer as it is. If its stream name is one
  the viewer accepts, the viewer's own sanitiser neither refuses nor changes any field of it.\<close>

theorem reported_event_kept:
  assumes "safePlaybackDiagnostic input = Some e" and "bridge_safeStreamName (JString (pdStream e))"
  shows "\<exists>d. safeViewerDiagnostic (JObject (viewer_diagnostic e)) = Some d
    \<and> (\<forall>k. jget (JObject d) k = jget (JObject (viewer_diagnostic e)) k)"
proof -
  let ?R = "JObject (viewer_diagnostic e)"
  have ok: "event_ok e"
    using assms(1) event_ok_event by (auto simp: safePlaybackDiagnostic_def split: if_splits)
  note settled = kept_settled [OF viewer_settled [OF ok assms(2)] diagnostic_fields_distinct]
  have "jget (JObject (kept diagnostic_fields ?R)) k = jget ?R k" if "k \<notin> set (map fst diagnostic_fields)" for k
  proof -
    have "k \<notin> fst ` set (kept diagnostic_fields ?R)" "k \<notin> fst ` set (viewer_diagnostic e)"
      using that kept_keys [of diagnostic_fields ?R] viewer_keys [of e] by blast+
    then have "map_of (kept diagnostic_fields ?R) k = None" "map_of (viewer_diagnostic e) k = None"
      by (simp_all only: map_of_eq_None_iff not_False_eq_True)
    then show ?thesis by simp
  qed
  then have "jget (JObject (kept diagnostic_fields ?R)) k = jget ?R k" for k
    using settled(2) by (cases "k \<in> set (map fst diagnostic_fields)") blast+
  with settled(1) show ?thesis by (simp add: safeViewerDiagnostic_kept del: jget.simps)
qed

lemma reported_event_kept_witness:
  "\<exists>d. safeViewerDiagnostic (JObject (viewer_diagnostic (diagnostic_event demo_event))) = Some d
    \<and> (\<forall>k. jget (JObject d) k = jget (JObject (viewer_diagnostic (diagnostic_event demo_event))) k)"
  by (rule reported_event_kept [of demo_event])
    (simp_all add: safePlaybackDiagnostic_def demo_event_accepted,
      simp add: bridge_safeStreamName_def demo_event_def diagnostic_eval has_control_def is_control_def is_alpha_iu_def
        is_scheme_char_def is_digit_def is_upper_def js_def)

end
