(* ===== verification/TargetArguments.thy ===== *)
theory TargetArguments
  imports Names "HOL-Library.List_Lexorder"
begin

text \<open>
  \<open>scripts/windows/Invoke-CamStationWindowsTarget.mjs\<close>, first part: the command line, the local
  profile of the two Windows targets, and the strings that are built for the remote side. An error
  that the script throws is \<open>Inl\<close> of its message.
\<close>

type_synonym failure = jsstring

section \<open>Constants and patterns\<close>

definition targetAliases :: "jsstring list" where
  "targetAliases = [js ''test-pc'', js ''monitoring-pc'']"

definition target_modes :: "jsstring list" where
  "target_modes = [js ''status'', js ''sync'', js ''setup'', js ''plan'', js ''desktop-capture'', js ''viewer-capture'',
     js ''viewer-configure'', js ''cleanup'', js ''system'', js ''artifact-pull'', js ''artifact-push'']"

text \<open>\<open>s\<close> without the given ending, if it has it.\<close>

definition strip_ending :: "jsstring \<Rightarrow> jsstring \<Rightarrow> jsstring option" where
  "strip_ending ending s =
     (if starts_with (rev s) (rev ending) then Some (take (length s - length ending) s) else None)"

text \<open>\<open>/^[A-Za-z0-9][A-Za-z0-9._-]{0,n}\.(?:a|b|c)$/u\<close>\<close>

definition file_pattern :: "nat \<Rightarrow> jsstring list \<Rightarrow> jsstring \<Rightarrow> bool" where
  "file_pattern n endings s \<longleftrightarrow>
     list_ex (\<lambda>ending. case strip_ending (0x2E # ending) s of None \<Rightarrow> False | Some stem \<Rightarrow> ident_pattern 0 n stem) endings"

definition artifactNamePattern :: "jsstring \<Rightarrow> bool" where
  "artifactNamePattern = file_pattern 127 [js ''msi'', js ''json'', js ''sha256'']"

definition evidenceNamePattern :: "jsstring \<Rightarrow> bool" where
  "evidenceNamePattern = file_pattern 79 [js ''png'', js ''json'']"

definition is_hex :: "jschar \<Rightarrow> bool" where
  "is_hex c \<longleftrightarrow> is_digit c \<or> (0x61 \<le> c \<and> c \<le> 0x66)"

definition sha256Pattern :: "jsstring \<Rightarrow> bool" where
  "sha256Pattern s \<longleftrightarrow> length s = 64 \<and> list_all is_hex s"

text \<open>\<open>/^[0-9]{8}T[0-9]{9}Z-[a-f0-9]{32}$/u\<close>\<close>

definition runIdPattern :: "jsstring \<Rightarrow> bool" where
  "runIdPattern s \<longleftrightarrow> length s = 52 \<and> list_all is_digit (take 8 s) \<and> s ! 8 = 0x54
     \<and> list_all is_digit (take 9 (drop 9 s)) \<and> s ! 18 = 0x5A \<and> s ! 19 = 0x2D \<and> list_all is_hex (drop 20 s)"

definition canonicalScripts :: "jsstring list" where
  "canonicalScripts = map js [''Install-CamStationWindowsControl.ps1'', ''Invoke-CamStationWindowsControl.ps1'',
     ''Invoke-CamStationWindowsControlWorker.ps1'', ''Invoke-CamStationViewerGuiCapture.ps1'',
     ''Capture-CamStationViewerWindow.ps1'', ''Invoke-CamStationViewerConfigure.ps1'',
     ''Invoke-CamStationViewerConsoleLaunch.ps1'']"

definition controlLauncherName :: jsstring where "controlLauncherName = js ''Invoke-CamStationWindowsControl.ps1''"
definition controlWorkerName :: jsstring where "controlWorkerName = js ''Invoke-CamStationWindowsControlWorker.ps1''"
definition setupName :: jsstring where "setupName = js ''Install-CamStationWindowsControl.ps1''"
definition viewerLauncherName :: jsstring where "viewerLauncherName = js ''Invoke-CamStationViewerGuiCapture.ps1''"
definition viewerWorkerName :: jsstring where "viewerWorkerName = js ''Capture-CamStationViewerWindow.ps1''"
definition viewerConfigureLauncherName :: jsstring where
  "viewerConfigureLauncherName = js ''Invoke-CamStationViewerConfigure.ps1''"
definition viewerConsoleLaunchName :: jsstring where
  "viewerConsoleLaunchName = js ''Invoke-CamStationViewerConsoleLaunch.ps1''"

section \<open>Checks\<close>

text \<open>A sequence of \<open>if (c) fail(message)\<close>: the message of the first condition that holds.\<close>

definition first_failure :: "(bool \<times> failure) list \<Rightarrow> failure option" where
  "first_failure checks = map_option snd (find fst checks)"

definition isRecord :: "jsval \<Rightarrow> bool" where
  "isRecord v = (case v of JObject kvs \<Rightarrow> True | _ \<Rightarrow> False)"

fun object_keys :: "jsval \<Rightarrow> jsstring list" where
  "object_keys (JObject kvs) = map fst kvs" | "object_keys _ = []"

definition assertExactKeys :: "jsval \<Rightarrow> jsstring list \<Rightarrow> jsstring \<Rightarrow> failure option" where
  "assertExactKeys v allowed label =
     map_option (\<lambda>key. label @ js '' contains unsupported field '' @ [0x27] @ key @ [0x27])
       (find (\<lambda>key. key \<notin> set allowed) (object_keys v))"

definition requireString :: "jsval \<Rightarrow> jsstring \<Rightarrow> (jsstring \<Rightarrow> bool) \<Rightarrow> failure + jsstring" where
  "requireString v label pattern =
     (case v of
        JString s \<Rightarrow> if s = [] then Inl (label @ js '' must be a nonempty string'')
                     else if \<not> pattern s then Inl (label @ js '' has an invalid value'')
                     else Inr s
      | _ \<Rightarrow> Inl (label @ js '' must be a nonempty string''))"

section \<open>The command line\<close>

definition valueFlags :: "(jsstring \<times> jsstring) list" where
  "valueFlags =
    [(js ''--target'', js ''target''), (js ''--mode'', js ''mode''), (js ''--plan'', js ''plan''),
     (js ''--run-id'', js ''runId''), (js ''--viewer-operation'', js ''viewerOperation''),
     (js ''--archive'', js ''archive''), (js ''--script'', js ''script''), (js ''--intent'', js ''intent''),
     (js ''--configuration'', js ''configuration''), (js ''--artifact-name'', js ''artifactName''),
     (js ''--local-file'', js ''localFile''), (js ''--expected-sha256'', js ''expectedSha256'')]"

definition booleanFlags :: "(jsstring \<times> jsstring) list" where
  "booleanFlags = [(js ''--full-audit'', js ''fullAudit''), (js ''--help'', js ''help'')]"

text \<open>The options object: its boolean properties that are true, and its string properties.\<close>

record target_options =
  optFlags :: "jsstring list"
  optValues :: "(jsstring, jsstring) jsmap"

definition opt :: "target_options \<Rightarrow> string \<Rightarrow> jsstring option" where
  "opt options key = map_of (optValues options) (js key)"

definition opt_flag :: "target_options \<Rightarrow> string \<Rightarrow> bool" where
  "opt_flag options key \<longleftrightarrow> js key \<in> set (optFlags options)"

text \<open>\<open>options.key\<close> in a condition.\<close>

definition given :: "target_options \<Rightarrow> string \<Rightarrow> bool" where
  "given options key \<longleftrightarrow> (case opt options key of None \<Rightarrow> False | Some s \<Rightarrow> s \<noteq> [])"

definition opt_in :: "target_options \<Rightarrow> string \<Rightarrow> jsstring list \<Rightarrow> bool" where
  "opt_in options key xs \<longleftrightarrow> (case opt options key of None \<Rightarrow> False | Some s \<Rightarrow> s \<in> set xs)"

definition mode_is :: "target_options \<Rightarrow> string \<Rightarrow> bool" where
  "mode_is options m \<longleftrightarrow> opt options ''mode'' = Some (js m)"

fun parse_tokens :: "jsstring list \<Rightarrow> jsstring list \<Rightarrow> target_options \<Rightarrow> failure + target_options" where
  "parse_tokens [] seen options = Inr options"
| "parse_tokens (token # rest) seen options =
     (case map_of booleanFlags token of
        Some key \<Rightarrow>
          if token \<in> set seen then Inl (js ''Duplicate option: '' @ token)
          else parse_tokens rest (token # seen) (options\<lparr>optFlags := key # optFlags options\<rparr>)
      | None \<Rightarrow>
         (case map_of valueFlags token of
            None \<Rightarrow> Inl (js ''Unknown option: '' @ token)
          | Some key \<Rightarrow>
              if token \<in> set seen then Inl (js ''Duplicate option: '' @ token)
              else (case rest of
                      [] \<Rightarrow> Inl (js ''Missing value for '' @ token)
                    | v # rest' \<Rightarrow>
                        if v = [] \<or> starts_with v (js ''--'') then Inl (js ''Missing value for '' @ token)
                        else parse_tokens rest' (token # seen)
                               (options\<lparr>optValues := map_set key v (optValues options)\<rparr>))))"

fun comma_list :: "jsstring list \<Rightarrow> jsstring" where
  "comma_list [] = []"
| "comma_list [s] = s"
| "comma_list (s # t # ts) = s @ js '', '' @ comma_list (t # ts)"

definition mode_text :: "target_options \<Rightarrow> jsstring" where
  "mode_text options = (case opt options ''mode'' of None \<Rightarrow> js ''undefined'' | Some m \<Rightarrow> m)"

text \<open>The checks up to the default of the viewer operation, and those after it.\<close>

definition early_checks :: "target_options \<Rightarrow> (bool \<times> failure) list" where
  "early_checks options =
    [(\<not> opt_in options ''target'' targetAliases, js ''--target must be one of: '' @ comma_list targetAliases),
     (\<not> opt_in options ''mode'' target_modes, js ''--mode must be one of: '' @ comma_list target_modes),
     (mode_is options ''plan'' \<and> \<not> given options ''plan'', js ''plan mode requires --plan''),
     (mode_is options ''cleanup'' \<and> \<not> (case opt options ''runId'' of None \<Rightarrow> False | Some s \<Rightarrow> s \<noteq> [] \<and> runIdPattern s),
        js ''cleanup mode requires an exact --run-id'')]"

definition default_operation :: "target_options \<Rightarrow> target_options" where
  "default_operation options =
     (if mode_is options ''viewer-capture'' \<and> opt options ''viewerOperation'' = None
      then options\<lparr>optValues := map_set (js ''viewerOperation'') (js ''Capture'') (optValues options)\<rparr> else options)"

definition late_checks :: "target_options \<Rightarrow> (bool \<times> failure) list" where
  "late_checks options =
    (let transfer = mode_is options ''artifact-pull'' \<or> mode_is options ''artifact-push'' in
    [(mode_is options ''viewer-capture'' \<and> \<not> opt_in options ''viewerOperation'' [js ''Capture'', js ''LaunchAndCapture''],
        js ''--viewer-operation must be Capture or LaunchAndCapture''),
     (mode_is options ''viewer-configure'' \<and> \<not> given options ''configuration'',
        js ''viewer-configure mode requires --configuration''),
     (mode_is options ''system'' \<and> \<not> given options ''script'', js ''system mode requires --script''),
     (mode_is options ''system'' \<and> \<not> opt_in options ''intent'' [js ''read-only'', js ''change''],
        js ''system mode requires --intent read-only or --intent change''),
     (transfer \<and> \<not> (case opt options ''artifactName'' of None \<Rightarrow> False | Some s \<Rightarrow> s \<noteq> [] \<and> artifactNamePattern s),
        mode_text options @ js '' requires a safe --artifact-name''),
     (transfer \<and> \<not> (case opt options ''expectedSha256'' of None \<Rightarrow> False | Some s \<Rightarrow> s \<noteq> [] \<and> sha256Pattern s),
        mode_text options @ js '' requires lowercase --expected-sha256''),
     (mode_is options ''artifact-push'' \<and> \<not> given options ''localFile'', js ''artifact-push requires --local-file''),
     (given options ''archive'' \<and> \<not> mode_is options ''setup'', js ''--archive is valid only for setup mode''),
     (given options ''plan'' \<and> \<not> mode_is options ''plan'', js ''--plan is valid only for plan mode''),
     (given options ''runId'' \<and> \<not> mode_is options ''cleanup'', js ''--run-id is valid only for cleanup mode''),
     (given options ''viewerOperation'' \<and> \<not> mode_is options ''viewer-capture'',
        js ''--viewer-operation is valid only for viewer-capture mode''),
     (given options ''script'' \<and> \<not> mode_is options ''system'', js ''--script is valid only for system mode''),
     (given options ''intent'' \<and> \<not> mode_is options ''system'', js ''--intent is valid only for system mode''),
     (given options ''configuration'' \<and> \<not> mode_is options ''viewer-configure'',
        js ''--configuration is valid only for viewer-configure mode''),
     (given options ''artifactName'' \<and> \<not> transfer, js ''--artifact-name is valid only for artifact transfer modes''),
     (given options ''localFile'' \<and> \<not> mode_is options ''artifact-push'', js ''--local-file is valid only for artifact-push''),
     (given options ''expectedSha256'' \<and> \<not> transfer, js ''--expected-sha256 is valid only for artifact transfer modes''),
     (opt_flag options ''fullAudit'' \<and> \<not> mode_is options ''status'', js ''--full-audit is valid only for status mode'')])"

definition parseArguments :: "jsstring list \<Rightarrow> failure + target_options" where
  "parseArguments argv =
     (case parse_tokens argv [] \<lparr>optFlags = [], optValues = []\<rparr> of
        Inl e \<Rightarrow> Inl e
      | Inr options \<Rightarrow>
          if opt_flag options ''help'' then Inr options
          else (case first_failure (early_checks options) of
                  Some e \<Rightarrow> Inl e
                | None \<Rightarrow>
                    (case first_failure (late_checks (default_operation options)) of
                       Some e \<Rightarrow> Inl e
                     | None \<Rightarrow> Inr (default_operation options))))"

section \<open>Strings for the remote side\<close>

definition psLiteral :: "jsstring \<Rightarrow> jsstring" where
  "psLiteral s = [0x27] @ concat (map (\<lambda>c. if c = 0x27 then [0x27, 0x27] else [c]) s) @ [0x27]"

definition strip_backslashes :: "jsstring \<Rightarrow> jsstring" where
  "strip_backslashes s = rev (dropWhile (\<lambda>c. c = 0x5C) (rev s))"

definition windowsJoin :: "jsstring \<Rightarrow> jsstring list \<Rightarrow> jsstring" where
  "windowsJoin base parts =
     js_join 0x5C (strip_backslashes base # map (\<lambda>part. strip_backslashes (dropWhile (\<lambda>c. c = 0x5C) part)) parts)"

definition is_line_end :: "jschar \<Rightarrow> bool" where
  "is_line_end c \<longleftrightarrow> c = 10 \<or> c = 13 \<or> c = 0x2028 \<or> c = 0x2029"

definition remoteScpPath :: "jsstring \<Rightarrow> failure + jsstring" where
  "remoteScpPath path =
     (case path of
        drive # colon # backslash # rest \<Rightarrow>
          if (is_lower drive \<or> is_upper drive) \<and> colon = 0x3A \<and> backslash = 0x5C \<and> \<not> list_ex is_line_end rest
          then Inr ([0x2F, drive, 0x3A, 0x2F] @ map (\<lambda>c. if c = 0x5C then 0x2F else c) rest)
          else Inl (js ''Remote copy path is not an absolute Windows drive path'')
      | _ \<Rightarrow> Inl (js ''Remote copy path is not an absolute Windows drive path''))"

section \<open>Target profiles\<close>

record profile =
  host :: jsstring
  port :: int
  maintenanceUser :: jsstring
  identityFile :: jsstring
  knownHostsFile :: jsstring
  expectedMachine :: jsstring
  expectedMaintenanceIdentity :: jsstring
  targetUser :: jsstring
  expectedSessionId :: int
  remoteProjectRoot :: jsstring

text \<open>
  The file system and the locale as the validation sees them: \<open>isAbsolute\<close>, \<open>toLowerCase\<close>, \<open>sameText\<close>
  (equality up to case by \<open>localeCompare\<close>), and for the key files whether they are regular files and
  their permission bits.
\<close>

record profile_env =
  peAbsolute :: "jsstring \<Rightarrow> bool"
  peLower :: "jsstring \<Rightarrow> jsstring"
  peSame :: "jsstring \<Rightarrow> jsstring \<Rightarrow> bool"
  peIsFile :: "jsstring \<Rightarrow> bool"
  peMode :: "jsstring \<Rightarrow> nat"

definition host_char :: "jschar \<Rightarrow> bool" where
  "host_char c \<longleftrightarrow> \<not> is_space c \<and> c \<notin> {0x27, 0x22, 0x3B, 0x7C, 0x26, 0x3C, 0x3E}"

definition account_pattern :: "jsstring \<Rightarrow> bool" where
  "account_pattern s = (case js_split 0x5C s of [a, b] \<Rightarrow> a \<noteq> [] \<and> b \<noteq> [] | _ \<Rightarrow> False)"

definition dotted :: "jsstring \<Rightarrow> string \<Rightarrow> jsstring" where
  "dotted alias field = alias @ [0x2E] @ js field"

definition bindE :: "('e + 'a) \<Rightarrow> ('a \<Rightarrow> 'e + 'b) \<Rightarrow> 'e + 'b" where
  "bindE m f = (case m of Inl e \<Rightarrow> Inl e | Inr x \<Rightarrow> f x)"

definition checkE :: "(bool \<times> failure) list \<Rightarrow> failure + unit" where
  "checkE checks = (case first_failure checks of Some e \<Rightarrow> Inl e | None \<Rightarrow> Inr ())"

definition integer_value :: "jsval \<Rightarrow> int" where
  "integer_value v = (case v of JNumber (Num x) \<Rightarrow> \<lfloor>x\<rfloor> | _ \<Rightarrow> 0)"

definition split_first :: "jsstring \<Rightarrow> jsstring" where "split_first s = hd (js_split 0x5C s)"
definition split_second :: "jsstring \<Rightarrow> jsstring" where "split_second s = js_split 0x5C s ! 1"

definition canonicalProjectRoot :: jsstring where
  "canonicalProjectRoot = js ''C:'' @ [0x5C] @ js ''CamStationDev'' @ [0x5C] @ js ''src'' @ [0x5C] @ js ''CamStation''"

definition allowedProfileKeys :: "jsstring list" where
  "allowedProfileKeys = map js [''host'', ''port'', ''maintenanceUser'', ''identityFile'', ''knownHostsFile'',
     ''expectedMachine'', ''expectedMaintenanceIdentity'', ''targetUser'', ''expectedSessionId'', ''remoteProjectRoot'']"

text \<open>The body of the loop over the aliases up to the checks against the other profile.\<close>

definition validate_profile :: "profile_env \<Rightarrow> jsstring \<Rightarrow> jsval \<Rightarrow> failure + profile" where
  "validate_profile E alias p =
    bindE (checkE [(\<not> isRecord p, alias @ js '' profile must be an object'')]) (\<lambda>_.
    bindE (case assertExactKeys p allowedProfileKeys (alias @ js '' profile'') of Some e \<Rightarrow> Inl e | None \<Rightarrow> Inr ()) (\<lambda>_.
    bindE (requireString (jget p (js ''host'')) (dotted alias ''host'') (\<lambda>s. s \<noteq> [] \<and> list_all host_char s)) (\<lambda>h.
    bindE (checkE [(\<not> is_int_value (jget p (js ''port'')) \<or> integer_value (jget p (js ''port'')) < 1
                      \<or> integer_value (jget p (js ''port'')) > 65535, dotted alias ''port is invalid'')]) (\<lambda>_.
    bindE (requireString (jget p (js ''maintenanceUser'')) (dotted alias ''maintenanceUser'') (\<lambda>s. s \<noteq> [] \<and> list_all is_key_char s)) (\<lambda>user.
    bindE (requireString (jget p (js ''identityFile'')) (dotted alias ''identityFile'') (\<lambda>s. True)) (\<lambda>key_file.
    bindE (requireString (jget p (js ''knownHostsFile'')) (dotted alias ''knownHostsFile'') (\<lambda>s. True)) (\<lambda>hosts_file.
    bindE (checkE [(\<not> peAbsolute E key_file \<or> \<not> peAbsolute E hosts_file,
                    alias @ js '' key and known-host paths must be absolute'')]) (\<lambda>_.
    bindE (requireString (jget p (js ''expectedMachine'')) (dotted alias ''expectedMachine'') (\<lambda>s. s \<noteq> [] \<and> list_all is_key_char s)) (\<lambda>machine.
    bindE (requireString (jget p (js ''expectedMaintenanceIdentity'')) (dotted alias ''expectedMaintenanceIdentity'') account_pattern) (\<lambda>account.
    bindE (requireString (jget p (js ''targetUser'')) (dotted alias ''targetUser'') account_pattern) (\<lambda>target.
    bindE (checkE
      [(\<not> peSame E (split_first account) machine, alias @ js '' maintenance identity does not belong to expectedMachine''),
       (\<not> peSame E (split_first target) machine, alias @ js '' targetUser does not belong to expectedMachine''),
       (\<not> peSame E (split_second account) user, alias @ js '' maintenance identity does not match maintenanceUser''),
       (\<not> is_int_value (jget p (js ''expectedSessionId'')) \<or> integer_value (jget p (js ''expectedSessionId'')) < 1,
          dotted alias ''expectedSessionId must be a positive integer''),
       (jget p (js ''remoteProjectRoot'') \<noteq> JString canonicalProjectRoot,
          dotted alias ''remoteProjectRoot must use the canonical project path'')]) (\<lambda>_.
    Inr \<lparr>host = h, port = integer_value (jget p (js ''port'')), maintenanceUser = user, identityFile = key_file,
         knownHostsFile = hosts_file, expectedMachine = machine, expectedMaintenanceIdentity = account, targetUser = target,
         expectedSessionId = integer_value (jget p (js ''expectedSessionId'')),
         remoteProjectRoot = canonicalProjectRoot\<rparr>))))))))))))"

definition endpoint :: "profile_env \<Rightarrow> profile \<Rightarrow> jsstring \<times> int" where
  "endpoint E p = (peLower E (host p), port p)"

definition file_checks :: "profile_env \<Rightarrow> jsstring \<Rightarrow> profile \<Rightarrow> (bool \<times> failure) list" where
  "file_checks E alias p =
    [(\<not> peIsFile E (identityFile p), alias @ js '' identity file is missing''),
     (\<not> peIsFile E (knownHostsFile p), alias @ js '' known-hosts file is missing''),
     (peMode E (identityFile p) mod 64 \<noteq> 0,
        alias @ js '' identity file must not be accessible by group or others'')]"

fun validate_profiles ::
  "profile_env \<Rightarrow> bool \<Rightarrow> jsval \<Rightarrow> jsstring list \<Rightarrow> (jsstring \<times> profile) list \<Rightarrow> failure + (jsstring \<times> profile) list" where
  "validate_profiles E checkFiles targets [] validated = Inr validated"
| "validate_profiles E checkFiles targets (alias # aliases) validated =
    bindE (validate_profile E alias (jget targets alias)) (\<lambda>p.
    bindE (checkE
      ([(peLower E (expectedMachine p) \<in> peLower E ` expectedMachine ` snd ` set validated,
           js ''Windows target profiles must not reuse expectedMachine''),
        (endpoint E p \<in> endpoint E ` snd ` set validated, js ''Windows target profiles must not reuse an SSH endpoint'')]
       @ (if checkFiles then file_checks E alias p else []))) (\<lambda>_.
    validate_profiles E checkFiles targets aliases (validated @ [(alias, p)])))"

definition validateProfileDocument :: "profile_env \<Rightarrow> bool \<Rightarrow> jsval \<Rightarrow> failure + (jsstring \<times> profile) list" where
  "validateProfileDocument E checkFiles document =
    bindE (checkE [(\<not> isRecord document, js ''Windows target profile must be a JSON object'')]) (\<lambda>_.
    bindE (case assertExactKeys document [js ''schemaVersion'', js ''targets''] (js ''profile document'') of
             Some e \<Rightarrow> Inl e | None \<Rightarrow> Inr ()) (\<lambda>_.
    bindE (checkE
      [(jget document (js ''schemaVersion'') \<noteq> JNumber (Num 1), js ''Windows target profile schemaVersion must be 1''),
       (\<not> isRecord (jget document (js ''targets'')), js ''Windows target profile targets must be an object''),
       (sort (object_keys (jget document (js ''targets''))) \<noteq> sort targetAliases,
          js ''Windows target profile must contain exactly: '' @ comma_list targetAliases)]) (\<lambda>_.
    validate_profiles E checkFiles (jget document (js ''targets'')) targetAliases [])))"

end
