(* ===== verification/Decimal.thy ===== *)
theory Decimal
  imports Prelude
begin

text \<open>
  Numbers as text, as \<open>String\<close>, \<open>Number.parseInt\<close> and \<open>Number.parseFloat\<close> have it: an integer is written in
  decimal, and reading takes the longest prefix that is a number. Numbers are exact, so a text of more digits
  than a double holds is outside the model.
\<close>

section \<open>Integers\<close>

fun decimal_digits :: "nat \<Rightarrow> jsstring" where
  "decimal_digits n = (if n < 10 then [0x30 + of_nat n] else decimal_digits (n div 10) @ [0x30 + of_nat (n mod 10)])"

declare decimal_digits.simps [simp del]

definition decimal :: "int \<Rightarrow> jsstring" where
  "decimal i = (if i < 0 then 0x2D # decimal_digits (nat (- i)) else decimal_digits (nat i))"

definition digit_value :: "jschar \<Rightarrow> nat" where
  "digit_value c = unat (c - 0x30)"

definition digits_value :: "jsstring \<Rightarrow> nat" where
  "digits_value s = foldl (\<lambda>n c. n * 10 + digit_value c) 0 s"

text \<open>The sign of a number and what follows it.\<close>

fun split_sign :: "jsstring \<Rightarrow> bool \<times> jsstring" where
  "split_sign (c # s) = (if c = 0x2D then (True, s) else if c = 0x2B then (False, s) else (False, c # s))"
| "split_sign [] = (False, [])"

definition parse_int :: "jsstring \<Rightarrow> int option" where
  "parse_int s =
     (let (neg, r) = split_sign (dropWhile is_space s); ds = takeWhile is_digit r
      in if ds = [] then None else Some (if neg then - int (digits_value ds) else int (digits_value ds)))"

lemma digit_ok: "n < 10 \<Longrightarrow> is_digit (0x30 + of_nat n) \<and> digit_value (0x30 + of_nat n) = n"
proof -
  assume "n < 10"
  then have "n \<in> {0, 1, 2, 3, 4, 5, 6, 7, 8, 9}" by auto
  then show ?thesis by (auto simp: is_digit_def digit_value_def)
qed

lemma digits_value_snoc: "digits_value (s @ [c]) = digits_value s * 10 + digit_value c"
  by (simp add: digits_value_def)

lemma decimal_digits_ok: "(\<forall>c \<in> set (decimal_digits n). is_digit c) \<and> decimal_digits n \<noteq> [] \<and> digits_value (decimal_digits n) = n"
proof (induction n rule: decimal_digits.induct)
  case (1 n)
  show ?case
  proof (cases "n < 10")
    case True
    then show ?thesis using digit_ok [OF True]
      by (subst (1 2 3) decimal_digits.simps) (simp add: digits_value_def)
  next
    case False
    have d: "n mod 10 < 10" by simp
    have "digits_value (decimal_digits n) = (n div 10) * 10 + n mod 10"
      using 1 [OF False] digit_ok [OF d] False
      by (subst decimal_digits.simps) (simp add: digits_value_snoc)
    then have "digits_value (decimal_digits n) = n" by simp
    then show ?thesis using 1 [OF False] digit_ok [OF d] False
      by (subst (1 2) decimal_digits.simps) auto
  qed
qed

lemma is_digit_bounds: "is_digit c \<longleftrightarrow> 48 \<le> unat c \<and> unat c \<le> 57"
  by (simp add: is_digit_def word_le_nat_alt)

lemma digit_not_space: "is_digit c \<Longrightarrow> \<not> is_space c"
proof
  assume "is_digit c" and "is_space c"
  then show False
    by (auto simp: is_digit_bounds is_space_def word_le_nat_alt)
qed

lemma digit_no_sign: "is_digit c \<Longrightarrow> c \<noteq> 0x2D \<and> c \<noteq> 0x2B"
  by (auto simp: is_digit_bounds)

text \<open>A natural number that is written in decimal is read back, whatever follows it.\<close>

lemma parse_int_decimal:
  assumes "0 \<le> i" and "s = [] \<or> \<not> is_digit (hd s)"
  shows "parse_int (decimal i @ s) = Some i"
proof -
  let ?d = "decimal_digits (nat i)"
  have ok: "\<forall>c \<in> set ?d. is_digit c" "?d \<noteq> []" "digits_value ?d = nat i" using decimal_digits_ok [of "nat i"] by blast+
  obtain c r where d: "?d = c # r" using ok(2) by (cases ?d) auto
  with ok(1) have c: "is_digit c" by simp
  have "split_sign (dropWhile is_space (?d @ s)) = (False, ?d @ s)"
    using d digit_not_space [OF c] digit_no_sign [OF c] by simp
  moreover have "takeWhile is_digit (?d @ s) = ?d"
    using ok(1) assms(2) by (cases s) (auto simp: takeWhile_append2)
  ultimately show ?thesis using assms(1) ok by (simp add: parse_int_def decimal_def Let_def)
qed

lemma decimal_chars: "0 \<le> i \<Longrightarrow> c \<in> set (decimal i) \<Longrightarrow> is_digit c"
  using decimal_digits_ok [of "nat i"] by (auto simp: decimal_def)

lemma decimal_nonempty [simp]: "decimal i \<noteq> []"
  using decimal_digits_ok [of "nat i"] by (simp add: decimal_def)

section \<open>Fractions\<close>

text \<open>The literal \<open>digits [. digits] [e [sign] digits]\<close> at the beginning of a text and what is left.\<close>

definition exponent_part :: "jsstring \<Rightarrow> int \<times> jsstring" where
  "exponent_part s =
     (case s of [] \<Rightarrow> (0, s)
      | c # r \<Rightarrow>
          (let (neg, q) = split_sign r; ds = takeWhile is_digit q
           in if (c = 0x65 \<or> c = 0x45) \<and> ds \<noteq> []
              then (if neg then - int (digits_value ds) else int (digits_value ds), dropWhile is_digit q) else (0, s)))"

definition fraction_part :: "jsstring \<Rightarrow> jsstring \<times> jsstring" where
  "fraction_part s = (case s of [] \<Rightarrow> ([], s) | c # r \<Rightarrow> if c = 0x2E then (takeWhile is_digit r, dropWhile is_digit r) else ([], s))"

definition decimal_literal :: "jsstring \<Rightarrow> (rat \<times> jsstring) option" where
  "decimal_literal s =
     (let whole = takeWhile is_digit s; (frac, r) = fraction_part (dropWhile is_digit s); (e, rest) = exponent_part r
      in if whole = [] \<and> frac = [] then None
         else Some (rat_of_nat (digits_value (whole @ frac)) * 10 powi (e - int (length frac)), rest))"

definition js_infinity :: jsstring where "js_infinity = js ''Infinity''"

definition signed :: "bool \<Rightarrow> rat \<Rightarrow> jsnum" where "signed neg x = Num (if neg then - x else x)"

text \<open>\<open>Number.parseFloat\<close>.\<close>

definition parse_float :: "jsstring \<Rightarrow> jsnum" where
  "parse_float s =
     (let (neg, r) = split_sign (dropWhile is_space s)
      in if starts_with r js_infinity then (if neg then NegInf else PosInf)
         else (case decimal_literal r of None \<Rightarrow> NaN | Some (x, _) \<Rightarrow> signed neg x))"

text \<open>\<open>Number\<close> of the text of a decimal number, as a number field of a form has it; the empty text is 0.\<close>

definition number_of_text :: "jsstring \<Rightarrow> jsnum" where
  "number_of_text s =
     (let t = js_trim s; (neg, r) = split_sign t
      in if t = [] then Num 0
         else if r = js_infinity then (if neg then NegInf else PosInf)
         else (case decimal_literal r of Some (x, []) \<Rightarrow> signed neg x | _ \<Rightarrow> NaN))"

lemma parse_float_decimal:
  assumes "0 \<le> i"
  shows "parse_float (decimal i) = Num (of_int i)"
proof -
  let ?d = "decimal_digits (nat i)"
  have ok: "\<forall>c \<in> set ?d. is_digit c" "?d \<noteq> []" "digits_value ?d = nat i" using decimal_digits_ok [of "nat i"] by blast+
  obtain c r where d: "?d = c # r" using ok(2) by (cases ?d) auto
  with ok(1) have c: "is_digit c" by simp
  have "c \<noteq> 0x49" using c by (auto simp: is_digit_bounds)
  then have inf: "\<not> starts_with ?d js_infinity" by (simp add: d js_infinity_def js_def)
  have "split_sign (dropWhile is_space ?d) = (False, ?d)" using d digit_not_space [OF c] digit_no_sign [OF c] by simp
  moreover have t: "takeWhile is_digit ?d = ?d" "dropWhile is_digit ?d = []" using ok(1) by (simp_all add: takeWhile_eq_all_conv dropWhile_eq_Nil_conv)
  have "decimal_literal ?d = Some (of_int i, [])"
    unfolding decimal_literal_def t using assms ok(2,3) by (simp add: fraction_part_def exponent_part_def)
  ultimately show ?thesis using assms inf by (simp add: parse_float_def decimal_def signed_def)
qed

end
