(* ===== verification/TargetRemote.thy ===== *)
theory TargetRemote
  imports TargetArguments Decimal
begin

text \<open>
  \<open>scripts/windows/Invoke-CamStationWindowsTarget.mjs\<close>, second part: what the script does to the
  target. Everything outside the program - the processes it spawns, the local files, the clock and
  random source - is the record \<open>target_env\<close>, whose fields may depend on the whole history of the effects so far.
  An action takes that history and returns a result and the longer history.
  The PowerShell sources are constructors of \<open>ps_script\<close> with the values that are interpolated into
  them; what they do on the target is the environment's answer.
\<close>

type_synonym byte = "8 word"

datatype ps_script =
  PreflightScript "(jsstring \<times> jsstring) list" jsstring   \<comment> \<open>script paths, target user\<close>
| LauncherScript jsstring jsstring jsstring                 \<comment> \<open>launcher, target user, arguments\<close>
| CreateDirectory jsstring                                  \<comment> \<open>throws if it exists\<close>
| CreateRequest jsstring jsstring                           \<comment> \<open>request directory, path that must be new\<close>
| RemovePath jsstring bool                                  \<comment> \<open>recursively?\<close>
| SyncScript jsstring jsstring "(jsstring \<times> jsstring) list" \<comment> \<open>staging, destination, expected hashes\<close>
| PlanScript jsstring jsstring jsstring jsstring            \<comment> \<open>plan, its hash, launcher, target user\<close>
| ConfigureScript jsstring jsstring jsstring jsstring
| EvidenceCleanup jsstring jsstring                         \<comment> \<open>directory, task name\<close>
| SetupScript jsstring jsstring "jsstring option"           \<comment> \<open>installer, target user, archive\<close>
| SystemScript jsstring jsstring jsstring jsstring          \<comment> \<open>directory, script, hash, intent\<close>
| ArtifactScript jsstring jsstring jsstring jsstring bool   \<comment> \<open>directory, path, hash, name, create the directory\<close>
| PrepareArtifact jsstring jsstring

datatype effect =
  Ssh profile ps_script int
| ScpTo profile jsstring jsstring int      \<comment> \<open>local path, remote path as scp wants it, time limit\<close>
| ScpFrom profile jsstring jsstring int
| MakeLocal jsstring                       \<comment> \<open>a local directory with mode 0700\<close>
| WriteLocal jsstring
| RemoveLocal jsstring

type_synonym history = "effect list"
type_synonym 'a action = "history \<Rightarrow> (failure + 'a) \<times> history"

record spawn_result =
  spError :: "jsstring option"
  spStatus :: "int option"
  spStdout :: jsstring
  spStderr :: jsstring

datatype file_entry = Missing | Directory | File "byte list"

text \<open>The local file system, \<open>JSON.parse\<close>, \<open>createHash("sha256")\<close> and the paths of \<open>node:path\<close>.\<close>

record target_env =
  teSpawn :: "history \<Rightarrow> effect \<Rightarrow> spawn_result"
  teFile :: "history \<Rightarrow> jsstring \<Rightarrow> file_entry"
  teReal :: "history \<Rightarrow> jsstring \<Rightarrow> failure + jsstring"  \<comment> \<open>realpathSync(resolve(path))\<close>
  teSha256 :: "byte list \<Rightarrow> jsstring"
  teText :: "byte list \<Rightarrow> jsstring"                        \<comment> \<open>toString("utf8")\<close>
  teParse :: "jsstring \<Rightarrow> jsval option"
  teSame :: "jsval \<Rightarrow> jsstring \<Rightarrow> bool"                     \<comment> \<open>sameText\<close>
  teFresh :: "history \<Rightarrow> jsstring"                         \<comment> \<open>text from the time and a random number\<close>
  teJoin :: "jsstring list \<Rightarrow> jsstring"                    \<comment> \<open>join\<close>
  teBase :: "jsstring \<Rightarrow> jsstring"                         \<comment> \<open>basename\<close>
  teLower :: "jsstring \<Rightarrow> jsstring"                        \<comment> \<open>toLowerCase\<close>
  teScripts :: jsstring                                    \<comment> \<open>scriptDirectory\<close>
  teRepository :: jsstring                                 \<comment> \<open>repositoryRoot\<close>
  teTemporary :: "history \<Rightarrow> jsstring"                     \<comment> \<open>mkdtempSync(join(tmpdir(), ...))\<close>
  teUrl :: "jsstring \<Rightarrow> (string \<Rightarrow> jsstring) option"       \<comment> \<open>new URL: its parts by name\<close>
  teSeparator :: jschar                                    \<comment> \<open>of the local platform\<close>

section \<open>Actions\<close>

definition ret :: "'a \<Rightarrow> 'a action" where "ret x = (\<lambda>t. (Inr x, t))"
definition throw :: "failure \<Rightarrow> 'a action" where "throw e = (\<lambda>t. (Inl e, t))"

definition bind :: "'a action \<Rightarrow> ('a \<Rightarrow> 'b action) \<Rightarrow> 'b action" where
  "bind m f = (\<lambda>t. case m t of (Inl e, t') \<Rightarrow> (Inl e, t') | (Inr x, t') \<Rightarrow> f x t')"

text \<open>\<open>try { m } finally { try { c } catch {} }\<close> and \<open>try { m } catch (e) { try { c } catch {} throw e }\<close>\<close>

definition finally_quietly :: "'a action \<Rightarrow> 'b action \<Rightarrow> 'a action" where
  "finally_quietly m c = (\<lambda>t. case m t of (r, t') \<Rightarrow> (r, snd (c t')))"

definition on_error_quietly :: "'a action \<Rightarrow> 'b action \<Rightarrow> 'a action" where
  "on_error_quietly m c = (\<lambda>t. case m t of (Inl e, t') \<Rightarrow> (Inl e, snd (c t')) | (Inr x, t') \<Rightarrow> (Inr x, t'))"

definition lift :: "failure + 'a \<Rightarrow> 'a action" where "lift r = (\<lambda>t. (r, t))"
definition check :: "(bool \<times> failure) list \<Rightarrow> unit action" where "check cs = lift (checkE cs)"
definition observe :: "(history \<Rightarrow> 'a) \<Rightarrow> 'a action" where "observe f = (\<lambda>t. (Inr (f t), t))"
definition local :: "effect \<Rightarrow> unit action" where "local c = (\<lambda>t. (Inr (), t @ [c]))"

section \<open>Processes\<close>

definition transportOptions :: "profile \<Rightarrow> bool \<Rightarrow> jsstring list" where
  "transportOptions p scp =
     map js [''-q'', ''-o'', ''IdentitiesOnly=yes'', ''-o'', ''BatchMode=yes'', ''-o'', ''PreferredAuthentications=publickey'',
       ''-o'', ''PasswordAuthentication=no'', ''-o'', ''KbdInteractiveAuthentication=no'',
       ''-o'', ''StrictHostKeyChecking=yes'', ''-o'']
     @ [js ''UserKnownHostsFile='' @ knownHostsFile p]
     @ map js [''-o'', ''ConnectTimeout=8'', ''-o'', ''ServerAliveInterval=5'', ''-o'', ''ServerAliveCountMax=2'']
     @ [if scp then js ''-P'' else js ''-p'', decimal (port p), js ''-i'', identityFile p]"

definition sshTarget :: "profile \<Rightarrow> jsstring" where
  "sshTarget p = maintenanceUser p @ [0x40] @ host p"

text \<open>The argument vector of each process; \<open>bootstrap\<close> is the base64 text of the bootstrap command.\<close>

fun process_arguments :: "jsstring \<Rightarrow> effect \<Rightarrow> jsstring list" where
  "process_arguments bootstrap (Ssh p script limit) =
     transportOptions p False @ [sshTarget p] @ map js [''powershell.exe'', ''-NoLogo'', ''-NoProfile'', ''-NonInteractive'',
       ''-ExecutionPolicy'', ''Bypass'', ''-EncodedCommand''] @ [bootstrap]"
| "process_arguments bootstrap (ScpTo p localPath path limit) =
     transportOptions p True @ [localPath, sshTarget p @ [0x3A] @ path]"
| "process_arguments bootstrap (ScpFrom p path localPath limit) =
     transportOptions p True @ [sshTarget p @ [0x3A] @ path, localPath]"
| "process_arguments bootstrap _ = []"

definition last_part :: "nat \<Rightarrow> 'a list \<Rightarrow> 'a list" where
  "last_part n s = drop (length s - n) s"

definition runProcess :: "target_env \<Rightarrow> jsstring \<Rightarrow> effect \<Rightarrow> jsstring action" where
  "runProcess E name c = (\<lambda>t.
     let r = teSpawn E t c; t' = t @ [c];
         detail = last_part 6000 (js_trim (spStderr r @ [10] @ spStdout r));
         status = (case spStatus r of None \<Rightarrow> js ''null'' | Some n \<Rightarrow> decimal n)
     in case spError r of
          Some e \<Rightarrow> (Inl (name @ js '' failed: '' @ e), t')
        | None \<Rightarrow>
            if spStatus r \<noteq> Some 0
            then (Inl (name @ js '' exited '' @ status @ (if detail = [] then [] else js '': '' @ detail)), t')
            else (Inr (spStdout r), t'))"

definition invokePowerShell :: "target_env \<Rightarrow> profile \<Rightarrow> ps_script \<Rightarrow> int \<Rightarrow> jsstring action" where
  "invokePowerShell E p script limit = runProcess E (js ''ssh'') (Ssh p script limit)"

definition copyToRemote :: "target_env \<Rightarrow> profile \<Rightarrow> jsstring \<Rightarrow> jsstring \<Rightarrow> int \<Rightarrow> unit action" where
  "copyToRemote E p localPath remotePath limit =
     bind (lift (remoteScpPath remotePath)) (\<lambda>path.
     bind (runProcess E (js ''scp'') (ScpTo p localPath path limit)) (\<lambda>_. ret ()))"

definition copyFromRemote :: "target_env \<Rightarrow> profile \<Rightarrow> jsstring \<Rightarrow> jsstring \<Rightarrow> int \<Rightarrow> unit action" where
  "copyFromRemote E p remotePath localPath limit =
     bind (lift (remoteScpPath remotePath)) (\<lambda>path.
     bind (runProcess E (js ''scp'') (ScpFrom p path localPath limit)) (\<lambda>_. ret ()))"

text \<open>
  Trimming removes the carriage return that \<open>/\r?\n/u\<close> would have removed, so the output is split
  at line feeds.
\<close>

definition json_line :: "target_env \<Rightarrow> jsstring \<Rightarrow> jsval option" where
  "json_line E line = (if starts_with line [0x7B] \<and> line \<noteq> [] \<and> last line = 0x7D then teParse E line else None)"

fun first_some :: "('a \<Rightarrow> 'b option) \<Rightarrow> 'a list \<Rightarrow> 'b option" where
  "first_some f [] = None"
| "first_some f (x # xs) = (case f x of Some y \<Rightarrow> Some y | None \<Rightarrow> first_some f xs)"

definition parseLastJson :: "target_env \<Rightarrow> jsstring \<Rightarrow> jsstring \<Rightarrow> failure + jsval" where
  "parseLastJson E output label =
     (let lines = filter (\<lambda>s. s \<noteq> []) (map js_trim (js_split 10 output))
      in case first_some (json_line E) (rev lines) of
           Some v \<Rightarrow> Inr v
         | None \<Rightarrow> Inl (label @ js '' did not return a final JSON object''))"

definition remote_json :: "target_env \<Rightarrow> profile \<Rightarrow> ps_script \<Rightarrow> int \<Rightarrow> jsstring \<Rightarrow> jsval action" where
  "remote_json E p script limit label =
     bind (invokePowerShell E p script limit) (\<lambda>output. lift (parseLastJson E output label))"

section \<open>Files\<close>

definition readFile :: "target_env \<Rightarrow> jsstring \<Rightarrow> byte list action" where
  "readFile E path = (\<lambda>t. case teFile E t path of
     File bytes \<Rightarrow> (Inr bytes, t) | _ \<Rightarrow> (Inl (js ''ENOENT: '' @ path), t))"

definition sha256File :: "target_env \<Rightarrow> jsstring \<Rightarrow> jsstring action" where
  "sha256File E path = bind (readFile E path) (\<lambda>bytes. ret (teSha256 E bytes))"

text \<open>The contents of \<open>realpathSync(resolve(path))\<close>, which must be a regular file.\<close>

definition regular_file :: "target_env \<Rightarrow> jsstring \<Rightarrow> failure \<Rightarrow> (jsstring \<times> byte list) action" where
  "regular_file E path message =
     bind (observe (\<lambda>t. teReal E t path)) (\<lambda>r. bind (lift r) (\<lambda>resolved.
     bind (observe (\<lambda>t. teFile E t resolved)) (\<lambda>entry.
       (case entry of File bytes \<Rightarrow> ret (resolved, bytes) | _ \<Rightarrow> throw message))))"

fun map_action :: "('a \<Rightarrow> 'b action) \<Rightarrow> 'a list \<Rightarrow> 'b list action" where
  "map_action f [] = ret []"
| "map_action f (x # xs) = bind (f x) (\<lambda>y. bind (map_action f xs) (\<lambda>ys. ret (y # ys)))"

definition localScriptHashes :: "target_env \<Rightarrow> (jsstring \<times> jsstring) list action" where
  "localScriptHashes E = map_action (\<lambda>name.
     let path = teJoin E [teScripts E, name] in
     bind (observe (\<lambda>t. teFile E t path = Missing)) (\<lambda>missing.
     bind (check [(missing, js ''Canonical Windows script is missing: '' @ name)]) (\<lambda>_.
     bind (sha256File E path) (\<lambda>h. ret (name, h))))) canonicalScripts"

section \<open>Preflight\<close>

definition preflightSource :: "profile \<Rightarrow> ps_script" where
  "preflightSource p =
     PreflightScript (map (\<lambda>name. (name, windowsJoin (remoteProjectRoot p) [js ''scripts'', js ''windows'', name])) canonicalScripts)
       (targetUser p)"

definition as_list :: "jsval \<Rightarrow> jsval list" where
  "as_list v = (case v of JArray xs \<Rightarrow> xs | _ \<Rightarrow> if truthy v then [v] else [])"

definition number_is :: "jsval \<Rightarrow> int \<Rightarrow> bool" where
  "number_is v i \<longleftrightarrow> v = int_value i"

definition assertPreflight :: "target_env \<Rightarrow> profile \<Rightarrow> jsval \<Rightarrow> failure + jsval" where
  "assertPreflight E p v =
    (let explorers = as_list (jget v (js ''TargetExplorers'')); first = hd explorers in
     case first_failure
      [(jget v (js ''Result'') \<noteq> JString (js ''CAMSTATION_WINDOWS_TARGET_PREFLIGHT''), js ''Unexpected target preflight result''),
       (\<not> teSame E (jget v (js ''Machine'')) (expectedMachine p), js ''Remote machine does not match selected target alias''),
       (\<not> teSame E (jget v (js ''MaintenanceIdentity'')) (expectedMaintenanceIdentity p),
          js ''Remote maintenance identity does not match selected target alias''),
       (length explorers \<noteq> 1, js ''Target user must own exactly one Explorer process''),
       (first = JUndefined \<or> first = JNull, js ''TypeError''),
       (\<not> teSame E (jget first (js ''UserName'')) (targetUser p), js ''Explorer belongs to the wrong target user''),
       (\<not> number_is (jget first (js ''SessionId'')) (expectedSessionId p) \<or> number_is (jget first (js ''SessionId'')) 0,
          js ''Interactive session does not match the selected target profile''),
       (jget v (js ''Scheduler'') \<noteq> JString (js ''Running''), js ''Windows Task Scheduler is not running'')] of
       Some e \<Rightarrow> Inl e | None \<Rightarrow> Inr v)"

definition getPreflight :: "target_env \<Rightarrow> profile \<Rightarrow> jsval action" where
  "getPreflight E p =
     bind (remote_json E p (preflightSource p) 60000 (js ''target preflight'')) (\<lambda>v. lift (assertPreflight E p v))"

definition requireActiveDesktop :: "jsval \<Rightarrow> unit action" where
  "requireActiveDesktop status = check
     [(jget status (js ''TargetSessionState'') \<noteq> JString (js ''Active''),
       js ''Interactive desktop is '' @ (case jget status (js ''TargetSessionState'') of JString s \<Rightarrow> s | _ \<Rightarrow> js ''unknown'')
         @ js ''; reconnect its RDP or VM console before GUI control or capture'')]"

definition residue_counts :: "string list" where
  "residue_counts = [''ControlTaskCount'', ''SetupTaskCount'', ''ViewerCaptureTaskCount'', ''ViewerConfigureTaskCount'']"

definition requireNoTaskResidue :: "jsval \<Rightarrow> unit action" where
  "requireNoTaskResidue v = check
     [(list_ex (\<lambda>key. \<not> number_is (jget v (js key)) 0) residue_counts,
       js ''A CamStation one-shot task already exists on the selected target'')]"

record script_parity =
  parMatches :: bool
  parLocal :: jsstring
  parRemote :: jsval

definition parityReport :: "target_env \<Rightarrow> jsval \<Rightarrow> (jsstring \<times> script_parity) list action" where
  "parityReport E v =
     bind (localScriptHashes E) (\<lambda>expected.
     ret (map (\<lambda>(name, h).
       let remote = jget (jget v (js ''ScriptHashes'')) name in
       (name, \<lparr>parMatches = (remote = JString h), parLocal = h,
               parRemote = (if remote = JUndefined then JNull else remote)\<rparr>)) expected))"

definition requireParity :: "target_env \<Rightarrow> jsval \<Rightarrow> jsstring list \<Rightarrow> (jsstring \<times> script_parity) list action" where
  "requireParity E v names =
     bind (parityReport E v) (\<lambda>parity.
     let stale = filter (\<lambda>name. case map_of parity name of None \<Rightarrow> True | Some s \<Rightarrow> \<not> parMatches s) names in
     bind (check [(stale \<noteq> [], js ''Remote canonical scripts are stale or missing ('' @ comma_list stale
                                 @ js ''); run --mode sync first'')]) (\<lambda>_. ret parity))"

section \<open>Status\<close>

definition launcherPath :: "profile \<Rightarrow> jsstring" where
  "launcherPath p = windowsJoin (remoteProjectRoot p) [js ''scripts'', js ''windows'', controlLauncherName]"

definition invokeLauncher :: "target_env \<Rightarrow> profile \<Rightarrow> jsstring \<Rightarrow> int \<Rightarrow> jsval action" where
  "invokeLauncher E p arguments limit =
     remote_json E p (LauncherScript (launcherPath p) (targetUser p) arguments) limit (js ''Windows control launcher'')"

definition validateStatus :: "target_env \<Rightarrow> profile \<Rightarrow> jsval \<Rightarrow> failure + jsval" where
  "validateStatus E p v =
    (let driver = jget v (js ''Driver'') in
     case first_failure
      [(jget v (js ''Result'') \<noteq> JString (js ''WINDOWS_CONTROL_STATUS''), js ''Unexpected Windows control status result''),
       (\<not> teSame E (jget v (js ''TargetUser'')) (targetUser p), js ''Windows control status returned the wrong user''),
       (\<not> number_is (jget v (js ''TargetSessionId'')) (expectedSessionId p), js ''Windows control status returned the wrong session''),
       (\<not> is_string_value (jget v (js ''TargetSessionState'')), js ''Windows control status omitted the Terminal Services state''),
       (jget v (js ''Scheduler'') \<noteq> JString (js ''Running''), js ''Windows control status scheduler is not running''),
       (\<not> number_is (jget v (js ''ExistingControlTasks'')) 0, js ''A Windows control task is already present''),
       (jget driver (js ''Exists'') \<noteq> JBool True \<or> \<not> number_is (jget driver (js ''MatchingProcessCount'')) 1
          \<or> \<not> number_is (jget driver (js ''SessionProcessCount'')) 1 \<or> jget driver (js ''TelemetryDisabled'') \<noteq> JBool True,
          js ''Pinned interactive Cua driver is not ready in the selected session''),
       (\<not> number_is (jget v (js ''DriverTcpConnectionCount'')) 0 \<or> \<not> number_is (jget v (js ''CuaFirewallRuleCount'')) 0,
          js ''Cua driver network or firewall boundary changed'')] of
       Some e \<Rightarrow> Inl e | None \<Rightarrow> Inr v)"

record target_status =
  tsPreflight :: jsval
  tsParity :: "(jsstring \<times> script_parity) list"
  tsStatus :: jsval

definition getStatus :: "target_env \<Rightarrow> profile \<Rightarrow> bool \<Rightarrow> target_status action" where
  "getStatus E p fullAudit =
     bind (getPreflight E p) (\<lambda>preflight.
     bind (requireParity E preflight [controlLauncherName]) (\<lambda>parity.
     bind (invokeLauncher E p (js ''-Mode Status'' @ (if fullAudit then js '' -FullAudit'' else [])) 90000) (\<lambda>v.
     bind (lift (validateStatus E p v)) (\<lambda>status.
     ret \<lparr>tsPreflight = preflight, tsParity = parity, tsStatus = status\<rparr>))))"

fun jindex :: "jsval \<Rightarrow> nat \<Rightarrow> jsval" where
  "jindex (JArray xs) n = (if n < length xs then xs ! n else JUndefined)" | "jindex _ n = JUndefined"

definition or_null :: "jsval \<Rightarrow> jsval" where
  "or_null v = (if v = JUndefined then JNull else v)"

definition parity_summary :: "(jsstring \<times> script_parity) list \<Rightarrow> jsval" where
  "parity_summary parity = JObject (map (\<lambda>(name, s). (name, JBool (parMatches s))) parity)"

definition statusSummary :: "jsstring \<Rightarrow> target_status \<Rightarrow> jsval" where
  "statusSummary alias r =
    (let pre = jget (tsPreflight r) \<circ> js; status = jget (tsStatus r) \<circ> js; driver = jget (status ''Driver'') \<circ> js in
     JObject
      [(js ''SchemaVersion'', int_value 1), (js ''Result'', JString (js ''CAMSTATION_WINDOWS_TARGET_STATUS'')),
       (js ''Target'', JString alias), (js ''Machine'', pre ''Machine''),
       (js ''MaintenanceIdentity'', pre ''MaintenanceIdentity''), (js ''TargetUser'', status ''TargetUser''),
       (js ''TargetSessionId'', status ''TargetSessionId''), (js ''TargetSessionState'', status ''TargetSessionState''),
       (js ''ViewerService'', status ''ViewerService''),
       (js ''Driver'', JObject
         [(js ''Version'', driver ''Version''),
          (js ''ProcessId'', or_null (jget (jindex (driver ''Processes'') 0) (js ''ProcessId''))),
          (js ''TelemetryDisabled'', driver ''TelemetryDisabled''),
          (js ''TcpConnectionCount'', status ''DriverTcpConnectionCount''),
          (js ''FirewallRuleCount'', status ''CuaFirewallRuleCount'')]),
       (js ''Tasks'', JObject
         [(js ''Control'', pre ''ControlTaskCount''), (js ''Setup'', pre ''SetupTaskCount''),
          (js ''ViewerCapture'', pre ''ViewerCaptureTaskCount''), (js ''ViewerConfigure'', pre ''ViewerConfigureTaskCount'')]),
       (js ''ScriptParity'', parity_summary (tsParity r)), (js ''ElapsedMs'', status ''ElapsedMs'')])"

end
