(* ===== verification/TargetModes.thy ===== *)
theory TargetModes
  imports TargetRemote
begin

text \<open>
  \<open>scripts/windows/Invoke-CamStationWindowsTarget.mjs\<close>, third part: one definition per mode of the
  script, with the validation of the files it is given and of the results it gets back, and
  \<open>execute\<close>. A mode's value is the object it prints.
\<close>

section \<open>Objects\<close>

definition obj :: "(string \<times> jsval) list \<Rightarrow> jsval" where
  "obj kvs = JObject (map (\<lambda>(k, v). (js k, v)) kvs)"

definition str :: "string \<Rightarrow> jsval" where "str s = JString (js s)"

definition prop_of :: "jsval \<Rightarrow> string \<Rightarrow> jsval" where "prop_of v k = jget v (js k)"

fun jpath :: "jsval \<Rightarrow> string list \<Rightarrow> jsval" where
  "jpath v [] = v" | "jpath v (k # ks) = jpath (jget v (js k)) ks"

fun string_passes :: "(jsstring \<Rightarrow> bool) \<Rightarrow> jsval \<Rightarrow> bool" where
  "string_passes P (JString s) = P s" | "string_passes P _ = False"

definition nullish :: "jsval \<Rightarrow> bool" where "nullish v \<longleftrightarrow> v = JUndefined \<or> v = JNull"

definition dev_path :: "string \<Rightarrow> jsstring \<Rightarrow> jsstring" where
  "dev_path name s = js ''C:'' @ [0x5C] @ js ''CamStationDev'' @ [0x5C] @ js name @ s"

definition try_quietly :: "'a action \<Rightarrow> unit action" where
  "try_quietly m = (\<lambda>t. (Inr (), snd (m t)))"

section \<open>sync\<close>

definition upload_scripts :: "target_env \<Rightarrow> profile \<Rightarrow> jsstring \<Rightarrow> unit list action" where
  "upload_scripts E p staging =
     map_action (\<lambda>name. copyToRemote E p (teJoin E [teScripts E, name]) (windowsJoin staging [name]) 120000) canonicalScripts"

definition synchronizeScripts :: "target_env \<Rightarrow> jsstring \<Rightarrow> profile \<Rightarrow> jsval action" where
  "synchronizeScripts E alias p =
    bind (getPreflight E p) (\<lambda>initialPreflight.
    bind (requireNoTaskResidue initialPreflight) (\<lambda>_.
    bind (localScriptHashes E) (\<lambda>expected.
    bind (observe (teFresh E)) (\<lambda>token.
    let staging = dev_path ''windows-control-sync-'' (take 24 token);
        destination = windowsJoin (remoteProjectRoot p) [js ''scripts'', js ''windows''] in
    bind (invokePowerShell E p (CreateDirectory staging) 30000) (\<lambda>_.
    bind (finally_quietly
           (bind (upload_scripts E p staging) (\<lambda>_.
            bind (remote_json E p (SyncScript staging destination expected) 90000 (js ''Windows script synchronization'')) (\<lambda>result.
            check [(prop_of result ''Result'' \<noteq> str ''CAMSTATION_WINDOWS_SCRIPT_SYNC_COMPLETE'', js ''Unexpected script sync result'')])))
           (invokePowerShell E p (RemovePath staging True) 30000)) (\<lambda>_.
    bind (getStatus E p False) (\<lambda>status.
    ret (obj [(''SchemaVersion'', int_value 1), (''Result'', str ''CAMSTATION_WINDOWS_TARGET_SYNC_COMPLETE''),
              (''Target'', JString alias), (''Machine'', prop_of (tsPreflight status) ''Machine''),
              (''ScriptParity'', parity_summary (tsParity status)), (''Status'', statusSummary alias status)]))))))))"

section \<open>Files the user names\<close>

definition validatePlanFile :: "target_env \<Rightarrow> jsstring \<Rightarrow> (jsstring \<times> jsstring) action" where
  "validatePlanFile E planPath =
    bind (regular_file E planPath (js ''Control plan is not a regular file'')) (\<lambda>(path, bytes).
    bind (check [(length bytes < 2 \<or> length bytes > 1024 * 1024, js ''Control plan size is outside the allowed range'')]) (\<lambda>_.
    bind (lift (case teParse E (teText E bytes) of None \<Rightarrow> Inl (js ''SyntaxError'') | Some v \<Rightarrow> Inr v)) (\<lambda>plan.
    bind (check [(\<not> isRecord plan \<or> \<not> number_is (prop_of plan ''schemaVersion'') 1
                    \<or> (case prop_of plan ''steps'' of JArray steps \<Rightarrow> length steps < 1 \<or> length steps > 32 | _ \<Rightarrow> True),
                  js ''Control plan must use schemaVersion 1 with 1 to 32 steps'')]) (\<lambda>_.
    ret (path, teSha256 E bytes)))))"

definition c0_control :: "jschar \<Rightarrow> bool" where "c0_control c \<longleftrightarrow> c \<le> 0x1F \<or> c = 0x7F"

definition configuration_url_ok :: "target_env \<Rightarrow> jsstring \<Rightarrow> failure option" where
  "configuration_url_ok E url =
    (case teUrl E url of
       None \<Rightarrow> Some (js ''Viewer configuration URL must be an absolute HTTP or HTTPS origin'')
     | Some part \<Rightarrow>
         first_failure
          [(part ''protocol'' \<notin> {js ''http:'', js ''https:''} \<or> part ''hostname'' = [],
              js ''Viewer configuration URL must be an absolute HTTP or HTTPS origin''),
           (part ''username'' \<noteq> [] \<or> part ''password'' \<noteq> [] \<or> (part ''pathname'' \<noteq> js ''/'' \<and> part ''pathname'' \<noteq> [])
              \<or> part ''search'' \<noteq> [] \<or> part ''hash'' \<noteq> [],
              js ''Viewer configuration URL must not contain credentials, path, query, or fragment'')])"

definition configuration_checks :: "target_env \<Rightarrow> jsval \<Rightarrow> failure option" where
  "configuration_checks E v =
    (let url = string_of (prop_of v ''serverUrl''); name = string_of (prop_of v ''displayName'') in
     case first_failure
      [(\<not> isRecord v, js ''Viewer configuration must be a JSON object''),
       (sort (object_keys v) \<noteq> sort (map js [''autoStart'', ''displayName'', ''schemaVersion'', ''serverUrl'']),
          js ''Viewer configuration must contain exactly schemaVersion, serverUrl, displayName, and autoStart''),
       (\<not> number_is (prop_of v ''schemaVersion'') 1 \<or> \<not> is_string_value (prop_of v ''serverUrl'')
          \<or> \<not> is_string_value (prop_of v ''displayName'') \<or> \<not> is_bool_value (prop_of v ''autoStart''),
          js ''Viewer configuration fields have invalid types''),
       (js_trim url \<noteq> url \<or> list_ex c0_control url, js ''Viewer configuration URL is invalid'')] of
       Some e \<Rightarrow> Some e
     | None \<Rightarrow>
        (case configuration_url_ok E url of
           Some e \<Rightarrow> Some e
         | None \<Rightarrow> first_failure
             [(js_trim name \<noteq> name \<or> length name < 1 \<or> length name > 128 \<or> list_ex c0_control name,
               js ''Viewer display name is invalid'')]))"

record viewer_configuration =
  vcPath :: jsstring
  vcSha256 :: jsstring
  vcAutoStart :: jsval

definition validateViewerConfigurationFile :: "target_env \<Rightarrow> jsstring \<Rightarrow> viewer_configuration action" where
  "validateViewerConfigurationFile E configurationPath =
    bind (regular_file E configurationPath (js ''Viewer configuration is not a regular file'')) (\<lambda>(path, bytes).
    bind (check [(length bytes < 2 \<or> length bytes > 64 * 1024, js ''Viewer configuration size is outside the allowed range'')]) (\<lambda>_.
    bind (lift (case teParse E (teText E bytes) of None \<Rightarrow> Inl (js ''SyntaxError'') | Some v \<Rightarrow> Inr v)) (\<lambda>v.
    bind (lift (case configuration_checks E v of Some e \<Rightarrow> Inl e | None \<Rightarrow> Inr ())) (\<lambda>_.
    ret \<lparr>vcPath = path, vcSha256 = teSha256 E bytes, vcAutoStart = prop_of v ''autoStart''\<rparr>))))"

section \<open>Evidence\<close>

definition evidenceDirectory :: "target_env \<Rightarrow> jsstring \<Rightarrow> jsstring \<Rightarrow> string \<Rightarrow> jsstring action" where
  "evidenceDirectory E alias runId kind =
    (let directory = teJoin E [teRepository E, js ''work'', js ''windows-control-evidence'', alias, js kind @ [0x2D] @ runId] in
     bind (observe (\<lambda>t. teFile E t directory \<noteq> Missing)) (\<lambda>exists.
     bind (check [(exists, js ''Local evidence directory already exists: '' @ directory)]) (\<lambda>_.
     bind (local (MakeLocal directory)) (\<lambda>_. ret directory))))"

definition verifyDownloadedHash :: "target_env \<Rightarrow> jsstring \<Rightarrow> jsval \<Rightarrow> jsstring \<Rightarrow> unit action" where
  "verifyDownloadedHash E path expected label =
     bind (sha256File E path) (\<lambda>actual.
     check [(JString actual \<noteq> expected, label @ js '' SHA-256 does not match the remote completion record'')])"

definition read_json :: "target_env \<Rightarrow> jsstring \<Rightarrow> jsval action" where
  "read_json E path =
     bind (readFile E path) (\<lambda>bytes.
     lift (case teParse E (teText E bytes) of None \<Rightarrow> Inl (js ''SyntaxError'') | Some v \<Rightarrow> Inr v))"

definition ends_with :: "jsstring \<Rightarrow> jsstring \<Rightarrow> bool" where
  "ends_with s ending = starts_with (rev s) (rev ending)"

definition capture_mode :: "jsval \<Rightarrow> jsval \<Rightarrow> jsval" where
  "capture_mode completion record =
    (let steps = (case prop_of completion ''Steps'' of JArray xs \<Rightarrow> xs | _ \<Rightarrow> []);
         found = find (\<lambda>candidate. prop_of candidate ''Id'' = prop_of record ''StepId'') steps;
         m = (case found of None \<Rightarrow> JUndefined | Some step \<Rightarrow> jpath step [''OutputSummary'', ''capture_mode''])
     in if nullish m then str ''driver'' else m)"

fun fetch_artifacts ::
  "target_env \<Rightarrow> profile \<Rightarrow> jsstring \<Rightarrow> jsstring \<Rightarrow> jsval \<Rightarrow> jsstring list \<Rightarrow> jsval list \<Rightarrow> jsval list action" where
  "fetch_artifacts E p remoteDirectory localDirectory completion seen [] = ret []"
| "fetch_artifacts E p remoteDirectory localDirectory completion seen (record # records) =
    (let name = string_of (prop_of record ''Name''); localPath = teJoin E [localDirectory, name] in
     bind (check [(\<not> string_passes evidenceNamePattern (prop_of record ''Name'') \<or> \<not> ends_with name (js ''.png'') \<or> name \<in> set seen,
                   js ''Control completion record contains an unsafe or duplicate artifact name'')]) (\<lambda>_.
     bind (copyFromRemote E p (windowsJoin remoteDirectory [name]) localPath 120000) (\<lambda>_.
     bind (verifyDownloadedHash E localPath (prop_of record ''Sha256'') name) (\<lambda>_.
     bind (readFile E localPath) (\<lambda>bytes.
     bind (fetch_artifacts E p remoteDirectory localDirectory completion (name # seen) records) (\<lambda>artifacts.
     ret (obj [(''Name'', JString name), (''Path'', JString localPath), (''Bytes'', int_value (int (length bytes))),
               (''Sha256'', prop_of record ''Sha256''), (''CaptureMode'', capture_mode completion record)] # artifacts)))))))"

record evidence =
  evDirectory :: jsstring
  evCompletion :: jsstring
  evArtifacts :: "jsval list"

definition fetchControlEvidence :: "target_env \<Rightarrow> jsstring \<Rightarrow> profile \<Rightarrow> jsval \<Rightarrow> jsstring \<Rightarrow> evidence action" where
  "fetchControlEvidence E alias p r planSha256 =
    (let runId = string_of (prop_of r ''RunId'');
         expectedDirectory = dev_path ''windows-control-runs'' ([0x5C] @ runId) in
    bind (check
      [(\<not> string_passes runIdPattern (prop_of r ''RunId''), js ''Control result returned an invalid RunId''),
       (\<not> teSame E (prop_of r ''ResultDirectory'') expectedDirectory, js ''Control result directory escaped the canonical root''),
       (prop_of r ''Result'' \<noteq> str ''WINDOWS_CONTROL_PLAN_COMPLETE'' \<or> prop_of r ''TaskDeleted'' \<noteq> JBool True
          \<or> jpath r [''Worker'', ''Success''] \<noteq> JBool True,
          js ''Windows control plan did not complete with a deleted one-shot task''),
       (\<not> teSame E (prop_of r ''TargetUser'') (targetUser p) \<or> \<not> number_is (prop_of r ''TargetSessionId'') (expectedSessionId p)
          \<or> prop_of r ''PlanSha256'' \<noteq> JString planSha256 \<or> jpath r [''Worker'', ''PlanSha256''] \<noteq> JString planSha256,
          js ''Windows control result identity or plan hash does not match the request'')]) (\<lambda>_.
    bind (evidenceDirectory E alias runId ''control'') (\<lambda>localDirectory.
    let completionPath = teJoin E [localDirectory, js ''complete.json''] in
    bind (copyFromRemote E p (windowsJoin expectedDirectory [js ''complete.json'']) completionPath 120000) (\<lambda>_.
    bind (read_json E completionPath) (\<lambda>completion.
    bind (check [(prop_of completion ''Success'' \<noteq> JBool True \<or> prop_of completion ''PlanSha256'' \<noteq> JString planSha256
                    \<or> \<not> number_is (prop_of completion ''SessionId'') (expectedSessionId p),
                  js ''Downloaded control completion record does not match the request'')]) (\<lambda>_.
    bind (case prop_of completion ''Artifacts'' of
            JArray records \<Rightarrow> fetch_artifacts E p expectedDirectory localDirectory completion [] records
          | v \<Rightarrow> if nullish v then ret [] else throw (js ''TypeError'')) (\<lambda>artifacts.
    ret \<lparr>evDirectory = localDirectory, evCompletion = completionPath, evArtifacts = artifacts\<rparr>)))))))"

section \<open>plan, desktop-capture, cleanup\<close>

definition cleanup_checks :: "jsval \<Rightarrow> failure \<Rightarrow> unit action" where
  "cleanup_checks cleanup message =
     check [(prop_of cleanup ''Result'' \<noteq> str ''WINDOWS_CONTROL_CLEANUP_COMPLETE'' \<or> prop_of cleanup ''Remaining'' \<noteq> JBool False
               \<or> \<not> number_is (prop_of cleanup ''ExistingControlTasks'') 0, message)]"

definition cleanup_arguments :: "jsstring \<Rightarrow> jsstring" where
  "cleanup_arguments runId = js ''-Mode Cleanup -RunId '' @ psLiteral runId"

definition invokeControlPlan :: "target_env \<Rightarrow> jsstring \<Rightarrow> profile \<Rightarrow> jsstring \<Rightarrow> jsval action" where
  "invokeControlPlan E alias p planPath =
    bind (getStatus E p False) (\<lambda>readiness.
    let preflight = tsPreflight readiness in
    bind (requireActiveDesktop (tsStatus readiness)) (\<lambda>_.
    bind (requireNoTaskResidue preflight) (\<lambda>_.
    bind (requireParity E preflight [controlLauncherName, controlWorkerName]) (\<lambda>_.
    bind (check [(\<not> number_is (prop_of preflight ''ControlTaskCount'') 0, js ''Another Windows control task already exists'')]) (\<lambda>_.
    bind (validatePlanFile E planPath) (\<lambda>(path, sha).
    bind (observe (teFresh E)) (\<lambda>token.
    let requestDirectory = dev_path ''windows-control-requests'' [];
        remotePlan = windowsJoin requestDirectory [js ''request-'' @ take 24 token @ js ''.json''] in
    bind (invokePowerShell E p (CreateRequest requestDirectory remotePlan) 30000) (\<lambda>_.
    bind (copyToRemote E p path remotePlan 120000) (\<lambda>_.
    bind (finally_quietly
           (remote_json E p (PlanScript remotePlan sha (launcherPath p) (targetUser p)) 300000 (js ''Windows control plan''))
           (invokePowerShell E p (RemovePath remotePlan False) 30000)) (\<lambda>r.
    bind (fetchControlEvidence E alias p r sha) (\<lambda>evidence.
    bind (invokeLauncher E p (cleanup_arguments (string_of (prop_of r ''RunId''))) 60000) (\<lambda>cleanup.
    bind (cleanup_checks cleanup (js ''Exact Windows control run cleanup did not complete'')) (\<lambda>_.
    bind (getStatus E p False) (\<lambda>post.
    ret (obj
      [(''SchemaVersion'', int_value 1), (''Result'', str ''CAMSTATION_WINDOWS_TARGET_PLAN_COMPLETE''), (''Target'', JString alias),
       (''Machine'', prop_of (tsPreflight post) ''Machine''), (''TargetUser'', prop_of (tsStatus post) ''TargetUser''),
       (''TargetSessionId'', prop_of (tsStatus post) ''TargetSessionId''), (''RunId'', prop_of r ''RunId''),
       (''ElapsedMs'', prop_of r ''ElapsedMs''), (''TaskDeleted'', prop_of r ''TaskDeleted''),
       (''RequiresVisualVerification'', jpath r [''Worker'', ''RequiresVisualVerification'']),
       (''Assertions'', jpath r [''Worker'', ''Assertions'']), (''EvidenceDirectory'', JString (evDirectory evidence)),
       (''CompletionPath'', JString (evCompletion evidence)), (''Artifacts'', JArray (evArtifacts evidence)),
       (''RemoteRunRemoved'', JBool (prop_of cleanup ''Remaining'' = JBool False)),
       (''PostStatus'', statusSummary alias post)])))))))))))))))"

definition captureDesktop :: "target_env \<Rightarrow> jsstring \<Rightarrow> profile \<Rightarrow> jsval action" where
  "captureDesktop E alias p =
    bind (observe (teTemporary E)) (\<lambda>temporaryDirectory.
    bind (local (MakeLocal temporaryDirectory)) (\<lambda>_.
    let planPath = teJoin E [temporaryDirectory, js ''desktop-capture.json''] in
    finally_quietly
      (bind (local (WriteLocal planPath)) (\<lambda>_. invokeControlPlan E alias p planPath))
      (local (RemoveLocal temporaryDirectory))))"

definition cleanupControlRun :: "target_env \<Rightarrow> jsstring \<Rightarrow> profile \<Rightarrow> jsstring \<Rightarrow> jsval action" where
  "cleanupControlRun E alias p runId =
    bind (getPreflight E p) (\<lambda>preflight.
    bind (check [(\<not> number_is (prop_of preflight ''SetupTaskCount'') 0 \<or> \<not> number_is (prop_of preflight ''ViewerCaptureTaskCount'') 0
                    \<or> \<not> number_is (prop_of preflight ''ViewerConfigureTaskCount'') 0,
                  js ''An unrelated CamStation one-shot task already exists on the selected target'')]) (\<lambda>_.
    bind (requireParity E preflight [controlLauncherName]) (\<lambda>_.
    bind (invokeLauncher E p (cleanup_arguments runId) 60000) (\<lambda>cleanup.
    bind (cleanup_checks cleanup (js ''Windows control cleanup failed'')) (\<lambda>_.
    bind (getStatus E p False) (\<lambda>post.
    ret (obj
      [(''SchemaVersion'', int_value 1), (''Result'', str ''CAMSTATION_WINDOWS_TARGET_CLEANUP_COMPLETE''), (''Target'', JString alias),
       (''Machine'', prop_of (tsPreflight post) ''Machine''), (''RunId'', JString runId),
       (''Removed'', prop_of cleanup ''Removed''), (''Remaining'', prop_of cleanup ''Remaining''),
       (''Status'', statusSummary alias post)])))))))"

end
