(* ===== verification/TargetExecute.thy ===== *)
theory TargetExecute
  imports TargetModes
begin

text \<open>
  \<open>scripts/windows/Invoke-CamStationWindowsTarget.mjs\<close>, last part: capture and configuration of the
  viewer, setup, system scripts, artifact transfer, the dispatch \<open>execute\<close> and the program itself.
\<close>

section \<open>viewer-capture\<close>

definition capture_record :: "target_env \<Rightarrow> profile \<Rightarrow> jsstring \<Rightarrow> jsstring \<Rightarrow> jsstring \<times> jsval \<Rightarrow> jsval action" where
  "capture_record E p remoteDirectory localDirectory rec =
    (case rec of (name, hash) \<Rightarrow>
     let localPath = teJoin E [localDirectory, name] in
     bind (check [(\<not> string_passes sha256Pattern hash, js ''Viewer evidence hash is missing for '' @ name)]) (\<lambda>_.
     bind (copyFromRemote E p (windowsJoin remoteDirectory [name]) localPath 120000) (\<lambda>_.
     bind (verifyDownloadedHash E localPath hash name) (\<lambda>_.
     bind (readFile E localPath) (\<lambda>bytes.
     ret (obj [(''Name'', JString name), (''Path'', JString localPath), (''Bytes'', int_value (int (length bytes))),
               (''Sha256'', hash)]))))))"

definition capture_result_checks :: "target_env \<Rightarrow> profile \<Rightarrow> jsval \<Rightarrow> (bool \<times> failure) list" where
  "capture_result_checks E p r =
    [(prop_of r ''Result'' \<noteq> str ''INTERACTIVE_GUI_CAPTURE_COMPLETE'' \<or> prop_of r ''TaskDeleted'' \<noteq> JBool True
        \<or> jpath r [''Worker'', ''Success''] \<noteq> JBool True \<or> \<not> string_passes runIdPattern (prop_of r ''RunId''),
        js ''Viewer capture did not complete with a deleted one-shot task''),
     (\<not> teSame E (prop_of r ''TargetUser'') (targetUser p) \<or> \<not> number_is (prop_of r ''TargetSessionId'') (expectedSessionId p)
        \<or> \<not> number_is (jpath r [''Worker'', ''SessionId'']) (expectedSessionId p),
        js ''Viewer capture returned the wrong user or session'')]"

definition captureViewer :: "target_env \<Rightarrow> jsstring \<Rightarrow> profile \<Rightarrow> jsstring \<Rightarrow> jsval action" where
  "captureViewer E alias p operation =
    bind (getStatus E p False) (\<lambda>readiness.
    let preflight = tsPreflight readiness in
    bind (requireActiveDesktop (tsStatus readiness)) (\<lambda>_.
    bind (requireNoTaskResidue preflight) (\<lambda>_.
    bind (requireParity E preflight [controlLauncherName, viewerLauncherName, viewerWorkerName]) (\<lambda>_.
    bind (check [(\<not> number_is (prop_of preflight ''ViewerCaptureTaskCount'') 0, js ''Another Viewer capture task already exists'')]) (\<lambda>_.
    bind (invokeLauncher E p (js ''-Mode ViewerCapture -ViewerOperation '' @ operation) 180000) (\<lambda>r.
    bind (check (capture_result_checks E p r)) (\<lambda>_.
    let runId = string_of (prop_of r ''RunId''); remoteDirectory = dev_path ''gui-evidence'' ([0x5C] @ runId) in
    bind (check [(\<not> teSame E (prop_of r ''ResultDirectory'') remoteDirectory, js ''Viewer evidence directory escaped the canonical root'')]) (\<lambda>_.
    bind (evidenceDirectory E alias runId ''viewer'') (\<lambda>localDirectory.
    bind (map_action (capture_record E p remoteDirectory localDirectory)
            [(js ''viewer-window.png'', jpath r [''Worker'', ''Screenshot'', ''Sha256'']),
             (js ''uia.json'', jpath r [''Worker'', ''UIAutomation'', ''Sha256''])]) (\<lambda>artifacts.
    let completionPath = teJoin E [localDirectory, js ''complete.json''] in
    bind (copyFromRemote E p (windowsJoin remoteDirectory [js ''complete.json'']) completionPath 120000) (\<lambda>_.
    bind (read_json E completionPath) (\<lambda>completion.
    bind (check [(prop_of completion ''Success'' \<noteq> JBool True
                    \<or> \<not> number_is (prop_of completion ''SessionId'') (expectedSessionId p)
                    \<or> jpath completion [''Screenshot'', ''Sha256''] \<noteq> jpath r [''Worker'', ''Screenshot'', ''Sha256'']
                    \<or> jpath completion [''UIAutomation'', ''Sha256''] \<noteq> jpath r [''Worker'', ''UIAutomation'', ''Sha256''],
                  js ''Downloaded Viewer completion record does not match the selected target'')]) (\<lambda>_.
    bind (remote_json E p (EvidenceCleanup remoteDirectory (js ''CamStation-GuiCapture-'' @ runId)) 60000
            (js ''Viewer evidence cleanup'')) (\<lambda>cleanup.
    bind (check [(prop_of cleanup ''Result'' \<noteq> str ''CAMSTATION_VIEWER_EVIDENCE_CLEANUP'' \<or> prop_of cleanup ''Remaining'' \<noteq> JBool False,
                  js ''Viewer evidence cleanup failed'')]) (\<lambda>_.
    bind (getPreflight E p) (\<lambda>post.
    bind (check [(\<not> number_is (prop_of post ''ViewerCaptureTaskCount'') 0, js ''Viewer capture task residue remains'')]) (\<lambda>_.
    ret (obj
      [(''SchemaVersion'', int_value 1), (''Result'', str ''CAMSTATION_WINDOWS_TARGET_VIEWER_CAPTURE_COMPLETE''),
       (''Target'', JString alias), (''Machine'', prop_of post ''Machine''), (''TargetUser'', prop_of r ''TargetUser''),
       (''TargetSessionId'', prop_of r ''TargetSessionId''), (''Operation'', JString operation), (''RunId'', prop_of r ''RunId''),
       (''TaskDeleted'', prop_of r ''TaskDeleted''), (''EvidenceDirectory'', JString localDirectory),
       (''CompletionPath'', JString completionPath), (''Artifacts'', JArray artifacts),
       (''RemoteRunRemoved'', JBool (prop_of cleanup ''Remaining'' = JBool False))]))))))))))))))))))"

section \<open>viewer-configure\<close>

definition configuration_result_ok :: "target_env \<Rightarrow> profile \<Rightarrow> viewer_configuration \<Rightarrow> jsval \<Rightarrow> bool" where
  "configuration_result_ok E p c r \<longleftrightarrow>
     prop_of r ''Result'' = str ''CAMSTATION_VIEWER_CONFIGURATION_COMPLETE'' \<and> prop_of r ''ConfigurationSha256'' = JString (vcSha256 c)
     \<and> teSame E (prop_of r ''TargetUser'') (targetUser p) \<and> number_is (prop_of r ''TargetSessionId'') (expectedSessionId p)
     \<and> prop_of r ''TaskDeleted'' = JBool True \<and> prop_of r ''RunDirectoryRemoved'' = JBool True
     \<and> prop_of r ''ViewerService'' = str ''Running'' \<and> prop_of r ''AutoStart'' = vcAutoStart c
     \<and> (prop_of r ''ClientIdPreserved'' = JBool True \<or> prop_of r ''ClientIdCreated'' = JBool True)"

definition configureViewer :: "target_env \<Rightarrow> jsstring \<Rightarrow> profile \<Rightarrow> jsstring \<Rightarrow> jsval action" where
  "configureViewer E alias p configurationPath =
    bind (getStatus E p False) (\<lambda>readiness.
    let preflight = tsPreflight readiness in
    bind (requireActiveDesktop (tsStatus readiness)) (\<lambda>_.
    bind (requireNoTaskResidue preflight) (\<lambda>_.
    bind (requireParity E preflight [controlLauncherName, viewerConfigureLauncherName, viewerConsoleLaunchName]) (\<lambda>_.
    bind (check [(prop_of preflight ''ViewerService'' \<noteq> str ''Running'',
                  js ''CamStationViewerService must be running before configuration'')]) (\<lambda>_.
    bind (validateViewerConfigurationFile E configurationPath) (\<lambda>c.
    bind (observe (teFresh E)) (\<lambda>token.
    let requestDirectory = dev_path ''viewer-configuration-requests'' [];
        remoteConfiguration = windowsJoin requestDirectory [js ''request-'' @ take 24 token @ js ''.json''] in
    bind (invokePowerShell E p (CreateRequest requestDirectory remoteConfiguration) 30000) (\<lambda>_.
    bind (copyToRemote E p (vcPath c) remoteConfiguration 120000) (\<lambda>_.
    bind (finally_quietly
           (remote_json E p (ConfigureScript remoteConfiguration (vcSha256 c) (launcherPath p) (targetUser p)) 240000
              (js ''Viewer configuration''))
           (invokePowerShell E p (RemovePath remoteConfiguration False) 30000)) (\<lambda>r.
    bind (check [(\<not> configuration_result_ok E p c r,
                  js ''Viewer configuration result did not preserve or create its private client identity'')]) (\<lambda>_.
    bind (getStatus E p False) (\<lambda>post.
    bind (check [(\<not> number_is (prop_of (tsPreflight post) ''ViewerConfigureTaskCount'') 0, js ''Viewer configuration task residue remains'')]) (\<lambda>_.
    ret (obj
      [(''SchemaVersion'', int_value 1), (''Result'', str ''CAMSTATION_WINDOWS_TARGET_VIEWER_CONFIGURE_COMPLETE''),
       (''Target'', JString alias), (''Machine'', prop_of (tsPreflight post) ''Machine''),
       (''TargetUser'', prop_of (tsStatus post) ''TargetUser''), (''TargetSessionId'', prop_of (tsStatus post) ''TargetSessionId''),
       (''ConfigurationSha256'', JString (vcSha256 c)), (''ServerOriginSha256'', prop_of r ''ServerOriginSha256''),
       (''DisplayNameSha256'', prop_of r ''DisplayNameSha256''), (''AutoStart'', prop_of r ''AutoStart''),
       (''ClientIdPreserved'', prop_of r ''ClientIdPreserved''), (''ClientIdCreated'', prop_of r ''ClientIdCreated''),
       (''ViewerService'', prop_of r ''ViewerService''), (''TaskDeleted'', prop_of r ''TaskDeleted''),
       (''RunDirectoryRemoved'', prop_of r ''RunDirectoryRemoved''), (''ElapsedMs'', prop_of r ''ElapsedMs''),
       (''PostStatus'', statusSummary alias post)]))))))))))))))"

section \<open>setup\<close>

text \<open>The staging directory and the archive in it, if an archive was given.\<close>

definition upload_archive :: "target_env \<Rightarrow> profile \<Rightarrow> jsstring option \<Rightarrow> (jsstring \<times> jsstring) option action" where
  "upload_archive E p archivePath =
    (case archivePath of
       None \<Rightarrow> ret None
     | Some path \<Rightarrow>
        bind (regular_file E path (js ''Driver archive is not a regular file'')) (\<lambda>(archive, bytes).
        bind (observe (teFresh E)) (\<lambda>now.
        let staging = dev_path ''windows-control-setup-upload-'' now; remoteArchive = windowsJoin staging [teBase E archive] in
        bind (invokePowerShell E p (CreateDirectory staging) 30000) (\<lambda>_.
        bind (copyToRemote E p archive remoteArchive 300000) (\<lambda>_. ret (Some (staging, remoteArchive)))))))"

definition setup_result_ok :: "profile \<Rightarrow> jsval \<Rightarrow> bool" where
  "setup_result_ok p r \<longleftrightarrow>
     prop_of r ''Result'' = str ''WINDOWS_CONTROL_SETUP_COMPLETE'' \<and> prop_of r ''TelemetryDisabled'' = JBool True
     \<and> number_is (prop_of r ''DriverSessionId'') (expectedSessionId p) \<and> number_is (prop_of r ''TemporarySetupTaskCount'') 0
     \<and> (case prop_of r ''Files'' of JArray files \<Rightarrow> list_all (\<lambda>f. prop_of f ''Matches'' = JBool True) files | v \<Rightarrow> nullish v)"

definition setupControl :: "target_env \<Rightarrow> jsstring \<Rightarrow> profile \<Rightarrow> jsstring option \<Rightarrow> jsval action" where
  "setupControl E alias p archivePath =
    bind (getPreflight E p) (\<lambda>preflight.
    bind (requireNoTaskResidue preflight) (\<lambda>_.
    bind (requireParity E preflight [setupName, controlLauncherName]) (\<lambda>_.
    bind (upload_archive E p archivePath) (\<lambda>upload.
    bind (finally_quietly
           (remote_json E p (SetupScript (windowsJoin (remoteProjectRoot p) [js ''scripts'', js ''windows'', setupName])
              (targetUser p) (map_option snd upload)) 600000 (js ''Windows control setup''))
           (case upload of None \<Rightarrow> ret [] | Some (staging, a) \<Rightarrow> invokePowerShell E p (RemovePath staging True) 30000)) (\<lambda>r.
    bind (check [(\<not> setup_result_ok p r, js ''Pinned Windows control setup did not pass its final audit'')]) (\<lambda>_.
    bind (getStatus E p False) (\<lambda>status.
    ret (obj
      [(''SchemaVersion'', int_value 1), (''Result'', str ''CAMSTATION_WINDOWS_TARGET_SETUP_COMPLETE''), (''Target'', JString alias),
       (''Machine'', prop_of (tsPreflight status) ''Machine''), (''InstalledNow'', prop_of r ''InstalledNow''),
       (''DriverVersion'', prop_of r ''DriverVersion''), (''DriverProcessId'', prop_of r ''DriverProcessId''),
       (''DriverSessionId'', prop_of r ''DriverSessionId''), (''TelemetryDisabled'', prop_of r ''TelemetryDisabled''),
       (''TemporarySetupTaskCount'', prop_of r ''TemporarySetupTaskCount''), (''Status'', statusSummary alias status)]))))))))"

section \<open>system\<close>

definition system_result_ok :: "target_env \<Rightarrow> profile \<Rightarrow> jsstring \<Rightarrow> jsstring \<Rightarrow> jsval \<Rightarrow> bool" where
  "system_result_ok E p hash intent r \<longleftrightarrow>
     prop_of r ''Result'' = str ''CAMSTATION_WINDOWS_SYSTEM_SCRIPT_COMPLETE'' \<and> teSame E (prop_of r ''Machine'') (expectedMachine p)
     \<and> teSame E (prop_of r ''MaintenanceIdentity'') (expectedMaintenanceIdentity p)
     \<and> prop_of r ''ScriptSha256'' = JString hash \<and> prop_of r ''Intent'' = JString intent"

definition runSystemScript :: "target_env \<Rightarrow> jsstring \<Rightarrow> profile \<Rightarrow> jsstring \<Rightarrow> jsstring \<Rightarrow> jsval action" where
  "runSystemScript E alias p scriptPath intent =
    bind (getPreflight E p) (\<lambda>_.
    bind (regular_file E scriptPath (js ''System control script must be a regular .ps1 file'')) (\<lambda>(localPath, bytes).
    bind (check [(\<not> ends_with (teLower E localPath) (js ''.ps1''), js ''System control script must be a regular .ps1 file''),
                 (length bytes < 1 \<or> length bytes > 1024 * 1024, js ''System control script size is outside the allowed range'')]) (\<lambda>_.
    bind (observe (teFresh E)) (\<lambda>token.
    let hash = teSha256 E bytes; remoteDirectory = dev_path ''windows-system-run-'' (take 24 token);
        remoteScript = windowsJoin remoteDirectory [js ''operation.ps1''] in
    bind (invokePowerShell E p (CreateDirectory remoteDirectory) 30000) (\<lambda>_.
    bind (copyToRemote E p localPath remoteScript 120000) (\<lambda>_.
    bind (finally_quietly
           (remote_json E p (SystemScript remoteDirectory remoteScript hash intent) 600000 (js ''Windows system control script''))
           (invokePowerShell E p (RemovePath remoteDirectory True) 30000)) (\<lambda>r.
    bind (check [(\<not> system_result_ok E p hash intent r, js ''System control result did not match the selected target and script'')]) (\<lambda>_.
    bind (getPreflight E p) (\<lambda>post.
    bind (check [(\<not> number_is (prop_of r ''ExitCode'') 0, js ''System control script exited with an error'')]) (\<lambda>_.
    ret (obj
      [(''SchemaVersion'', int_value 1), (''Result'', str ''CAMSTATION_WINDOWS_TARGET_SYSTEM_COMPLETE''), (''Target'', JString alias),
       (''Machine'', prop_of post ''Machine''), (''MaintenanceIdentity'', prop_of post ''MaintenanceIdentity''),
       (''TargetUser'', JString (targetUser p)), (''TargetSessionId'', int_value (expectedSessionId p)), (''Intent'', JString intent),
       (''ScriptSha256'', JString hash), (''Stdout'', prop_of r ''Stdout''), (''Stderr'', prop_of r ''Stderr''),
       (''Residue'', obj [(''ControlTasks'', prop_of post ''ControlTaskCount''), (''SetupTasks'', prop_of post ''SetupTaskCount''),
          (''ViewerCaptureTasks'', prop_of post ''ViewerCaptureTaskCount''),
          (''ViewerConfigureTasks'', prop_of post ''ViewerConfigureTaskCount'')])])))))))))))"

section \<open>Artifacts\<close>

definition artifactDirectory :: "profile \<Rightarrow> jsstring" where
  "artifactDirectory p = windowsJoin (remoteProjectRoot p) [js ''work'', js ''windows-control-artifacts'']"

definition localArtifactDirectory :: "target_env \<Rightarrow> jsstring \<Rightarrow> jsstring action" where
  "localArtifactDirectory E alias =
    (let path = teJoin E [teRepository E, js ''work'', js ''windows-control-artifacts'', alias] in
     bind (local (MakeLocal path)) (\<lambda>_. ret path))"

definition is_safe_integer :: "jsval \<Rightarrow> bool" where
  "is_safe_integer v \<longleftrightarrow> is_int_value v \<and> \<bar>integer_value v\<bar> \<le> 9007199254740991"

definition inspectRemoteArtifact :: "target_env \<Rightarrow> profile \<Rightarrow> jsstring \<Rightarrow> jsstring \<Rightarrow> bool \<Rightarrow> jsval action" where
  "inspectRemoteArtifact E p artifactName expectedSha256 createDirectory =
    (let directory = artifactDirectory p; path = windowsJoin directory [artifactName] in
     bind (remote_json E p (ArtifactScript directory path expectedSha256 artifactName createDirectory) 180000
             (js ''Windows artifact verification'')) (\<lambda>r.
     bind (check [(prop_of r ''Result'' \<noteq> str ''WINDOWS_ARTIFACT_VERIFIED'' \<or> prop_of r ''Name'' \<noteq> JString artifactName
                     \<or> prop_of r ''SHA256'' \<noteq> JString expectedSha256 \<or> \<not> is_safe_integer (prop_of r ''SizeBytes''),
                   js ''Windows artifact verification result did not match its contract'')]) (\<lambda>_. ret r)))"

definition pullArtifact :: "target_env \<Rightarrow> jsstring \<Rightarrow> profile \<Rightarrow> jsstring \<Rightarrow> jsstring \<Rightarrow> jsval action" where
  "pullArtifact E alias p artifactName expectedSha256 =
    bind (getPreflight E p) (\<lambda>preflight.
    bind (requireNoTaskResidue preflight) (\<lambda>_.
    bind (inspectRemoteArtifact E p artifactName expectedSha256 False) (\<lambda>remote.
    bind (localArtifactDirectory E alias) (\<lambda>directory.
    let out = teJoin E [directory, artifactName] in
    bind (observe (\<lambda>t. teFile E t out \<noteq> Missing)) (\<lambda>exists.
    bind (check [(exists, js ''Local artifact output already exists'')]) (\<lambda>_.
    bind (copyFromRemote E p (windowsJoin (artifactDirectory p) [artifactName]) out 600000) (\<lambda>_.
    bind (readFile E out) (\<lambda>bytes.
    bind (if teSha256 E bytes \<noteq> expectedSha256 \<or> \<not> number_is (prop_of remote ''SizeBytes'') (int (length bytes))
          then bind (local (RemoveLocal out)) (\<lambda>_. throw (js ''Retrieved artifact did not match the verified remote file''))
          else ret ()) (\<lambda>_.
    bind (getPreflight E p) (\<lambda>post.
    bind (requireNoTaskResidue post) (\<lambda>_.
    ret (obj
      [(''SchemaVersion'', int_value 1), (''Result'', str ''CAMSTATION_WINDOWS_ARTIFACT_PULLED''), (''Target'', JString alias),
       (''Machine'', prop_of post ''Machine''), (''Name'', JString artifactName), (''SizeBytes'', prop_of remote ''SizeBytes''),
       (''SHA256'', JString expectedSha256), (''LocalPath'', JString out)]))))))))))))"

definition pushArtifact :: "target_env \<Rightarrow> jsstring \<Rightarrow> profile \<Rightarrow> jsstring \<Rightarrow> jsstring \<Rightarrow> jsstring \<Rightarrow> jsval action" where
  "pushArtifact E alias p artifactName expectedSha256 localFile =
    bind (getPreflight E p) (\<lambda>preflight.
    bind (requireNoTaskResidue preflight) (\<lambda>_.
    bind (observe (\<lambda>t. teReal E t localFile)) (\<lambda>resolved.
    bind (lift resolved) (\<lambda>localPath.
    bind (localArtifactDirectory E alias) (\<lambda>directory.
    bind (observe (\<lambda>t. teReal E t directory)) (\<lambda>resolvedRoot.
    bind (lift resolvedRoot) (\<lambda>allowedRoot.
    bind (observe (\<lambda>t. teFile E t localPath)) (\<lambda>entry.
    let bytes = (case entry of File b \<Rightarrow> b | _ \<Rightarrow> []) in
    bind (check [(\<not> starts_with localPath (allowedRoot @ [teSeparator E]) \<or> (case entry of File b \<Rightarrow> False | _ \<Rightarrow> True)
                    \<or> teBase E localPath \<noteq> artifactName \<or> length bytes < 1 \<or> length bytes > 536870912
                    \<or> teSha256 E bytes \<noteq> expectedSha256,
                  js ''Local artifact is outside the verified artifact directory or does not match its contract'')]) (\<lambda>_.
    let remotePath = windowsJoin (artifactDirectory p) [artifactName] in
    bind (invokePowerShell E p (PrepareArtifact (artifactDirectory p) remotePath) 30000) (\<lambda>_.
    bind (on_error_quietly
           (bind (copyToRemote E p localPath remotePath 600000) (\<lambda>_.
            bind (inspectRemoteArtifact E p artifactName expectedSha256 True) (\<lambda>remote.
            bind (readFile E localPath) (\<lambda>now.
            check [(\<not> number_is (prop_of remote ''SizeBytes'') (int (length now)), js ''Remote artifact size mismatch'')]))))
           (invokePowerShell E p (RemovePath remotePath False) 30000)) (\<lambda>_.
    bind (getPreflight E p) (\<lambda>post.
    bind (requireNoTaskResidue post) (\<lambda>_.
    bind (readFile E localPath) (\<lambda>final.
    ret (obj
      [(''SchemaVersion'', int_value 1), (''Result'', str ''CAMSTATION_WINDOWS_ARTIFACT_PUSHED''), (''Target'', JString alias),
       (''Machine'', prop_of post ''Machine''), (''Name'', JString artifactName), (''SizeBytes'', int_value (int (length final))),
       (''SHA256'', JString expectedSha256)])))))))))))))))"

section \<open>The program\<close>

definition opt_or_empty :: "target_options \<Rightarrow> string \<Rightarrow> jsstring" where
  "opt_or_empty options key = (case opt options key of None \<Rightarrow> [] | Some s \<Rightarrow> s)"

definition target_execute :: "target_env \<Rightarrow> (jsstring \<times> profile) list \<Rightarrow> target_options \<Rightarrow> jsval action" where
  "target_execute E profiles options =
    (let alias = opt_or_empty options ''target'' in
     case map_of profiles alias of
       None \<Rightarrow> throw (js ''TypeError'')
     | Some p \<Rightarrow>
        if mode_is options ''status''
        then bind (getStatus E p (opt_flag options ''fullAudit'')) (\<lambda>s. ret (statusSummary alias s))
        else if mode_is options ''sync'' then synchronizeScripts E alias p
        else if mode_is options ''setup'' then setupControl E alias p (opt options ''archive'')
        else if mode_is options ''plan'' then invokeControlPlan E alias p (opt_or_empty options ''plan'')
        else if mode_is options ''desktop-capture'' then captureDesktop E alias p
        else if mode_is options ''viewer-capture'' then captureViewer E alias p (opt_or_empty options ''viewerOperation'')
        else if mode_is options ''viewer-configure'' then configureViewer E alias p (opt_or_empty options ''configuration'')
        else if mode_is options ''cleanup'' then cleanupControlRun E alias p (opt_or_empty options ''runId'')
        else if mode_is options ''system'' then runSystemScript E alias p (opt_or_empty options ''script'') (opt_or_empty options ''intent'')
        else if mode_is options ''artifact-pull''
        then pullArtifact E alias p (opt_or_empty options ''artifactName'') (opt_or_empty options ''expectedSha256'')
        else if mode_is options ''artifact-push''
        then pushArtifact E alias p (opt_or_empty options ''artifactName'') (opt_or_empty options ''expectedSha256'')
               (opt_or_empty options ''localFile'')
        else throw (js ''Unsupported mode''))"

datatype program_output =
  Usage
| Printed jsval
| Failed failure  \<comment> \<open>on the error stream, with exit code 1\<close>

definition target_main ::
  "target_env \<Rightarrow> (failure + (jsstring \<times> profile) list) \<Rightarrow> jsstring list \<Rightarrow> history \<Rightarrow> program_output \<times> history" where
  "target_main E loaded argv t =
    (case parseArguments argv of
       Inl e \<Rightarrow> (Failed e, t)
     | Inr options \<Rightarrow>
         if opt_flag options ''help'' then (Usage, t)
         else (case loaded of
                 Inl e \<Rightarrow> (Failed e, t)
               | Inr profiles \<Rightarrow>
                   (case target_execute E profiles options t of
                      (Inl e, t') \<Rightarrow> (Failed e, t')
                    | (Inr v, t') \<Rightarrow> (Printed v, t'))))"

end
