(* ===== verification/TargetProps.thy ===== *)
theory TargetProps
  imports TargetExecute
begin

text \<open>
  What the Windows target script guarantees: nothing but the preflight reaches a target that is not
  the expected one, staging directories are removed, transferred artifacts are verified, options
  belong to their mode, and quoted strings are read back as they were.
\<close>

section \<open>Histories\<close>

text \<open>Every effect an action adds satisfies \<open>P\<close>.\<close>

definition emits :: "(effect \<Rightarrow> bool) \<Rightarrow> 'a action \<Rightarrow> bool" where
  "emits P m \<longleftrightarrow> (\<forall>t. \<exists>es. snd (m t) = t @ es \<and> list_all P es)"

named_theorems emits_intros

lemma emitsI: "(\<And>t. \<exists>es. snd (m t) = t @ es \<and> list_all P es) \<Longrightarrow> emits P m"
  by (simp add: emits_def)

lemma emits_mono: "emits P m \<Longrightarrow> (\<And>c. P c \<Longrightarrow> Q c) \<Longrightarrow> emits Q m"
  unfolding emits_def by (metis list.pred_mono_strong)

lemma emits_pure [emits_intros]:
  "emits P (ret x)" "emits P (throw e)" "emits P (lift r)" "emits P (check cs)" "emits P (observe f)"
  by (simp_all add: emits_def ret_def throw_def lift_def check_def observe_def)

lemma emits_local [emits_intros]: "P c \<Longrightarrow> emits P (local c)"
  by (auto simp: emits_def local_def)

lemma emits_bind [emits_intros]:
  assumes m: "emits P m" and f: "\<And>x. emits P (f x)"
  shows "emits P (bind m f)"
proof (rule emitsI)
  fix t
  obtain es where es: "snd (m t) = t @ es" "list_all P es" using m by (auto simp: emits_def)
  show "\<exists>es. snd (bind m f t) = t @ es \<and> list_all P es"
  proof (cases "m t")
    case (Pair r t')
    show ?thesis
    proof (cases r)
      case (Inl e)
      with Pair es show ?thesis by (auto simp: bind_def)
    next
      case (Inr x)
      obtain fs where "snd (f x t') = t' @ fs" "list_all P fs" using f [of x] by (auto simp: emits_def)
      with Inr Pair es show ?thesis by (auto simp: bind_def)
    qed
  qed
qed

lemma emits_finally [emits_intros]:
  assumes m: "emits P m" and c: "emits P c"
  shows "emits P (finally_quietly m c)"
proof (rule emitsI)
  fix t
  obtain es where es: "snd (m t) = t @ es" "list_all P es" using m by (auto simp: emits_def)
  obtain fs where "snd (c (t @ es)) = (t @ es) @ fs" "list_all P fs" using c unfolding emits_def by blast
  with es show "\<exists>es. snd (finally_quietly m c t) = t @ es \<and> list_all P es"
    by (auto simp: finally_quietly_def split: prod.split)
qed

lemma emits_on_error [emits_intros]:
  assumes m: "emits P m" and c: "emits P c"
  shows "emits P (on_error_quietly m c)"
proof (rule emitsI)
  fix t
  obtain es where es: "snd (m t) = t @ es" "list_all P es" using m by (auto simp: emits_def)
  obtain fs where "snd (c (t @ es)) = (t @ es) @ fs" "list_all P fs" using c unfolding emits_def by blast
  with es show "\<exists>es. snd (on_error_quietly m c t) = t @ es \<and> list_all P es"
    by (auto simp: on_error_quietly_def split: prod.split sum.split)
qed

lemma emits_process [emits_intros]: "P c \<Longrightarrow> emits P (runProcess E name c)"
  by (auto simp: emits_def runProcess_def Let_def split: option.split)

lemma emits_map [emits_intros]: "(\<And>x. emits P (f x)) \<Longrightarrow> emits P (map_action f xs)"
  by (induction xs) (auto intro!: emits_intros)

lemma emits_if [emits_intros]: "emits P m \<Longrightarrow> emits P n \<Longrightarrow> emits P (if b then m else n)"
  by simp

lemma emits_Let [emits_intros]: "emits P (f x) \<Longrightarrow> emits P (let y = x in f y)"
  by simp

lemma emits_pair [emits_intros]: "(\<And>a b. emits P (f a b)) \<Longrightarrow> emits P (case x of (a, b) \<Rightarrow> f a b)"
  by (cases x) simp

lemma emits_Ssh [emits_intros]: "(\<And>l. P (Ssh p script l)) \<Longrightarrow> emits P (invokePowerShell E p script limit)"
  by (simp add: invokePowerShell_def emits_process)

lemma emits_remote_json [emits_intros]: "(\<And>l. P (Ssh p script l)) \<Longrightarrow> emits P (remote_json E p script limit label)"
  unfolding remote_json_def by (intro emits_intros)

lemma emits_to [emits_intros]: "(\<And>a b l. P (ScpTo p a b l)) \<Longrightarrow> emits P (copyToRemote E p x y limit)"
  unfolding copyToRemote_def by (intro emits_intros)

lemma emits_from [emits_intros]: "(\<And>a b l. P (ScpFrom p a b l)) \<Longrightarrow> emits P (copyFromRemote E p x y limit)"
  unfolding copyFromRemote_def by (intro emits_intros)

lemma emits_read [emits_intros]: "emits P (readFile E path)"
  by (auto simp: emits_def readFile_def split: file_entry.split)

lemma emits_file_case [emits_intros]:
  "emits P a \<Longrightarrow> emits P b \<Longrightarrow> (\<And>x. emits P (f x)) \<Longrightarrow> emits P (case entry of Missing \<Rightarrow> a | Directory \<Rightarrow> b | File x \<Rightarrow> f x)"
  by (cases entry) simp_all

lemma emits_sha256 [emits_intros]: "emits P (sha256File E path)"
  unfolding sha256File_def by (intro emits_intros)

lemma emits_regular [emits_intros]: "emits P (regular_file E path e)"
  unfolding regular_file_def by (intro emits_intros)

lemma emits_hashes [emits_intros]: "emits P (localScriptHashes E)"
  unfolding localScriptHashes_def Let_def by (intro emits_intros)

lemma emits_parity [emits_intros]: "emits P (parityReport E v)" "emits P (requireParity E v names)"
proof -
  show *: "emits P (parityReport E v)" unfolding parityReport_def by (intro emits_intros)
  show "emits P (requireParity E v names)" unfolding requireParity_def Let_def by (intro emits_intros *)
qed

lemma emits_checks [emits_intros]: "emits P (requireNoTaskResidue v)" "emits P (requireActiveDesktop v)"
  unfolding requireNoTaskResidue_def requireActiveDesktop_def by (rule emits_intros)+

lemma emits_getPreflight [emits_intros]: "(\<And>l. P (Ssh p (preflightSource p) l)) \<Longrightarrow> emits P (getPreflight E p)"
  unfolding getPreflight_def by (intro emits_intros)

lemma emits_getStatus [emits_intros]:
  "(\<And>l. P (Ssh p (preflightSource p) l)) \<Longrightarrow> (\<And>a l. P (Ssh p (LauncherScript (launcherPath p) (targetUser p) a) l)) \<Longrightarrow>
   emits P (getStatus E p full)"
  unfolding getStatus_def invokeLauncher_def by (intro emits_intros)

section \<open>The wrong target is left alone\<close>

fun remote_effect :: "effect \<Rightarrow> bool" where
  "remote_effect (Ssh p script l) = True"
| "remote_effect (ScpTo p a b l) = True"
| "remote_effect (ScpFrom p a b l) = True"
| "remote_effect _ = False"

text \<open>The action fails having done nothing but the preflight.\<close>

definition only_preflight :: "profile \<Rightarrow> 'a action \<Rightarrow> bool" where
  "only_preflight p m \<longleftrightarrow> (\<forall>t. \<exists>e es. m t = (Inl e, t @ es) \<and> filter remote_effect es = [Ssh p (preflightSource p) 60000])"

lemma only_preflight_bind: "only_preflight p m \<Longrightarrow> only_preflight p (bind m f)"
  unfolding only_preflight_def
proof (rule allI)
  fix t
  assume "\<forall>t. \<exists>e es. m t = (Inl e, t @ es) \<and> filter remote_effect es = [Ssh p (preflightSource p) 60000]"
  then obtain e es where "m t = (Inl e, t @ es)" "filter remote_effect es = [Ssh p (preflightSource p) 60000]" by blast
  then show "\<exists>e es. bind m f t = (Inl e, t @ es) \<and> filter remote_effect es = [Ssh p (preflightSource p) 60000]"
    by (simp add: bind_def)
qed

lemma only_preflight_getPreflight:
  assumes "\<And>t. \<exists>e. fst (getPreflight E p t) = Inl e"
  shows "only_preflight p (getPreflight E p)"
  unfolding only_preflight_def
proof
  fix t
  obtain e where "fst (getPreflight E p t) = Inl e" using assms by blast
  moreover have "snd (getPreflight E p t) = t @ [Ssh p (preflightSource p) 60000]"
    by (auto simp: getPreflight_def remote_json_def invokePowerShell_def runProcess_def bind_def lift_def Let_def
        split: sum.split option.split prod.split)
  ultimately show "\<exists>e es. getPreflight E p t = (Inl e, t @ es) \<and> filter remote_effect es = [Ssh p (preflightSource p) 60000]"
    by (cases "getPreflight E p t") auto
qed

lemma only_preflight_modes:
  assumes "only_preflight p (getPreflight E p)"
  shows "only_preflight p (getStatus E p full)" "only_preflight p (synchronizeScripts E alias p)"
    "only_preflight p (setupControl E alias p archive)" "only_preflight p (invokeControlPlan E alias p plan)"
    "only_preflight p (captureViewer E alias p operation)" "only_preflight p (configureViewer E alias p file)"
    "only_preflight p (cleanupControlRun E alias p runId)" "only_preflight p (runSystemScript E alias p s i)"
    "only_preflight p (pullArtifact E alias p name sha)" "only_preflight p (pushArtifact E alias p name sha local_file)"
proof -
  show status: "only_preflight p (getStatus E p full)" for full
    unfolding getStatus_def by (rule only_preflight_bind) (rule assms)
  show "only_preflight p (synchronizeScripts E alias p)" "only_preflight p (setupControl E alias p archive)"
    "only_preflight p (cleanupControlRun E alias p runId)" "only_preflight p (runSystemScript E alias p s i)"
    "only_preflight p (pullArtifact E alias p name sha)" "only_preflight p (pushArtifact E alias p name sha local_file)"
    unfolding synchronizeScripts_def setupControl_def cleanupControlRun_def runSystemScript_def pullArtifact_def pushArtifact_def
    by (rule only_preflight_bind, rule assms)+
  show "only_preflight p (invokeControlPlan E alias p plan)" "only_preflight p (captureViewer E alias p operation)"
    "only_preflight p (configureViewer E alias p file)"
    unfolding invokeControlPlan_def captureViewer_def configureViewer_def
    by (rule only_preflight_bind, rule status)+
qed

lemma only_preflight_desktop:
  assumes "only_preflight p (getPreflight E p)"
  shows "only_preflight p (captureDesktop E alias p)"
  unfolding only_preflight_def
proof
  fix t
  let ?d = "teTemporary E t"
  let ?plan = "teJoin E [?d, js ''desktop-capture.json'']"
  obtain e es where "invokeControlPlan E alias p ?plan ((t @ [MakeLocal ?d]) @ [WriteLocal ?plan])
      = (Inl e, ((t @ [MakeLocal ?d]) @ [WriteLocal ?plan]) @ es)"
    and "filter remote_effect es = [Ssh p (preflightSource p) 60000]"
    using only_preflight_modes(4) [OF assms, of "alias" ?plan] unfolding only_preflight_def by blast
  then show "\<exists>e es. captureDesktop E alias p t = (Inl e, t @ es) \<and> filter remote_effect es = [Ssh p (preflightSource p) 60000]"
    by (simp add: captureDesktop_def bind_def observe_def local_def finally_quietly_def Let_def)
qed

text \<open>C35: a machine that does not pass the preflight is left alone. If the preflight of the selected target
  fails - another machine, another account, no or another interactive session - then whatever the
  mode, the script fails, and the preflight is the only thing it ran there.\<close>

theorem wrong_target_untouched:
  assumes "map_of profiles (opt_or_empty options ''target'') = Some p"
    and "opt_in options ''mode'' target_modes"
    and "\<And>h. \<exists>e. fst (getPreflight E p h) = Inl e"
  shows "\<exists>e es. target_execute E profiles options t = (Inl e, t @ es)
    \<and> filter remote_effect es = [Ssh p (preflightSource p) 60000]"
proof -
  note pre = only_preflight_getPreflight [OF assms(3)]
  have "only_preflight p (target_execute E profiles options)"
    using assms(2) only_preflight_bind [OF only_preflight_modes(1) [OF pre]]
    by (auto simp: target_execute_def assms(1) mode_is_def opt_in_def target_modes_def
        only_preflight_modes [OF pre] only_preflight_desktop [OF pre] split: option.splits)
  then show ?thesis by (simp add: only_preflight_def)
qed

text \<open>An environment for concrete runs: \<open>parse\<close> reads the remote answers, everything else is fixed.\<close>

definition demo_env :: "(history \<Rightarrow> effect \<Rightarrow> spawn_result) \<Rightarrow> (jsval \<Rightarrow> jsstring \<Rightarrow> bool) \<Rightarrow> target_env" where
  "demo_env spawn same =
     \<lparr>teSpawn = spawn, teFile = (\<lambda>h path. File [1, 2]), teReal = (\<lambda>h path. Inr path), teSha256 = (\<lambda>bytes. []),
      teText = (\<lambda>bytes. []), teParse = (\<lambda>line. None), teSame = same, teFresh = (\<lambda>h. []),
      teJoin = concat, teBase = id, teLower = id, teScripts = [], teRepository = [], teTemporary = (\<lambda>h. []),
      teUrl = (\<lambda>url. None), teSeparator = 0x2F\<rparr>"

definition demo_profile :: profile where
  "demo_profile = \<lparr>host = [0x68], port = 22, maintenanceUser = [0x6D], identityFile = [], knownHostsFile = [],
     expectedMachine = [0x50], expectedMaintenanceIdentity = [], targetUser = [0x75], expectedSessionId = 1,
     remoteProjectRoot = [0x43, 0x3A, 0x5C]\<rparr>"

definition demo_options :: target_options where
  "demo_options = \<lparr>optFlags = [], optValues = [(js ''target'', js ''test-pc''), (js ''mode'', js ''sync'')]\<rparr>"

definition silent :: "history \<Rightarrow> effect \<Rightarrow> spawn_result" where
  "silent h c = \<lparr>spError = None, spStatus = Some 0, spStdout = [], spStderr = []\<rparr>"

lemma wrong_target_untouched_witness:
  "\<exists>e es. target_execute (demo_env silent (\<lambda>v s. False)) [(js ''test-pc'', demo_profile)] demo_options [] = (Inl e, [] @ es)
    \<and> filter remote_effect es = [Ssh demo_profile (preflightSource demo_profile) 60000]"
proof (rule wrong_target_untouched)
  show "\<exists>e. fst (getPreflight (demo_env silent (\<lambda>v s. False)) demo_profile h) = Inl e" for h
    by (simp add: getPreflight_def remote_json_def invokePowerShell_def runProcess_def bind_def lift_def demo_env_def silent_def
        parseLastJson_def Let_def)
qed (simp_all add: demo_options_def opt_or_empty_def opt_def opt_in_def target_modes_def)

section \<open>The staging directory of sync is removed\<close>

fun creates :: "effect \<Rightarrow> bool" where
  "creates (Ssh p (CreateDirectory d) l) = True" | "creates _ = False"

lemma emits_snd: "emits P m \<Longrightarrow> \<exists>es. snd (m t) = t @ es \<and> list_all P es"
  by (simp add: emits_def)

text \<open>How an action that creates a directory between two parts that do not creates it.\<close>

lemma bind_runs:
  "snd (bind m f t) = (case m t of (Inl e, t') \<Rightarrow> t' | (Inr x, t') \<Rightarrow> snd (f x t'))"
  by (auto simp: bind_def split: prod.split sum.split)

definition guarded :: "profile \<Rightarrow> 'a action \<Rightarrow> bool" where
  "guarded p m \<longleftrightarrow> (\<forall>t pre d l post. snd (m t) = t @ pre @ Ssh p (CreateDirectory d) l # post \<longrightarrow> post \<noteq> [] \<longrightarrow>
     Ssh p (RemovePath d True) 30000 \<in> set post)"

lemma guarded_bind:
  assumes m: "emits (\<lambda>c. \<not> creates c) m" and f: "\<And>x. guarded p (f x)"
    and fe: "\<And>x. emits (\<lambda>c. True) (f x)"
  shows "guarded p (bind m f)"
  unfolding guarded_def
proof (intro allI impI)
  fix t pre d l post
  assume run: "snd (bind m f t) = t @ pre @ Ssh p (CreateDirectory d) l # post" and ne: "post \<noteq> []"
  obtain es where es: "snd (m t) = t @ es" "list_all (\<lambda>c. \<not> creates c) es" using emits_snd [OF m] by blast
  obtain r t' where m: "m t = (r, t')" by force
  with es have t': "t' = t @ es" by simp
  show "Ssh p (RemovePath d True) 30000 \<in> set post"
  proof (cases r)
    case (Inl e)
    with m run t' have "es = pre @ Ssh p (CreateDirectory d) l # post" by (simp add: bind_runs)
    with es(2) show ?thesis by simp
  next
    case (Inr x)
    obtain fs where fs: "snd (f x t') = t' @ fs" using emits_snd [OF fe] by blast
    have eq: "es @ fs = pre @ Ssh p (CreateDirectory d) l # post" using run m Inr fs t' by (simp add: bind_runs)
    from eq consider us where "es = pre @ us" "us @ fs = Ssh p (CreateDirectory d) l # post"
      | us where "es @ us = pre" "fs = us @ Ssh p (CreateDirectory d) l # post"
      unfolding append_eq_append_conv2 by blast
    then show ?thesis
    proof cases
      case 1
      then have "us = [] \<and> fs = Ssh p (CreateDirectory d) l # post" using es(2) by (cases us) auto
      with fs t' have "snd (f x t') = t' @ [] @ Ssh p (CreateDirectory d) l # post" by simp
      with f [of x] ne show ?thesis unfolding guarded_def by blast
    next
      case 2
      with fs have "snd (f x t') = t' @ us @ Ssh p (CreateDirectory d) l # post" by simp
      with f [of x] ne show ?thesis unfolding guarded_def by blast
    qed
  qed
qed

lemma powershell_runs: "snd (invokePowerShell E p script limit t) = t @ [Ssh p script limit]"
  by (simp add: invokePowerShell_def runProcess_def Let_def split: option.split)

lemma guarded_create:
  assumes B: "emits (\<lambda>c. \<not> creates c) B" and C: "\<And>x. emits (\<lambda>c. \<not> creates c) (C x)"
  shows "guarded p (bind (invokePowerShell E p (CreateDirectory d) 30000) (\<lambda>_.
           bind (finally_quietly B (invokePowerShell E p (RemovePath d True) 30000)) C))"
    (is "guarded p (bind ?create (\<lambda>_. bind ?try C))")
  unfolding guarded_def
proof (intro allI impI)
  fix t pre d' l post
  let ?c = "Ssh p (CreateDirectory d) 30000" and ?r = "Ssh p (RemovePath d True) 30000"
  let ?t1 = "t @ [?c]"
  assume run: "snd (bind ?create (\<lambda>_. bind ?try C) t) = t @ pre @ Ssh p (CreateDirectory d') l # post" and ne: "post \<noteq> []"
  obtain r where create: "?create t = (r, ?t1)" using powershell_runs [of E p "CreateDirectory d" 30000 t] by (cases "?create t") simp
  obtain bs where bs: "snd (B ?t1) = ?t1 @ bs" "list_all (\<lambda>c. \<not> creates c) bs" using emits_snd [OF B] by blast
  have "snd (?try ?t1) = ?t1 @ bs @ [?r]"
    using bs powershell_runs [of E p "RemovePath d True" 30000 "?t1 @ bs"]
    by (auto simp: finally_quietly_def split: prod.split)
  then obtain r' where tried: "?try ?t1 = (r', ?t1 @ bs @ [?r])" by (cases "?try ?t1") simp
  have "\<exists>cs. snd (bind ?try C ?t1) = ?t1 @ bs @ ?r # cs \<and> list_all (\<lambda>c. \<not> creates c) cs"
  proof (cases r')
    case (Inr x)
    from emits_snd [OF C, of x "?t1 @ bs @ [?r]"] show ?thesis using Inr tried by (auto simp: bind_runs)
  qed (simp add: bind_runs tried)
  then obtain cs where cs: "snd (bind ?try C ?t1) = ?t1 @ bs @ ?r # cs" "list_all (\<lambda>c. \<not> creates c) cs" by blast
  show "Ssh p (RemovePath d' True) 30000 \<in> set post"
  proof (cases r)
    case (Inl e)
    then have "[?c] = pre @ Ssh p (CreateDirectory d') l # post" using run create by (simp add: bind_runs)
    with ne show ?thesis by (cases pre) auto
  next
    case (Inr x)
    then have eq: "?c # bs @ ?r # cs = pre @ Ssh p (CreateDirectory d') l # post" using run create cs(1) by (simp add: bind_runs)
    show ?thesis
    proof (cases pre)
      case Nil
      with eq show ?thesis by auto
    next
      case (Cons c pre')
      with eq have "Ssh p (CreateDirectory d') l \<in> set (bs @ ?r # cs)" by auto
      with bs(2) cs(2) show ?thesis by (auto simp: list_all_iff)
    qed
  qed
qed

lemma emits_upload [emits_intros]: "(\<And>a b l. P (ScpTo p a b l)) \<Longrightarrow> emits P (upload_scripts E p staging)"
  unfolding upload_scripts_def by (intro emits_intros)

lemma sync_guarded: "guarded p (synchronizeScripts E alias p)"
  unfolding synchronizeScripts_def Let_def
  by (rule guarded_bind, rule emits_intros, simp add: preflightSource_def,
      rule guarded_bind, rule emits_intros, rule guarded_bind, rule emits_intros, rule guarded_bind, rule emits_intros,
      rule guarded_create)
    (intro emits_intros; simp add: preflightSource_def)+

text \<open>C38: \<open>--mode sync\<close> leaves no staging directory behind. Once the directory for the uploaded scripts was
  created on the target, the script removes it again, whatever fails after that.\<close>

theorem sync_staging_removed:
  assumes "snd (synchronizeScripts E alias p t) = t @ pre @ Ssh p (CreateDirectory d) limit # post" and "post \<noteq> []"
  shows "Ssh p (RemovePath d True) 30000 \<in> set post"
  using sync_guarded [of p E "alias"] assms unfolding guarded_def by blast

text \<open>A target that passes the preflight but to which nothing can be copied.\<close>

definition staged_env :: target_env where
  "staged_env = (demo_env
     (\<lambda>h c. \<lparr>spError = None, spStatus = (case c of ScpTo p a b l \<Rightarrow> Some 1 | _ \<Rightarrow> Some 0),
        spStdout = (case c of Ssh p (PreflightScript a u) l \<Rightarrow> [0x7B, 0x31, 0x7D] | _ \<Rightarrow> []), spStderr = []\<rparr>) (\<lambda>v s. True))
     \<lparr>teParse := (\<lambda>line. Some (obj
        [(''Result'', str ''CAMSTATION_WINDOWS_TARGET_PREFLIGHT''), (''Scheduler'', str ''Running''),
         (''TargetExplorers'', JArray [obj [(''SessionId'', int_value 1)]]),
         (''ControlTaskCount'', int_value 0), (''SetupTaskCount'', int_value 0), (''ViewerCaptureTaskCount'', int_value 0),
         (''ViewerConfigureTaskCount'', int_value 0)]))\<rparr>"

lemma first_failure_simps [simp]:
  "first_failure [] = None" "first_failure ((b, e) # cs) = (if b then Some e else first_failure cs)"
  by (simp_all add: first_failure_def)

lemma staged_preflight:
  "getPreflight staged_env demo_profile t =
     (Inr (the (teParse staged_env [])), t @ [Ssh demo_profile (preflightSource demo_profile) 60000])"
  by (simp add: getPreflight_def remote_json_def invokePowerShell_def runProcess_def bind_def lift_def staged_env_def demo_env_def
      preflightSource_def parseLastJson_def js_trim_def is_space_def json_line_def assertPreflight_def obj_def str_def as_list_def
      number_is_def int_value_def demo_profile_def Let_def)

lemma staged_fields [simp]:
  "teFile staged_env h path = File [1, 2]" "teReal staged_env h path = Inr path" "teSha256 staged_env bytes = []"
  "teSame staged_env v x = True" "teFresh staged_env h = []" "teJoin staged_env = concat" "teLower staged_env x = x"
  "teScripts staged_env = []"
  by (simp_all add: staged_env_def demo_env_def)

lemma staged_spawn [simp]:
  "teSpawn staged_env h (ScpTo p a b l) = \<lparr>spError = None, spStatus = Some 1, spStdout = [], spStderr = []\<rparr>"
  "teSpawn staged_env h (Ssh p (CreateDirectory d) l) = \<lparr>spError = None, spStatus = Some 0, spStdout = [], spStderr = []\<rparr>"
  "teSpawn staged_env h (Ssh p (RemovePath d r) l) = \<lparr>spError = None, spStatus = Some 0, spStdout = [], spStderr = []\<rparr>"
  by (simp_all add: staged_env_def demo_env_def)

lemma staged_script: "sha256File staged_env path t = (Inr [], t)"
  by (simp add: sha256File_def readFile_def bind_def ret_def)

lemma bind_step: "m t = (Inr x, t') \<Longrightarrow> bind m f t = f x t'" "m t = (Inl e, t') \<Longrightarrow> bind m f t = (Inl e, t')"
  by (simp_all add: bind_def)

lemma staged_steps:
  "requireNoTaskResidue (the (teParse staged_env [])) t = (Inr (), t)"
  "localScriptHashes staged_env t = (Inr (map (\<lambda>name. (name, [])) canonicalScripts), t)"
  "observe (teFresh staged_env) t = (Inr [], t)"
  "invokePowerShell staged_env p (CreateDirectory d) limit t = (Inr [], t @ [Ssh p (CreateDirectory d) limit])"
  "invokePowerShell staged_env p (RemovePath d r) limit t = (Inr [], t @ [Ssh p (RemovePath d r) limit])"
proof -
  show "localScriptHashes staged_env t = (Inr (map (\<lambda>name. (name, [])) canonicalScripts), t)"
    by (simp add: localScriptHashes_def canonicalScripts_def bind_def staged_script check_def checkE_def lift_def observe_def
        ret_def Let_def)
  show "requireNoTaskResidue (the (teParse staged_env [])) t = (Inr (), t)"
    by (simp add: requireNoTaskResidue_def check_def checkE_def lift_def residue_counts_def number_is_def staged_env_def
        demo_env_def obj_def)
qed (simp_all add: observe_def invokePowerShell_def runProcess_def Let_def)

lemma staged_copy:
  assumes "remoteScpPath b = Inr path"
  shows "\<exists>e. copyToRemote staged_env p a b limit t = (Inl e, t @ [ScpTo p a path limit])"
  by (simp add: copyToRemote_def assms bind_def lift_def runProcess_def Let_def)

definition scp_path_ok :: "jsstring \<Rightarrow> bool" where
  "scp_path_ok path \<longleftrightarrow> (case remoteScpPath path of Inl e \<Rightarrow> False | Inr p \<Rightarrow> True)"

lemma scp_path_okD: "scp_path_ok path \<Longrightarrow> \<exists>p. remoteScpPath path = Inr p"
  by (auto simp: scp_path_ok_def split: sum.splits)

lemma sync_staging_removed_witness:
  "let d = dev_path ''windows-control-sync-'' [] in
     \<exists>pre post. snd (synchronizeScripts staged_env [] demo_profile []) = pre @ Ssh demo_profile (CreateDirectory d) 30000 # post
       \<and> Ssh demo_profile (RemovePath d True) 30000 \<in> set post"
proof -
  let ?d = "dev_path ''windows-control-sync-'' []"
  let ?t = "[Ssh demo_profile (preflightSource demo_profile) 60000, Ssh demo_profile (CreateDirectory ?d) 30000]"
  have "scp_path_ok (windowsJoin ?d [hd canonicalScripts])" by code_simp
  then obtain path where path: "remoteScpPath (windowsJoin ?d [hd canonicalScripts]) = Inr path" using scp_path_okD by blast
  obtain e where "copyToRemote staged_env demo_profile (hd canonicalScripts) (windowsJoin ?d [hd canonicalScripts]) 120000 ?t
      = (Inl e, ?t @ [ScpTo demo_profile (hd canonicalScripts) path 120000])"
    using staged_copy [OF path] by blast
  then obtain c where up: "upload_scripts staged_env demo_profile ?d ?t = (Inl e, ?t @ [c])"
    by (simp add: upload_scripts_def canonicalScripts_def bind_step)
  have run: "snd (synchronizeScripts staged_env [] demo_profile []) =
      [] @ [Ssh demo_profile (preflightSource demo_profile) 60000] @ Ssh demo_profile (CreateDirectory ?d) 30000
        # [c, Ssh demo_profile (RemovePath ?d True) 30000]"
    by (simp add: synchronizeScripts_def bind_step staged_preflight staged_steps up finally_quietly_def Let_def)
  have "Ssh demo_profile (RemovePath ?d True) 30000 \<in> set [c, Ssh demo_profile (RemovePath ?d True) 30000]"
    by (rule sync_staging_removed [OF run]) simp
  with run show ?thesis unfolding Let_def append_Nil by blast
qed

section \<open>A failed upload leaves the run directory\<close>

fun removes :: "effect \<Rightarrow> bool" where
  "removes (Ssh p (RemovePath d r) l) = True" | "removes _ = False"

lemma emits_bind_stop:
  assumes "\<And>t. \<exists>e. fst (m t) = Inl e" and "emits P m"
  shows "emits P (bind m f)"
proof (rule emitsI)
  fix t
  obtain e where "fst (m t) = Inl e" using assms(1) by blast
  with emits_snd [OF assms(2), of t] show "\<exists>es. snd (bind m f t) = t @ es \<and> list_all P es"
    by (cases "m t") (auto simp: bind_def)
qed

lemma copy_stops:
  assumes "\<And>h a b l. spStatus (teSpawn E h (ScpTo p a b l)) \<noteq> Some 0"
  shows "\<exists>e. fst (copyToRemote E p a b limit t) = Inl e"
  using assms by (auto simp: copyToRemote_def bind_def lift_def runProcess_def Let_def split: sum.split option.split)

text \<open>A failed upload leaves litter on the target. In \<open>--mode system\<close> the run directory is created, and the
  script copied into it, before the \<open>try\<close> whose \<open>finally\<close> removes the directory. If the copy fails,
  nothing removes it.\<close>

theorem system_upload_failure_leaks:
  assumes "\<And>h a b l. spStatus (teSpawn E h (ScpTo p a b l)) \<noteq> Some 0"
    and "snd (runSystemScript E alias p file intent t) = t @ es"
  shows "list_all (\<lambda>c. \<not> removes c) es"
proof -
  have "emits (\<lambda>c. \<not> removes c) (runSystemScript E alias p file intent)"
    unfolding runSystemScript_def Let_def
    by (intro emits_intros emits_bind_stop [OF copy_stops [OF assms(1)]]) (simp_all add: preflightSource_def)
  from emits_snd [OF this, of t] assms(2) show ?thesis by auto
qed

lemma system_upload_failure_leaks_witness:
  "\<exists>d es. snd (runSystemScript staged_env [] demo_profile (js ''a.ps1'') (js ''change'') []) = es
    \<and> Ssh demo_profile (CreateDirectory d) 30000 \<in> set es \<and> list_all (\<lambda>c. \<not> removes c) es"
proof -
  let ?d = "dev_path ''windows-system-run-'' []"
  let ?t = "[Ssh demo_profile (preflightSource demo_profile) 60000, Ssh demo_profile (CreateDirectory ?d) 30000]"
  have "scp_path_ok (windowsJoin ?d [js ''operation.ps1''])" by code_simp
  then obtain path where path: "remoteScpPath (windowsJoin ?d [js ''operation.ps1'']) = Inr path" using scp_path_okD by blast
  obtain e where copy: "copyToRemote staged_env demo_profile (js ''a.ps1'') (windowsJoin ?d [js ''operation.ps1'']) 120000 ?t
      = (Inl e, ?t @ [ScpTo demo_profile (js ''a.ps1'') path 120000])"
    using staged_copy [OF path] by blast
  have regular: "regular_file staged_env (js ''a.ps1'') m h = (Inr (js ''a.ps1'', [1, 2]), h)" for m h
    by (simp add: regular_file_def bind_def observe_def lift_def ret_def)
  have ends: "ends_with (js ''a.ps1'') (js ''.ps1'')" by (simp add: ends_with_def js_def)
  have run: "snd (runSystemScript staged_env [] demo_profile (js ''a.ps1'') (js ''change'') [])
      = [] @ ?t @ [ScpTo demo_profile (js ''a.ps1'') path 120000]"
    by (simp add: runSystemScript_def bind_step staged_preflight staged_steps copy regular ends check_def checkE_def lift_def Let_def)
  have "list_all (\<lambda>c. \<not> removes c) (?t @ [ScpTo demo_profile (js ''a.ps1'') path 120000])"
    by (rule system_upload_failure_leaks [OF _ run]) simp
  with run show ?thesis by fastforce
qed

section \<open>Artifacts that were pulled are verified\<close>

named_theorems returned

lemma bind_returned [returned]:
  "bind m f t = (Inr y, t') \<longleftrightarrow> (\<exists>x t1. m t = (Inr x, t1) \<and> f x t1 = (Inr y, t'))"
  by (auto simp: bind_def split: prod.splits sum.splits)

lemma pure_returned [returned]:
  "ret x t = (Inr y, t') \<longleftrightarrow> y = x \<and> t' = t" "observe f t = (Inr y, t') \<longleftrightarrow> y = f t \<and> t' = t"
  "throw e t = (Inr y, t') \<longleftrightarrow> False" "check cs t = (Inr u, t') \<longleftrightarrow> first_failure cs = None \<and> t' = t"
  "readFile E path t = (Inr b, t') \<longleftrightarrow> teFile E t path = File b \<and> t' = t"
  by (auto simp: ret_def observe_def throw_def check_def lift_def checkE_def readFile_def split: option.splits file_entry.splits)

lemma prop_of_obj [simp]: "prop_of (obj kvs) k = (case map_of kvs k of None \<Rightarrow> JUndefined | Some v \<Rightarrow> v)"
proof -
  have "map_of (map (\<lambda>(k, v). (js k, v)) kvs) (js k) = map_of kvs k" by (induction kvs) auto
  then show ?thesis by (simp add: prop_of_def obj_def)
qed

lemma extends: "emits (\<lambda>c. True) m \<Longrightarrow> m t = (r, t') \<Longrightarrow> \<exists>es. t' = t @ es"
  using emits_snd [of "\<lambda>c. True" m t] by auto

text \<open>What \<open>--mode artifact-pull\<close> reports as pulled was verified: during the run, after the copy, the local
  file it names had contents with exactly the digest the user asked for and the reported size.\<close>

theorem pulled_artifact_verified:
  assumes "pullArtifact E alias p name sha t = (Inr v, t')"
  shows "\<exists>h bytes rest. t' = h @ rest \<and> teFile E h (string_of (prop_of v ''LocalPath'')) = File bytes
    \<and> teSha256 E bytes = sha \<and> prop_of v ''SizeBytes'' = int_value (int (length bytes))"
proof -
  obtain out remote h bytes pre post where contents: "teFile E h out = File bytes"
    and ok: "\<not> (teSha256 E bytes \<noteq> sha \<or> \<not> number_is (prop_of remote ''SizeBytes'') (int (length bytes)))"
    and h1: "getPreflight E p h = (Inr pre, post)" and rest: "requireNoTaskResidue pre post = (Inr (), t')"
    and v: "prop_of v ''LocalPath'' = JString out" "prop_of v ''SizeBytes'' = prop_of remote ''SizeBytes''"
    using assms unfolding pullArtifact_def Let_def
    by (clarsimp simp: returned split: if_split_asm)
  have "\<exists>es. post = h @ es" by (rule extends [of "getPreflight E p" h "Inr pre" post, OF _ h1]) (intro emits_intros, simp)
  moreover have "\<exists>es. t' = post @ es" by (rule extends [of "requireNoTaskResidue pre" post "Inr ()" t', OF _ rest]) (intro emits_intros)
  ultimately obtain es where "t' = h @ es" by auto
  with contents ok v show ?thesis by (intro exI [of _ h] exI [of _ bytes] exI [of _ es]) (simp add: number_is_def)
qed

fun copied :: "effect \<Rightarrow> bool" where
  "copied (ScpFrom p a b l) = True" | "copied _ = False"

text \<open>A target with one artifact; both its answers are in the one object every line is read as.\<close>

definition artifact_env :: target_env where
  "artifact_env = demo_env
     (\<lambda>h c. \<lparr>spError = None, spStatus = Some 0,
        spStdout = (case c of Ssh p (PreflightScript a u) l \<Rightarrow> [0x7B, 0x31, 0x7D] | _ \<Rightarrow> [0x7B, 0x32, 0x7D]), spStderr = []\<rparr>)
     (\<lambda>v s. True)
     \<lparr>teFile := (\<lambda>h path. if list_ex copied h then File [1, 2] else Missing),
      teParse := (\<lambda>line. if line = [0x7B, 0x31, 0x7D] then teParse staged_env line else Some (obj
        [(''Result'', str ''WINDOWS_ARTIFACT_VERIFIED''), (''Name'', JString (js ''a.msi'')), (''SHA256'', JString []),
         (''SizeBytes'', int_value 2)]))\<rparr>"

lemma artifact_answers:
  "getPreflight artifact_env demo_profile t =
     (Inr (the (teParse staged_env [])), t @ [Ssh demo_profile (preflightSource demo_profile) 60000])"
  by (simp add: getPreflight_def remote_json_def invokePowerShell_def runProcess_def bind_def lift_def artifact_env_def
      staged_env_def demo_env_def preflightSource_def parseLastJson_def js_trim_def is_space_def json_line_def
      assertPreflight_def obj_def str_def as_list_def number_is_def int_value_def demo_profile_def Let_def)

lemma artifact_inspected:
  "\<exists>v c. inspectRemoteArtifact artifact_env demo_profile (js ''a.msi'') [] False t = (Inr v, t @ [c]) \<and> \<not> copied c
     \<and> prop_of v ''SizeBytes'' = int_value 2"
  by (simp add: inspectRemoteArtifact_def remote_json_def invokePowerShell_def runProcess_def bind_def lift_def artifact_env_def
      demo_env_def parseLastJson_def js_trim_def is_space_def json_line_def check_def checkE_def ret_def str_def
      is_safe_integer_def is_int_value_def integer_value_def int_value_def Let_def)

lemma action_steps:
  "local e t = (Inr (), t @ [e])" "ret x t = (Inr x, t)" "observe f t = (Inr (f t), t)" "check cs t = (checkE cs, t)"
  "bind (observe f) g t = g (f t) t"
  "bind (check cs) k t = (case checkE cs of Inl msg \<Rightarrow> (Inl msg, t) | Inr u \<Rightarrow> k () t)"
  by (simp_all add: local_def ret_def observe_def check_def lift_def bind_def split: sum.split)

lemma artifact_copied:
  assumes "remoteScpPath b = Inr path"
  shows "copyFromRemote artifact_env p b a limit t = (Inr (), t @ [ScpFrom p path a limit])"
  by (simp add: copyFromRemote_def assms bind_def lift_def ret_def runProcess_def artifact_env_def demo_env_def Let_def)

lemma pulled_artifact_verified_witness:
  "\<exists>v t' h bytes rest. pullArtifact artifact_env [] demo_profile (js ''a.msi'') [] [] = (Inr v, t') \<and> t' = h @ rest
    \<and> teFile artifact_env h (string_of (prop_of v ''LocalPath'')) = File bytes \<and> length bytes = 2"
proof -
  let ?pre = "Ssh demo_profile (preflightSource demo_profile) 60000"
  let ?dir = "teJoin artifact_env [teRepository artifact_env, js ''work'', js ''windows-control-artifacts'', []]"
  obtain v c where inspect: "inspectRemoteArtifact artifact_env demo_profile (js ''a.msi'') [] False [?pre] = (Inr v, [?pre] @ [c])"
    and c: "\<not> copied c" and size: "prop_of v ''SizeBytes'' = int_value 2"
    using artifact_inspected [of "[?pre]"] by blast
  have "scp_path_ok (windowsJoin (artifactDirectory demo_profile) [js ''a.msi''])" by code_simp
  then obtain path where path: "remoteScpPath (windowsJoin (artifactDirectory demo_profile) [js ''a.msi'']) = Inr path"
    using scp_path_okD by blast
  have files: "teFile artifact_env h x = (if list_ex copied h then File [1, 2] else Missing)"
    "teSha256 artifact_env b = []" for h x b
    by (simp_all add: artifact_env_def demo_env_def)
  have read: "readFile artifact_env out t =
      (if list_ex copied t then (Inr [1, 2], t) else (Inl (js ''ENOENT: '' @ out), t))" for t out
    by (simp add: readFile_def files)
  have directory: "localArtifactDirectory artifact_env [] t = (Inr ?dir, t @ [MakeLocal ?dir])" for t
    by (simp add: localArtifactDirectory_def local_def ret_def bind_def Let_def)
  obtain r t' where run: "pullArtifact artifact_env [] demo_profile (js ''a.msi'') [] [] = (Inr r, t')"
    and r: "prop_of r ''SizeBytes'' = int_value 2"
    by (simp add: pullArtifact_def bind_step artifact_answers staged_steps(1) inspect directory action_steps read files c checkE_def
        artifact_copied [OF path] number_is_def size Let_def)
  from pulled_artifact_verified [OF run] obtain h bytes rest where "t' = h @ rest"
    "teFile artifact_env h (string_of (prop_of r ''LocalPath'')) = File bytes"
    "prop_of r ''SizeBytes'' = int_value (int (length bytes))" by blast
  moreover from this(3) r have "length bytes = 2" by (simp add: int_value_def)
  ultimately show ?thesis using run by blast
qed

section \<open>Options belong to their mode\<close>

definition transfer_mode :: "target_options \<Rightarrow> bool" where
  "transfer_mode options \<longleftrightarrow> mode_is options ''artifact-pull'' \<or> mode_is options ''artifact-push''"

definition options_consistent :: "target_options \<Rightarrow> bool" where
  "options_consistent options \<longleftrightarrow>
     opt_in options ''target'' targetAliases \<and> opt_in options ''mode'' target_modes
     \<and> (given options ''plan'' \<longleftrightarrow> mode_is options ''plan'') \<and> (given options ''runId'' \<longleftrightarrow> mode_is options ''cleanup'')
     \<and> (given options ''viewerOperation'' \<longleftrightarrow> mode_is options ''viewer-capture'')
     \<and> (given options ''configuration'' \<longleftrightarrow> mode_is options ''viewer-configure'')
     \<and> (given options ''script'' \<longleftrightarrow> mode_is options ''system'') \<and> (given options ''intent'' \<longleftrightarrow> mode_is options ''system'')
     \<and> (given options ''artifactName'' \<longleftrightarrow> transfer_mode options) \<and> (given options ''expectedSha256'' \<longleftrightarrow> transfer_mode options)
     \<and> (given options ''localFile'' \<longleftrightarrow> mode_is options ''artifact-push'')
     \<and> (given options ''archive'' \<longrightarrow> mode_is options ''setup'') \<and> (opt_flag options ''fullAudit'' \<longrightarrow> mode_is options ''status'')
     \<and> (mode_is options ''cleanup'' \<longrightarrow> runIdPattern (opt_or_empty options ''runId''))
     \<and> (transfer_mode options \<longrightarrow> artifactNamePattern (opt_or_empty options ''artifactName'')
                                 \<and> sha256Pattern (opt_or_empty options ''expectedSha256''))"

lemma default_operation_opt:
  "opt (default_operation options) k =
     (if k = ''viewerOperation'' \<and> mode_is options ''viewer-capture'' \<and> opt options ''viewerOperation'' = None
      then Some (js ''Capture'') else opt options k)"
  by (auto simp: default_operation_def opt_def)

lemma default_operation_flags [simp]: "opt_flag (default_operation options) k = opt_flag options k"
  by (simp add: default_operation_def opt_flag_def)

lemma default_operation_mode [simp]: "mode_is (default_operation options) m = mode_is options m"
  by (simp add: mode_is_def default_operation_opt)

lemma mode_unique: "mode_is options m \<Longrightarrow> mode_is options n \<longleftrightarrow> m = n"
  by (auto simp: mode_is_def)

lemma given_opt_in: "opt_in options k xs \<Longrightarrow> [] \<notin> set xs \<Longrightarrow> given options k"
  by (auto simp: opt_in_def given_def split: option.splits)

lemma first_failure_None: "first_failure cs = None \<longleftrightarrow> list_all (\<lambda>c. \<not> fst c) cs"
  by (induction cs) (auto simp: first_failure_def)

definition mode_names :: "string list" where
  "mode_names = [''status'', ''sync'', ''setup'', ''plan'', ''desktop-capture'', ''viewer-capture'', ''viewer-configure'',
     ''cleanup'', ''system'', ''artifact-pull'', ''artifact-push'']"

lemma target_mode_cases:
  assumes "opt_in options ''mode'' target_modes"
  shows "\<exists>m \<in> set mode_names. \<forall>n. mode_is options n \<longleftrightarrow> m = n"
proof -
  have names: "set target_modes = js ` set mode_names" by (simp add: target_modes_def mode_names_def)
  obtain x where x: "opt options ''mode'' = Some x" "x \<in> set target_modes"
    using assms by (auto simp: opt_in_def split: option.splits)
  then obtain m where "m \<in> set mode_names" "opt options ''mode'' = Some (js m)" unfolding names by blast
  then show ?thesis by (intro bexI [of _ m]) (simp_all add: mode_is_def)
qed

lemma opt_in_given: "opt_in options ''viewerOperation'' [js ''Capture'', js ''LaunchAndCapture''] \<Longrightarrow> given options ''viewerOperation''"
  "opt_in options ''intent'' [js ''read-only'', js ''change''] \<Longrightarrow> given options ''intent''"
  by (auto intro: given_opt_in)

lemma matched_given:
  "(case opt options k of None \<Rightarrow> False | Some s \<Rightarrow> s \<noteq> [] \<and> P s) \<longleftrightarrow> given options k \<and> P (opt_or_empty options k)"
  by (auto simp: given_def opt_or_empty_def split: option.splits)

lemma late_consistent:
  assumes "first_failure (early_checks options) = None" and "first_failure (late_checks options) = None"
  shows "options_consistent options"
proof -
  note checks = assms [unfolded first_failure_None early_checks_def late_checks_def Let_def list.pred_inject fst_conv
      matched_given]
  have "opt_in options ''mode'' target_modes" using checks(1) by simp
  from target_mode_cases [OF this] obtain m where m: "\<forall>n. mode_is options n \<longleftrightarrow> m = n" and names: "m \<in> set mode_names" by blast
  note given_in = opt_in_given [of options]
  from names show ?thesis
    unfolding options_consistent_def transfer_mode_def mode_names_def list.set
    by (elim insertE emptyE; use checks given_in in \<open>simp add: m\<close>)
qed

text \<open>A command line that is accepted is consistent. The target and the mode are known, every option that
  belongs to one mode is present exactly in that mode, and run identifiers, artifact names and
  digests have their exact form.\<close>

theorem parsed_options_consistent:
  assumes "parseArguments argv = Inr options" and "\<not> opt_flag options ''help''"
  shows "options_consistent options"
proof -
  obtain o0 where early: "first_failure (early_checks o0) = None"
    and late: "first_failure (late_checks (default_operation o0)) = None" and o: "options = default_operation o0"
    using assms by (auto simp: parseArguments_def split: sum.splits if_splits option.splits)
  have "first_failure (early_checks (default_operation o0)) = None"
    using early by (simp add: early_checks_def opt_in_def given_def default_operation_opt)
  from late_consistent [OF this late] show ?thesis by (simp add: o)
qed

lemma parsed_options_consistent_witness:
  "options_consistent \<lparr>optFlags = [], optValues = [(js ''target'', js ''test-pc''), (js ''mode'', js ''viewer-capture''),
     (js ''viewerOperation'', js ''Capture'')]\<rparr>"
proof (rule parsed_options_consistent)
  show "parseArguments [js ''--target'', js ''test-pc'', js ''--mode'', js ''viewer-capture''] = Inr
    \<lparr>optFlags = [], optValues = [(js ''target'', js ''test-pc''), (js ''mode'', js ''viewer-capture''),
     (js ''viewerOperation'', js ''Capture'')]\<rparr>"
    by (simp add: parseArguments_def booleanFlags_def valueFlags_def)
      (simp add: js_def opt_flag_def early_checks_def late_checks_def default_operation_def opt_def opt_in_def mode_is_def given_def
        targetAliases_def target_modes_def Let_def)
qed (simp add: opt_flag_def)

section \<open>Quoted strings\<close>

text \<open>\<open>psLiteral\<close> changes no character but the ASCII apostrophe: a typographic quote, which PowerShell takes
  for a single quote too, goes into the script as it is.\<close>

lemma psLiteral_keeps_typographic_quotes:
  "0x27 \<notin> set s \<Longrightarrow> psLiteral s = [0x27] @ s @ [0x27]"
proof -
  assume s: "0x27 \<notin> set s"
  then have "concat (map (\<lambda>c. if c = 0x27 then [0x27, 0x27] else [c]) s) = s" by (induction s) auto
  then show ?thesis by (simp add: psLiteral_def)
qed

end
