(* ===== verification/ViewerHelpers.thy ===== *)
theory ViewerHelpers
  imports Pipe
begin

text \<open>
  The small modules of the native viewer: \<open>viewerLifecycle.ts\<close> (what to do at start-up and when the
  management service goes away), \<open>navigation.ts\<close> (which documents the window may show),
  \<open>setupModel.ts\<close> and \<open>setupRenderer.ts\<close> (the connection form) and \<open>preload.ts\<close> (the bridge between
  the page and the main process). The URL parser is a parameter, the record \<open>url_env\<close>.
\<close>

section \<open>viewerLifecycle.ts\<close>

datatype startup_action = ShowSetupAction | QuitAction | AcquireLeaseAction

definition startupAction :: "jsval \<Rightarrow> bool \<Rightarrow> startup_action" where
  "startupAction status autoStartLaunch =
     (let connection = jget status (js ''connection'') in
      if \<not> truthy (jget status (js ''configured'')) then ShowSetupAction
      else if truthy connection \<and> connection \<noteq> JString (js ''online'') then ShowSetupAction
      else if (autoStartLaunch \<and> \<not> truthy (jget status (js ''autoStart'')))
              \<or> \<not> truthy (jget status (js ''leaseAvailable'')) then QuitAction
      else AcquireLeaseAction)"

datatype disconnect_action = QuitNow | PreserveLiveAndReconnect | ShowServiceErrorAndReconnect

definition disconnectAction :: "bool \<Rightarrow> bool \<Rightarrow> disconnect_action" where
  "disconnectAction explicitShutdown liveVisible =
     (if explicitShutdown then QuitNow
      else if liveVisible then PreserveLiveAndReconnect else ShowServiceErrorAndReconnect)"

definition reconnectDelaySeconds :: "int \<Rightarrow> int" where
  "reconnectDelaySeconds retryCount = [1, 2, 5, 10, 30] ! nat (min (max retryCount 0) 4)"

datatype load_action = Load | Preserve

definition setupLoadAction :: "bool \<Rightarrow> load_action" where
  "setupLoadAction setupVisible = (if setupVisible then Preserve else Load)"

definition liveDocumentLoadAction :: "bool \<Rightarrow> jsstring \<Rightarrow> jsstring \<Rightarrow> load_action" where
  "liveDocumentLoadAction liveVisible currentURL nextURL =
     (if liveVisible \<and> currentURL = nextURL then Preserve else Load)"

lemma min_max_cases: "min (max n 0) 4 \<in> {0, 1, 2, 3, 4 :: int}"
  by (cases "n \<le> 0"; cases "n \<ge> 4") (auto simp: min_def max_def)

lemma reconnectDelaySeconds_range: "reconnectDelaySeconds n \<in> {1, 2, 5, 10, 30}"
  using min_max_cases [of n] by (auto simp: reconnectDelaySeconds_def)

lemma reconnectDelaySeconds_mono: "m \<le> n \<Longrightarrow> reconnectDelaySeconds m \<le> reconnectDelaySeconds n"
proof -
  assume "m \<le> n"
  then have le: "min (max m 0) 4 \<le> min (max n 0) 4" by simp
  then show ?thesis
    using min_max_cases [of m] min_max_cases [of n] by (auto simp: reconnectDelaySeconds_def)
qed

section \<open>navigation.ts\<close>

record url =
  protocol :: jsstring
  hostname :: jsstring
  username :: jsstring
  password :: jsstring
  pathname :: jsstring
  search :: jsstring
  url_hash :: jsstring
  origin :: jsstring
  href :: jsstring

text \<open>
  \<open>parseURL\<close> is \<open>new URL(s)\<close>, \<open>None\<close> when it throws; \<open>setRoute u path query\<close> is \<open>toString()\<close> after
  the assignments to \<open>pathname\<close> and \<open>search\<close>.
\<close>

record url_env =
  parseURL :: "jsstring \<Rightarrow> url option"
  setRoute :: "url \<Rightarrow> jsstring \<Rightarrow> jsstring \<Rightarrow> jsstring"

definition viewerURL :: "url_env \<Rightarrow> jsstring \<Rightarrow> pipe_error + jsstring" where
  "viewerURL env serverURL =
     (case parseURL env serverURL of
        None \<Rightarrow> Inl (PlainError (js ''Invalid URL''))
      | Some parsed \<Rightarrow>
          if (protocol parsed \<noteq> js ''http:'' \<and> protocol parsed \<noteq> js ''https:'') \<or> hostname parsed = []
             \<or> username parsed \<noteq> [] \<or> password parsed \<noteq> []
          then Inl (PlainError (js ''Agent supplied an invalid CamStation server URL''))
          else if (pathname parsed \<noteq> js ''/'' \<and> pathname parsed \<noteq> []) \<or> search parsed \<noteq> [] \<or> url_hash parsed \<noteq> []
          then Inl (PlainError (js ''CamStation server URL must not contain a route''))
          else Inr (setRoute env parsed (js ''/live'') (js ''?viewer=1'')))"

definition isNavigationAllowed :: "url_env \<Rightarrow> jsstring \<Rightarrow> jsstring \<Rightarrow> bool" where
  "isNavigationAllowed env candidate liveURL =
     (case (parseURL env liveURL, parseURL env candidate) of
        (Some live, Some target) \<Rightarrow>
          origin target = origin live
          \<and> (href target = href live \<or> (pathname target = js ''/recordings'' \<and> search target = js ''?viewer=1''))
      | _ \<Rightarrow> False)"

record window_options =
  showAtOnce :: bool
  nodeIntegration :: bool
  contextIsolation :: bool
  sandboxed :: bool
  webSecurity :: bool
  backgroundThrottling :: bool
  devTools :: bool

definition browserWindowOptions :: "bool \<Rightarrow> window_options" where
  "browserWindowOptions packaged =
     \<lparr>showAtOnce = False, nodeIntegration = False, contextIsolation = True, sandboxed = True, webSecurity = True,
      backgroundThrottling = False, devTools = \<not> packaged\<rparr>"

definition permissionAllowed :: "jsstring \<Rightarrow> bool" where
  "permissionAllowed _ = False"

definition rendererStateForEvent :: "jsstring \<Rightarrow> jsstring" where
  "rendererStateForEvent event =
     (if event = js ''unresponsive'' then js ''unresponsive''
      else if event = js ''render-process-gone'' then js ''failed''
      else js ''not_ready'')"

section \<open>setupModel.ts\<close>

text \<open>The texts of the form, one constructor each.\<close>

datatype setup_message =
  CheckInput | ServerUnreachable | VersionIncompatible | RegistrationRejected | ServiceUnavailable
| CannotSave | EnterServer

definition setupErrorMessage :: "jsstring \<Rightarrow> setup_message" where
  "setupErrorMessage errorCode =
     (if errorCode = js ''invalid_input'' then CheckInput
      else if errorCode = js ''server_unreachable'' then ServerUnreachable
      else if errorCode = js ''api_incompatible'' then VersionIncompatible
      else if errorCode = js ''registration_rejected'' then RegistrationRejected
      else if errorCode = js ''service_unavailable'' then ServiceUnavailable
      else CannotSave)"

record config_draft =
  serverUrl :: jsstring
  displayName :: jsstring
  autoStart :: bool

record setup_state =
  draft :: config_draft
  activeConfig :: "(jsstring \<times> jsstring) option"  \<comment> \<open>server URL, display name\<close>
  setupError :: "jsstring option"

definition nextSetupState :: "setup_state \<Rightarrow> config_draft \<Rightarrow> jsstring option \<Rightarrow> setup_state" where
  "nextSetupState previous d errorCode =
     (case errorCode of
        Some code \<Rightarrow> if code = [] then \<lparr>draft = d, activeConfig = None, setupError = None\<rparr>
                     else \<lparr>draft = d, activeConfig = activeConfig previous, setupError = Some code\<rparr>
      | None \<Rightarrow> \<lparr>draft = d, activeConfig = None, setupError = None\<rparr>)"

record setup_hydration =
  hydrated :: "config_draft option"
  focusServer :: bool
  hydrationMessage :: "setup_message option"

text \<open>\<open>status?.config?.serverUrl ?? ""\<close> and \<open>status?.autoStart ?? true\<close>\<close>

definition hydrated_draft :: "jsval \<Rightarrow> config_draft" where
  "hydrated_draft status =
     \<lparr>serverUrl = string_of (jget (jget status (js ''config'')) (js ''serverUrl'')),
      displayName = string_of (jget (jget status (js ''config'')) (js ''displayName'')),
      autoStart = (case jget status (js ''autoStart'') of JUndefined \<Rightarrow> True | JNull \<Rightarrow> True | v \<Rightarrow> truthy v)\<rparr>"

definition setupHydration :: "jsval \<Rightarrow> bool \<Rightarrow> bool \<Rightarrow> setup_hydration" where
  "setupHydration status dirty editing =
     (if dirty \<or> editing then \<lparr>hydrated = None, focusServer = False, hydrationMessage = None\<rparr>
      else if jget status (js ''connection'') = JString (js ''service_unavailable'')
      then \<lparr>hydrated = Some (hydrated_draft status), focusServer = True,
            hydrationMessage = Some (setupErrorMessage (js ''service_unavailable''))\<rparr>
      else \<lparr>hydrated = Some (hydrated_draft status), focusServer = True, hydrationMessage = None\<rparr>)"

section \<open>setupRenderer.ts\<close>

datatype focus_target = ServerInput | NameInput | AutoStartInput | OtherElement

record setup_form =
  formValues :: config_draft
  formDirty :: bool
  formFocus :: focus_target
  formMessage :: "setup_message option"
  savedDrafts :: "config_draft list"   \<comment> \<open>what was handed to \<open>saveConfiguration\<close>\<close>

datatype form_input =
  EditField config_draft focus_target  \<comment> \<open>an \<open>input\<close> or \<open>change\<close> event: the new values, where the focus is\<close>
| MoveFocus focus_target
| StatusArrived jsval                  \<comment> \<open>\<open>getSetupState\<close> or \<open>retryConnection\<close> resolved\<close>
| SubmitForm
| SaveAnswered jsval
| BridgeRejected                       \<comment> \<open>\<open>saveConfiguration\<close> or \<open>retryConnection\<close> rejected\<close>

definition applyStatus :: "jsval \<Rightarrow> setup_form \<Rightarrow> setup_form" where
  "applyStatus status f =
     (let editing = formFocus f \<in> {ServerInput, NameInput, AutoStartInput};
          h = setupHydration status (formDirty f) editing;
          f1 = (case hydrated h of None \<Rightarrow> f | Some d \<Rightarrow> f\<lparr>formValues := d\<rparr>);
          f2 = f1\<lparr>formMessage := Some (case hydrationMessage h of None \<Rightarrow> EnterServer | Some m \<Rightarrow> m)\<rparr>
      in if focusServer h then f2\<lparr>formFocus := ServerInput\<rparr> else f2)"

fun form_exec :: "form_input \<Rightarrow> setup_form \<Rightarrow> setup_form" where
  "form_exec (EditField d target) f = f\<lparr>formValues := d, formDirty := True, formFocus := target\<rparr>"
| "form_exec (MoveFocus target) f = f\<lparr>formFocus := target\<rparr>"
| "form_exec (StatusArrived status) f = applyStatus status f"
| "form_exec SubmitForm f = f\<lparr>savedDrafts := savedDrafts f @ [formValues f]\<rparr>"
| "form_exec (SaveAnswered result) f =
     (if \<not> truthy (jget result (js ''ok''))
      then f\<lparr>formMessage := Some (setupErrorMessage (string_of (jget result (js ''errorCode''))))\<rparr> else f)"
| "form_exec BridgeRejected f = f\<lparr>formMessage := Some (setupErrorMessage (js ''service_unavailable''))\<rparr>"

section \<open>preload.ts\<close>

text \<open>
  The handlers of \<open>onCommand\<close> by number, in the order of the \<open>Set\<close>; \<open>ipcListening\<close> counts the
  registrations of \<open>commandListener\<close> with the process channel. The answer of a handler is
  \<open>None\<close> when it throws or rejects.
\<close>

record preload =
  commandHandlers :: "nat list"
  ipcListening :: nat
  resultsSent :: "(jsval \<times> bool) list"  \<comment> \<open>operation key, succeeded\<close>

definition commandListener :: "jsval \<Rightarrow> (nat \<Rightarrow> jsval option) \<Rightarrow> preload \<Rightarrow> preload" where
  "commandListener command answer p =
     (let operationKey = (if is_object command then jget command (js ''operationKey'') else JUndefined);
          results = map (\<lambda>h. case answer h of None \<Rightarrow> JBool False | Some v \<Rightarrow> v) (commandHandlers p)
      in p\<lparr>resultsSent := resultsSent p @ [(operationKey, list_ex truthy results)]\<rparr>)"

definition onCommand :: "nat \<Rightarrow> preload \<Rightarrow> preload" where
  "onCommand handler p =
     (let p1 = (if commandHandlers p = [] then p\<lparr>ipcListening := Suc (ipcListening p)\<rparr> else p)
      in if handler \<in> set (commandHandlers p1) then p1
         else p1\<lparr>commandHandlers := commandHandlers p1 @ [handler]\<rparr>)"

definition dispose_command :: "nat \<Rightarrow> preload \<Rightarrow> preload" where
  "dispose_command handler p =
     (let p1 = p\<lparr>commandHandlers := filter (\<lambda>h. h \<noteq> handler) (commandHandlers p)\<rparr>
      in if commandHandlers p1 = [] then p1\<lparr>ipcListening := ipcListening p1 - 1\<rparr> else p1)"

text \<open>The listener of \<open>onFullscreenChange\<close>: the value the handler gets.\<close>

definition fullscreen_listener :: "jsval \<Rightarrow> bool option" where
  "fullscreen_listener v = (case v of JBool b \<Rightarrow> Some b | _ \<Rightarrow> None)"

datatype preload_input = AddHandler nat | RemoveHandler nat | IpcCommand jsval "nat \<Rightarrow> jsval option"

fun preload_exec :: "preload_input \<Rightarrow> preload \<Rightarrow> preload" where
  "preload_exec (AddHandler h) p = onCommand h p"
| "preload_exec (RemoveHandler h) p = dispose_command h p"
| "preload_exec (IpcCommand command answer) p =
     (if ipcListening p = 0 then p else commandListener command answer p)"

section \<open>Facts about the form and the bridge\<close>

lemma applyStatus_keeps_edits:
  "formDirty f \<or> formFocus f \<noteq> OtherElement \<Longrightarrow>
   formValues (applyStatus status f) = formValues f \<and> formFocus (applyStatus status f) = formFocus f"
  by (cases "formFocus f") (auto simp: applyStatus_def setupHydration_def Let_def)

lemma form_dirty_stays: "formDirty f \<Longrightarrow> formDirty (form_exec i f)"
  by (cases i) (auto simp: applyStatus_def setupHydration_def Let_def)

definition preload_ok :: "preload \<Rightarrow> bool" where
  "preload_ok p \<longleftrightarrow> distinct (commandHandlers p) \<and> ipcListening p = (if commandHandlers p = [] then 0 else 1)"

lemma preload_exec_ok: "preload_ok p \<Longrightarrow> preload_ok (preload_exec i p)"
  by (cases i) (auto simp: preload_ok_def onCommand_def dispose_command_def commandListener_def Let_def split: if_splits)

lemma viewerURL_cases:
  "viewerURL env s = Inr u \<Longrightarrow>
   \<exists>p. parseURL env s = Some p \<and> protocol p \<in> {js ''http:'', js ''https:''} \<and> hostname p \<noteq> [] \<and> username p = []
     \<and> password p = [] \<and> u = setRoute env p (js ''/live'') (js ''?viewer=1'')"
  by (auto simp: viewerURL_def split: option.splits if_splits)

end
