(* ===== verification/ViewerMain.thy ===== *)
theory ViewerMain
  imports ViewerHelpers
begin

text \<open>
  \<open>viewer-app/src/main.ts\<close>: the main process of the native viewer. Its module variables are the
  record \<open>viewer\<close>; a function that awaits is cut at its \<open>await\<close>s, and what follows one is a
  \<open>task\<close> that the state holds until the promise settles. Events of Electron, of the management
  connections and of the timers are inputs; after each input the continuations of the requests whose
  connection has ended run before the next one, as the microtasks of the event loop do.
  A management connection is what this module sees of one: whether it has ended, and the requests
  made on it (the \<open>pipe_call\<close>s of \<open>Pipe\<close>, answered through \<open>call_result\<close>).
\<close>

section \<open>State\<close>

record conn =
  connEnd :: "pipe_error option"   \<comment> \<open>why it ended, \<open>None\<close> while it is open\<close>
  calls :: "pipe_call list"

record lease_grant =
  grantLease :: jsstring
  grantSeconds :: rat
  grantNo :: nat                   \<comment> \<open>the identity of the object\<close>

record beat =
  beatConn :: nat
  beatGrant :: lease_grant
  inFlight :: bool
  beatNo :: nat

datatype document = LoadURL jsstring | LoadSetup

datatype page_message = FullscreenChanged bool | PageCommand viewer_command

record browser =
  destroyed :: bool
  visible :: bool
  shownURL :: jsstring             \<comment> \<open>\<open>webContents.getURL()\<close>\<close>
  loads :: "document list"
  sentToPage :: "page_message list"
  fullScreen :: bool

definition new_window :: browser where
  "new_window = \<lparr>destroyed = False, visible = False, shownURL = [], loads = [], sentToPage = [], fullScreen = False\<rparr>"

record outage =
  startedAt :: int
  outageCode :: failure_code
  reconnectCount :: int

text \<open>
  Who awaits \<open>showSetup\<close> or \<open>showLive\<close>: the menu, the disconnect handler, \<open>connectAndShow\<close> (with
  its connection, whether a live document was visible before, and whether an IPC caller waits for
  it) or the handler of \<open>viewer:configure\<close>.
\<close>

datatype caller =
  MenuSetup
| DisconnectSetup
| StartSetup nat bool jsval bool
| CatchSetup bool
| FromConnect nat bool bool
| FromConfigure jsval

datatype task =
  AwaitConnect bool bool bool          \<comment> \<open>auto-start, live visible before, IPC caller\<close>
| AwaitStatus nat bool bool bool
| AwaitLease nat caller jsval bool
| AwaitSetupLoad caller
| AwaitLiveLoad caller
| AwaitConfigure nat jsval
| AwaitReload nat lease_grant jsstring
| AwaitRenderer nat lease_grant jsstring
| AwaitReport nat lease_grant jsstring bool jsstring bool

datatype reply = RetryReply jsval | ConfigureReply "jsstring + jsval" | StateReply jsval | FullscreenReply bool

record viewer =
  window :: "browser option"
  connection :: "nat option"
  conns :: "conn list"
  lease :: "lease_grant option"
  grants :: nat
  currentStatus :: jsval
  currentLiveURL :: jsstring
  explicitShutdown :: bool
  reconnectAttempt :: int
  heartbeat :: "beat option"
  beats :: nat
  reconnectTimer :: "int option"
  setupVisible :: bool
  managementOutage :: "outage option"
  rendererCommandResults :: "(jsstring, nat) jsmap"   \<comment> \<open>operation key, task\<close>
  tasks :: "(nat \<times> task) list"
  nextTask :: nat
  rendererSettled :: "(nat \<times> bool) list"
  replies :: "reply list"
  clock :: int
  quitRequested :: bool
  quitHandled :: bool
  relaunched :: bool
  exited :: bool

definition initial_viewer :: viewer where
  "initial_viewer =
     \<lparr>window = None, connection = None, conns = [], lease = None, grants = 0, currentStatus = JNull,
      currentLiveURL = [], explicitShutdown = False, reconnectAttempt = 0, heartbeat = None, beats = 0,
      reconnectTimer = None, setupVisible = False, managementOutage = None, rendererCommandResults = [],
      tasks = [], nextTask = 0, rendererSettled = [], replies = [], clock = 0, quitRequested = False,
      quitHandled = False, relaunched = False, exited = False\<rparr>"

section \<open>Small operations\<close>

definition conn_open :: "nat \<Rightarrow> viewer \<Rightarrow> bool" where
  "conn_open c s \<longleftrightarrow> c < length (conns s) \<and> connEnd (conns s ! c) = None"

definition call :: "nat \<Rightarrow> pipe_call \<Rightarrow> viewer \<Rightarrow> viewer" where
  "call c pc s =
     (if conn_open c s
      then s\<lparr>conns := (conns s)[c := (conns s ! c)\<lparr>calls := calls (conns s ! c) @ [pc]\<rparr>]\<rparr> else s)"

definition end_conn :: "nat \<Rightarrow> pipe_error \<Rightarrow> viewer \<Rightarrow> viewer" where
  "end_conn c e s =
     (if conn_open c s then s\<lparr>conns := (conns s)[c := (conns s ! c)\<lparr>connEnd := Some e\<rparr>]\<rparr> else s)"

definition close_conn :: "nat option \<Rightarrow> viewer \<Rightarrow> viewer" where
  "close_conn c s =
     (case c of None \<Rightarrow> s | Some c \<Rightarrow> end_conn c (PlainError (js ''management pipe closed'')) s)"

definition add_task :: "task \<Rightarrow> viewer \<Rightarrow> viewer" where
  "add_task t s = s\<lparr>tasks := tasks s @ [(nextTask s, t)], nextTask := Suc (nextTask s)\<rparr>"

definition quit :: "viewer \<Rightarrow> viewer" where
  "quit s = s\<lparr>quitRequested := True\<rparr>"

definition reportRenderer :: "jsval \<Rightarrow> viewer \<Rightarrow> viewer" where
  "reportRenderer state s =
     (case (lease s, connection s) of
        (Some g, Some c) \<Rightarrow>
          call c (ReportRenderer (grantLease g)
            (JObject [(js ''state'', state), (js ''source'', JString (js ''viewer''))])) s
      | _ \<Rightarrow> s)"

definition reportDiagnostic :: "jsval \<Rightarrow> viewer \<Rightarrow> viewer" where
  "reportDiagnostic payload s =
     (case (lease s, connection s) of
        (Some g, Some c) \<Rightarrow> call c (ReportDiagnostic (grantLease g) payload) s
      | _ \<Rightarrow> s)"

definition main_diagnostic :: "string \<Rightarrow> string \<Rightarrow> string \<Rightarrow> string \<Rightarrow> (jsstring \<times> jsval) list \<Rightarrow> jsval" where
  "main_diagnostic level component event state extra =
     JObject ([(js ''level'', JString (js level)), (js ''component'', JString (js component)),
               (js ''event'', JString (js event)), (js ''state'', JString (js state))] @ extra)"

definition observeManagementOutage :: "pipe_error \<Rightarrow> viewer \<Rightarrow> viewer" where
  "observeManagementOutage e s =
     (case managementOutage s of
        None \<Rightarrow> s\<lparr>managementOutage :=
                   Some \<lparr>startedAt = clock s, outageCode = managementFailureCode e, reconnectCount = 0\<rparr>\<rparr>
      | Some q \<Rightarrow> s\<lparr>managementOutage := Some (q\<lparr>reconnectCount := min 100 (reconnectCount q + 1)\<rparr>)\<rparr>)"

fun failure_code_string :: "failure_code \<Rightarrow> jsstring" where
  "failure_code_string RequestTimeout = js ''request_timeout''"
| "failure_code_string ConnectTimeout = js ''connect_timeout''"
| "failure_code_string LeaseFailed = js ''lease_failed''"
| "failure_code_string PipeClosed = js ''pipe_closed''"
| "failure_code_string TransportFailed = js ''transport_failed''"

definition reportManagementRecovery :: "viewer \<Rightarrow> viewer" where
  "reportManagementRecovery s =
     (case managementOutage s of
        None \<Rightarrow> s
      | Some q \<Rightarrow>
          reportDiagnostic
            (main_diagnostic ''warn'' ''viewer.control'' ''management_recovered'' ''running''
              [(js ''errorCode'', JString (failure_code_string (outageCode q))),
               (js ''durationMs'', int_value (min (30 * 60000) (max 0 (clock s - startedAt q)))),
               (js ''reconnectCount'', int_value (reconnectCount q))])
            (s\<lparr>managementOutage := None\<rparr>))"

definition stopHeartbeat :: "viewer \<Rightarrow> viewer" where
  "stopHeartbeat s = s\<lparr>heartbeat := None\<rparr>"

text \<open>\<open>pulse\<close> of the running interval, and the \<open>finally\<close> of its request.\<close>

definition pulse :: "viewer \<Rightarrow> viewer" where
  "pulse s =
     (case heartbeat s of
        None \<Rightarrow> s
      | Some b \<Rightarrow>
          if inFlight b \<or> connection s \<noteq> Some (beatConn b) \<or> lease s \<noteq> Some (beatGrant b) then s
          else call (beatConn b) (Heartbeat (grantLease (beatGrant b))) (s\<lparr>heartbeat := Some (b\<lparr>inFlight := True\<rparr>)\<rparr>))"

definition heartbeat_answered :: "nat \<Rightarrow> viewer \<Rightarrow> viewer" where
  "heartbeat_answered n s =
     (case heartbeat s of
        Some b \<Rightarrow> if beatNo b = n then s\<lparr>heartbeat := Some (b\<lparr>inFlight := False\<rparr>)\<rparr> else s
      | None \<Rightarrow> s)"

definition startHeartbeat :: "viewer \<Rightarrow> viewer" where
  "startHeartbeat s =
     (let s1 = stopHeartbeat s in
      case (connection s1, lease s1) of
        (Some c, Some g) \<Rightarrow>
          pulse (s1\<lparr>heartbeat := Some \<lparr>beatConn = c, beatGrant = g, inFlight = False, beatNo = beats s1\<rparr>,
                    beats := Suc (beats s1)\<rparr>)
      | _ \<Rightarrow> s1)"

definition scheduleReconnect :: "viewer \<Rightarrow> viewer" where
  "scheduleReconnect s =
     (if reconnectTimer s \<noteq> None \<or> explicitShutdown s then s
      else s\<lparr>reconnectTimer := Some (reconnectDelaySeconds (reconnectAttempt s) * 1000),
             reconnectAttempt := reconnectAttempt s + 1\<rparr>)"

definition cancelScheduledReconnect :: "viewer \<Rightarrow> viewer" where
  "cancelScheduledReconnect s = s\<lparr>reconnectTimer := None, reconnectAttempt := 0\<rparr>"

definition hasCurrentLiveDocument :: "url_env \<Rightarrow> viewer \<Rightarrow> bool" where
  "hasCurrentLiveDocument env s =
     (case window s of
        None \<Rightarrow> False
      | Some w \<Rightarrow> if destroyed w \<or> setupVisible s \<or> currentLiveURL s = [] then False
                  else isNavigationAllowed env (shownURL w) (currentLiveURL s))"

definition createWindow :: "viewer \<Rightarrow> viewer" where
  "createWindow s = (case window s of None \<Rightarrow> s\<lparr>window := Some new_window\<rparr> | Some _ \<Rightarrow> s)"

text \<open>\<open>loadURL\<close> and \<open>loadFile\<close>; a destroyed window throws, which the awaiting task sees.\<close>

definition load_document :: "document \<Rightarrow> viewer \<Rightarrow> viewer" where
  "load_document d s =
     (case window s of
        Some w \<Rightarrow> if destroyed w then s else s\<lparr>window := Some (w\<lparr>loads := loads w @ [d]\<rparr>)\<rparr>
      | None \<Rightarrow> s)"

definition send_page :: "page_message \<Rightarrow> viewer \<Rightarrow> viewer" where
  "send_page m s =
     (case window s of Some w \<Rightarrow> s\<lparr>window := Some (w\<lparr>sentToPage := sentToPage w @ [m]\<rparr>)\<rparr> | None \<Rightarrow> s)"

definition service_error_status :: "viewer \<Rightarrow> jsval" where
  "service_error_status s =
     JObject [(js ''configured'', JBool (truthy (jget (currentStatus s) (js ''configured'')))),
              (js ''connection'', JString (js ''service_unavailable'')),
              (js ''autoStart'', JBool False), (js ''leaseAvailable'', JBool False)]"

section \<open>Showing a document\<close>

text \<open>The end of \<open>connectAndShow\<close>: the handler of \<open>viewer:retry-connection\<close> answers its caller.\<close>

definition finish :: "bool \<Rightarrow> viewer \<Rightarrow> viewer" where
  "finish reply s = (if reply then s\<lparr>replies := replies s @ [RetryReply (currentStatus s)]\<rparr> else s)"

fun returned_ok :: "caller \<Rightarrow> viewer \<Rightarrow> viewer" where
  "returned_ok MenuSetup s = s"
| "returned_ok DisconnectSetup s = scheduleReconnect s"
| "returned_ok (StartSetup c lv status reply) s =
     finish reply (if truthy (jget status (js ''configured'')) then scheduleReconnect s else s)"
| "returned_ok (CatchSetup reply) s = finish reply (scheduleReconnect s)"
| "returned_ok (FromConnect c lv reply) s = finish reply (s\<lparr>reconnectAttempt := 0\<rparr>)"
| "returned_ok (FromConfigure status) s = s\<lparr>replies := replies s @ [ConfigureReply (Inr status)]\<rparr>"

definition showSetup :: "caller \<Rightarrow> jsval \<Rightarrow> viewer \<Rightarrow> viewer" where
  "showSetup k status s =
     (let s1 = (stopHeartbeat s)\<lparr>currentStatus := status, currentLiveURL := []\<rparr>
      in if setupLoadAction (setupVisible s1) = Preserve then returned_ok k s1
         else add_task (AwaitSetupLoad k) (load_document LoadSetup (createWindow (s1\<lparr>setupVisible := True\<rparr>))))"

text \<open>The \<open>catch\<close> of \<open>connectAndShow\<close>: the failed attempt is given up, then what is shown.\<close>

definition abandon_attempt :: "nat option \<Rightarrow> pipe_error \<Rightarrow> viewer \<Rightarrow> viewer" where
  "abandon_attempt attempted e s =
     (case attempted of
        None \<Rightarrow> observeManagementOutage e s
      | Some c \<Rightarrow>
          if connection s = Some c
          then close_conn (Some c) ((stopHeartbeat s)\<lparr>connection := None, lease := None\<rparr>) else s)"

definition connect_catch :: "url_env \<Rightarrow> nat option \<Rightarrow> bool \<Rightarrow> bool \<Rightarrow> pipe_error \<Rightarrow> viewer \<Rightarrow> viewer" where
  "connect_catch env attempted lv reply e s =
     (let s1 = abandon_attempt attempted e s
      in if \<not> hasCurrentLiveDocument env s1 \<and> \<not> lv
         then showSetup (CatchSetup reply) (service_error_status s1) s1
         else finish reply (scheduleReconnect s1))"

definition failure_reply :: "pipe_error \<Rightarrow> jsstring" where
  "failure_reply e = (case e of ManagementRequestError code _ \<Rightarrow> code | PlainError _ \<Rightarrow> js ''storage_failed'')"

fun returned_err :: "url_env \<Rightarrow> caller \<Rightarrow> pipe_error \<Rightarrow> viewer \<Rightarrow> viewer" where
  "returned_err env MenuSetup e s = s"
| "returned_err env DisconnectSetup e s = scheduleReconnect s"
| "returned_err env (StartSetup c lv status reply) e s = connect_catch env (Some c) lv reply e s"
| "returned_err env (CatchSetup reply) e s = finish reply (scheduleReconnect s)"
| "returned_err env (FromConnect c lv reply) e s = connect_catch env (Some c) lv reply e s"
| "returned_err env (FromConfigure status) e s =
     s\<lparr>replies := replies s @ [ConfigureReply (Inl (failure_reply e))]\<rparr>"

text \<open>\<open>showLive\<close> once it has a lease: its steps, and their composition.\<close>

definition begin_live :: "jsstring \<Rightarrow> viewer \<Rightarrow> viewer" where
  "begin_live nextLiveURL s = (startHeartbeat (cancelScheduledReconnect s))\<lparr>currentLiveURL := nextLiveURL\<rparr>"

definition announce_live :: "nat \<Rightarrow> lease_grant \<Rightarrow> viewer \<Rightarrow> viewer" where
  "announce_live c g s = (call c (ReportViewer (grantLease g) (js ''running'')) s)\<lparr>setupVisible := False\<rparr>"

definition keep_document :: "viewer \<Rightarrow> viewer" where
  "keep_document s =
     reportManagementRecovery
       (reportDiagnostic (main_diagnostic ''info'' ''viewer.main'' ''lease_reacquired'' ''running'' [])
         (reportRenderer (JString (js ''ready'')) s))"

definition load_live :: "jsstring \<Rightarrow> viewer \<Rightarrow> viewer" where
  "load_live nextLiveURL s =
     load_document (LoadURL nextLiveURL) (createWindow
       (reportDiagnostic (main_diagnostic ''info'' ''viewer.main'' ''live_load_started'' ''running'' []) s))"

definition live_go :: "url_env \<Rightarrow> caller \<Rightarrow> jsval \<Rightarrow> bool \<Rightarrow> viewer \<Rightarrow> viewer" where
  "live_go env k status preserve s =
     (case viewerURL env (string_of (jget (jget status (js ''config'')) (js ''serverUrl''))) of
        Inl e \<Rightarrow> returned_err env k e s
      | Inr nextLiveURL \<Rightarrow>
          (let action = liveDocumentLoadAction (preserve \<and> hasCurrentLiveDocument env s) (currentLiveURL s) nextLiveURL;
               s1 = begin_live nextLiveURL s
           in case (connection s1, lease s1) of
                (Some c, Some g) \<Rightarrow>
                  if action = Preserve then returned_ok k (keep_document (announce_live c g s1))
                  else add_task (AwaitLiveLoad k) (load_live nextLiveURL (announce_live c g s1))
              | _ \<Rightarrow> returned_err env k (PlainError (js ''Cannot read properties of null'')) s1))"

definition showLive :: "url_env \<Rightarrow> caller \<Rightarrow> jsval \<Rightarrow> bool \<Rightarrow> viewer \<Rightarrow> viewer" where
  "showLive env k status preserve s =
     (case connection s of
        None \<Rightarrow> showSetup k status s
      | Some c \<Rightarrow>
          if \<not> truthy (jget status (js ''config'')) then showSetup k status s
          else (case lease s of
                  None \<Rightarrow> add_task (AwaitLease c k status preserve) (call c AcquireLease s)
                | Some g \<Rightarrow> live_go env k status preserve s))"

definition grant_of :: "jsval \<Rightarrow> nat \<Rightarrow> lease_grant" where
  "grant_of v n =
     \<lparr>grantLease = string_of (jget v (js ''leaseId'')),
      grantSeconds = (case jget v (js ''heartbeatSeconds'') of JNumber (Num x) \<Rightarrow> x | _ \<Rightarrow> 0), grantNo = n\<rparr>"

definition lease_busy :: "pipe_error \<Rightarrow> bool" where
  "lease_busy e = (case e of ManagementRequestError code _ \<Rightarrow> code = js ''lease_busy'' | PlainError _ \<Rightarrow> False)"

definition after_lease :: "url_env \<Rightarrow> caller \<Rightarrow> jsval \<Rightarrow> bool \<Rightarrow> outcome \<Rightarrow> viewer \<Rightarrow> viewer" where
  "after_lease env k status preserve answer s =
     (case call_result AcquireLease answer of
        Inr v \<Rightarrow>
          live_go env k status preserve
            (reportDiagnostic (main_diagnostic ''info'' ''viewer.main'' ''lease_acquired'' ''running'' [])
              (s\<lparr>lease := Some (grant_of v (grants s)), grants := Suc (grants s)\<rparr>))
      | Inl e \<Rightarrow> if lease_busy e \<and> \<not> preserve then returned_ok k (quit s) else returned_err env k e s)"

section \<open>Connecting\<close>

definition connectAndShow :: "url_env \<Rightarrow> bool \<Rightarrow> bool \<Rightarrow> viewer \<Rightarrow> viewer" where
  "connectAndShow env autoStartLaunch reply s =
     (let lv = hasCurrentLiveDocument env s; previous = connection s
      in add_task (AwaitConnect autoStartLaunch lv reply)
           (close_conn previous ((stopHeartbeat s)\<lparr>connection := None, lease := None\<rparr>)))"

definition after_connect :: "url_env \<Rightarrow> bool \<Rightarrow> bool \<Rightarrow> bool \<Rightarrow> outcome \<Rightarrow> viewer \<Rightarrow> viewer" where
  "after_connect env autoStartLaunch lv reply answer s =
     (case answer of
        Rejected e \<Rightarrow> connect_catch env None lv reply e s
      | Resolved _ \<Rightarrow>
          (let active = length (conns s)
           in add_task (AwaitStatus active autoStartLaunch lv reply)
                (call active GetStatus
                  (s\<lparr>conns := conns s @ [\<lparr>connEnd = None, calls = []\<rparr>], connection := Some active\<rparr>))))"

definition give_up_connection :: "nat \<Rightarrow> viewer \<Rightarrow> viewer" where
  "give_up_connection c s =
     scheduleReconnect (close_conn (Some c) (if connection s = Some c then s\<lparr>connection := None\<rparr> else s))"

definition after_status :: "url_env \<Rightarrow> nat \<Rightarrow> bool \<Rightarrow> bool \<Rightarrow> bool \<Rightarrow> outcome \<Rightarrow> viewer \<Rightarrow> viewer" where
  "after_status env c autoStartLaunch lv reply answer s =
     (case call_result GetStatus answer of
        Inl e \<Rightarrow> connect_catch env (Some c) lv reply e s
      | Inr status \<Rightarrow>
          (let s1 = s\<lparr>currentStatus := status\<rparr>
           in case startupAction status autoStartLaunch of
                ShowSetupAction \<Rightarrow>
                  if lv then finish reply (give_up_connection c s1)
                  else showSetup (StartSetup c lv status reply) status s1
              | QuitAction \<Rightarrow>
                  if \<not> lv then finish reply (quit s1) else finish reply (give_up_connection c s1)
              | AcquireLeaseAction \<Rightarrow> showLive env (FromConnect c lv reply) status lv s1))"

definition on_disconnect :: "url_env \<Rightarrow> nat \<Rightarrow> pipe_error \<Rightarrow> viewer \<Rightarrow> viewer" where
  "on_disconnect env c e s =
     (if connection s \<noteq> Some c then s
      else (let s1 = stopHeartbeat ((observeManagementOutage e s)\<lparr>connection := None, lease := None\<rparr>)
            in case disconnectAction (explicitShutdown s1) (hasCurrentLiveDocument env s1) of
                 ShowServiceErrorAndReconnect \<Rightarrow> showSetup DisconnectSetup (service_error_status s1) s1
               | PreserveLiveAndReconnect \<Rightarrow> scheduleReconnect s1
               | QuitNow \<Rightarrow> s1))"

definition pipe_failed :: "url_env \<Rightarrow> nat \<Rightarrow> pipe_error \<Rightarrow> viewer \<Rightarrow> viewer" where
  "pipe_failed env c e s = (if conn_open c s then on_disconnect env c e (end_conn c e s) else s)"

section \<open>Commands of the service\<close>

definition report_command :: "nat \<Rightarrow> lease_grant \<Rightarrow> jsstring \<Rightarrow> bool \<Rightarrow> jsstring \<Rightarrow> bool \<Rightarrow> viewer \<Rightarrow> viewer" where
  "report_command active activeLease key succeeded errorCode relaunch s =
     add_task (AwaitReport active activeLease key succeeded errorCode relaunch)
       (call active (ReportCommandResult (grantLease activeLease) key succeeded
          (if succeeded then None else Some errorCode)) s)"

definition command_failed :: "nat \<Rightarrow> lease_grant \<Rightarrow> jsstring \<Rightarrow> viewer \<Rightarrow> viewer" where
  "command_failed active activeLease key s =
     report_command active activeLease key False (js ''viewer_command_failed'') False s"

definition sendRendererCommand ::
  "nat \<Rightarrow> lease_grant \<Rightarrow> jsstring \<Rightarrow> jsstring \<Rightarrow> browser \<Rightarrow> viewer \<Rightarrow> viewer" where
  "sendRendererCommand active activeLease streamName key w s =
     (if key \<in> set (map_keys (rendererCommandResults s))
      then report_command active activeLease key False (js ''renderer_failed'') False s
      else (let s1 = s\<lparr>rendererCommandResults := map_set key (nextTask s) (rendererCommandResults s)\<rparr>
            in if destroyed w
               then command_failed active activeLease key (s1\<lparr>nextTask := Suc (nextTask s1)\<rparr>)
               else send_page (PageCommand (ResubscribeStream streamName key))
                      (add_task (AwaitRenderer active activeLease key) s1)))"

fun command_key :: "viewer_command \<Rightarrow> jsstring" where
  "command_key (ReloadLive k) = k"
| "command_key (ResubscribeStream name k) = k"
| "command_key (RestartViewer k) = k"

definition executeViewerCommand :: "nat \<Rightarrow> viewer_command \<Rightarrow> viewer \<Rightarrow> viewer" where
  "executeViewerCommand active command s =
     (case lease s of
        None \<Rightarrow> s
      | Some g \<Rightarrow>
          if connection s \<noteq> Some active then s
          else (let s1 = reportDiagnostic (main_diagnostic ''info'' ''viewer.main'' ''command_started'' ''running''
                           [(js ''correlationId'', JString (command_key command))]) s
                in case command of
                     ReloadLive key \<Rightarrow>
                       (case window s1 of
                          None \<Rightarrow> command_failed active g key s1
                        | Some w \<Rightarrow>
                            if currentLiveURL s1 = [] \<or> destroyed w then command_failed active g key s1
                            else add_task (AwaitReload active g key) (load_document (LoadURL (currentLiveURL s1)) s1))
                   | ResubscribeStream name key \<Rightarrow>
                       (case window s1 of
                          None \<Rightarrow> command_failed active g key s1
                        | Some w \<Rightarrow>
                            if currentLiveURL s1 = [] then command_failed active g key s1
                            else sendRendererCommand active g name key w s1)
                   | RestartViewer key \<Rightarrow> report_command active g key True [] True s1))"

definition after_report ::
  "nat \<Rightarrow> lease_grant \<Rightarrow> jsstring \<Rightarrow> bool \<Rightarrow> jsstring \<Rightarrow> bool \<Rightarrow> outcome \<Rightarrow> viewer \<Rightarrow> viewer" where
  "after_report active g key succeeded errorCode relaunch answer s =
     (case call_result (ReportCommandResult (grantLease g) key succeeded (if succeeded then None else Some errorCode)) answer of
        Inl _ \<Rightarrow> s
      | Inr _ \<Rightarrow>
          (let s1 = reportDiagnostic
                 (if succeeded
                  then main_diagnostic ''info'' ''viewer.main'' ''command_succeeded'' ''running'' [(js ''correlationId'', JString key)]
                  else main_diagnostic ''error'' ''viewer.main'' ''command_failed'' ''failed''
                         [(js ''correlationId'', JString key), (js ''errorCode'', JString errorCode)]) s
           in if succeeded \<and> relaunch then s1\<lparr>explicitShutdown := True, relaunched := True, exited := True\<rparr> else s1))"

section \<open>Continuations\<close>

definition drop_task :: "nat \<times> task \<Rightarrow> viewer \<Rightarrow> viewer" where
  "drop_task it s = s\<lparr>tasks := filter (\<lambda>jt. jt \<noteq> it) (tasks s)\<rparr>"

definition settle_renderer :: "nat \<Rightarrow> bool \<Rightarrow> viewer \<Rightarrow> viewer" where
  "settle_renderer i succeeded s =
     (case map_of (tasks s) i of
        Some (AwaitRenderer active g key) \<Rightarrow>
          (let s1 = (drop_task (i, AwaitRenderer active g key) s)\<lparr>rendererSettled := rendererSettled s @ [(i, succeeded)]\<rparr>
           in if succeeded then report_command active g key True [] False s1
              else report_command active g key False (js ''renderer_failed'') False s1)
      | _ \<Rightarrow> s)"

text \<open>A load cannot succeed in a destroyed window.\<close>

definition load_outcome :: "outcome \<Rightarrow> viewer \<Rightarrow> pipe_error + unit" where
  "load_outcome answer s =
     (case (answer, window s) of
        (Rejected e, _) \<Rightarrow> Inl e
      | (Resolved _, Some w) \<Rightarrow> if destroyed w then Inl (PlainError (js ''Object has been destroyed'')) else Inr ()
      | (Resolved _, None) \<Rightarrow> Inr ())"

definition resume_task :: "url_env \<Rightarrow> task \<Rightarrow> outcome \<Rightarrow> viewer \<Rightarrow> viewer" where
  "resume_task env t answer s =
     (case t of
        AwaitConnect auto lv reply \<Rightarrow> after_connect env auto lv reply answer s
      | AwaitStatus c auto lv reply \<Rightarrow> after_status env c auto lv reply answer s
      | AwaitLease c k status preserve \<Rightarrow> after_lease env k status preserve answer s
      | AwaitSetupLoad k \<Rightarrow>
          (case load_outcome answer s of Inl e \<Rightarrow> returned_err env k e s | Inr _ \<Rightarrow> returned_ok k s)
      | AwaitLiveLoad k \<Rightarrow>
          (case load_outcome answer s of
             Inl e \<Rightarrow> returned_err env k e s
           | Inr _ \<Rightarrow> returned_ok k (reportManagementRecovery
                 (reportDiagnostic (main_diagnostic ''info'' ''viewer.main'' ''live_loaded'' ''running'' []) s)))
      | AwaitConfigure c d \<Rightarrow>
          (case call_result (Configure d) answer of
             Inl e \<Rightarrow> s\<lparr>replies := replies s @ [ConfigureReply (Inl (failure_reply e))]\<rparr>
           | Inr status \<Rightarrow> showLive env (FromConfigure status) status False (s\<lparr>currentStatus := status\<rparr>))
      | AwaitReload active g key \<Rightarrow>
          (case load_outcome answer s of
             Inl e \<Rightarrow> command_failed active g key s
           | Inr _ \<Rightarrow> report_command active g key True [] False s)
      | AwaitRenderer active g key \<Rightarrow> s
      | AwaitReport c g key succeeded errorCode relaunch \<Rightarrow> after_report c g key succeeded errorCode relaunch answer s)"

fun is_renderer_task :: "task \<Rightarrow> bool" where
  "is_renderer_task (AwaitRenderer active g key) = True"
| "is_renderer_task _ = False"

definition settle :: "url_env \<Rightarrow> nat \<Rightarrow> outcome \<Rightarrow> viewer \<Rightarrow> viewer" where
  "settle env i answer s =
     (case map_of (tasks s) i of
        None \<Rightarrow> s
      | Some t \<Rightarrow> if is_renderer_task t then s else resume_task env t answer (drop_task (i, t) s))"

text \<open>The connection whose answer a task waits for, and why that connection ended.\<close>

fun task_conn :: "task \<Rightarrow> nat option" where
  "task_conn (AwaitStatus c auto lv reply) = Some c"
| "task_conn (AwaitLease c k status preserve) = Some c"
| "task_conn (AwaitConfigure c d) = Some c"
| "task_conn (AwaitReport c g key succeeded errorCode relaunch) = Some c"
| "task_conn _ = None"

definition rejected_task :: "viewer \<Rightarrow> nat \<times> task \<Rightarrow> bool" where
  "rejected_task s it = (case task_conn (snd it) of None \<Rightarrow> False | Some c \<Rightarrow> \<not> conn_open c s)"

definition rejection :: "viewer \<Rightarrow> task \<Rightarrow> outcome" where
  "rejection s t =
     (case task_conn t of
        Some c \<Rightarrow> if c < length (conns s)
                  then (case connEnd (conns s ! c) of Some e \<Rightarrow> Rejected e
                        | None \<Rightarrow> Rejected (PlainError (js ''management pipe closed'')))
                  else Rejected (PlainError (js ''management pipe closed''))
      | None \<Rightarrow> Rejected (PlainError (js ''management pipe closed'')))"

text \<open>The requests that wait: each drained task is one less.\<close>

definition waiting_calls :: "viewer \<Rightarrow> nat" where
  "waiting_calls s = length (filter (\<lambda>(i, t). task_conn t \<noteq> None) (tasks s))"

lemma waiting_add_task [simp]:
  "waiting_calls (add_task t s) = waiting_calls s + (if task_conn t = None then 0 else 1)"
  by (simp add: waiting_calls_def add_task_def)

lemma tasks_same [simp]:
  "tasks (call c pc s) = tasks s" "tasks (end_conn c e s) = tasks s" "tasks (close_conn d s) = tasks s"
  "tasks (quit s) = tasks s" "tasks (reportRenderer v s) = tasks s" "tasks (reportDiagnostic v s) = tasks s"
  "tasks (observeManagementOutage e s) = tasks s" "tasks (reportManagementRecovery s) = tasks s"
  "tasks (stopHeartbeat s) = tasks s" "tasks (pulse s) = tasks s" "tasks (heartbeat_answered n s) = tasks s"
  "tasks (startHeartbeat s) = tasks s" "tasks (scheduleReconnect s) = tasks s"
  "tasks (cancelScheduledReconnect s) = tasks s" "tasks (createWindow s) = tasks s"
  "tasks (load_document x s) = tasks s" "tasks (send_page m s) = tasks s" "tasks (finish reply s) = tasks s"
  "tasks (returned_ok k s) = tasks s" "tasks (give_up_connection n s) = tasks s"
  by (auto simp: call_def end_conn_def close_conn_def quit_def reportRenderer_def reportDiagnostic_def
      observeManagementOutage_def reportManagementRecovery_def stopHeartbeat_def pulse_def heartbeat_answered_def
      startHeartbeat_def scheduleReconnect_def cancelScheduledReconnect_def createWindow_def load_document_def
      send_page_def finish_def give_up_connection_def Let_def split: option.split) (cases k; simp add: finish_def scheduleReconnect_def)

lemma waiting_calls_cong: "tasks s = tasks s' \<Longrightarrow> waiting_calls s = waiting_calls s'"
  by (simp add: waiting_calls_def)

lemma waiting_calls_update [simp]:
  "waiting_calls (s\<lparr>tasks := ts\<rparr>) = length (filter (\<lambda>(i, t). task_conn t \<noteq> None) ts)"
  by (simp add: waiting_calls_def)

lemma waiting_showSetup [simp]: "waiting_calls (showSetup k status s) = waiting_calls s"
  by (simp add: showSetup_def Let_def waiting_calls_def add_task_def)

lemma tasks_abandon [simp]: "tasks (abandon_attempt d e s) = tasks s"
  by (simp add: abandon_attempt_def split: option.split)

lemma waiting_connect_catch [simp]: "waiting_calls (connect_catch env d lv reply e s) = waiting_calls s"
  by (simp add: connect_catch_def Let_def) (simp add: waiting_calls_def)

lemma waiting_returned_err [simp]: "waiting_calls (returned_err env k e s) = waiting_calls s"
  by (cases k) (simp_all add: waiting_calls_def waiting_connect_catch [simplified waiting_calls_def, simplified])

lemma waiting_resume_rejected:
  "task_conn t \<noteq> None \<Longrightarrow> waiting_calls (resume_task env t (Rejected e) s) = waiting_calls s"
  by (cases t) (simp_all add: resume_task_def after_status_def after_lease_def after_report_def waiting_calls_def
      waiting_connect_catch [simplified waiting_calls_def, simplified]
      waiting_returned_err [simplified waiting_calls_def, simplified] split: option.split)

section \<open>Inputs\<close>

lemma rejection_is_rejected: "\<exists>e. rejection s t = Rejected e"
  by (simp add: rejection_def split: option.split)

lemma drain_decreases:
  assumes "find (rejected_task s) (tasks s) = Some (i, t)"
  shows "waiting_calls (resume_task env t (rejection s t) (drop_task (i, t) s)) < waiting_calls s"
proof -
  from assms have mem: "(i, t) \<in> set (tasks s)" and rej: "rejected_task s (i, t)"
    by (auto simp: find_Some_iff)
  from rej have waits: "task_conn t \<noteq> None" by (auto simp: rejected_task_def split: option.splits)
  obtain e where "rejection s t = Rejected e" using rejection_is_rejected by blast
  with waits have "waiting_calls (resume_task env t (rejection s t) (drop_task (i, t) s)) = waiting_calls (drop_task (i, t) s)"
    using waiting_resume_rejected [OF waits] by simp
  also have "\<dots> < waiting_calls s"
  proof -
    let ?W = "filter (\<lambda>(i, t). task_conn t \<noteq> None)"
    have "waiting_calls (drop_task (i, t) s) = length (filter (\<lambda>jt. jt \<noteq> (i, t)) (?W (tasks s)))"
      by (simp add: waiting_calls_def drop_task_def filter_filter conj_commute case_prod_unfold)
    also have "\<dots> < length (?W (tasks s))"
      by (rule length_filter_less [of "(i, t)"]) (use mem waits in auto)
    finally show ?thesis by (simp add: waiting_calls_def)
  qed
  finally show ?thesis .
qed

function drain :: "url_env \<Rightarrow> viewer \<Rightarrow> viewer" where
  "drain env s =
     (case find (rejected_task s) (tasks s) of
        None \<Rightarrow> s
      | Some (i, t) \<Rightarrow> drain env (resume_task env t (rejection s t) (drop_task (i, t) s)))"
  by pat_completeness auto

termination
  by (relation "measure (\<lambda>(env, s). waiting_calls s)") (auto intro: drain_decreases)

declare drain.simps [simp del]

datatype window_event =
  ReadyToShow | WindowClosed | DidFinishLoad | EnterFullScreen | LeaveFullScreen | Unresponsive | Responsive
| RenderProcessGone | UrlChanged jsstring

fun on_window_event :: "window_event \<Rightarrow> browser \<Rightarrow> viewer \<Rightarrow> viewer" where
  "on_window_event ReadyToShow w s = s\<lparr>window := Some (w\<lparr>visible := True\<rparr>)\<rparr>"
| "on_window_event WindowClosed w s = quit (s\<lparr>window := Some (w\<lparr>destroyed := True\<rparr>)\<rparr>)"
| "on_window_event DidFinishLoad w s =
     reportDiagnostic (main_diagnostic ''info'' ''viewer.renderer'' ''document_loaded'' ''ready'' [])
       (reportRenderer (JString (rendererStateForEvent (js ''did-finish-load''))) s)"
| "on_window_event EnterFullScreen w s = send_page (FullscreenChanged True) s"
| "on_window_event LeaveFullScreen w s = send_page (FullscreenChanged False) s"
| "on_window_event Unresponsive w s =
     reportDiagnostic (main_diagnostic ''warn'' ''viewer.renderer'' ''unresponsive'' ''unresponsive'' [])
       (reportRenderer (JString (rendererStateForEvent (js ''unresponsive''))) s)"
| "on_window_event Responsive w s =
     reportDiagnostic (main_diagnostic ''info'' ''viewer.renderer'' ''responsive'' ''ready'' [])
       (reportRenderer (JString (rendererStateForEvent (js ''responsive''))) s)"
| "on_window_event RenderProcessGone w s =
     reportDiagnostic (main_diagnostic ''error'' ''viewer.renderer'' ''process_gone'' ''failed'' [])
       (reportRenderer (JString (rendererStateForEvent (js ''render-process-gone''))) s)"
| "on_window_event (UrlChanged u) w s = s\<lparr>window := Some (w\<lparr>shownURL := u\<rparr>)\<rparr>"

datatype main_input =
  Launch bool bool                     \<comment> \<open>single-instance lock, \<open>--autostart\<close>\<close>
| Settle nat outcome
| PipeFailed nat pipe_error
| CommandArrived nat viewer_command
| ReconnectTimerFires
| HeartbeatFires
| HeartbeatAnswered nat
| RendererTimeout jsstring
| MenuSetupClicked
| MenuQuit
| WindowEvent window_event
| RendererMessage jsval
| StreamMessage jsval
| DiagnosticMessage jsval
| CommandResultMessage bool jsval      \<comment> \<open>sent by the viewer's own page?\<close>
| SetupStateRequest
| RetryRequest
| SetFullscreenRequest bool jsval
| ConfigureRequest jsval
| BeforeQuit
| ClockAt int

definition command_result_message :: "bool \<Rightarrow> jsval \<Rightarrow> viewer \<Rightarrow> viewer" where
  "command_result_message own payload s =
     (if window s = None \<or> \<not> own \<or> \<not> is_object payload then s
      else case (jget payload (js ''operationKey''), jget payload (js ''succeeded'')) of
             (JString key, JBool succeeded) \<Rightarrow>
               (case map_of (rendererCommandResults s) key of
                  None \<Rightarrow> s
                | Some i \<Rightarrow>
                    settle_renderer i succeeded (s\<lparr>rendererCommandResults := map_delete key (rendererCommandResults s)\<rparr>))
           | _ \<Rightarrow> s)"

definition renderer_timeout :: "jsstring \<Rightarrow> viewer \<Rightarrow> viewer" where
  "renderer_timeout key s =
     (case map_of (rendererCommandResults s) key of
        None \<Rightarrow> s
      | Some i \<Rightarrow> settle_renderer i False (s\<lparr>rendererCommandResults := map_delete key (rendererCommandResults s)\<rparr>))"

text \<open>The handler of \<open>before-quit\<close>: up to \<open>connection?.close()\<close>, and all of it.\<close>

definition shut_down :: "viewer \<Rightarrow> viewer" where
  "shut_down s =
     (let s1 = cancelScheduledReconnect (stopHeartbeat (s\<lparr>explicitShutdown := True, quitHandled := True\<rparr>));
          s2 = (case (lease s1, connection s1) of
                  (Some g, Some c) \<Rightarrow> call c (ReleaseLease (grantLease g)) s1 | _ \<Rightarrow> s1)
      in close_conn (connection s2) s2)"

definition before_quit :: "viewer \<Rightarrow> viewer" where
  "before_quit s =
     (if quitHandled s then s
      else fold (\<lambda>(key, i). settle_renderer i False) (rendererCommandResults (shut_down s))
             ((shut_down s)\<lparr>rendererCommandResults := []\<rparr>))"

fun main_step :: "url_env \<Rightarrow> main_input \<Rightarrow> viewer \<Rightarrow> viewer" where
  "main_step env (Launch lock autostart) s = (if \<not> lock then quit s else connectAndShow env autostart False s)"
| "main_step env (Settle i answer) s = settle env i answer s"
| "main_step env (PipeFailed c e) s = pipe_failed env c e s"
| "main_step env (CommandArrived c command) s = (if conn_open c s then executeViewerCommand c command s else s)"
| "main_step env ReconnectTimerFires s =
     (if reconnectTimer s = None then s else connectAndShow env False False (s\<lparr>reconnectTimer := None\<rparr>))"
| "main_step env HeartbeatFires s = pulse s"
| "main_step env (HeartbeatAnswered n) s = heartbeat_answered n s"
| "main_step env (RendererTimeout key) s = renderer_timeout key s"
| "main_step env MenuSetupClicked s = showSetup MenuSetup (currentStatus s) s"
| "main_step env MenuQuit s = quit s"
| "main_step env (WindowEvent e) s = (case window s of None \<Rightarrow> s | Some w \<Rightarrow> on_window_event e w s)"
| "main_step env (RendererMessage payload) s =
     reportRenderer (case jget payload (js ''state'') of JUndefined \<Rightarrow> JString (js ''ready'')
                       | JNull \<Rightarrow> JString (js ''ready'') | v \<Rightarrow> v) s"
| "main_step env (StreamMessage payload) s =
     (case (lease s, connection s) of (Some g, Some c) \<Rightarrow> call c (ReportStream (grantLease g) payload) s | _ \<Rightarrow> s)"
| "main_step env (DiagnosticMessage payload) s = reportDiagnostic payload s"
| "main_step env (CommandResultMessage own payload) s = command_result_message own payload s"
| "main_step env SetupStateRequest s = s\<lparr>replies := replies s @ [StateReply (currentStatus s)]\<rparr>"
| "main_step env RetryRequest s = connectAndShow env False True s"
| "main_step env (SetFullscreenRequest own v) s =
     (case window s of
        Some w \<Rightarrow> if own then s\<lparr>window := Some (w\<lparr>fullScreen := (v = JBool True)\<rparr>),
                              replies := replies s @ [FullscreenReply (v = JBool True)]\<rparr>
                  else s\<lparr>replies := replies s @ [FullscreenReply False]\<rparr>
      | None \<Rightarrow> s\<lparr>replies := replies s @ [FullscreenReply False]\<rparr>)"
| "main_step env (ConfigureRequest d) s =
     (case connection s of
        None \<Rightarrow> s\<lparr>replies := replies s @ [ConfigureReply (Inl (js ''service_unavailable''))]\<rparr>
      | Some c \<Rightarrow> add_task (AwaitConfigure c d) (call c (Configure d) s))"
| "main_step env BeforeQuit s = before_quit s"
| "main_step env (ClockAt t) s = s\<lparr>clock := t\<rparr>"

definition main_exec :: "url_env \<Rightarrow> main_input \<Rightarrow> viewer \<Rightarrow> viewer" where
  "main_exec env i s = (if exited s then s else drain env (main_step env i s))"

definition main_run :: "url_env \<Rightarrow> main_input list \<Rightarrow> viewer \<Rightarrow> viewer" where
  "main_run env is s = fold (main_exec env) is s"

text \<open>\<open>hardenSession\<close>: what the window refuses.\<close>

definition navigation_prevented :: "url_env \<Rightarrow> jsstring \<Rightarrow> viewer \<Rightarrow> bool" where
  "navigation_prevented env candidate s \<longleftrightarrow>
     currentLiveURL s = [] \<or> \<not> isNavigationAllowed env candidate (currentLiveURL s)"

definition key_prevented :: "bool \<Rightarrow> jsstring \<Rightarrow> bool \<Rightarrow> bool \<Rightarrow> bool" where
  "key_prevented packaged key control shift \<longleftrightarrow>
     packaged \<and> (key = js ''F12'' \<or> (control \<and> shift \<and> (key = js ''i'' \<or> key = js ''I'')))"

end
