(* ===== verification/ViewerFrames.thy ===== *)
theory ViewerFrames
  imports ViewerMain
begin

text \<open>
  What the operations of the viewer's main process leave alone, field by field: the simplification
  rules that the invariants of \<open>ViewerProps\<close> and \<open>ViewerOutage\<close> rest on.
\<close>

section \<open>Frames\<close>

text \<open>What the small operations leave alone, one lemma per field.\<close>

lemmas small_defs = call_def end_conn_def close_conn_def quit_def reportRenderer_def reportDiagnostic_def
  observeManagementOutage_def reportManagementRecovery_def stopHeartbeat_def pulse_def heartbeat_answered_def
  startHeartbeat_def scheduleReconnect_def cancelScheduledReconnect_def createWindow_def load_document_def
  send_page_def finish_def add_task_def drop_task_def begin_live_def announce_live_def keep_document_def load_live_def
  abandon_attempt_def

lemma connection_same [simp]:
  "connection (call c pc s) = connection s" "connection (end_conn c e s) = connection s"
  "connection (close_conn d s) = connection s" "connection (quit s) = connection s"
  "connection (reportRenderer v s) = connection s" "connection (reportDiagnostic v s) = connection s"
  "connection (observeManagementOutage e s) = connection s"
  "connection (reportManagementRecovery s) = connection s" "connection (stopHeartbeat s) = connection s"
  "connection (pulse s) = connection s" "connection (heartbeat_answered n s) = connection s"
  "connection (startHeartbeat s) = connection s" "connection (scheduleReconnect s) = connection s"
  "connection (cancelScheduledReconnect s) = connection s" "connection (createWindow s) = connection s"
  "connection (load_document x s) = connection s" "connection (send_page m s) = connection s"
  "connection (finish reply s) = connection s" "connection (begin_live u s) = connection s"
  "connection (announce_live p g s) = connection s" "connection (keep_document s) = connection s"
  "connection (load_live u s) = connection s" "connection (add_task t s) = connection s"
  "connection (drop_task i s) = connection s"
  by (simp_all add: small_defs Let_def split: option.split)

lemma lease_same [simp]:
  "lease (call c pc s) = lease s" "lease (end_conn c e s) = lease s" "lease (close_conn d s) = lease s"
  "lease (quit s) = lease s" "lease (reportRenderer v s) = lease s" "lease (reportDiagnostic v s) = lease s"
  "lease (observeManagementOutage e s) = lease s" "lease (reportManagementRecovery s) = lease s"
  "lease (stopHeartbeat s) = lease s" "lease (pulse s) = lease s" "lease (heartbeat_answered n s) = lease s"
  "lease (startHeartbeat s) = lease s" "lease (scheduleReconnect s) = lease s"
  "lease (cancelScheduledReconnect s) = lease s" "lease (createWindow s) = lease s"
  "lease (load_document x s) = lease s" "lease (send_page m s) = lease s" "lease (finish reply s) = lease s"
  "lease (begin_live u s) = lease s" "lease (announce_live p g s) = lease s" "lease (keep_document s) = lease s"
  "lease (load_live u s) = lease s" "lease (add_task t s) = lease s" "lease (drop_task i s) = lease s"
  by (simp_all add: small_defs Let_def split: option.split)

lemma reconnectTimer_same [simp]:
  "reconnectTimer (call c pc s) = reconnectTimer s" "reconnectTimer (end_conn c e s) = reconnectTimer s"
  "reconnectTimer (close_conn d s) = reconnectTimer s" "reconnectTimer (quit s) = reconnectTimer s"
  "reconnectTimer (reportRenderer v s) = reconnectTimer s"
  "reconnectTimer (reportDiagnostic v s) = reconnectTimer s"
  "reconnectTimer (observeManagementOutage e s) = reconnectTimer s"
  "reconnectTimer (reportManagementRecovery s) = reconnectTimer s"
  "reconnectTimer (stopHeartbeat s) = reconnectTimer s" "reconnectTimer (pulse s) = reconnectTimer s"
  "reconnectTimer (heartbeat_answered n s) = reconnectTimer s"
  "reconnectTimer (startHeartbeat s) = reconnectTimer s" "reconnectTimer (createWindow s) = reconnectTimer s"
  "reconnectTimer (load_document x s) = reconnectTimer s" "reconnectTimer (send_page m s) = reconnectTimer s"
  "reconnectTimer (finish reply s) = reconnectTimer s" "reconnectTimer (announce_live p g s) = reconnectTimer s"
  "reconnectTimer (keep_document s) = reconnectTimer s" "reconnectTimer (load_live u s) = reconnectTimer s"
  "reconnectTimer (abandon_attempt d e s) = reconnectTimer s" "reconnectTimer (add_task t s) = reconnectTimer s"
  "reconnectTimer (drop_task i s) = reconnectTimer s"
  by (simp_all add: small_defs Let_def split: option.split)

lemma explicitShutdown_same [simp]:
  "explicitShutdown (call c pc s) = explicitShutdown s" "explicitShutdown (end_conn c e s) = explicitShutdown s"
  "explicitShutdown (close_conn d s) = explicitShutdown s" "explicitShutdown (quit s) = explicitShutdown s"
  "explicitShutdown (reportRenderer v s) = explicitShutdown s"
  "explicitShutdown (reportDiagnostic v s) = explicitShutdown s"
  "explicitShutdown (observeManagementOutage e s) = explicitShutdown s"
  "explicitShutdown (reportManagementRecovery s) = explicitShutdown s"
  "explicitShutdown (stopHeartbeat s) = explicitShutdown s" "explicitShutdown (pulse s) = explicitShutdown s"
  "explicitShutdown (heartbeat_answered n s) = explicitShutdown s"
  "explicitShutdown (startHeartbeat s) = explicitShutdown s"
  "explicitShutdown (scheduleReconnect s) = explicitShutdown s"
  "explicitShutdown (cancelScheduledReconnect s) = explicitShutdown s"
  "explicitShutdown (createWindow s) = explicitShutdown s"
  "explicitShutdown (load_document x s) = explicitShutdown s"
  "explicitShutdown (send_page m s) = explicitShutdown s"
  "explicitShutdown (finish reply s) = explicitShutdown s"
  "explicitShutdown (begin_live u s) = explicitShutdown s"
  "explicitShutdown (announce_live p g s) = explicitShutdown s"
  "explicitShutdown (keep_document s) = explicitShutdown s"
  "explicitShutdown (load_live u s) = explicitShutdown s"
  "explicitShutdown (abandon_attempt d e s) = explicitShutdown s"
  "explicitShutdown (add_task t s) = explicitShutdown s" "explicitShutdown (drop_task i s) = explicitShutdown s"
  by (simp_all add: small_defs Let_def split: option.split)

lemma exited_same [simp]:
  "exited (call c pc s) = exited s" "exited (end_conn c e s) = exited s" "exited (close_conn d s) = exited s"
  "exited (quit s) = exited s" "exited (reportRenderer v s) = exited s"
  "exited (reportDiagnostic v s) = exited s" "exited (observeManagementOutage e s) = exited s"
  "exited (reportManagementRecovery s) = exited s" "exited (stopHeartbeat s) = exited s"
  "exited (pulse s) = exited s" "exited (heartbeat_answered n s) = exited s"
  "exited (startHeartbeat s) = exited s" "exited (scheduleReconnect s) = exited s"
  "exited (cancelScheduledReconnect s) = exited s" "exited (createWindow s) = exited s"
  "exited (load_document x s) = exited s" "exited (send_page m s) = exited s"
  "exited (finish reply s) = exited s" "exited (begin_live u s) = exited s"
  "exited (announce_live p g s) = exited s" "exited (keep_document s) = exited s"
  "exited (load_live u s) = exited s" "exited (abandon_attempt d e s) = exited s"
  "exited (add_task t s) = exited s" "exited (drop_task i s) = exited s"
  by (simp_all add: small_defs Let_def split: option.split)

lemma currentLiveURL_same [simp]:
  "currentLiveURL (call c pc s) = currentLiveURL s" "currentLiveURL (end_conn c e s) = currentLiveURL s"
  "currentLiveURL (close_conn d s) = currentLiveURL s" "currentLiveURL (quit s) = currentLiveURL s"
  "currentLiveURL (reportRenderer v s) = currentLiveURL s"
  "currentLiveURL (reportDiagnostic v s) = currentLiveURL s"
  "currentLiveURL (observeManagementOutage e s) = currentLiveURL s"
  "currentLiveURL (reportManagementRecovery s) = currentLiveURL s"
  "currentLiveURL (stopHeartbeat s) = currentLiveURL s" "currentLiveURL (pulse s) = currentLiveURL s"
  "currentLiveURL (heartbeat_answered n s) = currentLiveURL s"
  "currentLiveURL (startHeartbeat s) = currentLiveURL s"
  "currentLiveURL (scheduleReconnect s) = currentLiveURL s"
  "currentLiveURL (cancelScheduledReconnect s) = currentLiveURL s"
  "currentLiveURL (createWindow s) = currentLiveURL s" "currentLiveURL (load_document x s) = currentLiveURL s"
  "currentLiveURL (send_page m s) = currentLiveURL s" "currentLiveURL (finish reply s) = currentLiveURL s"
  "currentLiveURL (announce_live p g s) = currentLiveURL s"
  "currentLiveURL (keep_document s) = currentLiveURL s" "currentLiveURL (load_live u s) = currentLiveURL s"
  "currentLiveURL (abandon_attempt d e s) = currentLiveURL s" "currentLiveURL (add_task t s) = currentLiveURL s"
  "currentLiveURL (drop_task i s) = currentLiveURL s"
  by (simp_all add: small_defs Let_def split: option.split)

lemma setupVisible_same [simp]:
  "setupVisible (call c pc s) = setupVisible s" "setupVisible (end_conn c e s) = setupVisible s"
  "setupVisible (close_conn d s) = setupVisible s" "setupVisible (quit s) = setupVisible s"
  "setupVisible (reportRenderer v s) = setupVisible s" "setupVisible (reportDiagnostic v s) = setupVisible s"
  "setupVisible (observeManagementOutage e s) = setupVisible s"
  "setupVisible (reportManagementRecovery s) = setupVisible s" "setupVisible (stopHeartbeat s) = setupVisible s"
  "setupVisible (pulse s) = setupVisible s" "setupVisible (heartbeat_answered n s) = setupVisible s"
  "setupVisible (startHeartbeat s) = setupVisible s" "setupVisible (scheduleReconnect s) = setupVisible s"
  "setupVisible (cancelScheduledReconnect s) = setupVisible s" "setupVisible (createWindow s) = setupVisible s"
  "setupVisible (load_document x s) = setupVisible s" "setupVisible (send_page m s) = setupVisible s"
  "setupVisible (finish reply s) = setupVisible s" "setupVisible (begin_live u s) = setupVisible s"
  "setupVisible (keep_document s) = setupVisible s" "setupVisible (load_live u s) = setupVisible s"
  "setupVisible (abandon_attempt d e s) = setupVisible s" "setupVisible (add_task t s) = setupVisible s"
  "setupVisible (drop_task i s) = setupVisible s"
  by (simp_all add: small_defs Let_def split: option.split)

lemma window_same [simp]:
  "window (call c pc s) = window s" "window (end_conn c e s) = window s" "window (close_conn d s) = window s"
  "window (quit s) = window s" "window (reportRenderer v s) = window s"
  "window (reportDiagnostic v s) = window s" "window (observeManagementOutage e s) = window s"
  "window (reportManagementRecovery s) = window s" "window (stopHeartbeat s) = window s"
  "window (pulse s) = window s" "window (heartbeat_answered n s) = window s"
  "window (startHeartbeat s) = window s" "window (scheduleReconnect s) = window s"
  "window (cancelScheduledReconnect s) = window s" "window (finish reply s) = window s"
  "window (begin_live u s) = window s" "window (announce_live p g s) = window s"
  "window (keep_document s) = window s" "window (abandon_attempt d e s) = window s"
  "window (add_task t s) = window s" "window (drop_task i s) = window s"
  by (simp_all add: small_defs Let_def split: option.split)

lemma quitRequested_same [simp]:
  "quitRequested (call c pc s) = quitRequested s" "quitRequested (end_conn c e s) = quitRequested s"
  "quitRequested (close_conn d s) = quitRequested s" "quitRequested (reportRenderer v s) = quitRequested s"
  "quitRequested (reportDiagnostic v s) = quitRequested s"
  "quitRequested (observeManagementOutage e s) = quitRequested s"
  "quitRequested (reportManagementRecovery s) = quitRequested s"
  "quitRequested (stopHeartbeat s) = quitRequested s" "quitRequested (pulse s) = quitRequested s"
  "quitRequested (heartbeat_answered n s) = quitRequested s"
  "quitRequested (startHeartbeat s) = quitRequested s" "quitRequested (scheduleReconnect s) = quitRequested s"
  "quitRequested (cancelScheduledReconnect s) = quitRequested s"
  "quitRequested (createWindow s) = quitRequested s" "quitRequested (load_document x s) = quitRequested s"
  "quitRequested (send_page m s) = quitRequested s" "quitRequested (finish reply s) = quitRequested s"
  "quitRequested (begin_live u s) = quitRequested s" "quitRequested (announce_live p g s) = quitRequested s"
  "quitRequested (keep_document s) = quitRequested s" "quitRequested (load_live u s) = quitRequested s"
  "quitRequested (abandon_attempt d e s) = quitRequested s" "quitRequested (add_task t s) = quitRequested s"
  "quitRequested (drop_task i s) = quitRequested s"
  by (simp_all add: small_defs Let_def split: option.split)

lemma rendererSettled_same [simp]:
  "rendererSettled (call c pc s) = rendererSettled s" "rendererSettled (end_conn c e s) = rendererSettled s"
  "rendererSettled (close_conn d s) = rendererSettled s" "rendererSettled (quit s) = rendererSettled s"
  "rendererSettled (reportRenderer v s) = rendererSettled s"
  "rendererSettled (reportDiagnostic v s) = rendererSettled s"
  "rendererSettled (observeManagementOutage e s) = rendererSettled s"
  "rendererSettled (reportManagementRecovery s) = rendererSettled s"
  "rendererSettled (stopHeartbeat s) = rendererSettled s" "rendererSettled (pulse s) = rendererSettled s"
  "rendererSettled (heartbeat_answered n s) = rendererSettled s"
  "rendererSettled (startHeartbeat s) = rendererSettled s"
  "rendererSettled (scheduleReconnect s) = rendererSettled s"
  "rendererSettled (cancelScheduledReconnect s) = rendererSettled s"
  "rendererSettled (createWindow s) = rendererSettled s"
  "rendererSettled (load_document x s) = rendererSettled s"
  "rendererSettled (send_page m s) = rendererSettled s" "rendererSettled (finish reply s) = rendererSettled s"
  "rendererSettled (begin_live u s) = rendererSettled s"
  "rendererSettled (announce_live p g s) = rendererSettled s"
  "rendererSettled (keep_document s) = rendererSettled s" "rendererSettled (load_live u s) = rendererSettled s"
  "rendererSettled (abandon_attempt d e s) = rendererSettled s"
  "rendererSettled (add_task t s) = rendererSettled s" "rendererSettled (drop_task i s) = rendererSettled s"
  by (simp_all add: small_defs Let_def split: option.split)

lemma rendererCommandResults_same [simp]:
  "rendererCommandResults (call c pc s) = rendererCommandResults s"
  "rendererCommandResults (end_conn c e s) = rendererCommandResults s"
  "rendererCommandResults (close_conn d s) = rendererCommandResults s"
  "rendererCommandResults (quit s) = rendererCommandResults s"
  "rendererCommandResults (reportRenderer v s) = rendererCommandResults s"
  "rendererCommandResults (reportDiagnostic v s) = rendererCommandResults s"
  "rendererCommandResults (observeManagementOutage e s) = rendererCommandResults s"
  "rendererCommandResults (reportManagementRecovery s) = rendererCommandResults s"
  "rendererCommandResults (stopHeartbeat s) = rendererCommandResults s"
  "rendererCommandResults (pulse s) = rendererCommandResults s"
  "rendererCommandResults (heartbeat_answered n s) = rendererCommandResults s"
  "rendererCommandResults (startHeartbeat s) = rendererCommandResults s"
  "rendererCommandResults (scheduleReconnect s) = rendererCommandResults s"
  "rendererCommandResults (cancelScheduledReconnect s) = rendererCommandResults s"
  "rendererCommandResults (createWindow s) = rendererCommandResults s"
  "rendererCommandResults (load_document x s) = rendererCommandResults s"
  "rendererCommandResults (send_page m s) = rendererCommandResults s"
  "rendererCommandResults (finish reply s) = rendererCommandResults s"
  "rendererCommandResults (begin_live u s) = rendererCommandResults s"
  "rendererCommandResults (announce_live p g s) = rendererCommandResults s"
  "rendererCommandResults (keep_document s) = rendererCommandResults s"
  "rendererCommandResults (load_live u s) = rendererCommandResults s"
  "rendererCommandResults (abandon_attempt d e s) = rendererCommandResults s"
  "rendererCommandResults (add_task t s) = rendererCommandResults s"
  "rendererCommandResults (drop_task i s) = rendererCommandResults s"
  by (simp_all add: small_defs Let_def split: option.split)

lemma nextTask_same [simp]:
  "nextTask (call c pc s) = nextTask s" "nextTask (end_conn c e s) = nextTask s"
  "nextTask (close_conn d s) = nextTask s" "nextTask (quit s) = nextTask s"
  "nextTask (reportRenderer v s) = nextTask s" "nextTask (reportDiagnostic v s) = nextTask s"
  "nextTask (observeManagementOutage e s) = nextTask s" "nextTask (reportManagementRecovery s) = nextTask s"
  "nextTask (stopHeartbeat s) = nextTask s" "nextTask (pulse s) = nextTask s"
  "nextTask (heartbeat_answered n s) = nextTask s" "nextTask (startHeartbeat s) = nextTask s"
  "nextTask (scheduleReconnect s) = nextTask s" "nextTask (cancelScheduledReconnect s) = nextTask s"
  "nextTask (createWindow s) = nextTask s" "nextTask (load_document x s) = nextTask s"
  "nextTask (send_page m s) = nextTask s" "nextTask (finish reply s) = nextTask s"
  "nextTask (begin_live u s) = nextTask s" "nextTask (announce_live p g s) = nextTask s"
  "nextTask (keep_document s) = nextTask s" "nextTask (load_live u s) = nextTask s"
  "nextTask (abandon_attempt d e s) = nextTask s" "nextTask (drop_task i s) = nextTask s"
  by (simp_all add: small_defs Let_def split: option.split)

lemma conn_open_call [simp]: "conn_open k (call c pc s) = conn_open k s"
  by (auto simp: call_def conn_open_def nth_list_update)

lemma conn_open_update [simp]:
  "conn_open k (s\<lparr>heartbeat := a\<rparr>) = conn_open k s" "conn_open k (s\<lparr>managementOutage := b\<rparr>) = conn_open k s"
  "conn_open k (s\<lparr>connection := d\<rparr>) = conn_open k s" "conn_open k (s\<lparr>lease := g\<rparr>) = conn_open k s"
  "conn_open k (s\<lparr>reconnectTimer := f\<rparr>) = conn_open k s" "conn_open k (s\<lparr>tasks := ts\<rparr>) = conn_open k s"
  "conn_open k (s\<lparr>currentLiveURL := u\<rparr>) = conn_open k s" "conn_open k (s\<lparr>setupVisible := v\<rparr>) = conn_open k s"
  "conn_open k (s\<lparr>replies := rs\<rparr>) = conn_open k s" "conn_open k (s\<lparr>currentStatus := st\<rparr>) = conn_open k s"
  "conn_open k (s\<lparr>rendererCommandResults := m\<rparr>) = conn_open k s" "conn_open k (s\<lparr>rendererSettled := rr\<rparr>) = conn_open k s"
  "conn_open k (s\<lparr>window := w\<rparr>) = conn_open k s" "conn_open k (s\<lparr>nextTask := n\<rparr>) = conn_open k s"
  "conn_open k (s\<lparr>grants := n\<rparr>) = conn_open k s" "conn_open k (s\<lparr>reconnectAttempt := q\<rparr>) = conn_open k s"
  "conn_open k (s\<lparr>explicitShutdown := v\<rparr>) = conn_open k s" "conn_open k (s\<lparr>quitHandled := v\<rparr>) = conn_open k s"
  "conn_open k (s\<lparr>clock := q\<rparr>) = conn_open k s" "conn_open k (s\<lparr>quitRequested := v\<rparr>) = conn_open k s"
  "conn_open k (s\<lparr>relaunched := v\<rparr>) = conn_open k s" "conn_open k (s\<lparr>exited := v\<rparr>) = conn_open k s"
  "conn_open k (s\<lparr>beats := n\<rparr>) = conn_open k s"
  by (simp_all add: conn_open_def)

lemma conn_open_same [simp]:
  "conn_open k (quit s) = conn_open k s"
  "conn_open k (reportRenderer v s) = conn_open k s" "conn_open k (reportDiagnostic v s) = conn_open k s"
  "conn_open k (observeManagementOutage e s) = conn_open k s"
  "conn_open k (reportManagementRecovery s) = conn_open k s" "conn_open k (stopHeartbeat s) = conn_open k s"
  "conn_open k (pulse s) = conn_open k s" "conn_open k (heartbeat_answered n s) = conn_open k s"
  "conn_open k (startHeartbeat s) = conn_open k s" "conn_open k (scheduleReconnect s) = conn_open k s"
  "conn_open k (cancelScheduledReconnect s) = conn_open k s" "conn_open k (createWindow s) = conn_open k s"
  "conn_open k (load_document x s) = conn_open k s" "conn_open k (send_page m s) = conn_open k s"
  "conn_open k (finish reply s) = conn_open k s" "conn_open k (begin_live u s) = conn_open k s"
  "conn_open k (announce_live p g s) = conn_open k s" "conn_open k (keep_document s) = conn_open k s"
  "conn_open k (load_live u s) = conn_open k s" "conn_open k (add_task t s) = conn_open k s"
  "conn_open k (drop_task i s) = conn_open k s"
  by (simp_all add: reportRenderer_def reportDiagnostic_def observeManagementOutage_def reportManagementRecovery_def
      stopHeartbeat_def pulse_def heartbeat_answered_def startHeartbeat_def scheduleReconnect_def
      cancelScheduledReconnect_def createWindow_def load_document_def send_page_def finish_def add_task_def
      drop_task_def quit_def begin_live_def announce_live_def keep_document_def load_live_def Let_def split: option.split)

lemma conn_open_end [simp]: "conn_open k (end_conn c e s) \<longleftrightarrow> conn_open k s \<and> k \<noteq> c"
  by (auto simp: end_conn_def conn_open_def nth_list_update)

lemma conn_open_close [simp]: "conn_open k (close_conn d s) \<longleftrightarrow> conn_open k s \<and> d \<noteq> Some k"
  by (auto simp: close_conn_def split: option.split)

lemma add_task_tasks [simp]: "tasks (add_task t s) = tasks s @ [(nextTask s, t)]" "nextTask (add_task t s) = Suc (nextTask s)"
  by (simp_all add: add_task_def)

lemma schedule_timer: "reconnectTimer (scheduleReconnect s) \<noteq> None \<or> explicitShutdown (scheduleReconnect s)"
  by (simp add: scheduleReconnect_def)

lemma tasks_live [simp]:
  "tasks (begin_live u s) = tasks s" "tasks (announce_live p g s) = tasks s" "tasks (keep_document s) = tasks s"
  "tasks (load_live u s) = tasks s"
  by (simp_all add: begin_live_def announce_live_def keep_document_def load_live_def)

lemma begin_live_fields [simp]: "reconnectTimer (begin_live u s) = None" "currentLiveURL (begin_live u s) = u"
  by (simp_all add: begin_live_def cancelScheduledReconnect_def)

end
