(* ===== verification/ViewerAttempts.thy ===== *)
theory ViewerAttempts
  imports ViewerFrames
begin

text \<open>
  Attempts to connect that do not overlap: as long as at most one call of
  \<open>ManagementConnection.connect()\<close> is in flight at a time, the only open connection is the one the
  main process knows (\<open>sole\<close>), and no task waits for an answer of any other.
\<close>

section \<open>Requests of an ended connection\<close>

lemma drained: "find (rejected_task (drain env s)) (tasks (drain env s)) = None"
proof (induction env s rule: drain.induct)
  case (1 env s)
  show ?case
  proof (cases "find (rejected_task s) (tasks s)")
    case (Some it)
    obtain i t where it: "it = (i, t)" by (cases it)
    with 1 [OF Some it [symmetric]] Some show ?thesis by (simp add: drain.simps [of env s])
  qed (simp add: drain.simps)
qed

lemma not_rejected: "find (rejected_task s) (tasks s) = None \<Longrightarrow> it \<in> set (tasks s) \<Longrightarrow> \<not> rejected_task s it"
  by (cases it) (auto simp: find_None_iff)

lemma drained_run:
  "find (rejected_task s) (tasks s) = None \<Longrightarrow> find (rejected_task (main_run env ins s)) (tasks (main_run env ins s)) = None"
  unfolding main_run_def
proof (induction ins arbitrary: s)
  case (Cons i ins)
  then have "find (rejected_task (main_exec env i s)) (tasks (main_exec env i s)) = None"
    using drained by (simp add: main_exec_def)
  with Cons show ?case by simp
qed simp

section \<open>The only open connection\<close>

fun connecting :: "task \<Rightarrow> bool" where
  "connecting (AwaitConnect auto lv reply) = True"
| "connecting t = False"

definition attempts :: "viewer \<Rightarrow> nat" where
  "attempts s = length (filter connecting (map snd (tasks s)))"

definition sole :: "viewer \<Rightarrow> bool" where
  "sole s \<longleftrightarrow> (\<forall>c. conn_open c s \<longrightarrow> connection s = Some c)
     \<and> ((\<exists>it \<in> set (tasks s). connecting (snd it)) \<longrightarrow> connection s = None)"

lemma sole_step:
  "sole s \<Longrightarrow> (\<And>c. conn_open c s' \<Longrightarrow> conn_open c s) \<Longrightarrow> connection s' = connection s \<Longrightarrow>
   (\<forall>it \<in> set (tasks s'). it \<in> set (tasks s) \<or> \<not> connecting (snd it)) \<Longrightarrow> sole s'"
  unfolding sole_def by metis

lemma sole_none: "(\<And>c. \<not> conn_open c s) \<Longrightarrow> connection s = None \<Longrightarrow> sole s"
  by (simp add: sole_def)

lemma sole_same [simp]:
  "sole (finish reply s) = sole s" "sole (scheduleReconnect s) = sole s" "sole (quit s) = sole s"
  "sole (reportDiagnostic v s) = sole s" "sole (reportRenderer v s) = sole s" "sole (pulse s) = sole s"
  "sole (heartbeat_answered n s) = sole s" "sole (call x pc s) = sole s" "sole (s\<lparr>replies := r\<rparr>) = sole s"
  "sole (s\<lparr>currentStatus := v\<rparr>) = sole s" "sole (s\<lparr>clock := t\<rparr>) = sole s" "sole (s\<lparr>window := w\<rparr>) = sole s"
  "sole (s\<lparr>rendererCommandResults := m\<rparr>) = sole s" "sole (s\<lparr>rendererSettled := rr\<rparr>) = sole s"
  "sole (s\<lparr>nextTask := n\<rparr>) = sole s" "sole (s\<lparr>reconnectTimer := f\<rparr>) = sole s" "sole (send_page pm s) = sole s"
  "sole (s\<lparr>reconnectAttempt := q\<rparr>) = sole s" "sole (s\<lparr>lease := l, grants := g\<rparr>) = sole s" "sole (begin_live u s) = sole s"
  "sole (announce_live x a s) = sole s" "sole (keep_document s) = sole s" "sole (load_live u s) = sole s"
  "sole (reportManagementRecovery s) = sole s" "sole (load_document d s) = sole s"
  by (simp_all add: sole_def announce_live_def)

lemma sole_add: "sole s \<Longrightarrow> \<not> connecting t \<Longrightarrow> sole (add_task t s)"
  by (erule sole_step) auto

lemma sole_drop: "sole s \<Longrightarrow> sole (drop_task it s)"
  by (erule sole_step) (auto simp: drop_task_def)

lemma sole_returned_ok [simp]: "sole (returned_ok k s) = sole s"
  by (cases k) simp_all

lemma returned_ok_conn [simp]:
  "connection (returned_ok k s) = connection s" "conn_open c (returned_ok k s) = conn_open c s"
  by (cases k; simp)+

lemma sole_showSetup: "sole s \<Longrightarrow> sole (showSetup k status s)"
  by (erule sole_step) (auto simp: showSetup_def Let_def split: if_splits)

text \<open>The connection that is given up is closed.\<close>

lemma sole_abandon: "sole s \<Longrightarrow> sole (abandon_attempt d e s)"
proof (cases d)
  case (Some c)
  assume s: "sole s"
  show ?thesis
  proof (cases "connection s = Some c")
    case True
    show ?thesis
      by (rule sole_none) (use s True Some in \<open>auto simp: abandon_attempt_def sole_def close_conn_def\<close>)
  qed (use s Some in \<open>simp add: abandon_attempt_def\<close>)
next
  case None
  assume "sole s"
  then show ?thesis by (rule sole_step) (simp_all add: None abandon_attempt_def)
qed

lemma sole_give_up: "sole s \<Longrightarrow> sole (give_up_connection c s)"
proof (cases "connection s = Some c")
  case True
  assume s: "sole s"
  show ?thesis
    by (rule sole_none) (use s True in \<open>auto simp: give_up_connection_def sole_def close_conn_def\<close>)
next
  case False
  assume "sole s"
  then show ?thesis by (rule sole_step) (use False in \<open>auto simp: give_up_connection_def close_conn_def\<close>)
qed

lemma sole_connect_catch: "sole s \<Longrightarrow> sole (connect_catch env d lv reply e s)"
  using sole_abandon [of s d e] sole_showSetup by (simp add: connect_catch_def Let_def)

lemma sole_returned_err: "sole s \<Longrightarrow> sole (returned_err env k e s)"
  by (cases k) (auto intro: sole_connect_catch)

lemma sole_live_go: "sole s \<Longrightarrow> sole (live_go env k status preserve s)"
  by (simp add: live_go_def sole_returned_err sole_add Let_def split: sum.split option.split)

lemma sole_showLive: "sole s \<Longrightarrow> sole (showLive env k status preserve s)"
  by (simp add: showLive_def sole_showSetup sole_live_go sole_add split: option.split)

lemma sole_report: "sole s \<Longrightarrow> sole (report_command x g key ok code rl s)"
  by (simp add: report_command_def sole_add)

lemma sole_resume:
  assumes s: "sole s" and t: "connecting t \<Longrightarrow> connection s = None \<and> (\<forall>it \<in> set (tasks s). \<not> connecting (snd it))"
  shows "sole (resume_task env t answer s)"
proof (cases t)
  case (AwaitConnect auto lv reply)
  with t have none: "connection s = None" "\<forall>it \<in> set (tasks s). \<not> connecting (snd it)" by simp_all
  with s have closed: "\<not> conn_open c s" for c by (auto simp: sole_def)
  let ?s = "s\<lparr>conns := conns s @ [\<lparr>connEnd = None, calls = []\<rparr>], connection := Some (length (conns s))\<rparr>"
  have "connection ?s = Some c" if "conn_open c ?s" for c
    using that closed [of c] by (auto simp: conn_open_def nth_append split: if_splits)
  with none have "sole ?s" by (simp add: sole_def)
  then have "sole (add_task (AwaitStatus (length (conns s)) auto lv reply) (call (length (conns s)) GetStatus ?s))"
    by (intro sole_add) simp_all
  with AwaitConnect sole_connect_catch [OF s] show ?thesis
    by (simp add: resume_task_def after_connect_def Let_def split: outcome.split)
next
  case (AwaitStatus x auto lv reply)
  have cs: "sole (s\<lparr>currentStatus := v\<rparr>)" for v using s by simp
  show ?thesis
    using AwaitStatus s sole_connect_catch [OF s] sole_showSetup [OF cs] sole_showLive [OF cs] sole_give_up [OF cs]
    by (simp add: resume_task_def after_status_def Let_def split: sum.split startup_action.split)
next
  case (AwaitLease x k status preserve)
  with s sole_live_go sole_returned_err [OF s] show ?thesis
    by (simp add: resume_task_def after_lease_def split: sum.split)
next
  case (AwaitSetupLoad k)
  with s sole_returned_err [OF s] show ?thesis by (simp add: resume_task_def split: sum.split)
next
  case (AwaitLiveLoad k)
  with s sole_returned_err [OF s] show ?thesis by (simp add: resume_task_def split: sum.split)
next
  case (AwaitConfigure x d)
  with s sole_showLive show ?thesis by (simp add: resume_task_def split: sum.split)
next
  case (AwaitReload x g key)
  with sole_report [OF s] show ?thesis by (simp add: resume_task_def command_failed_def split: sum.split)
next
  case (AwaitReport x g key succeeded errorCode relaunch)
  have "sole (s'\<lparr>explicitShutdown := v1, relaunched := v2, exited := v3\<rparr>) = sole s'" for v1 v2 v3 s'
    by (simp add: sole_def)
  with s AwaitReport show ?thesis
    by (simp add: resume_task_def after_report_def Let_def split: sum.split)
qed (use s in \<open>simp add: resume_task_def\<close>)

lemma attempts_alone:
  assumes "attempts s \<le> 1" and "(i, t) \<in> set (tasks s)" and "connecting t"
  shows "\<forall>it \<in> set (tasks (drop_task (i, t) s)). \<not> connecting (snd it)"
proof -
  let ?f = "filter (connecting \<circ> snd) (tasks s)"
  have mem: "(i, t) \<in> set ?f" using assms by simp
  moreover have "length ?f \<le> 1" using assms(1) by (simp add: attempts_def filter_map)
  ultimately have "?f = [(i, t)]" by (cases ?f) auto
  then have only: "set ?f = {(i, t)}" by simp
  have "it = (i, t)" if "it \<in> set (tasks s)" "connecting (snd it)" for it
  proof -
    from that have "it \<in> set ?f" by simp
    then show ?thesis unfolding only by simp
  qed
  then show ?thesis by (auto simp: drop_task_def)
qed

lemma sole_settle: "sole s \<Longrightarrow> attempts s \<le> 1 \<Longrightarrow> sole (settle env i answer s)"
proof (cases "map_of (tasks s) i")
  case (Some t)
  assume s: "sole s" and one: "attempts s \<le> 1"
  from Some have mem: "(i, t) \<in> set (tasks s)" by (rule map_of_SomeD)
  have "sole (resume_task env t answer (drop_task (i, t) s))"
  proof (rule sole_resume [OF sole_drop [OF s]])
    assume t: "connecting t"
    then have "connection s = None" using s mem by (force simp: sole_def)
    with attempts_alone [OF one mem t]
    show "connection (drop_task (i, t) s) = None \<and> (\<forall>it \<in> set (tasks (drop_task (i, t) s)). \<not> connecting (snd it))"
      by (simp add: drop_task_def)
  qed
  with s Some show ?thesis by (simp add: settle_def)
qed (simp add: settle_def)

lemma rejected_not_connecting: "rejected_task s (i, t) \<Longrightarrow> \<not> connecting t"
  by (cases t) (auto simp: rejected_task_def)

lemma sole_drain: "sole s \<Longrightarrow> sole (drain env s)"
proof (induction env s rule: drain.induct)
  case (1 env s)
  show ?case
  proof (cases "find (rejected_task s) (tasks s)")
    case None
    with 1 show ?thesis by (simp add: drain.simps)
  next
    case (Some it)
    obtain i t where it: "it = (i, t)" by (cases it)
    with Some have "rejected_task s (i, t)" by (auto simp: find_Some_iff)
    then have "\<not> connecting t" by (rule rejected_not_connecting)
    with sole_resume [OF sole_drop [OF 1(2)], of t] have "sole (resume_task env t (rejection s t) (drop_task (i, t) s))"
      by blast
    with 1(1) [OF Some it [symmetric]] show ?thesis using Some it by (simp add: drain.simps [of env s])
  qed
qed

lemma sole_connectAndShow: "sole s \<Longrightarrow> sole (connectAndShow env auto reply s)"
  by (rule sole_none) (auto simp: connectAndShow_def close_conn_def sole_def Let_def split: option.split)

lemma sole_execute: "sole s \<Longrightarrow> sole (executeViewerCommand x command s)"
  by (simp add: executeViewerCommand_def command_failed_def sendRendererCommand_def sole_report sole_add Let_def
      split: option.split viewer_command.split)

lemma sole_settle_renderer: "sole s \<Longrightarrow> sole (settle_renderer i b s)"
  by (simp add: settle_renderer_def Let_def sole_report sole_drop split: option.split task.split)

lemma sole_before_quit: "sole s \<Longrightarrow> sole (before_quit s)"
proof -
  assume s: "sole s"
  have "sole (shut_down s)"
    by (rule sole_step [OF s]) (auto simp: shut_down_def close_conn_def Let_def split: option.splits)
  then have "sole ((shut_down s)\<lparr>rendererCommandResults := []\<rparr>)" by simp
  moreover have "sole s' \<Longrightarrow> sole (fold (\<lambda>(key, i). settle_renderer i False) m s')"
    for m :: "(jsstring, nat) jsmap" and s'
    by (induction m arbitrary: s') (auto simp: sole_settle_renderer)
  ultimately show ?thesis using s by (simp add: before_quit_def)
qed

lemma sole_disconnect: "sole s \<Longrightarrow> sole (pipe_failed env c e s)"
proof (cases "conn_open c s")
  case True
  assume s: "sole s"
  then have here: "connection s = Some c" using True by (simp add: sole_def)
  let ?s = "stopHeartbeat ((observeManagementOutage e (end_conn c e s))\<lparr>connection := None, lease := None\<rparr>)"
  have "sole ?s" by (rule sole_none) (use s here in \<open>auto simp: sole_def\<close>)
  then show ?thesis
    using True here sole_showSetup by (simp add: pipe_failed_def on_disconnect_def Let_def split: disconnect_action.split)
qed (simp add: pipe_failed_def)

lemma sole_main_step: "sole s \<Longrightarrow> attempts s \<le> 1 \<Longrightarrow> sole (main_step env i s)"
proof (cases i)
  case (WindowEvent e)
  assume s: "sole s"
  have "sole (on_window_event e w s)" for w using s by (cases e) simp_all
  with WindowEvent s show ?thesis by (simp split: option.split)
next
  case (CommandResultMessage own payload)
  assume s: "sole s"
  with CommandResultMessage sole_settle_renderer show ?thesis
    by (simp add: command_result_message_def split: option.split jsval.split)
qed (simp_all add: sole_settle sole_connectAndShow sole_execute sole_settle_renderer sole_before_quit sole_showSetup
       sole_disconnect sole_add renderer_timeout_def split: option.split)

lemma sole_initial: "sole initial_viewer"
  by (simp add: sole_def conn_open_def initial_viewer_def)

end
