(* ===== verification/ViewerService.thy ===== *)
theory ViewerService
  imports ViewerAttempts
begin

text \<open>
  A lost management service is always being looked for again: the invariant \<open>served\<close>. With
  \<open>cf = False\<close> it is kept by every input of the main process but a new configuration; with
  \<open>cf = True\<close> by every input, as long as the open connection is the \<open>sole\<close> one.
\<close>

section \<open>A lost service is always looked for again\<close>

text \<open>The callers and tasks at whose end a reconnection is scheduled, and those of a new configuration.\<close>

fun rescheduling :: "caller \<Rightarrow> bool" where
  "rescheduling DisconnectSetup = True"
| "rescheduling (CatchSetup reply) = True"
| "rescheduling k = False"

fun reconnecting :: "task \<Rightarrow> bool" where
  "reconnecting (AwaitConnect auto lv reply) = True"
| "reconnecting (AwaitSetupLoad k) = rescheduling k"
| "reconnecting t = False"

fun from_configure :: "caller \<Rightarrow> bool" where
  "from_configure (FromConfigure status) = True"
| "from_configure k = False"

text \<open>The tasks of a run in which configurations are saved (\<open>cf\<close>) or not.\<close>

fun plausible :: "bool \<Rightarrow> task \<Rightarrow> bool" where
  "plausible cf (AwaitConfigure c d) = cf"
| "plausible cf (AwaitLease c k status preserve) =
     (case k of FromConnect c' lv reply \<Rightarrow> True | FromConfigure st \<Rightarrow> cf | _ \<Rightarrow> False)"
| "plausible cf (AwaitSetupLoad k) = (cf \<or> \<not> from_configure k)"
| "plausible cf (AwaitLiveLoad k) = (cf \<or> \<not> from_configure k)"
| "plausible cf t = True"

definition reconnect_delays :: "int set" where
  "reconnect_delays = {1000, 2000, 5000, 10000, 30000}"

definition looked_for :: "viewer \<Rightarrow> bool" where
  "looked_for s \<longleftrightarrow> connection s \<noteq> None \<or> reconnectTimer s \<noteq> None \<or> explicitShutdown s
     \<or> (\<exists>it \<in> set (tasks s). reconnecting (snd it))"

definition timer_ok :: "bool \<Rightarrow> viewer \<Rightarrow> bool" where
  "timer_ok cf s \<longleftrightarrow> (reconnectTimer s = None \<or> the (reconnectTimer s) \<in> reconnect_delays)
     \<and> (explicitShutdown s \<longrightarrow> exited s \<or> reconnectTimer s = None)
     \<and> (\<forall>it \<in> set (tasks s). plausible cf (snd it))"

lemma delay_ok: "reconnectDelaySeconds n * 1000 \<in> reconnect_delays"
  using reconnectDelaySeconds_range [of n] by (auto simp: reconnect_delays_def)

lemma looked_for_update [simp]:
  "looked_for (finish reply s) = looked_for s" "looked_for (s\<lparr>reconnectAttempt := n\<rparr>) = looked_for s"
  "looked_for (s\<lparr>replies := rs\<rparr>) = looked_for s" "looked_for (s\<lparr>currentStatus := v\<rparr>) = looked_for s"
  by (simp_all add: looked_for_def)

lemma timer_ok_update [simp]:
  "timer_ok cf (finish reply s) = timer_ok cf s" "timer_ok cf (s\<lparr>reconnectAttempt := n\<rparr>) = timer_ok cf s"
  "timer_ok cf (s\<lparr>replies := rs\<rparr>) = timer_ok cf s" "timer_ok cf (s\<lparr>currentStatus := v\<rparr>) = timer_ok cf s"
  by (simp_all add: timer_ok_def)

lemma timer_ok_schedule: "timer_ok cf s \<Longrightarrow> timer_ok cf (scheduleReconnect s)"
  using delay_ok by (auto simp: timer_ok_def scheduleReconnect_def)

lemma looked_for_schedule [simp]: "looked_for (scheduleReconnect s)"
  using schedule_timer [of s] by (auto simp: looked_for_def)

lemma looked_for_returned_ok:
  "looked_for s \<or> rescheduling k \<Longrightarrow> timer_ok cf s \<Longrightarrow> looked_for (returned_ok k s) \<and> timer_ok cf (returned_ok k s)"
  using timer_ok_schedule [of cf s] by (cases k) simp_all

lemma looked_for_showSetup:
  assumes "looked_for s \<or> rescheduling k" and "timer_ok cf s" and "cf \<or> \<not> from_configure k"
  shows "looked_for (showSetup k status s) \<and> timer_ok cf (showSetup k status s)"
proof (cases "setupVisible s")
  case True
  let ?s = "(stopHeartbeat s)\<lparr>currentStatus := status, currentLiveURL := []\<rparr>"
  have "looked_for ?s \<or> rescheduling k" and "timer_ok cf ?s"
    using assms by (auto simp: looked_for_def timer_ok_def)
  from looked_for_returned_ok [OF this] True show ?thesis
    by (simp add: showSetup_def setupLoadAction_def Let_def)
next
  case False
  with assms show ?thesis
    by (auto simp: showSetup_def setupLoadAction_def Let_def looked_for_def timer_ok_def)
qed

lemma looked_for_connect_catch:
  assumes "timer_ok cf s"
  shows "looked_for (connect_catch env d lv reply e s) \<and> timer_ok cf (connect_catch env d lv reply e s)"
proof -
  define s2 where "s2 = abandon_attempt d e s"
  have ok: "timer_ok cf s2" using assms by (auto simp: s2_def abandon_attempt_def timer_ok_def split: option.split)
  have shown: "looked_for (showSetup (CatchSetup reply) st s2) \<and> timer_ok cf (showSetup (CatchSetup reply) st s2)" for st
    by (rule looked_for_showSetup) (use ok in auto)
  have done_: "looked_for (finish reply (scheduleReconnect s2)) \<and> timer_ok cf (finish reply (scheduleReconnect s2))"
    using timer_ok_schedule [OF ok] by simp
  show ?thesis
    using shown done_ by (simp add: connect_catch_def s2_def [symmetric] Let_def)
qed

lemma looked_for_returned_err:
  "looked_for s \<or> rescheduling k \<Longrightarrow> timer_ok cf s \<Longrightarrow>
   looked_for (returned_err env k e s) \<and> timer_ok cf (returned_err env k e s)"
  using timer_ok_schedule [of cf s] looked_for_connect_catch [of cf s env]
  by (cases k) simp_all

text \<open>The callers of \<open>showLive\<close>; a new configuration leaves a connection in place.\<close>

definition live_caller :: "bool \<Rightarrow> viewer \<Rightarrow> caller \<Rightarrow> bool" where
  "live_caller cf s k \<longleftrightarrow> (case k of FromConnect c lv reply \<Rightarrow> True | FromConfigure st \<Rightarrow> cf \<and> connection s \<noteq> None | _ \<Rightarrow> False)"

lemma live_caller_update [simp]:
  "live_caller cf (begin_live u s) k = live_caller cf s k" "live_caller cf (reportDiagnostic d s) k = live_caller cf s k"
  "live_caller cf (s\<lparr>lease := l, grants := n\<rparr>) k = live_caller cf s k" "live_caller cf (s\<lparr>currentStatus := v\<rparr>) k = live_caller cf s k"
  by (simp_all add: live_caller_def split: caller.split)

lemma live_caller_err:
  assumes "timer_ok cf s" and "live_caller cf s k"
  shows "looked_for (returned_err env k e s) \<and> timer_ok cf (returned_err env k e s)"
  using assms looked_for_connect_catch [OF assms(1)]
  by (cases k) (simp_all add: live_caller_def looked_for_def)

lemma looked_for_live_go:
  assumes "looked_for s" and "timer_ok cf s" and k: "live_caller cf s k"
  shows "looked_for (live_go env k status preserve s) \<and> timer_ok cf (live_go env k status preserve s)"
proof (cases "viewerURL env (string_of (jget (jget status (js ''config'')) (js ''serverUrl'')))")
  case (Inl e)
  with assms looked_for_returned_err [of s k] show ?thesis by (simp add: live_go_def)
next
  case (Inr u)
  have t1: "timer_ok cf (begin_live u s)" using assms(2) by (simp add: timer_ok_def)
  have err: "looked_for (returned_err env k e (begin_live u s)) \<and> timer_ok cf (returned_err env k e (begin_live u s))" for e
    by (rule live_caller_err [OF t1]) (simp add: k)
  have keep: "looked_for (returned_ok k s') \<and> timer_ok cf (returned_ok k s')"
    if "looked_for s'" and "timer_ok cf s'" for s'
    using that looked_for_returned_ok [where cf = cf] by blast
  have pl: "plausible cf (AwaitLiveLoad k)" using k by (cases k) (simp_all add: live_caller_def)
  show ?thesis
  proof (cases "connection s = None \<or> lease s = None")
    case True
    with err show ?thesis by (auto simp: live_go_def Inr Let_def split: option.split)
  next
    case False
    then obtain x g where x: "connection s = Some x" "lease s = Some g" by auto
    have "looked_for (keep_document (announce_live x g (begin_live u s)))"
      and "timer_ok cf (keep_document (announce_live x g (begin_live u s)))"
      and "looked_for (add_task (AwaitLiveLoad k) (load_live u (announce_live x g (begin_live u s))))"
      and "timer_ok cf (add_task (AwaitLiveLoad k) (load_live u (announce_live x g (begin_live u s))))"
      using x assms(2) pl by (auto simp: looked_for_def timer_ok_def)
    with keep x show ?thesis by (simp add: live_go_def Inr Let_def)
  qed
qed

abbreviation served :: "bool \<Rightarrow> viewer \<Rightarrow> bool" where
  "served cf s \<equiv> looked_for s \<and> timer_ok cf s"

text \<open>A step that keeps the connection, the timer and the tasks, but for harmless new ones.\<close>

lemma served_same:
  "served cf s \<Longrightarrow> connection s' = connection s \<Longrightarrow> reconnectTimer s' = reconnectTimer s \<Longrightarrow>
   explicitShutdown s' = explicitShutdown s \<Longrightarrow> exited s' = exited s \<Longrightarrow>
   tasks s' = tasks s \<or> (\<exists>n t. tasks s' = tasks s @ [(n, t)] \<and> plausible cf t) \<Longrightarrow> served cf s'"
  by (auto simp: looked_for_def timer_ok_def)

lemma served_showLive:
  assumes "served cf s" and k: "live_caller cf s k \<or> cf \<and> from_configure k"
  shows "served cf (showLive env k status preserve s)"
proof -
  have cases: "(\<exists>c lv reply. k = FromConnect c lv reply) \<or> (cf \<and> (\<exists>st. k = FromConfigure st))"
    using k by (cases k) (auto simp: live_caller_def)
  have "served cf (showSetup k status s)"
    by (rule looked_for_showSetup) (use assms cases in auto)
  moreover have "served cf (live_go env k status preserve s)" if "connection s \<noteq> None"
    by (rule looked_for_live_go) (use assms cases that in \<open>auto simp: live_caller_def\<close>)
  moreover have "served cf (add_task (AwaitLease x k status preserve) (call x AcquireLease s))" for x
    by (rule served_same [OF assms(1)]) (use cases in auto)
  ultimately show ?thesis by (simp add: showLive_def split: option.split)
qed

lemma served_after_lease:
  assumes "served cf s" and k: "live_caller cf s k \<or> cf \<and> from_configure k \<and> (\<exists>e. answer = Rejected e)"
  shows "served cf (after_lease env k status preserve answer s)"
proof -
  have "served cf (live_go env k status preserve (reportDiagnostic d (s\<lparr>lease := l, grants := n\<rparr>)))"
    if "live_caller cf s k" for d l n
    by (rule looked_for_live_go) (use assms(1) that in \<open>auto simp: looked_for_def timer_ok_def\<close>)
  moreover have "served cf (returned_ok k (quit s))"
    by (rule looked_for_returned_ok) (use assms in \<open>auto simp: looked_for_def timer_ok_def\<close>)
  moreover have "served cf (returned_err env k e s)" for e
    by (rule looked_for_returned_err) (use assms in auto)
  ultimately show ?thesis using k by (auto simp: after_lease_def split: sum.split)
qed

lemma served_give_up: "timer_ok cf s \<Longrightarrow> served cf (give_up_connection c s)"
  unfolding give_up_connection_def
  by (intro conjI looked_for_schedule timer_ok_schedule) (simp add: timer_ok_def)

lemma served_after_status:
  assumes "timer_ok cf s" and "looked_for s"
  shows "served cf (after_status env c auto lv reply answer s)"
proof -
  have s1: "served cf (s\<lparr>currentStatus := v\<rparr>)" for v using assms by simp
  have caught: "served cf (connect_catch env (Some c) lv reply e s)" for e
    by (rule looked_for_connect_catch) (rule assms)
  have given: "served cf (finish reply (give_up_connection c (s\<lparr>currentStatus := v\<rparr>)))" for v
    using served_give_up [of cf "s\<lparr>currentStatus := v\<rparr>" c] s1 by simp
  have shown: "served cf (showSetup (StartSetup c lv v reply) v (s\<lparr>currentStatus := v\<rparr>))" for v
    by (rule looked_for_showSetup) (use s1 in auto)
  have gone: "served cf (finish reply (quit (s\<lparr>currentStatus := v\<rparr>)))" for v
    by (rule served_same [OF s1 [of v]]) simp_all
  have live: "served cf (showLive env (FromConnect c lv reply) v lv (s\<lparr>currentStatus := v\<rparr>))" for v
    by (rule served_showLive) (use s1 in \<open>auto simp: live_caller_def\<close>)
  show ?thesis
    unfolding after_status_def Let_def
    by (auto simp only: caught given shown gone live split: sum.split startup_action.split if_split)
qed

lemma served_after_connect:
  assumes "timer_ok cf s"
  shows "served cf (after_connect env auto lv reply answer s)"
proof (cases answer)
  case (Rejected e)
  then show ?thesis using looked_for_connect_catch [OF assms] by (simp add: after_connect_def)
next
  case (Resolved v)
  then show ?thesis using assms by (simp add: after_connect_def Let_def looked_for_def timer_ok_def)
qed

lemma served_on_disconnect:
  assumes "served cf s"
  shows "served cf (on_disconnect env c e s)"
proof (cases "connection s = Some c")
  case True
  define s1 where "s1 = stopHeartbeat ((observeManagementOutage e s)\<lparr>connection := None, lease := None\<rparr>)"
  have ok: "timer_ok cf s1" using assms by (simp add: s1_def timer_ok_def)
  have shown: "served cf (showSetup DisconnectSetup st s1)" for st
    by (rule looked_for_showSetup) (use ok in auto)
  have "served cf (scheduleReconnect s1)" using timer_ok_schedule [OF ok] by simp
  moreover have "looked_for s1" if "explicitShutdown s1" using that by (simp add: looked_for_def)
  ultimately show ?thesis
    using True ok shown
    by (auto simp: on_disconnect_def s1_def [symmetric] Let_def disconnectAction_def)
qed (use assms in \<open>simp add: on_disconnect_def\<close>)

lemma served_report_command: "served cf s \<Longrightarrow> served cf (report_command c g key ok code relaunch s)"
  by (rule served_same, assumption) (auto simp: report_command_def)

text \<open>The task that runs has left the list: what it was matters for \<open>looked_for\<close>.\<close>

lemma served_resume:
  assumes ok: "timer_ok cf s" and busy: "reconnecting t \<or> looked_for s" and t: "plausible cf t"
    and here: "\<And>c k status preserve. t = AwaitLease c k status preserve \<Longrightarrow> from_configure k \<Longrightarrow>
      connection s \<noteq> None \<or> (\<exists>e. answer = Rejected e)"
  shows "served cf (resume_task env t answer s)"
proof (cases t)
  case (AwaitConnect auto lv reply)
  then show ?thesis using served_after_connect [OF ok] by (simp add: resume_task_def)
next
  case (AwaitStatus c auto lv reply)
  then show ?thesis using served_after_status [OF ok] busy by (simp add: resume_task_def)
next
  case (AwaitLease c k status preserve)
  with t here have k: "live_caller cf s k \<or> cf \<and> from_configure k \<and> (\<exists>e. answer = Rejected e)"
    by (cases k) (auto simp: live_caller_def)
  from busy AwaitLease ok have "served cf s" by simp
  then have "served cf (after_lease env k status preserve answer s)" by (rule served_after_lease) (rule k)
  with AwaitLease show ?thesis by (simp add: resume_task_def)
next
  case (AwaitSetupLoad k)
  with busy ok have "looked_for s \<or> rescheduling k" by auto
  from looked_for_returned_ok [OF this ok] looked_for_returned_err [OF this ok, of env] AwaitSetupLoad
  show ?thesis by (simp add: resume_task_def split: sum.split)
next
  case (AwaitLiveLoad k)
  with busy ok have s: "looked_for s \<or> rescheduling k" and served: "served cf s" by auto
  have "served cf (returned_ok k (reportManagementRecovery (reportDiagnostic d s)))" for d
    by (rule looked_for_returned_ok) (use served in \<open>auto simp: looked_for_def timer_ok_def\<close>)
  with AwaitLiveLoad looked_for_returned_err [OF s ok, of env]
  show ?thesis by (simp add: resume_task_def split: sum.split)
next
  case (AwaitConfigure c d)
  with t busy ok have s: "cf" "served cf s" by auto
  then have "served cf (showLive env (FromConfigure st) st False (s\<lparr>currentStatus := st\<rparr>))" for st
    by (intro served_showLive) simp_all
  with AwaitConfigure s show ?thesis by (simp add: resume_task_def split: sum.split)
next
  case (AwaitReload c g key)
  with busy ok have "served cf s" by auto
  with AwaitReload show ?thesis
    by (simp add: resume_task_def command_failed_def served_report_command [where cf = cf] split: sum.split)
next
  case (AwaitReport c g key succeeded errorCode relaunch)
  with busy ok have s: "served cf s" by auto
  have "served cf (reportDiagnostic d s)" for d
    by (rule served_same [OF s]) simp_all
  moreover have "served cf ((reportDiagnostic d s)\<lparr>explicitShutdown := True, relaunched := True, exited := True\<rparr>)" for d
    using s by (simp add: looked_for_def timer_ok_def)
  ultimately show ?thesis using AwaitReport s
    by (simp add: resume_task_def after_report_def Let_def split: sum.split)
qed (use t busy ok in \<open>auto simp: resume_task_def\<close>)

lemma timer_ok_drop: "timer_ok cf s \<Longrightarrow> timer_ok cf (drop_task it s)"
  by (auto simp: timer_ok_def drop_task_def)

lemma looked_for_drop: "looked_for s \<Longrightarrow> reconnecting (snd it) \<or> looked_for (drop_task it s)"
  unfolding looked_for_def drop_task_def by fastforce

text \<open>A task that waits for an open connection waits for the one the main process knows.\<close>

lemma sole_here:
  assumes "plausible cf t" and "cf \<longrightarrow> sole s" and "\<not> rejected_task s (i, t)"
    and "t = AwaitLease c k status preserve" and "from_configure k"
  shows "connection s \<noteq> None"
proof -
  have "cf" using assms(1,4,5) by (cases k) simp_all
  moreover have "conn_open c s" using assms(3,4) by (simp add: rejected_task_def)
  ultimately show ?thesis using assms(2) by (auto simp: sole_def)
qed

lemma served_settle:
  assumes "served cf s" and quiet: "find (rejected_task s) (tasks s) = None" and sole: "cf \<longrightarrow> sole s"
  shows "served cf (settle env i answer s)"
proof (cases "map_of (tasks s) i")
  case None
  with assms show ?thesis by (simp add: settle_def)
next
  case (Some t)
  then have mem: "(i, t) \<in> set (tasks s)" by (rule map_of_SomeD)
  have "timer_ok cf (drop_task (i, t) s)" using assms by (simp add: timer_ok_drop)
  moreover have "reconnecting t \<or> looked_for (drop_task (i, t) s)"
    using assms looked_for_drop [of s "(i, t)"] by simp
  moreover have pl: "plausible cf t" using assms mem by (auto simp: timer_ok_def)
  ultimately have "served cf (resume_task env t answer (drop_task (i, t) s))"
  proof (rule served_resume)
    fix c k status preserve
    assume "t = AwaitLease c k status preserve" and "from_configure k"
    from sole_here [OF pl sole not_rejected [OF quiet mem] this]
    show "connection (drop_task (i, t) s) \<noteq> None \<or> (\<exists>e. answer = Rejected e)" by (simp add: drop_task_def)
  qed
  with Some assms show ?thesis by (simp add: settle_def)
qed

lemma served_drain: "served cf s \<Longrightarrow> served cf (drain env s)"
proof (induction env s rule: drain.induct)
  case (1 env s)
  show ?case
  proof (cases "find (rejected_task s) (tasks s)")
    case None
    with 1 show ?thesis by (simp add: drain.simps)
  next
    case (Some it)
    obtain i t where it: "it = (i, t)" by (cases it)
    with Some have mem: "(i, t) \<in> set (tasks s)" by (auto simp: find_Some_iff)
    have "timer_ok cf (drop_task (i, t) s)" using 1(2) by (simp add: timer_ok_drop)
    moreover have "reconnecting t \<or> looked_for (drop_task (i, t) s)"
      using 1(2) looked_for_drop [of s "(i, t)"] by simp
    moreover have "plausible cf t" using 1(2) mem by (auto simp: timer_ok_def)
    ultimately have "served cf (resume_task env t (rejection s t) (drop_task (i, t) s))"
      by (rule served_resume) (simp add: rejection_is_rejected)
    with 1(1) [OF Some it [symmetric]] show ?thesis using Some it by (simp add: drain.simps [of env s])
  qed
qed

lemma served_executeViewerCommand: "served cf s \<Longrightarrow> served cf (executeViewerCommand c command s)"
proof -
  assume s: "served cf s"
  define s1 where "s1 = reportDiagnostic (main_diagnostic ''info'' ''viewer.main'' ''command_started'' ''running''
                           [(js ''correlationId'', JString (command_key command))]) s"
  have s1: "served cf s1" by (rule served_same [OF s]) (simp_all add: s1_def)
  have failed: "served cf (command_failed c g key s1)" for g key
    using s1 served_report_command [where cf = cf] by (simp add: command_failed_def)
  have reload: "served cf (add_task (AwaitReload c g key) (load_document d s1))" for g key d
    by (rule served_same [OF s1]) auto
  have sent: "served cf (sendRendererCommand c g name key w s1)" for g name key w
  proof -
    have "served cf (report_command c g key False (js ''renderer_failed'') False s1)"
      using s1 served_report_command [where cf = cf] by simp
    moreover have "served cf (command_failed c g key (s1\<lparr>rendererCommandResults := m, nextTask := n\<rparr>))" for m n
      unfolding command_failed_def
      by (rule served_report_command, rule served_same [OF s1]) auto
    moreover have "served cf (send_page p (add_task (AwaitRenderer c g key) (s1\<lparr>rendererCommandResults := m\<rparr>)))" for m p
      by (rule served_same [OF s1]) auto
    ultimately show ?thesis by (simp add: sendRendererCommand_def Let_def)
  qed
  have restart: "served cf (report_command c g key True [] True s1)" for g key
    using s1 served_report_command [where cf = cf] by simp
  show ?thesis
    using s failed reload sent restart
    by (auto simp: executeViewerCommand_def s1_def [symmetric] Let_def split: option.split viewer_command.split)
qed

lemma served_settle_renderer: "served cf s \<Longrightarrow> served cf (settle_renderer i b s)"
proof -
  assume s: "served cf s"
  have "served cf (report_command c g key ok code rl ((drop_task (i, AwaitRenderer c g key) s)\<lparr>rendererSettled := rs\<rparr>))"
    for c g key ok code rl rs
  proof -
    have "served cf (drop_task (i, AwaitRenderer c g key) s)"
      using s timer_ok_drop looked_for_drop [of s "(i, AwaitRenderer c g key)"] by simp
    then have "served cf ((drop_task (i, AwaitRenderer c g key) s)\<lparr>rendererSettled := rs\<rparr>)"
      by (rule served_same) auto
    then show ?thesis by (rule served_report_command)
  qed
  with s show ?thesis by (auto simp: settle_renderer_def Let_def split: option.split task.split)
qed

lemma served_fold_settle: "served cf s \<Longrightarrow> served cf (fold (\<lambda>(key, i). settle_renderer i False) m s)"
  by (induction m arbitrary: s) (auto simp: served_settle_renderer [where cf = cf] split del: if_split)

lemma shut_down_fields [simp]:
  "explicitShutdown (shut_down s)" "reconnectTimer (shut_down s) = None" "tasks (shut_down s) = tasks s"
  "nextTask (shut_down s) = nextTask s" "rendererCommandResults (shut_down s) = rendererCommandResults s"
  "rendererSettled (shut_down s) = rendererSettled s" "connection (shut_down s) = connection s"
  "window (shut_down s) = window s"
  by (auto simp: shut_down_def cancelScheduledReconnect_def Let_def split: option.split)

lemma served_before_quit: "served cf s \<Longrightarrow> served cf (before_quit s)"
proof (cases "quitHandled s")
  case False
  assume "served cf s"
  then have "served cf ((shut_down s)\<lparr>rendererCommandResults := []\<rparr>)"
    by (simp add: looked_for_def timer_ok_def)
  then have "served cf (fold (\<lambda>(key, i). settle_renderer i False) m ((shut_down s)\<lparr>rendererCommandResults := []\<rparr>))" for m
    by (rule served_fold_settle)
  with False show ?thesis by (simp add: before_quit_def)
qed (simp add: before_quit_def)

lemma served_connectAndShow: "timer_ok cf s \<Longrightarrow> served cf (connectAndShow env auto reply s)"
  by (auto simp: connectAndShow_def Let_def looked_for_def timer_ok_def)

lemma served_window_event: "served cf s \<Longrightarrow> served cf (on_window_event e w s)"
  by (cases e) (erule served_same; simp)+

lemma served_main_step:
  assumes s: "served cf s" and i: "cf \<or> \<not> (\<exists>d. i = ConfigureRequest d)"
    and quiet: "find (rejected_task s) (tasks s) = None" and sole: "cf \<longrightarrow> sole s"
  shows "served cf (main_step env i s)"
proof -
  have same: "served cf s'" if "connection s' = connection s" "reconnectTimer s' = reconnectTimer s"
    "explicitShutdown s' = explicitShutdown s" "exited s' = exited s" "tasks s' = tasks s" for s'
    by (rule served_same [OF s]) (use that in auto)
  have connect: "served cf (connectAndShow env auto reply s)" for auto reply
    by (rule served_connectAndShow) (use s in simp)
  have timer: "served cf (connectAndShow env False False (s\<lparr>reconnectTimer := None\<rparr>))"
    by (rule served_connectAndShow) (use s in \<open>simp add: timer_ok_def\<close>)
  have failed: "served cf (pipe_failed env c e s)" for c e
  proof -
    have "served cf (end_conn c e s)" by (rule same) simp_all
    with s served_on_disconnect [where cf = cf] show ?thesis by (simp add: pipe_failed_def)
  qed
  have settled: "served cf (settle_renderer n b (s\<lparr>rendererCommandResults := m\<rparr>))" for n b m
    by (rule served_settle_renderer, rule same) simp_all
  have shown: "served cf (showSetup MenuSetup v s)" for v
    by (rule looked_for_showSetup) (use s in auto)
  show ?thesis
  proof (cases i)
    case (Launch lock auto)
    have "served cf (quit s)" by (rule same) simp_all
    with Launch connect show ?thesis by simp
  next
    case (WindowEvent e)
    then show ?thesis using s served_window_event [where cf = cf] by (simp split: option.split)
  next
    case (CommandResultMessage own payload)
    then show ?thesis using s settled
      by (auto simp: command_result_message_def split: option.split jsval.split)
  next
    case (RendererTimeout key)
    then show ?thesis using s settled by (auto simp: renderer_timeout_def split: option.split)
  next
    case (SetFullscreenRequest own v)
    show ?thesis by (rule same) (simp_all add: SetFullscreenRequest split: option.split)
  next
    case (StreamMessage v)
    show ?thesis by (rule same) (simp_all add: StreamMessage split: option.split)
  next
    case MenuQuit
    show ?thesis by (rule same) (simp_all add: MenuQuit)
  next
    case HeartbeatFires
    show ?thesis by (rule same) (simp_all add: HeartbeatFires)
  next
    case (HeartbeatAnswered n)
    show ?thesis by (rule same) (simp_all add: HeartbeatAnswered)
  next
    case (RendererMessage v)
    show ?thesis by (rule same) (simp_all add: RendererMessage)
  next
    case (DiagnosticMessage v)
    show ?thesis by (rule same) (simp_all add: DiagnosticMessage)
  next
    case (ClockAt t)
    show ?thesis by (rule same) (simp_all add: ClockAt)
  next
    case (ConfigureRequest d)
    with i have cf by blast
    have "served cf (add_task (AwaitConfigure c d) (call c (Configure d) s))" for c
      by (rule served_same [OF s]) (use \<open>cf\<close> in auto)
    with ConfigureRequest s show ?thesis by (simp split: option.split)
  qed (use s i connect timer failed shown served_settle [OF s quiet sole] served_executeViewerCommand [where cf = cf] served_before_quit [where cf = cf] in simp_all)
qed

text \<open>A run without new configurations, and one in which attempts to connect do not overlap.\<close>

lemma served_run:
  assumes "cf \<or> (\<forall>d. ConfigureRequest d \<notin> set ins)"
    and "cf \<longrightarrow> (\<forall>n. attempts (main_run env (take n ins) s) \<le> 1) \<and> sole s"
    and "served cf s" and "find (rejected_task s) (tasks s) = None"
  shows "served cf (main_run env ins s) \<and> (cf \<longrightarrow> sole (main_run env ins s))"
  using assms
proof (induction ins arbitrary: s)
  case (Cons i ins)
  let ?s = "main_exec env i s"
  have one: "cf \<Longrightarrow> attempts s \<le> 1" using Cons.prems(2) by (auto simp: main_run_def dest: spec [of _ 0])
  have rest: "attempts (main_run env (take n ins) ?s) \<le> 1" if "cf" for n
    using Cons.prems(2) that by (auto simp: main_run_def dest: spec [of _ "Suc n"])
  have "served cf (drain env (main_step env i s))"
    by (rule served_drain, rule served_main_step) (use Cons.prems in auto)
  with Cons.prems(3) have "served cf ?s" by (simp add: main_exec_def)
  moreover have "cf \<longrightarrow> sole ?s"
    using Cons.prems(2) one sole_drain [OF sole_main_step] by (simp add: main_exec_def)
  moreover have "find (rejected_task ?s) (tasks ?s) = None"
    using Cons.prems(4) drained by (simp add: main_exec_def)
  moreover have "cf \<or> (\<forall>d. ConfigureRequest d \<notin> set ins)" using Cons.prems(1) by auto
  ultimately have "served cf (main_run env ins ?s) \<and> (cf \<longrightarrow> sole (main_run env ins ?s))"
    using rest by (intro Cons.IH) auto
  then show ?case by (simp add: main_run_def)
qed (simp add: main_run_def)

end
