(* ===== verification/ViewerProps.thy ===== *)
theory ViewerProps
  imports ViewerService
begin

text \<open>
  What the main process of the viewer keeps: a lost management service is being looked for again, in
  runs without overlapping attempts or without new configurations, and every command sent to the page
  is settled once.
\<close>

section \<open>Commands sent to the page\<close>

text \<open>
  Most of the program only adds tasks, numbered on, that do not wait for the page: \<open>grows\<close>.
\<close>

definition grows :: "viewer \<Rightarrow> viewer \<Rightarrow> bool" where
  "grows s s' \<longleftrightarrow> (\<exists>ts. tasks s' = tasks s @ ts \<and> map fst ts = [nextTask s..<nextTask s']
       \<and> (\<forall>it \<in> set ts. \<not> is_renderer_task (snd it)))
     \<and> nextTask s \<le> nextTask s' \<and> rendererSettled s' = rendererSettled s
     \<and> rendererCommandResults s' = rendererCommandResults s"

lemma grows_same:
  "tasks s' = tasks s \<Longrightarrow> nextTask s' = nextTask s \<Longrightarrow> rendererSettled s' = rendererSettled s \<Longrightarrow>
   rendererCommandResults s' = rendererCommandResults s \<Longrightarrow> grows s s'"
  by (simp add: grows_def)

lemma upt_join: "i \<le> j \<Longrightarrow> j \<le> k \<Longrightarrow> [i..<j] @ [j..<k] = [i..<k]"
  by (metis le_Suc_ex upt_add_eq_append)

lemma grows_trans: "grows s s' \<Longrightarrow> grows s' s'' \<Longrightarrow> grows s s''"
  unfolding grows_def by clarsimp (auto simp: upt_join)

lemma grows_add: "grows s s' \<Longrightarrow> \<not> is_renderer_task t \<Longrightarrow> grows s (add_task t s')"
  by (rule grows_trans, assumption) (auto simp: grows_def)

lemma grows_then: "grows s s' \<Longrightarrow> tasks s'' = tasks s' \<Longrightarrow> nextTask s'' = nextTask s' \<Longrightarrow>
  rendererSettled s'' = rendererSettled s' \<Longrightarrow> rendererCommandResults s'' = rendererCommandResults s' \<Longrightarrow> grows s s''"
  by (erule grows_trans) (rule grows_same)

lemma returned_ok_renderer [simp]:
  "nextTask (returned_ok k s) = nextTask s" "rendererSettled (returned_ok k s) = rendererSettled s"
  "rendererCommandResults (returned_ok k s) = rendererCommandResults s"
  by (cases k; simp)+

lemma grows_showSetup: "grows s (showSetup k status s)"
  by (auto simp: showSetup_def Let_def intro!: grows_add grows_same)

lemma grows_connect_catch: "grows s (connect_catch env d lv reply e s)"
proof -
  have a: "grows s (abandon_attempt d e s)" by (rule grows_same) simp_all
  moreover have "grows s (finish reply (scheduleReconnect (abandon_attempt d e s)))" by (rule grows_same) simp_all
  ultimately show ?thesis using grows_trans [OF a grows_showSetup] by (simp add: connect_catch_def Let_def)
qed

lemma grows_returned_err: "grows s (returned_err env k e s)"
  by (cases k) (auto intro: grows_connect_catch grows_same)

lemma grows_live_go: "grows s (live_go env k status preserve s)"
proof -
  have b: "grows s (begin_live u s)" for u by (rule grows_same) simp_all
  have "grows s (returned_ok k (keep_document (announce_live c g (begin_live u s))))" for c g u
    by (rule grows_same) simp_all
  moreover have "grows s (add_task (AwaitLiveLoad k) (load_live u (announce_live c g (begin_live u s))))" for c g u
    by (rule grows_add [OF grows_same]) simp_all
  ultimately show ?thesis
    using grows_returned_err [of s env k] grows_trans [OF b grows_returned_err]
    by (simp add: live_go_def Let_def split: sum.split option.split)
qed

lemma grows_showLive: "grows s (showLive env k status preserve s)"
  by (auto simp: showLive_def intro!: grows_showSetup grows_live_go grows_add grows_same split: option.split)

lemma grows_resume:
  assumes "\<not> is_renderer_task t"
  shows "grows s (resume_task env t answer s)"
proof (cases t)
  case (AwaitConnect auto lv reply)
  then show ?thesis
    by (auto simp: resume_task_def after_connect_def Let_def intro!: grows_connect_catch grows_add grows_same split: outcome.split)
next
  case (AwaitStatus c auto lv reply)
  have cs: "grows s (s\<lparr>currentStatus := v\<rparr>)" for v by (rule grows_same) simp_all
  have "grows s (finish reply (give_up_connection c (s\<lparr>currentStatus := v\<rparr>)))" for v
    by (rule grows_same) (simp_all add: give_up_connection_def)
  moreover have "grows s (finish reply (quit (s\<lparr>currentStatus := v\<rparr>)))" for v
    by (rule grows_same) simp_all
  ultimately show ?thesis
    using AwaitStatus grows_connect_catch [of s env] grows_trans [OF cs grows_showSetup] grows_trans [OF cs grows_showLive]
    by (simp add: resume_task_def after_status_def Let_def split: sum.split startup_action.split)
next
  case (AwaitLease c k status preserve)
  have "grows s (reportDiagnostic d (s\<lparr>lease := l, grants := n\<rparr>))" for d l n by (rule grows_same) simp_all
  moreover have "grows s (returned_ok k (quit s))" by (rule grows_same) simp_all
  ultimately show ?thesis
    using AwaitLease grows_returned_err grows_trans [OF _ grows_live_go]
    by (simp add: resume_task_def after_lease_def split: sum.split)
next
  case (AwaitSetupLoad k)
  have "grows s (returned_ok k s)" by (rule grows_same) simp_all
  then show ?thesis using AwaitSetupLoad grows_returned_err by (simp add: resume_task_def split: sum.split)
next
  case (AwaitLiveLoad k)
  have "grows s (returned_ok k (reportManagementRecovery (reportDiagnostic d s)))" for d by (rule grows_same) simp_all
  then show ?thesis using AwaitLiveLoad grows_returned_err by (simp add: resume_task_def split: sum.split)
next
  case (AwaitConfigure c d)
  have "grows s (s\<lparr>currentStatus := v\<rparr>)" for v by (rule grows_same) simp_all
  then show ?thesis using AwaitConfigure grows_trans [OF _ grows_showLive]
    by (auto simp: resume_task_def intro!: grows_same split: sum.split)
next
  case (AwaitReload c g key)
  then show ?thesis
    by (auto simp: resume_task_def command_failed_def report_command_def intro!: grows_add grows_same split: sum.split)
next
  case (AwaitReport c g key succeeded errorCode relaunch)
  then show ?thesis
    by (auto simp: resume_task_def after_report_def Let_def intro!: grows_same split: sum.split)
qed (use assms in simp)

definition numbered :: "viewer \<Rightarrow> bool" where
  "numbered s \<longleftrightarrow> distinct (map fst (tasks s)) \<and> (\<forall>i \<in> fst ` set (tasks s). i < nextTask s)"

text \<open>
  \<open>m\<close> are the entries of \<open>rendererCommandResults\<close> (or those that \<open>before-quit\<close> has still to go
  through).
\<close>

definition renderer_inv :: "(jsstring, nat) jsmap \<Rightarrow> viewer \<Rightarrow> bool" where
  "renderer_inv m s \<longleftrightarrow> numbered s \<and> map_ok m \<and> distinct (map snd m)
     \<and> (\<forall>(k, i) \<in> set m. i < nextTask s \<and> (\<forall>t. (i, t) \<in> set (tasks s) \<longrightarrow> is_renderer_task t))
     \<and> (\<forall>(i, t) \<in> set (tasks s). is_renderer_task t \<longrightarrow> i \<in> snd ` set m)
     \<and> distinct (map fst (rendererSettled s))
     \<and> (\<forall>i \<in> fst ` set (rendererSettled s). i < nextTask s \<and> i \<notin> fst ` set (tasks s))"

abbreviation renderer_ok :: "viewer \<Rightarrow> bool" where
  "renderer_ok s \<equiv> renderer_inv (rendererCommandResults s) s"

lemma numbered_grows: "numbered s \<Longrightarrow> grows s s' \<Longrightarrow> numbered s'"
proof -
  assume s: "numbered s" and g: "grows s s'"
  from g obtain ts where ts: "tasks s' = tasks s @ ts" "map fst ts = [nextTask s..<nextTask s']"
    and le: "nextTask s \<le> nextTask s'" by (auto simp: grows_def)
  have "fst ` set ts = {nextTask s..<nextTask s'}"
    using arg_cong [OF ts(2), of set] by simp
  moreover have "distinct (map fst ts)" by (simp add: ts(2))
  ultimately show ?thesis using s le ts(1) by (force simp: numbered_def)
qed

lemma renderer_inv_grows: "renderer_inv m s \<Longrightarrow> grows s s' \<Longrightarrow> renderer_inv m s'"
proof -
  assume inv: "renderer_inv m s" and g: "grows s s'"
  from g obtain ts where ts: "tasks s' = tasks s @ ts" "map fst ts = [nextTask s..<nextTask s']"
      "\<forall>it \<in> set ts. \<not> is_renderer_task (snd it)"
    and le: "nextTask s \<le> nextTask s'" and st: "rendererSettled s' = rendererSettled s" by (auto simp: grows_def)
  have new: "fst ` set ts = {nextTask s..<nextTask s'}"
    using arg_cong [OF ts(2), of set] by simp
  then have old: "i < nextTask s \<Longrightarrow> (i, t) \<notin> set ts" for i t
    by (metis atLeastLessThan_iff fst_conv image_eqI not_le)
  have num: "numbered s'" using inv g numbered_grows by (auto simp: renderer_inv_def)
  have m: "map_ok m" "distinct (map snd m)" "distinct (map fst (rendererSettled s))"
    using inv by (simp_all add: renderer_inv_def)
  have entries: "i < nextTask s" "(i, t) \<in> set (tasks s) \<Longrightarrow> is_renderer_task t" if "(k, i) \<in> set m" for k i t
    using inv that by (auto simp: renderer_inv_def)
  have waits: "i \<in> snd ` set m" if "(i, t) \<in> set (tasks s)" "is_renderer_task t" for i t
    using inv that by (auto simp: renderer_inv_def)
  have settled: "i < nextTask s" "i \<notin> fst ` set (tasks s)" if "i \<in> fst ` set (rendererSettled s)" for i
    using inv that unfolding renderer_inv_def by blast+
  show ?thesis
    unfolding renderer_inv_def st ts(1)
  proof (intro conjI)
    show "\<forall>(k, i) \<in> set m. i < nextTask s' \<and> (\<forall>t. (i, t) \<in> set (tasks s @ ts) \<longrightarrow> is_renderer_task t)"
    proof (clarify, intro conjI allI impI)
      fix k i t
      assume e: "(k, i) \<in> set m"
      from entries(1) [OF e] le show "i < nextTask s'" by simp
      assume "(i, t) \<in> set (tasks s @ ts)"
      with old [OF entries(1) [OF e]] entries(2) [OF e] show "is_renderer_task t" by auto
    qed
    show "\<forall>(i, t) \<in> set (tasks s @ ts). is_renderer_task t \<longrightarrow> i \<in> snd ` set m"
      using waits ts(3) by auto
    show "\<forall>i \<in> fst ` set (rendererSettled s). i < nextTask s' \<and> i \<notin> fst ` set (tasks s @ ts)"
    proof (intro ballI conjI)
      fix i
      assume i: "i \<in> fst ` set (rendererSettled s)"
      from settled(1) [OF i] le show "i < nextTask s'" by simp
      have "i \<notin> fst ` set ts" using settled(1) [OF i] by (simp add: new)
      with settled(2) [OF i] show "i \<notin> fst ` set (tasks s @ ts)" by (simp add: image_Un)
    qed
  qed (use num m in auto)
qed

lemma renderer_inv_drop:
  assumes "renderer_inv m s" and "\<not> is_renderer_task t"
  shows "renderer_inv m (drop_task (i, t) s)"
  using assms by (auto simp: renderer_inv_def numbered_def drop_task_def distinct_map_filter)

lemma grows_executed:
  "renderer_inv m s \<Longrightarrow> \<not> is_renderer_task t \<Longrightarrow> renderer_inv m (resume_task env t answer (drop_task (i, t) s))"
  by (rule renderer_inv_grows [OF renderer_inv_drop grows_resume])

lemma resume_results [simp]:
  assumes "\<not> is_renderer_task t"
  shows "rendererCommandResults (resume_task env t answer s) = rendererCommandResults s"
    and "rendererSettled (resume_task env t answer s) = rendererSettled s"
  using grows_resume [OF assms, of s env answer] by (auto simp: grows_def)

lemma renderer_ok_settle: "renderer_ok s \<Longrightarrow> renderer_ok (settle env i answer s)"
  by (auto simp: settle_def grows_executed split: option.split)

lemma rejected_not_renderer: "rejected_task s (i, t) \<Longrightarrow> \<not> is_renderer_task t"
  by (cases t) (auto simp: rejected_task_def)

lemma drain_renderer:
  "rendererSettled (drain env s) = rendererSettled s \<and> (renderer_ok s \<longrightarrow> renderer_ok (drain env s))"
proof (induction env s rule: drain.induct)
  case (1 env s)
  show ?case
  proof (cases "find (rejected_task s) (tasks s)")
    case None
    then show ?thesis by (simp add: drain.simps)
  next
    case (Some it)
    obtain i t where it: "it = (i, t)" by (cases it)
    with Some have "rejected_task s (i, t)" by (auto simp: find_Some_iff)
    then have t: "\<not> is_renderer_task t" by (rule rejected_not_renderer)
    from 1 [OF Some it [symmetric]] Some it t grows_executed [OF _ t] show ?thesis
      by (simp add: drain.simps [of env s])
  qed
qed

lemma settle_renderer_cases:
  obtains "settle_renderer i b s = s" and "\<forall>c g key. map_of (tasks s) i \<noteq> Some (AwaitRenderer c g key)"
  | c g key e where "map_of (tasks s) i = Some (AwaitRenderer c g key)"
      and "settle_renderer i b s = report_command c g key b e False
             ((drop_task (i, AwaitRenderer c g key) s)\<lparr>rendererSettled := rendererSettled s @ [(i, b)]\<rparr>)"
proof (cases "\<exists>c g key. map_of (tasks s) i = Some (AwaitRenderer c g key)")
  case True
  then obtain c g key where t: "map_of (tasks s) i = Some (AwaitRenderer c g key)" by blast
  show ?thesis
    by (rule that(2) [OF t, of "if b then [] else js ''renderer_failed''"])
       (simp add: settle_renderer_def t Let_def)
next
  case False
  then have "settle_renderer i b s = s"
    by (simp add: settle_renderer_def split: option.split task.split)
  with False that(1) show ?thesis by blast
qed

lemma settle_renderer_inv:
  assumes inv: "renderer_inv m s" and mem: "(key, i) \<in> set m"
  shows "renderer_inv (filter (\<lambda>e. e \<noteq> (key, i)) m) (settle_renderer i b s)"
proof (cases rule: settle_renderer_cases [of i b s])
  case 1
  have "i \<notin> fst ` set (tasks s)"
  proof
    assume "i \<in> fst ` set (tasks s)"
    then obtain t where t: "(i, t) \<in> set (tasks s)" by auto
    with inv mem have "is_renderer_task t" unfolding renderer_inv_def by blast
    moreover have "map_of (tasks s) i = Some t"
      using t inv by (intro map_of_is_SomeI) (auto simp: renderer_inv_def numbered_def)
    ultimately show False using 1(2) by (cases t) auto
  qed
  have "j \<in> snd ` set (filter (\<lambda>e. e \<noteq> (key, i)) m)" if "(j, t) \<in> set (tasks s)" "is_renderer_task t" for j t
  proof -
    from that inv have "j \<in> snd ` set m" unfolding renderer_inv_def by blast
    then obtain k where "(k, j) \<in> set m" by auto
    moreover have "j \<noteq> i" using that(1) \<open>i \<notin> fst ` set (tasks s)\<close> by force
    ultimately show ?thesis by force
  qed
  then have "\<forall>(j, t) \<in> set (tasks s). is_renderer_task t \<longrightarrow> j \<in> snd ` set (filter (\<lambda>e. e \<noteq> (key, i)) m)" by blast
  with inv 1(1) show ?thesis
    by (auto simp: renderer_inv_def map_ok_def distinct_map_filter)
next
  case (2 c g k e)
  let ?m = "filter (\<lambda>e. e \<noteq> (key, i)) m"
  let ?s = "(drop_task (i, AwaitRenderer c g k) s)\<lparr>rendererSettled := rendererSettled s @ [(i, b)]\<rparr>"
  have only: "(i, t) \<in> set (tasks s) \<Longrightarrow> t = AwaitRenderer c g k" for t
    using 2(1) inv by (metis map_of_is_SomeI numbered_def option.inject renderer_inv_def)
  have mem_i: "(i, AwaitRenderer c g k) \<in> set (tasks s)" using 2(1) by (rule map_of_SomeD)
  have fresh: "i < nextTask s" "i \<notin> fst ` set (rendererSettled s)"
    using inv mem_i unfolding renderer_inv_def numbered_def by force+
  have gone: "i \<notin> fst ` set (tasks ?s)" using only by (auto simp: drop_task_def)
  have "renderer_inv ?m ?s"
    unfolding renderer_inv_def
  proof (intro conjI)
    show "numbered ?s" using inv by (auto simp: renderer_inv_def numbered_def drop_task_def distinct_map_filter)
    show "map_ok ?m" "distinct (map snd ?m)"
      using inv by (auto simp: renderer_inv_def map_ok_def distinct_map_filter)
    show "\<forall>(k, j) \<in> set ?m. j < nextTask ?s \<and> (\<forall>t. (j, t) \<in> set (tasks ?s) \<longrightarrow> is_renderer_task t)"
      using inv by (auto simp: renderer_inv_def drop_task_def)
    show "\<forall>(j, t) \<in> set (tasks ?s). is_renderer_task t \<longrightarrow> j \<in> snd ` set ?m"
    proof (clarify)
      fix j t
      assume j: "(j, t) \<in> set (tasks ?s)" and t: "is_renderer_task t"
      then have "j \<noteq> i" using gone by force
      moreover have "(j, t) \<in> set (tasks s)" using j by (simp add: drop_task_def)
      then have "j \<in> snd ` set m" using inv t unfolding renderer_inv_def by blast
      ultimately show "j \<in> snd ` set ?m" by force
    qed
    show "distinct (map fst (rendererSettled ?s))"
      using inv fresh by (simp add: renderer_inv_def)
    show "\<forall>j \<in> fst ` set (rendererSettled ?s). j < nextTask ?s \<and> j \<notin> fst ` set (tasks ?s)"
      using inv fresh gone by (auto simp: renderer_inv_def drop_task_def)
  qed
  moreover have "grows ?s (report_command c g k b e False ?s)"
    unfolding report_command_def by (rule grows_add [OF grows_same]) simp_all
  ultimately have "renderer_inv ?m (report_command c g k b e False ?s)" by (rule renderer_inv_grows)
  with 2(2) show ?thesis by simp
qed

lemma renderer_inv_results [simp]: "renderer_inv m (s\<lparr>rendererCommandResults := r\<rparr>) = renderer_inv m s"
  by (simp add: renderer_inv_def numbered_def)

lemma renderer_inv_same [simp]:
  "renderer_inv m (quit s) = renderer_inv m s" "renderer_inv m (pulse s) = renderer_inv m s"
  "renderer_inv m (heartbeat_answered n s) = renderer_inv m s" "renderer_inv m (reportRenderer v s) = renderer_inv m s"
  "renderer_inv m (reportDiagnostic v s) = renderer_inv m s"
  by (simp_all add: renderer_inv_def numbered_def)

lemma settle_renderer_results [simp]: "rendererCommandResults (settle_renderer i b s) = rendererCommandResults s"
  by (cases rule: settle_renderer_cases [of i b s]) (simp_all add: report_command_def)

lemma map_delete_entry: "map_ok m \<Longrightarrow> map_of m k = Some i \<Longrightarrow> map_delete k m = filter (\<lambda>e. e \<noteq> (k, i)) m"
  unfolding map_delete_def map_ok_def
  by (rule filter_cong) (auto dest: map_of_SomeD simp: eq_key_imp_eq_value)

lemma renderer_ok_take:
  assumes "renderer_ok s" and "map_of (rendererCommandResults s) key = Some i"
  shows "renderer_ok (settle_renderer i b (s\<lparr>rendererCommandResults := map_delete key (rendererCommandResults s)\<rparr>))"
proof -
  let ?m = "rendererCommandResults s"
  have mem: "(key, i) \<in> set ?m" using assms(2) by (rule map_of_SomeD)
  have "renderer_inv (filter (\<lambda>e. e \<noteq> (key, i)) ?m) (settle_renderer i b (s\<lparr>rendererCommandResults := map_delete key ?m\<rparr>))"
    by (rule settle_renderer_inv) (use assms mem in auto)
  moreover have "map_delete key ?m = filter (\<lambda>e. e \<noteq> (key, i)) ?m"
    using assms by (intro map_delete_entry) (auto simp: renderer_inv_def)
  ultimately show ?thesis by simp
qed

lemma renderer_inv_fold:
  "renderer_inv m s \<Longrightarrow> renderer_inv [] (fold (\<lambda>(key, i). settle_renderer i False) m s)"
proof (induction m arbitrary: s)
  case (Cons e m)
  obtain key i where e: "e = (key, i)" by (cases e)
  have "filter (\<lambda>x. x \<noteq> (key, i)) (e # m) = m"
    using Cons.prems e by (auto simp: renderer_inv_def map_ok_def filter_id_conv) (metis fst_conv image_eqI)
  with settle_renderer_inv [OF Cons.prems, of key i False] e
  have "renderer_inv m (settle_renderer i False s)" by simp
  with Cons.IH e show ?case by simp
qed simp

lemma fold_settle_results [simp]:
  "rendererCommandResults (fold (\<lambda>(key, i). settle_renderer i False) m s) = rendererCommandResults s"
  by (induction m arbitrary: s) auto

lemma renderer_ok_before_quit: "renderer_ok s \<Longrightarrow> renderer_ok (before_quit s)"
proof (cases "quitHandled s")
  case False
  assume "renderer_ok s"
  then have "renderer_inv (rendererCommandResults s) ((shut_down s)\<lparr>rendererCommandResults := []\<rparr>)"
    by (simp add: renderer_inv_def numbered_def)
  from renderer_inv_fold [OF this] False show ?thesis by (simp add: before_quit_def)
qed (simp add: before_quit_def)

lemma grows_report_command: "grows s (report_command c g key ok code relaunch s)"
  unfolding report_command_def by (rule grows_add [OF grows_same]) simp_all

lemma renderer_ok_grows: "renderer_ok s \<Longrightarrow> grows s s' \<Longrightarrow> renderer_ok s'"
  using renderer_inv_grows [of "rendererCommandResults s" s s'] by (simp add: grows_def)

lemma map_set_new: "key \<notin> set (map_keys m) \<Longrightarrow> map_set key n m = m @ [(key, n)]"
  by (induction key n m rule: map_set.induct) (auto simp: map_keys_def)

text \<open>A fresh entry, with its waiting task or (the page is gone) without.\<close>

lemma renderer_ok_enter:
  assumes inv: "renderer_ok s" and new: "key \<notin> set (map_keys (rendererCommandResults s))"
    and tasks: "tasks s' = tasks s @ ts" "ts = [] \<or> ts = [(nextTask s, AwaitRenderer c g key)]"
    and rest: "nextTask s' = Suc (nextTask s)" "rendererSettled s' = rendererSettled s"
      "rendererCommandResults s' = map_set key (nextTask s) (rendererCommandResults s)"
  shows "renderer_ok s'"
proof -
  let ?m = "rendererCommandResults s"
  have lt: "i < nextTask s" if "(i, t) \<in> set (tasks s)" for i t
    using inv that unfolding renderer_inv_def numbered_def by force
  have mlt: "i < nextTask s" if "(k, i) \<in> set ?m" for k i
    using inv that unfolding renderer_inv_def by blast
  show ?thesis
    unfolding renderer_inv_def rest map_set_new [OF new]
  proof (intro conjI)
    have n: "distinct (map fst (tasks s))" "\<forall>i \<in> fst ` set (tasks s). i < nextTask s"
      using inv by (simp_all add: renderer_inv_def numbered_def)
    show "numbered s'"
      using tasks(2) n by (elim disjE) (auto simp: numbered_def tasks(1) rest(1))
    show "map_ok (?m @ [(key, nextTask s)])"
      using inv new by (auto simp: renderer_inv_def map_ok_def map_keys_def)
    have "nextTask s \<notin> snd ` set ?m" using mlt by (metis imageE less_irrefl prod.collapse)
    then show "distinct (map snd (?m @ [(key, nextTask s)]))"
      using inv by (simp add: renderer_inv_def)
    have old: "\<forall>(k, i) \<in> set ?m. i < nextTask s \<and> (\<forall>t. (i, t) \<in> set (tasks s) \<longrightarrow> is_renderer_task t)"
      "\<forall>(i, t) \<in> set (tasks s). is_renderer_task t \<longrightarrow> i \<in> snd ` set ?m"
      "\<forall>i \<in> fst ` set (rendererSettled s). i < nextTask s \<and> i \<notin> fst ` set (tasks s)"
      using inv unfolding renderer_inv_def by blast+
    have new_task: "(i, t) \<in> set ts \<Longrightarrow> i = nextTask s \<and> is_renderer_task t" for i t
      using tasks(2) by auto
    have no_task: "(nextTask s, t) \<notin> set (tasks s)" for t using lt by blast
    show "\<forall>(k, i) \<in> set (?m @ [(key, nextTask s)]). i < Suc (nextTask s)
        \<and> (\<forall>t. (i, t) \<in> set (tasks s') \<longrightarrow> is_renderer_task t)"
      using old(1) no_task new_task by (auto simp: tasks(1) less_Suc_eq)
    show "\<forall>(i, t) \<in> set (tasks s'). is_renderer_task t \<longrightarrow> i \<in> snd ` set (?m @ [(key, nextTask s)])"
      using old(2) new_task by (auto simp: tasks(1))
    show "distinct (map fst (rendererSettled s))" using inv by (simp add: renderer_inv_def)
    show "\<forall>i \<in> fst ` set (rendererSettled s). i < Suc (nextTask s) \<and> i \<notin> fst ` set (tasks s')"
      using old(3) new_task by (auto simp: tasks(1) less_Suc_eq)
  qed
qed

lemma renderer_ok_send: "renderer_ok s \<Longrightarrow> renderer_ok (sendRendererCommand c g name key w s)"
proof (cases "key \<in> set (map_keys (rendererCommandResults s))")
  case True
  assume "renderer_ok s"
  with True renderer_ok_grows [OF _ grows_report_command] show ?thesis by (simp add: sendRendererCommand_def)
next
  case False
  assume inv: "renderer_ok s"
  let ?s = "s\<lparr>rendererCommandResults := map_set key (nextTask s) (rendererCommandResults s)\<rparr>"
  have "renderer_ok (?s\<lparr>nextTask := Suc (nextTask s)\<rparr>)"
    by (rule renderer_ok_enter [OF inv False, of _ "[]"]) simp_all
  then have "renderer_ok (command_failed c g key (?s\<lparr>nextTask := Suc (nextTask s)\<rparr>))"
    unfolding command_failed_def by (rule renderer_ok_grows [OF _ grows_report_command])
  moreover have "renderer_ok (send_page p (add_task (AwaitRenderer c g key) ?s))" for p
    by (rule renderer_ok_enter [OF inv False, of _ "[(nextTask s, AwaitRenderer c g key)]"]) simp_all
  ultimately show ?thesis using False by (simp add: sendRendererCommand_def Let_def)
qed

lemma renderer_ok_execute: "renderer_ok s \<Longrightarrow> renderer_ok (executeViewerCommand c command s)"
proof -
  assume inv: "renderer_ok s"
  have s1: "renderer_ok (reportDiagnostic d s)" for d
    by (rule renderer_ok_grows [OF inv grows_same]) simp_all
  have "renderer_ok (report_command c g key ok code rl (reportDiagnostic d s))" for g key ok code rl d
    by (rule renderer_ok_grows [OF s1 grows_report_command])
  moreover have "renderer_ok (add_task (AwaitReload c g key) (load_document x (reportDiagnostic d s)))" for g key x d
    by (rule renderer_ok_grows [OF s1 grows_add [OF grows_same]]) simp_all
  ultimately show ?thesis
    using inv renderer_ok_send [OF s1]
    by (simp add: executeViewerCommand_def Let_def command_failed_def split: option.split viewer_command.split)
qed

lemma renderer_ok_step: "renderer_ok s \<Longrightarrow> renderer_ok (main_step env i s)"
proof -
  assume inv: "renderer_ok s"
  have grow: "grows s s' \<Longrightarrow> renderer_ok s'" for s' using inv by (rule renderer_ok_grows)
  have connect: "grows s (connectAndShow env auto reply (s\<lparr>reconnectTimer := r\<rparr>))" for auto reply r
    by (auto simp: connectAndShow_def Let_def intro!: grows_add grows_same)
  show ?thesis
  proof (cases i)
    case (Launch lock auto)
    have "grows s (connectAndShow env auto False s)"
      by (auto simp: connectAndShow_def Let_def intro!: grows_add grows_same)
    moreover have "grows s (quit s)" by (rule grows_same) simp_all
    ultimately show ?thesis using Launch grow by simp
  next
    case (PipeFailed c e)
    have a: "grows s (end_conn c e s)" by (rule grows_same) simp_all
    have "grows x (on_disconnect env c e x)" for x
    proof -
      let ?x = "stopHeartbeat ((observeManagementOutage e x)\<lparr>connection := None, lease := None\<rparr>)"
      have b: "grows x ?x" by (rule grows_same) simp_all
      moreover have "grows x (scheduleReconnect ?x)" by (rule grows_same) simp_all
      ultimately show ?thesis using grows_trans [OF b grows_showSetup]
        by (auto simp: on_disconnect_def Let_def intro: grows_same split: disconnect_action.split)
    qed
    with a grow inv PipeFailed show ?thesis by (simp add: pipe_failed_def grows_trans)
  next
    case ReconnectTimerFires
    with inv grow [OF connect] show ?thesis by simp
  next
    case (WindowEvent e)
    have "grows s (on_window_event e w s)" for w by (cases e) (auto intro: grows_same)
    with WindowEvent inv grow show ?thesis by (simp split: option.split)
  next
    case MenuSetupClicked
    with grow [OF grows_showSetup] show ?thesis by simp
  next
    case (StreamMessage v)
    show ?thesis by (rule grow, rule grows_same) (simp_all add: StreamMessage split: option.split)
  next
    case (CommandResultMessage own payload)
    then show ?thesis using inv renderer_ok_take
      by (auto simp: command_result_message_def split: option.split jsval.split)
  next
    case (RendererTimeout key)
    then show ?thesis using inv renderer_ok_take by (auto simp: renderer_timeout_def split: option.split)
  next
    case RetryRequest
    have "grows s (connectAndShow env False True s)"
      by (auto simp: connectAndShow_def Let_def intro!: grows_add grows_same)
    with RetryRequest grow show ?thesis by simp
  next
    case (SetFullscreenRequest own v)
    show ?thesis by (rule grow, rule grows_same) (simp_all add: SetFullscreenRequest split: option.split)
  next
    case (ConfigureRequest d)
    have "grows s (main_step env i s)"
      by (auto simp: ConfigureRequest intro!: grows_add grows_same split: option.split)
    then show ?thesis by (rule grow)
  next
    case (ClockAt t)
    show ?thesis by (rule grow, rule grows_same) (simp_all add: ClockAt)
  next
    case SetupStateRequest
    show ?thesis by (rule grow, rule grows_same) (simp_all add: SetupStateRequest)
  qed (use inv renderer_ok_settle renderer_ok_execute renderer_ok_before_quit in \<open>auto intro!: grow grows_same\<close>)
qed

lemma renderer_ok_run: "renderer_ok s \<Longrightarrow> renderer_ok (main_run env ins s)"
  unfolding main_run_def
proof (induction ins arbitrary: s)
  case (Cons i ins)
  then have "renderer_ok (main_exec env i s)"
    using drain_renderer renderer_ok_step by (simp add: main_exec_def)
  with Cons show ?case by simp
qed simp

lemma renderer_ok_initial: "renderer_ok initial_viewer"
  by (simp add: renderer_inv_def numbered_def initial_viewer_def)

section \<open>The properties\<close>

text \<open>A load of the connection form at whose end, whatever it is, the timer is set.\<close>

lemma form_load_reschedules:
  assumes "numbered s" and "(i, AwaitSetupLoad k) \<in> set (tasks s)" and "rescheduling k" and "\<not> explicitShutdown s"
  shows "map_of (tasks s) i = Some (AwaitSetupLoad k) \<and> (\<forall>answer. reconnectTimer (settle env i answer s) \<noteq> None)"
proof -
  have of: "map_of (tasks s) i = Some (AwaitSetupLoad k)"
    using assms(1,2) by (intro map_of_is_SomeI) (simp_all add: numbered_def)
  have up: "\<not> explicitShutdown (drop_task it s)" for it using assms(4) by (simp add: drop_task_def)
  have "reconnectTimer (settle env i answer s) \<noteq> None" for answer
    using of assms(3) schedule_timer [of "drop_task (i, AwaitSetupLoad k) s"] up
    by (cases k) (auto simp: settle_def resume_task_def finish_def split: sum.split)
  with of show ?thesis by blast
qed

text \<open>C5: The viewer never stops looking for its management service. At every moment after its start,
  unless it is shutting down, it has a connection, or a reconnection timer of 1, 2, 5, 10 or 30 seconds, or an
  attempt to connect is in flight, or it is loading the connection form and sets the timer when that load ends,
  however it ends; and when it is shutting down no timer runs. This holds for every run in which no
  configuration is saved, and for every run in which no attempt to connect begins while another is in flight.\<close>

theorem reconnect_never_lost:
  assumes "ins = Launch True auto # rest"
    and "(\<forall>d. ConfigureRequest d \<notin> set rest) \<or> (\<forall>n. attempts (main_run env (take n ins) initial_viewer) \<le> 1)"
    and "s = main_run env ins initial_viewer"
  shows "(connection s \<noteq> None \<or> reconnectTimer s \<noteq> None \<or> explicitShutdown s
      \<or> (\<exists>it \<in> set (tasks s). connecting (snd it))
      \<or> (\<exists>i k. map_of (tasks s) i = Some (AwaitSetupLoad k)
            \<and> (\<forall>answer. reconnectTimer (settle env i answer s) \<noteq> None)))
    \<and> (reconnectTimer s = None \<or> the (reconnectTimer s) \<in> {1000, 2000, 5000, 10000, 30000})
    \<and> (\<not> explicitShutdown s \<or> exited s \<or> reconnectTimer s = None)"
proof -
  define cf where "cf \<longleftrightarrow> \<not> (\<forall>d. ConfigureRequest d \<notin> set rest)"
  let ?s = "main_exec env (Launch True auto) initial_viewer"
  have run: "main_run env (Launch True auto # is) initial_viewer = main_run env is ?s" for "is"
    by (simp add: main_run_def)
  have "attempts (main_run env (take n rest) ?s) \<le> 1" if cf for n
  proof -
    have "attempts (main_run env (take (Suc n) ins) initial_viewer) \<le> 1" using assms(2) that unfolding cf_def by blast
    then show ?thesis by (simp add: assms(1) run)
  qed
  moreover have "sole ?s"
    using sole_drain [OF sole_connectAndShow [OF sole_initial]] sole_initial by (simp add: main_exec_def)
  moreover have "timer_ok cf initial_viewer" by (simp add: timer_ok_def initial_viewer_def)
  then have "served cf ?s"
    using served_drain [OF served_connectAndShow, of cf initial_viewer]
    by (simp add: main_exec_def) (simp add: initial_viewer_def)
  moreover have "find (rejected_task ?s) (tasks ?s) = None"
    using drained by (simp add: main_exec_def) (simp add: initial_viewer_def)
  ultimately have "served cf s"
    using served_run [of cf rest env ?s] unfolding assms(1,3) run cf_def by blast
  then have l: "looked_for s" and t: "timer_ok cf s" by simp_all
  have num: "numbered s"
    using renderer_ok_run [OF renderer_ok_initial, of env ins] assms(3) by (simp add: renderer_inv_def)
  have "connection s \<noteq> None \<or> reconnectTimer s \<noteq> None \<or> explicitShutdown s
      \<or> (\<exists>it \<in> set (tasks s). connecting (snd it))
      \<or> (\<exists>i k. map_of (tasks s) i = Some (AwaitSetupLoad k)
            \<and> (\<forall>answer. reconnectTimer (settle env i answer s) \<noteq> None))"
  proof (cases "connection s \<noteq> None \<or> reconnectTimer s \<noteq> None \<or> explicitShutdown s")
    case False
    with l obtain i u where it: "(i, u) \<in> set (tasks s)" "reconnecting u" by (auto simp: looked_for_def)
    show ?thesis
    proof (cases u)
      case (AwaitSetupLoad k)
      with form_load_reschedules [OF num, of i k env] it False show ?thesis by auto
    qed (use it in \<open>auto intro!: bexI [of _ "(i, u)"]\<close>)
  qed blast
  with t show ?thesis by (simp add: timer_ok_def reconnect_delays_def)
qed

text \<open>Two runs: the service is not there, the connection form is shown, and the next attempt is in a second;
  and the connection ends while a configuration is being saved.\<close>

lemmas main_simps = main_run_def main_exec_def initial_viewer_def settle_def resume_task_def drop_task_def add_task_def
  connectAndShow_def after_connect_def connect_catch_def abandon_attempt_def observeManagementOutage_def
  stopHeartbeat_def close_conn_def hasCurrentLiveDocument_def showSetup_def setupLoadAction_def createWindow_def
  load_document_def new_window_def load_outcome_def finish_def scheduleReconnect_def rejected_task_def
  reconnectDelaySeconds_def drain.simps Let_def

definition absent_run :: "main_input list" where
  "absent_run = [Launch True False, Settle 0 (Rejected (PlainError (js ''ENOENT''))), Settle 1 (Resolved JUndefined)]"

definition broken_save :: "main_input list" where
  "broken_save = [Launch True False, Settle 0 (Resolved JUndefined), ConfigureRequest JNull, PipeFailed 0 (PlainError (js ''EPIPE''))]"

definition plain_env :: url_env where
  "plain_env = \<lparr>parseURL = Map.empty, setRoute = \<lambda>u p q. []\<rparr>"

lemmas save_simps = main_simps call_def conn_open_def end_conn_def pipe_failed_def on_disconnect_def disconnectAction_def
  rejection_def after_status_def

lemma broken_save_attempts: "attempts (main_run plain_env (take n broken_save) initial_viewer) \<le> 1"
proof -
  consider "n = 0" | "n = 1" | "n = 2" | "n = 3" | "4 \<le> n" by linarith
  then show ?thesis
    by cases (simp_all add: broken_save_def attempts_def save_simps)
qed

lemma reconnect_never_lost_witness:
  "let s = main_run plain_env absent_run initial_viewer; u = main_run plain_env broken_save initial_viewer
   in connection s = None \<and> \<not> explicitShutdown s \<and> reconnectTimer s = Some 1000 \<and> the (reconnectTimer s) \<in> {1000, 2000, 5000, 10000, 30000}
    \<and> connection u = None \<and> \<not> explicitShutdown u \<and> reconnectTimer u = Some 1000 \<and> the (reconnectTimer u) \<in> {1000, 2000, 5000, 10000, 30000}"
proof -
  have "reconnectTimer (main_run plain_env absent_run initial_viewer) = Some 1000
      \<and> connection (main_run plain_env absent_run initial_viewer) = None \<and> \<not> explicitShutdown (main_run plain_env absent_run initial_viewer)"
    by (simp add: absent_run_def save_simps)
  moreover have "reconnectTimer (main_run plain_env broken_save initial_viewer) = Some 1000
      \<and> connection (main_run plain_env broken_save initial_viewer) = None \<and> \<not> explicitShutdown (main_run plain_env broken_save initial_viewer)"
    by (simp add: broken_save_def save_simps)
  ultimately show ?thesis
    using reconnect_never_lost [OF absent_run_def _ refl, of plain_env] broken_save_attempts
      reconnect_never_lost [OF broken_save_def _ refl, of plain_env]
    by (simp add: absent_run_def [symmetric] Let_def)
qed

text \<open>A command that the main process has sent to the page is settled at most once, by the page's answer,
  by its timer or when the viewer quits; one that still waits is registered under its operation key, and its
  timer settles it as failed.\<close>

theorem renderer_command_settled_once:
  "let s = main_run env ins initial_viewer in
    distinct (map fst (rendererSettled s))
    \<and> (\<forall>i c g key. (i, AwaitRenderer c g key) \<in> set (tasks s) \<longrightarrow>
         i \<notin> fst ` set (rendererSettled s)
         \<and> (\<exists>k. map_of (rendererCommandResults s) k = Some i
              \<and> (exited s \<or> (i, False) \<in> set (rendererSettled (main_exec env (RendererTimeout k) s)))))"
proof -
  let ?s = "main_run env ins initial_viewer"
  have inv: "renderer_ok ?s" by (rule renderer_ok_run [OF renderer_ok_initial])
  have waits: "i \<notin> fst ` set (rendererSettled ?s) \<and> (\<exists>k. map_of (rendererCommandResults ?s) k = Some i
      \<and> (exited ?s \<or> (i, False) \<in> set (rendererSettled (main_exec env (RendererTimeout k) ?s))))"
    if mem: "(i, AwaitRenderer c g key) \<in> set (tasks ?s)" for i c g key
  proof -
    have "\<forall>(i, t) \<in> set (tasks ?s). is_renderer_task t \<longrightarrow> i \<in> snd ` set (rendererCommandResults ?s)"
      using inv by (simp add: renderer_inv_def)
    with mem have "i \<in> snd ` set (rendererCommandResults ?s)" by fastforce
    then obtain k where k: "(k, i) \<in> set (rendererCommandResults ?s)" by auto
    then have of: "map_of (rendererCommandResults ?s) k = Some i"
      using inv by (intro map_of_is_SomeI) (auto simp: renderer_inv_def map_ok_def)
    have task: "map_of (tasks ?s) i = Some (AwaitRenderer c g key)"
      using mem inv by (intro map_of_is_SomeI) (auto simp: renderer_inv_def numbered_def)
    have "(i, False) \<in> set (rendererSettled (main_exec env (RendererTimeout k) ?s))" if "\<not> exited ?s"
      using that of task drain_renderer by (simp add: main_exec_def renderer_timeout_def settle_renderer_def report_command_def)
    moreover have "i \<notin> fst ` set (rendererSettled ?s)" using inv mem unfolding renderer_inv_def by force
    ultimately show ?thesis using of by blast
  qed
  have "distinct (map fst (rendererSettled ?s))" using inv by (simp add: renderer_inv_def)
  with waits show ?thesis unfolding Let_def by blast
qed

text \<open>A run up to a command: the live page is shown, and the service asks for a new subscription.\<close>

definition sample_url :: url where
  "sample_url = \<lparr>protocol = js ''http:'', hostname = js ''nas'', username = [], password = [], pathname = js ''/'',
     search = [], url_hash = [], origin = js ''http://nas'', href = js ''http://nas/''\<rparr>"

definition sample_env :: url_env where
  "sample_env = \<lparr>parseURL = \<lambda>s. Some sample_url, setRoute = \<lambda>u p q. js ''http://nas/live?viewer=1''\<rparr>"

definition sample_status :: jsval where
  "sample_status = JObject [(js ''configured'', JBool True), (js ''connection'', JString (js ''online'')),
     (js ''autoStart'', JBool True), (js ''leaseAvailable'', JBool True),
     (js ''config'', JObject [(js ''serverUrl'', JString (js ''http://nas''))])]"

definition sample_lease :: jsval where
  "sample_lease = JObject [(js ''leaseId'', JString (js ''a'')), (js ''heartbeatSeconds'', JNumber (Num 5))]"

definition sample_run :: "main_input list" where
  "sample_run = [Launch True False, Settle 0 (Resolved JUndefined), Settle 1 (Resolved sample_status),
     Settle 2 (Resolved sample_lease), Settle 3 (Resolved JUndefined),
     CommandArrived 0 (ResubscribeStream (js ''front'') (js ''k''))]"

lemmas live_simps = main_simps call_def conn_open_def after_status_def startupAction_def isViewerStatus_def showLive_def
  after_lease_def isLeaseGrant_def is_int_value_def live_go_def viewerURL_def reportDiagnostic_def begin_live_def
  startHeartbeat_def pulse_def cancelScheduledReconnect_def announce_live_def load_live_def grant_of_def
  liveDocumentLoadAction_def reportManagementRecovery_def executeViewerCommand_def sendRendererCommand_def map_keys_def
  send_page_def sample_env_def sample_status_def sample_lease_def sample_url_def

lemma sample_waits:
  "tasks (main_run sample_env sample_run initial_viewer) = [(4, AwaitRenderer 0 \<lparr>grantLease = js ''a'', grantSeconds = 5, grantNo = 0\<rparr> (js ''k''))]
   \<and> \<not> exited (main_run sample_env sample_run initial_viewer)"
  by (simp add: sample_run_def live_simps)

lemma renderer_command_settled_once_witness:
  "(4, False) \<in> set (rendererSettled (main_exec sample_env (RendererTimeout (js ''k''))
     (main_run sample_env sample_run initial_viewer)))"
proof -
  let ?s = "main_run sample_env sample_run initial_viewer"
  have only: "map_of (rendererCommandResults ?s) k = Some 4 \<Longrightarrow> k = js ''k''" for k
    by (simp add: sample_run_def live_simps split: if_splits)
  obtain k where "map_of (rendererCommandResults ?s) k = Some 4"
    and "exited ?s \<or> (4, False) \<in> set (rendererSettled (main_exec sample_env (RendererTimeout k) ?s))"
    using renderer_command_settled_once [of sample_env sample_run, unfolded Let_def] sample_waits by auto
  with only sample_waits show ?thesis by auto
qed

end
