(* ===== verification/ViewerOutage.thy ===== *)
theory ViewerOutage
  imports ViewerProps
begin

text \<open>
  An outage of the management service while a live picture is shown: the invariant \<open>outage_ok\<close> says
  that the window keeps its document, that nothing asks to quit, and that at most one attempt to
  reconnect is under way at a time. \<open>leaked\<close> is the opposite situation: a connection that two
  overlapping attempts have left open and that nothing will close; with a first configuration such
  attempts even lose the reconnection timer. At the end, the requests of the page and their answers.
\<close>

section \<open>The document stays through an outage\<close>

fun is_flow :: "task \<Rightarrow> bool" where
  "is_flow (AwaitConnect auto lv reply) = True"
| "is_flow (AwaitStatus c auto lv reply) = True"
| "is_flow (AwaitLease c k status preserve) = True"
| "is_flow t = False"

fun harmless :: "task \<Rightarrow> bool" where
  "harmless (AwaitReport c g key succeeded errorCode relaunch) = (\<not> relaunch)"
| "harmless (AwaitReload c g key) = True"
| "harmless (AwaitRenderer c g key) = True"
| "harmless t = False"

definition flow :: "viewer \<Rightarrow> task list" where
  "flow s = filter is_flow (map snd (tasks s))"

text \<open>The server of a status is the one whose page is shown (or its URL is refused).\<close>

definition same_server :: "url_env \<Rightarrow> jsstring \<Rightarrow> jsval \<Rightarrow> bool" where
  "same_server env u status \<longleftrightarrow> truthy (jget status (js ''config''))
     \<and> (case viewerURL env (string_of (jget (jget status (js ''config'')) (js ''serverUrl''))) of
          Inl e \<Rightarrow> True | Inr u' \<Rightarrow> u' = u)"

definition showing :: "url_env \<Rightarrow> jsstring \<Rightarrow> document list \<Rightarrow> viewer \<Rightarrow> bool" where
  "showing env u ds s \<longleftrightarrow>
     (case window s of None \<Rightarrow> False
        | Some w \<Rightarrow> \<not> destroyed w \<and> loads w = ds \<and> isNavigationAllowed env (shownURL w) u)
     \<and> currentLiveURL s = u \<and> u \<noteq> [] \<and> \<not> setupVisible s \<and> \<not> explicitShutdown s \<and> \<not> quitRequested s \<and> \<not> exited s
     \<and> (\<forall>it \<in> set (tasks s). is_flow (snd it) \<or> harmless (snd it))"

definition reattaching :: "url_env \<Rightarrow> jsstring \<Rightarrow> nat \<Rightarrow> task \<Rightarrow> bool" where
  "reattaching env u c t \<longleftrightarrow>
     (\<exists>auto reply. t = AwaitStatus c auto True reply)
     \<or> (\<exists>reply status. t = AwaitLease c (FromConnect c True reply) status True \<and> same_server env u status)"

text \<open>Idle (connected, or a timer runs), connecting, reattaching, or about to be rejected.\<close>

definition flow_ok :: "url_env \<Rightarrow> jsstring \<Rightarrow> viewer \<Rightarrow> bool" where
  "flow_ok env u s \<longleftrightarrow>
     (flow s = [] \<and> (connection s = None \<longleftrightarrow> reconnectTimer s \<noteq> None))
     \<or> (\<exists>auto reply. flow s = [AwaitConnect auto True reply] \<and> connection s = None \<and> reconnectTimer s = None)
     \<or> (\<exists>c t. flow s = [t] \<and> reattaching env u c t \<and> reconnectTimer s = None \<and> connection s = Some c \<and> conn_open c s)
     \<or> (\<exists>c t. flow s = [t] \<and> reattaching env u c t \<and> reconnectTimer s \<noteq> None \<and> connection s = None \<and> \<not> conn_open c s)"

definition outage_ok :: "url_env \<Rightarrow> jsstring \<Rightarrow> document list \<Rightarrow> viewer \<Rightarrow> bool" where
  "outage_ok env u ds s \<longleftrightarrow> showing env u ds s \<and> flow_ok env u s"

text \<open>What may happen meanwhile.\<close>

fun outage_input :: "url_env \<Rightarrow> jsstring \<Rightarrow> main_input \<Rightarrow> bool" where
  "outage_input env u (Settle i (Resolved v)) = (isViewerStatus v \<longrightarrow> same_server env u v)"
| "outage_input env u (Settle i (Rejected e)) = True"
| "outage_input env u (PipeFailed c e) = True"
| "outage_input env u ReconnectTimerFires = True"
| "outage_input env u HeartbeatFires = True"
| "outage_input env u (HeartbeatAnswered n) = True"
| "outage_input env u (RendererMessage v) = True"
| "outage_input env u (StreamMessage v) = True"
| "outage_input env u (DiagnosticMessage v) = True"
| "outage_input env u (ClockAt t) = True"
| "outage_input env u SetupStateRequest = True"
| "outage_input env u i = False"

lemma flow_add [simp]: "flow (add_task t s) = flow s @ (if is_flow t then [t] else [])"
  by (simp add: flow_def)

lemma flow_same: "tasks s' = tasks s \<Longrightarrow> flow s' = flow s"
  by (simp add: flow_def)

lemma flow_drop_other: "\<not> is_flow t \<Longrightarrow> flow (drop_task (i, t) s) = flow s"
  unfolding flow_def drop_task_def
  by (simp add: filter_map filter_filter o_def) (rule arg_cong [of _ _ "map snd"], rule filter_cong, auto)

lemma flow_drop:
  assumes "flow s = [t]" and "(i, t) \<in> set (tasks s)" and "is_flow t"
  shows "flow (drop_task (i, t) s) = []"
proof -
  from assms(1) obtain it where it: "filter (is_flow \<circ> snd) (tasks s) = [it]" "snd it = t"
    by (auto simp: flow_def filter_map map_eq_Cons_conv)
  have "(i, t) \<in> set (filter (is_flow \<circ> snd) (tasks s))" using assms(2,3) by simp
  then have it': "it = (i, t)" by (simp add: it(1))
  have "filter (\<lambda>jt. jt \<noteq> (i, t)) (filter (is_flow \<circ> snd) (tasks s)) = []" by (simp add: it(1) it')
  then have "filter (is_flow \<circ> snd) (filter (\<lambda>jt. jt \<noteq> (i, t)) (tasks s)) = []"
    by (simp add: conj_commute)
  then show ?thesis by (simp add: flow_def drop_task_def filter_map)
qed

lemma showing_live: "showing env u ds s \<Longrightarrow> hasCurrentLiveDocument env s"
  by (auto simp: showing_def hasCurrentLiveDocument_def split: option.splits)

lemma showing_same:
  "showing env u ds s \<Longrightarrow> window s' = window s \<Longrightarrow> currentLiveURL s' = currentLiveURL s \<Longrightarrow>
   setupVisible s' = setupVisible s \<Longrightarrow> explicitShutdown s' = explicitShutdown s \<Longrightarrow>
   quitRequested s' = quitRequested s \<Longrightarrow> exited s' = exited s \<Longrightarrow>
   tasks s' = tasks s \<or> (\<exists>n t. tasks s' = tasks s @ [(n, t)] \<and> (is_flow t \<or> harmless t)) \<Longrightarrow> showing env u ds s'"
  by (auto simp: showing_def)

lemma showing_drop: "showing env u ds s \<Longrightarrow> showing env u ds (drop_task it s)"
  by (auto simp: showing_def drop_task_def)

text \<open>A step that only touches the requests, the heartbeat or the diagnostics.\<close>

lemma outage_same:
  "outage_ok env u ds s \<Longrightarrow> window s' = window s \<Longrightarrow> currentLiveURL s' = currentLiveURL s \<Longrightarrow>
   setupVisible s' = setupVisible s \<Longrightarrow> explicitShutdown s' = explicitShutdown s \<Longrightarrow>
   quitRequested s' = quitRequested s \<Longrightarrow> exited s' = exited s \<Longrightarrow> tasks s' = tasks s \<Longrightarrow>
   connection s' = connection s \<Longrightarrow> reconnectTimer s' = reconnectTimer s \<Longrightarrow>
   (\<And>c. conn_open c s' = conn_open c s) \<Longrightarrow> outage_ok env u ds s'"
  using showing_same [of env u ds s s'] flow_same [of s' s] by (simp add: outage_ok_def flow_ok_def)

text \<open>Giving up an attempt: no connection is left, a timer runs.\<close>

lemma outage_idle:
  "showing env u ds s \<Longrightarrow> flow s = [] \<Longrightarrow> connection s = None \<Longrightarrow>
   outage_ok env u ds (finish reply (scheduleReconnect s))"
proof -
  assume s: "showing env u ds s" "flow s = []" "connection s = None"
  have "showing env u ds (finish reply (scheduleReconnect s))"
    by (rule showing_same [OF s(1)]) simp_all
  moreover have "reconnectTimer (scheduleReconnect s) \<noteq> None"
    using schedule_timer [of s] s(1) by (auto simp: showing_def)
  moreover have "flow (finish reply (scheduleReconnect s)) = []" using s(2) by (simp add: flow_def)
  ultimately show ?thesis using s(3) by (simp add: outage_ok_def flow_ok_def)
qed

lemma outage_caught:
  assumes s: "showing env u ds s" "flow s = []" and c: "d = None \<and> connection s = None \<or> d \<noteq> None \<and> connection s \<in> {None, d}"
  shows "outage_ok env u ds (connect_catch env d True reply e s)"
proof -
  have "showing env u ds (abandon_attempt d e s)" by (rule showing_same [OF s(1)]) simp_all
  moreover have "flow (abandon_attempt d e s) = []" using s(2) by (simp add: flow_def)
  moreover have "connection (abandon_attempt d e s) = None"
    using c by (auto simp: abandon_attempt_def split: option.split)
  ultimately show ?thesis using outage_idle by (simp add: connect_catch_def Let_def)
qed

lemma outage_given_up:
  assumes s: "showing env u ds s" "flow s = []" and c: "connection s \<in> {None, Some c}"
  shows "outage_ok env u ds (finish reply (give_up_connection c (s\<lparr>currentStatus := v\<rparr>)))"
proof -
  let ?s = "close_conn (Some c) (if connection s = Some c then s\<lparr>currentStatus := v, connection := None\<rparr> else s\<lparr>currentStatus := v\<rparr>)"
  have "showing env u ds ?s" by (rule showing_same [OF s(1)]) simp_all
  moreover have "flow ?s = []" using s(2) by (simp add: flow_def)
  moreover have "connection ?s = None" using c by auto
  ultimately have "outage_ok env u ds (finish reply (scheduleReconnect ?s))" by (rule outage_idle)
  then show ?thesis by (simp add: give_up_connection_def if_distrib cong: if_cong)
qed

lemma outage_live_go:
  assumes s: "showing env u ds s" "flow s = []" and c: "connection s = Some c" "reconnectTimer s = None"
    and st: "same_server env u status"
  shows "outage_ok env u ds (live_go env (FromConnect c True reply) status True s)"
proof (cases "viewerURL env (string_of (jget (jget status (js ''config'')) (js ''serverUrl'')))")
  case (Inl e)
  then show ?thesis using outage_caught [OF s, of "Some c"] c by (simp add: live_go_def)
next
  case (Inr u')
  with st have u': "u' = u" by (simp add: same_server_def)
  have here: "hasCurrentLiveDocument env s" "currentLiveURL s = u"
    using s(1) by (auto simp: showing_live) (simp add: showing_def)
  have b: "showing env u ds (begin_live u s)" by (rule showing_same [OF s(1)]) (simp_all add: here)
  have f: "flow (begin_live u s) = []" using s(2) by (simp add: flow_def)
  show ?thesis
  proof (cases "lease s")
    case None
    with Inr u' c outage_caught [OF b f, of "Some c"] show ?thesis by (simp add: live_go_def Let_def)
  next
    case (Some g)
    let ?s = "finish reply ((keep_document (announce_live c g (begin_live u s)))\<lparr>reconnectAttempt := 0\<rparr>)"
    have "showing env u ds ?s"
      by (rule showing_same [OF b]) (use s(1) in \<open>auto simp: announce_live_def showing_def\<close>)
    moreover have "flow ?s = []" using f by (simp add: flow_def)
    ultimately have "outage_ok env u ds ?s" using c by (simp add: outage_ok_def flow_ok_def)
    with Inr u' c Some here show ?thesis by (simp add: live_go_def liveDocumentLoadAction_def Let_def)
  qed
qed

lemma outage_showLive:
  assumes s: "showing env u ds s" "flow s = []" and c: "connection s = Some c" "conn_open c s" "reconnectTimer s = None"
    and st: "same_server env u status"
  shows "outage_ok env u ds (showLive env (FromConnect c True reply) status True s)"
proof (cases "lease s")
  case None
  let ?s = "add_task (AwaitLease c (FromConnect c True reply) status True) (call c AcquireLease s)"
  have "showing env u ds ?s" by (rule showing_same [OF s(1)]) simp_all
  moreover have "flow (call c AcquireLease s) = []" using s(2) by (simp add: flow_def)
  ultimately have "outage_ok env u ds ?s" using c st by (auto simp: outage_ok_def flow_ok_def reattaching_def)
  with None c st show ?thesis by (simp add: showLive_def same_server_def)
next
  case (Some g)
  with c outage_live_go [OF s c(1) c(3) st] st show ?thesis by (simp add: showLive_def same_server_def)
qed

lemma outage_status:
  assumes s: "showing env u ds s" "flow s = []"
    and c: "connection s = Some c \<and> conn_open c s \<and> reconnectTimer s = None \<or> connection s = None \<and> (\<exists>e. answer = Rejected e)"
    and st: "\<And>v. answer = Resolved v \<Longrightarrow> isViewerStatus v \<Longrightarrow> same_server env u v"
  shows "outage_ok env u ds (after_status env c auto True reply answer s)"
proof (cases "call_result GetStatus answer")
  case (Inl e)
  with outage_caught [OF s, of "Some c"] c show ?thesis by (auto simp: after_status_def)
next
  case (Inr v)
  then have v: "answer = Resolved v" "isViewerStatus v" by (cases answer; simp split: if_splits)+
  with c have c': "connection s = Some c" "conn_open c s" "reconnectTimer s = None" by auto
  have "showing env u ds (s\<lparr>currentStatus := v\<rparr>)" by (rule showing_same [OF s(1)]) simp_all
  moreover have "flow (s\<lparr>currentStatus := v\<rparr>) = []" using s(2) by (simp add: flow_def)
  ultimately have "outage_ok env u ds (showLive env (FromConnect c True reply) v True (s\<lparr>currentStatus := v\<rparr>))"
    by (rule outage_showLive) (use c' st [OF v] in simp_all)
  with Inr outage_given_up [OF s] c' show ?thesis
    by (simp add: after_status_def Let_def split: startup_action.split)
qed

lemma outage_lease:
  assumes s: "showing env u ds s" "flow s = []"
    and c: "connection s = Some c \<and> conn_open c s \<and> reconnectTimer s = None \<or> connection s = None \<and> (\<exists>e. answer = Rejected e)"
    and st: "same_server env u status"
  shows "outage_ok env u ds (after_lease env (FromConnect c True reply) status True answer s)"
proof (cases "call_result AcquireLease answer")
  case (Inl e)
  with outage_caught [OF s, of "Some c"] c show ?thesis by (auto simp: after_lease_def)
next
  case (Inr v)
  then have c': "connection s = Some c" "conn_open c s" "reconnectTimer s = None" using c by (cases answer; auto)+
  let ?s = "reportDiagnostic (main_diagnostic ''info'' ''viewer.main'' ''lease_acquired'' ''running'' [])
              (s\<lparr>lease := Some (grant_of v (grants s)), grants := Suc (grants s)\<rparr>)"
  have "showing env u ds ?s" by (rule showing_same [OF s(1)]) simp_all
  moreover have "flow ?s = []" using s(2) by (simp add: flow_def)
  ultimately have "outage_ok env u ds (live_go env (FromConnect c True reply) status True ?s)"
    by (rule outage_live_go) (use c' st in simp_all)
  with Inr show ?thesis by (simp add: after_lease_def)
qed

lemma outage_connect:
  assumes s: "showing env u ds s" "flow s = []" and c: "connection s = None" "reconnectTimer s = None"
  shows "outage_ok env u ds (after_connect env auto True reply answer s)"
proof (cases answer)
  case (Rejected e)
  with outage_caught [OF s, of None] c show ?thesis by (simp add: after_connect_def)
next
  case (Resolved v)
  let ?s = "s\<lparr>conns := conns s @ [\<lparr>connEnd = None, calls = []\<rparr>], connection := Some (length (conns s))\<rparr>"
  have "showing env u ds (add_task (AwaitStatus (length (conns s)) auto True reply) (call (length (conns s)) GetStatus ?s))"
    by (rule showing_same [OF s(1)]) simp_all
  moreover have "flow (call (length (conns s)) GetStatus ?s) = []" using s(2) by (simp add: flow_def)
  moreover have "conn_open (length (conns s)) ?s" by (simp add: conn_open_def)
  ultimately show ?thesis
    using Resolved c by (auto simp: after_connect_def Let_def outage_ok_def flow_ok_def reattaching_def)
qed

text \<open>A continuation of the flow, and one that is none of its business.\<close>

lemma outage_flow_task:
  assumes ok: "outage_ok env u ds s" and mem: "(i, t) \<in> set (tasks s)" and t: "is_flow t"
    and run: "\<not> rejected_task s (i, t) \<or> (\<exists>e. answer = Rejected e)"
    and st: "\<And>v. answer = Resolved v \<Longrightarrow> isViewerStatus v \<Longrightarrow> same_server env u v"
  shows "outage_ok env u ds (resume_task env t answer (drop_task (i, t) s))"
proof -
  let ?s = "drop_task (i, t) s"
  have "t \<in> set (flow s)" using mem t by (force simp: flow_def)
  then have f: "flow s = [t]" using ok by (auto simp: outage_ok_def flow_ok_def)
  have s: "showing env u ds ?s" using ok showing_drop by (simp add: outage_ok_def)
  have e: "flow ?s = []" by (rule flow_drop [OF f mem t])
  from ok f consider
      (connecting) auto reply where "t = AwaitConnect auto True reply" "connection s = None" "reconnectTimer s = None"
    | (status) c auto reply where "t = AwaitStatus c auto True reply"
        "connection s = Some c \<and> conn_open c s \<and> reconnectTimer s = None \<or> connection s = None \<and> \<not> conn_open c s"
    | (lease) c reply st where "t = AwaitLease c (FromConnect c True reply) st True" "same_server env u st"
        "connection s = Some c \<and> conn_open c s \<and> reconnectTimer s = None \<or> connection s = None \<and> \<not> conn_open c s"
    by (auto simp: outage_ok_def flow_ok_def reattaching_def)
  then show ?thesis
  proof cases
    case connecting
    with outage_connect [OF s e] show ?thesis by (simp add: resume_task_def)
  next
    case status
    with run have "connection ?s = Some c \<and> conn_open c ?s \<and> reconnectTimer ?s = None \<or> connection ?s = None \<and> (\<exists>e. answer = Rejected e)"
      by (auto simp: rejected_task_def)
    from outage_status [OF s e this st] status(1) show ?thesis by (simp add: resume_task_def)
  next
    case lease
    with run have "connection ?s = Some c \<and> conn_open c ?s \<and> reconnectTimer ?s = None \<or> connection ?s = None \<and> (\<exists>e. answer = Rejected e)"
      by (auto simp: rejected_task_def)
    from outage_lease [OF s e this lease(2)] lease(1) show ?thesis by (simp add: resume_task_def)
  qed
qed

lemma outage_drop:
  assumes ok: "outage_ok env u ds s" and t: "\<not> is_flow t"
  shows "outage_ok env u ds (drop_task (i, t) s)"
  using ok flow_drop_other [OF t, of i s] showing_drop [of env u ds s "(i, t)"]
  by (simp add: outage_ok_def flow_ok_def)

lemma outage_harmless_add:
  assumes ok: "outage_ok env u ds s" and t: "harmless t" "\<not> is_flow t"
  shows "outage_ok env u ds (add_task t s)"
proof -
  have "showing env u ds (add_task t s)"
    by (rule showing_same) (use ok t in \<open>auto simp: outage_ok_def\<close>)
  then show ?thesis using ok t(2) by (simp add: outage_ok_def flow_ok_def)
qed

lemma outage_report: "outage_ok env u ds s \<Longrightarrow> outage_ok env u ds (report_command c g key ok code False s)"
  unfolding report_command_def
  by (rule outage_harmless_add, rule outage_same, assumption) simp_all

lemma outage_other_task:
  assumes ok: "outage_ok env u ds s" and t: "harmless t" "\<not> is_flow t"
  shows "outage_ok env u ds (resume_task env t answer s)"
proof (cases t)
  case (AwaitReload c g key)
  with outage_report [OF ok] show ?thesis
    by (simp add: resume_task_def command_failed_def split: sum.split)
next
  case (AwaitReport c g key succeeded errorCode relaunch)
  have "outage_ok env u ds (reportDiagnostic d s)" for d by (rule outage_same [OF ok]) simp_all
  with AwaitReport t ok show ?thesis
    by (simp add: resume_task_def after_report_def Let_def split: sum.split)
qed (use t ok in \<open>auto simp: resume_task_def\<close>)

lemma outage_resume:
  assumes ok: "outage_ok env u ds s" and mem: "(i, t) \<in> set (tasks s)"
    and run: "\<not> rejected_task s (i, t) \<or> (\<exists>e. answer = Rejected e)"
    and st: "\<And>v. answer = Resolved v \<Longrightarrow> isViewerStatus v \<Longrightarrow> same_server env u v"
  shows "outage_ok env u ds (resume_task env t answer (drop_task (i, t) s))"
proof (cases "is_flow t")
  case True
  then show ?thesis using outage_flow_task [OF ok mem _ run st] by blast
next
  case False
  with ok mem have "harmless t" by (auto simp: outage_ok_def showing_def)
  with outage_other_task [OF outage_drop [OF ok False] _ False] show ?thesis by blast
qed

lemma outage_drain: "outage_ok env u ds s \<Longrightarrow> outage_ok env u ds (drain env s)"
proof (induction env s rule: drain.induct)
  case (1 env s)
  show ?case
  proof (cases "find (rejected_task s) (tasks s)")
    case None
    with 1 show ?thesis by (simp add: drain.simps)
  next
    case (Some it)
    obtain i t where it: "it = (i, t)" by (cases it)
    with Some have mem: "(i, t) \<in> set (tasks s)" by (auto simp: find_Some_iff)
    obtain e where e: "rejection s t = Rejected e" using rejection_is_rejected by blast
    have "outage_ok env u ds (resume_task env t (rejection s t) (drop_task (i, t) s))"
      by (rule outage_resume [OF 1(2) mem]) (simp_all add: e)
    with 1(1) [OF Some it [symmetric]] show ?thesis using Some it by (simp add: drain.simps [of env s])
  qed
qed

lemma outage_disconnect:
  assumes ok: "outage_ok env u ds s" and quiet: "find (rejected_task s) (tasks s) = None" and o: "conn_open c s"
  shows "outage_ok env u ds (on_disconnect env c e (end_conn c e s))"
proof (cases "connection s = Some c")
  case False
  with ok show ?thesis by (auto simp: on_disconnect_def outage_ok_def flow_ok_def flow_def showing_def)
next
  case True
  let ?s = "stopHeartbeat ((observeManagementOutage e (end_conn c e s))\<lparr>connection := None, lease := None\<rparr>)"
  have s: "showing env u ds ?s" by (rule showing_same) (use ok in \<open>auto simp: outage_ok_def\<close>)
  then have here: "hasCurrentLiveDocument env ?s" by (rule showing_live)
  have out: "on_disconnect env c e (end_conn c e s) = scheduleReconnect ?s"
    using True here s by (simp add: on_disconnect_def disconnectAction_def showing_def)
  have t: "reconnectTimer (scheduleReconnect ?s) \<noteq> None" using schedule_timer [of ?s] s by (auto simp: showing_def)
  have f: "flow (scheduleReconnect ?s) = flow s" by (simp add: flow_def)
  have "showing env u ds (scheduleReconnect ?s)" by (rule showing_same [OF s]) simp_all
  moreover have "flow_ok env u (scheduleReconnect ?s)"
    using ok True t f by (auto simp: outage_ok_def flow_ok_def)
  ultimately show ?thesis by (simp add: out outage_ok_def)
qed

lemma outage_timer:
  assumes ok: "outage_ok env u ds s" and quiet: "find (rejected_task s) (tasks s) = None" and t: "reconnectTimer s \<noteq> None"
  shows "outage_ok env u ds (connectAndShow env False False (s\<lparr>reconnectTimer := None\<rparr>))"
proof -
  have rej: "\<not> (flow s = [x] \<and> reattaching env u c x \<and> \<not> conn_open c s)" for c x
  proof
    assume x: "flow s = [x] \<and> reattaching env u c x \<and> \<not> conn_open c s"
    then have "x \<in> set (flow s)" by simp
    then obtain i where i: "(i, x) \<in> set (tasks s)" by (auto simp: flow_def)
    from x have "rejected_task s (i, x)" by (auto simp: reattaching_def rejected_task_def)
    with not_rejected [OF quiet i] show False by simp
  qed
  have idle: "flow s = []" "connection s = None"
    using ok t rej by (auto simp: outage_ok_def flow_ok_def)
  let ?s = "stopHeartbeat (s\<lparr>reconnectTimer := None\<rparr>)\<lparr>connection := None, lease := None\<rparr>"
  have here: "hasCurrentLiveDocument env (s\<lparr>reconnectTimer := None\<rparr>)"
    by (rule showing_live, rule showing_same) (use ok in \<open>auto simp: outage_ok_def\<close>)
  have "showing env u ds (add_task (AwaitConnect False True False) ?s)"
    by (rule showing_same) (use ok in \<open>auto simp: outage_ok_def\<close>)
  moreover have "flow ?s = []" using idle by (simp add: flow_def)
  ultimately have "outage_ok env u ds (add_task (AwaitConnect False True False) ?s)"
    by (auto simp: outage_ok_def flow_ok_def)
  then show ?thesis using here idle by (simp add: connectAndShow_def close_conn_def Let_def)
qed

lemma outage_step:
  assumes ok: "outage_ok env u ds s" and quiet: "find (rejected_task s) (tasks s) = None" and i: "outage_input env u i"
  shows "outage_ok env u ds (main_step env i s)"
proof -
  have settled: "outage_ok env u ds (settle env j answer s)"
    if "\<And>v. answer = Resolved v \<Longrightarrow> isViewerStatus v \<Longrightarrow> same_server env u v" for j answer
  proof (cases "map_of (tasks s) j")
    case (Some t)
    then have mem: "(j, t) \<in> set (tasks s)" by (rule map_of_SomeD)
    with outage_resume [OF ok mem _ that] not_rejected [OF quiet mem] Some ok show ?thesis
      by (simp add: settle_def)
  qed (use ok in \<open>simp add: settle_def\<close>)
  show ?thesis
  proof (cases i)
    case (Settle j answer)
    with settled [of answer j] i show ?thesis by (cases answer) simp_all
  next
    case (PipeFailed c e)
    with ok outage_disconnect [OF ok quiet] show ?thesis by (simp add: pipe_failed_def)
  next
    case ReconnectTimerFires
    with ok outage_timer [OF ok quiet] show ?thesis by simp
  next
    case (StreamMessage v)
    show ?thesis by (rule outage_same [OF ok]) (simp_all add: StreamMessage split: option.split)
  next
    case HeartbeatFires
    show ?thesis by (rule outage_same [OF ok]) (simp_all add: HeartbeatFires)
  next
    case (HeartbeatAnswered n)
    show ?thesis by (rule outage_same [OF ok]) (simp_all add: HeartbeatAnswered)
  next
    case (RendererMessage v)
    show ?thesis by (rule outage_same [OF ok]) (simp_all add: RendererMessage)
  next
    case (DiagnosticMessage v)
    show ?thesis by (rule outage_same [OF ok]) (simp_all add: DiagnosticMessage)
  next
    case (ClockAt t)
    show ?thesis by (rule outage_same [OF ok]) (simp_all add: ClockAt)
  next
    case SetupStateRequest
    show ?thesis by (rule outage_same [OF ok]) (simp_all add: SetupStateRequest)
  qed (use i in simp_all)
qed

lemma outage_run:
  "outage_ok env u ds s \<Longrightarrow> find (rejected_task s) (tasks s) = None \<Longrightarrow> \<forall>i \<in> set ins. outage_input env u i \<Longrightarrow>
   outage_ok env u ds (main_run env ins s) \<and> find (rejected_task (main_run env ins s)) (tasks (main_run env ins s)) = None"
  unfolding main_run_def
proof (induction ins arbitrary: s)
  case (Cons i ins)
  have "\<not> exited s" using Cons.prems(1) by (simp add: outage_ok_def showing_def)
  moreover have "outage_ok env u ds (drain env (main_step env i s))"
    using Cons.prems by (intro outage_drain outage_step) auto
  ultimately show ?case using Cons drained by (simp add: main_exec_def)
qed simp

section \<open>A connection that overlapping attempts have lost\<close>

fun gives_up :: "nat \<Rightarrow> task \<Rightarrow> bool" where
  "gives_up c (AwaitStatus c' auto lv reply) = (c' = c \<and> lv)"
| "gives_up c t = False"

definition leaked :: "nat \<Rightarrow> viewer \<Rightarrow> bool" where
  "leaked c s \<longleftrightarrow> conn_open c s \<and> connection s \<noteq> Some c \<and> (\<forall>it \<in> set (tasks s). \<not> gives_up c (snd it))"

lemma leaked_step:
  "leaked c s \<Longrightarrow> (conn_open c s \<longrightarrow> conn_open c s') \<Longrightarrow> connection s' \<in> {connection s, None} \<Longrightarrow>
   (\<forall>it \<in> set (tasks s'). it \<in> set (tasks s) \<or> \<not> gives_up c (snd it)) \<Longrightarrow> leaked c s'"
  by (auto simp: leaked_def)

lemma leaked_same [simp]:
  "leaked c (finish reply s) = leaked c s" "leaked c (scheduleReconnect s) = leaked c s" "leaked c (quit s) = leaked c s"
  "leaked c (reportDiagnostic v s) = leaked c s" "leaked c (reportRenderer v s) = leaked c s"
  "leaked c (pulse s) = leaked c s" "leaked c (heartbeat_answered n s) = leaked c s" "leaked c (call x pc s) = leaked c s"
  "leaked c (s\<lparr>replies := r\<rparr>) = leaked c s" "leaked c (s\<lparr>currentStatus := v\<rparr>) = leaked c s"
  "leaked c (s\<lparr>clock := t\<rparr>) = leaked c s" "leaked c (s\<lparr>window := w\<rparr>) = leaked c s"
  "leaked c (s\<lparr>rendererCommandResults := m\<rparr>) = leaked c s" "leaked c (s\<lparr>rendererSettled := rr\<rparr>) = leaked c s"
  "leaked c (s\<lparr>nextTask := n\<rparr>) = leaked c s" "leaked c (s\<lparr>reconnectTimer := f\<rparr>) = leaked c s"
  "leaked c (send_page pm s) = leaked c s" "leaked c (s\<lparr>reconnectAttempt := q\<rparr>) = leaked c s"
  by (simp_all add: leaked_def)

lemma leaked_showSetup: "leaked c s \<Longrightarrow> leaked c (showSetup k status s)"
  by (erule leaked_step) (auto simp: showSetup_def Let_def)

lemma leaked_connect_catch: "leaked c s \<Longrightarrow> leaked c (connect_catch env d lv reply e s)"
proof -
  assume s: "leaked c s"
  have "leaked c (abandon_attempt d e s)"
    by (rule leaked_step [OF s]) (use s in \<open>auto simp: leaked_def abandon_attempt_def split: option.split\<close>)
  then show ?thesis using leaked_showSetup by (simp add: connect_catch_def Let_def)
qed

lemma leaked_returned_err: "leaked c s \<Longrightarrow> leaked c (returned_err env k e s)"
  by (cases k) (auto intro: leaked_connect_catch)

lemma leaked_live_go: "leaked c s \<Longrightarrow> leaked c (live_go env k status preserve s)"
proof -
  assume s: "leaked c s"
  have b: "leaked c (begin_live u s)" for u by (rule leaked_step [OF s]) (use s in \<open>auto simp: leaked_def\<close>)
  have "leaked c (returned_ok k (keep_document (announce_live x g (begin_live u s))))" for x g u
    by (rule leaked_step [OF b [of u]]) (use s in \<open>auto simp: leaked_def\<close>)
  moreover have "leaked c (add_task (AwaitLiveLoad k) (load_live u (announce_live x g (begin_live u s))))" for x g u
    by (rule leaked_step [OF b [of u]]) (use s in \<open>auto simp: leaked_def\<close>)
  ultimately show ?thesis using s b leaked_returned_err
    by (simp add: live_go_def Let_def split: sum.split option.split)
qed

lemma leaked_showLive: "leaked c s \<Longrightarrow> leaked c (showLive env k status preserve s)"
proof -
  assume s: "leaked c s"
  have "leaked c (add_task (AwaitLease x k status preserve) (call x AcquireLease s))" for x
    by (rule leaked_step [OF s]) (use s in \<open>auto simp: leaked_def\<close>)
  then show ?thesis using s leaked_showSetup leaked_live_go by (simp add: showLive_def split: option.split)
qed

lemma leaked_report: "leaked c s \<Longrightarrow> leaked c (report_command x g key ok code rl s)"
  by (erule leaked_step) (auto simp: report_command_def)

lemma leaked_status: "leaked c s \<Longrightarrow> x \<noteq> c \<or> \<not> lv \<Longrightarrow> leaked c (after_status env x auto lv reply answer s)"
proof -
  assume s: "leaked c s" and x: "x \<noteq> c \<or> \<not> lv"
  have cs: "leaked c (s\<lparr>currentStatus := v\<rparr>)" for v using s by (simp add: leaked_def)
  have "leaked c (finish reply (give_up_connection x (s\<lparr>currentStatus := v\<rparr>)))" if lv for v
    by (rule leaked_step [OF s]) (use s x that in \<open>auto simp: leaked_def give_up_connection_def\<close>)
  moreover have "leaked c (finish reply (quit (s\<lparr>currentStatus := v\<rparr>)))" for v
    by (rule leaked_step [OF s]) (use s in \<open>auto simp: leaked_def\<close>)
  ultimately show ?thesis
    using leaked_connect_catch [OF s] leaked_showSetup [OF cs] leaked_showLive [OF cs]
    by (simp add: after_status_def Let_def split: sum.split startup_action.split)
qed

lemma leaked_resume:
  assumes s: "leaked c s" and t: "\<not> gives_up c t"
  shows "leaked c (resume_task env t answer s)"
proof (cases t)
  case (AwaitConnect auto lv reply)
  let ?s = "s\<lparr>conns := conns s @ [\<lparr>connEnd = None, calls = []\<rparr>], connection := Some (length (conns s))\<rparr>"
  have "leaked c ?s" using s by (auto simp: leaked_def conn_open_def nth_append)
  moreover have "leaked c s' \<Longrightarrow> x \<noteq> c \<Longrightarrow> leaked c (add_task (AwaitStatus x auto lv reply) s')" for x s'
    by (auto simp: leaked_def)
  moreover have "length (conns s) \<noteq> c" using s by (auto simp: leaked_def conn_open_def)
  ultimately have new: "leaked c (add_task (AwaitStatus (length (conns s)) auto lv reply) (call (length (conns s)) GetStatus ?s))"
    by simp
  with AwaitConnect leaked_connect_catch [OF s] show ?thesis
    by (simp add: resume_task_def after_connect_def Let_def split: outcome.split)
next
  case (AwaitStatus x auto lv reply)
  with t leaked_status [OF s] show ?thesis by (simp add: resume_task_def)
next
  case (AwaitLease x k status preserve)
  have "leaked c (reportDiagnostic d (s\<lparr>lease := l, grants := n\<rparr>))" for d l n
    by (rule leaked_step [OF s]) (use s in \<open>auto simp: leaked_def\<close>)
  moreover have "leaked c (returned_ok k (quit s))"
    by (rule leaked_step [OF s]) (use s in \<open>auto simp: leaked_def\<close>)
  ultimately show ?thesis using AwaitLease leaked_live_go leaked_returned_err [OF s]
    by (simp add: resume_task_def after_lease_def split: sum.split)
next
  case (AwaitSetupLoad k)
  have "leaked c (returned_ok k s)" using s by (simp add: leaked_def)
  with AwaitSetupLoad leaked_returned_err [OF s] show ?thesis by (simp add: resume_task_def split: sum.split)
next
  case (AwaitLiveLoad k)
  have "leaked c (returned_ok k (reportManagementRecovery (reportDiagnostic d s)))" for d using s by (simp add: leaked_def)
  with AwaitLiveLoad leaked_returned_err [OF s] show ?thesis by (simp add: resume_task_def split: sum.split)
next
  case (AwaitConfigure x d)
  have "leaked c (s\<lparr>currentStatus := v\<rparr>)" "leaked c (s\<lparr>replies := r\<rparr>)" for v r using s by (simp_all add: leaked_def)
  with AwaitConfigure leaked_showLive show ?thesis by (simp add: resume_task_def split: sum.split)
next
  case (AwaitReload x g key)
  with leaked_report [OF s] show ?thesis by (simp add: resume_task_def command_failed_def split: sum.split)
next
  case (AwaitReport x g key succeeded errorCode relaunch)
  with s show ?thesis
    by (simp add: resume_task_def after_report_def Let_def leaked_def split: sum.split)
qed (use s in \<open>simp add: resume_task_def\<close>)

lemma leaked_drop: "leaked c s \<Longrightarrow> leaked c (drop_task it s)"
  by (auto simp: leaked_def drop_task_def)

lemma leaked_settle: "leaked c s \<Longrightarrow> leaked c (settle env i answer s)"
proof (cases "map_of (tasks s) i")
  case (Some t)
  assume s: "leaked c s"
  from Some have "(i, t) \<in> set (tasks s)" by (rule map_of_SomeD)
  with s have "\<not> gives_up c t" by (auto simp: leaked_def)
  with leaked_resume [OF leaked_drop [OF s]] Some s show ?thesis by (simp add: settle_def)
qed (simp add: settle_def)

lemma leaked_drain: "leaked c s \<Longrightarrow> leaked c (drain env s)"
proof (induction env s rule: drain.induct)
  case (1 env s)
  show ?case
  proof (cases "find (rejected_task s) (tasks s)")
    case None
    with 1 show ?thesis by (simp add: drain.simps)
  next
    case (Some it)
    obtain i t where it: "it = (i, t)" by (cases it)
    with Some have "(i, t) \<in> set (tasks s)" by (auto simp: find_Some_iff)
    with 1(2) have "\<not> gives_up c t" by (auto simp: leaked_def)
    with leaked_resume [OF leaked_drop [OF 1(2)]] 1(1) [OF Some it [symmetric]] show ?thesis
      using Some it by (simp add: drain.simps [of env s])
  qed
qed

lemma leaked_connectAndShow: "leaked c s \<Longrightarrow> leaked c (connectAndShow env auto reply s)"
proof -
  assume s: "leaked c s"
  show ?thesis
    by (rule leaked_step [OF s]) (use s in \<open>auto simp: connectAndShow_def Let_def leaked_def\<close>)
qed

lemma leaked_execute: "leaked c s \<Longrightarrow> leaked c (executeViewerCommand x command s)"
proof -
  assume s: "leaked c s"
  have "leaked c (add_task (AwaitReload x g key) (load_document d (reportDiagnostic v s)))" for g key d v
    by (rule leaked_step [OF s]) auto
  moreover have "leaked c (add_task (AwaitRenderer x g key) (s'\<lparr>rendererCommandResults := m\<rparr>))" if "leaked c s'" for g key m s'
    by (rule leaked_step [OF that]) auto
  ultimately show ?thesis using s leaked_report
    by (simp add: executeViewerCommand_def command_failed_def sendRendererCommand_def Let_def
        split: option.split viewer_command.split)
qed

lemma leaked_settle_renderer: "leaked c s \<Longrightarrow> leaked c (settle_renderer i b s)"
  by (simp add: settle_renderer_def Let_def leaked_report leaked_drop split: option.split task.split)

lemma shut_down_results: "rendererCommandResults (shut_down s) = rendererCommandResults s"
  by (auto simp: shut_down_def Let_def split: option.split)

lemma leaked_fold: "leaked c s \<Longrightarrow> leaked c (fold (\<lambda>(key, i). settle_renderer i False) m s)"
  by (induction m arbitrary: s) (auto simp: leaked_settle_renderer)

lemma leaked_before_quit: "leaked c s \<Longrightarrow> leaked c (before_quit s)"
proof -
  assume s: "leaked c s"
  have "leaked c (shut_down s)"
    by (rule leaked_step [OF s]) (use s in \<open>auto simp: shut_down_def leaked_def Let_def split: option.split\<close>)
  then have "leaked c ((shut_down s)\<lparr>rendererCommandResults := []\<rparr>)" by simp
  from leaked_fold [OF this, of "rendererCommandResults s"] s show ?thesis by (simp add: before_quit_def shut_down_results)
qed

lemma leaked_main_step:
  assumes s: "leaked c s" and i: "\<not> (\<exists>e. i = PipeFailed c e)"
  shows "leaked c (main_step env i s)"
proof (cases i)
  case (PipeFailed x e)
  with i have x: "x \<noteq> c" by auto
  have e: "leaked c (end_conn x e s)" using s x by (simp add: leaked_def)
  have "leaked c (on_disconnect env x e s')" if "leaked c s'" for s'
  proof -
    have "leaked c (stopHeartbeat ((observeManagementOutage e s')\<lparr>connection := None, lease := None\<rparr>))"
      by (rule leaked_step [OF that]) simp_all
    with that leaked_showSetup show ?thesis by (simp add: on_disconnect_def Let_def split: disconnect_action.split)
  qed
  with e s PipeFailed show ?thesis by (simp add: pipe_failed_def)
next
  case (WindowEvent e)
  have "leaked c (on_window_event e w s)" for w using s by (cases e) simp_all
  with WindowEvent s show ?thesis by (simp split: option.split)
next
  case (CommandResultMessage own payload)
  with s leaked_settle_renderer show ?thesis
    by (simp add: command_result_message_def split: option.split jsval.split)
next
  case (ConfigureRequest d)
  have "leaked c (add_task (AwaitConfigure x d) s)" for x by (rule leaked_step [OF s]) auto
  moreover have "leaked c (add_task (AwaitConfigure x d) (call x (Configure d) s))" for x
    by (rule leaked_step [OF s]) auto
  ultimately show ?thesis using ConfigureRequest s by (simp split: option.split)
qed (use s leaked_settle leaked_connectAndShow leaked_execute leaked_settle_renderer leaked_before_quit leaked_showSetup in
      \<open>simp_all add: renderer_timeout_def split: option.split\<close>)

lemma leaked_main_run:
  "leaked c s \<Longrightarrow> \<forall>e. PipeFailed c e \<notin> set ins \<Longrightarrow> leaked c (main_run env ins s)"
  unfolding main_run_def
proof (induction ins arbitrary: s)
  case (Cons i ins)
  have "leaked c (main_step env i s)"
    by (rule leaked_main_step [OF Cons.prems(1)]) (use Cons.prems(2) in auto)
  with Cons.prems(1) leaked_drain have "leaked c (main_exec env i s)" by (simp add: main_exec_def)
  with Cons show ?case by simp
qed simp

section \<open>The properties\<close>

text \<open>C4: While a live picture is shown, an outage of the management service (its connection fails, attempts
  fail or succeed, requests are refused or answered, timers fire) never loads another document, hides the
  picture or asks to quit, and the service is always connected, being connected or waiting for a timer.\<close>

theorem outage_preserves_live:
  assumes live: "hasCurrentLiveDocument env s" "window s = Some w" "\<not> explicitShutdown s" "\<not> quitRequested s" "\<not> exited s"
    and calm: "tasks s = []" "connection s = Some c" "reconnectTimer s = None"
    and ins: "\<forall>i \<in> set ins. outage_input env (currentLiveURL s) i"
  shows "let t = main_run env ins s in
    hasCurrentLiveDocument env t \<and> map_option loads (window t) = Some (loads w)
    \<and> currentLiveURL t = currentLiveURL s \<and> \<not> quitRequested t
    \<and> (connection t \<noteq> None \<or> reconnectTimer t \<noteq> None \<or> flow t \<noteq> [])"
proof -
  let ?t = "main_run env ins s"
  have "outage_ok env (currentLiveURL s) (loads w) s"
    using live calm
    by (auto simp: outage_ok_def flow_ok_def flow_def showing_def hasCurrentLiveDocument_def split: if_splits)
  then have ok: "outage_ok env (currentLiveURL s) (loads w) ?t"
    using outage_run ins calm(1) by simp
  then have s: "showing env (currentLiveURL s) (loads w) ?t" by (simp add: outage_ok_def)
  from showing_live [OF s] s ok show ?thesis
    by (auto simp: Let_def showing_def outage_ok_def flow_ok_def split: option.splits)
qed

text \<open>An outage of four attempts: refused, cut off, answered without a lease, and successful.\<close>

definition sample_live :: viewer where
  "sample_live = initial_viewer\<lparr>
     window := Some (new_window\<lparr>shownURL := js ''http://nas/live?viewer=1'', loads := [LoadURL (js ''http://nas/live?viewer=1'')]\<rparr>),
     connection := Some 0, conns := [\<lparr>connEnd = None, calls = []\<rparr>], currentLiveURL := js ''http://nas/live?viewer=1''\<rparr>"

definition sample_outage :: "main_input list" where
  "sample_outage =
     [PipeFailed 0 (PlainError (js ''EPIPE'')), ReconnectTimerFires, Settle 0 (Rejected (PlainError (js ''ENOENT''))),
      ReconnectTimerFires, Settle 1 (Resolved JUndefined), PipeFailed 1 (PlainError (js ''EPIPE'')),
      ReconnectTimerFires, Settle 3 (Resolved JUndefined), Settle 4 (Resolved sample_status),
      Settle 5 (Rejected (ManagementRequestError (js ''lease_busy'') [])),
      ReconnectTimerFires, Settle 6 (Resolved JUndefined), Settle 7 (Resolved sample_status), Settle 8 (Resolved sample_lease)]"

lemma outage_preserves_live_witness:
  "map_option loads (window (main_run sample_env sample_outage sample_live)) = Some [LoadURL (js ''http://nas/live?viewer=1'')]"
  using outage_preserves_live [of sample_env sample_live _ 0 sample_outage]
  by (simp add: sample_live_def sample_outage_def hasCurrentLiveDocument_def initial_viewer_def new_window_def
      isNavigationAllowed_def sample_env_def sample_url_def isViewerStatus_def sample_status_def sample_lease_def
      same_server_def viewerURL_def Let_def)

text \<open>
  The service is not there at the start; the connection form is loaded and the timer is set; the
  user asks for a retry, and the timer fires before that attempt has an answer; both then connect.
\<close>

definition overlap :: "pipe_error \<Rightarrow> main_input list" where
  "overlap e = [Launch True False, Settle 0 (Rejected e), Settle 1 (Resolved JUndefined), RetryRequest,
     ReconnectTimerFires, Settle 2 (Resolved JUndefined), Settle 3 (Resolved JUndefined)]"

lemma main_run_append: "main_run env (xs @ ys) s = main_run env ys (main_run env xs s)"
  by (simp add: main_run_def)

lemma overlap_state:
  fixes env :: url_env and e :: pipe_error
  defines "s \<equiv> main_run env (overlap e) initial_viewer"
  shows "connection s = Some 1" and "lease s = None" and "\<not> exited s"
    and "tasks s = [(4, AwaitStatus 0 False False True), (5, AwaitStatus 1 False False False)]" and "nextTask s = 6"
    and "conns s = [\<lparr>connEnd = None, calls = [GetStatus]\<rparr>, \<lparr>connEnd = None, calls = [GetStatus]\<rparr>]"
  unfolding s_def by (simp_all add: overlap_def main_simps call_def conn_open_def)

lemma overlap_leaks: "leaked 0 (main_run env (overlap e) initial_viewer)"
  by (simp add: leaked_def conn_open_def overlap_state)

lemma overlap_statuses:
  fixes env :: url_env and e :: pipe_error
  assumes v: "isViewerStatus v" "startupAction v False = AcquireLeaseAction" "truthy (jget v (js ''config''))"
  defines "s \<equiv> main_run env [Settle 4 (Resolved v), Settle 5 (Resolved v)] (main_run env (overlap e) initial_viewer)"
  shows "tasks s = [(6, AwaitLease 1 (FromConnect 0 False True) v False), (7, AwaitLease 1 (FromConnect 1 False False) v False)]"
    and "calls (conns s ! 1) = [GetStatus, AcquireLease, AcquireLease]" and "\<not> exited s"
    and "conns s = [\<lparr>connEnd = None, calls = [GetStatus]\<rparr>, \<lparr>connEnd = None, calls = [GetStatus, AcquireLease, AcquireLease]\<rparr>]"
  unfolding s_def
  by (simp_all add: main_run_def [of _ "_ # _"] main_exec_def settle_def overlap_state [of env e] resume_task_def drop_task_def after_status_def
      v showLive_def add_task_def call_def conn_open_def drain.simps rejected_task_def Let_def)

text \<open>C19: When an attempt to connect begins while another is in flight (the user's retry and the reconnection
  timer do this), the connection of the first is overwritten and never closed, whatever follows, not even when
  the viewer quits; both attempts then ask for a lease on the second connection, and the refusal of the second
  request makes the viewer quit.\<close>

theorem overlapping_connects_leak:
  assumes later: "\<forall>e. PipeFailed 0 e \<notin> set ins"
    and v: "isViewerStatus v" "startupAction v False = AcquireLeaseAction" "truthy (jget v (js ''config''))"
    and busy: "lease_busy busy"
  shows "conn_open 0 (main_run env (overlap e @ ins) initial_viewer)
    \<and> connection (main_run env (overlap e @ ins) initial_viewer) \<noteq> Some 0
    \<and> calls (conns (main_run env (overlap e @ [Settle 4 (Resolved v), Settle 5 (Resolved v)]) initial_viewer) ! 1)
        = [GetStatus, AcquireLease, AcquireLease]
    \<and> quitRequested (main_run env (overlap e @ [Settle 4 (Resolved v), Settle 5 (Resolved v), Settle 7 (Rejected busy)]) initial_viewer)"
proof -
  have "leaked 0 (main_run env ins (main_run env (overlap e) initial_viewer))"
    by (rule leaked_main_run [OF overlap_leaks later])
  moreover have "quitRequested (main_run env [Settle 7 (Rejected busy)]
      (main_run env [Settle 4 (Resolved v), Settle 5 (Resolved v)] (main_run env (overlap e) initial_viewer)))"
    using busy
    by (simp add: main_run_def [of _ "[Settle 7 (Rejected busy)]"] main_exec_def settle_def overlap_statuses [OF v]
        resume_task_def after_lease_def drop_task_def quit_def drain.simps rejected_task_def conn_open_def finish_def)
  ultimately show ?thesis
    using overlap_statuses(2) [OF v, of env e]
    by (simp add: main_run_append main_run_append [of env "[Settle 4 (Resolved v), Settle 5 (Resolved v)]" "[Settle 7 (Rejected busy)]", simplified] leaked_def)
qed

lemma overlapping_connects_leak_witness:
  "conn_open 0 (main_run sample_env (overlap (PlainError (js ''ENOENT'')) @ [BeforeQuit]) initial_viewer)
   \<and> quitRequested (main_run sample_env (overlap (PlainError (js ''ENOENT'')) @ [Settle 4 (Resolved sample_status),
       Settle 5 (Resolved sample_status), Settle 7 (Rejected (ManagementRequestError (js ''lease_busy'') []))]) initial_viewer)"
  using overlapping_connects_leak [of "[BeforeQuit]" sample_status "ManagementRequestError (js ''lease_busy'') []"
      sample_env "PlainError (js ''ENOENT'')"]
  by (simp add: sample_status_def isViewerStatus_def startupAction_def lease_busy_def Let_def)

text \<open>
  Overlapping attempts and a first configuration: a retry and the timer both connect; the first connection
  is used to configure the viewer, and while its lease is being asked for, the second takes its place and fails.
\<close>

definition configured_overlap :: "jsval \<Rightarrow> jsval \<Rightarrow> jsval \<Rightarrow> pipe_error \<Rightarrow> pipe_error \<Rightarrow> main_input list" where
  "configured_overlap fresh d status e e' =
     [Launch True False, Settle 0 (Rejected e), Settle 1 (Resolved JUndefined), RetryRequest, ReconnectTimerFires,
      Settle 2 (Resolved JUndefined), Settle 4 (Resolved fresh), ConfigureRequest d, Settle 5 (Resolved status),
      Settle 3 (Resolved JUndefined), PipeFailed 1 e']"

text \<open>C40: The reconnection timer can be lost. In such a run the end of the second connection sets the reconnection timer, and the
  answer to the lease request of the configuration, which comes over the first, cancels it: the viewer is then
  without a connection, without a timer and without anything in flight, although it is not shutting down.\<close>

theorem configured_overlap_loses_timer:
  assumes "isViewerStatus fresh" and "startupAction fresh False = ShowSetupAction" and "\<not> truthy (jget fresh (js ''configured''))"
    and "isViewerStatus status" and "truthy (jget status (js ''config''))"
    and "viewerURL env (string_of (jget (jget status (js ''config'')) (js ''serverUrl''))) = Inr u"
    and "isLeaseGrant grant"
    and "s = main_run env (configured_overlap fresh d status e e') initial_viewer"
    and "t = main_exec env (Settle 6 (Resolved grant)) s"
  shows "reconnectTimer s \<noteq> None
    \<and> connection t = None \<and> reconnectTimer t = None \<and> tasks t = [] \<and> \<not> explicitShutdown t \<and> \<not> exited t"
  using assms
  by (simp add: configured_overlap_def live_simps end_conn_def pipe_failed_def on_disconnect_def disconnectAction_def
      rejection_def)

definition fresh_status :: jsval where
  "fresh_status = JObject [(js ''configured'', JBool False), (js ''connection'', JString (js ''online'')),
     (js ''autoStart'', JBool False), (js ''leaseAvailable'', JBool True)]"

lemma configured_overlap_loses_timer_witness:
  "let s = main_run sample_env (configured_overlap fresh_status JNull sample_status (PlainError (js ''ENOENT'')) (PlainError (js ''EPIPE''))) initial_viewer;
       t = main_exec sample_env (Settle 6 (Resolved sample_lease)) s
   in reconnectTimer s \<noteq> None \<and> connection t = None \<and> reconnectTimer t = None \<and> tasks t = [] \<and> \<not> explicitShutdown t"
proof -
  have "isViewerStatus fresh_status" "startupAction fresh_status False = ShowSetupAction" "\<not> truthy (jget fresh_status (js ''configured''))"
    by (simp_all add: fresh_status_def isViewerStatus_def startupAction_def Let_def)
  moreover have "isViewerStatus sample_status" "truthy (jget sample_status (js ''config''))"
    "viewerURL sample_env (string_of (jget (jget sample_status (js ''config'')) (js ''serverUrl''))) = Inr (js ''http://nas/live?viewer=1'')"
    "isLeaseGrant sample_lease"
    by (simp_all add: live_simps)
  ultimately show ?thesis
    using configured_overlap_loses_timer [OF _ _ _ _ _ _ _ refl refl] by (simp only: Let_def) blast
qed

section \<open>The requests of the page\<close>

text \<open>
  Two of the page's calls wait for the main process: \<open>viewer:retry-connection\<close> and
  \<open>viewer:configure\<close>. \<open>debt\<close> counts the answers given so far and the calls whose handler still
  waits; every operation keeps it, only a new call adds one. The flag tells the two kinds apart.
\<close>

fun is_reply :: "bool \<Rightarrow> reply \<Rightarrow> bool" where
  "is_reply retry (RetryReply v) = retry"
| "is_reply retry (ConfigureReply v) = (\<not> retry)"
| "is_reply retry v = False"

fun caller_waits :: "bool \<Rightarrow> caller \<Rightarrow> bool" where
  "caller_waits retry (StartSetup c lv status reply) = (retry \<and> reply)"
| "caller_waits retry (CatchSetup reply) = (retry \<and> reply)"
| "caller_waits retry (FromConnect c lv reply) = (retry \<and> reply)"
| "caller_waits retry (FromConfigure status) = (\<not> retry)"
| "caller_waits retry k = False"

fun handler_waits :: "bool \<Rightarrow> task \<Rightarrow> bool" where
  "handler_waits retry (AwaitConnect auto lv reply) = (retry \<and> reply)"
| "handler_waits retry (AwaitStatus c auto lv reply) = (retry \<and> reply)"
| "handler_waits retry (AwaitLease c k status preserve) = caller_waits retry k"
| "handler_waits retry (AwaitSetupLoad k) = caller_waits retry k"
| "handler_waits retry (AwaitLiveLoad k) = caller_waits retry k"
| "handler_waits retry (AwaitConfigure c d) = (\<not> retry)"
| "handler_waits retry t = False"

fun is_request :: "bool \<Rightarrow> main_input \<Rightarrow> bool" where
  "is_request retry RetryRequest = retry"
| "is_request retry (ConfigureRequest d) = (\<not> retry)"
| "is_request retry i = False"

definition debt :: "bool \<Rightarrow> viewer \<Rightarrow> nat" where
  "debt q s = length (filter (is_reply q) (replies s)) + length (filter (handler_waits q) (map snd (tasks s)))"

lemma replies_same [simp]:
  "replies (call c pc s) = replies s" "replies (end_conn c e s) = replies s" "replies (close_conn d s) = replies s"
  "replies (quit s) = replies s" "replies (reportRenderer v s) = replies s" "replies (reportDiagnostic v s) = replies s"
  "replies (observeManagementOutage e s) = replies s" "replies (reportManagementRecovery s) = replies s"
  "replies (stopHeartbeat s) = replies s" "replies (pulse s) = replies s" "replies (heartbeat_answered n s) = replies s"
  "replies (startHeartbeat s) = replies s" "replies (scheduleReconnect s) = replies s"
  "replies (cancelScheduledReconnect s) = replies s" "replies (createWindow s) = replies s"
  "replies (load_document x s) = replies s" "replies (send_page m s) = replies s"
  "replies (add_task t s) = replies s" "replies (abandon_attempt d e s) = replies s" "replies (give_up_connection n s) = replies s"
  by (auto simp: call_def end_conn_def close_conn_def quit_def reportRenderer_def reportDiagnostic_def
      observeManagementOutage_def reportManagementRecovery_def stopHeartbeat_def pulse_def heartbeat_answered_def
      startHeartbeat_def scheduleReconnect_def cancelScheduledReconnect_def createWindow_def load_document_def
      send_page_def add_task_def abandon_attempt_def give_up_connection_def Let_def split: option.split)

lemma debt_same [simp]:
  "debt q (call c pc s) = debt q s" "debt q (end_conn c e s) = debt q s"
  "debt q (close_conn d s) = debt q s" "debt q (quit s) = debt q s"
  "debt q (reportRenderer v s) = debt q s" "debt q (reportDiagnostic v s) = debt q s"
  "debt q (observeManagementOutage e s) = debt q s" "debt q (reportManagementRecovery s) = debt q s"
  "debt q (stopHeartbeat s) = debt q s" "debt q (pulse s) = debt q s"
  "debt q (heartbeat_answered n s) = debt q s" "debt q (startHeartbeat s) = debt q s"
  "debt q (scheduleReconnect s) = debt q s" "debt q (cancelScheduledReconnect s) = debt q s"
  "debt q (createWindow s) = debt q s" "debt q (load_document x s) = debt q s"
  "debt q (send_page m s) = debt q s" "debt q (abandon_attempt d e s) = debt q s"
  "debt q (give_up_connection n s) = debt q s" "debt q (s\<lparr>window := v0\<rparr>) = debt q s"
  "debt q (s\<lparr>connection := v1\<rparr>) = debt q s" "debt q (s\<lparr>conns := v2\<rparr>) = debt q s"
  "debt q (s\<lparr>lease := v3\<rparr>) = debt q s" "debt q (s\<lparr>grants := v4\<rparr>) = debt q s"
  "debt q (s\<lparr>currentStatus := v5\<rparr>) = debt q s" "debt q (s\<lparr>currentLiveURL := v6\<rparr>) = debt q s"
  "debt q (s\<lparr>explicitShutdown := v7\<rparr>) = debt q s" "debt q (s\<lparr>reconnectAttempt := v8\<rparr>) = debt q s"
  "debt q (s\<lparr>heartbeat := v9\<rparr>) = debt q s" "debt q (s\<lparr>beats := v10\<rparr>) = debt q s"
  "debt q (s\<lparr>reconnectTimer := v11\<rparr>) = debt q s" "debt q (s\<lparr>setupVisible := v12\<rparr>) = debt q s"
  "debt q (s\<lparr>managementOutage := v13\<rparr>) = debt q s" "debt q (s\<lparr>rendererCommandResults := v14\<rparr>) = debt q s"
  "debt q (s\<lparr>nextTask := v15\<rparr>) = debt q s" "debt q (s\<lparr>rendererSettled := v16\<rparr>) = debt q s"
  "debt q (s\<lparr>clock := v17\<rparr>) = debt q s" "debt q (s\<lparr>quitRequested := v18\<rparr>) = debt q s"
  "debt q (s\<lparr>quitHandled := v19\<rparr>) = debt q s" "debt q (s\<lparr>relaunched := v20\<rparr>) = debt q s"
  "debt q (s\<lparr>exited := v21\<rparr>) = debt q s"
  by (simp_all add: debt_def)

lemma debt_add_task [simp]: "debt q (add_task t s) = debt q s + of_bool (handler_waits q t)"
  by (simp add: debt_def)

lemma debt_finish [simp]: "debt q (finish reply s) = debt q s + of_bool (q \<and> reply)"
  by (simp add: debt_def finish_def)

lemma debt_configured [simp]:
  "debt q (s\<lparr>replies := replies s @ [ConfigureReply v]\<rparr>) = debt q s + of_bool (\<not> q)"
  by (simp add: debt_def)

lemma debt_returned_ok [simp]: "debt q (returned_ok k s) = debt q s + of_bool (caller_waits q k)"
  by (cases k) simp_all

lemma debt_showSetup [simp]: "debt q (showSetup k status s) = debt q s + of_bool (caller_waits q k)"
  by (simp add: showSetup_def Let_def)

lemma debt_connect_catch [simp]: "debt q (connect_catch env d lv reply e s) = debt q s + of_bool (q \<and> reply)"
  by (simp add: connect_catch_def Let_def)

lemma debt_returned_err [simp]: "debt q (returned_err env k e s) = debt q s + of_bool (caller_waits q k)"
  by (cases k) simp_all

lemma debt_live_go [simp]: "debt q (live_go env k status preserve s) = debt q s + of_bool (caller_waits q k)"
  by (simp add: live_go_def begin_live_def announce_live_def keep_document_def load_live_def Let_def
      split: sum.split option.split)

lemma debt_showLive [simp]: "debt q (showLive env k status preserve s) = debt q s + of_bool (caller_waits q k)"
  by (simp add: showLive_def split: option.split)

lemma debt_report_command [simp]: "debt q (report_command c g key ok code relaunch s) = debt q s"
  by (simp add: report_command_def)

lemma debt_resume: "debt q (resume_task env t answer s) = debt q s + of_bool (handler_waits q t)"
  by (cases t)
     (simp_all add: resume_task_def after_connect_def after_status_def after_lease_def after_report_def command_failed_def
        Let_def split: outcome.split sum.split startup_action.split)

lemma debt_drop:
  assumes "numbered s" and "(i, t) \<in> set (tasks s)"
  shows "debt q (drop_task (i, t) s) + of_bool (handler_waits q t) = debt q s"
proof -
  have "length (filter (handler_waits q) (map snd (filter (\<lambda>jt. jt \<noteq> (i, t)) ts))) + of_bool (handler_waits q t)
      = length (filter (handler_waits q) (map snd ts))"
    if "distinct (map fst ts)" "(i, t) \<in> set ts" for ts :: "(nat \<times> task) list"
    using that
  proof (induction ts)
    case (Cons x ts)
    show ?case
    proof (cases "x = (i, t)")
      case True
      with Cons.prems(1) have "\<forall>jt \<in> set ts. jt \<noteq> (i, t)" by force
      then have "filter (\<lambda>jt. jt \<noteq> (i, t)) ts = ts" by (simp add: filter_id_conv)
      with True show ?thesis by simp
    qed (use Cons in auto)
  qed simp
  from this [of "tasks s"] assms show ?thesis by (simp add: numbered_def debt_def drop_task_def)
qed

lemma debt_resumed:
  "numbered s \<Longrightarrow> (i, t) \<in> set (tasks s) \<Longrightarrow> debt q (resume_task env t answer (drop_task (i, t) s)) = debt q s"
  by (simp add: debt_resume debt_drop)

lemma debt_settle: "numbered s \<Longrightarrow> debt q (settle env i answer s) = debt q s"
  by (auto simp: settle_def debt_resumed dest: map_of_SomeD split: option.split)

lemma debt_drain: "renderer_ok s \<Longrightarrow> debt q (drain env s) = debt q s"
proof (induction env s rule: drain.induct)
  case (1 env s)
  show ?case
  proof (cases "find (rejected_task s) (tasks s)")
    case None
    then show ?thesis by (simp add: drain.simps)
  next
    case (Some it)
    obtain i t where it: "it = (i, t)" by (cases it)
    with Some have mem: "(i, t) \<in> set (tasks s)" and rej: "rejected_task s (i, t)" by (auto simp: find_Some_iff)
    have t: "\<not> is_renderer_task t" by (rule rejected_not_renderer [OF rej])
    have num: "numbered s" using 1(2) by (simp add: renderer_inv_def)
    have "renderer_ok (resume_task env t (rejection s t) (drop_task (i, t) s))"
      using grows_executed [OF 1(2) t] t by simp
    with 1(1) [OF Some it [symmetric]] debt_resumed [OF num mem] Some it show ?thesis
      by (simp add: drain.simps [of env s])
  qed
qed

lemma debt_settle_renderer [simp]: "debt q (settle_renderer i b s) = debt q s"
proof (cases rule: settle_renderer_cases [of i b s])
  case (2 c g key e)
  have "debt q (drop_task (i, AwaitRenderer c g key) s) = debt q s"
    by (simp add: debt_def drop_task_def filter_map o_def) (rule arg_cong [of _ _ length], rule filter_cong, auto)
  with 2(2) show ?thesis by simp
qed simp

lemma debt_before_quit [simp]: "debt q (before_quit s) = debt q s"
proof -
  have "debt q (fold (\<lambda>(key, i). settle_renderer i False) m s') = debt q s'"
    for m :: "(jsstring, nat) jsmap" and s'
    by (induction m arbitrary: s') auto
  then show ?thesis by (simp add: before_quit_def) (auto simp: shut_down_def Let_def split: option.split)
qed

lemma debt_execute [simp]: "debt q (executeViewerCommand c command s) = debt q s"
  by (simp add: executeViewerCommand_def command_failed_def sendRendererCommand_def Let_def
      split: option.split viewer_command.split)

lemma debt_connect [simp]: "debt q (connectAndShow env auto reply s) = debt q s + of_bool (q \<and> reply)"
  by (simp add: connectAndShow_def Let_def)

lemma debt_step:
  assumes "numbered s"
  shows "debt q (main_step env i s) = debt q s + of_bool (is_request q i)"
proof (cases i)
  case (Settle j answer)
  with debt_settle [OF assms] show ?thesis by simp
next
  case (PipeFailed c e)
  then show ?thesis
    by (simp add: pipe_failed_def on_disconnect_def Let_def split: disconnect_action.split)
next
  case (WindowEvent e)
  have "debt q (on_window_event e w s) = debt q s" for w by (cases e) simp_all
  with WindowEvent show ?thesis by (simp split: option.split)
next
  case SetupStateRequest
  then show ?thesis by (simp add: debt_def)
next
  case (SetFullscreenRequest own v)
  then show ?thesis by (simp add: debt_def split: option.split)
qed (simp_all add: command_result_message_def renderer_timeout_def split: option.split jsval.split)

text \<open>C18: no call of the page is lost. In every reachable state each request to retry the connection
  or to save a configuration has been answered exactly once or has a handler that still waits; and what a
  handler waits for can still answer, since no task waits for a request on a connection that has ended.\<close>

theorem page_requests_are_answered:
  assumes "s = main_run env ins initial_viewer" and "\<not> exited s"
  shows "length (filter (is_request retry) ins)
      = length (filter (is_reply retry) (replies s)) + length (filter (handler_waits retry) (map snd (tasks s)))
    \<and> (\<forall>(i, t) \<in> set (tasks s). \<forall>c. task_conn t = Some c \<longrightarrow> conn_open c s)"
proof -
  have "\<not> exited (main_run env ins initial_viewer) \<Longrightarrow>
      debt retry (main_run env ins initial_viewer) = length (filter (is_request retry) ins)
      \<and> find (rejected_task (main_run env ins initial_viewer)) (tasks (main_run env ins initial_viewer)) = None"
  proof (induction ins rule: rev_induct)
    case Nil
    show ?case by (simp add: main_run_def debt_def initial_viewer_def)
  next
    case (snoc i ins)
    let ?s = "main_run env ins initial_viewer"
    have ok: "renderer_ok ?s" by (rule renderer_ok_run [OF renderer_ok_initial])
    have run: "main_run env (ins @ [i]) initial_viewer = main_exec env i ?s" by (simp add: main_run_def)
    with snoc.prems have alive: "\<not> exited ?s" by (auto simp: main_exec_def split: if_splits)
    with run have run: "main_run env (ins @ [i]) initial_viewer = drain env (main_step env i ?s)"
      by (simp add: main_exec_def)
    have "debt retry (drain env (main_step env i ?s)) = debt retry ?s + of_bool (is_request retry i)"
      using debt_drain [OF renderer_ok_step [OF ok]] debt_step ok by (simp add: renderer_inv_def)
    then show ?case using snoc.IH [OF alive] drained by (simp add: run)
  qed
  with assms have "debt retry s = length (filter (is_request retry) ins)"
    and none: "find (rejected_task s) (tasks s) = None" by simp_all
  moreover have "conn_open c s" if "(i, t) \<in> set (tasks s)" "task_conn t = Some c" for i t c
    using not_rejected [OF none that(1)] that(2) by (simp add: rejected_task_def)
  ultimately show ?thesis unfolding debt_def by auto
qed

text \<open>A configuration is sent, and the connection ends before the service answers.\<close>

lemma page_requests_are_answered_witness:
  "let s = main_run sample_env [Launch True False, Settle 0 (Resolved JUndefined), ConfigureRequest JNull,
             PipeFailed 0 (PlainError (js ''EPIPE''))] initial_viewer
   in length (filter (is_reply False) (replies s)) = 1 \<and> filter (handler_waits False) (map snd (tasks s)) = []"
proof -
  let ?ins = "[Launch True False, Settle 0 (Resolved JUndefined), ConfigureRequest JNull, PipeFailed 0 (PlainError (js ''EPIPE''))]"
  have "\<not> exited (main_run sample_env ?ins initial_viewer)"
    and "filter (handler_waits False) (map snd (tasks (main_run sample_env ?ins initial_viewer))) = []"
    by (simp_all add: main_simps call_def conn_open_def end_conn_def pipe_failed_def on_disconnect_def disconnectAction_def
        rejection_def after_status_def)
  then show ?thesis
    using page_requests_are_answered [OF refl, of sample_env ?ins False] by (simp add: Let_def)
qed

end
