(* ===== verification/Playback.thy ===== *)
theory Playback
  imports Names
begin

text \<open>
  \<open>web/src/components/playback/playbackClock.ts\<close> and \<open>usePlaybackWorkspace.ts\<close>: recorded
  playback of several cameras under one clock. The state, its refs and the maps of the hook are
  the record \<open>workspace\<close>; the videos are records that the browser changes through an input; a
  lookup of a recording is an entry that stays until its promise settles. Times are rationals
  (milliseconds, seconds), rounding of IEEE arithmetic is outside the model.
\<close>

section \<open>playbackClock.ts\<close>

record media =
  mediaUrl :: jsstring
  startMs :: rat
  endMs :: rat
  mediaStartSeconds :: rat
  isHls :: bool
  growing :: bool

definition mediaTimeAt :: "media \<Rightarrow> rat \<Rightarrow> rat" where
  "mediaTimeAt m atMs = mediaStartSeconds m + max 0 (atMs - startMs m) / 1000"

text \<open>\<open>TimeRanges\<close> as the list of its start and end times.\<close>

fun bufferedPlaybackStart :: "rat \<Rightarrow> (rat \<times> rat) list \<Rightarrow> rat" where
  "bufferedPlaybackStart seconds [] = seconds"
| "bufferedPlaybackStart seconds ((a, b) # ranges) =
     (if seconds < b then max seconds a else bufferedPlaybackStart seconds ranges)"

definition absoluteTimeAt :: "media \<Rightarrow> rat \<Rightarrow> rat" where
  "absoluteTimeAt m seconds = startMs m + (seconds - mediaStartSeconds m) * 1000"

definition containsPlaybackTime :: "media \<Rightarrow> rat \<Rightarrow> bool" where
  "containsPlaybackTime m atMs \<longleftrightarrow> atMs \<ge> startMs m \<and> atMs < endMs m"

datatype resolve_status = Found | Gap | EdgeWait | Unsupported

record resolved =
  resolveStatus :: resolve_status
  previousAt :: "rat option"
  nextAt :: "rat option"
  resolvedMedia :: "media option"

definition continuationSeekAt :: "resolved \<Rightarrow> rat option \<Rightarrow> rat option" where
  "continuationSeekAt result endedAtMs =
     (case (endedAtMs, nextAt result) of
        (Some ended, Some nx) \<Rightarrow>
          if resolveStatus result \<noteq> Gap then None
          else if nx > ended \<and> nx - ended \<le> 1000 then Some nx else None
      | _ \<Rightarrow> None)"

definition resumeBoundaryClock :: "rat \<Rightarrow> media list \<Rightarrow> rat" where
  "resumeBoundaryClock atMs readyMedia =
     (if \<exists>m \<in> set readyMedia. containsPlaybackTime m atMs then atMs
      else (let starts = filter (\<lambda>st. st > atMs \<and> st - atMs \<le> 1000) (map startMs readyMedia)
            in case starts of [] \<Rightarrow> atMs | st # sts \<Rightarrow> fold min sts st))"

text \<open>The two routes of \<open>isPlaybackMediaUrl\<close>.\<close>

definition segment_route :: "jsstring \<Rightarrow> bool" where
  "segment_route u \<longleftrightarrow>
     (let p = js ''/api/recordings/segments/''; q = js ''/play'';
          middle = take (length u - length p - length q) (drop (length p) u)
      in u = p @ middle @ q \<and> middle \<noteq> [] \<and> list_all is_digit middle)"

definition manifest_route :: "jsstring \<Rightarrow> bool" where
  "manifest_route u \<longleftrightarrow>
     (let p = js ''/api/playback/media/''; q = js ''/manifest.m3u8'';
          middle = take (length u - length p - length q) (drop (length p) u)
      in u = p @ middle @ q \<and> middle \<noteq> [] \<and> list_all (\<lambda>c. is_alnum c \<or> c = 0x5F \<or> c = 0x2D) middle)"

definition isPlaybackMediaUrl :: "jsstring \<Rightarrow> bool" where
  "isPlaybackMediaUrl u \<longleftrightarrow> segment_route u \<or> manifest_route u"

section \<open>State of the workspace\<close>

datatype camera_status = Idle | Loading | Ready | Playing | InGap | WaitEdge | Failed | NotSupported

text \<open>The messages of the workspace, one constructor each; the last three come from the video adapter.\<close>

datatype workspace_error = LookupDelayed | NoMedia | LookupFailed | CannotStart
| BadAddress | CannotPlayRecording | FormatNotSupported

record camera =
  status :: camera_status
  cMedia :: "media option"
  nextAtMs :: "rat option"
  previousAtMs :: "rat option"
  cError :: "workspace_error option"
  requestId :: nat
  continuationFromMs :: "rat option"

record video =
  paused :: bool
  seeking :: bool
  readyState :: nat
  currentTime :: rat
  buffered :: "(rat \<times> rat) list"
  playbackRate :: rat
  videoVolume :: rat
  videoMuted :: bool

datatype workspace_mode = LiveMode | PlaybackMode

text \<open>A lookup in flight: its controller is aborted or not, and it may be at its second question.\<close>

record lookup =
  lkKey :: jsstring
  lkAt :: rat
  lkController :: nat
  lkGeneration :: nat
  lkRequest :: nat
  lkFrom :: "rat option"
  lkSecond :: bool

record workspace =
  mode :: workspace_mode
  playheadMs :: rat
  playing :: bool
  rate :: rat
  volume :: rat
  muted :: bool
  hasSelection :: bool
  seekGeneration :: nat
  cameras :: "(jsstring, camera) jsmap"
  cameraKeys :: "jsstring list"
  videos :: "(jsstring, nat) jsmap"            \<comment> \<open>camera key, element\<close>
  elements :: "nat \<Rightarrow> video"
  mutedVideos :: "(jsstring, bool) jsmap"
  requests :: "(jsstring, nat) jsmap"          \<comment> \<open>camera key, controller\<close>
  aborted :: "nat list"
  nextController :: nat
  requestSequence :: nat
  preparation :: bool
  lastPoll :: "(jsstring, rat) jsmap"
  playPending :: "nat list"
  lookups :: "lookup list"

definition new_workspace :: "workspace_mode \<Rightarrow> rat option \<Rightarrow> rat \<Rightarrow> workspace" where
  "new_workspace initialMode initialAtMs now =
     \<lparr>mode = initialMode, playheadMs = (case initialAtMs of None \<Rightarrow> now | Some t \<Rightarrow> t), playing = False, rate = 1,
      volume = 1, muted = True, hasSelection = (initialAtMs \<noteq> None), seekGeneration = 0, cameras = [],
      cameraKeys = [], videos = [],
      elements = (\<lambda>_. \<lparr>paused = True, seeking = False, readyState = 0, currentTime = 0, buffered = [], playbackRate = 1,
                        videoVolume = 1, videoMuted = False\<rparr>),
      mutedVideos = [], requests = [], aborted = [], nextController = 0, requestSequence = 0, preparation = False,
      lastPoll = [], playPending = [], lookups = []\<rparr>"

section \<open>Operations\<close>

definition on_video :: "nat \<Rightarrow> (video \<Rightarrow> video) \<Rightarrow> workspace \<Rightarrow> workspace" where
  "on_video v f s = s\<lparr>elements := (elements s)(v := f (elements s v))\<rparr>"

definition pause_video :: "nat \<Rightarrow> workspace \<Rightarrow> workspace" where
  "pause_video v s = on_video v (\<lambda>x. x\<lparr>paused := True\<rparr>) s"

definition pauseVideos :: "workspace \<Rightarrow> workspace" where
  "pauseVideos s = fold (\<lambda>(key, v). pause_video v) (videos s) s"

definition cameraUpdate :: "jsstring \<Rightarrow> camera \<Rightarrow> workspace \<Rightarrow> workspace" where
  "cameraUpdate key c s = s\<lparr>cameras := map_set key c (cameras s)\<rparr>"

definition abort :: "nat option \<Rightarrow> workspace \<Rightarrow> workspace" where
  "abort controller s = (case controller of None \<Rightarrow> s | Some k \<Rightarrow> s\<lparr>aborted := k # aborted s\<rparr>)"

definition abort_all :: "workspace \<Rightarrow> workspace" where
  "abort_all s = s\<lparr>aborted := map snd (requests s) @ aborted s\<rparr>"

definition loading_camera :: "nat \<Rightarrow> camera" where
  "loading_camera r = \<lparr>status = Loading, cMedia = None, nextAtMs = None, previousAtMs = None, cError = None,
     requestId = r, continuationFromMs = None\<rparr>"

definition failed_camera :: "nat \<Rightarrow> workspace_error \<Rightarrow> camera" where
  "failed_camera r e = (loading_camera r)\<lparr>status := Failed, cError := Some e\<rparr>"

text \<open>\<open>resolveCamera\<close> up to its first \<open>await\<close>.\<close>

definition resolveCamera :: "jsstring \<Rightarrow> rat \<Rightarrow> rat option \<Rightarrow> workspace \<Rightarrow> workspace" where
  "resolveCamera key atMs from s =
     (let s1 = abort (map_of (requests s) key) s;
          controller = nextController s1;
          r = Suc (requestSequence s1);
          s2 = s1\<lparr>requests := map_set key controller (requests s1), nextController := Suc controller, requestSequence := r\<rparr>
      in (cameraUpdate key (loading_camera r) s2)
           \<lparr>lookups := lookups s2 @ [\<lparr>lkKey = key, lkAt = atMs, lkController = controller, lkGeneration = seekGeneration s2,
                                     lkRequest = r, lkFrom = from, lkSecond = False\<rparr>]\<rparr>)"

definition live :: "workspace \<Rightarrow> lookup \<Rightarrow> bool" where
  "live s l \<longleftrightarrow> lkController l \<notin> set (aborted s)"

text \<open>The \<open>finally\<close> of a lookup.\<close>

definition finish_lookup :: "lookup \<Rightarrow> workspace \<Rightarrow> workspace" where
  "finish_lookup l s =
     s\<lparr>lookups := filter (\<lambda>x. lkController x \<noteq> lkController l) (lookups s),
       requests := (if map_of (requests s) (lkKey l) = Some (lkController l) then map_delete (lkKey l) (requests s)
                    else requests s)\<rparr>"

fun shown_status :: "resolve_status \<Rightarrow> media option \<Rightarrow> camera_status" where
  "shown_status Found (Some m) = Loading"
| "shown_status Found None = Failed"
| "shown_status Gap m = InGap"
| "shown_status EdgeWait m = WaitEdge"
| "shown_status Unsupported m = NotSupported"

definition resolved_camera :: "lookup \<Rightarrow> resolved \<Rightarrow> camera" where
  "resolved_camera l result =
     \<lparr>status = shown_status (resolveStatus result) (resolvedMedia result), cMedia = resolvedMedia result,
      nextAtMs = nextAt result, previousAtMs = previousAt result,
      cError = (if resolveStatus result = Found \<and> resolvedMedia result = None then Some NoMedia else None),
      requestId = lkRequest l, continuationFromMs = lkFrom l\<rparr>"

definition lookup_answer :: "lookup \<Rightarrow> resolved \<Rightarrow> workspace \<Rightarrow> workspace" where
  "lookup_answer l result s =
     (if \<not> live s l \<or> lkGeneration l \<noteq> seekGeneration s \<or> lkKey l \<notin> set (cameraKeys s) then finish_lookup l s
      else case (if lkSecond l then None else continuationSeekAt result (lkFrom l)) of
             Some t \<Rightarrow> s\<lparr>lookups := map (\<lambda>x. if lkController x = lkController l
                                          then x\<lparr>lkAt := t, lkSecond := True\<rparr> else x) (lookups s)\<rparr>
           | None \<Rightarrow> finish_lookup l (cameraUpdate (lkKey l) (resolved_camera l result) s))"

definition lookup_failure :: "lookup \<Rightarrow> workspace \<Rightarrow> workspace" where
  "lookup_failure l s =
     (if \<not> live s l \<or> lkGeneration l \<noteq> seekGeneration s then finish_lookup l s
      else finish_lookup l (cameraUpdate (lkKey l) (failed_camera (lkRequest l) LookupFailed) s))"

definition lookup_timeout :: "lookup \<Rightarrow> workspace \<Rightarrow> workspace" where
  "lookup_timeout l s =
     (if \<not> live s l \<or> map_option requestId (map_of (cameras s) (lkKey l)) \<noteq> Some (lkRequest l) then s
      else cameraUpdate (lkKey l) (failed_camera (lkRequest l) LookupDelayed)
             (abort (Some (lkController l)) s))"

definition js_round :: "rat \<Rightarrow> rat" where
  "js_round x = of_int \<lfloor>x + 1 / 2\<rfloor>"

definition seek_started :: "rat \<Rightarrow> bool option \<Rightarrow> workspace \<Rightarrow> workspace" where
  "seek_started atMs go s =
     (abort_all (pauseVideos s))\<lparr>preparation := True, mode := PlaybackMode, playheadMs := js_round atMs,
        hasSelection := True,
        playing := (case go of Some b \<Rightarrow> b | None \<Rightarrow> if mode s = LiveMode then True else playing s),
        seekGeneration := Suc (seekGeneration s), cameras := []\<rparr>"

definition seek :: "jsnum \<Rightarrow> bool option \<Rightarrow> workspace \<Rightarrow> workspace" where
  "seek target go s =
     (case target of
        Num atMs \<Rightarrow>
          (let s1 = seek_started atMs go s
           in fold (\<lambda>key. resolveCamera key atMs None) (cameraKeys s1) s1)
      | _ \<Rightarrow> s)"

text \<open>\<open>[...new Set(keys)].sort()\<close>: UTF-16 code unit order.\<close>

fun str_less :: "jsstring \<Rightarrow> jsstring \<Rightarrow> bool" where
  "str_less s [] = False"
| "str_less [] (d # t) = True"
| "str_less (c # s) (d # t) = (c < d \<or> (c = d \<and> str_less s t))"

fun insert_sorted :: "jsstring \<Rightarrow> jsstring list \<Rightarrow> jsstring list" where
  "insert_sorted x [] = [x]"
| "insert_sorted x (y # ys) = (if x = y then y # ys else if str_less x y then x # y # ys else y # insert_sorted x ys)"

definition key_signature :: "jsstring list \<Rightarrow> jsstring list" where
  "key_signature ks = fold insert_sorted ks []"

definition forget_key :: "jsstring \<Rightarrow> workspace \<Rightarrow> workspace" where
  "forget_key key s =
     (let s1 = abort (map_of (requests s) key) s;
          s2 = (case map_of (videos s1) key of None \<Rightarrow> s1 | Some v \<Rightarrow> pause_video v s1)
      in s2\<lparr>requests := map_delete key (requests s2), videos := map_delete key (videos s2),
            cameras := map_delete key (cameras s2)\<rparr>)"

definition keys_effect :: "jsstring list \<Rightarrow> workspace \<Rightarrow> workspace" where
  "keys_effect nextKeys s =
     (let s1 = fold forget_key (filter (\<lambda>k. k \<notin> set nextKeys) (map_keys (cameras s))) (s\<lparr>cameraKeys := nextKeys\<rparr>);
          retained = cameras s1;
          needs = (\<lambda>k. map_of retained k = None
                      \<or> (case map_of (requests s1) k of Some c \<Rightarrow> c \<in> set (aborted s1) | None \<Rightarrow> False))
      in if mode s1 \<noteq> PlaybackMode \<or> \<not> hasSelection s1 then s1
         else fold (\<lambda>key. resolveCamera key (playheadMs s1) None) (filter needs nextKeys) s1)"

definition keys_changed :: "jsstring list \<Rightarrow> workspace \<Rightarrow> workspace" where
  "keys_changed ks s = (if key_signature ks = cameraKeys s then s else keys_effect (key_signature ks) s)"

definition showable :: "camera_status \<Rightarrow> bool" where
  "showable st \<longleftrightarrow> st = Ready \<or> st = Playing"

definition attachVideo :: "jsstring \<Rightarrow> nat \<Rightarrow> workspace \<Rightarrow> workspace" where
  "attachVideo key v s =
     (let s1 = s\<lparr>videos := map_set key v (videos s)\<rparr>
      in case map_of (cameras s1) key of
           Some c \<Rightarrow> if cMedia c \<noteq> None \<and> showable (status c) then cameraUpdate key (c\<lparr>status := Loading\<rparr>) s1 else s1
         | None \<Rightarrow> s1)"

definition detachVideo :: "jsstring \<Rightarrow> nat \<Rightarrow> workspace \<Rightarrow> workspace" where
  "detachVideo key v s =
     (let s1 = pause_video v s
      in if map_of (videos s1) key = Some v then s1\<lparr>videos := map_delete key (videos s1)\<rparr> else s1)"

definition videoReady :: "jsstring \<Rightarrow> nat \<Rightarrow> workspace \<Rightarrow> workspace" where
  "videoReady key r s =
     (case map_of (cameras s) key of
        Some c \<Rightarrow> if requestId c = r \<and> status c = Loading then cameraUpdate key (c\<lparr>status := Ready\<rparr>) s else s
      | None \<Rightarrow> s)"

definition videoError :: "jsstring \<Rightarrow> nat \<Rightarrow> workspace_error \<Rightarrow> workspace \<Rightarrow> workspace" where
  "videoError key r e s =
     (case map_of (cameras s) key of
        Some c \<Rightarrow>
          if requestId c \<noteq> r then s
          else cameraUpdate key (c\<lparr>status := Failed, cError := Some e\<rparr>)
                 (case map_of (videos s) key of None \<Rightarrow> s | Some v \<Rightarrow> pause_video v s)
      | None \<Rightarrow> s)"

definition another_playable :: "jsstring \<Rightarrow> workspace \<Rightarrow> bool" where
  "another_playable key s \<longleftrightarrow>
     list_ex (\<lambda>other. other \<noteq> key \<and> map_of (videos s) other \<noteq> None
        \<and> (case map_of (cameras s) other of
             Some c \<Rightarrow> showable (status c) \<and> (case cMedia c of Some m \<Rightarrow> containsPlaybackTime m (playheadMs s) | None \<Rightarrow> False)
           | None \<Rightarrow> False)) (cameraKeys s)"

definition videoEnded :: "jsstring \<Rightarrow> nat \<Rightarrow> workspace \<Rightarrow> workspace" where
  "videoEnded key r s =
     (case map_of (cameras s) key of
        Some c \<Rightarrow>
          (case cMedia c of
             Some m \<Rightarrow>
               if requestId c \<noteq> r \<or> \<not> playing s then s
               else resolveCamera key (max (playheadMs s) (endMs m)) (Some (endMs m))
                      (if another_playable key s then s else s\<lparr>playheadMs := max (playheadMs s) (endMs m)\<rparr>)
           | None \<Rightarrow> s)
      | None \<Rightarrow> s)"

section \<open>The clock\<close>

definition waiting_for :: "workspace \<Rightarrow> jsstring \<Rightarrow> bool" where
  "waiting_for s key =
     (case map_of (cameras s) key of
        None \<Rightarrow> True
      | Some c \<Rightarrow> status c = Loading \<and> (cMedia c = None \<or> map_of (videos s) key \<noteq> None))"

text \<open>The time the decoded videos have reached, and the recordings they show.\<close>

definition presented :: "workspace \<Rightarrow> jsstring \<times> nat \<Rightarrow> rat \<Rightarrow> rat" where
  "presented s kv atMs =
     (case map_of (cameras s) (fst kv) of
        None \<Rightarrow> atMs
      | Some c \<Rightarrow>
          (case cMedia c of
             None \<Rightarrow> atMs
           | Some m \<Rightarrow>
               (let v = elements s (snd kv)
                in if startMs m > playheadMs s \<or> \<not> showable (status c) \<or> paused v \<or> seeking v \<or> readyState v < 2 then atMs
                   else max atMs (min (endMs m) (absoluteTimeAt m (currentTime v))))))"

definition ready_media :: "workspace \<Rightarrow> media list" where
  "ready_media s = List.maps (\<lambda>key. case map_of (cameras s) key of
      Some c \<Rightarrow> (case cMedia c of Some m \<Rightarrow> if showable (status c) then [m] else [] | None \<Rightarrow> [])
    | None \<Rightarrow> []) (map_keys (videos s))"

definition clock_at :: "workspace \<Rightarrow> rat" where
  "clock_at s =
     (if playing s then resumeBoundaryClock (fold (presented s) (videos s) (playheadMs s)) (ready_media s)
      else playheadMs s)"

text \<open>\<open>video.play()\<close> makes the video not paused; its promise is in \<open>playPending\<close>.\<close>

definition drive_video :: "rat \<Rightarrow> media \<Rightarrow> nat \<Rightarrow> workspace \<Rightarrow> workspace" where
  "drive_video atMs m v s =
     (let target = bufferedPlaybackStart (mediaTimeAt m atMs) (buffered (elements s v));
          x = elements s v;
          s1 = (if containsPlaybackTime m atMs \<and> \<not> seeking x \<and> \<bar>currentTime x - target\<bar> > 8 / 10
                then on_video v (\<lambda>x. x\<lparr>currentTime := target, seeking := True\<rparr>) s else s)
      in if paused (elements s1 v) \<and> v \<notin> set (playPending s1)
         then (on_video v (\<lambda>x. x\<lparr>paused := False\<rparr>) s1)\<lparr>playPending := v # playPending s1\<rparr> else s1)"

text \<open>One camera of the tick: a recording that is shown, and one that is not.\<close>

definition tick_shown :: "rat \<Rightarrow> jsstring \<Rightarrow> media \<Rightarrow> workspace \<Rightarrow> workspace" where
  "tick_shown atMs key m s =
     (if playing s \<and> atMs \<ge> endMs m
      then resolveCamera key atMs (Some (endMs m)) (case map_of (videos s) key of None \<Rightarrow> s | Some v \<Rightarrow> pause_video v s)
      else (case map_of (videos s) key of
              None \<Rightarrow> s
            | Some v \<Rightarrow>
                (let s1 = on_video v (\<lambda>x. x\<lparr>playbackRate := rate s, videoVolume := volume s,
                            videoMuted := (muted s \<or> map_of (mutedVideos s) key = Some True)\<rparr>) s
                 in if \<not> playing s then pause_video v s1
                    else if atMs < startMs m then pause_video v s1
                    else drive_video atMs m v s1)))"

definition poll_due :: "rat \<Rightarrow> rat \<Rightarrow> jsstring \<Rightarrow> camera \<Rightarrow> workspace \<Rightarrow> bool" where
  "poll_due atMs pollTime key c s \<longleftrightarrow>
     (status c = InGap \<and> (case nextAtMs c of Some t \<Rightarrow> atMs \<ge> t | None \<Rightarrow> False))
     \<or> (status c = WaitEdge \<and> pollTime - (case map_of (lastPoll s) key of Some t \<Rightarrow> t | None \<Rightarrow> 0) \<ge> 2000)"

definition tick_other :: "rat \<Rightarrow> rat \<Rightarrow> jsstring \<Rightarrow> camera \<Rightarrow> workspace \<Rightarrow> workspace" where
  "tick_other atMs pollTime key c s =
     (if playing s \<and> map_of (requests s) key = None \<and> poll_due atMs pollTime key c s
      then resolveCamera key atMs (continuationFromMs c) (s\<lparr>lastPoll := map_set key pollTime (lastPoll s)\<rparr>)
      else s)"

text \<open>\<open>atMs\<close> is the clock, \<open>pollTime\<close> is \<open>Date.now()\<close>.\<close>

definition tick_camera :: "rat \<Rightarrow> rat \<Rightarrow> jsstring \<Rightarrow> workspace \<Rightarrow> workspace" where
  "tick_camera atMs pollTime key s =
     (case map_of (cameras s) key of
        None \<Rightarrow> s
      | Some c \<Rightarrow>
          (case (cMedia c, showable (status c)) of
             (Some m, True) \<Rightarrow> tick_shown atMs key m s
           | _ \<Rightarrow> tick_other atMs pollTime key c s))"

definition tick :: "rat \<Rightarrow> workspace \<Rightarrow> workspace" where
  "tick now s =
     (if mode s = LiveMode then s\<lparr>playheadMs := now\<rparr>
      else if \<not> hasSelection s then s
      else if preparation s \<and> list_ex (waiting_for s) (cameraKeys s) then pauseVideos s
      else (let s1 = s\<lparr>preparation := False\<rparr>; atMs = clock_at s1
            in fold (tick_camera atMs now) (cameraKeys s1) (s1\<lparr>playheadMs := atMs\<rparr>)))"

section \<open>Controls\<close>

definition pause :: "workspace \<Rightarrow> workspace" where
  "pause s = (pauseVideos s)\<lparr>playing := False\<rparr>"

definition play :: "workspace \<Rightarrow> workspace" where
  "play s = (if mode s = PlaybackMode \<and> hasSelection s then s\<lparr>playing := True\<rparr> else s)"

definition togglePlaying :: "workspace \<Rightarrow> workspace" where
  "togglePlaying s = (if playing s then pause s else play s)"

definition step_by :: "rat \<Rightarrow> workspace \<Rightarrow> workspace" where
  "step_by seconds s =
     (if mode s = PlaybackMode \<and> hasSelection s then seek (Num (playheadMs s + seconds * 1000)) None s else s)"

definition setRate :: "jsnum \<Rightarrow> workspace \<Rightarrow> workspace" where
  "setRate r s = (case r of Num x \<Rightarrow> s\<lparr>rate := max (1 / 4) (min 4 x)\<rparr> | _ \<Rightarrow> s)"

definition setVolume :: "jsnum \<Rightarrow> workspace \<Rightarrow> workspace" where
  "setVolume r s =
     (case r of
        Num x \<Rightarrow>
          (let vol = max 0 (min 1 x);
               s1 = fold (\<lambda>(key, v). on_video v (\<lambda>e. e\<lparr>videoVolume := vol,
                      videoMuted := (vol = 0 \<or> map_of (mutedVideos s) key = Some True)\<rparr>)) (videos s) s
           in s1\<lparr>volume := vol, muted := (vol = 0)\<rparr>)
      | _ \<Rightarrow> s)"

definition setMuted :: "bool \<Rightarrow> workspace \<Rightarrow> workspace" where
  "setMuted b s =
     (fold (\<lambda>(key, v). on_video v (\<lambda>e. e\<lparr>videoMuted := (b \<or> map_of (mutedVideos s) key = Some True)\<rparr>)) (videos s) s)
       \<lparr>muted := b\<rparr>"

definition setVideoMuted :: "jsstring \<Rightarrow> bool \<Rightarrow> workspace \<Rightarrow> workspace" where
  "setVideoMuted key b s =
     (let s1 = s\<lparr>mutedVideos := map_set key b (mutedVideos s)\<rparr>
      in case map_of (videos s1) key of
           Some v \<Rightarrow> on_video v (\<lambda>e. e\<lparr>videoMuted := (muted s1 \<or> b)\<rparr>) s1
         | None \<Rightarrow> s1)"

definition goLive :: "rat \<Rightarrow> workspace \<Rightarrow> workspace" where
  "goLive now s =
     (abort_all (pauseVideos s))
       \<lparr>preparation := False, mode := LiveMode, playing := False, hasSelection := False, playheadMs := now,
        cameras := [], seekGeneration := Suc (seekGeneration s)\<rparr>"

text \<open>\<open>key ? [key] : keys.current\<close>: no key and the empty key stand for all cameras.\<close>

definition targets :: "jsstring option \<Rightarrow> workspace \<Rightarrow> jsstring list" where
  "targets key s = (case key of None \<Rightarrow> cameraKeys s | Some k \<Rightarrow> if k = [] then cameraKeys s else [k])"

definition retry_cameras :: "jsstring option \<Rightarrow> workspace \<Rightarrow> workspace" where
  "retry_cameras key s =
     (if mode s \<noteq> PlaybackMode \<or> \<not> hasSelection s then s
      else fold (\<lambda>k. resolveCamera k (playheadMs s) None) (targets key s) s)"

definition nextRecording :: "jsstring option \<Rightarrow> workspace \<Rightarrow> workspace" where
  "nextRecording key s =
     (let candidates = List.maps (\<lambda>k. case map_of (cameras s) k of
              Some c \<Rightarrow> (case nextAtMs c of Some t \<Rightarrow> if t > playheadMs s then [t] else [] | None \<Rightarrow> [])
            | None \<Rightarrow> []) (targets key s)
      in case candidates of [] \<Rightarrow> s | t # ts \<Rightarrow> seek (Num (fold min ts t)) None s)"

text \<open>The promise of \<open>video.play()\<close>: fulfilled, or rejected (by a pause, or for good).\<close>

datatype play_answer = Started | Interrupted | Refused

definition play_settled :: "jsstring \<Rightarrow> nat \<Rightarrow> nat \<Rightarrow> play_answer \<Rightarrow> workspace \<Rightarrow> workspace" where
  "play_settled key r v answer s =
     (let s1 = (case answer of
                  Started \<Rightarrow> if \<not> playing s \<or> mode s \<noteq> PlaybackMode then pause_video v s else s
                | Interrupted \<Rightarrow> s
                | Refused \<Rightarrow> videoError key r CannotStart s)
      in s1\<lparr>playPending := filter (\<lambda>x. x \<noteq> v) (playPending s1)\<rparr>)"

definition unmount :: "workspace \<Rightarrow> workspace" where
  "unmount s = pauseVideos (abort_all s)"

section \<open>Inputs\<close>

datatype playback_input =
  Seek jsnum "bool option"
| KeysChanged "jsstring list"
| Attach jsstring nat
| Detach jsstring nat
| VideoReady jsstring nat
| VideoError jsstring nat workspace_error
| VideoEnded jsstring nat
| VideoChanged nat video
| Tick rat
| PlaySettled jsstring nat nat play_answer
| LookupAnswer nat resolved
| LookupFailure nat
| LookupTimeout nat
| Pause | Play | Toggle
| Step rat
| SetRate jsnum
| SetVolume jsnum
| SetMuted bool
| SetVideoMuted jsstring bool
| GoLive rat
| Retry "jsstring option"
| NextRecording "jsstring option"

text \<open>A lookup by the number of its controller.\<close>

definition with_lookup :: "nat \<Rightarrow> (lookup \<Rightarrow> workspace \<Rightarrow> workspace) \<Rightarrow> workspace \<Rightarrow> workspace" where
  "with_lookup k f s = (case find (\<lambda>l. lkController l = k) (lookups s) of None \<Rightarrow> s | Some l \<Rightarrow> f l s)"

fun playback_exec :: "playback_input \<Rightarrow> workspace \<Rightarrow> workspace" where
  "playback_exec (Seek t p) s = seek t p s"
| "playback_exec (KeysChanged ks) s = keys_changed ks s"
| "playback_exec (Attach key v) s = attachVideo key v s"
| "playback_exec (Detach key v) s = detachVideo key v s"
| "playback_exec (VideoReady key r) s = videoReady key r s"
| "playback_exec (VideoError key r e) s = videoError key r e s"
| "playback_exec (VideoEnded key r) s = videoEnded key r s"
| "playback_exec (VideoChanged v x) s = on_video v (\<lambda>_. x) s"
| "playback_exec (Tick now) s = tick now s"
| "playback_exec (PlaySettled key r v answer) s = play_settled key r v answer s"
| "playback_exec (LookupAnswer k result) s = with_lookup k (\<lambda>l. lookup_answer l result) s"
| "playback_exec (LookupFailure k) s = with_lookup k lookup_failure s"
| "playback_exec (LookupTimeout k) s = with_lookup k lookup_timeout s"
| "playback_exec Pause s = pause s"
| "playback_exec Play s = play s"
| "playback_exec Toggle s = togglePlaying s"
| "playback_exec (Step seconds) s = step_by seconds s"
| "playback_exec (SetRate r) s = setRate r s"
| "playback_exec (SetVolume r) s = setVolume r s"
| "playback_exec (SetMuted b) s = setMuted b s"
| "playback_exec (SetVideoMuted key b) s = setVideoMuted key b s"
| "playback_exec (GoLive now) s = goLive now s"
| "playback_exec (Retry key) s = retry_cameras key s"
| "playback_exec (NextRecording key) s = nextRecording key s"

definition playback_run :: "playback_input list \<Rightarrow> workspace \<Rightarrow> workspace" where
  "playback_run ins s = fold playback_exec ins s"

end
