(* ===== verification/PlaybackProps.thy ===== *)
theory PlaybackProps
  imports Playback
begin

text \<open>
  What the playback workspace keeps. The invariant \<open>playback_inv\<close> ties the lookups in flight to the
  cameras that show them as loading; the clock only moves forward and only as far as a decoded
  recording takes it.
\<close>

section \<open>Lookups and cameras\<close>

lemma video_ops [simp]:
  "cameras (on_video v f s) = cameras s" "lookups (on_video v f s) = lookups s" "requests (on_video v f s) = requests s"
  "aborted (on_video v f s) = aborted s" "nextController (on_video v f s) = nextController s"
  "requestSequence (on_video v f s) = requestSequence s" "seekGeneration (on_video v f s) = seekGeneration s"
  "cameraKeys (on_video v f s) = cameraKeys s" "videos (on_video v f s) = videos s" "playheadMs (on_video v f s) = playheadMs s"
  "mode (on_video v f s) = mode s" "playing (on_video v f s) = playing s" "hasSelection (on_video v f s) = hasSelection s"
  "preparation (on_video v f s) = preparation s"
  by (simp_all add: on_video_def)

lemma fold_frame: "(\<And>x s. F (g x s) = F s) \<Longrightarrow> F (fold g xs s) = F s"
  by (induction xs arbitrary: s) simp_all

lemma pause_ops [simp]:
  "cameras (pauseVideos s) = cameras s" "lookups (pauseVideos s) = lookups s" "requests (pauseVideos s) = requests s"
  "aborted (pauseVideos s) = aborted s" "nextController (pauseVideos s) = nextController s"
  "requestSequence (pauseVideos s) = requestSequence s" "seekGeneration (pauseVideos s) = seekGeneration s"
  "cameraKeys (pauseVideos s) = cameraKeys s" "videos (pauseVideos s) = videos s" "playheadMs (pauseVideos s) = playheadMs s"
  "mode (pauseVideos s) = mode s" "playing (pauseVideos s) = playing s" "hasSelection (pauseVideos s) = hasSelection s"
  "preparation (pauseVideos s) = preparation s"
  unfolding pauseVideos_def by (rule fold_frame; auto simp: pause_video_def)+

definition waiting_lookup :: "workspace \<Rightarrow> jsstring \<Rightarrow> nat \<Rightarrow> bool" where
  "waiting_lookup s key r \<longleftrightarrow> (\<exists>l \<in> set (lookups s). live s l \<and> lkKey l = key \<and> lkRequest l = r)"

definition playback_inv :: "jsstring set \<Rightarrow> workspace \<Rightarrow> bool" where
  "playback_inv K s \<longleftrightarrow>
     distinct (map lkController (lookups s)) \<and> map_ok (requests s) \<and> distinct (map snd (requests s))
     \<and> (\<forall>l \<in> set (lookups s). lkController l < nextController s)
     \<and> (\<forall>k \<in> set (aborted s). k < nextController s)
     \<and> (\<forall>k \<in> snd ` set (requests s). k < nextController s)
     \<and> (\<forall>l \<in> set (lookups s). live s l \<longrightarrow> map_of (requests s) (lkKey l) = Some (lkController l)
          \<and> lkGeneration l = seekGeneration s \<and> map_option requestId (map_of (cameras s) (lkKey l)) = Some (lkRequest l))
     \<and> (\<forall>key c. map_of (cameras s) key = Some c \<longrightarrow> key \<in> K
          \<and> (status c = Loading \<and> cMedia c = None \<longrightarrow> waiting_lookup s key (requestId c)))"

abbreviation playback_ok :: "workspace \<Rightarrow> bool" where
  "playback_ok s \<equiv> playback_inv (set (cameraKeys s)) s"

lemma inv_same:
  "playback_inv K s \<Longrightarrow> lookups s' = lookups s \<Longrightarrow> requests s' = requests s \<Longrightarrow> aborted s' = aborted s \<Longrightarrow>
   nextController s' = nextController s \<Longrightarrow> seekGeneration s' = seekGeneration s \<Longrightarrow> cameras s' = cameras s \<Longrightarrow>
   playback_inv K s'"
  by (simp add: playback_inv_def waiting_lookup_def live_def)

lemma inv_mono:
  assumes "playback_inv K s" and sub: "fst ` set (cameras s) \<subseteq> K'"
  shows "playback_inv K' s"
proof -
  have "key \<in> K'" if "map_of (cameras s) key = Some c" for key c
    using map_of_SomeD [OF that] sub by force
  with assms(1) show ?thesis unfolding playback_inv_def by simp
qed

lemma inv_videos [simp]:
  "playback_inv K (on_video v f s) = playback_inv K s" "playback_inv K (pauseVideos s) = playback_inv K s"
  "playback_inv K (s\<lparr>playheadMs := t\<rparr>) = playback_inv K s" "playback_inv K (s\<lparr>videos := w\<rparr>) = playback_inv K s"
  "playback_inv K (s\<lparr>preparation := b\<rparr>) = playback_inv K s" "playback_inv K (s\<lparr>playPending := p\<rparr>) = playback_inv K s"
  "playback_inv K (s\<lparr>lastPoll := lp\<rparr>) = playback_inv K s" "playback_inv K (s\<lparr>playing := b\<rparr>) = playback_inv K s"
  "playback_inv K (s\<lparr>cameraKeys := ks\<rparr>) = playback_inv K s" "playback_inv K (s\<lparr>mutedVideos := mv\<rparr>) = playback_inv K s"
  "playback_inv K (s\<lparr>volume := r\<rparr>) = playback_inv K s" "playback_inv K (s\<lparr>rate := r\<rparr>) = playback_inv K s"
  "playback_inv K (s\<lparr>muted := b\<rparr>) = playback_inv K s"
  by (simp_all add: playback_inv_def waiting_lookup_def live_def)

lemma snd_map_set: "n \<notin> snd ` set m \<Longrightarrow> distinct (map snd m) \<Longrightarrow> distinct (map snd (map_set k n m))"
proof (induction k n m rule: map_set.induct)
  case (2 k v k' v' m)
  have "snd ` set (map_set k v m) \<subseteq> insert v (snd ` set m)"
    by (induction k v m rule: map_set.induct) auto
  with 2 show ?case by auto
qed simp

lemma snd_map_set_subset: "snd ` set (map_set k n m) \<subseteq> insert n (snd ` set m)"
  by (induction k n m rule: map_set.induct) auto

lemma map_of_snd_inj: "distinct (map snd m) \<Longrightarrow> map_of m a = Some v \<Longrightarrow> map_of m b = Some v \<Longrightarrow> a = b"
  by (metis (no_types, lifting) distinct_map inj_onD map_of_SomeD prod.inject snd_conv)

lemma inv_live:
  "playback_inv K s \<Longrightarrow> l \<in> set (lookups s) \<Longrightarrow> live s l \<Longrightarrow>
   map_of (requests s) (lkKey l) = Some (lkController l) \<and> lkGeneration l = seekGeneration s
   \<and> map_option requestId (map_of (cameras s) (lkKey l)) = Some (lkRequest l)"
  by (simp add: playback_inv_def)

lemma inv_resolve:
  assumes inv: "playback_inv K s" and key: "key \<in> K"
  shows "playback_inv K (resolveCamera key atMs from s)"
proof -
  let ?s = "resolveCamera key atMs from s"
  let ?n = "nextController s" and ?r = "Suc (requestSequence s)"
  let ?l = "\<lparr>lkKey = key, lkAt = atMs, lkController = ?n, lkGeneration = seekGeneration s, lkRequest = ?r, lkFrom = from, lkSecond = False\<rparr>"
  have lk: "lookups ?s = lookups s @ [?l]" and req: "requests ?s = map_set key ?n (requests s)"
    and nc: "nextController ?s = Suc ?n" and cam: "cameras ?s = map_set key (loading_camera ?r) (cameras s)"
    and ab: "set (aborted ?s) = (case map_of (requests s) key of None \<Rightarrow> {} | Some k \<Rightarrow> {k}) \<union> set (aborted s)"
    and gen: "seekGeneration ?s = seekGeneration s"
    by (auto simp: resolveCamera_def abort_def cameraUpdate_def Let_def split: option.split)
  have bounds: "\<forall>l \<in> set (lookups s). lkController l < ?n" "\<forall>k \<in> set (aborted s). k < ?n"
    "\<forall>k \<in> snd ` set (requests s). k < ?n" "distinct (map lkController (lookups s))" "map_ok (requests s)"
    "distinct (map snd (requests s))"
    using inv by (simp_all add: playback_inv_def)
  have bound: "\<forall>k \<in> set (aborted ?s). k < ?n"
    using bounds(2,3) by (auto simp: ab split: option.splits dest!: map_of_SomeD)
  then have fresh: "live ?s ?l" by (auto simp: live_def)
  have kept: "live ?s l \<longleftrightarrow> live s l \<and> lkKey l \<noteq> key" if l: "l \<in> set (lookups s)" for l
  proof
    assume a: "live ?s l"
    then have "live s l" by (auto simp: live_def ab)
    with inv_live [OF inv l] a show "live s l \<and> lkKey l \<noteq> key" by (auto simp: live_def ab)
  next
    assume a: "live s l \<and> lkKey l \<noteq> key"
    with inv_live [OF inv l] have "map_of (requests s) (lkKey l) = Some (lkController l)" by simp
    with a bounds(6) show "live ?s l"
      by (auto simp: live_def ab split: option.splits dest: map_of_snd_inj)
  qed
  show ?thesis
    unfolding playback_inv_def
  proof (intro conjI)
    show "distinct (map lkController (lookups ?s))" using bounds(1,4) by (auto simp: lk)
    show "map_ok (requests ?s)" using bounds(5) by (simp add: req)
    show "distinct (map snd (requests ?s))" unfolding req by (rule snd_map_set) (use bounds in auto)
    show "\<forall>l \<in> set (lookups ?s). lkController l < nextController ?s" using bounds(1) by (auto simp: lk nc)
    show "\<forall>k \<in> set (aborted ?s). k < nextController ?s" using bound by (auto simp: nc)
    show "\<forall>k \<in> snd ` set (requests ?s). k < nextController ?s"
      using bounds(3) snd_map_set_subset [of key ?n "requests s"] by (fastforce simp: req nc)
    show "\<forall>l \<in> set (lookups ?s). live ?s l \<longrightarrow> map_of (requests ?s) (lkKey l) = Some (lkController l)
        \<and> lkGeneration l = seekGeneration ?s \<and> map_option requestId (map_of (cameras ?s) (lkKey l)) = Some (lkRequest l)"
      using inv_live [OF inv] kept by (auto simp: lk req gen cam loading_camera_def)
    show "\<forall>k c. map_of (cameras ?s) k = Some c \<longrightarrow> k \<in> K
        \<and> (status c = Loading \<and> cMedia c = None \<longrightarrow> waiting_lookup ?s k (requestId c))"
    proof (intro allI impI)
      fix k c
      assume c: "map_of (cameras ?s) k = Some c"
      show "k \<in> K \<and> (status c = Loading \<and> cMedia c = None \<longrightarrow> waiting_lookup ?s k (requestId c))"
      proof (cases "k = key")
        case True
        with c key fresh show ?thesis by (auto simp: cam lk waiting_lookup_def loading_camera_def)
      next
        case False
        with c inv have "k \<in> K \<and> (status c = Loading \<and> cMedia c = None \<longrightarrow> waiting_lookup s k (requestId c))"
          by (simp add: cam playback_inv_def)
        with False kept show ?thesis by (auto simp: waiting_lookup_def lk)
      qed
    qed
  qed
qed

lemma inv_finish:
  assumes inv: "playback_inv K s" and l: "l \<in> set (lookups s)"
    and done_: "live s l \<Longrightarrow> \<exists>c. map_of (cameras s) (lkKey l) = Some c \<and> \<not> (status c = Loading \<and> cMedia c = None)"
  shows "playback_inv K (finish_lookup l s)"
proof -
  let ?s = "finish_lookup l s"
  have fields: "aborted ?s = aborted s" "nextController ?s = nextController s" "cameras ?s = cameras s"
      "seekGeneration ?s = seekGeneration s" "lookups ?s = filter (\<lambda>x. lkController x \<noteq> lkController l) (lookups s)"
    by (simp_all add: finish_lookup_def)
  have reqs: "requests ?s = requests s \<or> requests ?s = map_delete (lkKey l) (requests s)"
    by (simp add: finish_lookup_def)
  have sub: "set (requests ?s) \<subseteq> set (requests s)" using reqs by (auto simp: map_delete_def)
  have live: "live ?s x \<longleftrightarrow> live s x" for x by (simp add: live_def fields)
  show ?thesis
    unfolding playback_inv_def
  proof (intro conjI)
    show "distinct (map lkController (lookups ?s))" using inv by (simp add: fields playback_inv_def distinct_map_filter)
    show "map_ok (requests ?s)" using reqs inv by (auto simp: playback_inv_def)
    show "distinct (map snd (requests ?s))"
      using reqs inv by (auto simp: playback_inv_def map_delete_def distinct_map_filter)
    show "\<forall>x \<in> set (lookups ?s). lkController x < nextController ?s" using inv by (simp add: fields playback_inv_def)
    show "\<forall>k \<in> set (aborted ?s). k < nextController ?s" using inv by (simp add: fields playback_inv_def)
    show "\<forall>k \<in> snd ` set (requests ?s). k < nextController ?s" using inv sub by (auto simp: fields playback_inv_def)
    show "\<forall>x \<in> set (lookups ?s). live ?s x \<longrightarrow> map_of (requests ?s) (lkKey x) = Some (lkController x)
        \<and> lkGeneration x = seekGeneration ?s \<and> map_option requestId (map_of (cameras ?s) (lkKey x)) = Some (lkRequest x)"
    proof (intro ballI impI)
      fix x
      assume x: "x \<in> set (lookups ?s)" "live ?s x"
      then have x': "x \<in> set (lookups s)" "live s x" "lkController x \<noteq> lkController l" by (auto simp: fields live)
      note a = inv_live [OF inv x'(1,2)]
      have "map_of (requests ?s) (lkKey x) = Some (lkController x)"
        using a x'(3) by (auto simp: finish_lookup_def)
      with a show "map_of (requests ?s) (lkKey x) = Some (lkController x)
        \<and> lkGeneration x = seekGeneration ?s \<and> map_option requestId (map_of (cameras ?s) (lkKey x)) = Some (lkRequest x)"
        by (simp add: fields)
    qed
    show "\<forall>key c. map_of (cameras ?s) key = Some c \<longrightarrow> key \<in> K
        \<and> (status c = Loading \<and> cMedia c = None \<longrightarrow> waiting_lookup ?s key (requestId c))"
    proof (intro allI impI)
      fix key c
      assume c: "map_of (cameras ?s) key = Some c"
      then have k: "key \<in> K" and w: "status c = Loading \<and> cMedia c = None \<Longrightarrow> waiting_lookup s key (requestId c)"
        using inv by (auto simp: fields playback_inv_def)
      have "waiting_lookup ?s key (requestId c)" if lo: "status c = Loading \<and> cMedia c = None"
      proof -
        from w [OF lo] obtain x where x: "x \<in> set (lookups s)" "live s x" "lkKey x = key" "lkRequest x = requestId c"
          by (auto simp: waiting_lookup_def)
        have "lkController x \<noteq> lkController l"
        proof
          assume eq: "lkController x = lkController l"
          then have "live s l" using x(2) by (simp add: live_def)
          moreover have "lkKey l = key"
            using inv_live [OF inv x(1,2)] inv_live [OF inv l \<open>live s l\<close>] eq x(3) inv
            by (auto simp: playback_inv_def dest: map_of_snd_inj)
          ultimately show False using done_ c lo by (auto simp: fields)
        qed
        with x show ?thesis by (auto simp: waiting_lookup_def fields live)
      qed
      with k show "key \<in> K \<and> (status c = Loading \<and> cMedia c = None \<longrightarrow> waiting_lookup ?s key (requestId c))" by blast
    qed
  qed
qed

text \<open>A camera that keeps its request and does not begin to load may be replaced.\<close>

lemma inv_cameraUpdate:
  assumes inv: "playback_inv K s" and key: "key \<in> K"
    and c: "\<not> (status c = Loading \<and> cMedia c = None)"
    and r: "map_option requestId (map_of (cameras s) key) = Some (requestId c)"
  shows "playback_inv K (cameraUpdate key c s)"
proof -
  let ?s = "cameraUpdate key c s"
  have fields: "lookups ?s = lookups s" "requests ?s = requests s" "aborted ?s = aborted s"
      "nextController ?s = nextController s" "seekGeneration ?s = seekGeneration s"
      "cameras ?s = map_set key c (cameras s)" by (simp_all add: cameraUpdate_def)
  have live: "live ?s l = live s l" for l by (simp add: live_def fields)
  have wait: "waiting_lookup ?s k n = waiting_lookup s k n" for k n by (simp add: waiting_lookup_def live fields)
  have ids: "map_option requestId (map_of (cameras ?s) k) = map_option requestId (map_of (cameras s) k)" for k
    using r by (auto simp: fields)
  have cams: "k \<in> K \<and> (status c' = Loading \<and> cMedia c' = None \<longrightarrow> waiting_lookup s k (requestId c'))"
    if "map_of (cameras ?s) k = Some c'" for k c'
  proof (cases "k = key")
    case True
    with that key c show ?thesis by (auto simp: fields)
  next
    case False
    with that have "map_of (cameras s) k = Some c'" by (simp add: fields)
    with inv show ?thesis by (simp add: playback_inv_def)
  qed
  show ?thesis
    using inv cams unfolding playback_inv_def live wait ids
    by (simp only: fields) blast
qed

lemma lookups_cameraUpdate [simp]:
  "lookups (cameraUpdate key c s) = lookups s" "live (cameraUpdate key c s) l = live s l"
  "cameras (cameraUpdate key c s) = map_set key c (cameras s)" "cameraKeys (cameraUpdate key c s) = cameraKeys s"
  by (simp_all add: cameraUpdate_def live_def)

lemma inv_key: "playback_inv K s \<Longrightarrow> l \<in> set (lookups s) \<Longrightarrow> live s l \<Longrightarrow> lkKey l \<in> K"
  using inv_live [of K s l] by (auto simp: playback_inv_def)

lemma inv_answered:
  assumes inv: "playback_inv K s" and l: "l \<in> set (lookups s)" "live s l"
    and c: "\<not> (status c = Loading \<and> cMedia c = None)" "requestId c = lkRequest l"
  shows "playback_inv K (finish_lookup l (cameraUpdate (lkKey l) c s))"
proof (rule inv_finish)
  show "playback_inv K (cameraUpdate (lkKey l) c s)"
    by (rule inv_cameraUpdate) (use inv inv_key [OF inv l] inv_live [OF inv l] c in auto)
qed (use l c in auto)

lemma inv_dead: "playback_inv K s \<Longrightarrow> l \<in> set (lookups s) \<Longrightarrow> \<not> live s l \<Longrightarrow> playback_inv K (finish_lookup l s)"
  by (rule inv_finish) auto

lemma inv_relabel:
  assumes inv: "playback_inv K s"
    and f: "\<And>x. lkController (f x) = lkController x" "\<And>x. lkKey (f x) = lkKey x" "\<And>x. lkRequest (f x) = lkRequest x"
      "\<And>x. lkGeneration (f x) = lkGeneration x"
  shows "playback_inv K (s\<lparr>lookups := map f (lookups s)\<rparr>)"
  using inv unfolding playback_inv_def waiting_lookup_def live_def by (simp add: f o_def)

lemma inv_lookup_answer:
  assumes inv: "playback_ok s" and l: "l \<in> set (lookups s)"
  shows "playback_inv (set (cameraKeys s)) (lookup_answer l result s)"
proof (cases "live s l")
  case True
  have good: "lkGeneration l = seekGeneration s" "lkKey l \<in> set (cameraKeys s)"
    using inv_live [OF inv l True] inv_key [OF inv l True] by auto
  have "\<not> (status (resolved_camera l result) = Loading \<and> cMedia (resolved_camera l result) = None)"
    by (cases "resolveStatus result"; cases "resolvedMedia result") (auto simp: resolved_camera_def)
  then have a: "playback_inv (set (cameraKeys s)) (finish_lookup l (cameraUpdate (lkKey l) (resolved_camera l result) s))"
    by (intro inv_answered inv l True) (auto simp: resolved_camera_def)
  have b: "playback_inv (set (cameraKeys s)) (s\<lparr>lookups := map (\<lambda>x. if lkController x = lkController l
      then x\<lparr>lkAt := t, lkSecond := True\<rparr> else x) (lookups s)\<rparr>)" for t
    by (rule inv_relabel [OF inv]) simp_all
  show ?thesis using True good a b by (simp add: lookup_answer_def split: option.split)
next
  case False
  with inv_dead [OF inv l False] show ?thesis by (simp add: lookup_answer_def)
qed

lemma inv_lookup_failure:
  assumes inv: "playback_inv K s" and l: "l \<in> set (lookups s)"
  shows "playback_inv K (lookup_failure l s)"
proof (cases "live s l")
  case True
  have "playback_inv K (finish_lookup l (cameraUpdate (lkKey l) (failed_camera (lkRequest l) LookupFailed) s))"
    by (rule inv_answered [OF inv l True]) (simp_all add: failed_camera_def loading_camera_def)
  with True inv_live [OF inv l True] show ?thesis by (simp add: lookup_failure_def)
next
  case False
  with inv_dead [OF inv l False] show ?thesis by (simp add: lookup_failure_def)
qed

lemma inv_aborted:
  assumes inv: "playback_inv K s" and ks: "\<forall>k \<in> set ks. k < nextController s"
    and free: "\<And>key c. map_of (cameras s) key = Some c \<Longrightarrow> status c = Loading \<Longrightarrow> cMedia c = None \<Longrightarrow>
       \<exists>l \<in> set (lookups s). lkController l \<notin> set ks \<and> live s l \<and> lkKey l = key \<and> lkRequest l = requestId c"
  shows "playback_inv K (s\<lparr>aborted := ks @ aborted s\<rparr>)"
  using inv ks free unfolding playback_inv_def waiting_lookup_def live_def by auto

lemma inv_timeout:
  assumes inv: "playback_inv K s" and l: "l \<in> set (lookups s)"
  shows "playback_inv K (lookup_timeout l s)"
proof (cases "live s l \<and> map_option requestId (map_of (cameras s) (lkKey l)) = Some (lkRequest l)")
  case True
  then have live: "live s l" by simp
  let ?c = "failed_camera (lkRequest l) LookupDelayed" and ?k = "lkController l"
  have key: "lkKey l \<in> K" using inv_key [OF inv l live] .
  have u: "playback_inv K (cameraUpdate (lkKey l) ?c s)"
    by (rule inv_cameraUpdate [OF inv key]) (use True in \<open>auto simp: failed_camera_def loading_camera_def\<close>)
  have "playback_inv K ((cameraUpdate (lkKey l) ?c s)\<lparr>aborted := [?k] @ aborted (cameraUpdate (lkKey l) ?c s)\<rparr>)"
  proof (rule inv_aborted [OF u])
    show "\<forall>k \<in> set [?k]. k < nextController (cameraUpdate (lkKey l) ?c s)"
      using inv l by (simp add: playback_inv_def cameraUpdate_def)
    fix key c
    assume c: "map_of (cameras (cameraUpdate (lkKey l) ?c s)) key = Some c" "status c = Loading" "cMedia c = None"
    then have other: "key \<noteq> lkKey l" "map_of (cameras s) key = Some c"
      by (auto simp: failed_camera_def split: if_splits)
    then have "waiting_lookup s key (requestId c)" using inv c by (simp add: playback_inv_def)
    then obtain x where x: "x \<in> set (lookups s)" "live s x" "lkKey x = key" "lkRequest x = requestId c"
      by (auto simp: waiting_lookup_def)
    have "lkController x \<noteq> ?k"
      using inv_live [OF inv x(1,2)] inv_live [OF inv l live] other(1) x(3) inv
      by (auto simp: playback_inv_def dest: map_of_snd_inj)
    with x show "\<exists>l' \<in> set (lookups (cameraUpdate (lkKey l) ?c s)). lkController l' \<notin> set [?k]
        \<and> live (cameraUpdate (lkKey l) ?c s) l' \<and> lkKey l' = key \<and> lkRequest l' = requestId c" by auto
  qed
  then have "playback_inv K (cameraUpdate (lkKey l) ?c (abort (Some ?k) s))"
    by (rule inv_same) (simp_all add: abort_def cameraUpdate_def)
  then show ?thesis using True by (simp add: lookup_timeout_def)
qed (use inv in \<open>auto simp: lookup_timeout_def\<close>)

text \<open>After \<open>requests.forEach(abort)\<close> no lookup is live; the cameras may be cleared.\<close>

lemma abort_all_dead:
  assumes inv: "playback_inv K s" and l: "l \<in> set (lookups s)"
  shows "\<not> live (abort_all s) l"
proof
  assume "live (abort_all s) l"
  then have n: "lkController l \<notin> snd ` set (requests s)" "live s l" by (auto simp: live_def abort_all_def)
  from inv_live [OF inv l n(2)] have "map_of (requests s) (lkKey l) = Some (lkController l)" by simp
  from map_of_SomeD [OF this] n(1) show False by force
qed

lemma inv_cleared:
  assumes inv: "playback_inv K s"
  shows "playback_inv K' ((abort_all s)\<lparr>cameras := [], seekGeneration := g\<rparr>)"
proof -
  have "\<forall>l \<in> set (lookups s). lkController l \<in> snd ` set (requests s) \<or> lkController l \<in> set (aborted s)"
    using abort_all_dead [OF inv] by (auto simp: live_def abort_all_def)
  then show ?thesis
    using inv unfolding playback_inv_def live_def abort_all_def by auto
qed

lemma resolve_fields [simp]:
  "cameraKeys (resolveCamera key t f s) = cameraKeys s" "videos (resolveCamera key t f s) = videos s"
  "playheadMs (resolveCamera key t f s) = playheadMs s" "seekGeneration (resolveCamera key t f s) = seekGeneration s"
  "mode (resolveCamera key t f s) = mode s" "playing (resolveCamera key t f s) = playing s"
  by (simp_all add: resolveCamera_def abort_def cameraUpdate_def Let_def split: option.split)

lemma resolve_all_keys [simp]: "cameraKeys (fold (\<lambda>key. resolveCamera key t f) ks s) = cameraKeys s"
  by (rule fold_frame) simp

lemma inv_resolve_all:
  "playback_inv K s \<Longrightarrow> set ks \<subseteq> K \<Longrightarrow> playback_inv K (fold (\<lambda>key. resolveCamera key t f) ks s)"
  by (induction ks arbitrary: s) (auto simp: inv_resolve)

lemma seek_started_keys [simp]: "cameraKeys (seek_started atMs go s) = cameraKeys s"
  by (simp add: seek_started_def abort_all_def)

lemma seek_Num: "seek (Num atMs) go s = fold (\<lambda>key. resolveCamera key atMs None) (cameraKeys s) (seek_started atMs go s)"
  by (simp add: seek_def Let_def)

lemma resolve_all_fields [simp]:
  "playheadMs (fold (\<lambda>key. resolveCamera key t f) ks s) = playheadMs s"
  "playing (fold (\<lambda>key. resolveCamera key t f) ks s) = playing s"
  "mode (fold (\<lambda>key. resolveCamera key t f) ks s) = mode s"
  by (induction ks arbitrary: s) simp_all

lemma seek_shows:
  "cameraKeys (seek (Num t) go s) = cameraKeys s"
  "playheadMs (seek (Num t) go s) = js_round t"
  "playing (seek (Num t) (Some b) s) = b"
  "mode (seek (Num t) go s) = PlaybackMode"
  by (simp add: seek_Num) (simp_all add: seek_Num seek_started_def)

lemma js_round_int [simp]: "js_round (of_int t) = of_int t"
proof -
  have "\<lfloor>1 / 2 :: rat\<rfloor> = 0" by (simp add: floor_eq_iff)
  then show ?thesis by (simp add: js_round_def)
qed

lemma inv_seek_started: "playback_inv K s \<Longrightarrow> playback_inv K' (seek_started atMs go s)"
proof -
  assume inv: "playback_inv K s"
  have "playback_inv K' ((abort_all (pauseVideos s))\<lparr>cameras := [], seekGeneration := Suc (seekGeneration s)\<rparr>)"
    by (rule inv_cleared) (use inv in simp)
  then show ?thesis
    by (rule inv_same) (simp_all add: seek_started_def abort_all_def)
qed

lemma ok_seek: "playback_ok s \<Longrightarrow> playback_ok (seek t go s)"
proof (cases t)
  case (Num atMs)
  assume inv: "playback_ok s"
  have "playback_inv (set (cameraKeys s)) (seek (Num atMs) go s)"
    unfolding seek_Num by (rule inv_resolve_all [OF inv_seek_started [OF inv]]) simp
  moreover have "cameraKeys (seek (Num atMs) go s) = cameraKeys s"
    by (simp add: seek_Num)
  ultimately show ?thesis using Num by simp
qed (simp_all add: seek_def)

lemma ok_goLive: "playback_ok s \<Longrightarrow> playback_ok (goLive now s)"
proof -
  assume inv: "playback_ok s"
  have "playback_inv (set (cameraKeys s)) ((abort_all (pauseVideos s))\<lparr>cameras := [], seekGeneration := Suc (seekGeneration s)\<rparr>)"
    by (rule inv_cleared) (use inv in simp)
  then have "playback_inv (set (cameraKeys s)) (goLive now s)"
    by (rule inv_same) (simp_all add: goLive_def abort_all_def)
  then show ?thesis by (simp add: goLive_def abort_all_def)
qed

lemma inv_forget:
  assumes inv: "playback_inv K s"
  shows "playback_inv (K - {key}) (forget_key key s)"
proof -
  let ?s = "forget_key key s"
  have fields: "lookups ?s = lookups s" "requests ?s = map_delete key (requests s)"
      "nextController ?s = nextController s" "seekGeneration ?s = seekGeneration s"
      "cameras ?s = map_delete key (cameras s)"
      "set (aborted ?s) = (case map_of (requests s) key of None \<Rightarrow> {} | Some k \<Rightarrow> {k}) \<union> set (aborted s)"
    by (auto simp: forget_key_def abort_def pause_video_def Let_def split: option.split)
  have live: "live ?s l \<longleftrightarrow> live s l \<and> lkKey l \<noteq> key" if l: "l \<in> set (lookups s)" for l
  proof -
    have "map_of (requests s) (lkKey l) = Some (lkController l)" if "live s l" using inv_live [OF inv l that] by simp
    moreover have "distinct (map snd (requests s))" using inv by (simp add: playback_inv_def)
    ultimately show ?thesis
      by (auto simp: live_def fields split: option.splits dest: map_of_snd_inj)
  qed
  have wait: "waiting_lookup ?s k n \<longleftrightarrow> waiting_lookup s k n" if "k \<noteq> key" for k n
    using that live by (auto simp: waiting_lookup_def fields)
  have sub: "snd ` set (map_delete key (requests s)) \<subseteq> snd ` set (requests s)" by (auto simp: map_delete_def)
  show ?thesis
    unfolding playback_inv_def
  proof (intro conjI)
    show "map_ok (requests ?s)" using inv by (simp add: fields playback_inv_def)
    show "distinct (map snd (requests ?s))" using inv by (simp add: fields playback_inv_def map_delete_def distinct_map_filter)
    show "\<forall>k \<in> set (aborted ?s). k < nextController ?s"
      using inv by (auto simp: fields playback_inv_def split: option.splits dest!: map_of_SomeD)
    show "\<forall>k \<in> snd ` set (requests ?s). k < nextController ?s"
    proof -
      have "\<forall>k \<in> snd ` set (requests s). k < nextController s" using inv by (simp add: playback_inv_def)
      with sub show ?thesis unfolding fields by blast
    qed
    show "\<forall>l \<in> set (lookups ?s). live ?s l \<longrightarrow> map_of (requests ?s) (lkKey l) = Some (lkController l)
        \<and> lkGeneration l = seekGeneration ?s \<and> map_option requestId (map_of (cameras ?s) (lkKey l)) = Some (lkRequest l)"
    proof (intro ballI impI)
      fix l
      assume "l \<in> set (lookups ?s)" "live ?s l"
      then have l: "l \<in> set (lookups s)" "live s l" "lkKey l \<noteq> key" using live by (auto simp: fields)
      from inv_live [OF inv l(1,2)] l(3)
      show "map_of (requests ?s) (lkKey l) = Some (lkController l)
        \<and> lkGeneration l = seekGeneration ?s \<and> map_option requestId (map_of (cameras ?s) (lkKey l)) = Some (lkRequest l)"
        by (simp add: fields)
    qed
    show "\<forall>k c. map_of (cameras ?s) k = Some c \<longrightarrow> k \<in> K - {key}
        \<and> (status c = Loading \<and> cMedia c = None \<longrightarrow> waiting_lookup ?s k (requestId c))"
      using inv wait by (auto simp: fields playback_inv_def)
  qed (use inv in \<open>simp_all add: fields playback_inv_def\<close>)
qed

lemma inv_forget_all: "playback_inv K s \<Longrightarrow> playback_inv (K - set ks) (fold forget_key ks s)"
proof (induction ks arbitrary: K s)
  case (Cons k ks)
  have "K - {k} - set ks = K - set (k # ks)" by auto
  with Cons.IH [OF inv_forget [OF Cons.prems, of k]] show ?case by simp
qed simp

lemma forget_cameras [simp]: "cameras (forget_key key s) = map_delete key (cameras s)"
  "cameraKeys (forget_key key s) = cameraKeys s"
  by (simp_all add: forget_key_def abort_def pause_video_def Let_def split: option.split)

lemma forget_all_cameras: "fst ` set (cameras (fold forget_key ks s)) = fst ` set (cameras s) - set ks"
  by (induction ks arbitrary: s) auto

lemma forget_all_keys [simp]: "cameraKeys (fold forget_key ks s) = cameraKeys s"
  by (rule fold_frame) simp

lemma keys_shows:
  "mode (keys_changed ks w) = mode w" "playheadMs (keys_changed ks w) = playheadMs w"
  "cameraKeys (keys_changed ks w) = key_signature ks"
proof -
  have "mode (forget_key k u) = mode u \<and> playheadMs (forget_key k u) = playheadMs u" for k u
    by (simp add: forget_key_def abort_def pause_video_def on_video_def Let_def split: option.split)
  then have "mode (fold forget_key xs u) = mode u \<and> playheadMs (fold forget_key xs u) = playheadMs u" for xs u
    by (induction xs arbitrary: u) simp_all
  then show "mode (keys_changed ks w) = mode w" "playheadMs (keys_changed ks w) = playheadMs w"
    "cameraKeys (keys_changed ks w) = key_signature ks"
    by (simp_all add: keys_changed_def keys_effect_def Let_def)
qed

lemma keys_changed_same: "cameraKeys s = key_signature ks \<Longrightarrow> keys_changed ks s = s"
  by (simp add: keys_changed_def)

lemma ok_keys_effect: "playback_ok s \<Longrightarrow> playback_ok (keys_effect nextKeys s)"
proof -
  assume inv: "playback_ok s"
  let ?gone = "filter (\<lambda>k. k \<notin> set nextKeys) (map_keys (cameras s))"
  define s1 where "s1 = fold forget_key ?gone (s\<lparr>cameraKeys := nextKeys\<rparr>)"
  have "playback_inv (set (cameraKeys s)) (s\<lparr>cameraKeys := nextKeys\<rparr>)" using inv by simp
  from inv_forget_all [OF this, of ?gone]
  have "playback_inv (set (cameraKeys s) - set ?gone) s1" by (simp add: s1_def)
  moreover have "fst ` set (cameras s1) \<subseteq> set nextKeys"
    by (auto simp: s1_def forget_all_cameras map_keys_def)
  ultimately have s1: "playback_inv (set nextKeys) s1" by (rule inv_mono)
  have keys: "cameraKeys s1 = nextKeys" by (simp add: s1_def)
  have "playback_inv (set nextKeys) (fold (\<lambda>key. resolveCamera key t None) (filter P nextKeys) s1)" for t P
    by (rule inv_resolve_all [OF s1]) auto
  then show ?thesis using s1 keys
    by (simp add: keys_effect_def s1_def [symmetric] Let_def)
qed

lemma inv_camera:
  "playback_inv K s \<Longrightarrow> map_of (cameras s) key = Some c \<Longrightarrow> key \<in> K"
  by (simp add: playback_inv_def)

lemma ok_cameraUpdate:
  assumes "playback_ok s" and "map_of (cameras s) key = Some c"
    and "\<not> (status c' = Loading \<and> cMedia c' = None)" and "requestId c' = requestId c"
  shows "playback_ok (cameraUpdate key c' s)"
  using inv_cameraUpdate [OF assms(1) inv_camera [OF assms(1,2)] assms(3)] assms(2,4) by simp

lemma ok_attach: "playback_ok s \<Longrightarrow> playback_ok (attachVideo key v s)"
proof -
  assume ok: "playback_ok s"
  then have s1: "playback_ok (s\<lparr>videos := map_set key v (videos s)\<rparr>)" by simp
  have "playback_ok (cameraUpdate key (c\<lparr>status := Loading\<rparr>) (s\<lparr>videos := map_set key v (videos s)\<rparr>))"
    if "map_of (cameras s) key = Some c" "cMedia c \<noteq> None" for c
    by (rule ok_cameraUpdate [OF s1, of _ c]) (use that in auto)
  with s1 show ?thesis by (auto simp: attachVideo_def Let_def split: option.split)
qed

lemma ok_ready: "playback_ok s \<Longrightarrow> playback_ok (videoReady key r s)"
proof -
  assume ok: "playback_ok s"
  have "playback_ok (cameraUpdate key (c\<lparr>status := Ready\<rparr>) s)" if "map_of (cameras s) key = Some c" for c
    by (rule ok_cameraUpdate [OF ok that]) auto
  with ok show ?thesis by (auto simp: videoReady_def split: option.split)
qed

lemma ok_error: "playback_ok s \<Longrightarrow> playback_ok (videoError key r e s)"
proof -
  assume ok: "playback_ok s"
  have "playback_ok (cameraUpdate key (c\<lparr>status := Failed, cError := Some e\<rparr>)
          (case map_of (videos s) key of None \<Rightarrow> s | Some v \<Rightarrow> pause_video v s))"
    if "map_of (cameras s) key = Some c" for c
    by (rule ok_cameraUpdate [of _ _ c]) (use ok that in \<open>auto simp: pause_video_def split: option.split\<close>)
  with ok show ?thesis by (auto simp: videoError_def split: option.split)
qed

lemma ok_resolve: "playback_ok s \<Longrightarrow> key \<in> set (cameraKeys s) \<Longrightarrow> playback_ok (resolveCamera key t f s)"
  using inv_resolve by simp

lemma ok_ended: "playback_ok s \<Longrightarrow> playback_ok (videoEnded key r s)"
proof -
  assume ok: "playback_ok s"
  have "playback_ok (resolveCamera key t f (if b then s else s\<lparr>playheadMs := p\<rparr>))"
    if "map_of (cameras s) key = Some c" for c t f b p
    by (rule ok_resolve) (use ok inv_camera [OF ok that] in auto)
  with ok show ?thesis by (simp add: videoEnded_def split: option.split)
qed

lemma ok_drive: "playback_ok s \<Longrightarrow> playback_ok (drive_video atMs m v s)"
  by (auto simp: drive_video_def Let_def)

lemma ok_tick_camera: "playback_ok s \<Longrightarrow> playback_ok (tick_camera atMs now key s)"
proof -
  assume ok: "playback_ok s"
  have a: "playback_ok (resolveCamera key t f (case map_of (videos s) key of None \<Rightarrow> s | Some v \<Rightarrow> pause_video v s))"
    if "map_of (cameras s) key = Some c" for c t f
    by (rule ok_resolve) (use ok inv_camera [OF ok that] in \<open>auto simp: pause_video_def split: option.split\<close>)
  have b: "playback_ok (resolveCamera key t f (s\<lparr>lastPoll := lp\<rparr>))" if "map_of (cameras s) key = Some c" for c t f lp
    by (rule ok_resolve) (use ok inv_camera [OF ok that] in auto)
  have d: "playback_ok (pause_video v (on_video v f s))" "playback_ok (drive_video atMs m v (on_video v f s))" for v f m
    using ok by (auto simp: pause_video_def intro!: ok_drive)
  have shown: "playback_ok (tick_shown atMs key m s)" if "map_of (cameras s) key = Some c" for c m
  proof (cases "playing s \<and> atMs \<ge> endMs m")
    case True
    with a [OF that] show ?thesis by (simp add: tick_shown_def split: option.split)
  next
    case False
    with ok d show ?thesis by (simp only: tick_shown_def if_False Let_def split: option.split if_split) simp
  qed
  have other: "playback_ok (tick_other atMs now key c s)" if "map_of (cameras s) key = Some c" for c
    using ok b [OF that] by (simp add: tick_other_def)
  show ?thesis
    using ok shown other by (simp add: tick_camera_def split: option.split bool.split)
qed

lemma ok_tick: "playback_ok s \<Longrightarrow> playback_ok (tick now s)"
proof -
  assume ok: "playback_ok s"
  have "playback_ok s' \<Longrightarrow> playback_ok (fold (tick_camera t now) ks s')" for t ks s'
    by (induction ks arbitrary: s') (auto simp: ok_tick_camera)
  with ok show ?thesis by (simp add: tick_def Let_def)
qed

lemma ok_retry:
  assumes ok: "playback_ok s" and key: "case key of Some k \<Rightarrow> k \<in> set (cameraKeys s) | None \<Rightarrow> True"
  shows "playback_ok (retry_cameras key s)"
proof -
  have "playback_inv (set (cameraKeys s)) (fold (\<lambda>k. resolveCamera k t None) (targets key s) s)" for t
    by (rule inv_resolve_all [OF ok]) (use key in \<open>auto simp: targets_def split: option.splits if_splits\<close>)
  with ok show ?thesis by (simp add: retry_cameras_def)
qed

lemma fold_video_inv: "playback_inv K (fold (\<lambda>(key, v). on_video v (f key)) vs s) = playback_inv K s"
  by (rule fold_frame [of "playback_inv K"]) (auto split: prod.split)

lemma fold_video_keys: "cameraKeys (fold (\<lambda>(key, v). on_video v (f key)) vs s) = cameraKeys s"
  by (rule fold_frame [of cameraKeys]) (auto split: prod.split)

lemma fold_video_aborted: "aborted (fold (\<lambda>(key, v). on_video v (f key)) vs s) = aborted s"
  by (rule fold_frame [of aborted]) (auto split: prod.split)

lemma ok_with_lookup:
  assumes ok: "playback_ok s" and f: "\<And>l. l \<in> set (lookups s) \<Longrightarrow> playback_ok (f l s)"
  shows "playback_ok (with_lookup k f s)"
  using assms by (auto simp: with_lookup_def find_Some_iff split: option.split)

lemma lookup_keys [simp]:
  "cameraKeys (lookup_answer l r s) = cameraKeys s" "cameraKeys (lookup_failure l s) = cameraKeys s"
  "cameraKeys (lookup_timeout l s) = cameraKeys s"
  by (auto simp: lookup_answer_def lookup_failure_def lookup_timeout_def finish_lookup_def abort_def split: option.split)

lemma ok_exec:
  assumes ok: "playback_ok s" and key: "\<And>k. i = Retry (Some k) \<Longrightarrow> k \<in> set (cameraKeys s)"
  shows "playback_ok (playback_exec i s)"
proof (cases i)
  case (Retry key)
  with assms ok_retry [OF ok, of key] show ?thesis by (simp split: option.splits)
next
  case (LookupAnswer k r)
  with ok_with_lookup [OF ok] inv_lookup_answer [OF ok] show ?thesis by simp
next
  case (LookupFailure k)
  with ok_with_lookup [OF ok] inv_lookup_failure [OF ok] show ?thesis by simp
next
  case (LookupTimeout k)
  with ok_with_lookup [OF ok] inv_timeout [OF ok] show ?thesis by simp
next
  case (PlaySettled key r v answer)
  have e: "playback_ok (videoError key r CannotStart s)" using ok by (rule ok_error)
  show ?thesis using PlaySettled ok e by (simp add: play_settled_def pause_video_def Let_def split: play_answer.split)
next
  case (KeysChanged ks)
  with ok ok_keys_effect [OF ok] show ?thesis by (simp add: keys_changed_def)
next
  case (Detach key v)
  with ok show ?thesis by (simp add: detachVideo_def pause_video_def Let_def)
next
  case (SetVolume r)
  with ok show ?thesis by (cases r) (simp_all add: setVolume_def Let_def fold_video_inv fold_video_keys)
next
  case (SetRate r)
  with ok show ?thesis by (cases r) (simp_all add: setRate_def)
next
  case (SetMuted b)
  with ok show ?thesis by (simp add: setMuted_def fold_video_inv fold_video_keys)
next
  case (SetVideoMuted key b)
  with ok show ?thesis by (simp add: setVideoMuted_def Let_def split: option.split)
next
  case (Step x)
  with ok ok_seek [OF ok] show ?thesis by (simp add: step_by_def)
next
  case (NextRecording key)
  with ok ok_seek [OF ok] show ?thesis by (simp add: nextRecording_def Let_def split: list.split)
qed (use ok in \<open>simp_all add: ok_seek ok_attach ok_ready ok_error ok_ended ok_tick ok_goLive pause_def play_def togglePlaying_def\<close>)

text \<open>The page retries only a camera that it shows.\<close>

fun retries_shown :: "playback_input list \<Rightarrow> workspace \<Rightarrow> bool" where
  "retries_shown [] s = True"
| "retries_shown (i # ins) s =
     ((case i of Retry (Some k) \<Rightarrow> k \<in> set (cameraKeys s) | _ \<Rightarrow> True) \<and> retries_shown ins (playback_exec i s))"

lemma ok_run: "playback_ok s \<Longrightarrow> retries_shown ins s \<Longrightarrow> playback_ok (playback_run ins s)"
  unfolding playback_run_def
proof (induction ins arbitrary: s)
  case (Cons i ins)
  have "playback_ok (playback_exec i s)"
    by (rule ok_exec [OF Cons.prems(1)]) (use Cons.prems(2) in simp)
  with Cons show ?case by simp
qed simp

lemma ok_new [simp]: "playback_ok (new_workspace initialMode initialAtMs now)"
  by (simp add: playback_inv_def new_workspace_def)

lemma with_lookup_eq:
  assumes "playback_inv K s" and "l \<in> set (lookups s)"
  shows "with_lookup (lkController l) f s = f l s"
proof -
  have "find (\<lambda>x. lkController x = lkController l) (lookups s) = Some l"
  proof (cases "find (\<lambda>x. lkController x = lkController l) (lookups s)")
    case None
    with assms(2) show ?thesis by (auto simp: find_None_iff)
  next
    case (Some x)
    then have "x \<in> set (lookups s)" "lkController x = lkController l" by (auto simp: find_Some_iff)
    with assms have "x = l" by (auto simp: playback_inv_def distinct_map inj_on_def)
    with Some show ?thesis by simp
  qed
  then show ?thesis by (simp add: with_lookup_def)
qed

section \<open>Aborted lookups stay aborted\<close>

lemma aborted_resolve: "set (aborted s) \<subseteq> set (aborted (resolveCamera key t f s))"
  by (auto simp: resolveCamera_def abort_def cameraUpdate_def Let_def split: option.split)

lemma aborted_fold: "(\<And>x s. set (aborted s) \<subseteq> set (aborted (g x s))) \<Longrightarrow> set (aborted s) \<subseteq> set (aborted (fold g xs s))"
proof (induction xs arbitrary: s)
  case (Cons x xs)
  from Cons.prems [of s x] Cons.IH [of "g x s"] Cons.prems show ?case by auto
qed simp

lemma aborted_seek: "set (aborted s) \<subseteq> set (aborted (seek t go s))"
proof (cases t)
  case (Num x)
  have "set (aborted s) \<subseteq> set (aborted (seek_started x go s))" by (auto simp: seek_started_def abort_all_def)
  then show ?thesis
    using Num aborted_fold [of "\<lambda>key. resolveCamera key x None" "seek_started x go s" "cameraKeys s"] aborted_resolve
    by (simp add: seek_Num)
qed (simp_all add: seek_def)

lemma aborted_same [simp]:
  "aborted (cameraUpdate key c s) = aborted s" "aborted (finish_lookup l s) = aborted s" "aborted (pause_video v s) = aborted s"
  "aborted (drive_video atMs m v s) = aborted s" "aborted (videoError key r e s) = aborted s"
  by (auto simp: cameraUpdate_def finish_lookup_def pause_video_def drive_video_def videoError_def Let_def split: option.split)

lemma aborted_tick_camera: "set (aborted s) \<subseteq> set (aborted (tick_camera atMs now key s))"
proof -
  have "set (aborted s) \<subseteq> set (aborted (tick_shown atMs key m s))" for m
    using aborted_resolve [of "case map_of (videos s) key of None \<Rightarrow> s | Some v \<Rightarrow> pause_video v s" key atMs "Some (endMs m)"]
    by (auto simp: tick_shown_def Let_def split: option.splits)
  moreover have "set (aborted s) \<subseteq> set (aborted (tick_other atMs now key c s))" for c
    using aborted_resolve [of "s\<lparr>lastPoll := map_set key now (lastPoll s)\<rparr>" key atMs "continuationFromMs c"]
    by (auto simp: tick_other_def)
  ultimately show ?thesis by (simp add: tick_camera_def split: option.split bool.split)
qed

lemma aborted_keys: "set (aborted s) \<subseteq> set (aborted (keys_effect ks s))"
proof -
  define s1 where "s1 = fold forget_key (filter (\<lambda>k. k \<notin> set ks) (map_keys (cameras s))) (s\<lparr>cameraKeys := ks\<rparr>)"
  have f: "set (aborted x) \<subseteq> set (aborted (forget_key k x))" for k x
    by (auto simp: forget_key_def abort_def Let_def split: option.split)
  have "set (aborted (s\<lparr>cameraKeys := ks\<rparr>)) \<subseteq> set (aborted s1)"
    unfolding s1_def by (rule aborted_fold) (rule f)
  moreover have "set (aborted s1) \<subseteq> set (aborted (fold (\<lambda>key. resolveCamera key t None) xs s1))" for t xs
    by (rule aborted_fold) (rule aborted_resolve)
  ultimately show ?thesis by (auto simp: keys_effect_def s1_def [symmetric] Let_def)
qed

lemma aborted_exec: "set (aborted s) \<subseteq> set (aborted (playback_exec i s))"
proof (cases i)
  case (Tick now)
  have "set (aborted x) \<subseteq> set (aborted (fold (tick_camera t now) ks x))" for t ks x
    by (rule aborted_fold) (rule aborted_tick_camera)
  from this [of "s\<lparr>preparation := False, playheadMs := clock_at (s\<lparr>preparation := False\<rparr>)\<rparr>"]
  show ?thesis by (auto simp: Tick tick_def Let_def)
next
  case (KeysChanged ks)
  with aborted_keys show ?thesis by (auto simp: keys_changed_def)
next
  case (VideoEnded key r)
  have "set (aborted s) \<subseteq> set (aborted (resolveCamera key t f (if b then s else s\<lparr>playheadMs := p\<rparr>)))" for t f b p
    using aborted_resolve [of "if b then s else s\<lparr>playheadMs := p\<rparr>" key t f] by (cases b) simp_all
  with VideoEnded show ?thesis by (auto simp: videoEnded_def split: option.split)
next
  case (Retry key)
  have "set (aborted s) \<subseteq> set (aborted (fold (\<lambda>k. resolveCamera k t None) ks s))" for t ks
    by (rule aborted_fold) (rule aborted_resolve)
  with Retry show ?thesis by (auto simp: retry_cameras_def)
next
  case (LookupAnswer k r)
  then show ?thesis by (auto simp: with_lookup_def lookup_answer_def split: option.split)
next
  case (SetVolume r)
  then show ?thesis by (cases r) (simp_all add: setVolume_def Let_def fold_video_aborted)
next
  case (SetMuted b)
  then show ?thesis by (simp add: setMuted_def fold_video_aborted)
next
  case (SetRate r)
  then show ?thesis by (cases r) (simp_all add: setRate_def)
next
  case (NextRecording key)
  with aborted_seek show ?thesis by (auto simp: nextRecording_def Let_def split: list.split)
next
  case (Step x)
  with aborted_seek show ?thesis by (auto simp: step_by_def)
qed (use aborted_seek in \<open>auto simp: attachVideo_def detachVideo_def videoReady_def play_settled_def with_lookup_def
      lookup_failure_def lookup_timeout_def abort_def pause_def play_def togglePlaying_def setVideoMuted_def goLive_def
      abort_all_def Let_def split: option.split play_answer.split\<close>)

lemma aborted_run: "set (aborted s) \<subseteq> set (aborted (playback_run ins s))"
  unfolding playback_run_def using aborted_fold [of playback_exec s ins] aborted_exec by blast

lemma dead_answer:
  assumes "k \<in> set (aborted s)"
  shows "cameras (playback_exec (LookupAnswer k r) s) = cameras s" and "cameras (playback_exec (LookupFailure k) s) = cameras s"
    and "cameras (playback_exec (LookupTimeout k) s) = cameras s"
  using assms
  by (auto simp: with_lookup_def lookup_answer_def lookup_failure_def lookup_timeout_def live_def finish_lookup_def find_Some_iff
      split: option.split)

section \<open>The clock\<close>

lemma fold_min_mem: "fold min xs (x :: rat) \<in> insert x (set xs)"
proof (induction xs arbitrary: x)
  case (Cons y ys)
  from Cons [of "min y x"] show ?case by (auto simp: min_def split: if_splits)
qed simp

lemma resumeBoundaryClock_cases:
  "resumeBoundaryClock t ms = t \<or> (\<exists>m \<in> set ms. resumeBoundaryClock t ms = startMs m
     \<and> t < startMs m \<and> startMs m \<le> t + 1000 \<and> (\<forall>m' \<in> set ms. \<not> containsPlaybackTime m' t))"
proof (cases "filter (\<lambda>st. st > t \<and> st - t \<le> 1000) (map startMs ms)")
  case (Cons x xs)
  have "fold min xs x \<in> set (filter (\<lambda>st. st > t \<and> st - t \<le> 1000) (map startMs ms))"
    using fold_min_mem [of xs x] Cons by simp
  then have "\<exists>m \<in> set ms. fold min xs x = startMs m \<and> t < startMs m \<and> startMs m \<le> t + 1000"
    by (auto simp: algebra_simps)
  with Cons show ?thesis by (auto simp: resumeBoundaryClock_def)
qed (simp add: resumeBoundaryClock_def)

text \<open>A video that runs and shows a recording which began before the playhead, and its position in
  absolute time, at most the end of the recording.\<close>

definition presenting :: "workspace \<Rightarrow> jsstring \<times> nat \<Rightarrow> media \<Rightarrow> bool" where
  "presenting s kv m \<longleftrightarrow> kv \<in> set (videos s)
     \<and> (\<exists>c. map_of (cameras s) (fst kv) = Some c \<and> cMedia c = Some m \<and> showable (status c))
     \<and> startMs m \<le> playheadMs s
     \<and> (let v = elements s (snd kv) in \<not> paused v \<and> \<not> seeking v \<and> 2 \<le> readyState v)"

definition reached :: "workspace \<Rightarrow> jsstring \<times> nat \<Rightarrow> media \<Rightarrow> rat" where
  "reached s kv m = min (endMs m) (startMs m + (currentTime (elements s (snd kv)) - mediaStartSeconds m) * 1000)"

lemma presenting_ready: "presenting s kv m \<Longrightarrow> m \<in> set (ready_media s)"
  by (force simp: presenting_def ready_media_def map_keys_def)

lemma presented_shown: "presenting s kv m \<Longrightarrow> presented s kv t = max t (reached s kv m)"
  by (auto simp: presenting_def presented_def reached_def absoluteTimeAt_def Let_def)

lemma presented_other: "kv \<in> set (videos s) \<Longrightarrow> \<forall>m. \<not> presenting s kv m \<Longrightarrow> presented s kv t = t"
  by (auto simp: presenting_def presented_def Let_def not_less split: option.split)

lemma presented_mono: "t \<le> presented s kv t"
  by (auto simp: presented_def Let_def split: option.split)

lemma fold_presented_mono: "t \<le> fold (presented s) vs t"
  by (induction vs arbitrary: t) (auto intro: order_trans [OF presented_mono])

lemma fold_presented:
  "set vs \<subseteq> set (videos s) \<Longrightarrow>
   (fold (presented s) vs t = t \<or> (\<exists>kv m. presenting s kv m \<and> m \<in> set (ready_media s) \<and> fold (presented s) vs t = reached s kv m))
   \<and> (\<forall>kv \<in> set vs. \<forall>m. presenting s kv m \<longrightarrow> reached s kv m \<le> fold (presented s) vs t)"
proof (induction vs arbitrary: t)
  case (Cons v vs)
  let ?u = "presented s v t"
  have "?u = t \<or> (\<exists>m. presenting s v m \<and> m \<in> set (ready_media s) \<and> ?u = reached s v m)"
  proof (cases "\<exists>m. presenting s v m")
    case True
    then obtain m where m: "presenting s v m" by blast
    with presented_shown [OF m, of t] presenting_ready [OF m] show ?thesis by (auto simp: max_def)
  next
    case False
    with presented_other [of v s t] Cons.prems show ?thesis by simp
  qed
  moreover have "reached s v m \<le> fold (presented s) vs ?u" if "presenting s v m" for m
    using fold_presented_mono [of ?u s vs] presented_shown [OF that, of t] by simp
  moreover have "(fold (presented s) vs ?u = ?u
      \<or> (\<exists>kv m. presenting s kv m \<and> m \<in> set (ready_media s) \<and> fold (presented s) vs ?u = reached s kv m))
    \<and> (\<forall>kv \<in> set vs. \<forall>m. presenting s kv m \<longrightarrow> reached s kv m \<le> fold (presented s) vs ?u)"
    using Cons by simp
  ultimately show ?case unfolding fold_Cons o_apply list.set by (metis insertE)
qed simp

text \<open>What a tick that moves the clock makes of it: \<open>u\<close> is the time the running videos have reached.\<close>

definition clock_moves :: "workspace \<Rightarrow> rat \<Rightarrow> bool" where
  "clock_moves s q \<longleftrightarrow>
     (\<exists>u. playheadMs s \<le> u
        \<and> (u = playheadMs s \<or> (\<exists>kv m. presenting s kv m \<and> m \<in> set (ready_media s) \<and> u = reached s kv m))
        \<and> (\<forall>kv m. presenting s kv m \<longrightarrow> reached s kv m \<le> u)
        \<and> (q = u \<or> (\<exists>m \<in> set (ready_media s). q = startMs m \<and> u < q \<and> q \<le> u + 1000
                       \<and> (\<forall>m' \<in> set (ready_media s). \<not> (startMs m' \<le> u \<and> u < endMs m')))))"

lemma clock_at_moves: "playing s \<Longrightarrow> clock_moves s (clock_at s)"
proof -
  assume p: "playing s"
  let ?u = "fold (presented s) (videos s) (playheadMs s)"
  have "?u = playheadMs s \<or> (\<exists>kv m. presenting s kv m \<and> m \<in> set (ready_media s) \<and> ?u = reached s kv m)"
    and "\<forall>kv m. presenting s kv m \<longrightarrow> reached s kv m \<le> ?u"
    using fold_presented [of "videos s" s "playheadMs s"] by (simp_all add: presenting_def)
  moreover have "playheadMs s \<le> ?u" by (rule fold_presented_mono)
  moreover have "clock_at s = ?u \<or> (\<exists>m \<in> set (ready_media s). clock_at s = startMs m \<and> ?u < clock_at s \<and> clock_at s \<le> ?u + 1000
        \<and> (\<forall>m' \<in> set (ready_media s). \<not> (startMs m' \<le> ?u \<and> ?u < endMs m')))"
    using resumeBoundaryClock_cases [of ?u "ready_media s"] by (auto simp: clock_at_def p containsPlaybackTime_def)
  ultimately show ?thesis unfolding clock_moves_def by blast
qed

lemma clock_moves_preparation [simp]: "clock_moves (s\<lparr>preparation := b\<rparr>) = clock_moves s"
  by (rule ext) (simp add: clock_moves_def presenting_def reached_def ready_media_def)

lemma playhead_tick_camera [simp]: "playheadMs (tick_camera atMs now key s) = playheadMs s"
  by (auto simp: tick_camera_def tick_shown_def tick_other_def drive_video_def pause_video_def Let_def split: option.split bool.split)

lemma paused_fold:
  "paused (elements s w) \<or> (\<exists>key. (key, w) \<in> set vs) \<Longrightarrow> paused (elements (fold (\<lambda>(key, v). pause_video v) vs s) w)"
proof (induction vs arbitrary: s)
  case (Cons kv vs)
  obtain k v where kv: "kv = (k, v)" by (cases kv)
  have "paused (elements (pause_video v s) w) \<or> (\<exists>key. (key, w) \<in> set vs)"
    using Cons.prems kv by (auto simp: pause_video_def on_video_def)
  from Cons.IH [OF this] kv show ?case by simp
qed simp

section \<open>Properties\<close>

lemma lookup_expires:
  assumes inv: "playback_ok s" and c: "map_of (cameras s) key = Some c" and ld: "status c = Loading" "cMedia c = None"
  obtains l where "l \<in> set (lookups s)" "lkKey l = key" "lkRequest l = requestId c"
    and "map_of (cameras (playback_exec (LookupTimeout (lkController l)) s)) key = Some (failed_camera (requestId c) LookupDelayed)"
proof -
  from inv c ld have "waiting_lookup s key (requestId c)" by (simp add: playback_inv_def)
  then obtain l where l: "l \<in> set (lookups s)" "live s l" "lkKey l = key" "lkRequest l = requestId c"
    by (auto simp: waiting_lookup_def)
  have "playback_exec (LookupTimeout (lkController l)) s = lookup_timeout l s"
    using with_lookup_eq [OF inv l(1)] by simp
  moreover have "map_of (cameras (lookup_timeout l s)) key = Some (failed_camera (requestId c) LookupDelayed)"
    using l c by (simp add: lookup_timeout_def cameraUpdate_def abort_def)
  ultimately show ?thesis using that l by metis
qed


lemma js_round_numeral [simp]: "js_round (numeral n) = numeral n"
proof -
  have "\<lfloor>of_int z + 1 / 2 :: rat\<rfloor> = z" for z by (rule floor_unique) simp_all
  from this [of "numeral n"] show ?thesis by (simp only: js_round_def of_int_numeral)
qed

lemmas playback_simps = playback_run_def new_workspace_def keys_changed_def key_signature_def keys_effect_def seek_def
  seek_started_def abort_all_def pauseVideos_def resolveCamera_def abort_def cameraUpdate_def loading_camera_def
  with_lookup_def lookup_answer_def lookup_failure_def lookup_timeout_def live_def finish_lookup_def
  resolved_camera_def continuationSeekAt_def failed_camera_def attachVideo_def videoReady_def showable_def tick_def
  clock_at_def presented_def ready_media_def resumeBoundaryClock_def containsPlaybackTime_def absoluteTimeAt_def
  mediaTimeAt_def tick_camera_def tick_shown_def drive_video_def on_video_def pause_video_def waiting_for_def map_keys_def Let_def


lemma seek_Num_fields:
  "aborted (seek_started x go s) = map snd (requests s) @ aborted s"
  by (simp add: seek_started_def abort_all_def)

lemma seek_kills:
  assumes inv: "playback_ok s" and l: "l \<in> set (lookups s)"
  shows "lkController l \<in> set (aborted (playback_exec (Seek (Num x) go) s))"
proof -
  have "lkController l \<in> set (aborted (abort_all s))"
    using abort_all_dead [OF inv l] by (simp add: live_def)
  then have "lkController l \<in> set (aborted (seek_started x go s))" by (simp add: seek_Num_fields abort_all_def)
  moreover have "set (aborted (seek_started x go s)) \<subseteq> set (aborted (seek (Num x) go s))"
    using aborted_fold [of "\<lambda>key. resolveCamera key x None" "seek_started x go s" "cameraKeys s"] aborted_resolve
    by (simp add: seek_Num)
  ultimately show ?thesis by auto
qed

text \<open>An answer that was asked for before a seek never shows. Whatever happens after the seek, the
  answer, the failure and the timeout of a lookup that was in flight when the user sought leave every
  camera as it is.\<close>

theorem answers_before_seek_ignored:
  assumes "retries_shown ins (new_workspace m t now)" and "l \<in> set (lookups (playback_run ins (new_workspace m t now)))"
    and "i \<in> {LookupAnswer (lkController l) r, LookupFailure (lkController l), LookupTimeout (lkController l)}"
  shows "cameras (playback_exec i (playback_run (ins @ Seek (Num x) go # later) (new_workspace m t now)))
       = cameras (playback_run (ins @ Seek (Num x) go # later) (new_workspace m t now))"
proof -
  let ?s = "playback_run ins (new_workspace m t now)"
  let ?t = "playback_exec (Seek (Num x) go) ?s"
  have "playback_ok ?s" by (rule ok_run) (use assms in simp_all)
  from seek_kills [OF this assms(2)] have "lkController l \<in> set (aborted ?t)" .
  then have "lkController l \<in> set (aborted (playback_run later ?t))" using aborted_run by blast
  from dead_answer [OF this] assms(3) show ?thesis by (auto simp: playback_run_def)
qed

theorem answers_before_seek_ignored_witness:
  "let l = \<lparr>lkKey = js ''a'', lkAt = 5000, lkController = 0, lkGeneration = 1, lkRequest = 1, lkFrom = None, lkSecond = False\<rparr>;
       s = playback_run [KeysChanged [js ''a''], Seek (Num 5000) None, Seek (Num 7000) None] (new_workspace LiveMode None 9000)
   in cameras (playback_exec (LookupTimeout (lkController l)) s) = cameras s \<and> cameras s = [(js ''a'', loading_camera 2)]"
  using answers_before_seek_ignored [of "[KeysChanged [js ''a''], Seek (Num 5000) None]" LiveMode None 9000
      "\<lparr>lkKey = js ''a'', lkAt = 5000, lkController = 0, lkGeneration = 1, lkRequest = 1, lkFrom = None, lkSecond = False\<rparr>"
      "LookupTimeout 0" _ 7000 None "[]"]
  by (simp add: playback_simps js_def)

lemma playhead_tick:
  "mode s = PlaybackMode \<Longrightarrow> hasSelection s \<Longrightarrow> \<not> (preparation s \<and> list_ex (waiting_for s) (cameraKeys s)) \<Longrightarrow>
   playheadMs (tick now s) = clock_at (s\<lparr>preparation := False\<rparr>)"
  by (auto simp: tick_def Let_def fold_frame [of playheadMs])

lemma ready_media_preparation [simp]: "ready_media (s\<lparr>preparation := b\<rparr>) = ready_media s"
  by (simp add: ready_media_def)

lemma all_paused:
  "(key, v) \<in> set (videos s) \<Longrightarrow> paused (elements (pauseVideos s) v)"
  unfolding pauseVideos_def by (rule paused_fold) auto

text \<open>C13: the shared clock of a playback. A tick moves the playhead only while playing and while no
  camera is being prepared after a seek. It moves it to \<open>u\<close>, the furthest position that a running video has
  reached in a ready recording which began before the playhead and whose end it does not pass, or leaves it
  where it is when no video is ahead of it; only when no ready recording holds \<open>u\<close> does it jump on, to the
  beginning of a ready recording at most one second later. While a camera is being prepared every
  attached video is paused.\<close>

theorem playback_clock:
  assumes "mode s = PlaybackMode" and "hasSelection s"
    and "wait = (preparation s \<and> (\<exists>key \<in> set (cameraKeys s). waiting_for s key))"
    and "q = playheadMs (tick now s)"
  shows "(if playing s \<and> \<not> wait
      then (\<exists>u. playheadMs s \<le> u
          \<and> (u = playheadMs s \<or> (\<exists>kv m. presenting s kv m \<and> m \<in> set (ready_media s) \<and> u = reached s kv m))
          \<and> (\<forall>kv m. presenting s kv m \<longrightarrow> reached s kv m \<le> u)
          \<and> (q = u \<or> (\<exists>m \<in> set (ready_media s). q = startMs m \<and> u < q \<and> q \<le> u + 1000
                         \<and> (\<forall>m' \<in> set (ready_media s). \<not> (startMs m' \<le> u \<and> u < endMs m')))))
      else q = playheadMs s)
    \<and> (wait \<longrightarrow> (\<forall>(key, v) \<in> set (videos s). paused (elements (tick now s) v)))"
proof (cases wait)
  case True
  with assms show ?thesis by (auto simp: tick_def list_ex_iff all_paused)
next
  case False
  then have q: "q = clock_at (s\<lparr>preparation := False\<rparr>)"
    using assms by (auto simp: playhead_tick list_ex_iff)
  show ?thesis
  proof (cases "playing s")
    case True
    then have "clock_moves s q" using clock_at_moves [of "s\<lparr>preparation := False\<rparr>"] q by simp
    then show ?thesis using False True unfolding clock_moves_def by simp
  next
    case stopped: False
    then show ?thesis using False q by (simp add: clock_at_def)
  qed
qed

text \<open>A camera whose video has decoded the given seconds of a recording.\<close>

definition clock_demo :: "rat \<Rightarrow> rat \<Rightarrow> workspace" where
  "clock_demo began seconds =
     playback_run [KeysChanged [js ''a''], Seek (Num 5000) (Some True), Attach (js ''a'') 0,
       LookupAnswer 0 \<lparr>resolveStatus = Found, previousAt = None, nextAt = None,
         resolvedMedia = Some \<lparr>mediaUrl = [], startMs = began, endMs = 8000, mediaStartSeconds = 0, isHls = False, growing = False\<rparr>\<rparr>,
       VideoReady (js ''a'') 1,
       VideoChanged 0 \<lparr>paused = False, seeking = False, readyState = 4, currentTime = seconds, buffered = [(0, 3)],
         playbackRate = 1, videoVolume = 1, videoMuted = False\<rparr>] (new_workspace LiveMode None 9000)"

theorem playback_clock_witness:
  "playheadMs (tick 9000 (clock_demo 5000 2)) = 7000
   \<and> (\<exists>u \<ge> 5000. u \<le> 7000 \<and> (\<forall>kv m. presenting (clock_demo 5000 2) kv m \<longrightarrow> reached (clock_demo 5000 2) kv m \<le> u))"
proof -
  let ?s = "clock_demo 5000 2"
  note demo = clock_demo_def playback_simps js_def
  have mode: "mode ?s = PlaybackMode" by (simp add: demo)
  have selected: "hasSelection ?s" by (simp add: demo)
  have run: "playing ?s" by (simp add: demo)
  have at5: "playheadMs ?s = 5000" by (simp add: demo)
  have "\<not> waiting_for ?s (js ''a'')" by (simp add: demo)
  moreover have "cameraKeys ?s = [js ''a'']" by (simp add: demo)
  ultimately have wait: "False = (preparation ?s \<and> (\<exists>key \<in> set (cameraKeys ?s). waiting_for ?s key))"
    by simp
  have q: "7000 = playheadMs (tick 9000 ?s)" by (simp add: demo)
  obtain u where "5000 \<le> u" "\<forall>kv m. presenting ?s kv m \<longrightarrow> reached ?s kv m \<le> u" "7000 = u \<or> u < 7000"
    using playback_clock [OF mode selected wait q] run at5 by (elim conjE) (simp only: simp_thms if_True, blast)
  then show ?thesis using q by auto
qed

end
