(* ===== verification/RecordedVideo.thy ===== *)
theory RecordedVideo
  imports PlaybackProps
begin

text \<open>
  \<open>web/src/components/playback/RecordedVideo.tsx\<close>: the effect that loads one recording into a video
  element and tells the workspace when it is ready, failed or ended. An event carries what the element
  looks like when it fires. Hls.js and the element are the environment; what they are asked is in \<open>loads\<close>.
\<close>

section \<open>State\<close>

datatype loader = NativeLoader | HlsLoader rat | NoLoader

datatype rv_report = ReportReady | ReportError workspace_error | ReportEnded

record rv =
  rvMedia :: media
  disposed :: bool
  prepared :: bool
  rvTarget :: rat
  rvLoader :: loader
  bufferTimer :: bool
  rvTimeout :: bool
  listening :: bool
  rvReports :: "rv_report list"

definition report :: "rv_report \<Rightarrow> rv \<Rightarrow> rv" where
  "report r s = s\<lparr>rvReports := rvReports s @ [r]\<rparr>"

text \<open>Which way a recording is loaded: \<open>nativeHls\<close> is what \<open>canPlayType\<close> answers, \<open>supported\<close> what
  \<open>Hls.isSupported\<close> does.\<close>

definition choose_loader :: "media \<Rightarrow> bool \<Rightarrow> bool \<Rightarrow> rat \<Rightarrow> loader" where
  "choose_loader m canPlay supported target =
     (let nativeHls = (isHls m \<and> \<not> growing m \<and> canPlay)
      in if isHls m \<and> \<not> nativeHls \<and> supported then HlsLoader target
         else if \<not> isHls m \<or> nativeHls then NativeLoader else NoLoader)"

definition rv_start :: "media \<Rightarrow> rat \<Rightarrow> bool \<Rightarrow> bool \<Rightarrow> rv" where
  "rv_start m clock canPlay supported =
     (let target = mediaTimeAt m clock; l = choose_loader m canPlay supported target;
          s = \<lparr>rvMedia = m, disposed = False, prepared = False, rvTarget = target, rvLoader = l, bufferTimer = False,
               rvTimeout = True, listening = True, rvReports = []\<rparr>
      in if \<not> isPlaybackMediaUrl (mediaUrl m)
         then report (ReportError BadAddress) (s\<lparr>rvLoader := NoLoader, rvTimeout := False, listening := False\<rparr>)
         else if l = NoLoader then report (ReportError FormatNotSupported) s else s)"

section \<open>Handlers\<close>

definition rv_fail :: "rv \<Rightarrow> rv" where
  "rv_fail s = (if disposed s then s else report (ReportError CannotPlayRecording) s)"

text \<open>\<open>prepare\<close>: the state and what becomes of the element. \<open>canSeek\<close> is false when the assignment to
  \<open>currentTime\<close> throws; an assignment makes the element seek.\<close>

definition prepare_target :: "media \<Rightarrow> rat \<Rightarrow> jsnum \<Rightarrow> video \<Rightarrow> rat" where
  "prepare_target m clock duration v =
     (let t = mediaTimeAt m clock;
          t = (case duration of Num d \<Rightarrow> min t (max 0 (d - 1 / 1000)) | _ \<Rightarrow> t)
      in bufferedPlaybackStart t (buffered v))"

definition prepare :: "rat \<Rightarrow> jsnum \<Rightarrow> bool \<Rightarrow> video \<Rightarrow> rv \<Rightarrow> rv \<times> video" where
  "prepare clock duration canSeek v s =
     (if disposed s \<or> prepared s \<or> readyState v < 1 then (s, v)
      else let target = prepare_target (rvMedia s) clock duration v; s1 = s\<lparr>rvTarget := target\<rparr>;
               away = \<bar>currentTime v - target\<bar> > 5 / 100;
               v1 = (if away then v\<lparr>currentTime := target, seeking := True\<rparr> else v)
           in if away \<and> \<not> canSeek then (s1, v)
              else if \<not> seeking v1 \<and> readyState v1 \<ge> 2 \<and> \<bar>currentTime v1 - target\<bar> < 25 / 100
                   then (report ReportReady (s1\<lparr>prepared := True\<rparr>), v1)
                   else (s1, v1))"

definition bufferReady :: "rv \<Rightarrow> rv" where
  "bufferReady s = (if disposed s \<or> prepared s \<or> bufferTimer s then s else s\<lparr>bufferTimer := True\<rparr>)"

definition rv_ended :: "rv \<Rightarrow> rv" where
  "rv_ended s = (if disposed s then s else report ReportEnded s)"

definition rv_dispose :: "rv \<Rightarrow> rv" where
  "rv_dispose s =
     (if \<not> listening s then s
      else s\<lparr>disposed := True, rvTimeout := False, bufferTimer := False, listening := False\<rparr>)"

text \<open>\<open>MediaEvent\<close> stands for loadedmetadata, loadeddata, canplay and seeked.\<close>

datatype rv_input =
  MediaEvent rat jsnum bool video
| BufferTimer rat jsnum bool video
| MediaError
| MediaEnded
| Progress
| FragBuffered
| HlsError bool
| RvTimeout
| Dispose

fun rv_exec :: "rv_input \<Rightarrow> rv \<Rightarrow> rv" where
  "rv_exec (MediaEvent clock d c v) s = (if listening s then fst (prepare clock d c v s) else s)"
| "rv_exec (BufferTimer clock d c v) s = (if bufferTimer s then fst (prepare clock d c v (s\<lparr>bufferTimer := False\<rparr>)) else s)"
| "rv_exec MediaError s = (if listening s then rv_fail s else s)"
| "rv_exec MediaEnded s = (if listening s then rv_ended s else s)"
| "rv_exec Progress s = (if listening s \<and> rvLoader s = NativeLoader then bufferReady s else s)"
| "rv_exec FragBuffered s = (case rvLoader s of HlsLoader t \<Rightarrow> bufferReady s | _ \<Rightarrow> s)"
| "rv_exec (HlsError fatal) s = (case rvLoader s of HlsLoader t \<Rightarrow> if fatal then rv_fail s else s | _ \<Rightarrow> s)"
| "rv_exec RvTimeout s = (if \<not> rvTimeout s then s else if prepared s then s\<lparr>rvTimeout := False\<rparr> else rv_fail (s\<lparr>rvTimeout := False\<rparr>))"
| "rv_exec Dispose s = rv_dispose s"

definition rv_run :: "rv_input list \<Rightarrow> rv \<Rightarrow> rv" where
  "rv_run ins s = fold rv_exec ins s"

text \<open>What the workspace does with a report.\<close>

fun rv_deliver :: "jsstring \<Rightarrow> nat \<Rightarrow> rv_report \<Rightarrow> workspace \<Rightarrow> workspace" where
  "rv_deliver key r ReportReady s = videoReady key r s"
| "rv_deliver key r (ReportError e) s = videoError key r e s"
| "rv_deliver key r ReportEnded s = videoEnded key r s"

section \<open>Lemmas\<close>

definition rv_inv :: "rv \<Rightarrow> bool" where
  "rv_inv s \<longleftrightarrow> (prepared s \<longleftrightarrow> ReportReady \<in> set (rvReports s)) \<and> length (filter (\<lambda>r. r = ReportReady) (rvReports s)) \<le> 1
     \<and> (disposed s \<longrightarrow> \<not> rvTimeout s \<and> \<not> bufferTimer s \<and> \<not> listening s)
     \<and> (disposed s \<or> rvTimeout s \<or> ReportReady \<in> set (rvReports s) \<or> (\<exists>e. ReportError e \<in> set (rvReports s)))"

lemma rv_inv_fail: "rv_inv s \<Longrightarrow> rv_inv (rv_fail s)"
  by (auto simp: rv_inv_def rv_fail_def report_def)

lemma rv_inv_prepare: "rv_inv s \<Longrightarrow> rv_inv (fst (prepare c d k v s))"
  by (auto simp: rv_inv_def prepare_def report_def Let_def filter_empty_conv)

lemma rv_inv_buffer: "rv_inv s \<Longrightarrow> \<not> disposed s \<Longrightarrow> rv_inv (s\<lparr>bufferTimer := b\<rparr>)"
  by (simp add: rv_inv_def)

lemma rv_inv_exec: "rv_inv s \<Longrightarrow> rv_inv (rv_exec i s)"
proof (cases i)
  case (BufferTimer c d k v)
  assume inv: "rv_inv s"
  have "rv_inv (s\<lparr>bufferTimer := False\<rparr>)" using inv by (simp add: rv_inv_def)
  from rv_inv_prepare [OF this] inv BufferTimer show ?thesis by simp
next
  case RvTimeout
  assume inv: "rv_inv s"
  with RvTimeout show ?thesis
    by (auto simp: rv_inv_def rv_fail_def report_def)
next
  case Progress
  assume "rv_inv s"
  with Progress show ?thesis by (simp add: bufferReady_def rv_inv_buffer)
next
  case FragBuffered
  assume "rv_inv s"
  with FragBuffered show ?thesis by (simp add: bufferReady_def rv_inv_buffer split: loader.split)
qed (auto simp: rv_inv_fail rv_inv_prepare rv_ended_def rv_dispose_def report_def split: loader.split, auto simp: rv_inv_def)

lemma rv_inv_start: "rv_inv (rv_start m clock canPlay supported)"
  by (auto simp: rv_inv_def rv_start_def report_def Let_def)

lemma rv_inv_run: "rv_inv s \<Longrightarrow> rv_inv (rv_run ins s)"
  unfolding rv_run_def by (induction ins arbitrary: s) (simp_all add: rv_inv_exec)

text \<open>Nothing is reported once the effect is gone.\<close>

lemma rv_dead: "disposed s \<Longrightarrow> disposed (rv_exec i s) \<and> rvReports (rv_exec i s) = rvReports s"
  by (cases i) (auto simp: prepare_def rv_fail_def rv_ended_def bufferReady_def rv_dispose_def Let_def split: loader.split)

lemma rv_dead_fold: "disposed s \<Longrightarrow> disposed (fold rv_exec ins s) \<and> rvReports (fold rv_exec ins s) = rvReports s"
proof (induction ins arbitrary: s)
  case (Cons i ins)
  from rv_dead [OF Cons.prems, of i] Cons.IH [of "rv_exec i s"] show ?case by simp
qed simp

lemma rv_dead_run: "disposed s \<Longrightarrow> rvReports (rv_run ins s) = rvReports s"
  by (simp add: rv_run_def rv_dead_fold)

lemma rv_timeout_over: "\<not> rvTimeout (rv_exec RvTimeout s)"
  by (simp add: rv_fail_def report_def)

text \<open>A camera that is loading under a number.\<close>

definition loads_under :: "jsstring \<Rightarrow> nat \<Rightarrow> workspace \<Rightarrow> bool" where
  "loads_under key r s \<longleftrightarrow> (\<exists>c. map_of (cameras s) key = Some c \<and> requestId c = r \<and> status c = Loading)"

lemma ready_ends: "\<not> loads_under key r (videoReady key r s)"
  by (cases "map_of (cameras s) key") (simp_all add: loads_under_def videoReady_def cameraUpdate_def)

lemma error_ends: "\<not> loads_under key r (videoError key r e s)"
proof (cases "map_of (cameras s) key")
  case (Some c)
  have "cameras (case map_of (videos s) key of None \<Rightarrow> s | Some v \<Rightarrow> pause_video v s) = cameras s"
    by (simp add: pause_video_def split: option.split)
  with Some show ?thesis by (simp add: loads_under_def videoError_def cameraUpdate_def)
qed (simp add: loads_under_def videoError_def)

lemma deliver_ends: "d = ReportReady \<or> (\<exists>e. d = ReportError e) \<Longrightarrow> \<not> loads_under key r (rv_deliver key r d s)"
  by (auto simp: ready_ends error_ends)

lemma deliver_sequence: "r \<le> requestSequence s \<Longrightarrow> r \<le> requestSequence (rv_deliver key r d s)"
proof (cases d)
  case ReportReady
  then show "r \<le> requestSequence s \<Longrightarrow> ?thesis" by (simp add: videoReady_def cameraUpdate_def split: option.split)
next
  case (ReportError e)
  then show "r \<le> requestSequence s \<Longrightarrow> ?thesis"
    by (simp add: videoError_def cameraUpdate_def pause_video_def on_video_def split: option.split)
next
  case ReportEnded
  have "r \<le> requestSequence x \<Longrightarrow> r \<le> requestSequence (resolveCamera key t f x)" for t f x
    by (simp add: resolveCamera_def abort_def cameraUpdate_def Let_def split: option.split)
  with ReportEnded show "r \<le> requestSequence s \<Longrightarrow> ?thesis" by (simp add: videoEnded_def split: option.split)
qed

lemma deliver_keeps:
  assumes "\<not> loads_under key r s" and "r \<le> requestSequence s"
  shows "\<not> loads_under key r (rv_deliver key r d s)"
proof (cases d)
  case ReportEnded
  have "\<not> loads_under key r (resolveCamera key t f x)" if "r \<le> requestSequence x" for t f x
  proof -
    have "\<exists>c. map_of (cameras (resolveCamera key t f x)) key = Some c \<and> requestId c = Suc (requestSequence x)"
      by (simp add: resolveCamera_def abort_def cameraUpdate_def loading_camera_def Let_def split: option.split)
    with that show ?thesis by (auto simp: loads_under_def)
  qed
  with assms ReportEnded show ?thesis by (simp add: videoEnded_def split: option.split)
qed (simp_all add: ready_ends error_ends)

lemma deliver_run:
  assumes "r \<le> requestSequence s" and "ReportReady \<in> set ds \<or> (\<exists>e. ReportError e \<in> set ds) \<or> \<not> loads_under key r s"
  shows "\<not> loads_under key r (fold (rv_deliver key r) ds s)"
  using assms
proof (induction ds arbitrary: s)
  case (Cons d ds)
  have seq: "r \<le> requestSequence (rv_deliver key r d s)" using Cons.prems(1) by (rule deliver_sequence)
  have "ReportReady \<in> set ds \<or> (\<exists>e. ReportError e \<in> set ds) \<or> \<not> loads_under key r (rv_deliver key r d s)"
    using Cons.prems deliver_ends [of d key r s] deliver_keeps [of key r s d] by auto
  from Cons.IH [OF seq this] show ?case by simp
qed simp

section \<open>Property\<close>

text \<open>C14: a recording that is being loaded does not stay so. When the 15 seconds of its video have passed
  and the video is still wanted, the video has been reported ready, exactly once, or failed; and the
  workspace that receives the reports shows its camera as loading no longer (or has asked for another
  recording since). A video that is no longer wanted reports nothing more.\<close>

theorem recorded_video_settles:
  assumes "\<not> disposed (rv_run ins (rv_start m clock canPlay supported))" and "r \<le> requestSequence s"
  shows "\<not> loads_under key r (fold (rv_deliver key r) (rvReports (rv_exec RvTimeout (rv_run ins (rv_start m clock canPlay supported)))) s)
     \<and> length (filter (\<lambda>x. x = ReportReady) (rvReports (rv_run ins (rv_start m clock canPlay supported)))) \<le> 1
     \<and> (listening (rv_run ins (rv_start m clock canPlay supported)) \<longrightarrow>
          rvReports (rv_run later (rv_exec Dispose (rv_run ins (rv_start m clock canPlay supported))))
            = rvReports (rv_run ins (rv_start m clock canPlay supported)))"
proof -
  let ?v = "rv_run ins (rv_start m clock canPlay supported)"
  have inv: "rv_inv ?v" by (rule rv_inv_run [OF rv_inv_start])
  then have t: "rv_inv (rv_exec RvTimeout ?v)" by (rule rv_inv_exec)
  have "\<not> disposed (rv_exec RvTimeout ?v)" using assms(1) by (simp add: rv_fail_def report_def)
  with t rv_timeout_over [of ?v]
  have "ReportReady \<in> set (rvReports (rv_exec RvTimeout ?v)) \<or> (\<exists>e. ReportError e \<in> set (rvReports (rv_exec RvTimeout ?v)))"
    by (simp only: rv_inv_def) blast
  with deliver_run [OF assms(2), of "rvReports (rv_exec RvTimeout ?v)" key]
  have "\<not> loads_under key r (fold (rv_deliver key r) (rvReports (rv_exec RvTimeout ?v)) s)" by blast
  moreover have "rvReports (rv_run later (rv_exec Dispose ?v)) = rvReports ?v" if "listening ?v"
    using rv_dead_run [of "rv_exec Dispose ?v" later] that by (simp add: rv_dispose_def)
  ultimately show ?thesis using inv by (simp add: rv_inv_def)
qed

theorem recorded_video_settles_witness:
  "let m = \<lparr>mediaUrl = js ''/api/recordings/segments/7/play'', startMs = 0, endMs = 8000, mediaStartSeconds = 0, isHls = False, growing = False\<rparr>;
       s = playback_run [KeysChanged [js ''a''], Seek (Num 5000) (Some True), Attach (js ''a'') 0,
             LookupAnswer 0 \<lparr>resolveStatus = Found, previousAt = None, nextAt = None, resolvedMedia = Some m\<rparr>] (new_workspace LiveMode None 9000)
   in loads_under (js ''a'') 1 s
      \<and> \<not> loads_under (js ''a'') 1 (fold (rv_deliver (js ''a'') 1) (rvReports (rv_exec RvTimeout (rv_run [] (rv_start m 5000 False False)))) s)"
  using recorded_video_settles [of "[]" "\<lparr>mediaUrl = js ''/api/recordings/segments/7/play'', startMs = 0, endMs = 8000, mediaStartSeconds = 0,
        isHls = False, growing = False\<rparr>" 5000 False False 1
      "playback_run [KeysChanged [js ''a''], Seek (Num 5000) (Some True), Attach (js ''a'') 0,
             LookupAnswer 0 \<lparr>resolveStatus = Found, previousAt = None, nextAt = None,
               resolvedMedia = Some \<lparr>mediaUrl = js ''/api/recordings/segments/7/play'', startMs = 0, endMs = 8000, mediaStartSeconds = 0,
                 isHls = False, growing = False\<rparr>\<rparr>] (new_workspace LiveMode None 9000)" "js ''a''" "[]"]
  by (simp add: playback_simps js_def loads_under_def rv_start_def rv_run_def isPlaybackMediaUrl_def segment_route_def
      is_digit_def choose_loader_def report_def)

end
