(* ===== verification/PtzHold.thy ===== *)
theory PtzHold
  imports Names
begin

text \<open>
  \<open>web/src/components/live/usePtzHold.ts\<close>, \<open>ptzPressState.ts\<close> and the buttons of
  \<open>PtzControlPanel.tsx\<close>: a camera moves while a button is held. The refs of the hook are the record
  \<open>hold\<close>; an \<open>await\<close> or a \<open>then\<close> is a task, settled by an input in any order; a request for a move is
  in flight until an input settles it. \<open>sent\<close> is what the hook asks the server, in order.
\<close>

section \<open>State\<close>

record ptz_move =
  pan :: rat
  tilt :: rat
  zoom :: rat

datatype ptz_command = Moved nat rat jsstring ptz_move | Stopped jsstring

text \<open>What the closure \<open>dispatch\<close> knows: its generation, its camera and its direction.\<close>

record loop =
  lpGeneration :: nat
  lpStream :: jsstring
  lpMove :: ptz_move

text \<open>What follows \<open>stopCurrent\<close>: nothing, or the start that asked for it (its intent and direction).\<close>

datatype after_stop = Nothing | StartNext nat ptz_move

datatype hold_task =
  AwaitMove "nat option" jsstring after_stop      \<comment> \<open>\<open>await inFlightRef.current\<close>\<close>
| AwaitStop jsstring after_stop                   \<comment> \<open>\<open>await stopCamera\<close>\<close>
| Proceed bool jsstring nat ptz_move              \<comment> \<open>\<open>ready.then\<close>\<close>
| MoveFailed nat loop                             \<comment> \<open>the \<open>catch\<close> of a move\<close>
| MoveFinally nat                                 \<comment> \<open>the \<open>finally\<close> of a move\<close>

record hold =
  holdStream :: jsstring
  generationRef :: nat
  intentRef :: nat
  timerRef :: "nat option"
  abortRef :: "nat option"
  inFlightRef :: "nat option"
  activeRef :: bool
  timers :: "(nat \<times> rat \<times> loop) list"          \<comment> \<open>number, when it is due, what it dispatches\<close>
  moves :: "(nat \<times> rat \<times> loop) list"           \<comment> \<open>number, when it was sent, who sent it\<close>
  abortedMoves :: "nat list"
  tasks :: "(nat \<times> hold_task) list"
  nextNumber :: nat
  sent :: "ptz_command list"
  errors :: nat

definition new_hold :: "jsstring \<Rightarrow> hold" where
  "new_hold name =
     \<lparr>holdStream = name, generationRef = 0, intentRef = 0, timerRef = None, abortRef = None, inFlightRef = None,
      activeRef = False, timers = [], moves = [], abortedMoves = [], tasks = [], nextNumber = 0, sent = [], errors = 0\<rparr>"

section \<open>Operations\<close>

definition push_task :: "hold_task \<Rightarrow> hold \<Rightarrow> hold" where
  "push_task t s = s\<lparr>tasks := tasks s @ [(nextNumber s, t)], nextNumber := Suc (nextNumber s)\<rparr>"

definition clearTimer :: "hold \<Rightarrow> hold" where
  "clearTimer s = s\<lparr>timers := filter (\<lambda>(k, _). timerRef s \<noteq> Some k) (timers s), timerRef := None\<rparr>"

definition abort_move :: "hold \<Rightarrow> hold" where
  "abort_move s = (case abortRef s of None \<Rightarrow> s | Some k \<Rightarrow> s\<lparr>abortedMoves := k # abortedMoves s\<rparr>)"

text \<open>\<open>stopCurrent\<close> up to its first \<open>await\<close>.\<close>

definition stopCurrent :: "jsstring \<Rightarrow> bool \<Rightarrow> after_stop \<Rightarrow> hold \<Rightarrow> hold" where
  "stopCurrent name invalidateIntent next s =
     (let s1 = (if invalidateIntent then s\<lparr>intentRef := Suc (intentRef s), activeRef := False\<rparr> else s);
          s2 = abort_move (clearTimer (s1\<lparr>generationRef := Suc (generationRef s1)\<rparr>))
      in push_task (AwaitMove (inFlightRef s2) name next) s2)"

definition hold_stop :: "jsstring \<Rightarrow> hold \<Rightarrow> hold" where
  "hold_stop name s = stopCurrent name True Nothing s"

text \<open>The result of \<open>stopCurrent\<close> reaches the start that waits for it.\<close>

definition stop_returns :: "bool \<Rightarrow> jsstring \<Rightarrow> after_stop \<Rightarrow> hold \<Rightarrow> hold" where
  "stop_returns stopped name next s =
     (case next of Nothing \<Rightarrow> s | StartNext intent m \<Rightarrow> push_task (Proceed stopped name intent m) s)"

definition hold_start :: "ptz_move \<Rightarrow> hold \<Rightarrow> hold" where
  "hold_start m s =
     (if holdStream s = [] then s
      else let hadMovement = (activeRef s \<or> inFlightRef s \<noteq> None \<or> timerRef s \<noteq> None);
               intent = Suc (intentRef s);
               s1 = s\<lparr>intentRef := intent, activeRef := True\<rparr>
           in if hadMovement then stopCurrent (holdStream s) False (StartNext intent m) s1
              else push_task (Proceed True (holdStream s) intent m) s1)"

definition dispatch :: "rat \<Rightarrow> loop \<Rightarrow> hold \<Rightarrow> hold" where
  "dispatch now l s =
     (if generationRef s \<noteq> lpGeneration l then s
      else s\<lparr>abortRef := Some (nextNumber s), inFlightRef := Some (nextNumber s), nextNumber := Suc (nextNumber s),
             moves := moves s @ [(nextNumber s, now, l)],
             sent := sent s @ [Moved (lpGeneration l) now (lpStream l) (lpMove l)]\<rparr>)"

text \<open>A move succeeds: its \<open>then\<close>, its \<open>finally\<close> is still to come.\<close>

definition move_done :: "rat \<Rightarrow> nat \<Rightarrow> rat \<Rightarrow> loop \<Rightarrow> hold \<Rightarrow> hold" where
  "move_done now k startedAt l s =
     push_task (MoveFinally k)
       (if generationRef s \<noteq> lpGeneration l then s
        else s\<lparr>timers := timers s @ [(nextNumber s, now + max 0 (1000 - (now - startedAt)), l)],
               timerRef := Some (nextNumber s), nextNumber := Suc (nextNumber s)\<rparr>)"

definition move_failed :: "nat \<Rightarrow> loop \<Rightarrow> hold \<Rightarrow> hold" where
  "move_failed k l s =
     push_task (MoveFinally k)
       (if k \<in> set (abortedMoves s) \<or> generationRef s \<noteq> lpGeneration l then s
        else hold_stop (lpStream l) (s\<lparr>errors := Suc (errors s)\<rparr>))"

definition move_finally :: "nat \<Rightarrow> hold \<Rightarrow> hold" where
  "move_finally k s =
     s\<lparr>inFlightRef := (if inFlightRef s = Some k then None else inFlightRef s),
       abortRef := (if abortRef s = Some k then None else abortRef s)\<rparr>"

text \<open>\<open>stopCurrent\<close> after the move in flight has settled.\<close>

definition stop_now :: "jsstring \<Rightarrow> after_stop \<Rightarrow> hold \<Rightarrow> hold" where
  "stop_now name next s =
     (let s1 = s\<lparr>abortRef := None, inFlightRef := None\<rparr>
      in if name = [] then stop_returns True name next s1
         else push_task (AwaitStop name next) (s1\<lparr>sent := sent s1 @ [Stopped name]\<rparr>))"

definition proceed :: "rat \<Rightarrow> bool \<Rightarrow> jsstring \<Rightarrow> nat \<Rightarrow> ptz_move \<Rightarrow> hold \<Rightarrow> hold" where
  "proceed now stopped name intent m s =
     (if intentRef s \<noteq> intent then s
      else if \<not> stopped then s\<lparr>activeRef := False\<rparr>
      else (let s1 = s\<lparr>generationRef := Suc (generationRef s)\<rparr>
            in dispatch now \<lparr>lpGeneration = generationRef s1, lpStream = name, lpMove = m\<rparr> s1))"

definition stopIfActive :: "hold \<Rightarrow> hold" where
  "stopIfActive s = (if activeRef s then hold_stop (holdStream s) s else s)"

definition change_camera :: "jsstring \<Rightarrow> hold \<Rightarrow> hold" where
  "change_camera name s = (if name = holdStream s then s else (stopIfActive s)\<lparr>holdStream := name\<rparr>)"

section \<open>Inputs\<close>

datatype hold_input =
  Start ptz_move
| Stop
| Blur
| Hidden bool
| Key jsstring
| Unmount
| ChangeCamera jsstring
| MoveSettled rat nat bool
| Timer rat nat
| Resume rat nat bool

definition settled :: "nat option \<Rightarrow> hold \<Rightarrow> bool" where
  "settled r s = (case r of None \<Rightarrow> True | Some k \<Rightarrow> map_of (moves s) k = None)"

fun hold_resume :: "rat \<Rightarrow> bool \<Rightarrow> hold_task \<Rightarrow> hold \<Rightarrow> hold" where
  "hold_resume now ok (AwaitMove r name next) s = stop_now name next s"
| "hold_resume now ok (AwaitStop name next) s = stop_returns ok name next (if ok then s else s\<lparr>errors := Suc (errors s)\<rparr>)"
| "hold_resume now ok (Proceed stopped name intent m) s = proceed now stopped name intent m s"
| "hold_resume now ok (MoveFailed k l) s = move_failed k l s"
| "hold_resume now ok (MoveFinally k) s = move_finally k s"

fun can_resume :: "hold_task \<Rightarrow> hold \<Rightarrow> bool" where
  "can_resume (AwaitMove r name next) s = settled r s"
| "can_resume _ s = True"

fun hold_exec :: "hold_input \<Rightarrow> hold \<Rightarrow> hold" where
  "hold_exec (Start m) s = hold_start m s"
| "hold_exec Stop s = hold_stop (holdStream s) s"
| "hold_exec Blur s = stopIfActive s"
| "hold_exec (Hidden b) s = (if b then stopIfActive s else s)"
| "hold_exec (Key k) s = (if k = js ''Escape'' then stopIfActive s else s)"
| "hold_exec Unmount s = stopIfActive s"
| "hold_exec (ChangeCamera name) s = change_camera name s"
| "hold_exec (MoveSettled now k ok) s =
     (case map_of (moves s) k of
        None \<Rightarrow> s
      | Some (startedAt, l) \<Rightarrow>
          (let s1 = s\<lparr>moves := filter (\<lambda>(j, _). j \<noteq> k) (moves s)\<rparr>
           in if ok then move_done now k startedAt l s1 else push_task (MoveFailed k l) s1))"
| "hold_exec (Timer now k) s =
     (case map_of (timers s) k of
        None \<Rightarrow> s
      | Some (due, l) \<Rightarrow>
          if now < due then s else dispatch now l (s\<lparr>timers := filter (\<lambda>(j, _). j \<noteq> k) (timers s)\<rparr>))"
| "hold_exec (Resume now k ok) s =
     (case map_of (tasks s) k of
        None \<Rightarrow> s
      | Some t \<Rightarrow>
          if can_resume t s then hold_resume now ok t (s\<lparr>tasks := filter (\<lambda>(j, _). j \<noteq> k) (tasks s)\<rparr>) else s)"

definition hold_run :: "hold_input list \<Rightarrow> hold \<Rightarrow> hold" where
  "hold_run ins s = fold hold_exec ins s"

text \<open>The last thing the server was asked to do with a camera is to move it.\<close>

fun command_stream :: "ptz_command \<Rightarrow> jsstring" where
  "command_stream (Moved g t name m) = name"
| "command_stream (Stopped name) = name"

fun is_move :: "ptz_command \<Rightarrow> bool" where
  "is_move (Moved g t name m) = True"
| "is_move (Stopped name) = False"

definition moving :: "jsstring \<Rightarrow> hold \<Rightarrow> bool" where
  "moving name s = (case rev (filter (\<lambda>c. command_stream c = name) (sent s)) of [] \<Rightarrow> False | c # _ \<Rightarrow> is_move c)"

section \<open>The buttons of the panel\<close>

text \<open>\<open>ptzPressState.ts\<close>\<close>

datatype press_source = Pointer | Keyboard

definition updatePtzPressSources :: "press_source list \<Rightarrow> press_source \<Rightarrow> bool \<Rightarrow> press_source list" where
  "updatePtzPressSources current source active =
     (if active then (if source \<in> set current then current else current @ [source])
      else filter (\<lambda>x. x \<noteq> source) current)"

record hold_button =
  pointerActive :: bool
  keyboardActive :: bool
  pressedSources :: "press_source list"

definition new_button :: hold_button where
  "new_button = \<lparr>pointerActive = False, keyboardActive = False, pressedSources = []\<rparr>"

datatype direction = PanUp | PanLeft | PanRight | PanDown | ZoomIn | ZoomOut

fun move_of :: "rat \<Rightarrow> direction \<Rightarrow> ptz_move" where
  "move_of speed PanUp = \<lparr>pan = 0, tilt = speed, zoom = 0\<rparr>"
| "move_of speed PanLeft = \<lparr>pan = - speed, tilt = 0, zoom = 0\<rparr>"
| "move_of speed PanRight = \<lparr>pan = speed, tilt = 0, zoom = 0\<rparr>"
| "move_of speed PanDown = \<lparr>pan = 0, tilt = - speed, zoom = 0\<rparr>"
| "move_of speed ZoomIn = \<lparr>pan = 0, tilt = 0, zoom = speed\<rparr>"
| "move_of speed ZoomOut = \<lparr>pan = 0, tilt = 0, zoom = - speed\<rparr>"

record panel =
  panelHold :: hold
  buttons :: "direction \<Rightarrow> hold_button"
  speed :: rat

definition new_panel :: "jsstring \<Rightarrow> panel" where
  "new_panel name = \<lparr>panelHold = new_hold name, buttons = (\<lambda>_. new_button), speed = 6 / 10\<rparr>"

text \<open>Pointer up, cancel, leave and lost capture are the same handler.\<close>

datatype button_input = PointerDown nat | PointerEnd | KeyDown jsstring | KeyUp jsstring | ButtonBlur

definition is_press_key :: "jsstring \<Rightarrow> bool" where
  "is_press_key k \<longleftrightarrow> k = js '' '' \<or> k = js ''Enter''"

definition on_button :: "direction \<Rightarrow> (hold_button \<Rightarrow> hold_button) \<Rightarrow> panel \<Rightarrow> panel" where
  "on_button d f p = p\<lparr>buttons := (buttons p)(d := f (buttons p d))\<rparr>"

definition set_source :: "press_source \<Rightarrow> bool \<Rightarrow> hold_button \<Rightarrow> hold_button" where
  "set_source src b x =
     (case src of Pointer \<Rightarrow> x\<lparr>pointerActive := b\<rparr> | Keyboard \<Rightarrow> x\<lparr>keyboardActive := b\<rparr>)
       \<lparr>pressedSources := updatePtzPressSources (pressedSources x) src b\<rparr>"

definition begin_hold :: "direction \<Rightarrow> panel \<Rightarrow> panel" where
  "begin_hold d p = p\<lparr>panelHold := hold_start (move_of (speed p) d) (panelHold p)\<rparr>"

definition holdStop :: "panel \<Rightarrow> panel" where
  "holdStop p = p\<lparr>panelHold := hold_stop (holdStream (panelHold p)) (panelHold p)\<rparr>"

fun button_exec :: "direction \<Rightarrow> button_input \<Rightarrow> panel \<Rightarrow> panel" where
  "button_exec d (PointerDown button) p =
     (if button \<noteq> 0 then p else begin_hold d (on_button d (set_source Pointer True) p))"
| "button_exec d PointerEnd p =
     on_button d (set_source Pointer False) (if pointerActive (buttons p d) then holdStop p else p)"
| "button_exec d (KeyDown k) p =
     (if is_press_key k \<and> \<not> keyboardActive (buttons p d) then begin_hold d (on_button d (set_source Keyboard True) p) else p)"
| "button_exec d (KeyUp k) p =
     (if is_press_key k \<and> keyboardActive (buttons p d) then holdStop (on_button d (set_source Keyboard False) p) else p)"
| "button_exec d ButtonBlur p =
     on_button d (set_source Keyboard False) (if keyboardActive (buttons p d) then holdStop p else p)"

definition pressed :: "hold_button \<Rightarrow> bool" where
  "pressed x \<longleftrightarrow> pressedSources x \<noteq> []"

text \<open>The events of the panel. \<open>Elsewhere\<close> is everything that reaches the hook without a button: the
  stop buttons, the window, another camera, and what the server answers.\<close>

datatype panel_input = OnButton direction button_input | SetSpeed rat | Elsewhere hold_input

fun panel_exec :: "panel_input \<Rightarrow> panel \<Rightarrow> panel" where
  "panel_exec (OnButton d e) p = button_exec d e p"
| "panel_exec (SetSpeed x) p = p\<lparr>speed := x\<rparr>"
| "panel_exec (Elsewhere (Start m)) p = p"
| "panel_exec (Elsewhere i) p = p\<lparr>panelHold := hold_exec i (panelHold p)\<rparr>"

definition panel_run :: "panel_input list \<Rightarrow> panel \<Rightarrow> panel" where
  "panel_run ins p = fold panel_exec ins p"

end
