(* ===== verification/PtzProps.thy ===== *)
theory PtzProps
  imports PtzHold
begin

text \<open>
  Why the camera stands still when no button is held: the invariant \<open>hold_inv\<close> says that a camera that
  was last asked to move is either held, or a stop for it is about to be sent; the buttons keep the hook
  inactive whenever none of them is pressed.
\<close>

section \<open>The invariant of the hook\<close>

definition task_loops :: "hold_task \<Rightarrow> loop set" where
  "task_loops t = (case t of MoveFailed k l \<Rightarrow> {l} | _ \<Rightarrow> {})"

definition loops :: "hold \<Rightarrow> loop set" where
  "loops s = (snd \<circ> snd) ` set (timers s) \<union> (snd \<circ> snd) ` set (moves s) \<union> (\<Union>t \<in> snd ` set (tasks s). task_loops t)"

text \<open>The start that a task leads to: its camera and its intent.\<close>

fun start_of :: "hold_task \<Rightarrow> (jsstring \<times> nat) option" where
  "start_of (AwaitMove r n (StartNext i m)) = Some (n, i)"
| "start_of (AwaitStop n (StartNext i m)) = Some (n, i)"
| "start_of (Proceed b n i m) = Some (n, i)"
| "start_of _ = None"

text \<open>The stop before that start has been sent.\<close>

fun stop_sent :: "hold_task \<Rightarrow> bool" where
  "stop_sent (AwaitStop n x) = True"
| "stop_sent (Proceed b n i m) = (\<not> b)"
| "stop_sent _ = False"

definition waiting_stop :: "jsstring \<Rightarrow> hold \<Rightarrow> bool" where
  "waiting_stop c s \<longleftrightarrow> (\<exists>k r next. (k, AwaitMove r c next) \<in> set (tasks s))"

definition no_live_loop :: "hold \<Rightarrow> bool" where
  "no_live_loop s \<longleftrightarrow> (\<forall>l \<in> loops s. lpGeneration l < generationRef s)"

definition start_ok :: "hold \<Rightarrow> hold_task \<Rightarrow> bool" where
  "start_ok s t \<longleftrightarrow> (\<forall>n i. start_of t = Some (n, i) \<longrightarrow> i \<le> intentRef s
     \<and> (i = intentRef s \<longrightarrow> activeRef s \<and> n = holdStream s \<and> no_live_loop s \<and> (stop_sent t \<and> moving n s \<longrightarrow> waiting_stop n s)))"

definition numbers_ok :: "hold \<Rightarrow> bool" where
  "numbers_ok s \<longleftrightarrow> distinct (map fst (tasks s)) \<and> (\<forall>(k, t) \<in> set (tasks s). k < nextNumber s)"

definition intents_ok :: "hold \<Rightarrow> bool" where
  "intents_ok s \<longleftrightarrow> (\<forall>k t k' t' n n' i. (k, t) \<in> set (tasks s) \<longrightarrow> (k', t') \<in> set (tasks s) \<longrightarrow> start_of t = Some (n, i)
     \<longrightarrow> start_of t' = Some (n', i) \<longrightarrow> k = k')"

definition loops_ok :: "hold \<Rightarrow> bool" where
  "loops_ok s \<longleftrightarrow> (\<forall>l \<in> loops s. lpGeneration l \<le> generationRef s
     \<and> (lpGeneration l = generationRef s \<longrightarrow> activeRef s \<and> lpStream l = holdStream s))"

definition held_or_stopping :: "hold \<Rightarrow> bool" where
  "held_or_stopping s \<longleftrightarrow> (\<forall>c. moving c s \<longrightarrow> (activeRef s \<and> c = holdStream s) \<or> waiting_stop c s)"

definition named :: "hold \<Rightarrow> bool" where
  "named s \<longleftrightarrow> (activeRef s \<longrightarrow> holdStream s \<noteq> []) \<and> \<not> moving [] s"

definition hold_inv :: "hold \<Rightarrow> bool" where
  "hold_inv s \<longleftrightarrow> numbers_ok s \<and> intents_ok s \<and> loops_ok s \<and> held_or_stopping s \<and> named s \<and> (\<forall>t \<in> snd ` set (tasks s). start_ok s t)"

lemma hold_invI:
  "numbers_ok s \<Longrightarrow> intents_ok s \<Longrightarrow> loops_ok s \<Longrightarrow> held_or_stopping s \<Longrightarrow> named s \<Longrightarrow> (\<And>k t. (k, t) \<in> set (tasks s) \<Longrightarrow> start_ok s t) \<Longrightarrow> hold_inv s"
  by (auto simp: hold_inv_def)

lemma hold_invD:
  assumes "hold_inv s"
  shows "numbers_ok s" "intents_ok s" "loops_ok s" "held_or_stopping s" "named s" "\<And>k t. (k, t) \<in> set (tasks s) \<Longrightarrow> start_ok s t"
  using assms by (force simp: hold_inv_def)+

section \<open>Views of a state\<close>

text \<open>The invariant reads only these fields; the others may change freely.\<close>

lemma inv_cong:
  assumes "hold_inv s" "holdStream s' = holdStream s" "generationRef s' = generationRef s" "intentRef s' = intentRef s"
    "activeRef s' = activeRef s" "timers s' = timers s" "moves s' = moves s" "tasks s' = tasks s" "nextNumber s \<le> nextNumber s'"
    "sent s' = sent s"
  shows "hold_inv s'"
proof -
  have v: "loops s' = loops s" "\<And>c. waiting_stop c s' = waiting_stop c s" "\<And>c. moving c s' = moving c s"
    using assms by (simp_all add: loops_def waiting_stop_def moving_def)
  have "numbers_ok s'" using assms by (force simp: hold_inv_def numbers_ok_def)
  moreover have "intents_ok s'" using assms by (simp add: hold_inv_def intents_ok_def)
  ultimately show ?thesis using assms v by (simp add: hold_inv_def loops_ok_def held_or_stopping_def start_ok_def no_live_loop_def named_def)
qed

lemma push_task_fields [simp]:
  "holdStream (push_task t s) = holdStream s" "generationRef (push_task t s) = generationRef s" "intentRef (push_task t s) = intentRef s"
  "activeRef (push_task t s) = activeRef s" "timers (push_task t s) = timers s" "moves (push_task t s) = moves s"
  "tasks (push_task t s) = tasks s @ [(nextNumber s, t)]" "nextNumber (push_task t s) = Suc (nextNumber s)"
  "sent (push_task t s) = sent s" "moving c (push_task t s) = moving c s"
  "abortRef (push_task t s) = abortRef s" "inFlightRef (push_task t s) = inFlightRef s" "timerRef (push_task t s) = timerRef s"
  by (simp_all add: push_task_def moving_def)

lemma push_task_views:
  "loops (push_task t s) = loops s \<union> task_loops t"
  "waiting_stop c (push_task t s) \<longleftrightarrow> waiting_stop c s \<or> (\<exists>r next. t = AwaitMove r c next)"
  by (auto simp: loops_def waiting_stop_def)

lemma inv_add_task:
  assumes inv: "hold_inv s" and ok: "start_ok (push_task t s) t"
    and fresh: "\<And>n i k t' n'. start_of t = Some (n, i) \<Longrightarrow> (k, t') \<in> set (tasks s) \<Longrightarrow> start_of t' \<noteq> Some (n', i)"
    and l: "\<And>l. l \<in> task_loops t \<Longrightarrow> lpGeneration l \<le> generationRef s \<and> (lpGeneration l = generationRef s \<longrightarrow> activeRef s \<and> lpStream l = holdStream s \<and> l \<in> loops s)"
  shows "hold_inv (push_task t s)"
proof (rule hold_invI)
  note I = hold_invD [OF inv]
  show "numbers_ok (push_task t s)" using I(1) by (force simp: numbers_ok_def)
  show "intents_ok (push_task t s)"
    using I(2) fresh by (auto simp: intents_ok_def)
  show "loops_ok (push_task t s)" using I(3) l by (auto simp: loops_ok_def push_task_views)
  show "held_or_stopping (push_task t s)" using I(4) by (auto simp: held_or_stopping_def push_task_views)
  show "named (push_task t s)" using I(5) by (simp add: named_def)
  fix k u assume "(k, u) \<in> set (tasks (push_task t s))"
  then consider "u = t" | "(k, u) \<in> set (tasks s)" by auto
  then show "start_ok (push_task t s) u"
  proof cases
    case 2
    with I(6) have u: "start_ok s u" .
    have "no_live_loop s \<Longrightarrow> no_live_loop (push_task t s)" using l by (auto simp: no_live_loop_def push_task_views nat_less_le)
    with u show ?thesis by (auto simp: start_ok_def push_task_views)
  qed (use ok in simp)
qed

text \<open>A task without a start and without a loop.\<close>

lemma inv_plain_task:
  assumes "hold_inv s" "start_of t = None" "task_loops t = {}"
  shows "hold_inv (push_task t s)"
  using assms by (intro inv_add_task) (auto simp: start_ok_def)

section \<open>Operations\<close>

definition end_task :: "nat \<Rightarrow> hold \<Rightarrow> hold" where
  "end_task k s = s\<lparr>tasks := filter (\<lambda>(j, _). j \<noteq> k) (tasks s)\<rparr>"

text \<open>A stop invalidates what was live.\<close>

definition stop_base :: "bool \<Rightarrow> hold \<Rightarrow> hold" where
  "stop_base b s = (let s1 = (if b then s\<lparr>intentRef := Suc (intentRef s), activeRef := False\<rparr> else s)
     in abort_move (clearTimer (s1\<lparr>generationRef := Suc (generationRef s1)\<rparr>)))"

lemma stopCurrent_base: "stopCurrent n b x s = push_task (AwaitMove (inFlightRef (stop_base b s)) n x) (stop_base b s)"
  by (simp add: stopCurrent_def stop_base_def Let_def)

lemma stop_base_fields [simp]:
  "holdStream (stop_base b s) = holdStream s" "generationRef (stop_base b s) = Suc (generationRef s)"
  "intentRef (stop_base b s) = (if b then Suc (intentRef s) else intentRef s)" "activeRef (stop_base b s) = (activeRef s \<and> \<not> b)"
  "moves (stop_base b s) = moves s" "tasks (stop_base b s) = tasks s" "nextNumber (stop_base b s) = nextNumber s"
  "sent (stop_base b s) = sent s" "set (timers (stop_base b s)) \<subseteq> set (timers s)"
  by (auto simp: stop_base_def abort_move_def clearTimer_def Let_def split: option.split)

lemma stop_base_views [simp]:
  "moving c (stop_base b s) = moving c s" "waiting_stop c (stop_base b s) = waiting_stop c s" "loops (stop_base b s) \<subseteq> loops s"
proof -
  show "moving c (stop_base b s) = moving c s" by (simp add: moving_def)
  show "waiting_stop c (stop_base b s) = waiting_stop c s" by (simp add: waiting_stop_def)
  show "loops (stop_base b s) \<subseteq> loops s" unfolding loops_def by (intro Un_mono image_mono) simp_all
qed

lemma no_live_loop_base: "loops_ok s \<Longrightarrow> no_live_loop (stop_base b s)"
  using subsetD [OF stop_base_views(3)] by (fastforce simp: loops_ok_def no_live_loop_def)

lemma inv_stop:
  assumes inv: "hold_inv s" and n: "activeRef s \<Longrightarrow> n = holdStream s"
  shows "hold_inv (hold_stop n s)"
  unfolding hold_stop_def stopCurrent_base
proof (rule hold_invI)
  note I = hold_invD [OF inv]
  let ?b = "stop_base True s"
  let ?t = "AwaitMove (inFlightRef ?b) n Nothing"
  let ?s = "push_task ?t ?b"
  have q: "no_live_loop ?b" using I(3) by (rule no_live_loop_base)
  show "numbers_ok ?s" using I(1) by (force simp: numbers_ok_def)
  show "intents_ok ?s" using I(2) by (auto simp: intents_ok_def)
  show "loops_ok ?s" using q by (auto simp: loops_ok_def no_live_loop_def push_task_views task_loops_def less_imp_le)
  show "held_or_stopping ?s" using I(4) n by (auto simp: held_or_stopping_def push_task_views)
  show "named ?s" using I(5) by (simp add: named_def)
  fix k u assume "(k, u) \<in> set (tasks ?s)"
  then consider "u = ?t" | "(k, u) \<in> set (tasks s)" by auto
  then show "start_ok ?s u"
    by cases (use I(6) in \<open>force simp: start_ok_def\<close>)+
qed

lemma inv_start: assumes inv: "hold_inv s" shows "hold_inv (hold_start m s)"
proof (cases "holdStream s = []")
  case False
  note I = hold_invD [OF inv]
  have old: "(k, t) \<in> set (tasks s) \<Longrightarrow> start_of t = Some (n, i) \<Longrightarrow> i < Suc (intentRef s)" for k t n i
    using I(6) by (force simp: start_ok_def)
  let ?m = "\<lambda>s1. s1\<lparr>intentRef := Suc (intentRef s), activeRef := True\<rparr>"
  have base: "hold_inv (?m s)"
  proof (rule hold_invI)
    show "numbers_ok (?m s)" "intents_ok (?m s)" using I(1,2) by (simp_all add: numbers_ok_def intents_ok_def)
    show "loops_ok (?m s)" using I(3) by (auto simp: loops_ok_def loops_def)
    show "held_or_stopping (?m s)" using I(4) by (auto simp: held_or_stopping_def moving_def waiting_stop_def)
    show "named (?m s)" using I(5) False by (simp add: named_def moving_def)
    fix k t assume "(k, t) \<in> set (tasks (?m s))"
    with old show "start_ok (?m s) t" by (force simp: start_ok_def)
  qed
  have fresh: "(k, t) \<in> set (tasks (?m s)) \<Longrightarrow> start_of t \<noteq> Some (n', Suc (intentRef s))" for k t n'
    using old by force
  show ?thesis
  proof (cases "activeRef s \<or> inFlightRef s \<noteq> None \<or> timerRef s \<noteq> None")
    case True
    let ?b = "stop_base False (?m s)"
    let ?t = "AwaitMove (inFlightRef ?b) (holdStream s) (StartNext (Suc (intentRef s)) m)"
    note B = hold_invD [OF base]
    have q: "no_live_loop ?b" using B(3) by (rule no_live_loop_base)
    have b: "hold_inv ?b"
    proof (rule hold_invI)
      show "numbers_ok ?b" "intents_ok ?b" using B(1,2) by (simp_all add: numbers_ok_def intents_ok_def)
      show "loops_ok ?b" using q by (auto simp: loops_ok_def no_live_loop_def less_imp_le)
      show "held_or_stopping ?b" using B(4) by (auto simp: held_or_stopping_def)
      show "named ?b" using B(5) by (simp add: named_def)
      fix k t assume "(k, t) \<in> set (tasks ?b)"
      with old show "start_ok ?b t" by (force simp: start_ok_def)
    qed
    have "hold_inv (push_task ?t ?b)"
    proof (rule inv_add_task [OF b])
      have "no_live_loop (push_task ?t ?b)" using q by (simp add: no_live_loop_def push_task_views task_loops_def)
      then show "start_ok (push_task ?t ?b) ?t" by (simp add: start_ok_def)
    qed (use fresh in \<open>auto simp: task_loops_def\<close>)
    with True False show ?thesis by (simp add: hold_start_def stopCurrent_base Let_def)
  next
    case no: False
    let ?t = "Proceed True (holdStream s) (Suc (intentRef s)) m"
    have q: "no_live_loop (push_task ?t (?m s))"
    proof -
      have "no_live_loop s" using I(3) no by (auto simp: loops_ok_def no_live_loop_def nat_less_le)
      then show ?thesis by (simp add: no_live_loop_def push_task_views task_loops_def loops_def)
    qed
    have "hold_inv (push_task ?t (?m s))"
      by (rule inv_add_task [OF base]) (use q fresh in \<open>auto simp: task_loops_def start_ok_def\<close>)
    with no False show ?thesis by (simp add: hold_start_def Let_def)
  qed
qed (use inv in \<open>simp add: hold_start_def\<close>)

lemma moving_append:
  "sent s' = sent s @ [c] \<Longrightarrow> moving n s' = (if command_stream c = n then is_move c else moving n s)"
  by (simp add: moving_def)

lemma inv_dispatch:
  assumes inv: "hold_inv s"
    and l: "lpGeneration l = generationRef s \<Longrightarrow> activeRef s \<and> lpStream l = holdStream s"
    and none: "\<And>k t n. lpGeneration l = generationRef s \<Longrightarrow> (k, t) \<in> set (tasks s) \<Longrightarrow> start_of t \<noteq> Some (n, intentRef s)"
  shows "hold_inv (dispatch now l s)"
proof (cases "lpGeneration l = generationRef s")
  case True
  note I = hold_invD [OF inv]
  let ?s = "dispatch now l s"
  have f [simp]: "holdStream ?s = holdStream s" "generationRef ?s = generationRef s" "intentRef ?s = intentRef s"
      "activeRef ?s = activeRef s" "tasks ?s = tasks s" "nextNumber ?s = Suc (nextNumber s)" "loops ?s = insert l (loops s)"
      "waiting_stop c ?s = waiting_stop c s" for c
    using True by (auto simp: dispatch_def loops_def waiting_stop_def)
  have m: "moving c ?s = (lpStream l = c \<or> moving c s)" for c
    using moving_append [of ?s s "Moved (lpGeneration l) now (lpStream l) (lpMove l)" c] True by (auto simp: dispatch_def)
  show ?thesis
  proof (rule hold_invI)
    show "numbers_ok ?s" using I(1) by (force simp: numbers_ok_def)
    show "intents_ok ?s" using I(2) by (simp add: intents_ok_def)
    show "loops_ok ?s" using I(3) l True by (simp add: loops_ok_def)
    show "held_or_stopping ?s" using I(4) l True by (auto simp: held_or_stopping_def m)
    show "named ?s" using I(5) l True by (auto simp: named_def m)
    fix k t assume "(k, t) \<in> set (tasks ?s)"
    with I(6) none True show "start_ok ?s t" by (auto simp: start_ok_def)
  qed
qed (use inv in \<open>simp add: dispatch_def\<close>)

lemma drop_fields [simp]:
  "holdStream (end_task k s) = holdStream s" "generationRef (end_task k s) = generationRef s" "intentRef (end_task k s) = intentRef s"
  "activeRef (end_task k s) = activeRef s" "timers (end_task k s) = timers s" "moves (end_task k s) = moves s"
  "nextNumber (end_task k s) = nextNumber s" "sent (end_task k s) = sent s" "moving c (end_task k s) = moving c s"
  "(j, t) \<in> set (tasks (end_task k s)) \<longleftrightarrow> (j, t) \<in> set (tasks s) \<and> j \<noteq> k"
  by (auto simp: end_task_def moving_def)

lemma drop_views:
  "loops (end_task k s) \<subseteq> loops s" "waiting_stop c (end_task k s) \<longleftrightarrow> (\<exists>j r x. (j, AwaitMove r c x) \<in> set (tasks s) \<and> j \<noteq> k)"
  by (auto simp: loops_def waiting_stop_def end_task_def)

lemma drop_numbers: "numbers_ok s \<Longrightarrow> numbers_ok (end_task k s)"
  by (auto simp: numbers_ok_def end_task_def distinct_map_filter)

lemma same_task: "numbers_ok s \<Longrightarrow> (k, t) \<in> set (tasks s) \<Longrightarrow> (k, u) \<in> set (tasks s) \<Longrightarrow> u = t"
  by (auto simp: numbers_ok_def eq_key_imp_eq_value)

lemma waiting_drop:
  assumes "numbers_ok s" "(k, t) \<in> set (tasks s)" "\<And>r x. t \<noteq> AwaitMove r c x"
  shows "waiting_stop c (end_task k s) = waiting_stop c s"
proof
  assume "waiting_stop c s"
  then obtain j r x where j: "(j, AwaitMove r c x) \<in> set (tasks s)" by (auto simp: waiting_stop_def)
  with assms(3) same_task [OF assms(1,2)] have "j \<noteq> k" by metis
  with j show "waiting_stop c (end_task k s)" by (auto simp: drop_views)
qed (auto simp: drop_views waiting_stop_def)

text \<open>Other tasks survive the end of one that is not about to stop a camera.\<close>

lemma inv_drop:
  assumes inv: "hold_inv s" and t: "(k, t) \<in> set (tasks s)" and na: "\<And>r c x. t \<noteq> AwaitMove r c x"
  shows "hold_inv (end_task k s)"
proof (rule hold_invI)
  note I = hold_invD [OF inv]
  have w: "waiting_stop c (end_task k s) = waiting_stop c s" for c
    using waiting_drop [OF I(1) t] na by simp
  show "numbers_ok (end_task k s)" using I(1) by (rule drop_numbers)
  show "intents_ok (end_task k s)" using I(2) by (auto simp: intents_ok_def)
  show "loops_ok (end_task k s)" using I(3) subsetD [OF drop_views(1)] by (fastforce simp: loops_ok_def)
  show "held_or_stopping (end_task k s)" using I(4) by (simp add: held_or_stopping_def w)
  show "named (end_task k s)" using I(5) by (simp add: named_def)
  fix j u assume "(j, u) \<in> set (tasks (end_task k s))"
  then have "start_ok s u" using I(6) [of j u] by simp
  moreover have "no_live_loop s \<Longrightarrow> no_live_loop (end_task k s)" using subsetD [OF drop_views(1)] by (fastforce simp: no_live_loop_def)
  ultimately show "start_ok (end_task k s) u" by (auto simp: start_ok_def w)
qed

text \<open>A task hands its start over to the next one.\<close>

lemma drop_fresh:
  assumes "intents_ok s" "(k, t) \<in> set (tasks s)" "start_of t = Some (n, i)"
  shows "(j, u) \<in> set (tasks (end_task k s)) \<Longrightarrow> start_of u \<noteq> Some (n', i)"
  using assms by (auto simp: intents_ok_def)

lemma inv_pass:
  assumes inv: "hold_inv s" and t: "(k, t) \<in> set (tasks s)" and na: "\<And>r c x. t \<noteq> AwaitMove r c x"
    and u: "start_of u = start_of t" "stop_sent u \<Longrightarrow> stop_sent t" "task_loops u = {}" "\<And>r c x. u \<noteq> AwaitMove r c x"
  shows "hold_inv (push_task u (end_task k s))"
proof (rule inv_add_task)
  note I = hold_invD [OF inv]
  let ?d = "end_task k s"
  show "hold_inv ?d" using inv t na by (rule inv_drop)
  have w: "waiting_stop c ?d = waiting_stop c s" for c
    using waiting_drop [OF I(1) t] na by simp
  have "no_live_loop s \<Longrightarrow> no_live_loop (push_task u ?d)" using subsetD [OF drop_views(1)] u(3) by (fastforce simp: no_live_loop_def push_task_views)
  then show "start_ok (push_task u ?d) u" using I(6) [OF t] u by (auto simp: start_ok_def w push_task_views)
  fix n i j t' n' assume "start_of u = Some (n, i)" and j: "(j, t') \<in> set (tasks ?d)"
  then have "start_of t = Some (n, i)" using u(1) by simp
  from drop_fresh [OF I(2) t this j] show "start_of t' \<noteq> Some (n', i)" .
qed (use u in simp)

text \<open>The task that is about to stop a camera ends, when the camera is stopped.\<close>

lemma inv_stopped:
  assumes inv: "hold_inv s" and t: "(k, AwaitMove r name next) \<in> set (tasks s)"
    and f: "holdStream s' = holdStream s" "generationRef s' = generationRef s" "intentRef s' = intentRef s"
      "activeRef s' = activeRef s" "timers s' = timers s" "moves s' = moves s" "tasks s' = tasks (end_task k s)"
      "nextNumber s' = nextNumber s"
    and m: "\<And>c. moving c s' \<longleftrightarrow> c \<noteq> name \<and> moving c s"
  shows "hold_inv s'"
proof (rule hold_invI)
  note I = hold_invD [OF inv]
  let ?d = "end_task k s"
  have w: "waiting_stop c s' = waiting_stop c s" if "c \<noteq> name" for c
  proof -
    have "waiting_stop c s' = waiting_stop c ?d" using f by (simp add: waiting_stop_def)
    also have "\<dots> = waiting_stop c s" using waiting_drop [OF I(1) t] that by simp
    finally show ?thesis .
  qed
  have v: "loops s' = loops ?d" using f by (simp add: loops_def)
  show "numbers_ok s'" using drop_numbers [OF I(1), of k] f by (simp add: numbers_ok_def)
  show "intents_ok s'" using I(2) f by (auto simp: intents_ok_def)
  show "loops_ok s'" using I(3) subsetD [OF drop_views(1)] f by (fastforce simp: loops_ok_def v)
  show "held_or_stopping s'" using I(4) f by (auto simp: held_or_stopping_def m w)
  show "named s'" using I(5) f by (simp add: named_def m)
  fix j u assume "(j, u) \<in> set (tasks s')"
  then have "start_ok s u" using I(6) [of j u] f by simp
  moreover have "no_live_loop s \<Longrightarrow> no_live_loop s'" using subsetD [OF drop_views(1)] f by (fastforce simp: no_live_loop_def v)
  ultimately show "start_ok s' u" by (auto simp: start_ok_def w m f)
qed

lemma inv_stopped_then:
  assumes inv: "hold_inv s" and t: "(k, AwaitMove r name next) \<in> set (tasks s)"
    and f: "holdStream s' = holdStream s" "generationRef s' = generationRef s" "intentRef s' = intentRef s"
      "activeRef s' = activeRef s" "timers s' = timers s" "moves s' = moves s" "tasks s' = tasks (end_task k s)"
      "nextNumber s' = nextNumber s"
    and m: "\<And>c. moving c s' \<longleftrightarrow> c \<noteq> name \<and> moving c s"
    and u: "\<And>n i. start_of u = Some (n, i) \<Longrightarrow> start_of (AwaitMove r name next) = Some (n, i)" "task_loops u = {}"
  shows "hold_inv (push_task u s')"
proof (rule inv_add_task)
  note I = hold_invD [OF inv]
  show "hold_inv s'" using inv t f m by (rule inv_stopped)
  have v: "loops (push_task u s') = loops (end_task k s)" using f u by (simp add: loops_def)
  have q: "no_live_loop s \<Longrightarrow> no_live_loop (push_task u s')" using subsetD [OF drop_views(1)] f by (fastforce simp: no_live_loop_def v)
  have n: "n = name" if "start_of u = Some (n, i)" for n i using u(1) [OF that] by (cases "next") simp_all
  then show "start_ok (push_task u s') u" using I(6) [OF t] u(1) q f by (force simp: start_ok_def m)
  fix n i j t' n' assume n: "start_of u = Some (n, i)" and "(j, t') \<in> set (tasks s')"
  then have j: "(j, t') \<in> set (tasks (end_task k s))" using f by simp
  from drop_fresh [OF I(2) t u(1) [OF n] j] show "start_of t' \<noteq> Some (n', i)" .
qed (use u in simp)

lemma inv_stop_now:
  assumes inv: "hold_inv s" and t: "(k, AwaitMove r name next) \<in> set (tasks s)"
  shows "hold_inv (stop_now name next (end_task k s))"
proof -
  note I = hold_invD [OF inv]
  let ?s = "(end_task k s)\<lparr>abortRef := None, inFlightRef := None\<rparr>"
  show ?thesis
  proof (cases "name = []")
    case True
    have m: "moving c ?s \<longleftrightarrow> c \<noteq> name \<and> moving c s" for c using I(5) True by (auto simp: moving_def named_def)
    show ?thesis
    proof (cases "next")
      case Nothing
      have "hold_inv ?s" by (rule inv_stopped [OF inv t]) (simp_all add: m)
      with True Nothing show ?thesis by (simp add: stop_now_def stop_returns_def Let_def)
    next
      case (StartNext i mv)
      have "hold_inv (push_task (Proceed True name i mv) ?s)"
        by (rule inv_stopped_then [OF inv t]) (simp_all add: m StartNext task_loops_def)
      with True StartNext show ?thesis by (simp add: stop_now_def stop_returns_def Let_def)
    qed
  next
    case False
    let ?s2 = "?s\<lparr>sent := sent s @ [Stopped name]\<rparr>"
    have m: "moving c ?s2 \<longleftrightarrow> c \<noteq> name \<and> moving c s" for c
      using moving_append [of ?s2 s "Stopped name" c] by auto
    have "start_of (AwaitStop name next) = start_of (AwaitMove r name next)" by (cases "next") simp_all
    then have "hold_inv (push_task (AwaitStop name next) ?s2)"
      by (intro inv_stopped_then [OF inv t]) (simp_all add: m task_loops_def)
    with False show ?thesis by (simp add: stop_now_def Let_def)
  qed
qed

lemma inv_proceed:
  assumes inv: "hold_inv s" and t: "(k, Proceed ok name i m) \<in> set (tasks s)"
  shows "hold_inv (proceed now ok name i m (end_task k s))"
proof -
  note I = hold_invD [OF inv]
  let ?d = "end_task k s"
  have d: "hold_inv ?d" using inv t by (rule inv_drop) simp
  note D = hold_invD [OF d]
  have others: "(j, u) \<in> set (tasks ?d) \<Longrightarrow> start_of u \<noteq> Some (n', i)" for j u n'
    by (rule drop_fresh [OF I(2) t]) simp_all
  show ?thesis
  proof (cases "intentRef s = i")
    case True
    have now: "activeRef s" "name = holdStream s" "no_live_loop s" "\<not> ok \<and> moving name s \<longrightarrow> waiting_stop name s"
      using I(6) [OF t] True by (auto simp: start_ok_def)
    have q: "no_live_loop ?d" using now(3) subsetD [OF drop_views(1)] by (fastforce simp: no_live_loop_def)
    show ?thesis
    proof (cases ok)
      case False
      let ?s = "?d\<lparr>activeRef := False\<rparr>"
      have v [simp]: "loops ?s = loops ?d" "waiting_stop c ?s = waiting_stop c ?d" "moving c ?s = moving c ?d" for c
        by (simp_all add: loops_def waiting_stop_def moving_def)
      have "hold_inv ?s"
      proof (rule hold_invI)
        show "numbers_ok ?s" "intents_ok ?s" using D(1,2) by (simp_all add: numbers_ok_def intents_ok_def)
        show "loops_ok ?s" using q by (auto simp: loops_ok_def no_live_loop_def less_imp_le)
        show "held_or_stopping ?s" using I(4) now False waiting_drop [OF I(1) t] by (auto simp: held_or_stopping_def)
        show "named ?s" using D(5) by (simp add: named_def)
        fix j u assume j: "(j, u) \<in> set (tasks ?s)"
        then have j: "(j, u) \<in> set (tasks ?d)" by simp
        from D(6) [OF j] others [OF j] True show "start_ok ?s u" by (auto simp: start_ok_def)
      qed
      with True False show ?thesis by (simp add: proceed_def)
    next
      case ok: True
      let ?s = "?d\<lparr>generationRef := Suc (generationRef ?d)\<rparr>"
      have v [simp]: "loops (?d\<lparr>generationRef := g\<rparr>) = loops ?d" "waiting_stop c (?d\<lparr>generationRef := g\<rparr>) = waiting_stop c ?d"
          "moving c (?d\<lparr>generationRef := g\<rparr>) = moving c ?d" for c g
        by (simp_all add: loops_def waiting_stop_def moving_def)
      have "hold_inv ?s"
      proof (rule hold_invI)
        show "numbers_ok ?s" "intents_ok ?s" using D(1,2) by (simp_all add: numbers_ok_def intents_ok_def)
        show "loops_ok ?s" using q by (auto simp: loops_ok_def no_live_loop_def)
        show "held_or_stopping ?s" using D(4) by (auto simp: held_or_stopping_def)
        show "named ?s" using D(5) by (simp add: named_def)
        fix j u assume "(j, u) \<in> set (tasks ?s)"
        then have j: "(j, u) \<in> set (tasks ?d)" by simp
        from D(6) [OF j] others [OF j] True show "start_ok ?s u" by (auto simp: start_ok_def)
      qed
      then have "hold_inv (dispatch now \<lparr>lpGeneration = generationRef ?s, lpStream = name, lpMove = m\<rparr> ?s)"
        by (rule inv_dispatch) (use now others True in auto)
      with True ok show ?thesis by (simp add: proceed_def Let_def)
    qed
  next
    case False
    with d show ?thesis by (simp add: proceed_def)
  qed
qed

lemma inv_stop_returns:
  assumes inv: "hold_inv s" and t: "(k, AwaitStop name next) \<in> set (tasks s)"
  shows "hold_inv (stop_returns ok name next (end_task k s))"
proof (cases "next")
  case Nothing
  have "hold_inv (end_task k s)" using inv t by (rule inv_drop) simp
  with Nothing show ?thesis by (simp add: stop_returns_def)
next
  case (StartNext i m)
  have "hold_inv (push_task (Proceed ok name i m) (end_task k s))"
    by (rule inv_pass [OF inv t]) (simp_all add: StartNext task_loops_def)
  with StartNext show ?thesis by (simp add: stop_returns_def)
qed

lemma inv_move_failed:
  assumes inv: "hold_inv s" and t: "(k, MoveFailed r l) \<in> set (tasks s)"
  shows "hold_inv (move_failed r l (end_task k s))"
proof -
  let ?d = "end_task k s" and ?e = "(end_task k s)\<lparr>errors := Suc (errors (end_task k s))\<rparr>"
  have d: "hold_inv ?d" using inv t by (rule inv_drop) simp
  then have e: "hold_inv ?e" by (rule inv_cong) simp_all
  have "l \<in> loops s" using t by (force simp: loops_def task_loops_def)
  then have l: "lpStream l = holdStream s" if "generationRef s = lpGeneration l"
    using that hold_invD(3) [OF inv] by (auto simp: loops_ok_def)
  have "hold_inv (hold_stop (lpStream l) ?e)" if "generationRef s = lpGeneration l"
    by (rule inv_stop [OF e]) (use l that in simp)
  with d have "hold_inv (if r \<in> set (abortedMoves ?d) \<or> generationRef ?d \<noteq> lpGeneration l then ?d else hold_stop (lpStream l) ?e)"
    by simp
  then show ?thesis unfolding move_failed_def by (rule inv_plain_task) (simp_all add: task_loops_def)
qed

lemma inv_fewer_loops:
  assumes inv: "hold_inv s" and f: "holdStream s' = holdStream s" "generationRef s' = generationRef s" "intentRef s' = intentRef s"
      "activeRef s' = activeRef s" "tasks s' = tasks s" "nextNumber s \<le> nextNumber s'" "sent s' = sent s"
    and l: "loops s' \<subseteq> loops s"
  shows "hold_inv s'"
proof -
  have v: "\<And>c. waiting_stop c s' = waiting_stop c s" "\<And>c. moving c s' = moving c s"
    using f by (simp_all add: waiting_stop_def moving_def)
  have "numbers_ok s'" using assms by (force simp: hold_inv_def numbers_ok_def)
  moreover have "intents_ok s'" using assms by (simp add: hold_inv_def intents_ok_def)
  moreover have "loops_ok s'" using hold_invD(3) [OF inv] l f by (auto simp: loops_ok_def)
  moreover have "no_live_loop s \<Longrightarrow> no_live_loop s'" using l f by (auto simp: no_live_loop_def)
  ultimately show ?thesis using assms v by (auto simp: hold_inv_def held_or_stopping_def start_ok_def named_def)
qed

lemma inv_move_done:
  assumes inv: "hold_inv s" and l: "lpGeneration l = generationRef s \<Longrightarrow> l \<in> loops s"
    and s': "s' = s\<lparr>moves := ms\<rparr>" and ms: "set ms \<subseteq> set (moves s)"
  shows "hold_inv (move_done now k startedAt l s')"
proof -
  have sub: "loops s' \<subseteq> loops s" using ms s' by (auto simp: loops_def)
  have "hold_inv s'" by (rule inv_fewer_loops [OF inv]) (use s' sub in simp_all)
  moreover have "hold_inv (s'\<lparr>timers := timers s' @ [(nextNumber s', t, l)], timerRef := Some (nextNumber s'), nextNumber := Suc (nextNumber s')\<rparr>)"
    if g: "generationRef s = lpGeneration l" for t
  proof (rule inv_fewer_loops [OF inv])
    show "loops (s'\<lparr>timers := timers s' @ [(nextNumber s', t, l)], timerRef := Some (nextNumber s'), nextNumber := Suc (nextNumber s')\<rparr>) \<subseteq> loops s"
      using sub l g by (auto simp: loops_def)
  qed (use s' in simp_all)
  ultimately have "hold_inv (if generationRef s' \<noteq> lpGeneration l then s' else s'\<lparr>timers := timers s' @ [(nextNumber s', now + max 0 (1000 - (now - startedAt)), l)], timerRef := Some (nextNumber s'), nextNumber := Suc (nextNumber s')\<rparr>)"
    using s' by simp
  then show ?thesis unfolding move_done_def by (rule inv_plain_task) (simp_all add: task_loops_def)
qed

lemma inv_if_active: "hold_inv s \<Longrightarrow> hold_inv (stopIfActive s)"
  by (simp add: stopIfActive_def inv_stop)

lemma stop_fields [simp]:
  "activeRef (hold_stop n s) = False" "holdStream (hold_stop n s) = holdStream s" "sent (hold_stop n s) = sent s"
  "tasks (hold_stop n s) = tasks s @ [(nextNumber s, AwaitMove (inFlightRef s) n Nothing)]" "moves (hold_stop n s) = moves s"
  by (simp_all add: hold_stop_def stopCurrent_base) (simp_all add: stop_base_def abort_move_def clearTimer_def Let_def split: option.split)

lemma inv_change: assumes inv: "hold_inv s" shows "hold_inv (change_camera name s)"
proof (cases "name = holdStream s")
  case False
  let ?a = "stopIfActive s" and ?s = "(stopIfActive s)\<lparr>holdStream := name\<rparr>"
  have na: "\<not> activeRef ?a" by (simp add: stopIfActive_def)
  note A = hold_invD [OF inv_if_active [OF inv]]
  have v [simp]: "loops ?s = loops ?a" "waiting_stop c ?s = waiting_stop c ?a" "moving c ?s = moving c ?a" for c
    by (simp_all add: loops_def waiting_stop_def moving_def)
  have "hold_inv ?s"
  proof (rule hold_invI)
    show "numbers_ok ?s" "intents_ok ?s" using A(1,2) by (simp_all add: numbers_ok_def intents_ok_def)
    show "loops_ok ?s" using A(3) na by (auto simp: loops_ok_def)
    show "held_or_stopping ?s" using A(4) na by (auto simp: held_or_stopping_def)
    show "named ?s" using A(5) na by (simp add: named_def)
    fix k t assume "(k, t) \<in> set (tasks ?s)"
    then have "start_ok ?a t" using A(6) [of k t] by simp
    with na show "start_ok ?s t" by (auto simp: start_ok_def)
  qed
  with False show ?thesis by (simp add: change_camera_def)
qed (use inv in \<open>simp add: change_camera_def\<close>)

lemma inv_exec: assumes inv: "hold_inv s" shows "hold_inv (hold_exec i s)"
proof (cases i)
  case (MoveSettled now k ok)
  show ?thesis
  proof (cases "map_of (moves s) k")
    case (Some sl)
    obtain startedAt l where sl: "sl = (startedAt, l)" by (cases sl)
    have m: "(k, startedAt, l) \<in> set (moves s)" using Some sl by (simp add: map_of_SomeD)
    then have l: "l \<in> loops s" by (force simp: loops_def)
    let ?s = "s\<lparr>moves := filter (\<lambda>(j, _). j \<noteq> k) (moves s)\<rparr>"
    have "hold_inv (move_done now k startedAt l ?s)"
      by (rule inv_move_done [OF inv]) (use l in auto)
    moreover have "hold_inv (push_task (MoveFailed k l) ?s)"
    proof (rule inv_fewer_loops [where s = "push_task (MoveFailed k l) s"])
      show "hold_inv (push_task (MoveFailed k l) s)"
      proof (rule inv_add_task [OF inv])
        fix l' assume "l' \<in> task_loops (MoveFailed k l)"
        with l hold_invD(3) [OF inv] show "lpGeneration l' \<le> generationRef s
            \<and> (lpGeneration l' = generationRef s \<longrightarrow> activeRef s \<and> lpStream l' = holdStream s \<and> l' \<in> loops s)"
          by (auto simp: loops_ok_def task_loops_def)
      qed (simp_all add: start_ok_def)
    qed (auto simp: push_task_def loops_def)
    ultimately show ?thesis using MoveSettled Some sl by (simp add: Let_def)
  qed (use MoveSettled inv in simp)
next
  case (Timer now k)
  show ?thesis
  proof (cases "map_of (timers s) k")
    case (Some sl)
    obtain due l where sl: "sl = (due, l)" by (cases sl)
    have "(k, due, l) \<in> set (timers s)" using Some sl by (simp add: map_of_SomeD)
    then have l: "l \<in> loops s" by (force simp: loops_def)
    let ?s = "s\<lparr>timers := filter (\<lambda>(j, _). j \<noteq> k) (timers s)\<rparr>"
    have "hold_inv ?s" by (rule inv_fewer_loops [OF inv]) (auto simp: loops_def)
    then have "hold_inv (dispatch now l ?s)"
    proof (rule inv_dispatch)
      assume g: "lpGeneration l = generationRef ?s"
      with l hold_invD(3) [OF inv] show "activeRef ?s \<and> lpStream l = holdStream ?s" by (auto simp: loops_ok_def)
      fix j t n assume "(j, t) \<in> set (tasks ?s)"
      then have "start_ok s t" using hold_invD(6) [OF inv, of j t] by simp
      moreover have "\<not> no_live_loop s" using l g by (intro notI) (force simp: no_live_loop_def)
      ultimately show "start_of t \<noteq> Some (n, intentRef ?s)" by (auto simp: start_ok_def)
    qed
    with Timer Some sl inv show ?thesis by simp
  qed (use Timer inv in simp)
next
  case (Resume now k ok)
  show ?thesis
  proof (cases "map_of (tasks s) k")
    case (Some t)
    then have t: "(k, t) \<in> set (tasks s)" by (rule map_of_SomeD)
    have d: "s\<lparr>tasks := filter (\<lambda>(j, _). j \<noteq> k) (tasks s)\<rparr> = end_task k s" by (simp add: end_task_def)
    have "hold_inv (hold_resume now ok t (end_task k s))"
    proof (cases t)
      case (AwaitMove r name x)
      with inv_stop_now [OF inv] t show ?thesis by simp
    next
      case (AwaitStop name x)
      have r: "hold_inv (stop_returns ok name x (end_task k s))" by (rule inv_stop_returns [OF inv]) (use t AwaitStop in simp)
      have "hold_inv (stop_returns ok name x (end_task k s\<lparr>errors := e\<rparr>))" for e
        by (rule inv_cong [OF r]) (simp_all add: stop_returns_def push_task_def split: after_stop.split)
      with r AwaitStop show ?thesis by (cases ok) simp_all
    next
      case (Proceed b name n m)
      with inv_proceed [OF inv] t show ?thesis by simp
    next
      case (MoveFailed r l)
      with inv_move_failed [OF inv] t show ?thesis by simp
    next
      case (MoveFinally r)
      have d: "hold_inv (end_task k s)" by (rule inv_drop [OF inv t]) (simp add: MoveFinally)
      have "hold_inv (move_finally r (end_task k s))" by (rule inv_cong [OF d]) (simp_all add: move_finally_def)
      with MoveFinally show ?thesis by simp
    qed
    with Resume Some inv d show ?thesis by simp
  qed (use Resume inv in simp)
qed (use inv in \<open>auto simp: inv_start inv_stop inv_if_active inv_change\<close>)

lemma inv_new: "hold_inv (new_hold name)"
  by (auto simp: hold_inv_def new_hold_def numbers_ok_def intents_ok_def loops_ok_def held_or_stopping_def named_def loops_def moving_def)

lemma inv_run: "hold_inv s \<Longrightarrow> hold_inv (hold_run ins s)"
  unfolding hold_run_def by (induction ins arbitrary: s) (simp_all add: inv_exec)

section \<open>The buttons\<close>

lemma stays_inactive:
  "\<not> activeRef s \<Longrightarrow> (\<And>m. i \<noteq> Start m) \<Longrightarrow> \<not> activeRef (hold_exec i s)"
proof (cases i)
  case (Resume now k ok)
  assume "\<not> activeRef s"
  moreover have "\<not> activeRef (hold_resume now ok t x)" if "\<not> activeRef x" for t x
    using that by (cases t) (simp_all add: stop_now_def stop_returns_def proceed_def dispatch_def move_failed_def move_finally_def Let_def
        split: after_stop.split)
  ultimately show ?thesis using Resume by (simp split: option.split)
qed (auto simp: stopIfActive_def change_camera_def move_done_def dispatch_def Let_def split: option.split)

definition button_ok :: "hold_button \<Rightarrow> bool" where
  "button_ok x \<longleftrightarrow> (Pointer \<in> set (pressedSources x) \<longleftrightarrow> pointerActive x)
     \<and> (Keyboard \<in> set (pressedSources x) \<longleftrightarrow> keyboardActive x)"

definition panel_ok :: "panel \<Rightarrow> bool" where
  "panel_ok p \<longleftrightarrow> hold_inv (panelHold p) \<and> (\<forall>d. button_ok (buttons p d))
     \<and> (activeRef (panelHold p) \<longrightarrow> (\<exists>d. pressed (buttons p d)))"

lemma button_ok_set: "button_ok x \<Longrightarrow> button_ok (set_source src b x)"
  by (cases src) (simp_all add: button_ok_def set_source_def updatePtzPressSources_def)

lemma pressed_set: "pressed (set_source src True x)"
  by (cases src) (auto simp: pressed_def set_source_def updatePtzPressSources_def)

lemma on_button_ok:
  "panel_ok p \<Longrightarrow> \<not> activeRef (panelHold p) \<or> (\<exists>e. e \<noteq> d \<and> pressed (buttons p e)) \<or> pressed (set_source src b (buttons p d)) \<Longrightarrow>
   panel_ok (on_button d (set_source src b) p)"
  by (auto simp: panel_ok_def on_button_def button_ok_set)

lemma begin_ok: "panel_ok p \<Longrightarrow> pressed (buttons p d) \<Longrightarrow> panel_ok (begin_hold d p)"
  by (auto simp: panel_ok_def begin_hold_def inv_start)

lemma stop_ok: "panel_ok p \<Longrightarrow> panel_ok (holdStop p) \<and> \<not> activeRef (panelHold (holdStop p))"
  by (simp add: panel_ok_def holdStop_def inv_stop)

lemma holdStop_buttons [simp]: "buttons (holdStop p) = buttons p"
  by (simp add: holdStop_def)

lemma released_other:
  assumes "panel_ok p" and "\<not> (case src of Pointer \<Rightarrow> pointerActive (buttons p d) | Keyboard \<Rightarrow> keyboardActive (buttons p d))"
  shows "panel_ok (on_button d (set_source src False) p)"
proof -
  have "src \<notin> set (pressedSources (buttons p d))" using assms by (cases src) (auto simp: panel_ok_def button_ok_def)
  then have "pressedSources (set_source src False (buttons p d)) = pressedSources (buttons p d)"
    by (cases src) (simp_all add: set_source_def updatePtzPressSources_def filter_id_conv, (metis)+)
  then have "pressed (buttons p e) \<Longrightarrow> e \<noteq> d \<or> pressed (set_source src False (buttons p d))" for e
    by (cases "e = d") (simp_all add: pressed_def)
  with assms(1) show ?thesis by (intro on_button_ok) (auto simp: panel_ok_def)
qed

lemma press_ok: "panel_ok p \<Longrightarrow> panel_ok (begin_hold d (on_button d (set_source src True) p))"
  by (intro begin_ok on_button_ok) (simp_all add: pressed_set on_button_def)

lemma panel_exec_ok: assumes ok: "panel_ok p" shows "panel_ok (panel_exec i p)"
proof (cases i)
  case (OnButton d e)
  have rel: "panel_ok (on_button d (set_source src False) (holdStop p))" for src
    using stop_ok [OF ok] by (intro on_button_ok) simp_all
  have up: "panel_ok (holdStop (on_button d (set_source src False) p))" for src
  proof -
    have "holdStop (on_button d (set_source src False) p) = on_button d (set_source src False) (holdStop p)"
      by (simp add: holdStop_def on_button_def)
    with rel show ?thesis by simp
  qed
  show ?thesis
    using OnButton rel up press_ok [OF ok] ok released_other [OF ok, of d Pointer] released_other [OF ok, of d Keyboard]
    by (cases e) auto
next
  case (SetSpeed x)
  with ok show ?thesis by (simp add: panel_ok_def)
next
  case (Elsewhere j)
  show ?thesis
  proof (cases "\<exists>m. j = Start m")
    case True
    with Elsewhere ok show ?thesis by auto
  next
    case False
    then have "panel_exec i p = p\<lparr>panelHold := hold_exec j (panelHold p)\<rparr>" using Elsewhere by (cases j) auto
    with ok stays_inactive [of "panelHold p" j] False show ?thesis by (auto simp: panel_ok_def inv_exec)
  qed
qed

lemma panel_new_ok: "panel_ok (new_panel name)"
  by (auto simp: panel_ok_def new_panel_def new_button_def button_ok_def inv_new split: press_source.splits) (simp add: new_hold_def)

lemma panel_run_ok: "panel_ok (panel_run ins (new_panel name))"
proof -
  have "panel_ok p \<Longrightarrow> panel_ok (panel_run ins p)" for p
    unfolding panel_run_def by (induction ins arbitrary: p) (simp_all add: panel_exec_ok)
  then show ?thesis using panel_new_ok .
qed

section \<open>The pace of the moves\<close>

definition gen_of :: "nat \<times> rat \<times> loop \<Rightarrow> nat" where
  "gen_of x = lpGeneration (snd (snd x))"

definition apart :: "ptz_command \<Rightarrow> ptz_command \<Rightarrow> bool" where
  "apart a b \<longleftrightarrow> (\<forall>g t c m t' c' m'. a = Moved g t c m \<longrightarrow> b = Moved g t' c' m' \<longrightarrow> t + 1000 \<le> t')"

definition pace_inv :: "hold \<Rightarrow> bool" where
  "pace_inv s \<longleftrightarrow> distinct (map gen_of (timers s @ moves s)) \<and> (\<forall>x \<in> set (timers s @ moves s). gen_of x \<le> generationRef s)
     \<and> (\<forall>g t c m. Moved g t c m \<in> set (sent s) \<longrightarrow> g \<le> generationRef s
          \<and> (\<forall>x \<in> set (timers s). gen_of x = g \<longrightarrow> t + 1000 \<le> fst (snd x))
          \<and> (\<forall>x \<in> set (moves s). gen_of x = g \<longrightarrow> t \<le> fst (snd x)))
     \<and> sorted_wrt apart (sent s)"

lemma pace_invI:
  assumes "distinct (map gen_of (timers s @ moves s))" "\<And>x. x \<in> set (timers s) \<union> set (moves s) \<Longrightarrow> gen_of x \<le> generationRef s"
    and "\<And>g t c m. Moved g t c m \<in> set (sent s) \<Longrightarrow> g \<le> generationRef s"
    and "\<And>g t c m x. Moved g t c m \<in> set (sent s) \<Longrightarrow> x \<in> set (timers s) \<Longrightarrow> gen_of x = g \<Longrightarrow> t + 1000 \<le> fst (snd x)"
    and "\<And>g t c m x. Moved g t c m \<in> set (sent s) \<Longrightarrow> x \<in> set (moves s) \<Longrightarrow> gen_of x = g \<Longrightarrow> t \<le> fst (snd x)"
    and "sorted_wrt apart (sent s)"
  shows "pace_inv s"
  unfolding pace_inv_def using assms by (intro conjI allI impI ballI) auto

lemma pace_invD:
  assumes "pace_inv s"
  shows "distinct (map gen_of (timers s @ moves s))" "\<And>x. x \<in> set (timers s) \<union> set (moves s) \<Longrightarrow> gen_of x \<le> generationRef s"
    and "\<And>g t c m. Moved g t c m \<in> set (sent s) \<Longrightarrow> g \<le> generationRef s"
    and "\<And>g t c m x. Moved g t c m \<in> set (sent s) \<Longrightarrow> x \<in> set (timers s) \<Longrightarrow> gen_of x = g \<Longrightarrow> t + 1000 \<le> fst (snd x)"
    and "\<And>g t c m x. Moved g t c m \<in> set (sent s) \<Longrightarrow> x \<in> set (moves s) \<Longrightarrow> gen_of x = g \<Longrightarrow> t \<le> fst (snd x)"
    and "sorted_wrt apart (sent s)"
proof -
  show "distinct (map gen_of (timers s @ moves s))" "sorted_wrt apart (sent s)" using assms by (simp_all add: pace_inv_def)
  show "x \<in> set (timers s) \<union> set (moves s) \<Longrightarrow> gen_of x \<le> generationRef s" for x using assms by (simp add: pace_inv_def)
  fix g t c m assume m: "Moved g t c m \<in> set (sent s)"
  have "g \<le> generationRef s \<and> (\<forall>x \<in> set (timers s). gen_of x = g \<longrightarrow> t + 1000 \<le> fst (snd x))
          \<and> (\<forall>x \<in> set (moves s). gen_of x = g \<longrightarrow> t \<le> fst (snd x))"
    using assms m unfolding pace_inv_def by blast
  then show "g \<le> generationRef s" "\<And>x. x \<in> set (timers s) \<Longrightarrow> gen_of x = g \<Longrightarrow> t + 1000 \<le> fst (snd x)"
    "\<And>x. x \<in> set (moves s) \<Longrightarrow> gen_of x = g \<Longrightarrow> t \<le> fst (snd x)" by blast+
qed

text \<open>The generations of the timers and the moves are distinct.\<close>

lemma pace_unique:
  assumes inv: "pace_inv s" and x: "x \<in> set (timers s) \<union> set (moves s)" and y: "y \<in> set (timers s) \<union> set (moves s)"
    and g: "gen_of x = gen_of y"
  shows "x = y" and "x \<in> set (timers s) \<Longrightarrow> x \<notin> set (moves s)"
proof -
  note D = pace_invD(1) [OF inv]
  have "inj_on gen_of (set (timers s @ moves s))" using D unfolding distinct_map by blast
  with x y g show "x = y" by (auto dest: inj_onD)
  show "x \<in> set (timers s) \<Longrightarrow> x \<notin> set (moves s)" using D unfolding distinct_map distinct_append by auto
qed

lemma pace_fewer:
  assumes inv: "pace_inv s" and f: "\<exists>P. timers s' = filter P (timers s)" "\<exists>Q. moves s' = filter Q (moves s)"
    "generationRef s \<le> generationRef s'" "sent s' = sent s"
  shows "pace_inv s'"
proof -
  note D = pace_invD [OF inv]
  obtain P Q where t: "timers s' = filter P (timers s)" and m: "moves s' = filter Q (moves s)" using f by auto
  show ?thesis
  proof (rule pace_invI)
    show "distinct (map gen_of (timers s' @ moves s'))" using D(1) unfolding t m by (auto simp: distinct_map_filter)
    show "gen_of x \<le> generationRef s'" if "x \<in> set (timers s') \<union> set (moves s')" for x
      by (rule order_trans [OF D(2) f(3)]) (use that in \<open>auto simp: t m\<close>)
    show "g \<le> generationRef s'" if "Moved g a c v \<in> set (sent s')" for g a c v
      by (rule order_trans [OF D(3) f(3)]) (use that f(4) in simp)
    show "a + 1000 \<le> fst (snd x)" if "Moved g a c v \<in> set (sent s')" "x \<in> set (timers s')" "gen_of x = g" for g a c v x
      by (rule D(4)) (use that f(4) t in auto)
    show "a \<le> fst (snd x)" if "Moved g a c v \<in> set (sent s')" "x \<in> set (moves s')" "gen_of x = g" for g a c v x
      by (rule D(5)) (use that f(4) m in auto)
    show "sorted_wrt apart (sent s')" using D(6) f(4) by simp
  qed
qed

lemma pace_same:
  assumes "pace_inv s" "timers s' = timers s" "moves s' = moves s" "generationRef s \<le> generationRef s'" "sent s' = sent s"
  shows "pace_inv s'"
  by (rule pace_fewer [OF assms(1)]) (use assms in \<open>auto intro: exI [of _ "\<lambda>_. True"]\<close>)

lemma pace_sent_stop: "pace_inv s \<Longrightarrow> pace_inv (s\<lparr>sent := sent s @ [Stopped c]\<rparr>)"
  by (auto simp: pace_inv_def sorted_wrt_append apart_def)

lemma pace_dispatch:
  assumes inv: "pace_inv s" and fresh: "lpGeneration l \<notin> gen_of ` (set (timers s) \<union> set (moves s))"
    and late: "\<And>t c m. Moved (lpGeneration l) t c m \<in> set (sent s) \<Longrightarrow> t + 1000 \<le> now"
  shows "pace_inv (dispatch now l s)"
proof (cases "generationRef s = lpGeneration l")
  case True
  note D = pace_invD [OF inv]
  let ?s = "dispatch now l s"
  have f: "timers ?s = timers s" "moves ?s = moves s @ [(nextNumber s, now, l)]" "generationRef ?s = generationRef s"
    "sent ?s = sent s @ [Moved (lpGeneration l) now (lpStream l) (lpMove l)]" using True by (simp_all add: dispatch_def)
  have g: "gen_of (nextNumber s, now, l) = lpGeneration l" by (simp add: gen_of_def)
  have new: "gen_of x \<noteq> lpGeneration l" if "x \<in> set (timers s) \<union> set (moves s)" for x using fresh that by (metis imageI)
  show ?thesis
  proof (rule pace_invI)
    show "distinct (map gen_of (timers ?s @ moves ?s))" using D(1) fresh by (auto simp: f g)
    show "gen_of x \<le> generationRef ?s" if "x \<in> set (timers ?s) \<union> set (moves ?s)" for x
      using that D(2) [of x] True by (auto simp: f g)
    show "k \<le> generationRef ?s" if "Moved k a c v \<in> set (sent ?s)" for k a c v
      using that D(3) [of k a c v] True by (auto simp: f)
    show "a + 1000 \<le> fst (snd x)" if "Moved k a c v \<in> set (sent ?s)" "x \<in> set (timers ?s)" "gen_of x = k" for k a c v x
    proof -
      have "k \<noteq> lpGeneration l" using that(2,3) new [of x] by (simp add: f)
      with that D(4) [of k a c v x] show ?thesis by (simp add: f)
    qed
    show "a \<le> fst (snd x)" if "Moved k a c v \<in> set (sent ?s)" "x \<in> set (moves ?s)" "gen_of x = k" for k a c v x
    proof (cases "x = (nextNumber s, now, l)")
      case True
      with that late [of a c v] show ?thesis by (auto simp: f g)
    next
      case False
      with that have x: "x \<in> set (moves s)" by (simp add: f)
      then have "k \<noteq> lpGeneration l" using that(3) new [of x] by simp
      with that x D(5) [of k a c v x] show ?thesis by (simp add: f)
    qed
    show "sorted_wrt apart (sent ?s)" using D(6) late by (auto simp: f sorted_wrt_append apart_def)
  qed
qed (use inv in \<open>simp add: dispatch_def\<close>)

lemma pace_stop: "pace_inv s \<Longrightarrow> pace_inv (stopCurrent n b x s)"
proof (rule pace_fewer)
  show "\<exists>P. timers (stopCurrent n b x s) = filter P (timers s)"
    by (auto simp: stopCurrent_base stop_base_def abort_move_def clearTimer_def Let_def split: option.split)
  show "\<exists>Q. moves (stopCurrent n b x s) = filter Q (moves s)"
    by (auto simp: stopCurrent_base intro: exI [of _ "\<lambda>_. True"])
qed (simp_all add: stopCurrent_base)

lemma pace_start: "pace_inv s \<Longrightarrow> pace_inv (hold_start m s)"
proof -
  assume inv: "pace_inv s"
  let ?m = "s\<lparr>intentRef := Suc (intentRef s), activeRef := True\<rparr>"
  have "pace_inv ?m" by (rule pace_same [OF inv]) simp_all
  then have "pace_inv (stopCurrent (holdStream s) False x ?m)" for x by (rule pace_stop)
  moreover have "pace_inv (push_task t ?m)" for t by (rule pace_same [OF inv]) simp_all
  ultimately show ?thesis using inv by (simp add: hold_start_def Let_def)
qed

lemma pace_add: "pace_inv s \<Longrightarrow> pace_inv (push_task t s)"
  by (rule pace_same) simp_all

lemma pace_hold_stop: "pace_inv s \<Longrightarrow> pace_inv (hold_stop n s)"
  by (simp add: hold_stop_def pace_stop)

lemma pace_resume: assumes inv: "pace_inv s" shows "pace_inv (hold_resume now ok t s)"
proof (cases t)
  case (AwaitMove r name x)
  let ?s = "s\<lparr>abortRef := None, inFlightRef := None\<rparr>"
  have s: "pace_inv ?s" by (rule pace_same [OF inv]) simp_all
  from pace_sent_stop [OF this] have "pace_inv (?s\<lparr>sent := sent ?s @ [Stopped name]\<rparr>)" .
  with s AwaitMove show ?thesis by (auto simp: stop_now_def stop_returns_def Let_def intro: pace_add split: after_stop.split)
next
  case (AwaitStop name x)
  have "pace_inv (s\<lparr>errors := e\<rparr>)" for e by (rule pace_same [OF inv]) simp_all
  with AwaitStop inv show ?thesis by (auto simp: stop_returns_def intro: pace_add split: after_stop.split)
next
  case (Proceed b name n m)
  let ?s = "s\<lparr>generationRef := Suc (generationRef s)\<rparr>"
  have "pace_inv ?s" by (rule pace_same [OF inv]) simp_all
  then have "pace_inv (dispatch now \<lparr>lpGeneration = Suc (generationRef s), lpStream = name, lpMove = m\<rparr> ?s)"
  proof (rule pace_dispatch)
    show "lpGeneration \<lparr>lpGeneration = Suc (generationRef s), lpStream = name, lpMove = m\<rparr> \<notin> gen_of ` (set (timers ?s) \<union> set (moves ?s))"
      using pace_invD(2) [OF inv] by fastforce
    fix t c m' assume "Moved (lpGeneration \<lparr>lpGeneration = Suc (generationRef s), lpStream = name, lpMove = m\<rparr>) t c m' \<in> set (sent ?s)"
    then have "Moved (Suc (generationRef s)) t c m' \<in> set (sent s)" by simp
    from pace_invD(3) [OF inv this] show "t + 1000 \<le> now" by simp
  qed
  moreover have "pace_inv (s\<lparr>activeRef := False\<rparr>)" by (rule pace_same [OF inv]) simp_all
  ultimately show ?thesis using Proceed inv by (simp add: proceed_def Let_def)
next
  case (MoveFailed r l)
  have "pace_inv (s\<lparr>errors := e\<rparr>)" for e by (rule pace_same [OF inv]) simp_all
  with MoveFailed inv show ?thesis by (auto simp: move_failed_def intro!: pace_add pace_hold_stop)
next
  case (MoveFinally r)
  have "pace_inv (move_finally r s)" by (rule pace_same [OF inv]) (simp_all add: move_finally_def)
  with MoveFinally show ?thesis by simp
qed

lemma pace_exec: assumes inv: "pace_inv s" shows "pace_inv (hold_exec i s)"
proof (cases i)
  case (MoveSettled now k ok)
  show ?thesis
  proof (cases "map_of (moves s) k")
    case (Some sl)
    obtain st l where sl: "sl = (st, l)" by (cases sl)
    have m: "(k, st, l) \<in> set (moves s)" using Some sl by (simp add: map_of_SomeD)
    let ?s = "s\<lparr>moves := filter (\<lambda>(j, _). j \<noteq> k) (moves s)\<rparr>"
    have s: "pace_inv ?s" by (rule pace_fewer [OF inv]) (auto intro: exI [of _ "\<lambda>_. True"])
    have "pace_inv (?s\<lparr>timers := timers ?s @ [(j, due, l)], timerRef := Some j, nextNumber := j'\<rparr>)"
      if g: "generationRef s = lpGeneration l" and due: "st + 1000 \<le> due" for j j' due
    proof -
      note D = pace_invD [OF inv]
      have gl: "gen_of (k, st, l) = lpGeneration l" by (simp add: gen_of_def)
      have old: "gen_of x \<noteq> lpGeneration l" if "x \<in> set (timers s) \<union> set (moves ?s)" for x
      proof
        assume "gen_of x = lpGeneration l"
        then have x: "x = (k, st, l)" using that m gl by (intro pace_unique(1) [OF inv]) auto
        with that have "x \<in> set (timers s)" by auto
        with pace_unique(2) [OF inv, of x x] x m show False by auto
      qed
      let ?t = "?s\<lparr>timers := timers ?s @ [(j, due, l)], timerRef := Some j, nextNumber := j'\<rparr>"
      show ?thesis
      proof (rule pace_invI)
        show "distinct (map gen_of (timers ?t @ moves ?t))"
        proof -
          have gj: "gen_of (j, due, l) = lpGeneration l" by (simp add: gen_of_def)
          have "lpGeneration l \<notin> gen_of ` (set (timers s) \<union> set (moves ?s))"
          proof
            assume "lpGeneration l \<in> gen_of ` (set (timers s) \<union> set (moves ?s))"
            then obtain x where "x \<in> set (timers s) \<union> set (moves ?s)" "lpGeneration l = gen_of x" by (rule imageE)
            with old [of x] show False by simp
          qed
          with pace_invD(1) [OF s] gj show ?thesis by auto
        qed
        show "gen_of x \<le> generationRef ?t" if "x \<in> set (timers ?t) \<union> set (moves ?t)" for x
          using that D(2) [of x] g by (auto simp: gen_of_def)
        show "h \<le> generationRef ?t" if "Moved h a c v \<in> set (sent ?t)" for h a c v
          using that D(3) [of h a c v] by simp
        show "a + 1000 \<le> fst (snd x)" if "Moved h a c v \<in> set (sent ?t)" "x \<in> set (timers ?t)" "gen_of x = h" for h a c v x
        proof (cases "x \<in> set (timers s)")
          case True
          with that D(4) [of h a c v x] show ?thesis by simp
        next
          case False
          with that(2) have x: "x = (j, due, l)" by simp
          then have h: "h = lpGeneration l" using that(3) by (simp add: gen_of_def)
          have "a \<le> fst (snd (k, st, l))" by (rule D(5) [of h a c v]) (use that(1) m gl h in simp_all)
          with due x show ?thesis by simp
        qed
        show "a \<le> fst (snd x)" if "Moved h a c v \<in> set (sent ?t)" "x \<in> set (moves ?t)" "gen_of x = h" for h a c v x
          using that D(5) [of h a c v x] by simp
        show "sorted_wrt apart (sent ?t)" using D(6) by simp
      qed
    qed
    moreover have "st + 1000 \<le> now + max 0 (1000 - (now - st))" by simp
    ultimately have "pace_inv (move_done now k st l ?s)" using s unfolding move_done_def by (intro pace_add) simp
    moreover have "pace_inv (push_task (MoveFailed k l) ?s)" using s by (rule pace_add)
    ultimately show ?thesis using MoveSettled Some sl by (simp add: Let_def)
  qed (use MoveSettled inv in simp)
next
  case (Timer now k)
  show ?thesis
  proof (cases "map_of (timers s) k")
    case (Some sl)
    obtain due l where sl: "sl = (due, l)" by (cases sl)
    have m: "(k, due, l) \<in> set (timers s)" using Some sl by (simp add: map_of_SomeD)
    let ?s = "s\<lparr>timers := filter (\<lambda>(j, _). j \<noteq> k) (timers s)\<rparr>"
    have s: "pace_inv ?s" by (rule pace_fewer [OF inv]) (auto intro: exI [of _ "\<lambda>_. True"])
    have "pace_inv (dispatch now l ?s)" if now: "\<not> now < due"
    proof (rule pace_dispatch [OF s])
      have gl: "gen_of (k, due, l) = lpGeneration l" by (simp add: gen_of_def)
      show "lpGeneration l \<notin> gen_of ` (set (timers ?s) \<union> set (moves ?s))"
      proof
        assume "lpGeneration l \<in> gen_of ` (set (timers ?s) \<union> set (moves ?s))"
        then obtain x where x: "x \<in> set (timers ?s) \<union> set (moves ?s)" "lpGeneration l = gen_of x" by (rule imageE)
        then have "x = (k, due, l)" using m gl by (intro pace_unique(1) [OF inv]) auto
        with x pace_unique(2) [OF inv, of x x] m show False by auto
      qed
      fix t c v assume "Moved (lpGeneration l) t c v \<in> set (sent ?s)"
      then have "t + 1000 \<le> due" using pace_invD(4) [OF inv, of "lpGeneration l" t c v "(k, due, l)"] m gl by simp
      with now show "t + 1000 \<le> now" by simp
    qed
    with Timer Some sl inv show ?thesis by simp
  qed (use Timer inv in simp)
next
  case (Resume now k ok)
  have "pace_inv (s\<lparr>tasks := ts\<rparr>)" for ts by (rule pace_same [OF inv]) simp_all
  with pace_resume Resume inv show ?thesis by (auto split: option.split)
next
  case (ChangeCamera name)
  have "pace_inv (stopIfActive s\<lparr>holdStream := name\<rparr>)"
    by (rule pace_same [of "stopIfActive s"]) (use inv in \<open>simp_all add: stopIfActive_def pace_hold_stop\<close>)
  with ChangeCamera inv show ?thesis by (simp add: change_camera_def)
qed (use inv in \<open>auto simp: pace_start pace_hold_stop stopIfActive_def\<close>)

lemma pace_run: "pace_inv (hold_run ins (new_hold name))"
proof -
  have "pace_inv s \<Longrightarrow> pace_inv (hold_run ins s)" for s
    unfolding hold_run_def by (induction ins arbitrary: s) (simp_all add: pace_exec)
  moreover have "pace_inv (new_hold name)" by (simp add: pace_inv_def new_hold_def)
  ultimately show ?thesis .
qed

section \<open>What is sent\<close>

lemma hold_stop_sent: "sent (stopCurrent n b x s) = sent s"
  by (simp add: stopCurrent_base)

lemma start_sent: "sent (hold_start m s) = sent s"
  by (simp add: hold_start_def hold_stop_sent Let_def)

lemma exec_sent:
  assumes inv: "hold_inv s"
  shows "\<exists>new. sent (hold_exec i s) = sent s @ new \<and> (\<forall>g t c m. Moved g t c m \<in> set new \<longrightarrow> activeRef s \<and> c = holdStream s)"
proof (cases i)
  case (MoveSettled now k ok)
  then show ?thesis by (auto simp: move_done_def Let_def split: option.split)
next
  case (Timer now k)
  show ?thesis
  proof (cases "map_of (timers s) k")
    case (Some sl)
    obtain due l where sl: "sl = (due, l)" by (cases sl)
    have "(k, due, l) \<in> set (timers s)" using Some sl by (simp add: map_of_SomeD)
    then have "l \<in> loops s" by (force simp: loops_def)
    then have "lpGeneration l = generationRef s \<Longrightarrow> activeRef s \<and> lpStream l = holdStream s"
      using hold_invD(3) [OF inv] by (auto simp: loops_ok_def)
    then show ?thesis using Timer Some sl by (auto simp: dispatch_def)
  qed (use Timer in simp)
next
  case (Resume now k ok)
  show ?thesis
  proof (cases "map_of (tasks s) k")
    case (Some t)
    then have t: "start_ok s t" by (intro hold_invD(6) [OF inv] map_of_SomeD)
    have key: "\<exists>new. sent (hold_resume now ok t x) = sent x @ new \<and> (\<forall>g a c m. Moved g a c m \<in> set new \<longrightarrow> activeRef s \<and> c = holdStream s)"
      if "start_ok s t" "intentRef x = intentRef s" for x
      using that by (cases t)
        (auto simp: stop_now_def stop_returns_def proceed_def dispatch_def move_failed_def move_finally_def start_ok_def Let_def
          split: after_stop.split)
    have "\<exists>new. sent (hold_resume now ok t (s\<lparr>tasks := filter (\<lambda>(j, _). j \<noteq> k) (tasks s)\<rparr>)) = sent s @ new
        \<and> (\<forall>g a c m. Moved g a c m \<in> set new \<longrightarrow> activeRef s \<and> c = holdStream s)"
      using key [OF t, of "s\<lparr>tasks := filter (\<lambda>(j, _). j \<noteq> k) (tasks s)\<rparr>"] by simp
    then show ?thesis using Resume Some by simp
  qed (use Resume in simp)
qed (auto simp: start_sent hold_stop_sent stopIfActive_def change_camera_def)

lemma button_sent: "sent (panelHold (button_exec d e p)) = sent (panelHold p)"
  by (cases e) (simp_all add: begin_hold_def holdStop_def on_button_def start_sent)

section \<open>Properties\<close>

text \<open>C15: a camera is asked to move only while a button for it is held. In every state that the PTZ panel
  reaches, whatever happens next (a press, a timer, an answer, another camera), a new move is for the camera
  that the panel shows, and some button of the panel is pressed.\<close>

theorem moves_need_a_held_button:
  assumes "Moved g t c m \<in> set (drop (length (sent (panelHold (panel_run ins (new_panel name)))))
      (sent (panelHold (panel_exec i (panel_run ins (new_panel name))))))"
  shows "c = holdStream (panelHold (panel_run ins (new_panel name)))
     \<and> (\<exists>d. pressed (buttons (panel_run ins (new_panel name)) d))"
proof -
  let ?p = "panel_run ins (new_panel name)"
  have ok: "panel_ok ?p" by (rule panel_run_ok)
  show ?thesis
  proof (cases "\<exists>j. i = Elsewhere j \<and> (\<forall>m. j \<noteq> Start m)")
    case True
    then obtain j where j: "i = Elsewhere j" "\<forall>m. j \<noteq> Start m" by blast
    then have e: "panelHold (panel_exec i ?p) = hold_exec j (panelHold ?p)" by (cases j) auto
    have inv: "hold_inv (panelHold ?p)" using ok by (simp add: panel_ok_def)
    from exec_sent [OF inv, of j] obtain new where new: "sent (hold_exec j (panelHold ?p)) = sent (panelHold ?p) @ new"
      and m: "\<forall>g t c m. Moved g t c m \<in> set new \<longrightarrow> activeRef (panelHold ?p) \<and> c = holdStream (panelHold ?p)" by blast
    have "Moved g t c m \<in> set new" using assms e new by simp
    with m have "activeRef (panelHold ?p) \<and> c = holdStream (panelHold ?p)" by blast
    with ok show ?thesis by (simp add: panel_ok_def)
  next
    case False
    then have "sent (panelHold (panel_exec i ?p)) = sent (panelHold ?p)"
    proof (cases i)
      case (Elsewhere j)
      with False show ?thesis by (cases j) auto
    qed (simp_all add: button_sent)
    with assms show ?thesis by simp
  qed
qed

lemmas ptz_simps = panel_run_def new_panel_def new_hold_def new_button_def on_button_def set_source_def updatePtzPressSources_def
  begin_hold_def holdStop_def hold_start_def hold_stop_def stopCurrent_def abort_move_def clearTimer_def push_task_def proceed_def
  dispatch_def pressed_def stop_now_def stop_returns_def settled_def Let_def

theorem moves_need_a_held_button_witness:
  "let p = panel_run [OnButton PanUp (PointerDown 0)] (new_panel (js ''a''))
   in sent (panelHold (panel_exec (Elsewhere (Resume 5 0 True)) p)) = [Moved 1 5 (js ''a'') (move_of (6 / 10) PanUp)]
      \<and> (\<exists>d. pressed (buttons p d))"
  using moves_need_a_held_button [of 1 5 "js ''a''" "move_of (6 / 10) PanUp" "[OnButton PanUp (PointerDown 0)]" "js ''a''"
      "Elsewhere (Resume 5 0 True)"]
  by (simp add: ptz_simps js_def)

text \<open>C16: releasing the button stops the camera. When no button is pressed, a camera that was last asked to
  move has a stop waiting that only the move in flight delays: its answer settles that, and then the stop
  is sent.\<close>

theorem released_camera_stops:
  assumes "\<forall>d. \<not> pressed (buttons (panel_run ins (new_panel name)) d)"
    and "moving c (panelHold (panel_run ins (new_panel name)))"
  shows "\<exists>k r x. (k, AwaitMove r c x) \<in> set (tasks (panelHold (panel_run ins (new_panel name))))
     \<and> (settled r (panelHold (panel_run ins (new_panel name))) \<longrightarrow>
          sent (hold_exec (Resume now k ok) (panelHold (panel_run ins (new_panel name))))
            = sent (panelHold (panel_run ins (new_panel name))) @ [Stopped c])
     \<and> (\<forall>j b. r = Some j \<longrightarrow> settled r (hold_exec (MoveSettled now j b) (panelHold (panel_run ins (new_panel name)))))"
proof -
  let ?s = "panelHold (panel_run ins (new_panel name))"
  have ok: "panel_ok (panel_run ins (new_panel name))" by (rule panel_run_ok)
  then have inv: "hold_inv ?s" by (simp add: panel_ok_def)
  note I = hold_invD [OF inv]
  have "\<not> activeRef ?s" using ok assms(1) by (auto simp: panel_ok_def)
  with I(4) assms(2) obtain k r x where t: "(k, AwaitMove r c x) \<in> set (tasks ?s)"
    by (auto simp: held_or_stopping_def waiting_stop_def)
  have c: "c \<noteq> []" using I(5) assms(2) by (auto simp: named_def)
  have "map_of (tasks ?s) k = Some (AwaitMove r c x)" using I(1) t by (simp add: numbers_ok_def)
  then have "settled r ?s \<longrightarrow> sent (hold_exec (Resume now k ok) ?s) = sent ?s @ [Stopped c]"
    using c by (simp add: stop_now_def Let_def)
  moreover have gone: "map_of (filter (\<lambda>(i, _). i \<noteq> j) xs) j = None" for j and xs :: "(nat \<times> rat \<times> loop) list"
    by (induction xs) auto
  have "settled (Some j) (hold_exec (MoveSettled now j b) ?s)" for j b
    using gone by (cases "map_of (moves ?s) j") (auto simp: settled_def move_done_def Let_def)
  ultimately show ?thesis using t by blast
qed

theorem released_camera_stops_witness:
  "let p = panel_run [OnButton PanUp (PointerDown 0), Elsewhere (Resume 5 0 True), OnButton PanUp PointerEnd] (new_panel (js ''a''))
   in moving (js ''a'') (panelHold p) \<and> (\<exists>k r x. (k, AwaitMove r (js ''a'') x) \<in> set (tasks (panelHold p)))"
  using released_camera_stops [of "[OnButton PanUp (PointerDown 0), Elsewhere (Resume 5 0 True), OnButton PanUp PointerEnd]" "js ''a''" "js ''a''"]
  by (simp add: ptz_simps moving_def js_def) blast?

text \<open>The moves of one press are at least a second apart, whatever the answers take.\<close>

theorem moves_are_paced:
  assumes "x < y" and "y < length (sent (hold_run ins (new_hold name)))"
    and "sent (hold_run ins (new_hold name)) ! x = Moved g t c m" and "sent (hold_run ins (new_hold name)) ! y = Moved g t' c' m'"
  shows "t + 1000 \<le> t'"
proof -
  have "sorted_wrt apart (sent (hold_run ins (new_hold name)))" using pace_run by (rule pace_invD)
  then have "apart (sent (hold_run ins (new_hold name)) ! x) (sent (hold_run ins (new_hold name)) ! y)"
    using assms(1,2) by (rule sorted_wrt_nth_less)
  with assms(3,4) show ?thesis by (simp add: apart_def)
qed

theorem moves_are_paced_witness:
  "let s = hold_run [Start (move_of 1 PanUp), Resume 5 0 True, MoveSettled 105 1 True, Timer 1005 2] (new_hold (js ''a''))
   in length (sent s) = 2 \<and> 5 + 1000 \<le> (1005 :: rat)"
  using moves_are_paced [of 0 1 "[Start (move_of 1 PanUp), Resume 5 0 True, MoveSettled 105 1 True, Timer 1005 2]" "js ''a''"
      1 5 "js ''a''" "move_of 1 PanUp" 1005 "js ''a''" "move_of 1 PanUp"]
  by (simp add: ptz_simps hold_run_def move_done_def js_def)

end
