(* ===== verification/LiveLayout.thy ===== *)
theory LiveLayout
  imports Names
begin

text \<open>
  \<open>web/src/components/live/liveLayoutState.ts\<close>, \<open>streamSelection.ts\<close>, \<open>playbackPresentation.ts\<close>
  and the zoom of a tile (\<open>LiveWorkspace.tsx\<close>, \<open>RecordedVideoViewport.tsx\<close>): where the tiles of the
  live page lie on its grid, which stream a tile plays and how far it is zoomed. Numbers are rationals.
\<close>

section \<open>The grid\<close>

definition GRID_COLS :: rat where "GRID_COLS = 48"
definition GRID_ROWS :: rat where "GRID_ROWS = 48"

record video_viewport =
  scale :: rat
  tx :: rat
  ty :: rat

record layout_item =
  itemStream :: jsstring
  xPos :: rat
  yPos :: rat
  itemW :: rat
  itemH :: rat
  minW :: "rat option"
  minH :: "rat option"
  videoZoom :: "video_viewport option"

record saved_layout =
  layoutId :: jsstring
  layoutData :: "layout_item list"
  timelineCollapsed :: bool

record resolved_layout =
  currentId :: jsstring
  tiles :: "layout_item list"
  collapsed :: "bool option"

text \<open>A camera is its stream name here. \<open>defaultLayout\<close> places the \<open>n\<close>th camera.\<close>

definition default_item :: "nat \<Rightarrow> jsstring \<Rightarrow> layout_item" where
  "default_item n name =
     \<lparr>itemStream = name,
      xPos = (if n = 0 then 0 else 24 + of_nat ((n - 1) mod 2) * 12),
      yPos = (if n = 0 then 0 else of_nat ((n - 1) div 2) * 12),
      itemW = (if n = 0 then 24 else 12), itemH = (if n = 0 then 24 else 12),
      minW = Some 8, minH = Some 8, videoZoom = None\<rparr>"

definition defaultLayout :: "jsstring list \<Rightarrow> layout_item list" where
  "defaultLayout cameras = map (\<lambda>(n, name). default_item n name) (enumerate 0 cameras)"

text \<open>\<open>new Map\<close> of a list keeps the last item of a stream.\<close>

definition saved_item :: "layout_item list \<Rightarrow> jsstring \<Rightarrow> layout_item option" where
  "saved_item saved name = find (\<lambda>item. itemStream item = name) (rev saved)"

definition mergeWithCameras :: "layout_item list \<Rightarrow> jsstring list \<Rightarrow> layout_item list" where
  "mergeWithCameras saved cameras =
     map (\<lambda>(n, name). case saved_item saved name of
            Some item \<Rightarrow> item
          | None \<Rightarrow> (default_item 0 name)\<lparr>xPos := 24 + of_nat (n mod 2) * 12, yPos := of_nat (n div 2) * 12\<rparr>)
       (enumerate 0 cameras)"

definition resolveInitialLayout :: "jsstring list \<Rightarrow> saved_layout list \<Rightarrow> jsstring option \<Rightarrow> bool \<Rightarrow> resolved_layout option" where
  "resolveInitialLayout cameras layouts savedId layoutsReady =
     (if \<not> layoutsReady \<or> cameras = [] then None
      else case (case find (\<lambda>l. Some (layoutId l) = savedId) layouts of
                   Some l \<Rightarrow> Some l
                 | None \<Rightarrow> (case layouts of [] \<Rightarrow> None | l # _ \<Rightarrow> Some l)) of
             Some saved \<Rightarrow> Some \<lparr>currentId = layoutId saved, tiles = mergeWithCameras (layoutData saved) cameras,
                                collapsed = Some (timelineCollapsed saved)\<rparr>
           | None \<Rightarrow> Some \<lparr>currentId = [], tiles = defaultLayout cameras, collapsed = None\<rparr>)"

definition resolveLayoutAfterDelete :: "jsstring \<Rightarrow> jsstring \<Rightarrow> saved_layout list \<Rightarrow> jsstring list \<Rightarrow> resolved_layout option" where
  "resolveLayoutAfterDelete deletedId current layouts cameras =
     (if deletedId \<noteq> current then None
      else let remaining = filter (\<lambda>l. layoutId l \<noteq> deletedId) layouts
           in resolveInitialLayout cameras remaining (case remaining of [] \<Rightarrow> None | l # _ \<Rightarrow> Some (layoutId l)) True)"

definition or_one :: "rat option \<Rightarrow> rat" where
  "or_one x = (case x of None \<Rightarrow> 1 | Some v \<Rightarrow> v)"

definition clamp_item :: "layout_item \<Rightarrow> layout_item" where
  "clamp_item item =
     (let w = min (max (itemW item) (or_one (minW item))) GRID_COLS;
          h = min (max (itemH item) (or_one (minH item))) GRID_ROWS
      in item\<lparr>itemW := w, itemH := h, xPos := min (max (xPos item) 0) (GRID_COLS - w),
              yPos := min (max (yPos item) 0) (GRID_ROWS - h)\<rparr>)"

definition clampLayout :: "layout_item list \<Rightarrow> layout_item list" where
  "clampLayout = map clamp_item"

section \<open>The streams of a tile\<close>

record playback_streams =
  streamName :: jsstring
  liveStreamName :: "jsstring option"
  focusStreamName :: "jsstring option"

definition playbackStreamCandidates :: "playback_streams \<Rightarrow> bool \<Rightarrow> jsstring list" where
  "playbackStreamCandidates c focused =
     (let roles = (if focused then [focusStreamName c, liveStreamName c] else [liveStreamName c, focusStreamName c]);
          names = List.map_filter id roles;
          distinct_names = remdups (rev (filter (\<lambda>n. n \<noteq> []) names))
      in if distinct_names \<noteq> [] then rev distinct_names else [streamName c])"

definition playbackStreamName :: "playback_streams \<Rightarrow> bool \<Rightarrow> jsstring" where
  "playbackStreamName c focused = hd (playbackStreamCandidates c focused)"

datatype tile_focus = Grid | Focused | Background

definition tileFocusPresentation :: "jsstring \<Rightarrow> jsstring option \<Rightarrow> tile_focus" where
  "tileFocusPresentation key focusedKey =
     (case focusedKey of
        None \<Rightarrow> Grid
      | Some f \<Rightarrow> if f = [] then Grid else if key = f then Focused else Background)"

text \<open>What a tile says while it has no picture.\<close>

datatype presentation_phase = PConnecting | PRetrying | PFallback | PRecovering | PPlaying | PStalled | PCooldown | PUnsupported

datatype status_copy = CopyFallback | CopySwitching | CopyReconnecting | CopyResubscribing | CopyStalled | CopyCooldown
  | CopyUnsupported | CopyConnecting

fun playbackStatusCopy :: "presentation_phase \<Rightarrow> bool \<Rightarrow> status_copy" where
  "playbackStatusCopy PFallback mse = CopyFallback"
| "playbackStatusCopy PRetrying mse = (if mse then CopySwitching else CopyReconnecting)"
| "playbackStatusCopy PRecovering mse = CopyResubscribing"
| "playbackStatusCopy PStalled mse = CopyStalled"
| "playbackStatusCopy PCooldown mse = CopyCooldown"
| "playbackStatusCopy PUnsupported mse = CopyUnsupported"
| "playbackStatusCopy PPlaying mse = CopyConnecting"
| "playbackStatusCopy PConnecting mse = CopyConnecting"

section \<open>The zoom of a tile\<close>

definition DEFAULT_VIDEO_VIEWPORT :: video_viewport where
  "DEFAULT_VIDEO_VIEWPORT = \<lparr>scale = 1, tx = 0, ty = 0\<rparr>"

definition clampNumber :: "rat \<Rightarrow> rat \<Rightarrow> rat \<Rightarrow> rat" where
  "clampNumber v lo hi = min hi (max lo v)"

definition clampVideoViewport :: "video_viewport \<Rightarrow> rat \<Rightarrow> rat \<Rightarrow> video_viewport" where
  "clampVideoViewport v width height =
     (let s = clampNumber (scale v) 1 4
      in if s \<le> 1 then DEFAULT_VIDEO_VIEWPORT
         else \<lparr>scale = s, tx = clampNumber (tx v) (- ((s - 1) * width) / 2) (((s - 1) * width) / 2),
               ty = clampNumber (ty v) (- ((s - 1) * height) / 2) (((s - 1) * height) / 2)\<rparr>)"

text \<open>The rectangle of the frame, if it is mounted.\<close>

record frame_rect =
  rectLeft :: rat
  rectTop :: rat
  rectWidth :: rat
  rectHeight :: rat

definition applyViewport :: "frame_rect option \<Rightarrow> video_viewport \<Rightarrow> video_viewport" where
  "applyViewport frame next =
     (case frame of
        None \<Rightarrow> DEFAULT_VIDEO_VIEWPORT
      | Some r \<Rightarrow> if scale next \<le> 1 then DEFAULT_VIDEO_VIEWPORT else clampVideoViewport next (rectWidth r) (rectHeight r))"

text \<open>The new viewport after a turn of the wheel, \<open>None\<close> when the frame is not mounted.\<close>

definition wheel_zoom :: "frame_rect option \<Rightarrow> video_viewport \<Rightarrow> rat \<Rightarrow> rat \<Rightarrow> rat \<Rightarrow> video_viewport option" where
  "wheel_zoom frame v deltaY clientX clientY =
     (case frame of
        None \<Rightarrow> None
      | Some r \<Rightarrow>
          (let nextScale = clampNumber (scale v * (if deltaY < 0 then 115 / 100 else 1 / (115 / 100))) 1 4
           in if nextScale = 1 then Some (applyViewport frame DEFAULT_VIDEO_VIEWPORT)
              else let offsetX = clientX - rectLeft r - rectWidth r / 2;
                       offsetY = clientY - rectTop r - rectHeight r / 2;
                       ratio = nextScale / scale v
                   in Some (applyViewport frame \<lparr>scale = nextScale, tx = tx v * ratio - offsetX * (ratio - 1),
                                                 ty = ty v * ratio - offsetY * (ratio - 1)\<rparr>)))"

record drag_start =
  dragX :: rat
  dragY :: rat
  dragTx :: rat
  dragTy :: rat

definition drag_begin :: "video_viewport \<Rightarrow> nat \<Rightarrow> rat \<Rightarrow> rat \<Rightarrow> drag_start option" where
  "drag_begin v button x y =
     (if \<not> scale v > 1001 / 1000 \<or> button \<noteq> 0 then None else Some \<lparr>dragX = x, dragY = y, dragTx = tx v, dragTy = ty v\<rparr>)"

definition drag_move :: "frame_rect option \<Rightarrow> drag_start option \<Rightarrow> video_viewport \<Rightarrow> rat \<Rightarrow> rat \<Rightarrow> video_viewport option" where
  "drag_move frame drag v x y =
     (case (drag, frame) of
        (Some d, Some r) \<Rightarrow> Some (clampVideoViewport \<lparr>scale = scale v, tx = dragTx d + x - dragX d, ty = dragTy d + y - dragY d\<rparr>
                                   (rectWidth r) (rectHeight r))
      | _ \<Rightarrow> None)"

section \<open>Lemmas\<close>

definition in_grid :: "layout_item \<Rightarrow> bool" where
  "in_grid i \<longleftrightarrow> 0 \<le> xPos i \<and> 0 \<le> yPos i \<and> xPos i + itemW i \<le> GRID_COLS \<and> yPos i + itemH i \<le> GRID_ROWS"

lemma clamp_in_grid: "in_grid (clamp_item i)"
  by (auto simp: in_grid_def clamp_item_def Let_def GRID_COLS_def GRID_ROWS_def min_def max_def)

lemma clamp_id:
  assumes "in_grid i" "or_one (minW i) \<le> itemW i" "or_one (minH i) \<le> itemH i"
  shows "clamp_item i = i"
  using assms by (cases i) (auto simp: in_grid_def clamp_item_def Let_def GRID_COLS_def GRID_ROWS_def min_def max_def)

lemma map_index_stream: "map itemStream (map (\<lambda>(n, name). f n name) (enumerate k cameras)) = cameras"
  if "\<And>n name. itemStream (f n name) = name"
  using that by (induction cameras arbitrary: k) simp_all

lemma saved_item_stream: "saved_item saved name = Some i \<Longrightarrow> itemStream i = name \<and> i \<in> set saved"
  by (induction saved rule: rev_induct) (auto simp: saved_item_def split: if_splits)

lemma merge_streams: "map itemStream (mergeWithCameras saved cameras) = cameras"
proof -
  have "itemStream (case saved_item saved name of Some i \<Rightarrow> i | None \<Rightarrow> (default_item 0 name)\<lparr>xPos := a, yPos := b\<rparr>) = name" for name a b
    using saved_item_stream [of saved name] by (simp add: default_item_def split: option.split)
  then show ?thesis unfolding mergeWithCameras_def by (intro map_index_stream)
qed

lemma default_streams: "map itemStream (defaultLayout cameras) = cameras"
  unfolding defaultLayout_def by (rule map_index_stream) (simp add: default_item_def)

definition within_frame :: "frame_rect \<Rightarrow> video_viewport \<Rightarrow> bool" where
  "within_frame r v \<longleftrightarrow> 1 \<le> scale v \<and> scale v \<le> 4 \<and> \<bar>tx v\<bar> \<le> (scale v - 1) * rectWidth r / 2 \<and> \<bar>ty v\<bar> \<le> (scale v - 1) * rectHeight r / 2"

lemma clampNumber_bounds: "lo \<le> hi \<Longrightarrow> lo \<le> clampNumber v lo hi \<and> clampNumber v lo hi \<le> hi"
  by (auto simp: clampNumber_def)

lemma clampVideo_within:
  assumes "0 \<le> rectWidth r" "0 \<le> rectHeight r"
  shows "within_frame r (clampVideoViewport v (rectWidth r) (rectHeight r))"
proof (cases "clampNumber (scale v) 1 4 \<le> 1")
  case True
  then show ?thesis by (simp add: clampVideoViewport_def within_frame_def DEFAULT_VIDEO_VIEWPORT_def)
next
  case False
  define s where "s = clampNumber (scale v) 1 4"
  have s: "1 < s" "s \<le> 4" using False by (simp_all add: s_def clampNumber_def)
  have b: "\<bar>clampNumber x (- ((s - 1) * a) / 2) ((s - 1) * a / 2)\<bar> \<le> (s - 1) * a / 2" if "0 \<le> a" for x a
  proof -
    define k where "k = (s - 1) * a / 2"
    have "- k \<le> k" using s that by (simp add: k_def)
    from clampNumber_bounds [OF this, of x] have "\<bar>clampNumber x (- k) k\<bar> \<le> k" unfolding abs_le_iff by linarith
    then show ?thesis by (simp add: k_def)
  qed
  show ?thesis using s b assms by (simp add: clampVideoViewport_def within_frame_def s_def [symmetric] Let_def)
qed

end
