(* ===== verification/Timeline.thy ===== *)
theory Timeline
  imports LiveLayout
begin

text \<open>
  \<open>web/src/components/playback/PlaybackTimeline.tsx\<close>: the gestures on the time axis of the recordings,
  with the merging of the recorded ranges of several cameras (\<open>mergeTimelineRanges\<close> in
  \<open>LiveWorkspace.tsx\<close>). A handler gives the next state and what it asks its parent to do. Times and
  lengths are rationals; the exponential of the wheel is a parameter.
\<close>

section \<open>Merging ranges\<close>

type_synonym range = "rat \<times> rat"

fun finite_range :: "jsnum \<times> jsnum \<Rightarrow> range option" where
  "finite_range (Num a, Num b) = (if b > a then Some (a, b) else None)"
| "finite_range _ = None"

definition range_before :: "range \<Rightarrow> range \<Rightarrow> bool" where
  "range_before a b \<longleftrightarrow> fst a < fst b \<or> (fst a = fst b \<and> snd a \<le> snd b)"

fun insert_range :: "range \<Rightarrow> range list \<Rightarrow> range list" where
  "insert_range r [] = [r]"
| "insert_range r (x # xs) = (if range_before r x then r # x # xs else x # insert_range r xs)"

definition sort_ranges :: "range list \<Rightarrow> range list" where
  "sort_ranges rs = foldr insert_range rs []"

text \<open>The loop over the sorted ranges; \<open>previous\<close> is the last merged one.\<close>

fun merge_onto :: "range option \<Rightarrow> range list \<Rightarrow> range list" where
  "merge_onto None [] = []"
| "merge_onto (Some p) [] = [p]"
| "merge_onto None (r # rs) = merge_onto (Some r) rs"
| "merge_onto (Some p) (r # rs) =
     (if fst r > snd p then p # merge_onto (Some r) rs
      else if snd r > snd p then merge_onto (Some (fst p, snd r)) rs
      else merge_onto (Some p) rs)"

definition mergeTimelineRanges :: "(jsnum \<times> jsnum) list \<Rightarrow> range list" where
  "mergeTimelineRanges ranges = merge_onto None (sort_ranges (List.map_filter finite_range ranges))"

section \<open>The time axis\<close>

record timeline_viewport =
  fromMs :: rat
  toMs :: rat

definition MIN_VIEWPORT_MS :: rat where "MIN_VIEWPORT_MS = 10000"
definition MAX_VIEWPORT_MS :: rat where "MAX_VIEWPORT_MS = 31 * 24 * 60 * 60 * 1000"

definition clamp :: "rat \<Rightarrow> rat \<Rightarrow> rat \<Rightarrow> rat" where
  "clamp v lo hi = min (max v lo) hi"

definition validDuration :: "timeline_viewport \<Rightarrow> rat" where
  "validDuration v = (if toMs v - fromMs v > 0 then toMs v - fromMs v else 0)"

definition midpoint :: "timeline_viewport \<Rightarrow> rat" where
  "midpoint v = fromMs v + validDuration v / 2"

text \<open>The track on the screen: its left edge and its width.\<close>

record track =
  trackLeft :: rat
  trackWidth :: rat

definition timeAtClientX :: "rat \<Rightarrow> track \<Rightarrow> timeline_viewport \<Rightarrow> rat" where
  "timeAtClientX clientX t v =
     (let ratio = (if trackWidth t > 0 then clamp ((clientX - trackLeft t) / trackWidth t) 0 1 else 0)
      in fromMs v + validDuration v * ratio)"

definition percentAt :: "rat \<Rightarrow> timeline_viewport \<Rightarrow> rat" where
  "percentAt atMs v = (let d = validDuration v in if d > 0 then ((atMs - fromMs v) / d) * 100 else - 1)"

definition clipRange :: "jsnum \<times> jsnum \<Rightarrow> timeline_viewport \<Rightarrow> (rat \<times> rat) option" where
  "clipRange r v =
     (case finite_range r of
        None \<Rightarrow> None
      | Some (a, b) \<Rightarrow>
          (let startMs = max a (fromMs v); endMs = min b (toMs v)
           in if endMs \<le> startMs then None
              else Some (percentAt startMs v, max (percentAt endMs v - percentAt startMs v) (14 / 100))))"

definition makeTicks :: "timeline_viewport \<Rightarrow> nat \<Rightarrow> (rat \<times> rat) list" where
  "makeTicks v count =
     (if validDuration v \<le> 0 then []
      else map (\<lambda>i. let ratio = of_nat i / (of_nat count - 1) in (fromMs v + validDuration v * ratio, ratio * 100)) [0..<count])"

section \<open>Gestures\<close>

datatype gesture =
  Cursor nat rat                                   \<comment> \<open>pointer, candidate\<close>
| Pan nat rat timeline_viewport bool               \<comment> \<open>pointer, start, viewport at the start, moved\<close>

record timeline =
  gestureRef :: "gesture option"
  candidateMs :: "rat option"

definition new_timeline :: timeline where
  "new_timeline = \<lparr>gestureRef = None, candidateMs = None\<rparr>"

datatype timeline_effect = OnSeek rat | OnViewportChange timeline_viewport

text \<open>The properties of the component at the time of an event.\<close>

record timeline_props =
  viewport :: timeline_viewport
  playhead :: "rat option"
  disabled :: bool
  trackRect :: track

fun gesture_pointer :: "gesture \<Rightarrow> nat" where
  "gesture_pointer (Cursor p c) = p"
| "gesture_pointer (Pan p x v m) = p"

definition inactive_axis :: "timeline_props \<Rightarrow> bool" where
  "inactive_axis p \<longleftrightarrow> disabled p \<or> validDuration (viewport p) \<le> 0"

definition beginPan :: "timeline_props \<Rightarrow> nat \<Rightarrow> nat \<Rightarrow> rat \<Rightarrow> timeline \<Rightarrow> timeline" where
  "beginPan p button pointer x s =
     (if inactive_axis p \<or> button \<noteq> 0 then s else s\<lparr>gestureRef := Some (Pan pointer x (viewport p) False)\<rparr>)"

definition beginCursorDrag :: "timeline_props \<Rightarrow> nat \<Rightarrow> nat \<Rightarrow> rat \<Rightarrow> timeline \<Rightarrow> timeline" where
  "beginCursorDrag p button pointer x s =
     (if inactive_axis p \<or> button \<noteq> 0 then s
      else let atMs = timeAtClientX x (trackRect p) (viewport p)
           in s\<lparr>gestureRef := Some (Cursor pointer atMs), candidateMs := Some atMs\<rparr>)"

definition updatePointer :: "timeline_props \<Rightarrow> nat \<Rightarrow> rat \<Rightarrow> timeline \<Rightarrow> timeline \<times> timeline_effect list" where
  "updatePointer p pointer x s =
     (case gestureRef s of
        None \<Rightarrow> (s, [])
      | Some (Cursor q c) \<Rightarrow>
          if q \<noteq> pointer then (s, [])
          else let t = timeAtClientX x (trackRect p) (viewport p)
               in (s\<lparr>gestureRef := Some (Cursor q t), candidateMs := Some t\<rparr>, [])
      | Some (Pan q x0 v0 moved) \<Rightarrow>
          if q \<noteq> pointer \<or> trackWidth (trackRect p) \<le> 0 then (s, [])
          else let deltaX = x - x0;
                   m = (moved \<or> \<bar>deltaX\<bar> \<ge> 3);
                   shiftMs = - (deltaX / trackWidth (trackRect p)) * validDuration v0
               in (s\<lparr>gestureRef := Some (Pan q x0 v0 m)\<rparr>,
                   if m then [OnViewportChange \<lparr>fromMs = fromMs v0 + shiftMs, toMs = toMs v0 + shiftMs\<rparr>] else []))"

definition finishPointer :: "timeline_props \<Rightarrow> nat \<Rightarrow> rat \<Rightarrow> timeline \<Rightarrow> timeline \<times> timeline_effect list" where
  "finishPointer p pointer x s =
     (case gestureRef s of
        None \<Rightarrow> (s, [])
      | Some g \<Rightarrow>
          if gesture_pointer g \<noteq> pointer then (s, [])
          else (case g of
                  Cursor q c \<Rightarrow> (s\<lparr>gestureRef := None, candidateMs := None\<rparr>, [OnSeek c])
                | Pan q x0 v0 moved \<Rightarrow>
                    (s\<lparr>gestureRef := None\<rparr>, if moved then [] else [OnSeek (timeAtClientX x (trackRect p) v0)])))"

definition cancelPointer :: "nat \<Rightarrow> timeline \<Rightarrow> timeline" where
  "cancelPointer pointer s =
     (case gestureRef s of
        None \<Rightarrow> s
      | Some g \<Rightarrow> if gesture_pointer g \<noteq> pointer then s else s\<lparr>gestureRef := None, candidateMs := None\<rparr>)"

definition zoomViewport :: "(rat \<Rightarrow> rat) \<Rightarrow> timeline_props \<Rightarrow> rat \<Rightarrow> rat \<Rightarrow> timeline_effect list" where
  "zoomViewport js_exp p x deltaY =
     (if inactive_axis p \<or> trackWidth (trackRect p) \<le> 0 then []
      else let v = viewport p;
               anchorRatio = clamp ((x - trackLeft (trackRect p)) / trackWidth (trackRect p)) 0 1;
               nextDuration = clamp (validDuration v * js_exp (deltaY * (15 / 10000))) MIN_VIEWPORT_MS MAX_VIEWPORT_MS;
               anchorMs = fromMs v + validDuration v * anchorRatio
           in [OnViewportChange \<lparr>fromMs = anchorMs - nextDuration * anchorRatio,
                                 toMs = anchorMs + nextDuration * (1 - anchorRatio)\<rparr>])"

text \<open>The keys of the axis; another key is \<open>OtherKey\<close>.\<close>

datatype axis_key = EscapeKey | ArrowLeft | ArrowRight | PageUp | PageDown | HomeKey | EndKey | OtherKey

definition key_target :: "axis_key \<Rightarrow> rat \<Rightarrow> timeline_viewport \<Rightarrow> rat option" where
  "key_target k current v =
     (case k of
        ArrowLeft \<Rightarrow> Some (current - 10000)
      | ArrowRight \<Rightarrow> Some (current + 10000)
      | PageUp \<Rightarrow> Some (current - validDuration v / 10)
      | PageDown \<Rightarrow> Some (current + validDuration v / 10)
      | HomeKey \<Rightarrow> Some (fromMs v)
      | EndKey \<Rightarrow> Some (toMs v)
      | _ \<Rightarrow> None)"

definition handleKeyboard :: "timeline_props \<Rightarrow> axis_key \<Rightarrow> timeline \<Rightarrow> timeline \<times> timeline_effect list" where
  "handleKeyboard p k s =
     (if inactive_axis p then (s, [])
      else if k = EscapeKey \<and> candidateMs s \<noteq> None then (s\<lparr>gestureRef := None, candidateMs := None\<rparr>, [])
      else let v = viewport p;
               current = clamp (case playhead p of Some t \<Rightarrow> t | None \<Rightarrow> midpoint v) (fromMs v) (toMs v)
           in case key_target k current v of
                None \<Rightarrow> (s, [])
              | Some next \<Rightarrow> (s, [OnSeek (clamp next (fromMs v) (toMs v))]))"

datatype timeline_input =
  PanDown nat nat rat
| CursorDown nat nat rat
| PointerMove nat rat
| PointerUp nat rat
| PointerCancel nat
| Wheel rat rat
| AxisKey axis_key

fun timeline_exec :: "(rat \<Rightarrow> rat) \<Rightarrow> timeline_props \<Rightarrow> timeline_input \<Rightarrow> timeline \<Rightarrow> timeline \<times> timeline_effect list" where
  "timeline_exec ex p (PanDown b q x) s = (beginPan p b q x s, [])"
| "timeline_exec ex p (CursorDown b q x) s = (beginCursorDrag p b q x s, [])"
| "timeline_exec ex p (PointerMove q x) s = updatePointer p q x s"
| "timeline_exec ex p (PointerUp q x) s = finishPointer p q x s"
| "timeline_exec ex p (PointerCancel q) s = (cancelPointer q s, [])"
| "timeline_exec ex p (Wheel x d) s = (s, zoomViewport ex p x d)"
| "timeline_exec ex p (AxisKey k) s = handleKeyboard p k s"

text \<open>A gesture: the parent follows the changes of the viewport that it is asked for.\<close>

fun follow :: "timeline_effect list \<Rightarrow> timeline_props \<Rightarrow> timeline_props" where
  "follow [] p = p"
| "follow (OnViewportChange v # es) p = follow es (p\<lparr>viewport := v\<rparr>)"
| "follow (OnSeek t # es) p = follow es (p\<lparr>playhead := Some t\<rparr>)"

fun timeline_run :: "(rat \<Rightarrow> rat) \<Rightarrow> timeline_input list \<Rightarrow> timeline_props \<Rightarrow> timeline \<Rightarrow> timeline_props \<times> timeline \<times> timeline_effect list" where
  "timeline_run ex [] p s = (p, s, [])"
| "timeline_run ex (i # ins) p s =
     (let (s1, es) = timeline_exec ex p i s;
          (p2, s2, es2) = timeline_run ex ins (follow es p) s1
      in (p2, s2, es @ es2))"

end
