(* ===== verification/TimelineProps.thy ===== *)
theory TimelineProps
  imports Timeline
begin

text \<open>
  What the tiles of the live page and the time axis keep: the tiles stay inside the grid, merging ranges
  changes nothing but their number, and the time under the pointer stays under the pointer.
\<close>

section \<open>The grid\<close>

text \<open>The tiles of the live page. A layout shows every camera exactly once and in the order of the
  cameras, with what was saved for it; what the grid displays lies inside its 48 by 48 cells, and a tile
  that already did, and is not smaller than its minimum, is displayed as it is.\<close>

theorem layout_shows_every_camera:
  "map itemStream (mergeWithCameras saved cameras) = cameras
   \<and> (\<forall>i \<in> set (mergeWithCameras saved cameras). i \<in> set saved \<or> itemStream i \<notin> itemStream ` set saved)
   \<and> list_all in_grid (clampLayout layout)
   \<and> (list_all (\<lambda>i. in_grid i \<and> or_one (minW i) \<le> itemW i \<and> or_one (minH i) \<le> itemH i) layout \<longrightarrow> clampLayout layout = layout)"
proof (intro conjI)
  show "map itemStream (mergeWithCameras saved cameras) = cameras" by (rule merge_streams)
  show "list_all in_grid (clampLayout layout)" by (simp add: clampLayout_def list_all_iff clamp_in_grid)
  show "list_all (\<lambda>i. in_grid i \<and> or_one (minW i) \<le> itemW i \<and> or_one (minH i) \<le> itemH i) layout \<longrightarrow> clampLayout layout = layout"
    by (auto simp: clampLayout_def list_all_iff clamp_id intro: map_idI)
  have none: "name \<notin> itemStream ` set saved" if "saved_item saved name = None" for name
    using that by (auto simp: saved_item_def find_None_iff)
  show "\<forall>i \<in> set (mergeWithCameras saved cameras). i \<in> set saved \<or> itemStream i \<notin> itemStream ` set saved"
  proof
    fix i assume "i \<in> set (mergeWithCameras saved cameras)"
    then obtain n name where "i = (case saved_item saved name of Some item \<Rightarrow> item
          | None \<Rightarrow> (default_item 0 name)\<lparr>xPos := 24 + of_nat (n mod 2) * 12, yPos := of_nat (n div 2) * 12\<rparr>)"
      by (auto simp: mergeWithCameras_def)
    then show "i \<in> set saved \<or> itemStream i \<notin> itemStream ` set saved"
      using none [of name] saved_item_stream [of saved name] by (auto simp: default_item_def split: option.splits)
  qed
qed

theorem layout_shows_every_camera_witness:
  "clampLayout (defaultLayout [js ''a'', js ''b'']) = defaultLayout [js ''a'', js ''b'']"
  using layout_shows_every_camera [of "[]" "[]" "defaultLayout [js ''a'', js ''b'']"]
  by (simp add: defaultLayout_def default_item_def in_grid_def or_one_def GRID_COLS_def GRID_ROWS_def)

section \<open>Merged ranges\<close>

definition covers :: "rat \<Rightarrow> range list \<Rightarrow> bool" where
  "covers t rs \<longleftrightarrow> (\<exists>r \<in> set rs. fst r \<le> t \<and> t < snd r)"

abbreviation by_start :: "range list \<Rightarrow> bool" where
  "by_start \<equiv> sorted_wrt (\<lambda>a b. fst a \<le> fst b)"

lemma insert_set [simp]: "set (insert_range r xs) = insert r (set xs)"
  by (induction xs) auto

lemma insert_sorted: "by_start xs \<Longrightarrow> by_start (insert_range r xs)"
  by (induction xs) (auto simp: range_before_def)

lemma sort_ranges_spec: "set (sort_ranges rs) = set rs \<and> by_start (sort_ranges rs)"
  unfolding sort_ranges_def by (induction rs) (auto simp: insert_sorted)

lemma merge_covers: "by_start (p # rs) \<Longrightarrow> covers t (merge_onto (Some p) rs) \<longleftrightarrow> covers t (p # rs)"
proof (induction rs arbitrary: p)
  case (Cons r rs)
  consider (gap) "fst r > snd p" | (longer) "\<not> fst r > snd p" "snd r > snd p" | (inside) "\<not> fst r > snd p" "\<not> snd r > snd p" by blast
  then show ?case
  proof cases
    case gap
    with Cons.IH [of r] Cons.prems show ?thesis by (auto simp: covers_def)
  next
    case longer
    with Cons.prems have "by_start ((fst p, snd r) # rs)" by auto
    from Cons.IH [OF this] longer Cons.prems show ?thesis by (auto simp: covers_def)
  next
    case inside
    with Cons.prems have "by_start (p # rs)" by auto
    from Cons.IH [OF this] inside Cons.prems show ?thesis by (auto simp: covers_def)
  qed
qed simp

lemma merge_separate:
  "by_start (p # rs) \<Longrightarrow> sorted_wrt (\<lambda>a b. snd a < fst b) (merge_onto (Some p) rs)
     \<and> (\<forall>x \<in> set (merge_onto (Some p) rs). fst p \<le> fst x)"
proof (induction rs arbitrary: p)
  case (Cons r rs)
  consider (gap) "fst r > snd p" | (longer) "\<not> fst r > snd p" "snd r > snd p" | (inside) "\<not> fst r > snd p" "\<not> snd r > snd p" by blast
  then show ?case
  proof cases
    case gap
    with Cons.IH [of r] Cons.prems show ?thesis by fastforce
  next
    case longer
    with Cons.prems have "by_start ((fst p, snd r) # rs)" by auto
    from Cons.IH [OF this] longer show ?thesis by simp
  next
    case inside
    with Cons.prems have "by_start (p # rs)" by auto
    from Cons.IH [OF this] inside show ?thesis by simp
  qed
qed simp

lemma finite_range_Some: "finite_range r = Some x \<longleftrightarrow> r = (Num (fst x), Num (snd x)) \<and> fst x < snd x"
  by (cases r rule: finite_range.cases) auto

text \<open>C20: merging the recorded ranges of several cameras loses and invents nothing: a time is covered by
  the merged ranges exactly when it is covered by one of the well-formed ranges, and the merged ranges are
  in order with a gap between any two of them.\<close>

theorem merged_ranges_cover_the_same:
  "(covers t (mergeTimelineRanges ranges) \<longleftrightarrow> (\<exists>a b. (Num a, Num b) \<in> set ranges \<and> a \<le> t \<and> t < b))
   \<and> sorted_wrt (\<lambda>a b. snd a < fst b) (mergeTimelineRanges ranges)"
proof -
  let ?v = "List.map_filter finite_range ranges"
  have v: "covers t ?v \<longleftrightarrow> (\<exists>a b. (Num a, Num b) \<in> set ranges \<and> a \<le> t \<and> t < b)"
    by (force simp: covers_def List.map_filter_def finite_range_Some)
  have s: "covers t (sort_ranges ?v) = covers t ?v" using sort_ranges_spec [of ?v] by (simp add: covers_def)
  have "covers t (mergeTimelineRanges ranges) = covers t (sort_ranges ?v) \<and> sorted_wrt (\<lambda>a b. snd a < fst b) (mergeTimelineRanges ranges)"
  proof (cases "sort_ranges ?v")
    case Nil
    then show ?thesis by (simp add: mergeTimelineRanges_def covers_def)
  next
    case (Cons p rs)
    with sort_ranges_spec [of ?v] have "by_start (p # rs)" by simp
    from merge_covers [OF this] merge_separate [OF this] Cons show ?thesis by (simp add: mergeTimelineRanges_def)
  qed
  with v s show ?thesis by simp
qed

section \<open>The time axis\<close>

lemma validDuration_pos: "0 < validDuration v \<Longrightarrow> validDuration v = toMs v - fromMs v"
  by (simp add: validDuration_def split: if_splits)

definition on_track :: "track \<Rightarrow> rat \<Rightarrow> bool" where
  "on_track t x \<longleftrightarrow> 0 < trackWidth t \<and> trackLeft t \<le> x \<and> x \<le> trackLeft t + trackWidth t"

lemma time_on_track: "on_track t x \<Longrightarrow> timeAtClientX x t v = fromMs v + validDuration v * ((x - trackLeft t) / trackWidth t)"
  by (auto simp: timeAtClientX_def on_track_def clamp_def min_def max_def divide_le_eq le_divide_eq Let_def)

lemma ratio_on_track: "on_track t x \<Longrightarrow> clamp ((x - trackLeft t) / trackWidth t) 0 1 = (x - trackLeft t) / trackWidth t"
  by (auto simp: on_track_def clamp_def min_def max_def divide_le_eq le_divide_eq)

lemma zoom_anchor:
  assumes "\<not> inactive_axis p" and "on_track (trackRect p) x"
  shows "\<exists>v'. zoomViewport ex p x d = [OnViewportChange v'] \<and> timeAtClientX x (trackRect p) v' = timeAtClientX x (trackRect p) (viewport p)
     \<and> MIN_VIEWPORT_MS \<le> validDuration v' \<and> validDuration v' \<le> MAX_VIEWPORT_MS"
proof -
  let ?v = "viewport p" and ?t = "trackRect p"
  define q where "q = (x - trackLeft ?t) / trackWidth ?t"
  define n where "n = clamp (validDuration ?v * ex (d * (15 / 10000))) MIN_VIEWPORT_MS MAX_VIEWPORT_MS"
  define a where "a = fromMs ?v + validDuration ?v * q"
  define v' where "v' = \<lparr>fromMs = a - n * q, toMs = a + n * (1 - q)\<rparr>"
  have w: "0 < trackWidth ?t" using assms(2) by (simp add: on_track_def)
  have n: "MIN_VIEWPORT_MS \<le> n" "n \<le> MAX_VIEWPORT_MS"
    by (auto simp: n_def clamp_def MIN_VIEWPORT_MS_def MAX_VIEWPORT_MS_def)
  have f: "fromMs v' = a - n * q" by (simp add: v'_def)
  have "toMs v' - fromMs v' = n" by (simp add: v'_def algebra_simps)
  moreover have "0 < n" using n(1) by (simp add: MIN_VIEWPORT_MS_def)
  ultimately have d: "validDuration v' = n" by (simp add: validDuration_def)
  have "zoomViewport ex p x d = [OnViewportChange v']"
    using assms w ratio_on_track [OF assms(2)] by (simp add: zoomViewport_def Let_def q_def n_def a_def v'_def)
  moreover have "timeAtClientX x ?t v' = timeAtClientX x ?t ?v"
    by (simp add: time_on_track [OF assms(2)] d f q_def [symmetric] a_def)
  ultimately show ?thesis using n d by auto
qed

lemma pan_anchor:
  assumes act: "\<not> inactive_axis p" and x: "on_track (trackRect p) x" "on_track (trackRect p) y" "\<bar>y - x\<bar> \<ge> 3"
  shows "\<exists>v'. snd (updatePointer p q y (beginPan p 0 q x s)) = [OnViewportChange v']
     \<and> timeAtClientX y (trackRect p) v' = timeAtClientX x (trackRect p) (viewport p) \<and> validDuration v' = validDuration (viewport p)
     \<and> snd (finishPointer p' q z (fst (updatePointer p q y (beginPan p 0 q x s)))) = []"
proof -
  let ?v = "viewport p" and ?t = "trackRect p"
  define w where "w = trackWidth ?t"
  define sh where "sh = - ((y - x) / w) * validDuration ?v"
  define v' where "v' = \<lparr>fromMs = fromMs ?v + sh, toMs = toMs ?v + sh\<rparr>"
  have w: "0 < w" using x(1) by (simp add: on_track_def w_def)
  have f: "fromMs v' = fromMs ?v + sh" by (simp add: v'_def)
  have d: "validDuration v' = validDuration ?v" by (simp add: validDuration_def v'_def)
  have u: "updatePointer p q y (beginPan p 0 q x s) = (s\<lparr>gestureRef := Some (Pan q x ?v True)\<rparr>, [OnViewportChange v'])"
    using act w x(3) by (simp add: beginPan_def updatePointer_def sh_def w_def [symmetric] v'_def Let_def)
  have "(y - trackLeft ?t) / w = (y - x) / w + (x - trackLeft ?t) / w" by (simp add: add_divide_distrib [symmetric])
  then have "timeAtClientX y ?t v' = timeAtClientX x ?t ?v"
    by (simp add: time_on_track [OF x(1)] time_on_track [OF x(2)] d f w_def [symmetric] sh_def algebra_simps)
  with u d show ?thesis by (auto simp: finishPointer_def)
qed

text \<open>C21: the time axis. Turning the wheel zooms around the time under the pointer, to between 10 seconds
  and 31 days; dragging the axis by three pixels or more keeps the time that was grabbed under the pointer,
  keeps the duration, and does not seek when the pointer is released; a drag of the cursor seeks, on release,
  to the time under the pointer when it last moved.\<close>

theorem axis_keeps_the_time_under_the_pointer:
  assumes "\<not> inactive_axis p" and "on_track (trackRect p) x" "on_track (trackRect p) y"
  shows "(\<exists>v'. zoomViewport ex p x d = [OnViewportChange v'] \<and> timeAtClientX x (trackRect p) v' = timeAtClientX x (trackRect p) (viewport p)
        \<and> MIN_VIEWPORT_MS \<le> validDuration v' \<and> validDuration v' \<le> MAX_VIEWPORT_MS)
   \<and> (\<bar>y - x\<bar> \<ge> 3 \<longrightarrow> (\<exists>v'. snd (updatePointer p q y (beginPan p 0 q x s)) = [OnViewportChange v']
        \<and> timeAtClientX y (trackRect p) v' = timeAtClientX x (trackRect p) (viewport p) \<and> validDuration v' = validDuration (viewport p)
        \<and> snd (finishPointer p' q z (fst (updatePointer p q y (beginPan p 0 q x s)))) = []))
   \<and> snd (finishPointer p' q z (fst (updatePointer p q y (beginCursorDrag p 0 q x s)))) = [OnSeek (timeAtClientX y (trackRect p) (viewport p))]"
  using zoom_anchor [OF assms(1,2)] pan_anchor [OF assms] assms(1)
  by (simp add: beginCursorDrag_def updatePointer_def finishPointer_def Let_def)

theorem axis_keeps_the_time_under_the_pointer_witness:
  "snd (finishPointer \<lparr>viewport = \<lparr>fromMs = 0, toMs = 60000\<rparr>, playhead = None, disabled = False, trackRect = \<lparr>trackLeft = 0, trackWidth = 600\<rparr>\<rparr> 1 300
      (fst (updatePointer \<lparr>viewport = \<lparr>fromMs = 0, toMs = 60000\<rparr>, playhead = None, disabled = False, trackRect = \<lparr>trackLeft = 0, trackWidth = 600\<rparr>\<rparr>
         1 300 (beginCursorDrag \<lparr>viewport = \<lparr>fromMs = 0, toMs = 60000\<rparr>, playhead = None, disabled = False, trackRect = \<lparr>trackLeft = 0, trackWidth = 600\<rparr>\<rparr>
           0 1 100 new_timeline)))) = [OnSeek 30000]"
  using axis_keeps_the_time_under_the_pointer [of "\<lparr>viewport = \<lparr>fromMs = 0, toMs = 60000\<rparr>, playhead = None, disabled = False,
        trackRect = \<lparr>trackLeft = 0, trackWidth = 600\<rparr>\<rparr>" 100 300 "\<lambda>_. 1" 0 1 new_timeline
      "\<lparr>viewport = \<lparr>fromMs = 0, toMs = 60000\<rparr>, playhead = None, disabled = False, trackRect = \<lparr>trackLeft = 0, trackWidth = 600\<rparr>\<rparr>" 300]
  by (simp add: inactive_axis_def validDuration_def on_track_def timeAtClientX_def clamp_def Let_def)

end
