(* ===== verification/PlaybackControls.thy ===== *)
theory PlaybackControls
  imports Playback
begin

text \<open>
  The bar under the videos, \<open>web/src/components/playback/PlaybackControls.tsx\<close>, and the full screen button
  that the live page and the recording browser have in common.
\<close>

datatype playback_control =
  PressToggle | PressStep rat | PressRate jsnum | PressMute | PressVolume jsnum | PressLive rat

definition controls_active :: "workspace \<Rightarrow> bool" where
  "controls_active w \<longleftrightarrow> mode w = PlaybackMode \<and> hasSelection w"

text \<open>A disabled control does nothing; the button of the live mode is only there with \<open>liveEnabled\<close>, where
  \<open>goLive\<close> is what the page has given.\<close>

fun press_control :: "(rat \<Rightarrow> workspace \<Rightarrow> workspace) option \<Rightarrow> playback_control \<Rightarrow> workspace \<Rightarrow> workspace" where
  "press_control onLive PressToggle w = (if controls_active w then togglePlaying w else w)"
| "press_control onLive (PressStep d) w = (if controls_active w \<and> (d = 10 \<or> d = - 10) then step_by d w else w)"
| "press_control onLive (PressRate r) w =
     (if controls_active w \<and> r \<in> {Num (1 / 4), Num (1 / 2), Num 1, Num (3 / 2), Num 2, Num 4} then setRate r w else w)"
| "press_control onLive PressMute w = (if controls_active w then setMuted (\<not> muted w) w else w)"
| "press_control onLive (PressVolume r) w = (if controls_active w then setVolume r w else w)"
| "press_control onLive (PressLive now) w = (case onLive of None \<Rightarrow> w | Some go \<Rightarrow> go now w)"

section \<open>Full screen\<close>

datatype fullscreen_call = NativeFullscreen bool | EnterFullscreen | LeaveFullscreen

text \<open>\<open>native\<close>: the viewer offers its bridge; \<open>shown\<close> is the state of the component, \<open>element\<close> whether the document
  has a full screen element.\<close>

definition toggleFullscreen :: "bool \<Rightarrow> bool \<Rightarrow> bool \<Rightarrow> fullscreen_call" where
  "toggleFullscreen native shown element =
     (if native then NativeFullscreen (\<not> shown) else if element then LeaveFullscreen else EnterFullscreen)"

end
