(* ===== verification/KstTime.thy ===== *)
theory KstTime
  imports Decimal
begin

text \<open>
  Dates and times of day in Korea, as the live page and the recording browser write and read them: the
  functions \<open>formatKstDate\<close>, \<open>formatKstTime\<close>, \<open>kstDayRange\<close>, \<open>kstDayViewport\<close> and \<open>parseKstDateTime\<close> of
  \<open>RecordingBrowserWorkspace.tsx\<close> and \<open>LiveWorkspace.tsx\<close>. Korea has been nine hours ahead of UTC without
  summer time since October 1988; what \<open>Intl.DateTimeFormat\<close> makes of earlier times, which no recording has, is
  outside the model. Times are milliseconds since 1970, days are counted from the first day of the year 0.
\<close>

section \<open>The calendar\<close>

definition leap_year :: "nat \<Rightarrow> bool" where
  "leap_year y \<longleftrightarrow> (4 dvd y \<and> \<not> 100 dvd y) \<or> 400 dvd y"

definition year_length :: "nat \<Rightarrow> nat" where
  "year_length y = (if leap_year y then 366 else 365)"

definition month_length :: "nat \<Rightarrow> nat \<Rightarrow> nat" where
  "month_length y m = (if m = 2 then (if leap_year y then 29 else 28) else if m \<in> {4, 6, 9, 11} then 30 else 31)"

lemma year_length_pos: "0 < year_length y" by (simp add: year_length_def)
lemma month_length_pos: "0 < month_length y m" by (simp add: month_length_def)

text \<open>The year of a day, counted from the first day of the year \<open>y\<close>, and the day in it; likewise the month.\<close>

function year_of :: "nat \<Rightarrow> nat \<Rightarrow> nat \<times> nat" where
  "year_of y d = (if d < year_length y then (y, d) else year_of (Suc y) (d - year_length y))"
  by pat_completeness auto
termination by (relation "measure snd") (auto simp: year_length_def split: if_splits)

function month_of :: "nat \<Rightarrow> nat \<Rightarrow> nat \<Rightarrow> nat \<times> nat" where
  "month_of y m d = (if d < month_length y m \<or> 12 \<le> m then (m, d) else month_of y (Suc m) (d - month_length y m))"
  by pat_completeness auto
termination by (relation "measure (\<lambda>(y, m, d). 12 - m)") auto

declare year_of.simps [simp del] month_of.simps [simp del]

definition civil :: "nat \<Rightarrow> nat \<times> nat \<times> nat" where
  "civil day = (let (y, d) = year_of 0 day; (m, k) = month_of y 1 d in (y, m, Suc k))"

definition day_number :: "nat \<Rightarrow> nat \<Rightarrow> nat \<Rightarrow> nat" where
  "day_number y m d = sum_list (map year_length [0..<y]) + sum_list (map (month_length y) [1..<m]) + (d - 1)"

lemma year_of_ok:
  "year_of y d = (z, e) \<Longrightarrow> y \<le> z \<and> e < year_length z \<and> d = sum_list (map year_length [y..<z]) + e"
proof (induction y d rule: year_of.induct)
  case (1 y d)
  show ?case
  proof (cases "d < year_length y")
    case True
    with 1(2) show ?thesis by (simp add: year_of.simps [of y d])
  next
    case False
    with 1(2) have r: "year_of (Suc y) (d - year_length y) = (z, e)" by (simp add: year_of.simps [of y d])
    note i = 1(1) [OF False r]
    then have u: "[y..<z] = y # [Suc y..<z]" by (simp add: upt_conv_Cons)
    from i False have "d = year_length y + sum_list (map year_length [Suc y..<z]) + e" by linarith
    with i u show ?thesis by simp
  qed
qed

lemma month_of_ok:
  "month_of y m d = (n, e) \<Longrightarrow> m \<le> 12 \<Longrightarrow> m \<le> n \<and> n \<le> 12 \<and> d = sum_list (map (month_length y) [m..<n]) + e
     \<and> (e < month_length y n \<or> n = 12)"
proof (induction y m d rule: month_of.induct)
  case (1 y m d)
  show ?case
  proof (cases "d < month_length y m \<or> 12 \<le> m")
    case True
    with 1(2,3) show ?thesis by (auto simp: month_of.simps [of y m d])
  next
    case False
    with 1(2) have r: "month_of y (Suc m) (d - month_length y m) = (n, e)" by (simp add: month_of.simps [of y m d])
    have "Suc m \<le> 12" using False by simp
    note i = 1(1) [OF False r this]
    then have "[m..<n] = m # [Suc m..<n]" by (simp add: upt_conv_Cons)
    with i False show ?thesis by auto
  qed
qed

lemma months_fill_the_year: "sum_list (map (month_length y) [1..<12]) + 31 = year_length y"
  by (simp add: upt_rec numeral_eq_Suc month_length_def year_length_def)

text \<open>The date of a day is a date of the calendar, and names that day.\<close>

lemma civil_ok:
  assumes "civil day = (y, m, d)"
  shows "1 \<le> m \<and> m \<le> 12 \<and> 1 \<le> d \<and> d \<le> month_length y m \<and> day_number y m d = day"
proof -
  obtain z e where y: "year_of 0 day = (z, e)" by (cases "year_of 0 day")
  obtain n k where m: "month_of z 1 e = (n, k)" by (cases "month_of z 1 e")
  have v: "y = z" "m = n" "d = Suc k" using assms y m by (simp_all add: civil_def)
  note yo = year_of_ok [OF y] and mo = month_of_ok [OF m]
  have "k < month_length z n"
  proof (cases "n = 12")
    case True
    with yo mo have "k < 31" using months_fill_the_year [of z] by simp
    with True show ?thesis by (simp add: month_length_def)
  qed (use mo in simp)
  with yo mo v show ?thesis by (simp add: day_number_def)
qed

lemma year_bound: "y \<le> z \<Longrightarrow> 365 * (z - y) \<le> sum_list (map year_length [y..<z])"
proof (induction z)
  case (Suc z)
  then show ?case by (cases "y = Suc z") (auto simp: year_length_def Suc_diff_le)
qed simp

section \<open>Writing\<close>

definition DAY_MS :: int where "DAY_MS = 24 * 60 * 60 * 1000"
definition KST_OFFSET :: int where "KST_OFFSET = 9 * 60 * 60 * 1000"

fun digits_of :: "nat \<Rightarrow> nat \<Rightarrow> jsstring" where
  "digits_of 0 n = []"
| "digits_of (Suc w) n = digits_of w (n div 10) @ [0x30 + of_nat (n mod 10)]"

text \<open>The days from the year 0 to 1970.\<close>

definition EPOCH_DAY :: nat where "EPOCH_DAY = 719528"

definition kst_day :: "int \<Rightarrow> nat" where "kst_day t = nat ((t + KST_OFFSET) div DAY_MS + int EPOCH_DAY)"
definition kst_second :: "int \<Rightarrow> nat" where "kst_second t = nat ((t + KST_OFFSET) mod DAY_MS div 1000)"

definition dash :: jschar where "dash = 0x2D"
definition colon :: jschar where "colon = 0x3A"

definition formatKstDate :: "int \<Rightarrow> jsstring" where
  "formatKstDate t = (let (y, m, d) = civil (kst_day t) in digits_of 4 y @ dash # digits_of 2 m @ dash # digits_of 2 d)"

definition formatKstTime :: "int \<Rightarrow> jsstring" where
  "formatKstTime t =
     (let s = kst_second t in digits_of 2 (s div 3600) @ colon # digits_of 2 (s div 60 mod 60) @ colon # digits_of 2 (s mod 60))"

section \<open>Reading\<close>

text \<open>\<open>Date.parse\<close> of a date, the letter T, a time and \<open>+09:00\<close>, for the values that the page's date and time fields have: a
  date of the calendar with four digits of the year, hours and minutes, with seconds or without.\<close>

definition number_field :: "nat \<Rightarrow> jsstring \<Rightarrow> (nat \<times> jsstring) option" where
  "number_field w s =
     (if length (take w s) = w \<and> list_all is_digit (take w s) then Some (digits_value (take w s), drop w s) else None)"

definition parse_date :: "jsstring \<Rightarrow> nat option" where
  "parse_date s =
     (case number_field 4 s of
        Some (y, a # s1) \<Rightarrow>
          (case number_field 2 s1 of
             Some (m, b # s2) \<Rightarrow>
               (case number_field 2 s2 of
                  Some (d, []) \<Rightarrow>
                    if a = dash \<and> b = dash \<and> 1 \<le> m \<and> m \<le> 12 \<and> 1 \<le> d \<and> d \<le> month_length y m then Some (day_number y m d) else None
                | _ \<Rightarrow> None)
           | _ \<Rightarrow> None)
      | _ \<Rightarrow> None)"

definition parse_time :: "jsstring \<Rightarrow> nat option" where
  "parse_time s =
     (case number_field 2 s of
        Some (h, a # s1) \<Rightarrow>
          (case number_field 2 s1 of
             Some (m, []) \<Rightarrow> if a = colon \<and> h < 24 \<and> m < 60 then Some (h * 3600 + m * 60) else None
           | Some (m, b # s2) \<Rightarrow>
               (case number_field 2 s2 of
                  Some (q, []) \<Rightarrow> if a = colon \<and> b = colon \<and> h < 24 \<and> m < 60 \<and> q < 60 then Some (h * 3600 + m * 60 + q) else None
                | _ \<Rightarrow> None)
           | _ \<Rightarrow> None)
      | _ \<Rightarrow> None)"

definition parseKstDateTime :: "jsstring \<Rightarrow> jsstring \<Rightarrow> int option" where
  "parseKstDateTime date time =
     (case (parse_date date, parse_time (if time = [] then js ''00:00:00'' else time)) of
        (Some d, Some s) \<Rightarrow> Some ((int d - int EPOCH_DAY) * DAY_MS + int s * 1000 - KST_OFFSET)
      | _ \<Rightarrow> None)"

text \<open>The live page does not take an empty time of day.\<close>

definition live_parseKstDateTime :: "jsstring \<Rightarrow> jsstring \<Rightarrow> int option" where
  "live_parseKstDateTime date time = (if time = [] then None else parseKstDateTime date time)"

text \<open>\<open>kstDayRange\<close>; \<open>now\<close> is \<open>Date.now()\<close>.\<close>

definition kstDayRange :: "int \<Rightarrow> jsstring \<Rightarrow> int \<times> int" where
  "kstDayRange now date =
     (let from = (case parse_date date of Some d \<Rightarrow> (int d - int EPOCH_DAY) * DAY_MS - KST_OFFSET | None \<Rightarrow> now) in (from, from + DAY_MS))"

text \<open>\<open>kstDayViewport\<close> of the live page; \<open>None\<close> is an invalid date, which a date field does not give.\<close>

definition kstDayViewport :: "jsstring \<Rightarrow> (int \<times> int) option" where
  "kstDayViewport date =
     map_option (\<lambda>d. let from = (int d - int EPOCH_DAY) * DAY_MS - KST_OFFSET in (from, from + DAY_MS)) (parse_date date)"

definition date_of_ms :: "rat \<Rightarrow> jsstring" where "date_of_ms t = formatKstDate (trunc_rat t)"
definition time_of_ms :: "rat \<Rightarrow> jsstring" where "time_of_ms t = formatKstTime (trunc_rat t)"

section \<open>Round trip\<close>

lemma digits_of_ok: "length (digits_of w n) = w \<and> list_all is_digit (digits_of w n) \<and> digits_value (digits_of w n) = n mod 10 ^ w"
proof (induction w arbitrary: n)
  case (Suc w)
  have d: "n mod 10 < 10" by simp
  have "n mod 10 ^ Suc w = n div 10 mod 10 ^ w * 10 + n mod 10"
    by (metis add.commute mod_mult2_eq mult.commute power_Suc)
  with Suc [of "n div 10"] digit_ok [OF d] show ?case by (simp add: digits_value_snoc)
qed (simp add: digits_value_def)

lemma number_field_digits: "n < 10 ^ w \<Longrightarrow> number_field w (digits_of w n @ s) = Some (n, s)"
  using digits_of_ok [of w n] by (simp add: number_field_def)

lemma number_field_end: "n < 10 ^ w \<Longrightarrow> number_field w (digits_of w n) = Some (n, [])"
  using number_field_digits [of n w "[]"] by simp

text \<open>The days up to the year 9999.\<close>

definition DAYS :: nat where "DAYS = 365 * 9999"

lemma parse_formatted_date:
  assumes "kst_day t < DAYS"
  shows "parse_date (formatKstDate t) = Some (kst_day t)"
proof -
  obtain y m d where c: "civil (kst_day t) = (y, m, d)" by (cases "civil (kst_day t)") auto
  note ok = civil_ok [OF c]
  have "365 * y \<le> kst_day t" using year_bound [of 0 y] ok by (simp add: day_number_def)
  with assms have "y < 10000" by (simp add: DAYS_def)
  moreover have "d < 100" "m < 100" using ok by (auto simp: month_length_def split: if_splits)
  ultimately show ?thesis
    using ok by (simp add: parse_date_def formatKstDate_def c number_field_digits number_field_end)
qed

lemma parse_formatted_time: "parse_time (formatKstTime t) = Some (kst_second t)"
proof -
  have b: "kst_second t < 86400"
  proof -
    have "(t + KST_OFFSET) mod DAY_MS < DAY_MS" by (simp add: DAY_MS_def)
    then have "(t + KST_OFFSET) mod DAY_MS div 1000 < 86400" by (simp add: DAY_MS_def)
    then show ?thesis by (simp add: kst_second_def)
  qed
  then have h: "kst_second t div 3600 < 24" by (simp add: less_mult_imp_div_less)
  have s: "kst_second t div 3600 * 3600 + kst_second t div 60 mod 60 * 60 + kst_second t mod 60 = kst_second t"
  proof -
    have "kst_second t div 3600 = kst_second t div 60 div 60" by (simp add: div_mult2_eq [symmetric])
    moreover have "kst_second t div 60 div 60 * 60 + kst_second t div 60 mod 60 = kst_second t div 60" by (rule div_mult_mod_eq)
    moreover have "kst_second t div 60 * 60 + kst_second t mod 60 = kst_second t" by (rule div_mult_mod_eq)
    ultimately show ?thesis by linarith
  qed
  have m: "kst_second t div 60 mod 60 < 60" "kst_second t mod 60 < 60" by simp_all
  show ?thesis
    using h s m by (simp add: parse_time_def formatKstTime_def number_field_digits number_field_end Let_def)
qed

lemma kst_parts:
  assumes "0 \<le> t"
  shows "(int (kst_day t) - int EPOCH_DAY) * DAY_MS + int (kst_second t) * 1000 - KST_OFFSET = t - t mod 1000"
proof -
  let ?u = "t + KST_OFFSET"
  have "0 \<le> ?u div DAY_MS" "0 \<le> ?u mod DAY_MS div 1000" using assms by (simp_all add: DAY_MS_def KST_OFFSET_def pos_imp_zdiv_nonneg_iff)
  then have "(int (kst_day t) - int EPOCH_DAY) * DAY_MS = ?u div DAY_MS * DAY_MS" "int (kst_second t) = ?u mod DAY_MS div 1000"
    by (simp_all add: kst_day_def kst_second_def)
  moreover have "?u mod DAY_MS div 1000 * 1000 = ?u mod DAY_MS - ?u mod 1000"
    by (simp add: DAY_MS_def mod_mod_cancel minus_mod_eq_div_mult [symmetric])
  moreover have "?u mod 1000 = t mod 1000" unfolding KST_OFFSET_def by presburger
  moreover have "?u div DAY_MS * DAY_MS + ?u mod DAY_MS = ?u" by (rule div_mult_mod_eq)
  ultimately show ?thesis by linarith
qed

lemma kst_fields_name_the_second:
  assumes "0 \<le> t" and "kst_day t < DAYS"
  shows "parseKstDateTime (formatKstDate t) (formatKstTime t) = Some (t - t mod 1000)"
proof -
  have "formatKstTime t \<noteq> []" by (simp add: formatKstTime_def Let_def)
  then show ?thesis
    using kst_parts [OF assms(1)] by (simp add: parseKstDateTime_def parse_formatted_date [OF assms(2)] parse_formatted_time)
qed

lemma day_range_contains:
  assumes "0 \<le> t" and "kst_day t < DAYS"
  shows "fst (kstDayRange now (formatKstDate t)) \<le> t \<and> t < snd (kstDayRange now (formatKstDate t))"
proof -
  let ?u = "t + KST_OFFSET"
  have "(int (kst_day t) - int EPOCH_DAY) * DAY_MS = ?u div DAY_MS * DAY_MS" using assms(1) by (simp add: kst_day_def DAY_MS_def KST_OFFSET_def pos_imp_zdiv_nonneg_iff)
  moreover have "0 \<le> ?u mod DAY_MS" "?u mod DAY_MS < DAY_MS" by (simp_all add: DAY_MS_def)
  moreover have "?u div DAY_MS * DAY_MS + ?u mod DAY_MS = ?u" by (rule div_mult_mod_eq)
  ultimately have "(int (kst_day t) - int EPOCH_DAY) * DAY_MS - KST_OFFSET \<le> t" "t < (int (kst_day t) - int EPOCH_DAY) * DAY_MS - KST_OFFSET + DAY_MS" by linarith+
  then show ?thesis by (simp add: kstDayRange_def parse_formatted_date [OF assms(2)] Let_def)
qed

end
