(* ===== verification/LivePage.thy ===== *)
theory LivePage
  imports PlaybackControls LiveLayout Timeline KstTime
begin

text \<open>
  \<open>web/src/components/live/LiveWorkspace.tsx\<close>: the state of the live page, without its rendering. What
  the queries deliver arrives as inputs; the fields of date and time have the values that such fields can have; an \<open>async\<close> handler is cut at its \<open>await\<close> into a task that keeps
  what its closure has captured. The playback workspace of the page is that of \<open>Playback\<close>.
\<close>

section \<open>State\<close>

datatype ptz_support = PtzUnknown | PtzSupported | PtzUnsupported

record live_camera =
  lcStream :: jsstring
  lcEnabled :: bool
  lcStreaming :: bool
  lcPtz :: "(ptz_support \<times> bool) option"      \<comment> \<open>support and availability, if the capabilities are known\<close>
  lcDiscovered :: bool

record layout_profile =
  profileId :: jsstring
  profileName :: jsstring
  profileData :: "layout_item list"
  profileCollapsed :: bool

record layout_payload =
  payloadName :: jsstring
  payloadData :: "layout_item list"
  payloadCollapsed :: bool

datatype page_call =
  PutLayout jsstring layout_payload
| PostLayout layout_payload
| DeleteLayoutCall jsstring
| RefreshControls jsstring
| StopPtz

datatype page_task =
  AfterStopClose
| AfterStopToggle
| AfterStopHide
| AfterStopSeek nat rat
| AfterStopLost nat "live_camera list"
| AfterSave
| AfterDelete jsstring jsstring "layout_profile list" "jsstring list"

record page =
  pageCameras :: "live_camera list"
  pageLayouts :: "layout_profile list"
  camerasLoaded :: bool
  layoutsLoaded :: bool
  pageLayout :: "layout_item list"
  pageLayoutId :: jsstring
  selectedStream :: jsstring
  previousSelected :: jsstring
  reconnectGenerations :: "(jsstring, nat) jsmap"
  layoutDirty :: bool
  savedFlash :: bool
  sideHidden :: bool
  ptzPanelOpen :: bool
  zoomedStream :: "jsstring option"
  recordedViewports :: "(jsstring, video_viewport) jsmap"
  timelineHidden :: bool
  layoutInitialized :: bool
  refreshAttempted :: "jsstring list"
  playbackIntent :: nat
  lostDependencies :: "live_camera list \<times> jsstring"     \<comment> \<open>of the last run of the effect on a lost selection\<close>
  lostRuns :: nat
  pageDate :: jsstring                           \<comment> \<open>\<open>browseDate\<close>\<close>
  pageTime :: jsstring                           \<comment> \<open>\<open>timeDraft\<close>\<close>
  pageViewport :: "timeline_viewport option"     \<comment> \<open>\<open>None\<close>: not a number\<close>
  pageFullscreen :: bool
  fullscreenCalls :: "fullscreen_call list"
  playback :: workspace
  lastLayoutKey :: "jsstring option"            \<comment> \<open>\<open>localStorage\<close>\<close>
  timelineKey :: "bool option"
  pageTasks :: "(nat \<times> page_task) list"
  nextTask :: nat
  pageCalls :: "page_call list"

definition date_viewport :: "jsstring \<Rightarrow> timeline_viewport option" where
  "date_viewport d = map_option (\<lambda>(a, b). \<lparr>fromMs = of_int a, toMs = of_int b\<rparr>) (kstDayViewport d)"

definition new_page :: "jsstring option \<Rightarrow> bool option \<Rightarrow> rat \<Rightarrow> page" where
  "new_page lastLayout hidden now =
     \<lparr>pageCameras = [], pageLayouts = [], camerasLoaded = False, layoutsLoaded = False, pageLayout = [], pageLayoutId = [],
      selectedStream = [], previousSelected = [], reconnectGenerations = [], layoutDirty = False, savedFlash = False,
      sideHidden = False, ptzPanelOpen = False, zoomedStream = None, recordedViewports = [],
      timelineHidden = (hidden = Some True), layoutInitialized = False, refreshAttempted = [], playbackIntent = 0,
      lostDependencies = ([], []), lostRuns = 0, pageDate = date_of_ms now, pageTime = time_of_ms now,
      pageViewport = date_viewport (date_of_ms now), pageFullscreen = False, fullscreenCalls = [],
      playback = new_workspace LiveMode None now, lastLayoutKey = lastLayout, timelineKey = hidden, pageTasks = [], nextTask = 0,
      pageCalls = []\<rparr>"

text \<open>\<open>rows\<close>, \<open>selectedCamera\<close> and what follows from them.\<close>

definition live_rows :: "page \<Rightarrow> live_camera list" where
  "live_rows s = filter lcEnabled (pageCameras s)"

definition row_streams :: "page \<Rightarrow> jsstring list" where
  "row_streams s = map lcStream (live_rows s)"

definition selectedCamera :: "page \<Rightarrow> live_camera option" where
  "selectedCamera s = find (\<lambda>c. lcStream c = selectedStream s) (live_rows s)"

definition displayedCameraKeys :: "page \<Rightarrow> jsstring list" where
  "displayedCameraKeys s = filter (\<lambda>n. n \<in> set (row_streams s)) (map itemStream (pageLayout s))"

definition ptzEnabled :: "page \<Rightarrow> bool" where
  "ptzEnabled s \<longleftrightarrow> mode (playback s) = LiveMode
     \<and> (case selectedCamera s of None \<Rightarrow> False | Some c \<Rightarrow> lcStreaming c \<and> lcPtz c = Some (PtzSupported, True))"

datatype ptz_reason = NoCameraSelected | NotWhilePlayingBack | CameraOffline | SupportUnknown | NotSupportedByCamera | NotAvailable

definition ptzDisabledReason :: "page \<Rightarrow> ptz_reason" where
  "ptzDisabledReason s =
     (case selectedCamera s of
        None \<Rightarrow> NoCameraSelected
      | Some c \<Rightarrow>
          if mode (playback s) = PlaybackMode then NotWhilePlayingBack
          else if \<not> lcStreaming c then CameraOffline
          else (case lcPtz c of
                  None \<Rightarrow> SupportUnknown
                | Some (PtzUnknown, _) \<Rightarrow> SupportUnknown
                | Some (PtzUnsupported, _) \<Rightarrow> NotSupportedByCamera
                | Some (PtzSupported, _) \<Rightarrow> NotAvailable))"

section \<open>Tasks\<close>

definition wait_for :: "page_task \<Rightarrow> page \<Rightarrow> page" where
  "wait_for t s = s\<lparr>pageTasks := pageTasks s @ [(nextTask s, t)], nextTask := Suc (nextTask s)\<rparr>"

definition page_call :: "page_call \<Rightarrow> page \<Rightarrow> page" where
  "page_call c s = s\<lparr>pageCalls := pageCalls s @ [c]\<rparr>"

definition stop_ptz_then :: "page_task \<Rightarrow> page \<Rightarrow> page" where
  "stop_ptz_then t s = wait_for t (page_call StopPtz s)"

section \<open>The PTZ panel and the side panel\<close>

definition closePtzPanel :: "page \<Rightarrow> page" where
  "closePtzPanel s = stop_ptz_then AfterStopClose s"

definition openPtzPanel :: "page \<Rightarrow> page" where
  "openPtzPanel s = (if ptzEnabled s then s\<lparr>sideHidden := False, ptzPanelOpen := True\<rparr> else s)"

definition toggleSidePanel :: "page \<Rightarrow> page" where
  "toggleSidePanel s =
     (if \<not> sideHidden s \<and> ptzPanelOpen s then stop_ptz_then AfterStopToggle s else s\<lparr>sideHidden := \<not> sideHidden s\<rparr>)"

definition hideSidePanel :: "page \<Rightarrow> page" where
  "hideSidePanel s = (if ptzPanelOpen s then stop_ptz_then AfterStopHide s else s\<lparr>sideHidden := True\<rparr>)"

section \<open>Playback\<close>

definition seek_now :: "rat \<Rightarrow> bool \<Rightarrow> page \<Rightarrow> page" where
  "seek_now atMs go s =
     s\<lparr>pageDate := date_of_ms atMs, pageTime := time_of_ms atMs, playback := seek (Num atMs) (Some go) (playback s)\<rparr>"

definition seekPlayback :: "rat \<Rightarrow> page \<Rightarrow> page" where
  "seekPlayback atMs s =
     (let s1 = s\<lparr>playbackIntent := Suc (playbackIntent s)\<rparr>
      in if mode (playback s) = LiveMode then stop_ptz_then (AfterStopSeek (playbackIntent s1) atMs) s1
         else seek_now atMs (playing (playback s)) s1)"

definition returnToLive :: "rat \<Rightarrow> page \<Rightarrow> page" where
  "returnToLive now s =
     s\<lparr>playbackIntent := Suc (playbackIntent s), recordedViewports := [], playback := goLive now (playback s)\<rparr>"

definition handleBrowseDateChange :: "jsstring \<Rightarrow> page \<Rightarrow> page" where
  "handleBrowseDateChange d s = (if d = [] then s else s\<lparr>pageDate := d, pageViewport := date_viewport d\<rparr>)"

definition commitTimeDraft :: "page \<Rightarrow> page" where
  "commitTimeDraft s =
     (case live_parseKstDateTime (pageDate s) (pageTime s) of None \<Rightarrow> s | Some t \<Rightarrow> seekPlayback (of_int t) s)"

text \<open>A control of the bar under the tiles, whose button of the live mode calls \<open>returnToLive\<close>.\<close>

fun press_live_control :: "playback_control \<Rightarrow> page \<Rightarrow> page" where
  "press_live_control (PressLive now) s = returnToLive now s"
| "press_live_control c s = s\<lparr>playback := press_control None c (playback s)\<rparr>"

definition retry_tile :: "jsstring \<Rightarrow> page \<Rightarrow> page" where
  "retry_tile name s =
     (if mode (playback s) = PlaybackMode then s\<lparr>playback := retry_cameras (Some name) (playback s)\<rparr>
      else s\<lparr>reconnectGenerations := map_set name
              (Suc (case map_of (reconnectGenerations s) name of None \<Rightarrow> 0 | Some n \<Rightarrow> n)) (reconnectGenerations s)\<rparr>)"

section \<open>Layouts\<close>

definition handleLayoutChange :: "layout_item list \<Rightarrow> page \<Rightarrow> page" where
  "handleLayoutChange next s =
     (let zoom_of = (\<lambda>n. Option.bind (find (\<lambda>i. itemStream i = n) (rev (pageLayout s))) videoZoom)
      in s\<lparr>pageLayout := clampLayout (map (\<lambda>i. i\<lparr>videoZoom := zoom_of (itemStream i)\<rparr>) next), layoutDirty := True\<rparr>)"

definition handleVideoViewportChange :: "jsstring \<Rightarrow> video_viewport \<Rightarrow> page \<Rightarrow> page" where
  "handleVideoViewportChange name v s =
     s\<lparr>pageLayout := map (\<lambda>i. if itemStream i = name then i\<lparr>videoZoom := (if scale v > 1 then Some v else None)\<rparr> else i) (pageLayout s),
       layoutDirty := True\<rparr>"

definition default_layout_name :: jsstring where
  "default_layout_name = [0xAE30, 0xBCF8]"

definition saveCurrentLayout :: "page \<Rightarrow> page" where
  "saveCurrentLayout s =
     (let payload = \<lparr>payloadName = (case find (\<lambda>l. profileId l = pageLayoutId s) (pageLayouts s) of
                                     Some l \<Rightarrow> profileName l | None \<Rightarrow> default_layout_name),
                     payloadData = pageLayout s, payloadCollapsed = timelineHidden s\<rparr>
      in wait_for AfterSave
           (page_call (if pageLayoutId s \<noteq> [] then PutLayout (pageLayoutId s) payload else PostLayout payload) s))"

text \<open>\<open>name\<close> is what the prompt answers.\<close>

definition saveAsLayout :: "jsstring option \<Rightarrow> page \<Rightarrow> page" where
  "saveAsLayout name s =
     (case name of
        None \<Rightarrow> s
      | Some n \<Rightarrow>
          if n = [] then s
          else wait_for AfterSave
                 (page_call (PostLayout \<lparr>payloadName = n, payloadData = pageLayout s, payloadCollapsed = timelineHidden s\<rparr>) s))"

definition saved_as :: "jsstring \<Rightarrow> page \<Rightarrow> page" where
  "saved_as i s = s\<lparr>pageLayoutId := i, lastLayoutKey := Some i, layoutDirty := False, savedFlash := True\<rparr>"

definition loadLayout :: "jsstring \<Rightarrow> page \<Rightarrow> page" where
  "loadLayout i s =
     (case find (\<lambda>l. profileId l = i) (pageLayouts s) of
        None \<Rightarrow> s
      | Some l \<Rightarrow> s\<lparr>pageLayoutId := profileId l, pageLayout := mergeWithCameras (profileData l) (row_streams s),
                    timelineHidden := profileCollapsed l, layoutDirty := False, lastLayoutKey := Some (profileId l)\<rparr>)"

definition to_saved :: "layout_profile \<Rightarrow> saved_layout" where
  "to_saved l = \<lparr>layoutId = profileId l, layoutData = profileData l, timelineCollapsed = profileCollapsed l\<rparr>"

definition show_resolved :: "resolved_layout \<Rightarrow> page \<Rightarrow> page" where
  "show_resolved r s =
     s\<lparr>pageLayoutId := currentId r, pageLayout := tiles r,
       timelineHidden := (case collapsed r of None \<Rightarrow> timelineHidden s | Some b \<Rightarrow> b)\<rparr>"

definition deleteSavedLayout :: "jsstring \<Rightarrow> bool \<Rightarrow> page \<Rightarrow> page" where
  "deleteSavedLayout i confirmed s =
     (if \<not> confirmed then s
      else wait_for (AfterDelete i (pageLayoutId s) (pageLayouts s) (row_streams s)) (page_call (DeleteLayoutCall i) s))"

definition deleted :: "jsstring \<Rightarrow> jsstring \<Rightarrow> layout_profile list \<Rightarrow> jsstring list \<Rightarrow> page \<Rightarrow> page" where
  "deleted i current layouts names s =
     (case resolveLayoutAfterDelete i current (map to_saved layouts) names of
        None \<Rightarrow> s
      | Some r \<Rightarrow> (show_resolved r s)\<lparr>layoutDirty := False,
                    lastLayoutKey := (if currentId r \<noteq> [] then Some (currentId r) else None)\<rparr>)"

definition toggleTimeline :: "page \<Rightarrow> page" where
  "toggleTimeline s =
     s\<lparr>timelineHidden := \<not> timelineHidden s, timelineKey := Some (\<not> timelineHidden s), layoutDirty := True\<rparr>"

section \<open>Effects\<close>

definition select_first :: "page \<Rightarrow> page" where
  "select_first s = (if selectedStream s \<noteq> [] \<or> live_rows s = [] then s else s\<lparr>selectedStream := hd (row_streams s)\<rparr>)"

text \<open>The selected camera is gone: the effect waits for the stop, and its next run, on other cameras or another
  selection, makes this one inactive. The runs are numbered.\<close>

definition selection_lost :: "page \<Rightarrow> page" where
  "selection_lost s =
     (if lostDependencies s = (live_rows s, selectedStream s) then s
      else let s1 = s\<lparr>lostDependencies := (live_rows s, selectedStream s), lostRuns := Suc (lostRuns s)\<rparr>
           in if selectedStream s = [] \<or> selectedStream s \<in> set (row_streams s) then s1
              else stop_ptz_then (AfterStopLost (lostRuns s1) (live_rows s)) (s1\<lparr>zoomedStream := None\<rparr>))"

definition refresh_controls :: "page \<Rightarrow> page" where
  "refresh_controls s =
     (case selectedCamera s of
        None \<Rightarrow> s
      | Some c \<Rightarrow>
          if lcStream c = [] \<or> lcDiscovered c \<or> lcStream c \<in> set (refreshAttempted s) then s
          else page_call (RefreshControls (lcStream c)) (s\<lparr>refreshAttempted := lcStream c # refreshAttempted s\<rparr>))"

definition selection_changed :: "page \<Rightarrow> page" where
  "selection_changed s =
     (if previousSelected s = selectedStream s then s
      else let s1 = s\<lparr>previousSelected := selectedStream s\<rparr> in if ptzPanelOpen s then closePtzPanel s1 else s1)"

text \<open>\<open>before\<close> is the page at the last run of the effect.\<close>

definition ptz_unavailable :: "page \<Rightarrow> page \<Rightarrow> page" where
  "ptz_unavailable before s =
     (if (ptzPanelOpen before, ptzEnabled before, sideHidden before) = (ptzPanelOpen s, ptzEnabled s, sideHidden s) then s
      else if ptzPanelOpen s \<and> (\<not> ptzEnabled s \<or> sideHidden s) then closePtzPanel s else s)"

definition initial_layout :: "page \<Rightarrow> page" where
  "initial_layout s =
     (if layoutInitialized s \<or> \<not> camerasLoaded s \<or> \<not> layoutsLoaded s then s
      else case resolveInitialLayout (row_streams s) (map to_saved (pageLayouts s)) (lastLayoutKey s) True of
             None \<Rightarrow> s
           | Some r \<Rightarrow> (show_resolved r s)\<lparr>layoutInitialized := True\<rparr>)"

definition follow_keys :: "page \<Rightarrow> page" where
  "follow_keys s = s\<lparr>playback := keys_changed (displayedCameraKeys s) (playback s)\<rparr>"

definition page_effects :: "page \<Rightarrow> page \<Rightarrow> page" where
  "page_effects before s =
     initial_layout (ptz_unavailable before (selection_changed (refresh_controls (selection_lost (select_first (follow_keys s))))))"

section \<open>Inputs\<close>

datatype page_input =
  CamerasArrive "live_camera list"
| LayoutsArrive "layout_profile list"
| SelectCamera jsstring
| ToggleZoom jsstring
| EscapeZoom
| OpenPtz | PtzBack | ToggleSide | HideSide | ToggleTimeline
| SeekTo rat
| PickDate jsstring | TypeClock jsstring | CommitTime
| MoveAxis timeline_viewport
| LiveControl playback_control
| ToggleFullscreen bool bool | FullscreenIs bool
| ReturnToLive rat
| RetryTile jsstring
| RecordedViewport jsstring video_viewport
| LayoutChange "layout_item list"
| TileZoom jsstring video_viewport
| SaveLayout
| SaveAs "jsstring option"
| LoadLayout jsstring
| DeleteLayout jsstring bool
| TaskDone nat "jsstring option"
| FlashOver
| PlaybackEvent playback_input

text \<open>What follows an \<open>await\<close>. \<open>answer\<close> is the identifier of the layout that the server has saved;
  without it a request has failed. The stop of the PTZ hook never rejects.\<close>

definition page_resume :: "page_task \<Rightarrow> jsstring option \<Rightarrow> page \<Rightarrow> page" where
  "page_resume t answer s =
     (case t of
        AfterStopClose \<Rightarrow> s\<lparr>ptzPanelOpen := False\<rparr>
      | AfterStopToggle \<Rightarrow> s\<lparr>ptzPanelOpen := False, sideHidden := \<not> sideHidden s\<rparr>
      | AfterStopHide \<Rightarrow> s\<lparr>ptzPanelOpen := False, sideHidden := True\<rparr>
      | AfterStopSeek intent atMs \<Rightarrow>
          if intent \<noteq> playbackIntent s then s else seek_now atMs True (s\<lparr>ptzPanelOpen := False\<rparr>)
      | AfterStopLost run rows \<Rightarrow>
          if run \<noteq> lostRuns s then s
          else s\<lparr>ptzPanelOpen := False, selectedStream := (case rows of [] \<Rightarrow> [] | r # _ \<Rightarrow> lcStream r)\<rparr>
      | AfterSave \<Rightarrow> (case answer of None \<Rightarrow> s | Some i \<Rightarrow> saved_as i s)
      | AfterDelete i current layouts names \<Rightarrow> (case answer of None \<Rightarrow> s | Some _ \<Rightarrow> deleted i current layouts names s))"

fun page_step :: "page_input \<Rightarrow> page \<Rightarrow> page" where
  "page_step (CamerasArrive cs) s = s\<lparr>pageCameras := cs, camerasLoaded := True\<rparr>"
| "page_step (LayoutsArrive ls) s = s\<lparr>pageLayouts := ls, layoutsLoaded := True\<rparr>"
| "page_step (SelectCamera n) s = s\<lparr>selectedStream := n\<rparr>"
| "page_step (ToggleZoom n) s = s\<lparr>selectedStream := n, zoomedStream := (if zoomedStream s = Some n then None else Some n)\<rparr>"
| "page_step EscapeZoom s = s\<lparr>zoomedStream := None\<rparr>"
| "page_step OpenPtz s = openPtzPanel s"
| "page_step PtzBack s = s\<lparr>ptzPanelOpen := False\<rparr>"
| "page_step ToggleSide s = toggleSidePanel s"
| "page_step HideSide s = hideSidePanel s"
| "page_step ToggleTimeline s = toggleTimeline s"
| "page_step (SeekTo t) s = seekPlayback t s"
| "page_step (PickDate d) s = handleBrowseDateChange d s"
| "page_step (TypeClock v) s = s\<lparr>pageTime := v\<rparr>"
| "page_step CommitTime s = commitTimeDraft s"
| "page_step (MoveAxis v) s = s\<lparr>pageViewport := Some v\<rparr>"
| "page_step (LiveControl c) s = press_live_control c s"
| "page_step (ToggleFullscreen native element) s =
     s\<lparr>fullscreenCalls := fullscreenCalls s @ [toggleFullscreen native (pageFullscreen s) element]\<rparr>"
| "page_step (FullscreenIs b) s = s\<lparr>pageFullscreen := b\<rparr>"
| "page_step (ReturnToLive now) s = returnToLive now s"
| "page_step (RetryTile n) s = retry_tile n s"
| "page_step (RecordedViewport n v) s = s\<lparr>recordedViewports := map_set n v (recordedViewports s)\<rparr>"
| "page_step (LayoutChange items) s = handleLayoutChange items s"
| "page_step (TileZoom n v) s = handleVideoViewportChange n v s"
| "page_step SaveLayout s = saveCurrentLayout s"
| "page_step (SaveAs name) s = saveAsLayout name s"
| "page_step (LoadLayout i) s = loadLayout i s"
| "page_step (DeleteLayout i c) s = deleteSavedLayout i c s"
| "page_step (TaskDone k answer) s =
     (case map_of (pageTasks s) k of
        None \<Rightarrow> s
      | Some t \<Rightarrow> page_resume t answer (s\<lparr>pageTasks := filter (\<lambda>(j, _). j \<noteq> k) (pageTasks s)\<rparr>))"
| "page_step FlashOver s = s\<lparr>savedFlash := False\<rparr>"
| "page_step (PlaybackEvent i) s = s\<lparr>playback := playback_exec i (playback s)\<rparr>"

definition page_exec :: "page_input \<Rightarrow> page \<Rightarrow> page" where
  "page_exec i s = page_effects s (page_step i s)"

definition page_run :: "page_input list \<Rightarrow> page \<Rightarrow> page" where
  "page_run ins s = fold page_exec ins s"

end
