(* ===== verification/LivePageProps.thy ===== *)
theory LivePageProps
  imports LivePage PlaybackProps
begin

text \<open>
  The live page: which seek counts, and what a save that comes late does to the layout.
\<close>

section \<open>Intents\<close>

text \<open>What the effects leave alone: they only append tasks, and none of these is a seek.\<close>

definition only_effects :: "page \<Rightarrow> page \<Rightarrow> bool" where
  "only_effects s t \<longleftrightarrow> playbackIntent t = playbackIntent s \<and> pageLayouts t = pageLayouts s \<and> pageCameras t = pageCameras s
     \<and> (layoutInitialized s \<longrightarrow> layoutInitialized t \<and> pageLayoutId t = pageLayoutId s \<and> pageLayout t = pageLayout s
          \<and> layoutDirty t = layoutDirty s)
     \<and> (\<exists>ts. pageTasks t = pageTasks s @ ts \<and> (\<forall>k n m. (k, AfterStopSeek n m) \<notin> set ts))"

lemma only_effects_trans: "only_effects s t \<Longrightarrow> only_effects t u \<Longrightarrow> only_effects s u"
  unfolding only_effects_def by fastforce

lemmas waits = stop_ptz_then_def wait_for_def page_call_def

lemma only_effects_each:
  "only_effects s (follow_keys s)" "only_effects s (select_first s)" "only_effects s (selection_lost s)"
  "only_effects s (refresh_controls s)" "only_effects s (closePtzPanel s)" "only_effects s (initial_layout s)"
  by (simp_all add: only_effects_def follow_keys_def select_first_def selection_lost_def refresh_controls_def closePtzPanel_def
      initial_layout_def show_resolved_def waits Let_def split: option.split)

lemma only_effects_self: "only_effects s s"
  by (simp add: only_effects_def)

lemma only_effects_previous: "only_effects s (s\<lparr>previousSelected := n\<rparr>)"
  by (simp add: only_effects_def)

lemma only_effects_close: "only_effects s (selection_changed s)" "only_effects s (ptz_unavailable b s)"
  using only_effects_each(5) only_effects_self only_effects_previous only_effects_trans [OF only_effects_previous only_effects_each(5)]
  by (simp_all add: selection_changed_def ptz_unavailable_def Let_def)

lemma only_effects_page: "only_effects s (page_effects b s)"
  unfolding page_effects_def
  by (rule only_effects_trans [OF _ only_effects_each(6)], rule only_effects_trans [OF _ only_effects_close(2)],
      rule only_effects_trans [OF _ only_effects_close(1)], rule only_effects_trans [OF _ only_effects_each(4)],
      rule only_effects_trans [OF _ only_effects_each(3)], rule only_effects_trans [OF _ only_effects_each(2)],
      rule only_effects_each(1))

lemma effects_fields [simp]:
  "playbackIntent (page_effects b s) = playbackIntent s" "pageLayouts (page_effects b s) = pageLayouts s"
  "pageCameras (page_effects b s) = pageCameras s"
  using only_effects_page [of s b] by (simp_all add: only_effects_def)

lemma effects_layout:
  "layoutInitialized s \<Longrightarrow> pageLayoutId (page_effects b s) = pageLayoutId s \<and> pageLayout (page_effects b s) = pageLayout s
     \<and> layoutDirty (page_effects b s) = layoutDirty s \<and> layoutInitialized (page_effects b s)"
  using only_effects_page [of s b] by (simp add: only_effects_def)

lemma effects_tasks: "\<exists>ts. pageTasks (page_effects b s) = pageTasks s @ ts"
  using only_effects_page [of s b] unfolding only_effects_def by blast

lemma resume_intent: "playbackIntent (page_resume t a s) = playbackIntent s"
  by (cases t) (simp_all add: page_resume_def seek_now_def saved_as_def deleted_def show_resolved_def split: option.split)

lemma control_keeps: "playbackIntent s \<le> playbackIntent (press_live_control c s)" "pageTasks (press_live_control c s) = pageTasks s"
  by (cases c; simp add: returnToLive_def)+

lemma step_intent: "playbackIntent s \<le> playbackIntent (page_step i s)"
  by (cases i) (simp_all add: openPtzPanel_def closePtzPanel_def toggleSidePanel_def hideSidePanel_def stop_ptz_then_def wait_for_def
      page_call_def toggleTimeline_def seekPlayback_def seek_now_def returnToLive_def retry_tile_def handleLayoutChange_def
      handleVideoViewportChange_def saveCurrentLayout_def saveAsLayout_def loadLayout_def deleteSavedLayout_def handleBrowseDateChange_def commitTimeDraft_def control_keeps resume_intent Let_def
      split: option.split)

lemma exec_intent: "playbackIntent s \<le> playbackIntent (page_exec i s)"
  using step_intent by (simp add: page_exec_def)

text \<open>The intent of the page is a generation counter.\<close>

definition page_next :: "page \<Rightarrow> page \<Rightarrow> bool" where
  "page_next s t \<longleftrightarrow> (\<exists>i. t = page_exec i s)"

interpretation intents: generation_counter playbackIntent page_next
  by unfold_locales (auto simp: page_next_def exec_intent)

lemma run_next: "page_next\<^sup>*\<^sup>* s (page_run ins s)"
  unfolding page_run_def
proof (induction ins arbitrary: s)
  case (Cons i ins)
  have "page_next s (page_exec i s)" by (auto simp: page_next_def)
  with Cons [of "page_exec i s"] show ?case by (simp add: converse_rtranclp_into_rtranclp)
qed simp

definition intents_known :: "page \<Rightarrow> bool" where
  "intents_known s \<longleftrightarrow> (\<forall>k n t. (k, AfterStopSeek n t) \<in> set (pageTasks s) \<longrightarrow> n \<le> playbackIntent s)"

lemma effects_seeks:
  "(k, AfterStopSeek n t) \<in> set (pageTasks (page_effects b s)) \<longleftrightarrow> (k, AfterStopSeek n t) \<in> set (pageTasks s)"
  using only_effects_page [of s b] unfolding only_effects_def by auto

lemma resume_tasks: "pageTasks (page_resume t a s) = pageTasks s"
  by (cases t) (simp_all add: page_resume_def seek_now_def saved_as_def deleted_def show_resolved_def split: option.split)

lemma step_seeks:
  assumes "intents_known s" and "(k, AfterStopSeek n t) \<in> set (pageTasks (page_step i s))"
  shows "n \<le> playbackIntent (page_step i s)"
proof -
  have "(k, AfterStopSeek n t) \<in> set (pageTasks s) \<or> n = playbackIntent (page_step i s)"
    using assms(2)
    by (cases i) (auto simp: openPtzPanel_def closePtzPanel_def toggleSidePanel_def hideSidePanel_def stop_ptz_then_def wait_for_def
        page_call_def toggleTimeline_def seekPlayback_def seek_now_def returnToLive_def retry_tile_def handleLayoutChange_def
        handleVideoViewportChange_def saveCurrentLayout_def saveAsLayout_def loadLayout_def deleteSavedLayout_def
        handleBrowseDateChange_def commitTimeDraft_def control_keeps resume_tasks Let_def
        split: option.splits if_splits)
  with assms(1) step_intent [of s i] show ?thesis unfolding intents_known_def by (meson order.trans order_refl)
qed

lemma intents_known_run: "intents_known (page_run ins (new_page l h now))"
proof -
  have e: "intents_known s \<Longrightarrow> intents_known (page_exec i s)" for s i
    using step_seeks [of s _ _ _ i] by (auto simp: intents_known_def page_exec_def effects_seeks)
  have "intents_known s \<Longrightarrow> intents_known (page_run ins s)" for s
    unfolding page_run_def by (induction ins arbitrary: s) (simp_all add: e)
  moreover have "intents_known (new_page l h now)" by (simp add: intents_known_def new_page_def)
  ultimately show ?thesis .
qed

section \<open>Properties\<close>

text \<open>C26: the last wish of the user counts. A seek from live waits for the PTZ stop; when the user returns
  to live or seeks again before that, the waiting seek no longer starts a playback, whatever happens in
  between.\<close>

theorem later_wish_wins:
  assumes "(k, AfterStopSeek n t) \<in> set (pageTasks (page_run ins (new_page l h now)))"
    and "w = ReturnToLive now' \<or> w = SeekTo t'"
    and "map_of (pageTasks (page_run (ins @ w # later) (new_page l h now))) k = Some (AfterStopSeek n t)"
  shows "playback (page_step (TaskDone k a) (page_run (ins @ w # later) (new_page l h now)))
       = playback (page_run (ins @ w # later) (new_page l h now))"
proof -
  let ?s = "page_run ins (new_page l h now)"
  let ?w = "page_exec w ?s"
  have "n \<le> playbackIntent ?s" using intents_known_run assms(1) unfolding intents_known_def by blast
  moreover have "playbackIntent ?w = Suc (playbackIntent ?s)"
    using assms(2) by (auto simp: page_exec_def returnToLive_def seekPlayback_def seek_now_def stop_ptz_then_def wait_for_def page_call_def Let_def)
  ultimately have "n \<noteq> playbackIntent (page_run later ?w)"
    using intents.stale_forever [OF run_next [of ?w later]] by simp
  moreover have "page_run (ins @ w # later) (new_page l h now) = page_run later ?w" by (simp add: page_run_def)
  ultimately show ?thesis using assms(3) by (simp add: page_resume_def)
qed

lemmas page_simps = page_run_def page_exec_def new_page_def page_effects_def initial_layout_def ptz_unavailable_def selection_changed_def
  refresh_controls_def selection_lost_def select_first_def follow_keys_def stop_ptz_then_def wait_for_def page_call_def
  seekPlayback_def seek_now_def returnToLive_def displayedCameraKeys_def row_streams_def live_rows_def selectedCamera_def
  ptzEnabled_def new_workspace_def keys_changed_def key_signature_def goLive_def abort_all_def pauseVideos_def Let_def

theorem later_wish_wins_witness:
  "let s = page_run [SeekTo 5000, ReturnToLive 9000] (new_page None None 8000)
   in map_of (pageTasks s) 0 = Some (AfterStopSeek 1 5000) \<and> playback (page_step (TaskDone 0 None) s) = playback s"
  using later_wish_wins [of 0 1 5000 "[SeekTo 5000]" None None 8000 "ReturnToLive 9000" 9000 0 "[]" None]
  by (simp add: page_simps)

text \<open>C31: a save that is answered late gives the loaded layout the name of the saved one. The user saves
  the layout \<open>a\<close> and, before the server answers, loads another layout \<open>b\<close>; then the page shows the tiles of \<open>b\<close>
  as the unchanged layout \<open>a\<close>, and the next save replaces the tiles of \<open>a\<close> on the server by those of \<open>b\<close>.\<close>

theorem late_save_renames_layout:
  assumes "layoutInitialized s" and "pageLayoutId s = a" and "a \<noteq> []" and "\<forall>(k, t) \<in> set (pageTasks s). k < nextTask s"
    and "find (\<lambda>l. profileId l = b) (pageLayouts s) = Some lb" and "b \<noteq> a"
  shows "let s3 = page_run [SaveLayout, LoadLayout b, TaskDone (nextTask s) (Some a)] s;
             tiles_of_b = mergeWithCameras (profileData lb) (row_streams s)
         in pageLayoutId s3 = a \<and> pageLayout s3 = tiles_of_b \<and> \<not> layoutDirty s3
            \<and> (\<exists>p. last (pageCalls (page_step SaveLayout s3)) = PutLayout a p \<and> payloadData p = tiles_of_b)"
proof -
  let ?s1 = "page_exec SaveLayout s"
  let ?s2 = "page_exec (LoadLayout b) ?s1"
  have i: "layoutInitialized (page_step SaveLayout s)"
    using assms(1) by (simp add: saveCurrentLayout_def wait_for_def page_call_def Let_def)
  have f: "pageLayouts ?s1 = pageLayouts s" "row_streams ?s1 = row_streams s" "layoutInitialized ?s1"
    using effects_layout [OF i]
    by (simp_all add: page_exec_def row_streams_def live_rows_def)
      (simp_all add: saveCurrentLayout_def wait_for_def page_call_def Let_def)
  have b: "profileId lb = b" using assms(5) by (simp add: find_Some_iff) blast
  have l: "page_step (LoadLayout b) ?s1 = ?s1\<lparr>pageLayoutId := b, pageLayout := mergeWithCameras (profileData lb) (row_streams s),
      timelineHidden := profileCollapsed lb, layoutDirty := False, lastLayoutKey := Some b\<rparr>"
    using assms(5) f b by (simp add: loadLayout_def)
  have g: "pageLayout ?s2 = mergeWithCameras (profileData lb) (row_streams s)" "layoutInitialized ?s2"
    using effects_layout [of "page_step (LoadLayout b) ?s1" ?s1] f(3) l by (simp_all add: page_exec_def)
  have t: "map_of (pageTasks ?s2) (nextTask s) = Some AfterSave"
  proof -
    obtain ts where ts: "pageTasks ?s1 = pageTasks s @ (nextTask s, AfterSave) # ts"
      using effects_tasks [of s "page_step SaveLayout s"] by (auto simp: page_exec_def saveCurrentLayout_def wait_for_def page_call_def Let_def)
    obtain ts' where ts': "pageTasks ?s2 = pageTasks ?s1 @ ts'"
      using effects_tasks [of ?s1 "page_step (LoadLayout b) ?s1"] l by (auto simp: page_exec_def)
    have "map_of (pageTasks s) (nextTask s) = None" using assms(4) by (force simp: map_of_eq_None_iff)
    then show ?thesis using ts ts' by (simp add: map_add_def)
  qed
  let ?s3 = "page_exec (TaskDone (nextTask s) (Some a)) ?s2"
  let ?r = "page_step (TaskDone (nextTask s) (Some a)) ?s2"
  have r: "pageLayoutId ?r = a" "pageLayout ?r = pageLayout ?s2" "\<not> layoutDirty ?r" "layoutInitialized ?r"
    using t g(2) by (simp_all add: page_resume_def saved_as_def)
  have s3: "pageLayoutId ?s3 = a" "pageLayout ?s3 = mergeWithCameras (profileData lb) (row_streams s)" "\<not> layoutDirty ?s3"
    using effects_layout [OF r(4)] r g(1) by (simp_all add: page_exec_def)
  have "page_run [SaveLayout, LoadLayout b, TaskDone (nextTask s) (Some a)] s = ?s3" by (simp add: page_run_def)
  moreover have "\<exists>p. last (pageCalls (page_step SaveLayout ?s3)) = PutLayout a p \<and> payloadData p = pageLayout ?s3"
    using s3(1) assms(3) by (simp add: saveCurrentLayout_def wait_for_def page_call_def Let_def)
  ultimately show ?thesis using s3 by (simp add: Let_def)
qed

definition example_page :: page where
  "example_page = page_run
     [CamerasArrive [\<lparr>lcStream = js ''c'', lcEnabled = True, lcStreaming = True, lcPtz = None, lcDiscovered = True\<rparr>],
      LayoutsArrive [\<lparr>profileId = js ''a'', profileName = js ''A'', profileData = [], profileCollapsed = False\<rparr>,
                     \<lparr>profileId = js ''b'', profileName = js ''B'', profileData = [(default_item 0 (js ''c''))\<lparr>itemW := 30\<rparr>],
                       profileCollapsed = False\<rparr>]] (new_page None None 0)"

theorem late_save_renames_layout_witness:
  "pageLayoutId (page_run [SaveLayout, LoadLayout (js ''b''), TaskDone 0 (Some (js ''a''))] example_page) = js ''a''
   \<and> map itemW (pageLayout (page_run [SaveLayout, LoadLayout (js ''b''), TaskDone 0 (Some (js ''a''))] example_page)) = [30]"
proof -
  have s: "layoutInitialized example_page" "pageLayoutId example_page = js ''a''" "pageTasks example_page = []" "nextTask example_page = 0"
    "row_streams example_page = [js ''c'']"
    "pageLayouts example_page = [\<lparr>profileId = js ''a'', profileName = js ''A'', profileData = [], profileCollapsed = False\<rparr>,
       \<lparr>profileId = js ''b'', profileName = js ''B'', profileData = [(default_item 0 (js ''c''))\<lparr>itemW := 30\<rparr>], profileCollapsed = False\<rparr>]"
    by (simp_all add: example_page_def page_simps resolveInitialLayout_def to_saved_def show_resolved_def js_def)
  have "let s3 = page_run [SaveLayout, LoadLayout (js ''b''), TaskDone (nextTask example_page) (Some (js ''a''))] example_page;
             tiles_of_b = mergeWithCameras [(default_item 0 (js ''c''))\<lparr>itemW := 30\<rparr>] (row_streams example_page)
         in pageLayoutId s3 = js ''a'' \<and> pageLayout s3 = tiles_of_b \<and> \<not> layoutDirty s3
            \<and> (\<exists>p. last (pageCalls (page_step SaveLayout s3)) = PutLayout (js ''a'') p \<and> payloadData p = tiles_of_b)"
    using late_save_renames_layout [of example_page "js ''a''" "js ''b''"
      "\<lparr>profileId = js ''b'', profileName = js ''B'', profileData = [(default_item 0 (js ''c''))\<lparr>itemW := 30\<rparr>], profileCollapsed = False\<rparr>"]
    by (simp add: s js_def)
  then show ?thesis by (simp add: s Let_def mergeWithCameras_def saved_item_def default_item_def)
qed

section \<open>The fields of date and time\<close>

text \<open>The effects change neither the fields nor what is played.\<close>

definition shown_time :: "page \<Rightarrow> jsstring \<times> jsstring \<times> workspace_mode \<times> rat" where
  "shown_time s = (pageDate s, pageTime s, mode (playback s), playheadMs (playback s))"

lemma effects_time [simp]: "shown_time (page_effects b s) = shown_time s"
proof -
  have c: "shown_time (closePtzPanel u) = shown_time u" for u by (simp add: closePtzPanel_def waits shown_time_def)
  have "shown_time (follow_keys u) = shown_time u" "shown_time (select_first u) = shown_time u" "shown_time (selection_lost u) = shown_time u"
    "shown_time (refresh_controls u) = shown_time u" "shown_time (initial_layout u) = shown_time u" for u
    by (simp_all add: follow_keys_def select_first_def selection_lost_def refresh_controls_def initial_layout_def show_resolved_def
        shown_time_def keys_shows waits Let_def split: option.split)
  moreover have "shown_time (selection_changed u) = shown_time u" "shown_time (ptz_unavailable b u) = shown_time u" for u
    by (simp_all add: selection_changed_def ptz_unavailable_def c Let_def) (simp_all add: shown_time_def)
  ultimately show ?thesis by (simp add: page_effects_def)
qed

lemma seek_in_playback:
  assumes "mode (playback s) = PlaybackMode"
  shows "shown_time (page_exec (SeekTo t) s) = (date_of_ms t, time_of_ms t, PlaybackMode, js_round t)"
proof -
  have "shown_time (page_step (SeekTo t) s) = (date_of_ms t, time_of_ms t, PlaybackMode, js_round t)"
    using assms by (simp add: seekPlayback_def seek_now_def shown_time_def seek_shows Let_def)
  then show ?thesis by (simp add: page_exec_def)
qed

text \<open>The buttons of the control bar go past the fields.\<close>

fun is_press_live :: "playback_control \<Rightarrow> bool" where
  "is_press_live (PressLive now) = True"
| "is_press_live c = False"

lemma press_mode: "mode w = PlaybackMode \<Longrightarrow> \<not> is_press_live c \<Longrightarrow> mode (press_control None c w) = PlaybackMode"
proof (cases c)
  case (PressStep d)
  assume "mode w = PlaybackMode"
  then show ?thesis by (simp add: PressStep step_by_def seek_shows)
next
  case (PressVolume r)
  assume "mode w = PlaybackMode"
  then show ?thesis by (cases r) (simp_all add: PressVolume setVolume_def fold_frame [of mode] case_prod_unfold Let_def)
next
  case (PressRate r)
  assume "mode w = PlaybackMode"
  then show ?thesis by (cases r) (simp_all add: PressRate setRate_def)
qed (simp_all add: togglePlaying_def pause_def play_def setMuted_def fold_frame [of mode] case_prod_unfold)

lemma controls_keep_fields:
  assumes "mode (playback s) = PlaybackMode" and "\<forall>c \<in> set cs. \<not> is_press_live c"
  shows "let s' = page_run (map LiveControl cs) s
    in pageDate s' = pageDate s \<and> pageTime s' = pageTime s \<and> mode (playback s') = PlaybackMode"
  using assms
proof (induction cs arbitrary: s)
  case (Cons c cs)
  let ?s = "page_exec (LiveControl c) s"
  have "shown_time ?s = shown_time (press_live_control c s)" by (simp add: page_exec_def)
  moreover have "press_live_control c s = s\<lparr>playback := press_control None c (playback s)\<rparr>"
    using Cons.prems(2) by (cases c) simp_all
  ultimately have "pageDate ?s = pageDate s" "pageTime ?s = pageTime s" "mode (playback ?s) = PlaybackMode"
    using press_mode [OF Cons.prems(1), of c] Cons.prems(2) by (simp_all add: shown_time_def)
  with Cons.IH [of ?s] Cons.prems(2) show ?case by (simp add: page_run_def Let_def)
qed (simp add: page_run_def)



end
