(* ===== verification/RecordingBrowser.thy ===== *)
theory RecordingBrowser
  imports PlaybackControls Timeline KstTime
begin

text \<open>
  The recording browser: \<open>web/src/components/playback/RecordingBrowserWorkspace.tsx\<close>. Its state and refs are
  the record \<open>recording_browser\<close>; a change of the state is followed by commits, in which the effects whose dependencies
  have changed run on what was rendered. Two further commits bring the page to rest. Times in milliseconds are
  rationals where they are JavaScript numbers; \<open>now\<close> is \<open>Date.now()\<close>.
\<close>

section \<open>State\<close>

record playback_camera =
  pbKey :: jsstring
  pbName :: jsstring
  pbRegistered :: bool

text \<open>Of a registered camera the names of its streams; an output is for recording or not.\<close>

record recorded_camera =
  regStream :: jsstring
  regRecording :: "jsstring option"
  regOutputs :: "(bool \<times> jsstring) list"

record browser_request =
  rqId :: jsstring
  rqSegment :: int
  rqCamera :: int
  rqHint :: jsstring
  rqAt :: rat

record recording_browser =
  rbActive :: bool
  rbRequest :: "browser_request option"
  rbCameras :: "playback_camera list"
  rbRegistered :: "recorded_camera list"
  rbDate :: jsstring
  rbDay :: "int \<times> int"                         \<comment> \<open>\<open>dayRange\<close>\<close>
  rbTime :: jsstring
  rbViewport :: timeline_viewport
  rbKey :: jsstring
  rbSegment :: "int option"
  rbListOpen :: bool
  rbFullscreen :: bool
  rbPending :: "(jsstring \<times> rat) option"
  rbZoom :: video_viewport
  rbHandled :: "jsstring option"
  rbPreserve :: bool
  rbPlayback :: workspace
  rbFullscreenCalls :: "fullscreen_call list"

definition day_viewport :: "int \<times> int \<Rightarrow> timeline_viewport" where
  "day_viewport d = \<lparr>fromMs = of_int (fst d), toMs = of_int (snd d)\<rparr>"

definition no_zoom :: video_viewport where "no_zoom = \<lparr>scale = 1, tx = 0, ty = 0\<rparr>"

definition initial_browser :: "int \<Rightarrow> recording_browser" where
  "initial_browser now =
     (let day = kstDayRange now (formatKstDate now)
      in \<lparr>rbActive = True, rbRequest = None, rbCameras = [], rbRegistered = [], rbDate = formatKstDate now, rbDay = day,
          rbTime = formatKstTime now, rbViewport = day_viewport day, rbKey = [], rbSegment = None, rbListOpen = False,
          rbFullscreen = False, rbPending = None, rbZoom = no_zoom, rbHandled = None, rbPreserve = False,
          rbPlayback = new_workspace PlaybackMode None (of_int now), rbFullscreenCalls = []\<rparr>)"

text \<open>\<open>dayRange\<close> is computed again when the date changes.\<close>

definition set_date :: "int \<Rightarrow> jsstring \<Rightarrow> recording_browser \<Rightarrow> recording_browser" where
  "set_date now d s = s\<lparr>rbDate := d, rbDay := (if d = rbDate s then rbDay s else kstDayRange now d)\<rparr>"

section \<open>Effects\<close>

definition records_hint :: "jsstring \<Rightarrow> recorded_camera \<Rightarrow> bool" where
  "records_hint h c \<longleftrightarrow> regStream c = h \<or> regRecording c = Some h \<or> (True, h) \<in> set (regOutputs c)"

definition find_key :: "playback_camera list \<Rightarrow> jsstring \<Rightarrow> playback_camera option" where
  "find_key cs k = find (\<lambda>c. pbKey c = k) cs"

definition cameraForRequest :: "playback_camera list \<Rightarrow> recorded_camera list \<Rightarrow> browser_request \<Rightarrow> playback_camera option" where
  "cameraForRequest cs regs rq =
     (case Option.bind (find (records_hint (rqHint rq)) regs) (\<lambda>c. find_key cs (regStream c)) of
        Some c \<Rightarrow> Some c
      | None \<Rightarrow> (case find_key cs (rqHint rq) of Some c \<Rightarrow> Some c | None \<Rightarrow> find_key cs (js ''camera:'' @ decimal (rqCamera rq))))"

definition request_effect :: "int \<Rightarrow> recording_browser \<Rightarrow> recording_browser \<Rightarrow> recording_browser" where
  "request_effect now r s =
     (case rbRequest r of
        None \<Rightarrow> s
      | Some rq \<Rightarrow>
          if rbHandled s = Some (rqId rq) \<or> rbCameras r = [] then s
          else (case cameraForRequest (rbCameras r) (rbRegistered r) rq of
                  None \<Rightarrow> s
                | Some c \<Rightarrow> (set_date now (date_of_ms (rqAt rq)) s)
                    \<lparr>rbHandled := Some (rqId rq), rbPreserve := True, rbPending := Some (pbKey c, rqAt rq), rbKey := pbKey c,
                     rbSegment := Some (rqSegment rq), rbTime := time_of_ms (rqAt rq), rbListOpen := False\<rparr>))"

definition pending_effect :: "recording_browser \<Rightarrow> recording_browser \<Rightarrow> recording_browser" where
  "pending_effect r s =
     (case rbPending r of
        None \<Rightarrow> s
      | Some (k, t) \<Rightarrow> if k \<noteq> rbKey r then s else s\<lparr>rbPlayback := seek (Num t) (Some True) (rbPlayback s), rbPending := None\<rparr>)"

definition default_effect :: "recording_browser \<Rightarrow> recording_browser \<Rightarrow> recording_browser" where
  "default_effect r s =
     (if rbKey r \<noteq> [] \<or> rbRequest r \<noteq> None then s else case rbCameras r of [] \<Rightarrow> s | c # _ \<Rightarrow> s\<lparr>rbKey := pbKey c\<rparr>)"

definition day_effect :: "recording_browser \<Rightarrow> recording_browser \<Rightarrow> recording_browser" where
  "day_effect r s =
     (let s1 = s\<lparr>rbViewport := day_viewport (rbDay r), rbZoom := no_zoom\<rparr>
      in if rbPreserve s1 then s1\<lparr>rbPreserve := False\<rparr> else s1\<lparr>rbSegment := None\<rparr>)"

definition inactive_effect :: "recording_browser \<Rightarrow> recording_browser \<Rightarrow> recording_browser" where
  "inactive_effect r s = (if rbActive r then s else s\<lparr>rbPlayback := setMuted True (pause (rbPlayback s))\<rparr>)"

definition browser_keys :: "recording_browser \<Rightarrow> jsstring list" where
  "browser_keys r = (if rbKey r \<noteq> [] then [rbKey r] else [])"

text \<open>The commit of a render \<open>r\<close>, after that of \<open>before\<close>; without it the page was just mounted.\<close>

definition dep_changed :: "(recording_browser \<Rightarrow> 'a) \<Rightarrow> recording_browser option \<Rightarrow> recording_browser \<Rightarrow> bool" where
  "dep_changed f before r \<longleftrightarrow> (case before of None \<Rightarrow> True | Some b \<Rightarrow> f b \<noteq> f r)"

definition browser_commit :: "int \<Rightarrow> recording_browser option \<Rightarrow> recording_browser \<Rightarrow> recording_browser" where
  "browser_commit now before r =
     (let s1 = r\<lparr>rbPlayback := keys_changed (browser_keys r) (rbPlayback r)\<rparr>;
          s2 = (if dep_changed rbActive before r then inactive_effect r s1 else s1);
          s3 = (if dep_changed (\<lambda>b. (rbCameras b, rbRegistered b, rbRequest b)) before r then request_effect now r s2 else s2);
          s4 = (if dep_changed (\<lambda>b. (rbPending b, rbKey b)) before r then pending_effect r s3 else s3);
          s5 = (if dep_changed (\<lambda>b. (rbCameras b, rbRequest b, rbKey b)) before r then default_effect r s4 else s4)
      in if dep_changed (\<lambda>b. (rbDate b, rbKey b)) before r then day_effect r s5 else s5)"

definition browser_settle :: "int \<Rightarrow> recording_browser option \<Rightarrow> recording_browser \<Rightarrow> recording_browser" where
  "browser_settle now before r =
     (let r1 = browser_commit now before r; r2 = browser_commit now (Some r) r1 in browser_commit now (Some r1) r2)"

text \<open>The page as it is mounted, with the lists that are cached.\<close>

definition mounted_browser :: "int \<Rightarrow> playback_camera list \<Rightarrow> recorded_camera list \<Rightarrow> recording_browser" where
  "mounted_browser now cs regs = browser_settle now None ((initial_browser now)\<lparr>rbCameras := cs, rbRegistered := regs\<rparr>)"

section \<open>Inputs\<close>

text \<open>The list of cameras offers those that exist, and the time axis is disabled without a camera. What the videos,
  the lookups and the clock of the playback workspace do arrives as \<open>BrowserPlayback\<close>; the keys are the page's own.
  Of \<open>PressFullscreen\<close> the arguments say whether the viewer's bridge is there and whether the document has a full
  screen element.\<close>

datatype browser_input =
  BrowserProps bool "browser_request option"
| PlaybackCameras "playback_camera list"
| RegisteredCameras "recorded_camera list"
| ChooseCamera jsstring
| ChooseDate jsstring
| TypeTime jsstring
| SubmitTime
| SeekTimeline rat
| MoveViewport timeline_viewport
| ChooseSegment int rat
| OpenList | CloseList
| ZoomVideo video_viewport
| BrowserControl playback_control
| PressFullscreen bool bool
| FullscreenShown bool
| BrowserPlayback playback_input

fun browser_step :: "int \<Rightarrow> browser_input \<Rightarrow> recording_browser \<Rightarrow> recording_browser" where
  "browser_step now (BrowserProps a rq) s = s\<lparr>rbActive := a, rbRequest := rq\<rparr>"
| "browser_step now (PlaybackCameras cs) s = s\<lparr>rbCameras := cs\<rparr>"
| "browser_step now (RegisteredCameras cs) s = s\<lparr>rbRegistered := cs\<rparr>"
| "browser_step now (ChooseCamera k) s = (if find_key (rbCameras s) k = None then s else s\<lparr>rbKey := k, rbListOpen := False\<rparr>)"
| "browser_step now (ChooseDate d) s = (if d \<noteq> [] then set_date now d s else s)"
| "browser_step now (TypeTime v) s = s\<lparr>rbTime := v\<rparr>"
| "browser_step now SubmitTime s =
     (case parseKstDateTime (rbDate s) (rbTime s) of
        Some t \<Rightarrow> if rbKey s \<noteq> [] then s\<lparr>rbPlayback := seek (Num (of_int t)) None (rbPlayback s)\<rparr> else s
      | None \<Rightarrow> s)"
| "browser_step now (SeekTimeline t) s =
     (if rbKey s = [] then s else s\<lparr>rbTime := time_of_ms t, rbPlayback := seek (Num t) None (rbPlayback s)\<rparr>)"
| "browser_step now (MoveViewport v) s = s\<lparr>rbViewport := v\<rparr>"
| "browser_step now (ChooseSegment i t) s =
     s\<lparr>rbSegment := Some i, rbTime := time_of_ms t, rbPlayback := seek (Num t) (Some True) (rbPlayback s), rbListOpen := False\<rparr>"
| "browser_step now OpenList s = s\<lparr>rbListOpen := True\<rparr>"
| "browser_step now CloseList s = s\<lparr>rbListOpen := False\<rparr>"
| "browser_step now (ZoomVideo v) s = s\<lparr>rbZoom := v\<rparr>"
| "browser_step now (BrowserControl c) s = s\<lparr>rbPlayback := press_control None c (rbPlayback s)\<rparr>"
| "browser_step now (PressFullscreen native element) s =
     (if controls_active (rbPlayback s)
      then s\<lparr>rbFullscreenCalls := rbFullscreenCalls s @ [toggleFullscreen native (rbFullscreen s) element]\<rparr> else s)"
| "browser_step now (FullscreenShown b) s = s\<lparr>rbFullscreen := b\<rparr>"
| "browser_step now (BrowserPlayback i) s =
     (case i of KeysChanged _ \<Rightarrow> s | _ \<Rightarrow> s\<lparr>rbPlayback := playback_exec i (rbPlayback s)\<rparr>)"

definition browser_exec :: "int \<Rightarrow> browser_input \<Rightarrow> recording_browser \<Rightarrow> recording_browser" where
  "browser_exec now i s = browser_settle now (Some s) (browser_step now i s)"

definition browser_run :: "(int \<times> browser_input) list \<Rightarrow> recording_browser \<Rightarrow> recording_browser" where
  "browser_run ins s = fold (\<lambda>(now, i). browser_exec now i) ins s"

section \<open>The list of segments\<close>

definition js_seconds :: "rat \<Rightarrow> rat \<Rightarrow> int" where
  "js_seconds a b = max 0 \<lfloor>(b - a) / 1000 + 1 / 2\<rfloor>"

text \<open>\<open>formatDuration\<close>: minutes and seconds, with the Korean units.\<close>

definition formatDuration :: "rat \<Rightarrow> rat \<Rightarrow> jsstring" where
  "formatDuration a b =
     (let seconds = js_seconds a b; minutes = seconds div 60; rest = seconds mod 60
      in if minutes > 0 then decimal minutes @ [0xBD84, 0x20] @ decimal rest @ [0xCD08] else decimal rest @ [0xCD08])"

definition formatKstRange :: "rat \<Rightarrow> rat \<Rightarrow> jsstring" where
  "formatKstRange a b = time_of_ms a @ [0x20, 0x2013, 0x20] @ time_of_ms b"

definition playbackStateLabel :: "jsstring \<Rightarrow> jsstring" where
  "playbackStateLabel st =
     (if st = js ''recording'' then [0xB179, 0xD654, 0x20, 0xC911] else if st = js ''finalizing'' then [0xB9C8, 0xBB34, 0xB9AC]
      else [0xC644, 0xB8CC])"

end
