(* ===== verification/RecordingsPage.thy ===== *)
theory RecordingsPage
  imports RecordingBrowser
begin

text \<open>
  The page of the recordings, \<open>web/src/pages/RecordingsPage.tsx\<close> with the panels under \<open>pages/recordings\<close>: the
  recording browser in one tab, the management of the recordings in the other. A mutation that is in flight is
  part of the state of its panel and its answer an input.
\<close>

section \<open>\<open>recordingUtils.ts\<close> and \<open>basePath.ts\<close>\<close>

text \<open>\<open>toFixed\<close> of a number that is not negative.\<close>

definition to_fixed :: "nat \<Rightarrow> rat \<Rightarrow> jsstring" where
  "to_fixed d x =
     (let n = \<lfloor>x * 10 ^ d + 1 / 2\<rfloor>
      in if d = 0 then decimal n else decimal (n div 10 ^ d) @ 0x2E # digits_of d (nat (n mod 10 ^ d)))"

text \<open>The loop of \<open>formatBytes\<close>; the first argument counts the units that are left.\<close>

fun scale_unit :: "nat \<Rightarrow> rat \<Rightarrow> nat \<Rightarrow> rat \<times> nat" where
  "scale_unit 0 v u = (v, u)"
| "scale_unit (Suc k) v u = (if v \<ge> 1024 then scale_unit k (v / 1024) (Suc u) else (v, u))"

definition byte_units :: "jsstring list" where
  "byte_units = [js ''B'', js ''KB'', js ''MB'', js ''GB'', js ''TB'']"

definition formatBytes :: "jsnum option \<Rightarrow> jsstring" where
  "formatBytes b =
     (case b of
        Some (Num x) \<Rightarrow>
          if x \<le> 0 then js ''0 B''
          else (let (v, u) = scale_unit 4 x 0 in to_fixed (if v \<ge> 10 \<or> u = 0 then 0 else 1) v @ 0x20 # byte_units ! u)
      | _ \<Rightarrow> js ''0 B'')"

text \<open>\<open>formatDuration\<close>, in seconds; without an end the recording goes on.\<close>

definition segment_duration :: "rat \<Rightarrow> rat option \<Rightarrow> jsstring" where
  "segment_duration start finish =
     (let going_on = [0xC9C4, 0xD589, 0x20, 0xC911]
      in case finish of
           None \<Rightarrow> going_on
         | Some e \<Rightarrow>
             if e = 0 \<or> e \<le> start then going_on
             else (let seconds = \<lfloor>e - start + 1 / 2\<rfloor>
                   in decimal (seconds div 60) @ [0xBD84, 0x20] @ decimal (seconds mod 60) @ [0xCD08]))"

text \<open>\<open>base\<close> is \<open>appBasePath\<close>, which the build sets.\<close>

definition slash :: jschar where "slash = 0x2F"

definition withAppBase :: "jsstring \<Rightarrow> jsstring \<Rightarrow> jsstring" where
  "withAppBase base path =
     (if base = [] \<or> base = [slash] then path else base @ (if starts_with path [slash] then path else slash # path))"

definition safeSegmentUrl :: "jsstring \<Rightarrow> jsstring option \<Rightarrow> int \<Rightarrow> jsstring \<Rightarrow> jsstring option" where
  "safeSegmentUrl base url i action =
     (let expected = js ''/api/recordings/segments/'' @ decimal i @ slash # action
      in if url = Some expected then Some (withAppBase base expected) else None)"

section \<open>Recordings in a list\<close>

record recording_segment =
  sgId :: int
  sgCamera :: int
  sgStream :: jsstring
  sgStart :: rat                                \<comment> \<open>\<open>ts_start\<close>, in seconds\<close>
  sgStatus :: jsstring

definition playable :: "recording_segment \<Rightarrow> bool" where
  "playable g \<longleftrightarrow> sgStatus g = js ''ready'' \<or> sgStatus g = js ''recording'' \<or> sgStatus g = js ''finalizing''"

definition segment_request :: "int \<Rightarrow> recording_segment \<Rightarrow> browser_request" where
  "segment_request now g =
     \<lparr>rqId = decimal (sgId g) @ colon # decimal now, rqSegment = sgId g, rqCamera = sgCamera g, rqHint = sgStream g,
      rqAt = sgStart g * 1000\<rparr>"

record segments_panel =
  streamFilter :: jsstring
  statusFilter :: jsstring
  fromFilter :: jsstring
  toFilter :: jsstring
  limitFilter :: int
  selectedSegmentId :: "int option"
  armedDeleteId :: "int option"
  deleteInFlight :: "int option"
  deleteError :: jsstring
  deleteSuccess :: bool
  deletedIds :: "int list"                      \<comment> \<open>the deletions that the server has confirmed\<close>

definition new_segments_panel :: segments_panel where
  "new_segments_panel =
     \<lparr>streamFilter = [], statusFilter = [], fromFilter = [], toFilter = [], limitFilter = 200, selectedSegmentId = None,
      armedDeleteId = None, deleteInFlight = None, deleteError = [], deleteSuccess = False, deletedIds = []\<rparr>"

record segment_filter =
  sfStream :: "jsstring option"
  sfStatus :: "jsstring list option"
  sfFrom :: "jsstring option"
  sfTo :: "jsstring option"
  sfLimit :: int

text \<open>\<open>isoTime\<close> reads a local time and writes it as \<open>toISOString\<close> does, if it is one; it depends on the zone of the
  computer.\<close>

definition toSegmentTimeFilter :: "(jsstring \<Rightarrow> jsstring option) \<Rightarrow> jsstring \<Rightarrow> jsstring option" where
  "toSegmentTimeFilter isoTime v = (if v = [] then None else isoTime v)"

definition segmentFilter :: "(jsstring \<Rightarrow> jsstring option) \<Rightarrow> segments_panel \<Rightarrow> segment_filter" where
  "segmentFilter isoTime p =
     \<lparr>sfStream = (if streamFilter p = [] then None else Some (streamFilter p)),
      sfStatus = (if statusFilter p = [] then None else Some [statusFilter p]),
      sfFrom = toSegmentTimeFilter isoTime (fromFilter p), sfTo = toSegmentTimeFilter isoTime (toFilter p), sfLimit = limitFilter p\<rparr>"

datatype segments_input =
  FilterStream jsstring | FilterStatus jsstring | FilterFrom jsstring | FilterTo jsstring | FilterLimit int
| SelectSegment "int option"
| PressDelete int
| CancelDelete
| DeleteAnswered "jsstring option"              \<comment> \<open>the message of a failure\<close>

text \<open>The buttons are disabled while a deletion is in flight.\<close>

definition deleteSelectedSegment :: "int \<Rightarrow> segments_panel \<Rightarrow> segments_panel" where
  "deleteSelectedSegment i p =
     (if deleteInFlight p \<noteq> None then p
      else if armedDeleteId p \<noteq> Some i then p\<lparr>armedDeleteId := Some i, deleteError := [], deleteSuccess := False\<rparr>
      else p\<lparr>deleteInFlight := Some i\<rparr>)"

definition delete_answered :: "jsstring option \<Rightarrow> segments_panel \<Rightarrow> segments_panel" where
  "delete_answered failure p =
     (case deleteInFlight p of
        None \<Rightarrow> p
      | Some i \<Rightarrow>
          (case failure of
             Some m \<Rightarrow> p\<lparr>deleteInFlight := None, deleteError := m, deleteSuccess := False\<rparr>
           | None \<Rightarrow> p\<lparr>deleteInFlight := None, armedDeleteId := None,
                       selectedSegmentId := (if selectedSegmentId p = Some i then None else selectedSegmentId p),
                       deleteError := [], deleteSuccess := True, deletedIds := deletedIds p @ [i]\<rparr>))"

fun segments_step :: "segments_input \<Rightarrow> segments_panel \<Rightarrow> segments_panel" where
  "segments_step (FilterStream v) p = p\<lparr>streamFilter := v\<rparr>"
| "segments_step (FilterStatus v) p = p\<lparr>statusFilter := v\<rparr>"
| "segments_step (FilterFrom v) p = p\<lparr>fromFilter := v\<rparr>"
| "segments_step (FilterTo v) p = p\<lparr>toFilter := v\<rparr>"
| "segments_step (FilterLimit n) p = p\<lparr>limitFilter := n\<rparr>"
| "segments_step (SelectSegment i) p = p\<lparr>selectedSegmentId := i\<rparr>"
| "segments_step (PressDelete i) p = deleteSelectedSegment i p"
| "segments_step CancelDelete p = (if deleteInFlight p \<noteq> None then p else p\<lparr>armedDeleteId := None\<rparr>)"
| "segments_step (DeleteAnswered f) p = delete_answered f p"

section \<open>Storage\<close>

definition bytesToGB :: "int option \<Rightarrow> rat" where
  "bytesToGB b = of_int (case b of None \<Rightarrow> 0 | Some n \<Rightarrow> n) / 1024 / 1024 / 1024"

definition default_manual_gb :: "int option \<Rightarrow> jsstring" where
  "default_manual_gb b = (if bytesToGB b > 0 then to_fixed 2 (bytesToGB b) else js ''0.30'')"

record storage_panel =
  lastSyncedManualGB :: jsstring
  manualGB :: jsstring
  cleanupArmed :: bool
  cleanupPending :: bool
  cleanupCalls :: "jsnum list"

definition new_storage_panel :: "int option \<Rightarrow> storage_panel" where
  "new_storage_panel b =
     \<lparr>lastSyncedManualGB = default_manual_gb b, manualGB = default_manual_gb b, cleanupArmed = False, cleanupPending = False,
      cleanupCalls = []\<rparr>"

text \<open>\<open>Math.max(0, Number(manualGB) * 1024 * 1024 * 1024)\<close> and \<open>Math.floor\<close>.\<close>

fun manualBytes :: "jsnum \<Rightarrow> jsnum" where
  "manualBytes (Num x) = Num (max 0 (x * 1024 * 1024 * 1024))"
| "manualBytes NegInf = Num 0"
| "manualBytes x = x"

fun floor_num :: "jsnum \<Rightarrow> jsnum" where
  "floor_num (Num x) = Num (of_int \<lfloor>x\<rfloor>)"
| "floor_num x = x"

definition panel_bytes :: "storage_panel \<Rightarrow> jsnum" where
  "panel_bytes p = manualBytes (number_of_text (manualGB p))"

text \<open>\<open>manualBytes <= 0\<close> is false of what is not a number.\<close>

definition cleanup_disabled :: "storage_panel \<Rightarrow> bool" where
  "cleanup_disabled p \<longleftrightarrow> cleanupPending p \<or> (case panel_bytes p of Num x \<Rightarrow> x \<le> 0 | _ \<Rightarrow> False)"

definition runCleanup :: "storage_panel \<Rightarrow> storage_panel" where
  "runCleanup p =
     (if cleanup_disabled p then p
      else if \<not> cleanupArmed p then p\<lparr>cleanupArmed := True\<rparr>
      else p\<lparr>cleanupPending := True, cleanupCalls := cleanupCalls p @ [floor_num (panel_bytes p)]\<rparr>)"

text \<open>The effect on a new limit of the storage.\<close>

definition limit_arrives :: "int option \<Rightarrow> storage_panel \<Rightarrow> storage_panel" where
  "limit_arrives b p =
     (if default_manual_gb b = lastSyncedManualGB p then p
      else p\<lparr>lastSyncedManualGB := default_manual_gb b,
             manualGB := (if manualGB p = lastSyncedManualGB p then default_manual_gb b else manualGB p)\<rparr>)"

datatype storage_input = StorageArrives "int option" | TypeManualGB jsstring | PressCleanup | CancelCleanup | CleanupSettled

fun storage_step :: "storage_input \<Rightarrow> storage_panel \<Rightarrow> storage_panel" where
  "storage_step (StorageArrives b) p = limit_arrives b p"
| "storage_step (TypeManualGB v) p = p\<lparr>manualGB := v\<rparr>"
| "storage_step PressCleanup p = runCleanup p"
| "storage_step CancelCleanup p = (if cleanupPending p then p else p\<lparr>cleanupArmed := False\<rparr>)"
| "storage_step CleanupSettled p = (if cleanupPending p then p\<lparr>cleanupPending := False, cleanupArmed := False\<rparr> else p)"

definition storage_run :: "storage_input list \<Rightarrow> storage_panel \<Rightarrow> storage_panel" where
  "storage_run ins p = fold storage_step ins p"

section \<open>Recorders\<close>

datatype recorder_message =
  NoMessage | StartRefused jsstring | StartedAll | StartedStream jsstring | StopRefused jsstring | StoppedAll | StoppedStream jsstring

datatype recorder_call = StartRecorder "jsstring option" | StopRecorder "jsstring option"

record workers_panel =
  workerMessage :: recorder_message
  workerCall :: "recorder_call option"          \<comment> \<open>in flight\<close>
  workerCalls :: "recorder_call list"

definition new_workers_panel :: workers_panel where
  "new_workers_panel = \<lparr>workerMessage = NoMessage, workerCall = None, workerCalls = []\<rparr>"

text \<open>A recorder whose state is \<open>running\<close> can be stopped, another one started; nothing while a call is in flight.\<close>

datatype workers_input =
  PressStart "(jsstring \<times> jsstring) option"     \<comment> \<open>stream and state of the recorder\<close>
| PressStop "(jsstring \<times> jsstring) option"
| RecorderAnswered "jsstring option"

definition stream_input :: "(jsstring \<times> jsstring) option \<Rightarrow> jsstring option" where
  "stream_input w = (case w of None \<Rightarrow> None | Some (n, _) \<Rightarrow> if n = [] then None else Some n)"

definition call_recorder :: "recorder_call \<Rightarrow> workers_panel \<Rightarrow> workers_panel" where
  "call_recorder c p = p\<lparr>workerCall := Some c, workerCalls := workerCalls p @ [c]\<rparr>"

fun answer_message :: "recorder_call \<Rightarrow> jsstring option \<Rightarrow> recorder_message" where
  "answer_message (StartRecorder _) (Some m) = StartRefused m"
| "answer_message (StartRecorder None) None = StartedAll"
| "answer_message (StartRecorder (Some n)) None = StartedStream n"
| "answer_message (StopRecorder _) (Some m) = StopRefused m"
| "answer_message (StopRecorder None) None = StoppedAll"
| "answer_message (StopRecorder (Some n)) None = StoppedStream n"

definition is_running :: "(jsstring \<times> jsstring) \<Rightarrow> bool" where "is_running w \<longleftrightarrow> snd w = js ''running''"

fun workers_step :: "workers_input \<Rightarrow> workers_panel \<Rightarrow> workers_panel" where
  "workers_step (PressStart w) p =
     (if workerCall p \<noteq> None \<or> (case w of None \<Rightarrow> False | Some x \<Rightarrow> is_running x) then p
      else call_recorder (StartRecorder (stream_input w)) p)"
| "workers_step (PressStop w) p =
     (if workerCall p \<noteq> None \<or> (case w of None \<Rightarrow> False | Some x \<Rightarrow> \<not> is_running x) then p
      else call_recorder (StopRecorder (stream_input w)) p)"
| "workers_step (RecorderAnswered f) p =
     (case workerCall p of None \<Rightarrow> p | Some c \<Rightarrow> p\<lparr>workerCall := None, workerMessage := answer_message c f\<rparr>)"

section \<open>The page\<close>

datatype recordings_tab = PlaybackTab | ManagementTab

record recordings_page =
  activeTab :: recordings_tab
  playbackRequest :: "browser_request option"
  pageBrowser :: recording_browser
  pageSegments :: segments_panel
  pageStorage :: storage_panel
  pageWorkers :: workers_panel

definition mounted_recordings :: "int \<Rightarrow> playback_camera list \<Rightarrow> recorded_camera list \<Rightarrow> int option \<Rightarrow> recordings_page" where
  "mounted_recordings now cs regs b =
     \<lparr>activeTab = PlaybackTab, playbackRequest = None, pageBrowser = mounted_browser now cs regs,
      pageSegments = new_segments_panel, pageStorage = new_storage_panel b, pageWorkers = new_workers_panel\<rparr>"

text \<open>The browser is rendered with the tab and the request.\<close>

definition show_browser :: "int \<Rightarrow> recordings_page \<Rightarrow> recordings_page" where
  "show_browser now s =
     s\<lparr>pageBrowser := browser_exec now (BrowserProps (activeTab s = PlaybackTab) (playbackRequest s)) (pageBrowser s)\<rparr>"

datatype recordings_input =
  OpenTab recordings_tab
| PlaySegment recording_segment
| InBrowser browser_input
| InSegments segments_input
| InStorage storage_input
| InWorkers workers_input

definition playSegment :: "int \<Rightarrow> recording_segment \<Rightarrow> recordings_page \<Rightarrow> recordings_page" where
  "playSegment now g s =
     (if playable g then show_browser now (s\<lparr>playbackRequest := Some (segment_request now g), activeTab := PlaybackTab\<rparr>) else s)"

fun recordings_exec :: "int \<Rightarrow> recordings_input \<Rightarrow> recordings_page \<Rightarrow> recordings_page" where
  "recordings_exec now (OpenTab t) s = show_browser now (s\<lparr>activeTab := t\<rparr>)"
| "recordings_exec now (PlaySegment g) s = playSegment now g s"
| "recordings_exec now (InBrowser i) s =
     (case i of BrowserProps _ _ \<Rightarrow> s | _ \<Rightarrow> s\<lparr>pageBrowser := browser_exec now i (pageBrowser s)\<rparr>)"
| "recordings_exec now (InSegments i) s = s\<lparr>pageSegments := segments_step i (pageSegments s)\<rparr>"
| "recordings_exec now (InStorage i) s = s\<lparr>pageStorage := storage_step i (pageStorage s)\<rparr>"
| "recordings_exec now (InWorkers i) s = s\<lparr>pageWorkers := workers_step i (pageWorkers s)\<rparr>"

definition recordings_run :: "(int \<times> recordings_input) list \<Rightarrow> recordings_page \<Rightarrow> recordings_page" where
  "recordings_run ins s = fold (\<lambda>(now, i). recordings_exec now i) ins s"

end
