(* ===== verification/RecordingBrowserProps.thy ===== *)
theory RecordingBrowserProps
  imports RecordingBrowser PlaybackProps
begin

text \<open>
  The recording browser: a request of the page is played once, and what the fields of date and time say.
\<close>

section \<open>Frames\<close>

text \<open>When an effect has nothing to do.\<close>

lemma inactive_idle: "rbActive r \<Longrightarrow> inactive_effect r s = s"
  by (simp add: inactive_effect_def)

lemma default_idle: "rbRequest r \<noteq> None \<Longrightarrow> default_effect r s = s"
  by (simp add: default_effect_def)

lemma pending_idle: "rbPending r = None \<Longrightarrow> pending_effect r s = s"
  by (simp add: pending_effect_def)

lemma request_idle: "rbRequest r = Some rq \<Longrightarrow> rbHandled s = Some (rqId rq) \<Longrightarrow> request_effect now r s = s"
  by (simp add: request_effect_def)

lemmas idle = inactive_idle default_idle pending_idle request_idle

lemma request_acts:
  assumes "rbRequest r = Some rq" "rbHandled s \<noteq> Some (rqId rq)" "rbCameras r \<noteq> []"
    "cameraForRequest (rbCameras r) (rbRegistered r) rq = Some c"
  shows "request_effect now r s = (set_date now (date_of_ms (rqAt rq)) s)
      \<lparr>rbHandled := Some (rqId rq), rbPreserve := True, rbPending := Some (pbKey c, rqAt rq), rbKey := pbKey c,
       rbSegment := Some (rqSegment rq), rbTime := time_of_ms (rqAt rq), rbListOpen := False\<rparr>"
  using assms by (simp add: request_effect_def)

lemma date_fields [simp]:
  "rbDate (set_date now d s) = d" "rbActive (set_date now d s) = rbActive s" "rbRequest (set_date now d s) = rbRequest s"
  "rbCameras (set_date now d s) = rbCameras s" "rbRegistered (set_date now d s) = rbRegistered s"
  "rbPlayback (set_date now d s) = rbPlayback s"
  by (simp_all add: set_date_def)

text \<open>The effects change neither the lists nor the request.\<close>

definition given_lists :: "recording_browser \<Rightarrow> playback_camera list \<times> recorded_camera list \<times> browser_request option" where
  "given_lists s = (rbCameras s, rbRegistered s, rbRequest s)"

lemma effects_given_lists [simp]:
  "given_lists (default_effect r s) = given_lists s" "given_lists (day_effect r s) = given_lists s" "given_lists (inactive_effect r s) = given_lists s"
  "given_lists (request_effect now r s) = given_lists s" "given_lists (pending_effect r s) = given_lists s" "given_lists (s\<lparr>rbPlayback := w\<rparr>) = given_lists s"
  by (simp_all add: given_lists_def default_effect_def day_effect_def inactive_effect_def request_effect_def pending_effect_def
      set_date_def Let_def split: list.split option.split)

lemma commit_given_lists [simp]: "given_lists (browser_commit now b r) = given_lists r"
  by (simp add: browser_commit_def Let_def)

section \<open>A request\<close>

text \<open>Nothing waits: the keys of the playback workspace are the page's, and what was requested is done.\<close>

definition request_shown :: "browser_request \<Rightarrow> playback_camera \<Rightarrow> recording_browser \<Rightarrow> bool" where
  "request_shown rq c s \<longleftrightarrow>
     rbKey s = pbKey c \<and> rbSegment s = Some (rqSegment rq) \<and> rbDate s = date_of_ms (rqAt rq) \<and> rbTime s = time_of_ms (rqAt rq)
     \<and> playheadMs (rbPlayback s) = js_round (rqAt rq) \<and> playing (rbPlayback s) \<and> \<not> rbListOpen s"

definition request_done :: "browser_request \<Rightarrow> recording_browser \<Rightarrow> bool" where
  "request_done rq s \<longleftrightarrow> rbActive s \<and> rbRequest s = Some rq \<and> rbHandled s = Some (rqId rq) \<and> rbPending s = None
     \<and> cameraKeys (rbPlayback s) = key_signature (browser_keys s)"

definition requested :: "int \<Rightarrow> browser_request \<Rightarrow> playback_camera \<Rightarrow> workspace \<Rightarrow> recording_browser \<Rightarrow> recording_browser" where
  "requested now rq c w s =
     (set_date now (date_of_ms (rqAt rq)) (s\<lparr>rbActive := True, rbRequest := Some rq, rbPlayback := w\<rparr>))
       \<lparr>rbHandled := Some (rqId rq), rbPreserve := True, rbPending := Some (pbKey c, rqAt rq), rbKey := pbKey c,
        rbSegment := Some (rqSegment rq), rbTime := time_of_ms (rqAt rq), rbListOpen := False\<rparr>"

lemma first_commit:
  assumes "rbRequest s \<noteq> Some rq" "rbHandled s \<noteq> Some (rqId rq)"
    and "cameraForRequest (rbCameras s) (rbRegistered s) rq = Some c" "rbCameras s \<noteq> []"
  shows "browser_commit now (Some s) (s\<lparr>rbActive := True, rbRequest := Some rq\<rparr>)
     = requested now rq c (keys_changed (browser_keys (s\<lparr>rbActive := True, rbRequest := Some rq\<rparr>)) (rbPlayback s)) s"
  using assms by (simp add: browser_commit_def dep_changed_def idle request_acts requested_def Let_def)

lemma day_keeps_request:
  assumes "rbPreserve s"
  shows "request_shown rq c (day_effect r s) = request_shown rq c s" "request_done rq (day_effect r s) = request_done rq s"
    "given_lists (day_effect r s) = given_lists s" "rbDate (day_effect r s) = rbDate s"
  using assms by (simp_all add: day_effect_def Let_def request_shown_def request_done_def given_lists_def browser_keys_def)

lemma second_commit:
  fixes s :: recording_browser and now :: int and rq :: browser_request and c :: playback_camera and w :: workspace
  assumes "rbPending s = None"
  defines "r1 \<equiv> requested now rq c w s"
  defines "r2 \<equiv> browser_commit now (Some (s\<lparr>rbActive := True, rbRequest := Some rq\<rparr>)) r1"
  shows "request_shown rq c r2 \<and> request_done rq r2 \<and> given_lists r2 = given_lists r1 \<and> rbDate r2 = rbDate r1"
proof -
  let ?r0 = "s\<lparr>rbActive := True, rbRequest := Some rq\<rparr>"
  let ?s = "r1\<lparr>rbPlayback := seek (Num (rqAt rq)) (Some True) (keys_changed (browser_keys r1) w), rbPending := None\<rparr>"
  have "r2 = (if (rbDate ?r0, rbKey ?r0) \<noteq> (rbDate r1, rbKey r1) then day_effect r1 ?s else ?s)"
    using assms(1) by (simp add: r2_def r1_def browser_commit_def dep_changed_def idle requested_def pending_effect_def Let_def)
  moreover have "request_shown rq c ?s \<and> request_done rq ?s \<and> given_lists ?s = given_lists r1 \<and> rbDate ?s = rbDate r1"
    by (simp add: request_shown_def request_done_def given_lists_def r1_def requested_def seek_shows keys_shows browser_keys_def)
  moreover have "rbPreserve ?s" by (simp add: r1_def requested_def)
  ultimately show ?thesis using day_keeps_request [of ?s] by (auto split: if_splits)
qed

lemma request_played:
  assumes "rbRequest s \<noteq> Some rq" "rbHandled s \<noteq> Some (rqId rq)" and rest: "rbPending s = None"
    and "cameraForRequest (rbCameras s) (rbRegistered s) rq = Some c" "rbCameras s \<noteq> []"
  shows "let t = browser_exec now (BrowserProps True (Some rq)) s in request_shown rq c t \<and> request_done rq t"
proof -
  let ?r0 = "s\<lparr>rbActive := True, rbRequest := Some rq\<rparr>"
  define r1 where "r1 = requested now rq c (keys_changed (browser_keys ?r0) (rbPlayback s)) s"
  define r2 where "r2 = browser_commit now (Some ?r0) r1"
  have shown: "request_shown rq c r2" "request_done rq r2" "given_lists r2 = given_lists r1" "rbDate r2 = rbDate r1"
    using second_commit [OF rest] unfolding r2_def r1_def by blast+
  have "rbKey r1 = rbKey r2" "rbActive r1 = rbActive r2" using shown(1,2) by (simp_all add: request_shown_def request_done_def r1_def requested_def)
  then have "browser_commit now (Some r1) r2 = r2"
    using shown by (simp add: request_done_def browser_commit_def dep_changed_def idle keys_changed_same Let_def given_lists_def)
  moreover have "browser_commit now (Some s) ?r0 = r1" using first_commit [OF assms(1,2,4,5)] by (simp add: r1_def)
  ultimately show ?thesis using shown by (simp add: browser_exec_def browser_settle_def Let_def r2_def)
qed

lemma done_is_at_rest:
  assumes "request_done rq s" and "rbActive b = rbActive s" "rbRequest b = rbRequest s" "rbPending b = None"
    "rbKey b = rbKey s" "rbDate b = rbDate s"
  shows "browser_commit now (Some b) s = s"
  using assms by (simp add: request_done_def browser_commit_def dep_changed_def idle keys_changed_same Let_def)

lemma lists_change_nothing_else:
  assumes "request_done rq s"
  shows "browser_exec now (PlaybackCameras cs) s = s\<lparr>rbCameras := cs\<rparr>"
    and "browser_exec now (RegisteredCameras rs) s = s\<lparr>rbRegistered := rs\<rparr>"
proof -
  have "request_done rq (s\<lparr>rbCameras := cs\<rparr>)" "request_done rq (s\<lparr>rbRegistered := rs\<rparr>)"
    using assms by (simp_all add: request_done_def browser_keys_def)
  note r = this [THEN done_is_at_rest]
  have "rbPending s = None" using assms by (simp add: request_done_def)
  then show "browser_exec now (PlaybackCameras cs) s = s\<lparr>rbCameras := cs\<rparr>"
    and "browser_exec now (RegisteredCameras rs) s = s\<lparr>rbRegistered := rs\<rparr>"
    by (simp_all add: browser_exec_def browser_settle_def r)
qed

text \<open>The answers of the two queries, as often as they come.\<close>

fun is_list_answer :: "browser_input \<Rightarrow> bool" where
  "is_list_answer (PlaybackCameras _) = True"
| "is_list_answer (RegisteredCameras _) = True"
| "is_list_answer _ = False"

lemma lists_keep_request:
  "request_shown rq c s \<and> request_done rq s \<Longrightarrow> list_all (\<lambda>i. is_list_answer (snd i)) ins
     \<Longrightarrow> request_shown rq c (browser_run ins s) \<and> request_done rq (browser_run ins s)"
proof (induction ins arbitrary: s)
  case (Cons i ins)
  obtain now a where i: "i = (now, a)" by (cases i)
  have "request_shown rq c (browser_exec now a s) \<and> request_done rq (browser_exec now a s)"
    using Cons.prems
    by (cases a) (simp_all add: i lists_change_nothing_else request_shown_def request_done_def browser_keys_def)
  with Cons show ?case by (simp add: browser_run_def i)
qed (simp add: browser_run_def)

section \<open>No wish to seek is left\<close>

definition good_wish :: "recording_browser \<Rightarrow> bool" where
  "good_wish s \<longleftrightarrow> (case rbPending s of None \<Rightarrow> True | Some (k, _) \<Rightarrow> rbKey s = k \<and> rbRequest s \<noteq> None)"

lemma wish_frames [simp]:
  "rbPending (default_effect r s) = rbPending s" "rbPending (day_effect r s) = rbPending s"
  "rbPending (inactive_effect r s) = rbPending s" "rbKey (day_effect r s) = rbKey s" "rbRequest (day_effect r s) = rbRequest s"
  "rbRequest (default_effect r s) = rbRequest s" "rbRequest (inactive_effect r s) = rbRequest s"
  by (simp_all add: default_effect_def day_effect_def inactive_effect_def Let_def split: list.split)

lemma request_wish: "rbPending s = None \<Longrightarrow> rbRequest s = rbRequest r \<Longrightarrow> good_wish (request_effect now r s)"
  by (auto simp: good_wish_def request_effect_def split: option.split)

lemma first_wish:
  assumes "rbPending r = None"
  shows "good_wish (browser_commit now b r)"
proof -
  define s1 where "s1 = r\<lparr>rbPlayback := keys_changed (browser_keys r) (rbPlayback r)\<rparr>"
  define s2 where "s2 = (if dep_changed rbActive b r then inactive_effect r s1 else s1)"
  define s3 where "s3 = (if dep_changed (\<lambda>b. (rbCameras b, rbRegistered b, rbRequest b)) b r then request_effect now r s2 else s2)"
  define s5 where "s5 = (if dep_changed (\<lambda>b. (rbCameras b, rbRequest b, rbKey b)) b r then default_effect r s3 else s3)"
  have "rbPending s2 = None \<and> rbRequest s2 = rbRequest r" using assms by (simp add: s2_def s1_def)
  then have "good_wish s3" using request_wish [of s2 r] by (simp add: s3_def) (simp add: good_wish_def)
  moreover have "rbRequest s3 = rbRequest r"
    using \<open>rbPending s2 = None \<and> rbRequest s2 = rbRequest r\<close> by (simp add: s3_def request_effect_def split: option.split)
  ultimately have "good_wish s5" by (cases "rbRequest r") (auto simp: s5_def good_wish_def idle split: option.splits)
  then have "good_wish (if dep_changed (\<lambda>b. (rbDate b, rbKey b)) b r then day_effect r s5 else s5)" by (auto simp: good_wish_def split: option.splits)
  then show ?thesis
    unfolding s5_def s3_def s2_def s1_def browser_commit_def Let_def pending_idle [OF assms] if_cancel .
qed

lemma next_wish:
  assumes "good_wish r" and "rbPending b = None" and "given_lists b = given_lists r"
  shows "rbPending (browser_commit now (Some b) r) = None"
  using assms by (auto simp: browser_commit_def Let_def dep_changed_def good_wish_def pending_effect_def given_lists_def split: option.splits)

lemma resting_wish: "rbPending r = None \<Longrightarrow> given_lists b = given_lists r \<Longrightarrow> rbPending (browser_commit now (Some b) r) = None"
  by (simp add: browser_commit_def Let_def dep_changed_def idle given_lists_def)

lemma settled_wish:
  assumes "rbPending r = None"
  shows "rbPending (browser_settle now b r) = None"
proof -
  define r1 where "r1 = browser_commit now b r"
  define r2 where "r2 = browser_commit now (Some r) r1"
  have "rbPending r2 = None" unfolding r2_def by (rule next_wish) (simp_all add: r1_def first_wish assms)
  then have "rbPending (browser_commit now (Some r1) r2) = None" by (rule resting_wish) (simp add: r2_def)
  then show ?thesis by (simp add: browser_settle_def Let_def r1_def [symmetric] r2_def [symmetric])
qed

lemma step_wish: "rbPending s = None \<Longrightarrow> rbPending (browser_step now i s) = None"
  by (cases i) (auto simp: set_date_def split: option.split playback_input.split)

lemma run_wish: "rbPending s = None \<Longrightarrow> rbPending (browser_run ins s) = None"
  unfolding browser_run_def
  by (induction ins arbitrary: s) (auto simp: browser_exec_def settled_wish step_wish split: prod.split)

lemma mounted_wish: "rbPending (mounted_browser now cs regs) = None"
  unfolding mounted_browser_def by (rule settled_wish) (simp add: initial_browser_def Let_def)

lemma settle_given: "given_lists (browser_settle now b r) = given_lists r"
  by (simp add: browser_settle_def Let_def)

lemma mounted_given: "given_lists (mounted_browser now cs regs) = (cs, regs, None)"
  by (simp add: mounted_browser_def settle_given) (simp add: given_lists_def initial_browser_def Let_def)

text \<open>Without a request none is handled.\<close>

lemma handled_frames [simp]:
  "rbHandled (default_effect r s) = rbHandled s" "rbHandled (day_effect r s) = rbHandled s"
  "rbHandled (inactive_effect r s) = rbHandled s" "rbHandled (pending_effect r s) = rbHandled s"
  by (simp_all add: default_effect_def day_effect_def inactive_effect_def pending_effect_def Let_def split: list.split option.split)

lemma commit_handled: "rbRequest r = None \<Longrightarrow> rbHandled (browser_commit now b r) = rbHandled r"
  by (simp add: browser_commit_def Let_def request_effect_def)

lemma commit_request [simp]: "rbRequest (browser_commit now b r) = rbRequest r"
  using commit_given_lists [of now b r] by (simp add: given_lists_def)

lemma mounted_handled: "rbHandled (mounted_browser now cs regs) = None"
  by (simp add: mounted_browser_def browser_settle_def Let_def commit_handled initial_browser_def)

section \<open>The fields of date and time\<close>

text \<open>A change of nothing but the text of the time and the playback is committed as it is, up to the keys.\<close>

lemma commit_same:
  assumes "rbActive b = rbActive r" "given_lists b = given_lists r" "rbPending b = rbPending r" "rbKey b = rbKey r" "rbDate b = rbDate r"
  shows "browser_commit now (Some b) r = r\<lparr>rbPlayback := keys_changed (browser_keys r) (rbPlayback r)\<rparr>"
  using assms by (simp add: browser_commit_def dep_changed_def given_lists_def)

lemma settle_same:
  assumes "rbActive b = rbActive r" "given_lists b = given_lists r" "rbPending b = rbPending r" "rbKey b = rbKey r" "rbDate b = rbDate r"
  shows "\<exists>w. browser_settle now (Some b) r = r\<lparr>rbPlayback := w\<rparr> \<and> playheadMs w = playheadMs (rbPlayback r)"
proof -
  let ?w1 = "keys_changed (browser_keys r) (rbPlayback r)"
  let ?w2 = "keys_changed (browser_keys r) ?w1"
  have "browser_commit now (Some b) r = r\<lparr>rbPlayback := ?w1\<rparr>" by (rule commit_same) (use assms in simp_all)
  moreover have "browser_commit now (Some r) (r\<lparr>rbPlayback := ?w1\<rparr>) = r\<lparr>rbPlayback := ?w2\<rparr>"
    by (subst commit_same) (simp_all add: browser_keys_def)
  moreover have "browser_commit now (Some (r\<lparr>rbPlayback := ?w1\<rparr>)) (r\<lparr>rbPlayback := ?w2\<rparr>)
      = r\<lparr>rbPlayback := keys_changed (browser_keys r) ?w2\<rparr>"
    by (subst commit_same) (simp_all add: browser_keys_def given_lists_def)
  ultimately have e: "browser_settle now (Some b) r = r\<lparr>rbPlayback := keys_changed (browser_keys r) ?w2\<rparr>"
    by (simp add: browser_settle_def Let_def)
  show ?thesis unfolding e by (intro exI conjI, rule refl) (simp add: keys_shows)
qed

text \<open>C29:
  the time field follows a seek on the axis, the date field does not. To submit the fields then seeks to the
  second of the time on the day that is browsed.
\<close>

theorem submitted_time_is_on_the_browsed_day:
  assumes "0 \<le> t" "kst_day t < DAYS" "0 \<le> d" "kst_day d < DAYS" and "rbDate s = formatKstDate d" "rbKey s \<noteq> []"
  shows "playheadMs (rbPlayback (browser_run [(n1, SeekTimeline (of_int t)), (n2, SubmitTime)] s))
       = of_int (t - t mod 1000 + (int (kst_day d) - int (kst_day t)) * DAY_MS)"
proof -
  let ?r = "s\<lparr>rbTime := formatKstTime t, rbPlayback := seek (Num (of_int t)) None (rbPlayback s)\<rparr>"
  have step: "browser_step n1 (SeekTimeline (of_int t)) s = ?r" using assms(6) by (simp add: time_of_ms_def trunc_rat_def)
  obtain w where s1: "browser_exec n1 (SeekTimeline (of_int t)) s = ?r\<lparr>rbPlayback := w\<rparr>"
    using settle_same [of s ?r n1] unfolding browser_exec_def step by (auto simp: given_lists_def)
  let ?at = "(int (kst_day d) - int EPOCH_DAY) * DAY_MS + int (kst_second t) * 1000 - KST_OFFSET"
  let ?q = "?r\<lparr>rbPlayback := seek (Num (of_int ?at)) None w\<rparr>"
  have "parseKstDateTime (formatKstDate d) (formatKstTime t) = Some ?at"
    using parse_formatted_date [OF assms(4)] parse_formatted_time [of t] by (simp add: parseKstDateTime_def formatKstTime_def Let_def)
  then have "browser_step n2 SubmitTime (?r\<lparr>rbPlayback := w\<rparr>) = ?q" using assms(5,6) by simp
  then have "playheadMs (rbPlayback (browser_exec n2 SubmitTime (?r\<lparr>rbPlayback := w\<rparr>))) = of_int ?at"
    using settle_same [of "?r\<lparr>rbPlayback := w\<rparr>" ?q n2] unfolding browser_exec_def by (auto simp: given_lists_def seek_shows simp del: of_int_diff of_int_add of_int_mult)
  moreover have "?at = t - t mod 1000 + (int (kst_day d) - int (kst_day t)) * DAY_MS"
    using kst_parts [OF assms(1)] by (simp add: algebra_simps)
  ultimately show ?thesis by (simp add: browser_run_def s1)
qed

theorem submitted_time_is_on_the_browsed_day_witness:
  "playheadMs (rbPlayback (browser_run [(0, SeekTimeline 1700000000000), (0, SubmitTime)]
     ((initial_browser 1700086400000)\<lparr>rbKey := js ''cam1''\<rparr>))) = 1700086400000"
proof -
  let ?s = "(initial_browser 1700086400000)\<lparr>rbKey := js ''cam1''\<rparr>"
  have day: "kst_day 1700000000000 = 739204" "kst_day 1700086400000 = 739205"
    by (simp_all add: kst_day_def KST_OFFSET_def DAY_MS_def EPOCH_DAY_def)
  have "rbDate ?s = formatKstDate 1700086400000" "rbKey ?s \<noteq> []" by (simp_all add: initial_browser_def Let_def)
  from submitted_time_is_on_the_browsed_day [OF _ _ _ _ this, of 1700000000000 0 0]
  show ?thesis by (simp add: day DAYS_def DAY_MS_def)
qed

end
