(* ===== verification/RecordingsPageProps.thy ===== *)
theory RecordingsPageProps
  imports RecordingsPage RecordingBrowserProps
begin

text \<open>The page of the recordings: what its buttons play, delete and clean up.\<close>

section \<open>To play a recording of the list\<close>

lemma exec_wish: "rbPending (pageBrowser s) = None \<Longrightarrow> rbPending (pageBrowser (recordings_exec now i s)) = None"
proof -
  assume "rbPending (pageBrowser s) = None"
  then have e: "rbPending (browser_exec now j (pageBrowser s)) = None" for j using run_wish [of _ "[(now, j)]"] by (simp add: browser_run_def)
  then show ?thesis
    using \<open>rbPending (pageBrowser s) = None\<close>
    by (cases i) (auto simp: show_browser_def playSegment_def split: browser_input.split)
qed

lemma reached_wish: "rbPending (pageBrowser (recordings_run ins (mounted_recordings now cs regs b))) = None"
proof -
  have "rbPending (pageBrowser s) = None \<Longrightarrow> rbPending (pageBrowser (recordings_run ins s)) = None" for s
    unfolding recordings_run_def by (induction ins arbitrary: s) (auto simp: exec_wish split: prod.split)
  then show ?thesis by (simp add: mounted_recordings_def mounted_wish)
qed

lemma found_in_cameras: "cameraForRequest cs regs rq = Some c \<Longrightarrow> cs \<noteq> []"
  by (auto simp: cameraForRequest_def find_key_def split: option.splits)

lemma answers_in_browser:
  "list_all (\<lambda>i. is_list_answer (snd i)) answers
     \<Longrightarrow> recordings_run (map (\<lambda>(n, i). (n, InBrowser i)) answers) s = s\<lparr>pageBrowser := browser_run answers (pageBrowser s)\<rparr>"
proof (induction answers arbitrary: s)
  case (Cons a answers)
  obtain n i where a: "a = (n, i)" by (cases a)
  with Cons.prems have "recordings_exec n (InBrowser i) s = s\<lparr>pageBrowser := browser_exec n i (pageBrowser s)\<rparr>" by (cases i) simp_all
  with Cons show ?case by (simp add: recordings_run_def browser_run_def a)
qed (simp add: recordings_run_def browser_run_def)

text \<open>C25:
  to play a recording of the list opens the tab of the playback, chooses its camera and its day, marks the
  recording and plays it from its beginning; the answers of the queries that follow change none of it.
\<close>

theorem played_recording_is_shown:
  assumes "s = recordings_run ins (mounted_recordings now0 cs regs b)" and "playable g"
    and "cameraForRequest (rbCameras (pageBrowser s)) (rbRegistered (pageBrowser s)) (segment_request now g) = Some c"
    and "rbRequest (pageBrowser s) \<noteq> Some (segment_request now g)" "rbHandled (pageBrowser s) \<noteq> Some (rqId (segment_request now g))"
    and "list_all (\<lambda>i. is_list_answer (snd i)) answers"
  shows "let t = recordings_run ((now, PlaySegment g) # map (\<lambda>(n, i). (n, InBrowser i)) answers) s; r = pageBrowser t
    in activeTab t = PlaybackTab \<and> rbKey r = pbKey c \<and> rbSegment r = Some (sgId g) \<and> rbDate r = date_of_ms (sgStart g * 1000)
       \<and> playheadMs (rbPlayback r) = js_round (sgStart g * 1000) \<and> playing (rbPlayback r)"
proof -
  let ?q = "segment_request now g"
  let ?s1 = "recordings_exec now (PlaySegment g) s"
  have w: "rbPending (pageBrowser s) = None" unfolding assms(1) by (rule reached_wish)
  have s1: "?s1 = s\<lparr>playbackRequest := Some ?q, activeTab := PlaybackTab,
      pageBrowser := browser_exec now (BrowserProps True (Some ?q)) (pageBrowser s)\<rparr>"
    using assms(2) by (simp add: playSegment_def show_browser_def)
  have "request_shown ?q c (pageBrowser ?s1) \<and> request_done ?q (pageBrowser ?s1)"
    using request_played [OF assms(4,5) w assms(3) found_in_cameras [OF assms(3)]] unfolding s1 by (simp add: Let_def)
  then have "request_shown ?q c (browser_run answers (pageBrowser ?s1))" using lists_keep_request assms(6) by blast
  moreover have "recordings_run ((now, PlaySegment g) # map (\<lambda>(n, i). (n, InBrowser i)) answers) s
      = ?s1\<lparr>pageBrowser := browser_run answers (pageBrowser ?s1)\<rparr>"
    using answers_in_browser [OF assms(6), of ?s1] by (simp add: recordings_run_def)
  moreover have "activeTab ?s1 = PlaybackTab" unfolding s1 by simp
  ultimately show ?thesis by (simp add: Let_def request_shown_def segment_request_def)
qed

definition browser_camera :: playback_camera where
  "browser_camera = \<lparr>pbKey = js ''cam1'', pbName = js ''Gate'', pbRegistered = True\<rparr>"

definition listed_segment :: recording_segment where
  "listed_segment = \<lparr>sgId = 7, sgCamera = 1, sgStream = js ''cam1'', sgStart = 1700000000, sgStatus = js ''ready''\<rparr>"

theorem played_recording_is_shown_witness:
  "let t = recordings_run [(5, PlaySegment listed_segment), (6, InBrowser (PlaybackCameras []))]
             (mounted_recordings 4 [browser_camera] [] None); r = pageBrowser t
   in activeTab t = PlaybackTab \<and> rbKey r = js ''cam1'' \<and> rbSegment r = Some 7 \<and> playheadMs (rbPlayback r) = 1700000000000
      \<and> playing (rbPlayback r)"
proof -
  let ?s = "recordings_run [] (mounted_recordings 4 [browser_camera] [] None)"
  have b: "pageBrowser ?s = mounted_browser 4 [browser_camera] []" by (simp add: recordings_run_def mounted_recordings_def)
  have g: "rbCameras (pageBrowser ?s) = [browser_camera]" "rbRegistered (pageBrowser ?s) = []" "rbRequest (pageBrowser ?s) = None"
    using mounted_given [of 4 "[browser_camera]" "[]"] unfolding b by (simp_all add: given_lists_def)
  have h: "rbHandled (pageBrowser ?s) = None" unfolding b by (rule mounted_handled)
  have f: "cameraForRequest (rbCameras (pageBrowser ?s)) (rbRegistered (pageBrowser ?s)) (segment_request 5 listed_segment) = Some browser_camera"
    unfolding g by (simp add: cameraForRequest_def find_key_def browser_camera_def segment_request_def listed_segment_def)
  have p: "playable listed_segment" by (simp add: playable_def listed_segment_def)
  have a: "list_all (\<lambda>i. is_list_answer (snd i)) [(6, PlaybackCameras [])]" by simp
  have "rbRequest (pageBrowser ?s) \<noteq> Some (segment_request 5 listed_segment)"
    "rbHandled (pageBrowser ?s) \<noteq> Some (rqId (segment_request 5 listed_segment))" unfolding g h by simp_all
  note t = played_recording_is_shown [OF refl p f this a]
  have "recordings_run [] m = m" for m by (simp add: recordings_run_def)
  moreover have "pbKey browser_camera = js ''cam1''" "sgId listed_segment = 7" "js_round (sgStart listed_segment * 1000) = 1700000000000"
    by (simp_all add: browser_camera_def listed_segment_def js_round_def floor_eq_iff)
  ultimately show ?thesis using t by (simp add: Let_def del: recordings_exec.simps)
qed

section \<open>To delete and to clean up\<close>

definition pressed_delete :: "int \<Rightarrow> (int \<times> recordings_input) list \<Rightarrow> nat" where
  "pressed_delete i ins = length (filter (\<lambda>(_, x). x = InSegments (PressDelete i)) ins)"

definition pressed_cleanup :: "(int \<times> recordings_input) list \<Rightarrow> nat" where
  "pressed_cleanup ins = length (filter (\<lambda>(_, x). x = InStorage PressCleanup) ins)"

text \<open>An armed or pending deletion has used its presses.\<close>

definition used_presses :: "int \<Rightarrow> segments_panel \<Rightarrow> nat" where
  "used_presses i p = 2 * count_list (deletedIds p) i + (if armedDeleteId p = Some i then 1 else 0)
     + (if deleteInFlight p = Some i then 1 else 0)"

definition in_flight_is_armed :: "segments_panel \<Rightarrow> bool" where
  "in_flight_is_armed p \<longleftrightarrow> deleteInFlight p = None \<or> deleteInFlight p = armedDeleteId p"

lemma segments_step_presses:
  assumes "in_flight_is_armed p"
  shows "in_flight_is_armed (segments_step i p)
    \<and> used_presses k (segments_step i p) \<le> used_presses k p + (if i = PressDelete k then 1 else 0)"
proof (cases i)
  case (PressDelete j)
  with assms show ?thesis
    by (cases "deleteInFlight p") (auto simp: used_presses_def in_flight_is_armed_def deleteSelectedSegment_def)
next
  case (DeleteAnswered f)
  with assms show ?thesis by (cases f) (auto simp: used_presses_def in_flight_is_armed_def delete_answered_def split: option.split)
next
  case CancelDelete
  with assms show ?thesis by (cases "deleteInFlight p") (simp_all add: used_presses_def in_flight_is_armed_def)
qed (use assms in \<open>simp_all add: used_presses_def in_flight_is_armed_def\<close>)

definition used_cleanup :: "storage_panel \<Rightarrow> nat" where
  "used_cleanup p = 2 * length (cleanupCalls p) + (if cleanupArmed p \<and> \<not> cleanupPending p then 1 else 0)"

lemma storage_step_presses:
  assumes "cleanupPending p \<longrightarrow> cleanupArmed p"
  shows "(cleanupPending (storage_step i p) \<longrightarrow> cleanupArmed (storage_step i p))
    \<and> used_cleanup (storage_step i p) \<le> used_cleanup p + (if i = PressCleanup then 1 else 0)"
  using assms
  by (cases i) (auto simp: used_cleanup_def runCleanup_def cleanup_disabled_def limit_arrives_def split: jsnum.split)

lemma exec_panels:
  "pageSegments (recordings_exec n i s) = (case i of InSegments j \<Rightarrow> segments_step j (pageSegments s) | _ \<Rightarrow> pageSegments s)"
  "pageStorage (recordings_exec n i s) = (case i of InStorage j \<Rightarrow> storage_step j (pageStorage s) | _ \<Rightarrow> pageStorage s)"
  by (cases i; simp add: show_browser_def playSegment_def split: browser_input.split)+

lemma run_presses:
  assumes "in_flight_is_armed (pageSegments s)" "cleanupPending (pageStorage s) \<longrightarrow> cleanupArmed (pageStorage s)"
  shows "used_presses k (pageSegments (recordings_run ins s)) \<le> used_presses k (pageSegments s) + pressed_delete k ins
    \<and> used_cleanup (pageStorage (recordings_run ins s)) \<le> used_cleanup (pageStorage s) + pressed_cleanup ins"
  using assms
proof (induction ins arbitrary: s)
  case Nil
  then show ?case by (simp add: recordings_run_def pressed_delete_def pressed_cleanup_def)
next
  case (Cons a ins)
  obtain n i where a: "a = (n, i)" by (cases a)
  let ?t = "recordings_exec n i s"
  have ok: "in_flight_is_armed (pageSegments ?t)" "cleanupPending (pageStorage ?t) \<longrightarrow> cleanupArmed (pageStorage ?t)"
    and used: "used_presses k (pageSegments ?t) \<le> used_presses k (pageSegments s) + (if i = InSegments (PressDelete k) then 1 else 0)"
      "used_cleanup (pageStorage ?t) \<le> used_cleanup (pageStorage s) + (if i = InStorage PressCleanup then 1 else 0)"
    using Cons.prems segments_step_presses [OF Cons.prems(1), of _ k] storage_step_presses [OF Cons.prems(2)]
    unfolding exec_panels by (cases i; simp)+
  have r: "recordings_run (a # ins) s = recordings_run ins ?t" by (simp add: recordings_run_def a)
  have p: "pressed_delete k (a # ins) = (if i = InSegments (PressDelete k) then 1 else 0) + pressed_delete k ins"
    "pressed_cleanup (a # ins) = (if i = InStorage PressCleanup then 1 else 0) + pressed_cleanup ins"
    by (simp_all add: pressed_delete_def pressed_cleanup_def a)
  show ?case unfolding r p using Cons.IH [OF ok] used by linarith
qed

text \<open>C27:
  from the mounting of the page on, a recording is deleted at most once for two presses of its own button, and
  the storage is cleaned up at most once for two presses, whatever else happens.
\<close>

theorem removals_need_two_presses:
  "let s = recordings_run ins (mounted_recordings now cs regs b)
   in 2 * count_list (deletedIds (pageSegments s)) k \<le> pressed_delete k ins
      \<and> 2 * length (cleanupCalls (pageStorage s)) \<le> pressed_cleanup ins"
proof -
  let ?s0 = "mounted_recordings now cs regs b"
  have "in_flight_is_armed (pageSegments ?s0)" "cleanupPending (pageStorage ?s0) \<longrightarrow> cleanupArmed (pageStorage ?s0)"
    and "used_presses k (pageSegments ?s0) = 0" "used_cleanup (pageStorage ?s0) = 0"
    by (simp_all add: mounted_recordings_def new_segments_panel_def new_storage_panel_def in_flight_is_armed_def used_presses_def used_cleanup_def)
  with run_presses [of ?s0 k ins] show ?thesis by (simp add: used_presses_def used_cleanup_def Let_def)
qed

text \<open>
  The second press does not confirm the amount of the first: where the field still has the limit of the storage,
  an answer with another limit between the presses changes what the armed button removes.
\<close>

lemma armed_cleanup_follows_the_limit:
  assumes "manualGB p = lastSyncedManualGB p" "\<not> cleanup_disabled p" "\<not> cleanupArmed p"
    and "default_manual_gb b \<noteq> manualGB p" "\<not> cleanup_disabled (p\<lparr>manualGB := default_manual_gb b\<rparr>)"
  shows "cleanupCalls (storage_run [PressCleanup, StorageArrives b, PressCleanup] p)
       = cleanupCalls p @ [floor_num (panel_bytes (p\<lparr>manualGB := default_manual_gb b\<rparr>))]"
  using assms by (simp add: storage_run_def runCleanup_def limit_arrives_def cleanup_disabled_def panel_bytes_def)

lemma two_gigabytes: "default_manual_gb (Some 2147483648) = js ''2.00''" "number_of_text (js ''2.00'') = Num 2"
  by code_simp+

lemma one_gigabyte: "default_manual_gb (Some 1073741824) = js ''1.00''" "number_of_text (js ''1.00'') = Num 1"
  by code_simp+

lemma armed_cleanup_follows_the_limit_witness:
  "cleanupCalls (storage_run [PressCleanup, StorageArrives (Some 1073741824), PressCleanup] (new_storage_panel (Some 2147483648)))
     = [Num 1073741824]"
  using armed_cleanup_follows_the_limit [of "new_storage_panel (Some 2147483648)" "Some 1073741824"]
  by (simp add: new_storage_panel_def two_gigabytes one_gigabyte cleanup_disabled_def panel_bytes_def)

end
