(* ===== verification/SettingsConsole.thy ===== *)
theory SettingsConsole
  imports Decimal
begin

text \<open>
  The settings and the incidents of the console, \<open>web/src/pages/settings/SettingsConsole.tsx\<close> and
  \<open>web/src/pages/incidents/IncidentConsole.tsx\<close>. What a query delivers is an input; a handler is cut at its
  \<open>await\<close>. The parameter \<open>show\<close> writes a finite number as \<open>String\<close> does.
\<close>

section \<open>Settings\<close>

record settings_data =
  sdSegmentMinutes :: rat
  sdRetentionDays :: rat
  sdMaxStorageGB :: rat
  sdBackup :: bool
  sdTarget :: jsstring
  sdBackupRetentionDays :: rat
  sdScheduled :: bool
  sdCron :: jsstring
  sdProtect :: bool
  sdDiscord :: bool
  sdUpdatedAt :: jsstring

record settings_form =
  foSegmentMinutes :: jsstring
  foRetentionDays :: jsstring
  foMaxStorageGB :: jsstring
  foBackup :: bool
  foTarget :: jsstring
  foBackupRetentionDays :: jsstring
  foScheduled :: bool
  foCron :: jsstring
  foProtect :: bool
  foDiscord :: bool
  foWebhook :: jsstring

definition emptyForm :: settings_form where
  "emptyForm =
     \<lparr>foSegmentMinutes = js ''5'', foRetentionDays = js ''14'', foMaxStorageGB = js ''256'', foBackup = False, foTarget = [],
      foBackupRetentionDays = js ''14'', foScheduled = False, foCron = js ''0 3 * * *'', foProtect = True, foDiscord = False,
      foWebhook = []\<rparr>"

text \<open>The effect on the settings that were loaded.\<close>

definition form_of :: "(rat \<Rightarrow> jsstring) \<Rightarrow> settings_data \<Rightarrow> settings_form" where
  "form_of show d =
     \<lparr>foSegmentMinutes = show (sdSegmentMinutes d), foRetentionDays = show (sdRetentionDays d),
      foMaxStorageGB = show (sdMaxStorageGB d), foBackup = sdBackup d, foTarget = sdTarget d,
      foBackupRetentionDays = show (sdBackupRetentionDays d), foScheduled = sdScheduled d, foCron = sdCron d,
      foProtect = sdProtect d, foDiscord = sdDiscord d, foWebhook = []\<rparr>"

record settings_update =
  suSegmentMinutes :: jsnum
  suRetentionDays :: jsnum
  suMaxStorageGB :: jsnum
  suBackup :: bool
  suTarget :: jsstring
  suBackupRetentionDays :: jsnum
  suScheduled :: bool
  suCron :: jsstring
  suProtect :: bool
  suDiscord :: bool
  suWebhook :: "jsstring option"

definition formToUpdate :: "settings_form \<Rightarrow> settings_update" where
  "formToUpdate f =
     \<lparr>suSegmentMinutes = number_of_text (foSegmentMinutes f), suRetentionDays = number_of_text (foRetentionDays f),
      suMaxStorageGB = number_of_text (foMaxStorageGB f), suBackup = foBackup f, suTarget = js_trim (foTarget f),
      suBackupRetentionDays = number_of_text (foBackupRetentionDays f), suScheduled = foScheduled f, suCron = js_trim (foCron f),
      suProtect = foProtect f, suDiscord = foDiscord f,
      suWebhook = (let w = js_trim (foWebhook f) in if w = [] then None else Some w)\<rparr>"

datatype settings_query = SettingsLoading | SettingsFailed | SettingsLoaded settings_data

datatype settings_notice = NoNotice | Saved | ResetDone | TestSent

datatype settings_call = PutSettings settings_update | ResetSettings | TestAlert

record settings_console =
  settingsQuery :: settings_query
  settingsForm :: settings_form
  armedReset :: bool
  settingsNotice :: settings_notice
  settingsError :: "jsstring option"
  savePending :: bool
  resetPending :: bool
  testPending :: bool
  settingsCalls :: "settings_call list"

definition new_settings :: settings_console where
  "new_settings =
     \<lparr>settingsQuery = SettingsLoading, settingsForm = emptyForm, armedReset = False, settingsNotice = NoNotice,
      settingsError = None, savePending = False, resetPending = False, testPending = False, settingsCalls = []\<rparr>"

definition clear_messages :: "settings_console \<Rightarrow> settings_console" where
  "clear_messages s = s\<lparr>settingsNotice := NoNotice, settingsError := None\<rparr>"

text \<open>Data that are equal to the former keep their identity, so that the effect does not run.\<close>

definition settings_arrive :: "(rat \<Rightarrow> jsstring) \<Rightarrow> settings_data \<Rightarrow> settings_console \<Rightarrow> settings_console" where
  "settings_arrive show d s =
     (if settingsQuery s = SettingsLoaded d then s
      else s\<lparr>settingsQuery := SettingsLoaded d, settingsForm := form_of show d\<rparr>)"

definition saveSettings :: "settings_console \<Rightarrow> settings_console" where
  "saveSettings s =
     (if savePending s \<or> settingsQuery s = SettingsLoading then s
      else (clear_messages s)\<lparr>savePending := True, settingsCalls := settingsCalls s @ [PutSettings (formToUpdate (settingsForm s))]\<rparr>)"

definition resetAllSettings :: "settings_console \<Rightarrow> settings_console" where
  "resetAllSettings s =
     (if resetPending s then s
      else if \<not> armedReset s then (clear_messages s)\<lparr>armedReset := True\<rparr>
      else (clear_messages s)\<lparr>resetPending := True, settingsCalls := settingsCalls s @ [ResetSettings]\<rparr>)"

definition sendTestAlert :: "settings_console \<Rightarrow> settings_console" where
  "sendTestAlert s =
     (if testPending s then s else (clear_messages s)\<lparr>testPending := True, settingsCalls := settingsCalls s @ [TestAlert]\<rparr>)"

text \<open>The ends of the three handlers; a failure has its message.\<close>

definition save_ends :: "jsstring option \<Rightarrow> settings_console \<Rightarrow> settings_console" where
  "save_ends failure s =
     (if \<not> savePending s then s
      else case failure of
             Some m \<Rightarrow> s\<lparr>savePending := False, settingsError := Some m\<rparr>
           | None \<Rightarrow> s\<lparr>savePending := False, settingsForm := (settingsForm s)\<lparr>foWebhook := []\<rparr>, settingsNotice := Saved\<rparr>)"

definition reset_ends :: "jsstring option \<Rightarrow> settings_console \<Rightarrow> settings_console" where
  "reset_ends failure s =
     (if \<not> resetPending s then s
      else case failure of
             Some m \<Rightarrow> s\<lparr>resetPending := False, settingsError := Some m\<rparr>
           | None \<Rightarrow> s\<lparr>resetPending := False, armedReset := False, settingsForm := emptyForm, settingsNotice := ResetDone\<rparr>)"

definition test_ends :: "jsstring option \<Rightarrow> settings_console \<Rightarrow> settings_console" where
  "test_ends failure s =
     (if \<not> testPending s then s
      else case failure of
             Some m \<Rightarrow> s\<lparr>testPending := False, settingsError := Some m\<rparr>
           | None \<Rightarrow> s\<lparr>testPending := False, settingsNotice := TestSent\<rparr>)"

datatype settings_input =
  SettingsArrive settings_data
| SettingsFail
| EditSettings settings_form
| PressSave | SaveEnds "jsstring option"
| PressReset | ResetEnds "jsstring option"
| PressTest | TestEnds "jsstring option"

fun settings_step :: "(rat \<Rightarrow> jsstring) \<Rightarrow> settings_input \<Rightarrow> settings_console \<Rightarrow> settings_console" where
  "settings_step show (SettingsArrive d) s = settings_arrive show d s"
| "settings_step show SettingsFail s = (if settingsQuery s = SettingsLoading then s\<lparr>settingsQuery := SettingsFailed\<rparr> else s)"
| "settings_step show (EditSettings f) s = s\<lparr>settingsForm := f\<rparr>"
| "settings_step show PressSave s = saveSettings s"
| "settings_step show (SaveEnds r) s = save_ends r s"
| "settings_step show PressReset s = resetAllSettings s"
| "settings_step show (ResetEnds r) s = reset_ends r s"
| "settings_step show PressTest s = sendTestAlert s"
| "settings_step show (TestEnds r) s = test_ends r s"

definition settings_run :: "(rat \<Rightarrow> jsstring) \<Rightarrow> settings_input list \<Rightarrow> settings_console \<Rightarrow> settings_console" where
  "settings_run show ins s = fold (settings_step show) ins s"

section \<open>What is saved\<close>

definition update_of :: "settings_data \<Rightarrow> settings_update" where
  "update_of d =
     \<lparr>suSegmentMinutes = Num (sdSegmentMinutes d), suRetentionDays = Num (sdRetentionDays d),
      suMaxStorageGB = Num (sdMaxStorageGB d), suBackup = sdBackup d, suTarget = sdTarget d,
      suBackupRetentionDays = Num (sdBackupRetentionDays d), suScheduled = sdScheduled d, suCron = sdCron d,
      suProtect = sdProtect d, suDiscord = sdDiscord d, suWebhook = None\<rparr>"

text \<open>To save a form that was loaded and not edited asks for the settings that the server had, if it keeps the
  target and the schedule without blanks around them; the secret of the alerts stays as it is.\<close>

lemma untouched_settings_are_saved_back:
  assumes "\<forall>x \<in> {sdSegmentMinutes d, sdRetentionDays d, sdMaxStorageGB d, sdBackupRetentionDays d}. number_of_text (show x) = Num x"
    and "js_trim (sdTarget d) = sdTarget d" "js_trim (sdCron d) = sdCron d"
    and "\<not> savePending s" "settingsQuery s \<noteq> SettingsLoaded d"
  shows "settingsCalls (settings_run show [SettingsArrive d, PressSave] s) = settingsCalls s @ [PutSettings (update_of d)]"
  using assms
  by (simp add: settings_run_def settings_arrive_def saveSettings_def clear_messages_def formToUpdate_def form_of_def update_of_def Let_def)

definition example_settings :: settings_data where
  "example_settings =
     \<lparr>sdSegmentMinutes = 30, sdRetentionDays = 30, sdMaxStorageGB = 0, sdBackup = False, sdTarget = js ''/mnt/nas'',
      sdBackupRetentionDays = 30, sdScheduled = False, sdCron = js ''0 3 * * *'', sdProtect = False, sdDiscord = False,
      sdUpdatedAt = []\<rparr>"

lemma untouched_settings_are_saved_back_witness:
  "settingsCalls (settings_run (\<lambda>x. decimal \<lfloor>x\<rfloor>) [SettingsArrive example_settings, PressSave] new_settings)
     = [PutSettings (update_of example_settings)]"
proof -
  have "number_of_text (decimal 30) = Num 30" "number_of_text (decimal 0) = Num 0" by code_simp+
  moreover have "js_trim (js ''/mnt/nas'') = js ''/mnt/nas''" "js_trim (js ''0 3 * * *'') = js ''0 3 * * *''" by code_simp+
  ultimately show ?thesis
    using untouched_settings_are_saved_back [of example_settings "\<lambda>x. decimal \<lfloor>x\<rfloor>" new_settings]
    by (simp add: example_settings_def new_settings_def)
qed

text \<open>The form sends values of its own where it shows none of the server's: when the settings could not be
  loaded, and after a reset whose new settings were shown before the handler has returned.\<close>

lemma form_sends_its_own_defaults:
  "settingsCalls (settings_run show [SettingsFail, PressSave] new_settings) = [PutSettings (formToUpdate emptyForm)]
   \<and> settingsCalls (settings_run show [SettingsArrive d, PressReset, PressReset, SettingsArrive e, ResetEnds None, PressSave] new_settings)
       = [ResetSettings, PutSettings (formToUpdate emptyForm)]"
  by (simp add: settings_run_def settings_arrive_def saveSettings_def resetAllSettings_def reset_ends_def clear_messages_def new_settings_def)

section \<open>Incidents\<close>

text \<open>The console knows an incident by its number here. What the server answers to a request is the answer of a
  task that keeps what its closure has captured.\<close>

record incident_form =
  ifTitle :: jsstring
  ifSource :: jsstring
  ifSeverity :: jsstring
  ifDescription :: jsstring

definition initialIncident :: incident_form where
  "initialIncident = \<lparr>ifTitle = [], ifSource = js ''manual'', ifSeverity = js ''high'', ifDescription = []\<rparr>"

record incident_input =
  inTitle :: jsstring
  inSource :: jsstring
  inSeverity :: jsstring
  inDescription :: "jsstring option"

definition emptyToUndefined :: "jsstring \<Rightarrow> jsstring option" where
  "emptyToUndefined v = (if v = [] then None else Some v)"

definition incident_of_form :: "incident_form \<Rightarrow> incident_input" where
  "incident_of_form f =
     \<lparr>inTitle = js_trim (ifTitle f),
      inSource = (let v = js_trim (ifSource f) in if v = [] then js ''manual'' else v),
      inSeverity = ifSeverity f, inDescription = emptyToUndefined (js_trim (ifDescription f))\<rparr>"

text \<open>\<open>until\<close> is the time that \<open>oneHourFromNow\<close> names.\<close>

datatype incident_action = Acknowledge | Snooze int | Resolve | Reopen

datatype incident_call = CreateIncident incident_input | ActOn incident_action int | DeleteIncident int

datatype incident_notice = NoIncidentNotice | Created | ActionDone | IncidentDeleted

record incident_console =
  statusChoice :: jsstring
  severityChoice :: jsstring
  sourceChoice :: jsstring
  selectedIncident :: "int option"
  incidentForm :: incident_form
  incidentNotice :: incident_notice
  incidentError :: "jsstring option"
  armedIncident :: "int option"
  incidentRows :: "int list"
  incidentDetail :: "int option"               \<comment> \<open>\<open>selected.data\<close>, if it is there\<close>
  incidentTasks :: "(nat \<times> incident_call) list"
  nextIncidentTask :: nat
  incidentCalls :: "incident_call list"

definition new_incidents :: incident_console where
  "new_incidents =
     \<lparr>statusChoice = [], severityChoice = [], sourceChoice = [], selectedIncident = None, incidentForm = initialIncident,
      incidentNotice = NoIncidentNotice, incidentError = None, armedIncident = None, incidentRows = [], incidentDetail = None,
      incidentTasks = [], nextIncidentTask = 0, incidentCalls = []\<rparr>"

definition incident_query :: "incident_console \<Rightarrow> jsstring option \<times> jsstring option \<times> jsstring option \<times> nat" where
  "incident_query s =
     (emptyToUndefined (statusChoice s), emptyToUndefined (severityChoice s), emptyToUndefined (sourceChoice s), 100)"

definition activeIncident :: "incident_console \<Rightarrow> int option" where
  "activeIncident s =
     (case incidentDetail s of
        Some i \<Rightarrow> Some i
      | None \<Rightarrow>
          (case find (\<lambda>i. Some i = selectedIncident s) (incidentRows s) of
             Some i \<Rightarrow> Some i
           | None \<Rightarrow> (case incidentRows s of [] \<Rightarrow> None | i # _ \<Rightarrow> Some i)))"

definition select_incident :: "int option \<Rightarrow> incident_console \<Rightarrow> incident_console" where
  "select_incident i s = (if i = selectedIncident s then s else s\<lparr>selectedIncident := i, incidentDetail := None\<rparr>)"

text \<open>The effect that selects the first row. Numbers of incidents are positive.\<close>

definition select_first_row :: "incident_console \<Rightarrow> incident_console" where
  "select_first_row s =
     (case (selectedIncident s, incidentRows s) of (None, i # _) \<Rightarrow> select_incident (Some i) s | _ \<Rightarrow> s)"

definition ask_server :: "incident_call \<Rightarrow> incident_console \<Rightarrow> incident_console" where
  "ask_server c s =
     s\<lparr>incidentTasks := incidentTasks s @ [(nextIncidentTask s, c)], nextIncidentTask := Suc (nextIncidentTask s),
       incidentCalls := incidentCalls s @ [c]\<rparr>"

definition clear_incident_messages :: "incident_console \<Rightarrow> incident_console" where
  "clear_incident_messages s = s\<lparr>incidentNotice := NoIncidentNotice, incidentError := None\<rparr>"

definition createManualIncident :: "incident_console \<Rightarrow> incident_console" where
  "createManualIncident s =
     (if js_trim (ifTitle (incidentForm s)) = [] \<or> (\<exists>(k, c) \<in> set (incidentTasks s). case c of CreateIncident _ \<Rightarrow> True | _ \<Rightarrow> False) then s
      else ask_server (CreateIncident (incident_of_form (incidentForm s))) (clear_incident_messages s))"

definition runAction :: "incident_action \<Rightarrow> int \<Rightarrow> incident_console \<Rightarrow> incident_console" where
  "runAction a i s = ask_server (ActOn a i) ((clear_incident_messages s)\<lparr>armedIncident := None\<rparr>)"

definition deleteSelected :: "int \<Rightarrow> incident_console \<Rightarrow> incident_console" where
  "deleteSelected i s =
     (let s1 = clear_incident_messages s
      in if armedIncident s \<noteq> Some i then s1\<lparr>armedIncident := Some i\<rparr> else ask_server (DeleteIncident i) s1)"

text \<open>What follows the \<open>await\<close> of a handler; \<open>Inl\<close> is a failure, \<open>Inr\<close> the number of the incident.\<close>

fun incident_resume :: "incident_call \<Rightarrow> jsstring + int \<Rightarrow> incident_console \<Rightarrow> incident_console" where
  "incident_resume (CreateIncident _) (Inr i) s =
     (select_incident (Some i) s)\<lparr>incidentForm := initialIncident, incidentNotice := Created\<rparr>"
| "incident_resume (ActOn _ _) (Inr _) s = s\<lparr>incidentNotice := ActionDone\<rparr>"
| "incident_resume (DeleteIncident _) (Inr _) s =
     (select_incident None (s\<lparr>armedIncident := None\<rparr>))\<lparr>incidentNotice := IncidentDeleted\<rparr>"
| "incident_resume (ActOn _ _) (Inl m) s = s\<lparr>armedIncident := None, incidentError := Some m\<rparr>"
| "incident_resume _ (Inl m) s = s\<lparr>incidentError := Some m\<rparr>"

datatype incident_event =
  RowsArrive "int list"
| DetailArrives int
| ChooseStatus jsstring | ChooseSeverity jsstring | TypeSource jsstring
| SelectIncident int
| EditIncident incident_form
| PressCreate
| PressAction incident_action
| PressDeleteIncident
| IncidentAnswered nat "jsstring + int"

fun incident_step :: "incident_event \<Rightarrow> incident_console \<Rightarrow> incident_console" where
  "incident_step (RowsArrive is) s = s\<lparr>incidentRows := is\<rparr>"
| "incident_step (DetailArrives i) s = (if selectedIncident s = Some i then s\<lparr>incidentDetail := Some i\<rparr> else s)"
| "incident_step (ChooseStatus v) s = s\<lparr>statusChoice := v\<rparr>"
| "incident_step (ChooseSeverity v) s = s\<lparr>severityChoice := v\<rparr>"
| "incident_step (TypeSource v) s = s\<lparr>sourceChoice := v\<rparr>"
| "incident_step (SelectIncident i) s = select_incident (Some i) s"
| "incident_step (EditIncident f) s = s\<lparr>incidentForm := f\<rparr>"
| "incident_step PressCreate s = createManualIncident s"
| "incident_step (PressAction a) s = (case activeIncident s of None \<Rightarrow> s | Some i \<Rightarrow> runAction a i s)"
| "incident_step PressDeleteIncident s = (case activeIncident s of None \<Rightarrow> s | Some i \<Rightarrow> deleteSelected i s)"
| "incident_step (IncidentAnswered k r) s =
     (case map_of (incidentTasks s) k of
        None \<Rightarrow> s
      | Some c \<Rightarrow> incident_resume c r (s\<lparr>incidentTasks := filter (\<lambda>(j, _). j \<noteq> k) (incidentTasks s)\<rparr>))"

definition incident_exec :: "incident_event \<Rightarrow> incident_console \<Rightarrow> incident_console" where
  "incident_exec e s = select_first_row (incident_step e s)"

definition incident_run :: "incident_event list \<Rightarrow> incident_console \<Rightarrow> incident_console" where
  "incident_run es s = fold incident_exec es s"

text \<open>A deletion is asked for only of the incident that was armed and is still shown; in particular an
  incident that came to be shown after the first press is not deleted by the second.\<close>

lemma deletes_the_armed_incident:
  assumes "DeleteIncident i \<in> set (incidentCalls (incident_exec e s))"
  shows "DeleteIncident i \<in> set (incidentCalls s) \<or> (e = PressDeleteIncident \<and> armedIncident s = Some i \<and> activeIncident s = Some i)"
proof -
  have f: "incidentCalls (select_incident x u) = incidentCalls u" "incidentCalls (select_first_row u) = incidentCalls u" for x u
    by (simp_all add: select_incident_def select_first_row_def split: option.split list.split)
  have r: "incidentCalls (incident_resume c x u) = incidentCalls u" for c x u
    by (cases c; cases x) (simp_all add: f)
  show ?thesis
    using assms
    by (cases e) (auto simp: incident_exec_def f r createManualIncident_def runAction_def deleteSelected_def ask_server_def
        clear_incident_messages_def Let_def split: option.splits if_splits)
qed

text \<open>The answer of a deletion takes the selection away also where the user has selected another incident meanwhile.\<close>

lemma deletion_takes_selection:
  assumes "map_of (incidentTasks s) k = Some (DeleteIncident i)" and "incidentRows s = []"
  shows "selectedIncident (incident_exec (IncidentAnswered k (Inr j)) s) = None"
  using assms by (simp add: incident_exec_def select_incident_def select_first_row_def)

end
