(* ===== verification/ViewerLayout.thy ===== *)
theory ViewerLayout
  imports LiveLayout Decimal
begin

text \<open>
  The layout of the wall display page, \<open>web/src/components/viewer/viewerLayout.ts\<close>, the state of \<open>ViewerPage.tsx\<close>,
  and how the web application asks the server, \<open>web/src/app/http.ts\<close>. Numbers are rationals.
\<close>

section \<open>Tiles of the wall display\<close>

record viewer_profile =
  viewerData :: "layout_item list"
  gridCols :: "rat option"
  gridRows :: "rat option"

record viewer_layout =
  viewerCols :: rat
  viewerRows :: rat
  viewerItems :: "layout_item list"

definition positiveInteger :: "rat option \<Rightarrow> rat option" where
  "positiveInteger v = (case v of Some x \<Rightarrow> if x = of_int \<lfloor>x\<rfloor> \<and> x > 0 then Some x else None | None \<Rightarrow> None)"

definition or_default :: "rat option \<Rightarrow> rat \<Rightarrow> rat" where
  "or_default v d = (case v of Some x \<Rightarrow> x | None \<Rightarrow> d)"

text \<open>The default layout is the one of the live page; of the saved layouts the first one counts.\<close>

definition resolveViewerLayout :: "jsstring list \<Rightarrow> viewer_profile list \<Rightarrow> viewer_layout" where
  "resolveViewerLayout cameras layouts =
     (let saved = (case layouts of [] \<Rightarrow> None | l # _ \<Rightarrow> Some l);
          data = (case saved of None \<Rightarrow> [] | Some l \<Rightarrow> viewerData l);
          items = map (\<lambda>item. case saved_item data (itemStream item) of Some x \<Rightarrow> x | None \<Rightarrow> item) (defaultLayout cameras);
          bottom = foldl max 1 (map (\<lambda>item. yPos item + itemH item) items)
      in \<lparr>viewerCols = or_default (positiveInteger (Option.bind saved gridCols)) GRID_COLS,
          viewerRows = max (or_default (positiveInteger (Option.bind saved gridRows)) GRID_ROWS) bottom, viewerItems = items\<rparr>)"

record viewer_rect =
  rectLeft :: rat
  rectTop :: rat
  rectWidth :: rat
  rectHeight :: rat

definition clamp_units :: "rat \<Rightarrow> rat \<Rightarrow> rat \<Rightarrow> rat" where
  "clamp_units v lo hi = min hi (max lo v)"

definition viewerRect :: "layout_item \<Rightarrow> rat \<Rightarrow> rat \<Rightarrow> viewer_rect" where
  "viewerRect item cols rows =
     (let safeCols = or_default (positiveInteger (Some cols)) GRID_COLS;
          safeRows = or_default (positiveInteger (Some rows)) GRID_ROWS;
          w = clamp_units (itemW item) 1 safeCols; h = clamp_units (itemH item) 1 safeRows
      in \<lparr>rectLeft = clamp_units (xPos item) 0 (safeCols - w) / safeCols * 100,
          rectTop = clamp_units (yPos item) 0 (safeRows - h) / safeRows * 100,
          rectWidth = w / safeCols * 100, rectHeight = h / safeRows * 100\<rparr>)"

text \<open>Every tile lies within the display, whatever was saved.\<close>

lemma positive_integer: "1 \<le> or_default (positiveInteger v) 48"
proof (cases "positiveInteger v")
  case (Some x)
  then have "x = of_int \<lfloor>x\<rfloor>" "x > 0" by (auto simp: positiveInteger_def split: option.splits if_splits)
  moreover have "1 \<le> \<lfloor>x\<rfloor>"
  proof (rule ccontr)
    assume "\<not> 1 \<le> \<lfloor>x\<rfloor>"
    then have "(of_int \<lfloor>x\<rfloor> :: rat) \<le> 0" by simp
    with calculation show False by simp
  qed
  ultimately have "1 \<le> x" by linarith
  with Some show ?thesis by (simp add: or_default_def)
qed (simp add: or_default_def)

lemma clamp_within:
  assumes "1 \<le> c" "(w :: rat) = clamp_units v 1 c" "x = clamp_units u 0 (c - w)"
  shows "0 \<le> x / c * 100 \<and> 0 < w / c * 100 \<and> x / c * 100 + w / c * 100 \<le> 100"
proof -
  have w: "1 \<le> w" "w \<le> c" using assms(1,2) by (auto simp: clamp_units_def)
  then have "0 \<le> x" "x \<le> c - w" using assms(3) by (auto simp: clamp_units_def)
  with w have b: "0 \<le> x" "1 \<le> w" "x + w \<le> c" by linarith+
  have "(x + w) / c \<le> 1" using b(3) assms(1) by (simp add: divide_le_eq)
  then have "x / c + w / c \<le> 1" by (simp add: add_divide_distrib)
  moreover have "a * 100 + b * 100 \<le> 100" if "a + b \<le> 1" for a b :: rat using that by linarith
  ultimately have "x / c * 100 + w / c * 100 \<le> 100" by blast
  with b assms(1) show ?thesis by simp
qed

lemma viewer_rect_within:
  "let r = viewerRect item cols rows
   in 0 \<le> rectLeft r \<and> rectLeft r + rectWidth r \<le> 100 \<and> 0 \<le> rectTop r \<and> rectTop r + rectHeight r \<le> 100
      \<and> 0 < rectWidth r \<and> 0 < rectHeight r"
  using clamp_within [OF positive_integer [of "Some cols"] refl refl, of "xPos item" "itemW item"]
    clamp_within [OF positive_integer [of "Some rows"] refl refl, of "yPos item" "itemH item"]
  by (simp add: viewerRect_def GRID_COLS_def GRID_ROWS_def Let_def)

section \<open>The focused tile\<close>

text \<open>\<open>ViewerPage\<close>: the focused stream and the effect that forgets it when its camera is gone.\<close>

record viewer_page =
  shownCameras :: "jsstring list"
  focusedStream :: "jsstring option"

datatype focus_input = ClickTile jsstring | CloseFocus | FocusKey jsstring | CamerasShown "jsstring list"

definition drop_focus :: "viewer_page \<Rightarrow> viewer_page" where
  "drop_focus p =
     (case focusedStream p of
        None \<Rightarrow> p
      | Some n \<Rightarrow> if n = [] \<or> n \<in> set (shownCameras p) then p else p\<lparr>focusedStream := None\<rparr>)"

fun focus_step :: "focus_input \<Rightarrow> viewer_page \<Rightarrow> viewer_page" where
  "focus_step (ClickTile n) p = (if n \<in> set (shownCameras p) then p\<lparr>focusedStream := Some n\<rparr> else p)"
| "focus_step CloseFocus p = p\<lparr>focusedStream := None\<rparr>"
| "focus_step (FocusKey k) p = (if k = js ''Escape'' then p\<lparr>focusedStream := None\<rparr> else p)"
| "focus_step (CamerasShown cs) p = drop_focus (p\<lparr>shownCameras := cs\<rparr>)"

definition focus_run :: "focus_input list \<Rightarrow> viewer_page \<Rightarrow> viewer_page" where
  "focus_run ins p = fold focus_step ins p"

lemma focus_is_shown:
  assumes "[] \<notin> (\<Union>i \<in> set ins. case i of CamerasShown cs \<Rightarrow> set cs | _ \<Rightarrow> {})"
  shows "case focusedStream (focus_run ins \<lparr>shownCameras = [], focusedStream = None\<rparr>) of
           None \<Rightarrow> True | Some n \<Rightarrow> n \<in> set (shownCameras (focus_run ins \<lparr>shownCameras = [], focusedStream = None\<rparr>))"
proof -
  define ok where "ok = (\<lambda>p :: viewer_page. [] \<notin> set (shownCameras p) \<and> (case focusedStream p of None \<Rightarrow> True | Some n \<Rightarrow> n \<in> set (shownCameras p)))"
  have step: "ok p \<Longrightarrow> [] \<notin> (case i of CamerasShown cs \<Rightarrow> set cs | _ \<Rightarrow> {}) \<Longrightarrow> ok (focus_step i p)" for i p
    by (cases i) (auto simp: ok_def drop_focus_def split: option.splits)
  have "ok p \<Longrightarrow> ok (focus_run ins p)" for p
    using assms unfolding focus_run_def by (induction ins arbitrary: p) (auto simp: step)
  from this [of "\<lparr>shownCameras = [], focusedStream = None\<rparr>"] show ?thesis by (simp add: ok_def)
qed

section \<open>Requests\<close>

text \<open>Headers are lower case names with their values; a method is written in ASCII.\<close>

type_synonym http_headers = "(jsstring \<times> jsstring) list"

definition set_header :: "jsstring \<Rightarrow> jsstring \<Rightarrow> http_headers \<Rightarrow> http_headers" where
  "set_header k v hs = filter (\<lambda>(j, _). j \<noteq> k) hs @ [(k, v)]"

definition content_type :: jsstring where "content_type = js ''content-type''"
definition management_header :: jsstring where "management_header = js ''x-camstation-management''"

definition isCameraManagementMutation :: "jsstring \<Rightarrow> jsstring option \<Rightarrow> bool" where
  "isCameraManagementMutation path http_method =
     (let m = map (\<lambda>c. if is_lower c then c - 0x20 else c) (case http_method of None \<Rightarrow> js ''GET'' | Some x \<Rightarrow> x)
      in m \<noteq> js ''GET'' \<and> m \<noteq> js ''HEAD''
         \<and> (starts_with path (js ''/api/cameras'') \<or> starts_with path (js ''/api/camera-profiles'')))"

definition request_headers :: "jsstring \<Rightarrow> jsstring option \<Rightarrow> http_headers \<Rightarrow> http_headers" where
  "request_headers path http_method hs =
     (let h1 = (if map_of hs content_type = None then set_header content_type (js ''application/json'') hs else hs)
      in if isCameraManagementMutation path http_method then set_header management_header (js ''1'') h1 else h1)"

definition management_headers :: "http_headers \<Rightarrow> http_headers" where
  "management_headers hs = set_header management_header (js ''1'') hs"

text \<open>The message of an answer that is not \<open>ok\<close>: the payload's \<open>error\<close> if it is a text.\<close>

definition failure_message :: "int \<Rightarrow> jsstring option \<Rightarrow> jsstring" where
  "failure_message http_status payload_error =
     (case payload_error of Some m \<Rightarrow> m | None \<Rightarrow> js ''Request failed with '' @ decimal http_status)"

datatype query_value = NoValue | OneValue jsstring | ManyValues "jsstring list"

text \<open>The pairs that \<open>queryString\<close> gives to \<open>URLSearchParams\<close>; the entries have different names.\<close>

fun query_pairs :: "(jsstring \<times> query_value) list \<Rightarrow> (jsstring \<times> jsstring) list" where
  "query_pairs [] = []"
| "query_pairs ((k, NoValue) # ps) = query_pairs ps"
| "query_pairs ((k, OneValue v) # ps) = (if v = [] then query_pairs ps else (k, v) # query_pairs ps)"
| "query_pairs ((k, ManyValues vs) # ps) = map (\<lambda>v. (k, v)) vs @ query_pairs ps"

text \<open>A change of a camera or of its profiles carries the header of the management, a read does not add it.\<close>

lemma management_header_of_changes:
  "map_of hs management_header = None \<Longrightarrow>
     (map_of (request_headers path http_method hs) management_header \<noteq> None) = isCameraManagementMutation path http_method"
proof -
  have set: "map_of (set_header k v us) j = (if j = k then Some v else map_of us j)" for k v j us
    unfolding set_header_def by (induction us) auto
  have "management_header \<noteq> content_type" by (simp add: management_header_def content_type_def)
  moreover assume "map_of hs management_header = None"
  ultimately show ?thesis by (simp add: request_headers_def set Let_def)
qed

end
