(* ===== verification/PtzPresets.thy ===== *)
theory PtzPresets
  imports PtzHold
begin

text \<open>
  The home position and the presets of \<open>PtzControlPanel.tsx\<close>: five mutations, of which one of a kind is in
  flight at most, and the text of the new preset. The panel is not mounted again for another camera.
\<close>

datatype control_action = GotoHome | SetHome | CreatePreset jsstring | GotoPreset jsstring | DeletePreset jsstring

fun same_kind :: "control_action \<Rightarrow> control_action \<Rightarrow> bool" where
  "same_kind GotoHome GotoHome = True"
| "same_kind SetHome SetHome = True"
| "same_kind (CreatePreset _) (CreatePreset _) = True"
| "same_kind (GotoPreset _) (GotoPreset _) = True"
| "same_kind (DeletePreset _) (DeletePreset _) = True"
| "same_kind _ _ = False"

record preset_panel =
  ppStream :: jsstring
  homeAvailable :: bool
  presetsAvailable :: bool
  presetName :: jsstring
  panelError :: jsstring
  controlPending :: "(jsstring \<times> control_action) list"
  controlCalls :: "(jsstring \<times> control_action) list"

definition new_preset_panel :: "jsstring \<Rightarrow> bool \<Rightarrow> bool \<Rightarrow> preset_panel" where
  "new_preset_panel name home presets =
     \<lparr>ppStream = name, homeAvailable = home, presetsAvailable = presets, presetName = [], panelError = [], controlPending = [],
      controlCalls = []\<rparr>"

definition control_is_pending :: "control_action \<Rightarrow> preset_panel \<Rightarrow> bool" where
  "control_is_pending a p \<longleftrightarrow> (\<exists>c \<in> set (controlPending p). same_kind a (snd c))"

text \<open>A click whose button is disabled, as long as its mutation is pending, does nothing.\<close>

definition mutate_control :: "control_action \<Rightarrow> preset_panel \<Rightarrow> preset_panel" where
  "mutate_control a p =
     (if control_is_pending a p then p
      else p\<lparr>controlPending := controlPending p @ [(ppStream p, a)], controlCalls := controlCalls p @ [(ppStream p, a)]\<rparr>)"

datatype preset_input =
  ShowCamera jsstring bool bool
| PressGotoHome
| PressSetHome bool
| TypePresetName jsstring
| SubmitPreset
| PressGotoPreset jsstring
| PressDeletePreset jsstring bool
| ControlAnswered control_action "jsstring option"

text \<open>The field takes 64 characters. A \<open>confirm\<close> is answered within the click, and the answer of a
  mutation, with the message of a failure, reaches the one of its kind.\<close>

fun preset_step :: "preset_input \<Rightarrow> preset_panel \<Rightarrow> preset_panel" where
  "preset_step (ShowCamera name home presets) p = p\<lparr>ppStream := name, homeAvailable := home, presetsAvailable := presets\<rparr>"
| "preset_step PressGotoHome p = (if homeAvailable p then mutate_control GotoHome p else p)"
| "preset_step (PressSetHome confirmed) p = (if homeAvailable p \<and> confirmed then mutate_control SetHome p else p)"
| "preset_step (TypePresetName v) p = (if length v \<le> 64 then p\<lparr>presetName := v\<rparr> else p)"
| "preset_step SubmitPreset p =
     (if presetsAvailable p \<and> js_trim (presetName p) \<noteq> [] then mutate_control (CreatePreset (js_trim (presetName p))) p else p)"
| "preset_step (PressGotoPreset token) p = mutate_control (GotoPreset token) p"
| "preset_step (PressDeletePreset token confirmed) p = (if confirmed then mutate_control (DeletePreset token) p else p)"
| "preset_step (ControlAnswered a failure) p =
     (case find (\<lambda>c. same_kind a (snd c)) (controlPending p) of
        None \<Rightarrow> p
      | Some c \<Rightarrow>
          (let p1 = p\<lparr>controlPending := filter (\<lambda>d. \<not> same_kind a (snd d)) (controlPending p)\<rparr>
           in case (failure, snd c) of
                (Some m, _) \<Rightarrow> p1\<lparr>panelError := m\<rparr>
              | (None, CreatePreset _) \<Rightarrow> p1\<lparr>presetName := []\<rparr>
              | (None, _) \<Rightarrow> p1))"

definition preset_run :: "preset_input list \<Rightarrow> preset_panel \<Rightarrow> preset_panel" where
  "preset_run ins p = fold preset_step ins p"

section \<open>Properties of the panel\<close>

lemma same_kind_refl [simp]: "same_kind a a"
  by (cases a) simp_all

definition one_of_a_kind :: "preset_panel \<Rightarrow> bool" where
  "one_of_a_kind p \<longleftrightarrow> (\<forall>a. length (filter (\<lambda>c. same_kind a (snd c)) (controlPending p)) \<le> 1)"

lemma one_of_a_kind_mutate: "one_of_a_kind p \<Longrightarrow> one_of_a_kind (mutate_control a p)"
proof -
  assume one: "one_of_a_kind p"
  have "filter (\<lambda>c. same_kind b (snd c)) (controlPending p) = []" if "\<not> control_is_pending a p" "same_kind b a" for b
  proof -
    have "same_kind b x \<longleftrightarrow> same_kind a x" for x using that(2) by (cases a; cases b; cases x) simp_all
    with that(1) show ?thesis by (auto simp: control_is_pending_def filter_empty_conv)
  qed
  with one show ?thesis by (auto simp: one_of_a_kind_def mutate_control_def)
qed

lemma one_of_a_kind_frames [simp]:
  "one_of_a_kind (p\<lparr>presetName := v\<rparr>) = one_of_a_kind p" "one_of_a_kind (p\<lparr>panelError := v\<rparr>) = one_of_a_kind p"
  "one_of_a_kind (p\<lparr>ppStream := name, homeAvailable := h, presetsAvailable := q\<rparr>) = one_of_a_kind p"
  by (simp_all add: one_of_a_kind_def)

lemma one_of_a_kind_step: "one_of_a_kind p \<Longrightarrow> one_of_a_kind (preset_step i p)"
proof (cases i)
  case (ControlAnswered a f)
  assume one: "one_of_a_kind p"
  let ?p = "p\<lparr>controlPending := filter (\<lambda>d. \<not> same_kind a (snd d)) (controlPending p)\<rparr>"
  have "length (filter (\<lambda>c. same_kind b (snd c) \<and> \<not> same_kind a (snd c)) xs) \<le> length (filter (\<lambda>c. same_kind b (snd c)) xs)"
    for b :: control_action and xs :: "(jsstring \<times> control_action) list" by (induction xs) auto
  with one have "one_of_a_kind ?p" unfolding one_of_a_kind_def by (auto intro: order.trans simp: conj_commute)
  with one ControlAnswered show ?thesis
    by (auto simp: Let_def split: option.split control_action.split prod.split)
qed (auto simp: one_of_a_kind_mutate)

text \<open>At any time one request of a kind waits for its answer at most, and what is said of an error stays until
  another one is said.\<close>

lemma one_of_a_kind_run: "one_of_a_kind (preset_run ins (new_preset_panel name home presets))"
proof -
  have "one_of_a_kind p \<Longrightarrow> one_of_a_kind (preset_run ins p)" for p
    unfolding preset_run_def by (induction ins arbitrary: p) (simp_all add: one_of_a_kind_step)
  then show ?thesis by (simp add: new_preset_panel_def one_of_a_kind_def)
qed

lemma error_stays:
  assumes "\<forall>a m. i \<noteq> ControlAnswered a (Some m)"
  shows "panelError (preset_step i p) = panelError p"
  using assms by (cases i) (auto simp: mutate_control_def Let_def split: option.split control_action.split)

end
