(* ===== verification/CameraPolicy.thy ===== *)
theory CameraPolicy
  imports Decimal
begin

text \<open>
  The stream policy of a camera: \<open>web/src/pages/cameras/streamOutputPolicyModel.ts\<close>, the controls of
  \<open>StreamOutputPolicyForm.tsx\<close> and the state of \<open>CameraStreamPolicyEditor.tsx\<close>. A request of the editor is a
  task until an input answers it; messages are constructors.
\<close>

section \<open>Settings\<close>

datatype source_key = RecordingSource | LiveSource
datatype stream_purpose = RecordingPurpose | LivePurpose | FocusPurpose
datatype video_encoder = Cpu | Nvenc
datatype video_mode = AutoVideo | CopyVideo | H264Video
datatype audio_mode = SourceAudio | NoAudio | AacAudio
datatype activation_mode = OnDemand | Always

record output_settings =
  purpose :: stream_purpose
  sourceKey :: source_key
  videoMode :: video_mode
  videoEncoder :: video_encoder
  maxWidth :: "rat option"
  maxHeight :: "rat option"
  maxFPS :: "rat option"
  audioMode :: audio_mode
  activation :: activation_mode

datatype apply_state = StreamsApplied | StreamsPending | ApplyFailed

record policy_camera =
  pcStream :: jsstring
  pcSources :: "source_key list option"
  pcOutputs :: "(stream_purpose \<times> output_settings) list"      \<comment> \<open>the desired settings of \<open>streamOutputs\<close>\<close>
  pcDesired :: int
  pcState :: apply_state

record policy_draft =
  draftKey :: jsstring
  baseRevision :: int
  serverRevision :: int
  outputs :: "output_settings list"
  dirty :: bool

definition policy_output ::
  "stream_purpose \<Rightarrow> source_key \<Rightarrow> video_mode \<Rightarrow> rat option \<Rightarrow> rat option \<Rightarrow> rat option \<Rightarrow> audio_mode \<Rightarrow> activation_mode \<Rightarrow> output_settings" where
  "policy_output p src v w h fps a act =
     \<lparr>purpose = p, sourceKey = src, videoMode = v, videoEncoder = Cpu, maxWidth = w, maxHeight = h, maxFPS = fps, audioMode = a,
      activation = act\<rparr>"

definition recommendedStreamOutputs :: "bool \<Rightarrow> output_settings list" where
  "recommendedStreamOutputs hasLiveSource =
     [policy_output RecordingPurpose RecordingSource CopyVideo None None None SourceAudio OnDemand,
      policy_output LivePurpose (if hasLiveSource then LiveSource else RecordingSource) H264Video (Some 1280) (Some 720) (Some 15) NoAudio Always,
      policy_output FocusPurpose RecordingSource AutoVideo (Some 1920) (Some 1080) None NoAudio OnDemand]"

definition has_live :: "policy_camera \<Rightarrow> bool" where
  "has_live c = (case pcSources c of None \<Rightarrow> False | Some ks \<Rightarrow> LiveSource \<in> set ks)"

text \<open>A \<open>Map\<close> keeps the last entry of a key.\<close>

definition draftFromCamera :: "policy_camera \<Rightarrow> policy_draft" where
  "draftFromCamera c =
     \<lparr>draftKey = pcStream c, baseRevision = pcDesired c, serverRevision = pcDesired c,
      outputs = map (\<lambda>o'. case map_of (rev (pcOutputs c)) (purpose o') of None \<Rightarrow> o' | Some d \<Rightarrow> d) (recommendedStreamOutputs (has_live c)),
      dirty = False\<rparr>"

definition reconcilePolicyDraft :: "policy_draft \<Rightarrow> policy_camera \<Rightarrow> policy_draft" where
  "reconcilePolicyDraft d c = (if draftKey d \<noteq> pcStream c then draftFromCamera c else d\<lparr>serverRevision := pcDesired c\<rparr>)"

definition reloadedPolicyDraft :: "policy_camera list \<Rightarrow> jsstring \<Rightarrow> policy_draft option" where
  "reloadedPolicyDraft cs key = map_option draftFromCamera (find (\<lambda>c. pcStream c = key) cs)"

text \<open>Of a candidate the token and the key of its producer; both may be missing.\<close>

definition hasDistinctLiveSource :: "(jsstring option \<times> jsstring option) list \<Rightarrow> jsstring \<Rightarrow> jsstring \<Rightarrow> bool" where
  "hasDistinctLiveSource candidates recordingToken liveToken =
     (if recordingToken = [] \<or> liveToken = [] \<or> recordingToken = liveToken then False
      else case (find (\<lambda>c. fst c = Some recordingToken) candidates, find (\<lambda>c. fst c = Some liveToken) candidates) of
             (Some (_, Some r), Some (_, Some l)) \<Rightarrow> r \<noteq> [] \<and> l \<noteq> [] \<and> r \<noteq> l
           | _ \<Rightarrow> False)"

definition normalizeUnavailableSources :: "output_settings list \<Rightarrow> source_key list \<Rightarrow> output_settings list" where
  "normalizeUnavailableSources outs available =
     map (\<lambda>o'. if sourceKey o' \<in> set available then o' else o'\<lparr>sourceKey := RecordingSource\<rparr>) outs"

section \<open>Validation\<close>

datatype policy_error =
  PoliciesMissing
| SourceUnavailable stream_purpose
| CopyWithGpu stream_purpose
| OnlyOneLength stream_purpose
| SizeTooSmall stream_purpose
| SizeOdd stream_purpose
| FpsOutOfRange stream_purpose
| CopyLimited stream_purpose

text \<open>\<open>x % 2 !== 0\<close> of a positive number and \<open>Number.isInteger\<close>.\<close>

definition is_integer :: "rat \<Rightarrow> bool" where "is_integer x \<longleftrightarrow> of_int \<lfloor>x\<rfloor> = x"
definition is_odd_rest :: "rat \<Rightarrow> bool" where "is_odd_rest x \<longleftrightarrow> x - 2 * of_int (trunc_rat (x / 2)) \<noteq> 0"

definition check_output :: "source_key list \<Rightarrow> output_settings \<Rightarrow> policy_error option" where
  "check_output available i =
     (let hasWidth = maxWidth i \<noteq> None; hasHeight = maxHeight i \<noteq> None
      in if sourceKey i \<notin> set available then Some (SourceUnavailable (purpose i))
         else if videoMode i = CopyVideo \<and> videoEncoder i = Nvenc then Some (CopyWithGpu (purpose i))
         else if hasWidth \<noteq> hasHeight then Some (OnlyOneLength (purpose i))
         else if hasWidth \<and> hasHeight \<and> (or_zero (maxWidth i) < 2 \<or> or_zero (maxHeight i) < 2) then Some (SizeTooSmall (purpose i))
         else if hasWidth \<and> hasHeight \<and> (is_odd_rest (or_zero (maxWidth i)) \<or> is_odd_rest (or_zero (maxHeight i))) then Some (SizeOdd (purpose i))
         else if (case maxFPS i of None \<Rightarrow> False | Some f \<Rightarrow> \<not> is_integer f \<or> f < 1 \<or> f > 60) then Some (FpsOutOfRange (purpose i))
         else if videoMode i = CopyVideo \<and> (hasWidth \<or> maxFPS i \<noteq> None) then Some (CopyLimited (purpose i))
         else None)"

fun first_error :: "source_key list \<Rightarrow> output_settings list \<Rightarrow> policy_error option" where
  "first_error available [] = None"
| "first_error available (i # is) = (case check_output available i of Some e \<Rightarrow> Some e | None \<Rightarrow> first_error available is)"

definition validateStreamOutputs :: "output_settings list \<Rightarrow> source_key list \<Rightarrow> policy_error option" where
  "validateStreamOutputs outs available =
     (if length outs \<noteq> 3 \<or> card (set (map purpose outs)) \<noteq> 3 then Some PoliciesMissing else first_error available outs)"

section \<open>The controls of the form\<close>

text \<open>\<open>Number\<close> of the value of a number field, or null.\<close>

definition nullableNumber :: "jsstring \<Rightarrow> rat option" where
  "nullableNumber v = (if v = [] then None else case number_of_text v of Num x \<Rightarrow> Some x | _ \<Rightarrow> None)"

datatype form_control =
  ChooseSource source_key
| ChooseVideo video_mode
| ChooseEncoder video_encoder
| ChooseAudio audio_mode
| ChooseActivation activation_mode
| LimitSize bool
| TypeWidth jsstring
| TypeHeight jsstring
| TypeFps jsstring

definition limitedSize :: "output_settings \<Rightarrow> bool" where
  "limitedSize o' \<longleftrightarrow> maxWidth o' \<noteq> None \<and> maxHeight o' \<noteq> None"

text \<open>What a control of the card does to the output; a disabled control does nothing, and an option that is
  disabled or not in the list cannot be chosen.\<close>

fun use_control :: "source_key list \<Rightarrow> form_control \<Rightarrow> output_settings \<Rightarrow> output_settings" where
  "use_control available (ChooseSource k) o' = (if k \<in> set available then o'\<lparr>sourceKey := k\<rparr> else o')"
| "use_control available (ChooseVideo m) o' =
     (if m = CopyVideo then o'\<lparr>videoMode := m, maxWidth := None, maxHeight := None, maxFPS := None, videoEncoder := Cpu\<rparr>
      else o'\<lparr>videoMode := m\<rparr>)"
| "use_control available (ChooseEncoder e) o' = (if videoMode o' = CopyVideo then o' else o'\<lparr>videoEncoder := e\<rparr>)"
| "use_control available (ChooseAudio a) o' = o'\<lparr>audioMode := a\<rparr>"
| "use_control available (ChooseActivation a) o' = (if purpose o' = LivePurpose then o' else o'\<lparr>activation := a\<rparr>)"
| "use_control available (LimitSize b) o' =
     (if videoMode o' = CopyVideo then o'
      else if b then o'\<lparr>maxWidth := Some 1920, maxHeight := Some 1080\<rparr> else o'\<lparr>maxWidth := None, maxHeight := None\<rparr>)"
| "use_control available (TypeWidth v) o' =
     (if \<not> limitedSize o' \<or> videoMode o' = CopyVideo then o' else o'\<lparr>maxWidth := nullableNumber v\<rparr>)"
| "use_control available (TypeHeight v) o' =
     (if \<not> limitedSize o' \<or> videoMode o' = CopyVideo then o' else o'\<lparr>maxHeight := nullableNumber v\<rparr>)"
| "use_control available (TypeFps v) o' = (if videoMode o' = CopyVideo then o' else o'\<lparr>maxFPS := nullableNumber v\<rparr>)"

definition update_output :: "source_key list \<Rightarrow> nat \<Rightarrow> form_control \<Rightarrow> output_settings list \<Rightarrow> output_settings list" where
  "update_output available k c outs = (if k < length outs then outs[k := use_control available c (outs ! k)] else outs)"

section \<open>The editor\<close>

datatype notice_state = NoticeApplied | NoticePending | NoticeConflict

datatype notice_message =
  SavedAndApplied | SavedNotApplied | ServerChanged | AllProbed | ProbedSomePending | Warned jsstring

record policy_notice =
  noticeState :: notice_state
  noticeMessage :: notice_message

definition warning_or :: "jsstring option \<Rightarrow> notice_message \<Rightarrow> notice_message" where
  "warning_or w m = (case w of None \<Rightarrow> m | Some [] \<Rightarrow> m | Some (c # s) \<Rightarrow> Warned (c # s))"

text \<open>The response is whether the policy is applied, and the warning.\<close>

definition policyMutationNotice :: "(bool \<times> jsstring option) option \<Rightarrow> int option \<Rightarrow> policy_notice" where
  "policyMutationNotice response status =
     (if status = Some 409 then \<lparr>noticeState = NoticeConflict, noticeMessage = ServerChanged\<rparr>
      else case response of
             Some (False, w) \<Rightarrow> \<lparr>noticeState = NoticePending, noticeMessage = warning_or w SavedNotApplied\<rparr>
           | _ \<Rightarrow> \<lparr>noticeState = NoticeApplied, noticeMessage = SavedAndApplied\<rparr>)"

datatype editor_error = InvalidPolicy policy_error | CameraNotFound | ReloadFailed jsstring

datatype editor_call =
  UpdateOutputs jsstring int "output_settings list"
| ProbeOutputs jsstring
| ReapplyOutputs jsstring int
| ProbeAllOutputs
| InvalidateCameras
| FetchCameras

datatype editor_task = AfterUpdate | AfterProbe | AfterReapply | AfterProbeAll | AfterInvalidate | AfterFetch | AfterConflict

record policy_editor =
  edCamera :: policy_camera
  draft :: policy_draft
  edNotice :: "policy_notice option"
  edValidation :: "editor_error option"
  reloading :: bool
  edTasks :: "(nat \<times> editor_task) list"
  edNext :: nat
  edCalls :: "editor_call list"

definition new_editor :: "policy_camera \<Rightarrow> policy_editor" where
  "new_editor c =
     \<lparr>edCamera = c, draft = draftFromCamera c, edNotice = None, edValidation = None, reloading = False, edTasks = [], edNext = 0,
      edCalls = []\<rparr>"

text \<open>\<open>isPending\<close> of the four mutations, and the reload.\<close>

definition mutation_tasks :: "editor_task set" where
  "mutation_tasks = {AfterUpdate, AfterProbe, AfterReapply, AfterProbeAll}"

definition editor_pending :: "policy_editor \<Rightarrow> bool" where
  "editor_pending s \<longleftrightarrow> reloading s \<or> (\<exists>t \<in> set (edTasks s). snd t \<in> mutation_tasks)"

definition serverChanged :: "policy_editor \<Rightarrow> bool" where
  "serverChanged s \<longleftrightarrow> serverRevision (draft s) \<noteq> baseRevision (draft s)"

definition availableSourceKeys :: "policy_editor \<Rightarrow> source_key list" where
  "availableSourceKeys s = remdups (case pcSources (edCamera s) of None \<Rightarrow> [] | Some ks \<Rightarrow> ks)"

definition editor_request :: "editor_call \<Rightarrow> editor_task \<Rightarrow> policy_editor \<Rightarrow> policy_editor" where
  "editor_request c t s = s\<lparr>edCalls := edCalls s @ [c], edTasks := edTasks s @ [(edNext s, t)], edNext := Suc (edNext s)\<rparr>"

definition reloadServer :: "policy_editor \<Rightarrow> policy_editor" where
  "reloadServer s = editor_request InvalidateCameras AfterInvalidate (s\<lparr>reloading := True\<rparr>)"

definition saveAndApply :: "policy_editor \<Rightarrow> policy_editor" where
  "saveAndApply s =
     (let failure = validateStreamOutputs (outputs (draft s)) (availableSourceKeys s);
          s1 = s\<lparr>edValidation := map_option InvalidPolicy failure\<rparr>
      in if failure \<noteq> None then s1
         else editor_request (UpdateOutputs (pcStream (edCamera s)) (baseRevision (draft s)) (outputs (draft s))) AfterUpdate s1)"

definition reapplyCamera :: "policy_editor \<Rightarrow> policy_editor" where
  "reapplyCamera s = editor_request (ReapplyOutputs (pcStream (edCamera s)) (baseRevision (draft s))) AfterReapply s"

definition restore_recommended :: "policy_editor \<Rightarrow> policy_editor" where
  "restore_recommended s = s\<lparr>draft := (draft s)\<lparr>outputs := recommendedStreamOutputs (has_live (edCamera s)), dirty := True\<rparr>\<rparr>"

definition edit_outputs :: "nat \<Rightarrow> form_control \<Rightarrow> policy_editor \<Rightarrow> policy_editor" where
  "edit_outputs k c s =
     s\<lparr>draft := (draft s)\<lparr>outputs := update_output (availableSourceKeys s) k c (outputs (draft s)), dirty := True\<rparr>,
       edNotice := None, edValidation := None\<rparr>"

text \<open>What a request is answered with. A rejection has the status of an \<open>HttpError\<close>, if it is one.\<close>

datatype editor_answer =
  Rejected "int option" jsstring
| Answered bool "jsstring option" policy_camera
| Fetched "policy_camera list"
| Finished

definition conflict :: "policy_editor \<Rightarrow> policy_editor" where
  "conflict s = editor_request InvalidateCameras AfterConflict (s\<lparr>edNotice := Some (policyMutationNotice None (Some 409))\<rparr>)"

fun editor_resume :: "editor_task \<Rightarrow> editor_answer \<Rightarrow> policy_editor \<Rightarrow> policy_editor" where
  "editor_resume AfterUpdate (Answered applied w c) s =
     s\<lparr>draft := draftFromCamera c, edNotice := Some (policyMutationNotice (Some (applied, w)) None)\<rparr>"
| "editor_resume AfterUpdate (Rejected status m) s = (if status = Some 409 then conflict s else s)"
| "editor_resume AfterProbe (Answered applied w c) s = s\<lparr>edNotice := Some (policyMutationNotice (Some (applied, w)) None)\<rparr>"
| "editor_resume AfterReapply (Answered applied w c) s = s\<lparr>edNotice := Some (policyMutationNotice (Some (applied, w)) None)\<rparr>"
| "editor_resume AfterReapply (Rejected status m) s = (if status = Some 409 then conflict s else s)"
| "editor_resume AfterProbeAll (Answered applied w c) s =
     s\<lparr>edNotice := Some (if applied then \<lparr>noticeState = NoticeApplied, noticeMessage = AllProbed\<rparr>
                         else \<lparr>noticeState = NoticePending, noticeMessage = warning_or w ProbedSomePending\<rparr>)\<rparr>"
| "editor_resume AfterInvalidate Finished s = editor_request FetchCameras AfterFetch s"
| "editor_resume AfterInvalidate (Rejected status m) s = s\<lparr>edValidation := Some (ReloadFailed m), reloading := False\<rparr>"
| "editor_resume AfterFetch (Fetched cs) s =
     (case reloadedPolicyDraft cs (pcStream (edCamera s)) of
        None \<Rightarrow> s\<lparr>edValidation := Some CameraNotFound, reloading := False\<rparr>
      | Some d \<Rightarrow> s\<lparr>draft := d, edNotice := None, edValidation := None, reloading := False\<rparr>)"
| "editor_resume AfterFetch (Rejected status m) s = s\<lparr>edValidation := Some (ReloadFailed m), reloading := False\<rparr>"
| "editor_resume t a s = s"

text \<open>The answer fits the request, as the type of its promise says.\<close>

fun fits :: "editor_task \<Rightarrow> editor_answer \<Rightarrow> bool" where
  "fits t (Rejected status m) = True"
| "fits t (Answered applied w c) = (t \<in> mutation_tasks)"
| "fits t (Fetched cs) = (t = AfterFetch)"
| "fits t Finished = (t = AfterInvalidate \<or> t = AfterConflict)"

datatype editor_input =
  CameraRefreshed policy_camera
| UseControl nat form_control
| ClickSave | ClickProbe | ClickRestore | ClickReapply | ClickProbeAll | ClickReload
| AnswerArrives nat editor_answer

fun editor_exec :: "editor_input \<Rightarrow> policy_editor \<Rightarrow> policy_editor" where
  "editor_exec (CameraRefreshed c) s = s\<lparr>edCamera := c, draft := reconcilePolicyDraft (draft s) c\<rparr>"
| "editor_exec (UseControl k c) s = (if editor_pending s then s else edit_outputs k c s)"
| "editor_exec ClickSave s = (if \<not> dirty (draft s) \<or> editor_pending s then s else saveAndApply s)"
| "editor_exec ClickProbe s = (if editor_pending s then s else editor_request (ProbeOutputs (pcStream (edCamera s))) AfterProbe s)"
| "editor_exec ClickRestore s = (if editor_pending s then s else restore_recommended s)"
| "editor_exec ClickReapply s = (if editor_pending s then s else reapplyCamera s)"
| "editor_exec ClickProbeAll s = (if editor_pending s then s else editor_request ProbeAllOutputs AfterProbeAll s)"
| "editor_exec ClickReload s =
     (if (serverChanged s \<or> map_option noticeState (edNotice s) = Some NoticeConflict) \<and> \<not> reloading s then reloadServer s else s)"
| "editor_exec (AnswerArrives k a) s =
     (case map_of (edTasks s) k of
        None \<Rightarrow> s
      | Some t \<Rightarrow> if fits t a then editor_resume t a (s\<lparr>edTasks := filter (\<lambda>(j, _). j \<noteq> k) (edTasks s)\<rparr>) else s)"

definition editor_run :: "editor_input list \<Rightarrow> policy_editor \<Rightarrow> policy_editor" where
  "editor_run ins s = fold editor_exec ins s"

end
