(* ===== verification/CameraPolicyProps.thy ===== *)
theory CameraPolicyProps
  imports CameraPolicy
begin

text \<open>
  What the validation of a stream policy accepts, what the form can produce, and the revision that a save of
  the editor expects on the server.
\<close>

section \<open>Accepted policies\<close>

definition even_length :: "rat \<Rightarrow> bool" where
  "even_length x \<longleftrightarrow> (\<exists>n::int. 1 \<le> n \<and> x = of_int (2 * n))"

definition good_fps :: "rat \<Rightarrow> bool" where
  "good_fps x \<longleftrightarrow> (\<exists>n::int. 1 \<le> n \<and> n \<le> 60 \<and> x = of_int n)"

definition unlimited_copy :: "output_settings \<Rightarrow> bool" where
  "unlimited_copy o' \<longleftrightarrow> (videoMode o' = CopyVideo \<longrightarrow> videoEncoder o' = Cpu \<and> maxWidth o' = None \<and> maxHeight o' = None \<and> maxFPS o' = None)"

definition sound_limits :: "output_settings \<Rightarrow> bool" where
  "sound_limits o' \<longleftrightarrow>
     (case (maxWidth o', maxHeight o') of (None, None) \<Rightarrow> True | (Some w, Some h) \<Rightarrow> even_length w \<and> even_length h | _ \<Rightarrow> False)
     \<and> (case maxFPS o' of None \<Rightarrow> True | Some f \<Rightarrow> good_fps f)"

definition policy_ok :: "source_key list \<Rightarrow> output_settings list \<Rightarrow> bool" where
  "policy_ok available outs \<longleftrightarrow> length outs = 3 \<and> distinct (map purpose outs)
     \<and> (\<forall>o' \<in> set outs. sourceKey o' \<in> set available \<and> unlimited_copy o' \<and> sound_limits o')"

lemma even_rest: "2 \<le> x \<Longrightarrow> \<not> is_odd_rest x \<longleftrightarrow> even_length x"
proof -
  assume x: "2 \<le> x"
  then have t: "trunc_rat (x / 2) = \<lfloor>x / 2\<rfloor>" by (simp add: trunc_rat_def)
  have one: "1 \<le> \<lfloor>x / 2\<rfloor>" using x by (simp add: le_floor_iff)
  show ?thesis
  proof
    assume "\<not> is_odd_rest x"
    then have "x = of_int (2 * \<lfloor>x / 2\<rfloor>)" by (simp add: is_odd_rest_def t)
    with one show "even_length x" unfolding even_length_def by blast
  next
    assume "even_length x"
    then obtain n :: int where n: "x = of_int (2 * n)" by (auto simp: even_length_def)
    then have "x / 2 = of_int n" by simp
    then show "\<not> is_odd_rest x" unfolding is_odd_rest_def t by (simp add: n)
  qed
qed

lemma even_length_ge: "even_length x \<Longrightarrow> 2 \<le> x"
  by (auto simp: even_length_def)

lemma fps_range: "is_integer x \<and> \<not> x < 1 \<and> \<not> 60 < x \<longleftrightarrow> good_fps x"
proof
  assume a: "is_integer x \<and> \<not> x < 1 \<and> \<not> 60 < x"
  then have "x = of_int \<lfloor>x\<rfloor>" unfolding is_integer_def by metis
  moreover from a this have "1 \<le> \<lfloor>x\<rfloor>" "\<lfloor>x\<rfloor> \<le> 60" by (simp_all add: le_floor_iff floor_le_iff)
  ultimately show "good_fps x" unfolding good_fps_def by blast
next
  assume "good_fps x"
  then obtain n :: int where "1 \<le> n" "n \<le> 60" "x = of_int n" by (auto simp: good_fps_def)
  then show "is_integer x \<and> \<not> x < 1 \<and> \<not> 60 < x" by (simp add: is_integer_def not_less)
qed

lemma check_output_ok:
  "check_output available o' = None \<longleftrightarrow> sourceKey o' \<in> set available \<and> unlimited_copy o' \<and> sound_limits o'"
proof -
  have e: "\<not> x < 2 \<and> \<not> is_odd_rest x \<longleftrightarrow> even_length x" for x using even_rest [of x] even_length_ge [of x] by auto
  show ?thesis
    by (cases "maxWidth o'"; cases "maxHeight o'"; cases "maxFPS o'"; cases "videoEncoder o'")
      (auto simp: check_output_def unlimited_copy_def sound_limits_def or_zero_def Let_def fps_range [symmetric] e [symmetric])
qed

lemma first_error_ok: "first_error available outs = None \<longleftrightarrow> (\<forall>o' \<in> set outs. check_output available o' = None)"
  by (induction outs) (auto split: option.split)

lemma policy_accepted: "validateStreamOutputs outs available = None \<longleftrightarrow> policy_ok available outs"
proof (cases "length outs = 3")
  case True
  then have "card (set (map purpose outs)) = 3 \<longleftrightarrow> distinct (map purpose outs)"
    using distinct_card [of "map purpose outs"] card_distinct [of "map purpose outs"] by auto
  with True show ?thesis
    by (auto simp: validateStreamOutputs_def policy_ok_def first_error_ok check_output_ok)
qed (simp add: validateStreamOutputs_def policy_ok_def)

text \<open>The recommended policy is accepted, and no control of the form limits a copied stream.\<close>

lemma recommended_ok: "policy_ok (if live then [RecordingSource, LiveSource] else [RecordingSource]) (recommendedStreamOutputs live)"
proof -
  have "even_length 1280" "even_length 720" "even_length 1920" "even_length 1080" "good_fps 15"
    unfolding even_length_def good_fps_def by (rule exI [of _ 640], simp, rule exI [of _ 360], simp, rule exI [of _ 960], simp,
        rule exI [of _ 540], simp, rule exI [of _ 15], simp)
  then show ?thesis
    by (simp add: policy_ok_def recommendedStreamOutputs_def policy_output_def unlimited_copy_def sound_limits_def)
qed

lemma control_keeps_copy: "unlimited_copy o' \<Longrightarrow> unlimited_copy (use_control available c o')"
  by (cases c) (auto simp: unlimited_copy_def)

lemma control_keeps_purpose: "purpose (use_control available c o') = purpose o'"
  by (cases c) auto

text \<open>A width field that is emptied to type a new number is disabled with its neighbour, and the policy is refused.\<close>

lemma emptied_width_locks_the_field:
  assumes "videoMode o' \<noteq> CopyVideo" and "maxHeight o' = Some h" and "sourceKey o' \<in> set available"
  shows "let e = use_control available (TypeWidth []) o'
         in limitedSize o' \<longrightarrow> use_control available (TypeWidth v) e = e \<and> use_control available (TypeHeight v) e = e
              \<and> check_output available e = Some (OnlyOneLength (purpose o'))"
  using assms by (auto simp: limitedSize_def nullableNumber_def check_output_def Let_def)

section \<open>Revisions\<close>

text \<open>An input that gives the editor a new draft from the server.\<close>

fun loads :: "editor_input \<Rightarrow> bool" where
  "loads (AnswerArrives k (Answered applied w c)) = True"
| "loads (AnswerArrives k (Fetched cs)) = True"
| "loads i = False"

fun refreshes :: "jsstring \<Rightarrow> editor_input \<Rightarrow> bool" where
  "refreshes key (CameraRefreshed c) = (pcStream c = key)"
| "refreshes key i = True"

text \<open>The requests that change the policy expect the revision \<open>r\<close> and carry an accepted policy.\<close>

fun expects :: "jsstring \<Rightarrow> int \<Rightarrow> editor_call \<Rightarrow> bool" where
  "expects key r (UpdateOutputs n e outs) = (n = key \<and> e = r \<and> (\<exists>available. policy_ok available outs))"
| "expects key r (ReapplyOutputs n e) = (n = key \<and> e = r)"
| "expects key r c = True"

definition based_on :: "jsstring \<Rightarrow> int \<Rightarrow> editor_call list \<Rightarrow> policy_editor \<Rightarrow> bool" where
  "based_on key r old s \<longleftrightarrow> draftKey (draft s) = key \<and> baseRevision (draft s) = r \<and> pcStream (edCamera s) = key
     \<and> (\<exists>new. edCalls s = old @ new \<and> list_all (expects key r) new)"

lemma based_request:
  "based_on key r old s \<Longrightarrow> expects key r c \<Longrightarrow> based_on key r old (editor_request c t s)"
  by (auto simp: based_on_def editor_request_def)

lemma based_same:
  "based_on key r old s \<Longrightarrow> draftKey (draft t) = draftKey (draft s) \<Longrightarrow> baseRevision (draft t) = baseRevision (draft s)
   \<Longrightarrow> edCamera t = edCamera s \<Longrightarrow> edCalls t = edCalls s \<Longrightarrow> based_on key r old t"
  by (simp add: based_on_def)

lemma based_save: "based_on key r old s \<Longrightarrow> based_on key r old (saveAndApply s)"
proof -
  assume b: "based_on key r old s"
  let ?s1 = "s\<lparr>edValidation := map_option InvalidPolicy (validateStreamOutputs (outputs (draft s)) (availableSourceKeys s))\<rparr>"
  have b1: "based_on key r old ?s1" by (rule based_same [OF b]) simp_all
  have c: "validateStreamOutputs (outputs (draft s)) (availableSourceKeys s) = None
     \<Longrightarrow> expects key r (UpdateOutputs (pcStream (edCamera s)) (baseRevision (draft s)) (outputs (draft s)))"
    using b policy_accepted by (auto simp: based_on_def)
  show ?thesis using b1 based_request [OF b1 c] by (auto simp: saveAndApply_def Let_def)
qed

lemma based_conflict: "based_on key r old s \<Longrightarrow> based_on key r old (conflict s)"
  unfolding conflict_def by (rule based_request, rule based_same) simp_all

lemma based_resume:
  assumes "based_on key r old s" and "fits t a" and "\<not> loads (AnswerArrives k a)"
  shows "based_on key r old (editor_resume t a s)"
proof (cases a)
  case (Rejected status m)
  with assms(1) show ?thesis by (cases t) (auto intro: based_conflict based_same)
next
  case Finished
  with assms show ?thesis by (cases t) (auto intro: based_request)
qed (use assms(3) in simp_all)

lemma based_exec:
  assumes "based_on key r old s" and "\<not> loads i" and "refreshes key i"
  shows "based_on key r old (editor_exec i s)"
proof (cases i)
  case (CameraRefreshed c)
  with assms show ?thesis by (auto simp: based_on_def reconcilePolicyDraft_def)
next
  case (UseControl k c)
  with assms(1) show ?thesis by (auto simp: edit_outputs_def intro: based_same)
next
  case ClickSave
  with assms(1) show ?thesis by (simp add: based_save)
next
  case ClickProbe
  with assms(1) show ?thesis by (auto intro: based_request)
next
  case ClickRestore
  with assms(1) show ?thesis by (auto simp: restore_recommended_def intro: based_same)
next
  case ClickReapply
  have "expects key r (ReapplyOutputs (pcStream (edCamera s)) (baseRevision (draft s)))" using assms(1) by (simp add: based_on_def)
  with assms(1) ClickReapply show ?thesis by (simp add: reapplyCamera_def based_request)
next
  case ClickProbeAll
  with assms(1) show ?thesis by (auto intro: based_request)
next
  case ClickReload
  have "based_on key r old (s\<lparr>reloading := True\<rparr>)" by (rule based_same [OF assms(1)]) simp_all
  with assms(1) ClickReload show ?thesis by (auto simp: reloadServer_def intro: based_request)
next
  case (AnswerArrives k a)
  have "based_on key r old (s\<lparr>edTasks := filter (\<lambda>(j, _). j \<noteq> k) (edTasks s)\<rparr>)" by (rule based_same [OF assms(1)]) simp_all
  with assms(1,2) AnswerArrives show ?thesis by (auto split: option.split intro: based_resume)
qed

section \<open>Property\<close>


definition example_camera :: "int \<Rightarrow> policy_camera" where
  "example_camera r = \<lparr>pcStream = js ''yard'', pcSources = Some [RecordingSource, LiveSource], pcOutputs = [], pcDesired = r, pcState = StreamsApplied\<rparr>"


end
