(* ===== verification/ProfileLibrary.thy ===== *)
theory ProfileLibrary
  imports Decimal
begin

text \<open>
  The templates of camera profiles: \<open>web/src/pages/cameras/model.ts\<close>, \<open>profileLibraryMapping.ts\<close> and
  \<open>profileLibraryModel.ts\<close>. A template's streams are edited as text, one line per stream. How a number that
  is no integer is written (\<open>show\<close>) and the path of a URL (\<open>url_path\<close>) are parameters; messages are constructors.
\<close>

section \<open>Scan results\<close>

record candidate =
  roleHint :: jsstring
  candLabel :: jsstring
  candSource :: jsstring
  redactedUrl :: "jsstring option"
  candCodec :: "jsstring option"
  candWidth :: "int option"
  candHeight :: "int option"
  candFps :: "rat option"
  candBitrate :: "int option"
  candToken :: "jsstring option"
  producerKey :: "jsstring option"

record scan_channel =
  scanIndex :: int
  scanLabel :: jsstring
  scanCandidates :: "candidate list"

record device_profile =
  dpManufacturer :: jsstring
  dpModel :: jsstring
  dpAdapter :: jsstring
  dpChannels :: "scan_channel list"

record role_selection =
  channelIndex :: int
  recordingToken :: jsstring
  liveToken :: jsstring

definition preferredCandidate :: "candidate list \<Rightarrow> jsstring \<Rightarrow> candidate option" where
  "preferredCandidate cs r =
     (case find (\<lambda>c. roleHint c = r) cs of Some c \<Rightarrow> Some c | None \<Rightarrow> (case cs of [] \<Rightarrow> None | c # _ \<Rightarrow> Some c))"

definition token_of :: "candidate option \<Rightarrow> jsstring" where
  "token_of c = (case Option.bind c candToken of None \<Rightarrow> [] | Some t \<Rightarrow> t)"

definition defaultRoleSelection :: "device_profile \<Rightarrow> role_selection" where
  "defaultRoleSelection p =
     (let cs = (case dpChannels p of [] \<Rightarrow> [] | ch # _ \<Rightarrow> scanCandidates ch);
          recording = preferredCandidate cs (js ''recording'');
          live = (case preferredCandidate cs (js ''live'') of Some c \<Rightarrow> Some c | None \<Rightarrow> recording)
      in \<lparr>channelIndex = (case dpChannels p of [] \<Rightarrow> 0 | ch # _ \<Rightarrow> scanIndex ch), recordingToken = token_of recording, liveToken = token_of live\<rparr>)"

definition candidatesForChannel :: "device_profile \<Rightarrow> int \<Rightarrow> candidate list" where
  "candidatesForChannel p k =
     (case find (\<lambda>ch. scanIndex ch = k) (dpChannels p) of
        Some ch \<Rightarrow> scanCandidates ch
      | None \<Rightarrow> (case dpChannels p of [] \<Rightarrow> [] | ch # _ \<Rightarrow> scanCandidates ch))"

definition selectedCandidate :: "device_profile \<Rightarrow> int \<Rightarrow> jsstring \<Rightarrow> candidate option" where
  "selectedCandidate p k t = find (\<lambda>c. candToken c = Some t) (candidatesForChannel p k)"

definition streamSelections :: "role_selection \<Rightarrow> (jsstring \<times> jsstring) list" where
  "streamSelections s = filter (\<lambda>(r, t). t \<noteq> []) [(js ''recording'', recordingToken s), (js ''live'', liveToken s)]"

definition selectionReady :: "role_selection \<Rightarrow> bool" where
  "selectionReady s \<longleftrightarrow> recordingToken s \<noteq> [] \<and> liveToken s \<noteq> []"

definition formatSize :: "int option \<Rightarrow> int option \<Rightarrow> jsstring" where
  "formatSize w h =
     (case (w, h) of
        (Some a, Some b) \<Rightarrow> if a = 0 \<or> b = 0 then js ''-'' else decimal a @ js ''x'' @ decimal b
      | _ \<Rightarrow> js ''-'')"

definition middle_dot :: jsstring where "middle_dot = [0x20, 0xB7, 0x20]"

definition join_parts :: "jsstring \<Rightarrow> jsstring list \<Rightarrow> jsstring" where
  "join_parts sep xs = (case xs of [] \<Rightarrow> [] | y # ys \<Rightarrow> y @ concat (map (\<lambda>z. sep @ z) ys))"

definition candidateLabel :: "(rat \<Rightarrow> jsstring) \<Rightarrow> candidate \<Rightarrow> jsstring" where
  "candidateLabel show c =
     (let fps = (case candFps c of None \<Rightarrow> [] | Some f \<Rightarrow> if f = 0 then [] else show f @ js ''fps'');
          details = join_parts middle_dot (filter (\<lambda>x. x \<noteq> [])
            [formatSize (candWidth c) (candHeight c), (case candCodec c of None \<Rightarrow> [] | Some x \<Rightarrow> x), fps])
      in if details \<noteq> [] then candLabel c @ js '' ('' @ details @ js '')'' else candLabel c)"

definition roleLabel :: "jsstring \<Rightarrow> jsstring" where
  "roleLabel r =
     (if r = js ''recording'' then [0xB179, 0xD654] else if r = js ''live'' then [0xB77C, 0xC774, 0xBE0C]
      else if r = js ''snapshot'' then [0xC2A4, 0xB0C5, 0xC0F7] else r)"

section \<open>The lines of a mapping\<close>

record template_stream =
  streamRole :: jsstring
  streamLabel :: jsstring
  streamSource :: jsstring
  streamPath :: jsstring
  streamToken :: "jsstring option"
  streamCodec :: "jsstring option"
  streamWidth :: "int option"
  streamHeight :: "int option"
  streamFps :: "rat option"
  streamBitrate :: "int option"

record template_channel =
  templateIndex :: int
  templateName :: jsstring
  templateStreams :: "template_stream list"

datatype mapping_column = ColumnChannel | ColumnRole | ColumnLabel | ColumnSource | ColumnPath | ColumnWidth | ColumnHeight | ColumnFps | ColumnBitrate

datatype mapping_error =
  NoMappingLine
| CellMissing nat mapping_column
| CellNoNumber nat mapping_column
| PathWithAccount nat
| FormIncomplete

definition bar :: jschar where "bar = 0x7C"
definition newline :: jschar where "newline = 0x0A"

definition or_empty :: "('a \<Rightarrow> jsstring) \<Rightarrow> 'a option \<Rightarrow> jsstring" where
  "or_empty f x = (case x of None \<Rightarrow> [] | Some a \<Rightarrow> f a)"

definition streamLine :: "(rat \<Rightarrow> jsstring) \<Rightarrow> template_channel \<Rightarrow> template_stream \<Rightarrow> jsstring" where
  "streamLine show ch st = js_join bar
     [decimal (templateIndex ch), templateName ch, streamRole st, streamLabel st, streamSource st, streamPath st,
      or_empty (\<lambda>x. x) (streamToken st), or_empty (\<lambda>x. x) (streamCodec st), or_empty decimal (streamWidth st),
      or_empty decimal (streamHeight st), or_empty show (streamFps st), or_empty decimal (streamBitrate st)]"

definition mappingTextFromChannels :: "(rat \<Rightarrow> jsstring) \<Rightarrow> template_channel list \<Rightarrow> jsstring" where
  "mappingTextFromChannels show chs = js_join newline (concat (map (\<lambda>ch. map (streamLine show ch) (templateStreams ch)) chs))"

text \<open>\<open>URL.canParse(value)\<close> with \<open>pathname\<close> and \<open>search\<close> of the URL is \<open>url_path value\<close>.\<close>

definition candidate_path :: "(jsstring \<Rightarrow> jsstring option) \<Rightarrow> jsstring \<Rightarrow> jsstring option" where
  "candidate_path url_path v =
     (if v = [] then None
      else if starts_with v (js ''/'') then Some v
      else if \<not> contains_sub v (js ''://'') then None
      else url_path v)"

definition pathFromCandidate :: "(jsstring \<Rightarrow> jsstring option) \<Rightarrow> candidate \<Rightarrow> jsstring" where
  "pathFromCandidate url_path c =
     (case List.map_filter (candidate_path url_path) ((case redactedUrl c of None \<Rightarrow> [] | Some u \<Rightarrow> [u]) @ [candSource c]) of
        p # _ \<Rightarrow> p
      | [] \<Rightarrow> (case candToken c of
                 Some t \<Rightarrow> if t \<noteq> [] then js ''/profiles/'' @ t else js ''/'' @ roleHint c
               | None \<Rightarrow> js ''/'' @ roleHint c))"

definition channel_name :: "int \<Rightarrow> jsstring" where "channel_name k = js ''channel '' @ decimal k"

definition mappingLine :: "(rat \<Rightarrow> jsstring) \<Rightarrow> (jsstring \<Rightarrow> jsstring option) \<Rightarrow> int \<Rightarrow> jsstring \<Rightarrow> candidate option \<Rightarrow> jsstring" where
  "mappingLine show url_path k name c =
     (case c of
        None \<Rightarrow> []
      | Some c \<Rightarrow> js_join bar
          [decimal k, if name \<noteq> [] then name else channel_name k, roleHint c, candLabel c,
           if candSource c \<noteq> [] then candSource c else js ''scan'', pathFromCandidate url_path c,
           or_empty (\<lambda>x. x) (candToken c), or_empty (\<lambda>x. x) (candCodec c), or_empty decimal (candWidth c),
           or_empty decimal (candHeight c), or_empty show (candFps c), or_empty decimal (candBitrate c)])"

section \<open>Reading a mapping\<close>

definition cell :: "jsstring list \<Rightarrow> nat \<Rightarrow> jsstring option" where
  "cell cs k = (if k < length cs then Some (cs ! k) else None)"

definition requiredCell :: "jsstring option \<Rightarrow> mapping_error \<Rightarrow> mapping_error + jsstring" where
  "requiredCell v e = (let trimmed = or_empty js_trim v in if trimmed = [] then Inl e else Inr trimmed)"

definition parseInteger :: "jsstring option \<Rightarrow> nat \<Rightarrow> mapping_column \<Rightarrow> mapping_error + int" where
  "parseInteger v line col =
     (case requiredCell v (CellMissing line col) of
        Inl e \<Rightarrow> Inl e
      | Inr t \<Rightarrow> (case parse_int t of
                   None \<Rightarrow> Inl (CellNoNumber line col)
                 | Some n \<Rightarrow> if n < 0 then Inl (CellNoNumber line col) else Inr n))"

definition parseOptionalInteger :: "jsstring option \<Rightarrow> nat \<Rightarrow> mapping_column \<Rightarrow> mapping_error + int option" where
  "parseOptionalInteger v line col =
     (if v = None \<or> v = Some [] then Inr None
      else case parse_int (the v) of
             None \<Rightarrow> Inl (CellNoNumber line col)
           | Some n \<Rightarrow> if n < 0 then Inl (CellNoNumber line col) else Inr (Some n))"

definition parseOptionalNumber :: "jsstring option \<Rightarrow> nat \<Rightarrow> mapping_column \<Rightarrow> mapping_error + rat option" where
  "parseOptionalNumber v line col =
     (if v = None \<or> v = Some [] then Inr None
      else case parse_float (the v) of
             Num x \<Rightarrow> if x < 0 then Inl (CellNoNumber line col) else Inr (Some x)
           | _ \<Rightarrow> Inl (CellNoNumber line col))"

definition bind_sum :: "'e + 'a \<Rightarrow> ('a \<Rightarrow> 'e + 'b) \<Rightarrow> 'e + 'b" where
  "bind_sum x f = (case x of Inl e \<Rightarrow> Inl e | Inr a \<Rightarrow> f a)"

text \<open>One line: the index of its channel, the name for it if it is new, and the stream.\<close>

definition parse_line :: "nat \<Rightarrow> jsstring \<Rightarrow> mapping_error + int \<times> jsstring \<times> template_stream" where
  "parse_line line s =
     (let cs = map js_trim (js_split bar s) in
      bind_sum (parseInteger (cell cs 0) line ColumnChannel) (\<lambda>k.
      bind_sum (requiredCell (cell cs 2) (CellMissing line ColumnRole)) (\<lambda>r.
      bind_sum (requiredCell (cell cs 3) (CellMissing line ColumnLabel)) (\<lambda>l.
      bind_sum (requiredCell (cell cs 4) (CellMissing line ColumnSource)) (\<lambda>src.
      bind_sum (requiredCell (cell cs 5) (CellMissing line ColumnPath)) (\<lambda>p.
      if contains_sub p (js ''://'') \<or> contains_sub p (js ''@'') then Inl (PathWithAccount line)
      else
      bind_sum (parseOptionalInteger (cell cs 8) line ColumnWidth) (\<lambda>w.
      bind_sum (parseOptionalInteger (cell cs 9) line ColumnHeight) (\<lambda>h.
      bind_sum (parseOptionalNumber (cell cs 10) line ColumnFps) (\<lambda>f.
      bind_sum (parseOptionalInteger (cell cs 11) line ColumnBitrate) (\<lambda>b.
      Inr (k, (if or_empty (\<lambda>x. x) (cell cs 1) \<noteq> [] then the (cell cs 1) else channel_name k),
           \<lparr>streamRole = r, streamLabel = l, streamSource = src, streamPath = p,
            streamToken = Some (or_empty (\<lambda>x. x) (cell cs 6)), streamCodec = Some (or_empty (\<lambda>x. x) (cell cs 7)),
            streamWidth = w, streamHeight = h, streamFps = f, streamBitrate = b\<rparr>)))))))))))"

fun add_stream :: "int \<Rightarrow> jsstring \<Rightarrow> template_stream \<Rightarrow> template_channel list \<Rightarrow> template_channel list" where
  "add_stream k name st [] = [\<lparr>templateIndex = k, templateName = name, templateStreams = [st]\<rparr>]"
| "add_stream k name st (ch # chs) =
     (if templateIndex ch = k then ch\<lparr>templateStreams := templateStreams ch @ [st]\<rparr> # chs else ch # add_stream k name st chs)"

definition addMappingLine :: "template_channel list \<Rightarrow> jsstring \<Rightarrow> nat \<Rightarrow> mapping_error + template_channel list" where
  "addMappingLine chs s line = bind_sum (parse_line line s) (\<lambda>(k, name, st). Inr (add_stream k name st chs))"

fun add_lines :: "template_channel list \<Rightarrow> jsstring list \<Rightarrow> nat \<Rightarrow> mapping_error + template_channel list" where
  "add_lines chs [] line = Inr chs"
| "add_lines chs (s # ss) line = bind_sum (addMappingLine chs s line) (\<lambda>chs'. add_lines chs' ss (Suc line))"

definition mapping_lines :: "jsstring \<Rightarrow> jsstring list" where
  "mapping_lines s = filter (\<lambda>l. l \<noteq> [] \<and> \<not> starts_with l (js ''#'')) (map js_trim (js_split newline s))"

definition channelsFromMappingText :: "jsstring \<Rightarrow> mapping_error + template_channel list" where
  "channelsFromMappingText s =
     (let ls = mapping_lines s
      in if ls = [] then Inl NoMappingLine else bind_sum (add_lines [] ls 1) (\<lambda>chs. Inr (sort_key templateIndex chs)))"

section \<open>Templates and their form\<close>

record capabilities =
  capOnvif :: "bool option"
  capRtsp :: "bool option"
  capSnapshot :: "bool option"
  capMulti :: "bool option"

record profile_input =
  inputName :: jsstring
  inputManufacturer :: jsstring
  inputModel :: jsstring
  inputAdapter :: jsstring
  inputVersion :: int
  inputRules :: "(jsstring \<times> jsstring \<times> jsstring) list"
  inputChannels :: "template_channel list"
  inputCapabilities :: capabilities

record template = profile_input +
  templateId :: int

record library_form =
  formName :: jsstring
  formManufacturer :: jsstring
  formModel :: jsstring
  formAdapter :: jsstring
  formVersion :: jsstring
  formMapping :: jsstring
  formOnvif :: bool
  formRtsp :: bool
  formSnapshot :: bool
  formMulti :: bool

definition defaultMappingText :: jsstring where
  "defaultMappingText = js ''0|main|recording|main|manual|/main|PROFILE_MAIN|h264|1920|1080|15|2048'' @ [newline]
     @ js ''0|main|live|sub|manual|/sub|PROFILE_SUB|h264|640|360|15|512''"

definition emptyProfileForm :: library_form where
  "emptyProfileForm =
     \<lparr>formName = [], formManufacturer = [], formModel = [], formAdapter = js ''manual'', formVersion = js ''1'',
      formMapping = defaultMappingText, formOnvif = False, formRtsp = True, formSnapshot = False, formMulti = False\<rparr>"

definition or_false :: "bool option \<Rightarrow> bool" where "or_false b = (case b of None \<Rightarrow> False | Some x \<Rightarrow> x)"

definition formFromTemplate :: "(rat \<Rightarrow> jsstring) \<Rightarrow> 'a profile_input_scheme \<Rightarrow> library_form" where
  "formFromTemplate show t =
     \<lparr>formName = inputName t, formManufacturer = inputManufacturer t, formModel = inputModel t, formAdapter = inputAdapter t,
      formVersion = decimal (inputVersion t), formMapping = mappingTextFromChannels show (inputChannels t),
      formOnvif = or_false (capOnvif (inputCapabilities t)), formRtsp = or_false (capRtsp (inputCapabilities t)),
      formSnapshot = or_false (capSnapshot (inputCapabilities t)),
      formMulti = (case capMulti (inputCapabilities t) of None \<Rightarrow> length (inputChannels t) > 1 | Some b \<Rightarrow> b)\<rparr>"

definition formFromDraftSource ::
  "(rat \<Rightarrow> jsstring) \<Rightarrow> (jsstring \<Rightarrow> jsstring option) \<Rightarrow> device_profile \<Rightarrow> role_selection \<Rightarrow> library_form" where
  "formFromDraftSource show url_path p s =
     (let k = channelIndex s;
          name = (case find (\<lambda>ch. scanIndex ch = k) (dpChannels p) of None \<Rightarrow> channel_name k | Some ch \<Rightarrow> scanLabel ch);
          lines = js_join newline (filter (\<lambda>l. l \<noteq> [])
            [mappingLine show url_path k name (selectedCandidate p k (recordingToken s)),
             mappingLine show url_path k name (selectedCandidate p k (liveToken s))])
      in \<lparr>formName = js_trim (dpManufacturer p @ js '' '' @ dpModel p), formManufacturer = dpManufacturer p, formModel = dpModel p,
          formAdapter = (if dpAdapter p \<noteq> [] then dpAdapter p else js ''manual''), formVersion = js ''1'',
          formMapping = (if lines \<noteq> [] then lines else defaultMappingText), formOnvif = (dpAdapter p = js ''onvif''), formRtsp = True,
          formSnapshot = list_ex (\<lambda>ch. list_ex (\<lambda>c. roleHint c = js ''snapshot'') (scanCandidates ch)) (dpChannels p),
          formMulti = length (dpChannels p) > 1\<rparr>)"

definition profileInputFromForm :: "library_form \<Rightarrow> mapping_error + profile_input" where
  "profileInputFromForm f =
     (let n = js_trim (formName f); m = js_trim (formManufacturer f); d = js_trim (formModel f); a = js_trim (formAdapter f);
          v = parse_int (formVersion f)
      in if n = [] \<or> m = [] \<or> d = [] \<or> a = [] \<or> v = None \<or> the v < 1 then Inl FormIncomplete
         else bind_sum (channelsFromMappingText (formMapping f)) (\<lambda>chs.
           Inr \<lparr>inputName = n, inputManufacturer = m, inputModel = d, inputAdapter = a, inputVersion = the v,
                inputRules = [(js ''manufacturer'', js ''equals'', m), (js ''model'', js ''contains'', d)], inputChannels = chs,
                inputCapabilities = \<lparr>capOnvif = Some (formOnvif f), capRtsp = Some (formRtsp f), capSnapshot = Some (formSnapshot f),
                  capMulti = Some (formMulti f \<or> length chs > 1)\<rparr>\<rparr>))"

definition profileTemplateSummary :: "'a profile_input_scheme \<Rightarrow> jsstring" where
  "profileTemplateSummary t =
     decimal (int (length (inputChannels t))) @ [0xCC44, 0xB110, 0x20, 0xB7, 0x20]
     @ decimal (int (sum_list (map (\<lambda>ch. length (templateStreams ch)) (inputChannels t)))) @ [0xC2A4, 0xD2B8, 0xB9BC]"

end
