(* ===== verification/CameraWorkflow.thy ===== *)
theory CameraWorkflow
  imports ProfileLibrary CameraPolicy
begin

text \<open>
  Registering and editing a camera: \<open>web/src/pages/cameras/CameraWorkflow.tsx\<close> with \<open>CameraWorkflowModel.ts\<close>,
  the fields, the choice of streams and the deletion of its parts. A handler is cut at its \<open>await\<close>; the task
  keeps what its closure has captured. \<open>show\<close> and \<open>url_path\<close> are the parameters of \<open>ProfileLibrary\<close>.
\<close>

section \<open>The form\<close>

record camera_form =
  cfName :: jsstring
  cfStream :: jsstring
  cfHost :: jsstring
  cfUser :: jsstring
  cfPassword :: jsstring
  cfRtsp :: jsstring
  cfHttp :: jsstring
  cfOnvif :: jsstring
  cfAdapter :: jsstring

record registered_camera = policy_camera +
  rcName :: jsstring
  rcHost :: "jsstring option"
  rcRtsp :: "int option"
  rcHttp :: "int option"
  rcOnvif :: "int option"
  rcAdapter :: "jsstring option"
  rcTemplate :: "int option"

record scan_request =
  srName :: "jsstring option"
  srHost :: jsstring
  srUser :: "jsstring option"
  srPassword :: "jsstring option"
  srRtsp :: "int option"
  srHttp :: "int option"
  srOnvif :: "int option"
  srAdapter :: jsstring

record camera_payload =
  cpRequest :: scan_request
  cpStream :: "jsstring option"
  cpTemplate :: "int option"
  cpProfile :: device_profile
  cpChannel :: int
  cpStreams :: "(jsstring \<times> jsstring) list"
  cpOutputs :: "output_settings list"

datatype workflow_mode = CreateMode | EditMode

definition initialForm :: camera_form where
  "initialForm =
     \<lparr>cfName = [0xC5FC, 0xC18C, 0xC7A5], cfStream = js ''goat-yard'', cfHost = js ''192.168.0.55'', cfUser = [], cfPassword = [],
      cfRtsp = js ''10554'', cfHttp = js ''10080'', cfOnvif = js ''10080'', cfAdapter = js ''auto''\<rparr>"

definition parsePort :: "jsstring \<Rightarrow> int option" where
  "parsePort v = (case parse_int v of None \<Rightarrow> None | Some n \<Rightarrow> if n > 0 then Some n else None)"

definition toScanRequest :: "camera_form \<Rightarrow> scan_request" where
  "toScanRequest f =
     (let username = js_trim (cfUser f); password = cfPassword f; both = username \<noteq> [] \<and> password \<noteq> []
      in \<lparr>srName = (if js_trim (cfName f) \<noteq> [] then Some (js_trim (cfName f)) else None), srHost = js_trim (cfHost f),
          srUser = (if both then Some username else None), srPassword = (if both then Some password else None),
          srRtsp = parsePort (cfRtsp f), srHttp = parsePort (cfHttp f), srOnvif = parsePort (cfOnvif f), srAdapter = cfAdapter f\<rparr>)"

definition formFromCamera :: "registered_camera \<Rightarrow> camera_form" where
  "formFromCamera c =
     \<lparr>cfName = rcName c, cfStream = pcStream c, cfHost = or_empty (\<lambda>x. x) (rcHost c), cfUser = [], cfPassword = [],
      cfRtsp = or_empty decimal (rcRtsp c), cfHttp = or_empty decimal (rcHttp c), cfOnvif = or_empty decimal (rcOnvif c),
      cfAdapter = (if or_empty (\<lambda>x. x) (rcAdapter c) \<noteq> [] then the (rcAdapter c) else js ''auto'')\<rparr>"

definition default_camera_name :: jsstring where "default_camera_name = [0xCE74, 0xBA54, 0xB77C]"

definition cameraPayload ::
  "workflow_mode \<Rightarrow> camera_form \<Rightarrow> device_profile \<Rightarrow> role_selection \<Rightarrow> int option \<Rightarrow> registered_camera option \<Rightarrow> output_settings list
   \<Rightarrow> camera_payload" where
  "cameraPayload m f p sel t c outs =
     (let stream = (case (m, c) of (EditMode, Some c) \<Rightarrow> pcStream c | _ \<Rightarrow> js_trim (cfStream f));
          name = (if js_trim (cfName f) \<noteq> [] then js_trim (cfName f)
                  else case c of Some c \<Rightarrow> (if rcName c \<noteq> [] then rcName c else default_camera_name) | None \<Rightarrow> default_camera_name)
      in \<lparr>cpRequest = (toScanRequest f)\<lparr>srName := Some name\<rparr>, cpStream = (if stream \<noteq> [] then Some stream else None), cpTemplate = t,
          cpProfile = p, cpChannel = channelIndex sel, cpStreams = streamSelections sel, cpOutputs = outs\<rparr>)"

section \<open>State\<close>

datatype workflow_call =
  ScanNew scan_request
| ScanRegistered jsstring scan_request
| PreviewNew scan_request int jsstring jsstring
| PreviewRegistered jsstring scan_request int jsstring jsstring
| CreateCall camera_payload
| UpdateCall jsstring camera_payload
| CreateProfileCall profile_input
| DeleteCall jsstring

record save_context =
  scMode :: workflow_mode
  scForm :: camera_form
  scProfile :: device_profile
  scSelection :: role_selection
  scCamera :: "registered_camera option"
  scOutputs :: "output_settings list"

datatype workflow_task =
  AfterScan bool
| AfterPreview jsstring
| AfterCreateCamera
| AfterUpdateCamera
| AfterCreateProfile save_context
| AfterDeleteCamera

datatype save_notice = SavedApplied | SavedPending | SavedWarning jsstring

record workflow =
  wfMode :: workflow_mode
  wfCamera :: "registered_camera option"
  wfReset :: "registered_camera option"
  wfForm :: camera_form
  wfScan :: "device_profile option"
  wfMatches :: "int list"                      \<comment> \<open>the templates that match the scan\<close>
  wfTemplate :: "int option"
  wfSelection :: role_selection
  wfPreview :: "(jsstring \<times> jsstring) option"
  wfShowPassword :: bool
  wfConfirmDelete :: bool
  wfOutputs :: "output_settings list"
  wfValidation :: "policy_error option"
  wfNotice :: "save_notice option"
  wfLastProfile :: "device_profile option"     \<comment> \<open>what \<open>onScanComplete\<close> was told last\<close>
  wfDeleted :: nat                             \<comment> \<open>calls of \<open>onDeleted\<close>\<close>
  wfTasks :: "(nat \<times> workflow_task) list"
  wfNext :: nat
  wfCalls :: "workflow_call list"

definition defaultSelection :: role_selection where
  "defaultSelection = \<lparr>channelIndex = 0, recordingToken = [], liveToken = []\<rparr>"

definition clear_scan :: "workflow \<Rightarrow> workflow" where
  "clear_scan s = s\<lparr>wfScan := None, wfMatches := [], wfTemplate := None, wfSelection := defaultSelection, wfPreview := None,
     wfLastProfile := None\<rparr>"

text \<open>The effect on the mode and the camera.\<close>

definition reset_workflow :: "workflow \<Rightarrow> workflow" where
  "reset_workflow s =
     (let c = (if wfMode s = EditMode then wfReset s else None)
      in (clear_scan s)\<lparr>wfForm := (case c of Some c \<Rightarrow> formFromCamera c | None \<Rightarrow> initialForm),
           wfTemplate := Option.bind c rcTemplate, wfShowPassword := False, wfConfirmDelete := False,
           wfOutputs := (case c of Some c \<Rightarrow> outputs (draftFromCamera (policy_camera.truncate c)) | None \<Rightarrow> recommendedStreamOutputs False),
           wfValidation := None, wfNotice := None\<rparr>)"

definition new_workflow :: "workflow_mode \<Rightarrow> registered_camera option \<Rightarrow> workflow" where
  "new_workflow m c = reset_workflow
     \<lparr>wfMode = m, wfCamera = c, wfReset = c, wfForm = initialForm, wfScan = None, wfMatches = [], wfTemplate = None,
      wfSelection = defaultSelection, wfPreview = None, wfShowPassword = False, wfConfirmDelete = False,
      wfOutputs = recommendedStreamOutputs False, wfValidation = None, wfNotice = None, wfLastProfile = None, wfDeleted = 0,
      wfTasks = [], wfNext = 0, wfCalls = []\<rparr>"

definition editMode :: "workflow \<Rightarrow> bool" where
  "editMode s \<longleftrightarrow> wfMode s = EditMode \<and> wfCamera s \<noteq> None"

definition camera_key :: "workflow \<Rightarrow> jsstring" where
  "camera_key s = (case wfCamera s of None \<Rightarrow> [] | Some c \<Rightarrow> pcStream c)"

definition scanPending :: "workflow \<Rightarrow> bool" where
  "scanPending s \<longleftrightarrow> list_ex (\<lambda>(k, t). case t of AfterScan e \<Rightarrow> True | _ \<Rightarrow> False) (wfTasks s)"

definition previewPending :: "workflow \<Rightarrow> bool" where
  "previewPending s \<longleftrightarrow> list_ex (\<lambda>(k, t). case t of AfterPreview l \<Rightarrow> True | _ \<Rightarrow> False) (wfTasks s)"

definition savePending :: "workflow \<Rightarrow> bool" where
  "savePending s \<longleftrightarrow> list_ex (\<lambda>(k, t). case t of AfterCreateCamera \<Rightarrow> True | AfterUpdateCamera \<Rightarrow> True | AfterCreateProfile c \<Rightarrow> True | _ \<Rightarrow> False) (wfTasks s)"

definition deletePending :: "workflow \<Rightarrow> bool" where
  "deletePending s \<longleftrightarrow> list_ex (\<lambda>(k, t). t = AfterDeleteCamera) (wfTasks s)"

definition workflow_request :: "workflow_call \<Rightarrow> workflow_task \<Rightarrow> workflow \<Rightarrow> workflow" where
  "workflow_request c t s = s\<lparr>wfCalls := wfCalls s @ [c], wfTasks := wfTasks s @ [(wfNext s, t)], wfNext := Suc (wfNext s)\<rparr>"

definition selectionHasLiveSource :: "device_profile \<Rightarrow> role_selection \<Rightarrow> bool" where
  "selectionHasLiveSource p sel =
     hasDistinctLiveSource (map (\<lambda>c. (candToken c, producerKey c)) (candidatesForChannel p (channelIndex sel))) (recordingToken sel) (liveToken sel)"

definition available_for :: "device_profile \<Rightarrow> role_selection \<Rightarrow> source_key list" where
  "available_for p sel = (if selectionHasLiveSource p sel then [RecordingSource, LiveSource] else [RecordingSource])"

definition profile_draft :: "workflow \<Rightarrow> (device_profile \<times> role_selection) option" where
  "profile_draft s = (case wfScan s of Some p \<Rightarrow> if selectionReady (wfSelection s) then Some (p, wfSelection s) else None | None \<Rightarrow> None)"

section \<open>Handlers\<close>

datatype form_field = FieldName | FieldStream | FieldHost | FieldUser | FieldPassword | FieldRtsp | FieldHttp | FieldOnvif | FieldAdapter

fun set_field :: "form_field \<Rightarrow> jsstring \<Rightarrow> camera_form \<Rightarrow> camera_form" where
  "set_field FieldName v f = f\<lparr>cfName := v\<rparr>"
| "set_field FieldStream v f = f\<lparr>cfStream := v\<rparr>"
| "set_field FieldHost v f = f\<lparr>cfHost := v\<rparr>"
| "set_field FieldUser v f = f\<lparr>cfUser := v\<rparr>"
| "set_field FieldPassword v f = f\<lparr>cfPassword := v\<rparr>"
| "set_field FieldRtsp v f = f\<lparr>cfRtsp := v\<rparr>"
| "set_field FieldHttp v f = f\<lparr>cfHttp := v\<rparr>"
| "set_field FieldOnvif v f = f\<lparr>cfOnvif := v\<rparr>"
| "set_field FieldAdapter v f = f\<lparr>cfAdapter := v\<rparr>"

definition updateField :: "form_field \<Rightarrow> jsstring \<Rightarrow> workflow \<Rightarrow> workflow" where
  "updateField field v s =
     (let s1 = s\<lparr>wfForm := set_field field v (wfForm s), wfNotice := None\<rparr>
      in if field \<noteq> FieldPassword then clear_scan s1 else s1)"

definition onScan :: "workflow \<Rightarrow> workflow" where
  "onScan s =
     (let r = toScanRequest (wfForm s)
      in workflow_request (if editMode s then ScanRegistered (camera_key s) r else ScanNew r) (AfterScan (editMode s)) s)"

definition scanned :: "bool \<Rightarrow> device_profile \<Rightarrow> int list \<Rightarrow> int option \<Rightarrow> workflow \<Rightarrow> workflow" where
  "scanned edit p ms recommendation s =
     (let sel = defaultRoleSelection p
      in s\<lparr>wfScan := Some p, wfMatches := ms, wfTemplate := recommendation, wfSelection := sel,
           wfOutputs := (if edit then normalizeUnavailableSources (wfOutputs s) (available_for p sel)
                         else recommendedStreamOutputs (selectionHasLiveSource p sel)),
           wfPreview := None, wfLastProfile := Some p\<rparr>)"

definition onPreview :: "(rat \<Rightarrow> jsstring) \<Rightarrow> jsstring \<Rightarrow> jsstring \<Rightarrow> workflow \<Rightarrow> workflow" where
  "onPreview show r token s =
     (case wfScan s of
        None \<Rightarrow> s
      | Some p \<Rightarrow>
          if token = [] then s
          else let k = channelIndex (wfSelection s); req = toScanRequest (wfForm s);
                   label = (case selectedCandidate p k token of Some c \<Rightarrow> candidateLabel show c | None \<Rightarrow> roleLabel r)
               in workflow_request (if editMode s then PreviewRegistered (camera_key s) req k token r else PreviewNew req k token r)
                    (AfterPreview label) s)"

definition save_context_of :: "device_profile \<Rightarrow> workflow \<Rightarrow> save_context" where
  "save_context_of p s =
     \<lparr>scMode = wfMode s, scForm = wfForm s, scProfile = p, scSelection = wfSelection s, scCamera = wfCamera s, scOutputs = wfOutputs s\<rparr>"

text \<open>The request that saves the camera, with the template \<open>t\<close>.\<close>

definition send_save :: "save_context \<Rightarrow> int option \<Rightarrow> workflow \<Rightarrow> workflow" where
  "send_save c t s =
     (let p = cameraPayload (scMode c) (scForm c) (scProfile c) (scSelection c) t (scCamera c) (scOutputs c)
      in case (scMode c, scCamera c) of
           (EditMode, Some cam) \<Rightarrow> workflow_request (UpdateCall (pcStream cam) p) AfterUpdateCamera s
         | _ \<Rightarrow> workflow_request (CreateCall p) AfterCreateCamera s)"

text \<open>The part that both ways of saving begin with.\<close>

definition validated :: "(device_profile \<Rightarrow> workflow \<Rightarrow> workflow) \<Rightarrow> workflow \<Rightarrow> workflow" where
  "validated go s =
     (case wfScan s of
        None \<Rightarrow> s
      | Some p \<Rightarrow>
          if \<not> selectionReady (wfSelection s) then s
          else let policyError = validateStreamOutputs (wfOutputs s) (available_for p (wfSelection s)); s1 = s\<lparr>wfValidation := policyError\<rparr>
               in if policyError \<noteq> None then s1 else go p s1)"

definition onSave :: "workflow \<Rightarrow> workflow" where
  "onSave = validated (\<lambda>p s. send_save (save_context_of p s) (wfTemplate s) s)"

text \<open>An exception of \<open>profileInputFromForm\<close> rejects the promise of the handler, which nobody catches.\<close>

definition onSaveWithNewProfile :: "(rat \<Rightarrow> jsstring) \<Rightarrow> (jsstring \<Rightarrow> jsstring option) \<Rightarrow> workflow \<Rightarrow> workflow" where
  "onSaveWithNewProfile show url_path = validated (\<lambda>p s.
     case profileInputFromForm (formFromDraftSource show url_path p (wfSelection s)) of
       Inl e \<Rightarrow> s
     | Inr input \<Rightarrow> workflow_request (CreateProfileCall input) (AfterCreateProfile (save_context_of p s)) s)"

definition onDelete :: "workflow \<Rightarrow> workflow" where
  "onDelete s = (if \<not> editMode s then s else workflow_request (DeleteCall (camera_key s)) AfterDeleteCamera s)"

definition mutationSaveNotice :: "apply_state \<Rightarrow> jsstring option \<Rightarrow> save_notice" where
  "mutationSaveNotice st w =
     (if or_empty (\<lambda>x. x) w \<noteq> [] then SavedWarning (the w) else if st \<noteq> StreamsApplied then SavedPending else SavedApplied)"

section \<open>Inputs\<close>

datatype workflow_answer =
  RequestFailed
| Scanned device_profile "int list" "int option"
| Previewed jsstring
| CameraSaved apply_state "jsstring option"
| ProfileCreated int
| CameraDeleted

fun workflow_resume :: "workflow_task \<Rightarrow> workflow_answer \<Rightarrow> workflow \<Rightarrow> workflow" where
  "workflow_resume (AfterScan edit) (Scanned p ms r) s = scanned edit p ms r s"
| "workflow_resume (AfterPreview label) (Previewed stream) s = s\<lparr>wfPreview := Some (stream, label)\<rparr>"
| "workflow_resume AfterUpdateCamera (CameraSaved st w) s = s\<lparr>wfNotice := Some (mutationSaveNotice st w)\<rparr>"
| "workflow_resume AfterCreateCamera (CameraSaved st w) s = clear_scan (s\<lparr>wfNotice := Some (mutationSaveNotice st w)\<rparr>)"
| "workflow_resume (AfterCreateProfile c) (ProfileCreated i) s = send_save c (Some i) (s\<lparr>wfTemplate := Some i\<rparr>)"
| "workflow_resume AfterDeleteCamera CameraDeleted s = s\<lparr>wfConfirmDelete := False, wfDeleted := Suc (wfDeleted s)\<rparr>"
| "workflow_resume t a s = s"

fun answers :: "workflow_task \<Rightarrow> workflow_answer \<Rightarrow> bool" where
  "answers t RequestFailed = True"
| "answers t (Scanned p ms r) = (\<exists>e. t = AfterScan e)"
| "answers t (Previewed n) = (\<exists>l. t = AfterPreview l)"
| "answers t (CameraSaved st w) = (t = AfterCreateCamera \<or> t = AfterUpdateCamera)"
| "answers t (ProfileCreated i) = (\<exists>c. t = AfterCreateProfile c)"
| "answers t CameraDeleted = (t = AfterDeleteCamera)"

datatype workflow_input =
  CameraChanged "registered_camera option"
| TypeField form_field jsstring
| TogglePassword
| SubmitScan
| PreviewRecording | PreviewLive | ClosePreview
| ChooseTemplate int
| ChooseChannel int
| ChooseRecording jsstring
| ChooseLive jsstring
| ChangePolicy nat form_control
| ClickSaveCamera | ClickSaveWithProfile
| ArmDelete | CancelDelete | ConfirmDelete
| WorkflowAnswer nat workflow_answer

definition select_streams :: "role_selection \<Rightarrow> workflow \<Rightarrow> workflow" where
  "select_streams sel s =
     (case wfScan s of
        None \<Rightarrow> s
      | Some p \<Rightarrow>
          let s1 = s\<lparr>wfSelection := sel\<rparr>
          in if \<not> selectionHasLiveSource p sel then s1\<lparr>wfOutputs := normalizeUnavailableSources (wfOutputs s1) [RecordingSource]\<rparr> else s1)"

definition preview_of :: "(rat \<Rightarrow> jsstring) \<Rightarrow> jsstring \<Rightarrow> jsstring \<Rightarrow> workflow \<Rightarrow> workflow" where
  "preview_of show r token s =
     (case wfScan s of
        None \<Rightarrow> s
      | Some p \<Rightarrow> if token_of (selectedCandidate p (channelIndex (wfSelection s)) token) = [] \<or> previewPending s then s else onPreview show r token s)"

fun workflow_exec :: "(rat \<Rightarrow> jsstring) \<Rightarrow> (jsstring \<Rightarrow> jsstring option) \<Rightarrow> workflow_input \<Rightarrow> workflow \<Rightarrow> workflow" where
  "workflow_exec show url_path (CameraChanged c) s =
     (let s1 = s\<lparr>wfCamera := c\<rparr>
      in if map_option pcStream (wfReset s) \<noteq> map_option pcStream c then reset_workflow (s1\<lparr>wfReset := c\<rparr>) else s1)"
| "workflow_exec show url_path (TypeField field v) s = (if field = FieldStream \<and> editMode s then s else updateField field v s)"
| "workflow_exec show url_path TogglePassword s = s\<lparr>wfShowPassword := \<not> wfShowPassword s\<rparr>"
| "workflow_exec show url_path SubmitScan s = (if scanPending s \<or> cfHost (wfForm s) = [] then s else onScan s)"
| "workflow_exec show url_path PreviewRecording s = preview_of show (js ''recording'') (recordingToken (wfSelection s)) s"
| "workflow_exec show url_path PreviewLive s = preview_of show (js ''live'') (liveToken (wfSelection s)) s"
| "workflow_exec show url_path ClosePreview s = s\<lparr>wfPreview := None\<rparr>"
| "workflow_exec show url_path (ChooseTemplate i) s = (if wfScan s \<noteq> None \<and> i \<in> set (wfMatches s) then s\<lparr>wfTemplate := Some i\<rparr> else s)"
| "workflow_exec show url_path (ChooseChannel k) s =
     (case Option.bind (wfScan s) (\<lambda>p. map_option (\<lambda>ch. p\<lparr>dpChannels := [ch]\<rparr>) (find (\<lambda>ch. scanIndex ch = k) (dpChannels p))) of
        None \<Rightarrow> s
      | Some p \<Rightarrow> select_streams (defaultRoleSelection p) s)"
| "workflow_exec show url_path (ChooseRecording t) s = select_streams ((wfSelection s)\<lparr>recordingToken := t\<rparr>) s"
| "workflow_exec show url_path (ChooseLive t) s = select_streams ((wfSelection s)\<lparr>liveToken := t\<rparr>) s"
| "workflow_exec show url_path (ChangePolicy k c) s =
     (case wfScan s of
        None \<Rightarrow> s
      | Some p \<Rightarrow> s\<lparr>wfOutputs := update_output (available_for p (wfSelection s)) k c (wfOutputs s), wfValidation := None\<rparr>)"
| "workflow_exec show url_path ClickSaveCamera s = (if savePending s then s else onSave s)"
| "workflow_exec show url_path ClickSaveWithProfile s = (if wfTemplate s \<noteq> None \<or> savePending s then s else onSaveWithNewProfile show url_path s)"
| "workflow_exec show url_path ArmDelete s = (if editMode s then s\<lparr>wfConfirmDelete := True\<rparr> else s)"
| "workflow_exec show url_path CancelDelete s = (if deletePending s then s else s\<lparr>wfConfirmDelete := False\<rparr>)"
| "workflow_exec show url_path ConfirmDelete s = (if \<not> wfConfirmDelete s \<or> deletePending s then s else onDelete s)"
| "workflow_exec show url_path (WorkflowAnswer k a) s =
     (case map_of (wfTasks s) k of
        None \<Rightarrow> s
      | Some t \<Rightarrow> if answers t a then workflow_resume t a (s\<lparr>wfTasks := filter (\<lambda>(j, _). j \<noteq> k) (wfTasks s)\<rparr>) else s)"

definition workflow_run :: "(rat \<Rightarrow> jsstring) \<Rightarrow> (jsstring \<Rightarrow> jsstring option) \<Rightarrow> workflow_input list \<Rightarrow> workflow \<Rightarrow> workflow" where
  "workflow_run show url_path ins s = fold (workflow_exec show url_path) ins s"

end
