(* ===== verification/ProfileLibraryProps.thy ===== *)
theory ProfileLibraryProps
  imports ProfileLibrary
begin

text \<open>
  The text of a mapping and the template it stands for: a template that was accepted once is shown as a text
  that is accepted again and gives the same template.
\<close>

section \<open>Cells and lines\<close>

definition clean :: "jsstring \<Rightarrow> bool" where
  "clean s \<longleftrightarrow> js_trim s = s \<and> bar \<notin> set s \<and> newline \<notin> set s"

definition reads_back :: "(rat \<Rightarrow> jsstring) \<Rightarrow> rat \<Rightarrow> bool" where
  "reads_back show x \<longleftrightarrow> parse_float (show x) = Num x \<and> clean (show x) \<and> show x \<noteq> []"

definition full :: "jsstring \<Rightarrow> bool" where "full s \<longleftrightarrow> clean s \<and> s \<noteq> []"

definition stream_ok :: "template_stream \<Rightarrow> bool" where
  "stream_ok st \<longleftrightarrow> full (streamRole st) \<and> full (streamLabel st) \<and> full (streamSource st) \<and> full (streamPath st)
     \<and> \<not> contains_sub (streamPath st) (js ''://'') \<and> \<not> contains_sub (streamPath st) (js ''@'')
     \<and> (\<exists>t. streamToken st = Some t \<and> clean t) \<and> (\<exists>t. streamCodec st = Some t \<and> clean t)
     \<and> (case streamWidth st of None \<Rightarrow> True | Some n \<Rightarrow> 0 \<le> n) \<and> (case streamHeight st of None \<Rightarrow> True | Some n \<Rightarrow> 0 \<le> n)
     \<and> (case streamFps st of None \<Rightarrow> True | Some x \<Rightarrow> 0 \<le> x) \<and> (case streamBitrate st of None \<Rightarrow> True | Some n \<Rightarrow> 0 \<le> n)"

definition channel_ok :: "template_channel \<Rightarrow> bool" where
  "channel_ok ch \<longleftrightarrow> 0 \<le> templateIndex ch \<and> full (templateName ch) \<and> templateStreams ch \<noteq> [] \<and> (\<forall>st \<in> set (templateStreams ch). stream_ok st)"

definition shown :: "(rat \<Rightarrow> jsstring) \<Rightarrow> template_stream \<Rightarrow> bool" where
  "shown show st \<longleftrightarrow> (case streamFps st of None \<Rightarrow> True | Some x \<Rightarrow> reads_back show x)"

lemma clean_Nil [simp]: "clean []"
  by (simp add: clean_def js_trim_def)

lemma clean_decimal [simp]: "0 \<le> n \<Longrightarrow> clean (decimal n)"
proof -
  assume n: "0 \<le> n"
  have d: "\<forall>c \<in> set (decimal n). is_digit c" using decimal_chars [OF n] by blast
  have "js_trim (decimal n) = decimal n"
    by (rule js_trim_fixed) (use d digit_not_space in \<open>simp add: hd_in_set last_in_set\<close>)
  moreover have "\<not> is_digit bar" "\<not> is_digit newline" by (simp_all add: is_digit_bounds bar_def newline_def)
  ultimately show ?thesis using d by (auto simp: clean_def)
qed

lemma full_decimal [simp]: "0 \<le> n \<Longrightarrow> full (decimal n)"
  by (simp add: full_def)

lemma required_full: "full s \<Longrightarrow> requiredCell (Some s) e = Inr s"
  by (simp add: full_def clean_def requiredCell_def or_empty_def)

lemma parse_int_plain: "0 \<le> n \<Longrightarrow> parse_int (decimal n) = Some n"
  using parse_int_decimal [of n "[]"] by simp

lemma integer_cell: "0 \<le> n \<Longrightarrow> parseInteger (Some (decimal n)) line col = Inr n"
  by (simp add: parseInteger_def required_full parse_int_plain)

lemma optional_cell: "(case x of None \<Rightarrow> True | Some n \<Rightarrow> 0 \<le> n) \<Longrightarrow> parseOptionalInteger (Some (or_empty decimal x)) line col = Inr x"
  by (cases x) (simp_all add: parseOptionalInteger_def or_empty_def parse_int_plain)

lemma number_cell:
  "(case x of None \<Rightarrow> True | Some n \<Rightarrow> 0 \<le> n \<and> reads_back show n) \<Longrightarrow> parseOptionalNumber (Some (or_empty show x)) line col = Inr x"
  by (cases x) (simp_all add: parseOptionalNumber_def or_empty_def reads_back_def)

definition stream_cells :: "(rat \<Rightarrow> jsstring) \<Rightarrow> template_channel \<Rightarrow> template_stream \<Rightarrow> jsstring list" where
  "stream_cells show ch st =
     [decimal (templateIndex ch), templateName ch, streamRole st, streamLabel st, streamSource st, streamPath st,
      or_empty (\<lambda>x. x) (streamToken st), or_empty (\<lambda>x. x) (streamCodec st), or_empty decimal (streamWidth st),
      or_empty decimal (streamHeight st), or_empty show (streamFps st), or_empty decimal (streamBitrate st)]"

lemma streamLine_cells: "streamLine show ch st = js_join bar (stream_cells show ch st)"
  by (simp add: streamLine_def stream_cells_def)

lemma clean_or_empty: "(case x of None \<Rightarrow> True | Some n \<Rightarrow> clean (f n)) \<Longrightarrow> clean (or_empty f x)"
  by (cases x) (simp_all add: or_empty_def)

lemma clean_count: "(case x of None \<Rightarrow> True | Some n \<Rightarrow> 0 \<le> n) \<Longrightarrow> clean (or_empty decimal x)"
  by (rule clean_or_empty) (simp split: option.splits)

lemma stream_cells_clean:
  assumes "channel_ok ch" and "stream_ok st" and "shown show st"
  shows "\<forall>c \<in> set (stream_cells show ch st). clean c"
proof -
  have "clean (decimal (templateIndex ch))" "clean (templateName ch)" using assms(1) by (simp_all add: channel_ok_def full_def)
  moreover have "clean (streamRole st)" "clean (streamLabel st)" "clean (streamSource st)" "clean (streamPath st)"
    using assms(2) by (simp_all add: stream_ok_def full_def)
  moreover have "clean (or_empty (\<lambda>x. x) (streamToken st))" "clean (or_empty (\<lambda>x. x) (streamCodec st))"
    using assms(2) by (auto simp: stream_ok_def intro!: clean_or_empty)
  moreover have "clean (or_empty decimal (streamWidth st))" "clean (or_empty decimal (streamHeight st))" "clean (or_empty decimal (streamBitrate st))"
    using assms(2) by (simp_all add: stream_ok_def clean_count)
  moreover have "clean (or_empty show (streamFps st))"
    using assms(3) by (intro clean_or_empty) (simp add: shown_def reads_back_def split: option.splits)
  ultimately show ?thesis by (simp add: stream_cells_def)
qed

lemma parse_streamLine:
  assumes "channel_ok ch" and "stream_ok st" and "shown show st"
  shows "parse_line line (streamLine show ch st) = Inr (templateIndex ch, templateName ch, st)"
proof -
  let ?cs = "stream_cells show ch st"
  have c: "\<forall>c \<in> set ?cs. clean c" by (rule stream_cells_clean [OF assms])
  have "js_split bar (streamLine show ch st) = ?cs"
    unfolding streamLine_cells by (rule js_split_join) (use c in \<open>auto simp: stream_cells_def clean_def\<close>)
  moreover have "map js_trim ?cs = ?cs" by (rule map_idI) (use c in \<open>simp add: clean_def\<close>)
  ultimately have s: "map js_trim (js_split bar (streamLine show ch st)) = ?cs" by simp
  have k: "0 \<le> templateIndex ch" "templateName ch \<noteq> []" using assms(1) by (simp_all add: channel_ok_def full_def)
  obtain t u where t: "streamToken st = Some t" "streamCodec st = Some u" using assms(2) by (auto simp: stream_ok_def)
  have n: "case streamFps st of None \<Rightarrow> True | Some x \<Rightarrow> 0 \<le> x \<and> reads_back show x"
    using assms(2,3) by (simp add: stream_ok_def shown_def split: option.splits)
  show ?thesis
    unfolding parse_line_def s using assms(2) k t n
    by (simp add: stream_cells_def cell_def bind_sum_def integer_cell required_full optional_cell number_cell stream_ok_def)
      (simp add: or_empty_def)
qed

lemma last_join: "xs \<noteq> [] \<Longrightarrow> last xs = [] \<Longrightarrow> length xs > 1 \<Longrightarrow> last (js_join sep xs) = sep"
  by (induction sep xs rule: js_join.induct) (auto split: if_splits simp: neq_Nil_conv)

lemma last_join_nonempty: "xs \<noteq> [] \<Longrightarrow> last xs \<noteq> [] \<Longrightarrow> last (js_join sep xs) = last (last xs)"
proof (induction sep xs rule: js_join.induct)
  case (3 sep s t ts)
  have "js_join sep (t # ts) \<noteq> []" using 3(3) by (cases ts) auto
  with 3 show ?case by simp
qed auto

lemma hd_join: "x \<noteq> [] \<Longrightarrow> hd (js_join sep (x # xs)) = hd x"
  by (cases xs) auto

lemma set_join: "set (js_join sep xs) \<subseteq> insert sep (\<Union>x \<in> set xs. set x)"
  by (induction sep xs rule: js_join.induct) auto

lemma streamLine_trimmed:
  assumes "channel_ok ch" and "stream_ok st" and "shown show st"
  shows "js_trim (streamLine show ch st) = streamLine show ch st \<and> streamLine show ch st \<noteq> []
    \<and> \<not> starts_with (streamLine show ch st) (js ''#'') \<and> newline \<notin> set (streamLine show ch st)"
proof -
  let ?l = "streamLine show ch st" and ?cs = "stream_cells show ch st"
  let ?d = "decimal (templateIndex ch)"
  have i: "0 \<le> templateIndex ch" using assms(1) by (simp add: channel_ok_def)
  have h: "hd ?l = hd ?d" unfolding streamLine_cells stream_cells_def by (rule hd_join) simp
  have dig: "is_digit (hd ?d)" using decimal_chars [OF i] by simp
  have ne: "?l \<noteq> []" by (simp add: streamLine_def)
  have b: "last ?cs = or_empty decimal (streamBitrate st)" "?cs \<noteq> []" "length ?cs > 1" by (simp_all add: stream_cells_def)
  have l: "\<not> is_space (last ?l)"
  proof (cases "streamBitrate st")
    case None
    then have "last ?l = bar" using last_join [of ?cs bar] b by (simp add: streamLine_cells or_empty_def)
    then show ?thesis by (simp add: bar_def is_space_def)
  next
    case (Some n)
    with assms(2) have n: "0 \<le> n" by (simp add: stream_ok_def)
    have "last ?l = last (decimal n)" using last_join_nonempty [of ?cs bar] b Some by (simp add: streamLine_cells or_empty_def)
    then show ?thesis using decimal_chars [OF n] digit_not_space by simp
  qed
  have "js_trim ?l = ?l" by (rule js_trim_fixed) (use l h dig digit_not_space in auto)
  moreover have "\<not> starts_with ?l (js ''#'')"
  proof
    assume "starts_with ?l (js ''#'')"
    then have "hd ?l = of_char (CHR ''#'')" by (auto simp: starts_with_iff js_def)
    then show False using h dig by (simp add: is_digit_bounds)
  qed
  moreover have "newline \<notin> set ?l"
    using set_join [of bar ?cs] stream_cells_clean [OF assms] unfolding streamLine_cells
    by (auto simp: clean_def bar_def newline_def)
  ultimately show ?thesis using ne by blast
qed

section \<open>Reading what was written\<close>

lemma add_lines_append:
  "add_lines chs (xs @ ys) k = bind_sum (add_lines chs xs k) (\<lambda>c. add_lines c ys (k + length xs))"
  by (induction xs arbitrary: chs k) (simp_all add: bind_sum_def split: sum.split)

lemma add_stream_new: "k \<notin> templateIndex ` set chs \<Longrightarrow>
    add_stream k name st chs = chs @ [\<lparr>templateIndex = k, templateName = name, templateStreams = [st]\<rparr>]"
  by (induction chs) auto

lemma add_stream_last: "k \<notin> templateIndex ` set chs \<Longrightarrow> templateIndex ch = k \<Longrightarrow>
    add_stream k name st (chs @ [ch]) = chs @ [ch\<lparr>templateStreams := templateStreams ch @ [st]\<rparr>]"
  by (induction chs) auto

text \<open>The lines of one channel, after its first stream.\<close>

lemma add_more_lines:
  assumes "channel_ok ch" and "\<forall>st \<in> set sts. stream_ok st \<and> shown show st" and "templateIndex ch \<notin> templateIndex ` set acc"
  shows "add_lines (acc @ [ch\<lparr>templateStreams := old\<rparr>]) (map (streamLine show ch) sts) k
     = Inr (acc @ [ch\<lparr>templateStreams := old @ sts\<rparr>])"
  using assms(2)
proof (induction sts arbitrary: old k)
  case (Cons st sts)
  have "addMappingLine (acc @ [ch\<lparr>templateStreams := old\<rparr>]) (streamLine show ch st) k = Inr (acc @ [ch\<lparr>templateStreams := old @ [st]\<rparr>])"
    using Cons.prems parse_streamLine [OF assms(1)] add_stream_last [OF assms(3)] by (simp add: addMappingLine_def bind_sum_def)
  then show ?case using Cons.IH [of "old @ [st]" "Suc k"] Cons.prems by (simp add: bind_sum_def)
qed simp

lemma add_channel_lines:
  assumes "channel_ok ch" and "\<forall>st \<in> set (templateStreams ch). shown show st" and "templateIndex ch \<notin> templateIndex ` set acc"
  shows "add_lines acc (map (streamLine show ch) (templateStreams ch)) k = Inr (acc @ [ch])"
proof -
  obtain st sts where sts: "templateStreams ch = st # sts" using assms(1) by (cases "templateStreams ch") (auto simp: channel_ok_def)
  have ok: "stream_ok st" "shown show st" "\<forall>x \<in> set sts. stream_ok x \<and> shown show x"
    using assms(1,2) sts by (auto simp: channel_ok_def)
  have "addMappingLine acc (streamLine show ch st) k = Inr (acc @ [ch\<lparr>templateStreams := [st]\<rparr>])"
    using parse_streamLine [OF assms(1) ok(1,2)] add_stream_new [OF assms(3)] by (simp add: addMappingLine_def bind_sum_def)
  then show ?thesis
    using add_more_lines [OF assms(1) ok(3) assms(3), of "[st]" "Suc k"] sts by (simp add: bind_sum_def)
qed

definition all_lines :: "(rat \<Rightarrow> jsstring) \<Rightarrow> template_channel list \<Rightarrow> jsstring list" where
  "all_lines show chs = concat (map (\<lambda>ch. map (streamLine show ch) (templateStreams ch)) chs)"

definition channels_shown :: "(rat \<Rightarrow> jsstring) \<Rightarrow> template_channel list \<Rightarrow> bool" where
  "channels_shown show chs \<longleftrightarrow> (\<forall>ch \<in> set chs. \<forall>st \<in> set (templateStreams ch). shown show st)"

lemma add_all_lines:
  "\<forall>ch \<in> set chs. channel_ok ch \<Longrightarrow> channels_shown show chs \<Longrightarrow> distinct (map templateIndex (acc @ chs))
   \<Longrightarrow> add_lines acc (all_lines show chs) k = Inr (acc @ chs)"
proof (induction chs arbitrary: acc k)
  case (Cons ch chs)
  have "templateIndex ch \<notin> templateIndex ` set acc" using Cons.prems(3) by auto
  then have "add_lines acc (map (streamLine show ch) (templateStreams ch)) k = Inr (acc @ [ch])"
    using add_channel_lines Cons.prems(1,2) by (simp add: channels_shown_def)
  moreover have "add_lines (acc @ [ch]) (all_lines show chs) j = Inr ((acc @ [ch]) @ chs)" for j
    using Cons.IH [of "acc @ [ch]"] Cons.prems by (simp add: channels_shown_def)
  ultimately show ?case
    by (simp add: all_lines_def add_lines_append bind_sum_def)
qed (simp add: all_lines_def)

lemma all_lines_trimmed:
  assumes "\<forall>ch \<in> set chs. channel_ok ch" and "channels_shown show chs" and "l \<in> set (all_lines show chs)"
  shows "js_trim l = l \<and> l \<noteq> [] \<and> \<not> starts_with l (js ''#'') \<and> newline \<notin> set l"
proof -
  obtain ch st where c: "ch \<in> set chs" "st \<in> set (templateStreams ch)" and l: "l = streamLine show ch st"
    using assms(3) by (auto simp: all_lines_def)
  then have "channel_ok ch" "stream_ok st" "shown show st" using assms(1,2) by (auto simp: channel_ok_def channels_shown_def)
  then show ?thesis unfolding l by (rule streamLine_trimmed)
qed

lemma mapping_roundtrip:
  assumes "chs \<noteq> []" and "\<forall>ch \<in> set chs. channel_ok ch" and "channels_shown show chs" and "sorted_wrt (<) (map templateIndex chs)"
  shows "channelsFromMappingText (mappingTextFromChannels show chs) = Inr chs"
proof -
  let ?ls = "all_lines show chs"
  have t: "\<forall>l \<in> set ?ls. js_trim l = l \<and> l \<noteq> [] \<and> \<not> starts_with l (js ''#'') \<and> newline \<notin> set l"
    using all_lines_trimmed [OF assms(2,3)] by blast
  have ne: "?ls \<noteq> []" using assms(1,2) by (cases chs) (auto simp: all_lines_def channel_ok_def)
  have "js_split newline (mappingTextFromChannels show chs) = ?ls"
    unfolding mappingTextFromChannels_def all_lines_def [symmetric] by (rule js_split_join) (use t ne in auto)
  moreover have "map js_trim ?ls = ?ls" using t by (simp add: map_idI)
  ultimately have m: "mapping_lines (mappingTextFromChannels show chs) = ?ls" unfolding mapping_lines_def using t by simp
  have "distinct (map templateIndex chs)" using assms(4) strict_sorted_iff by blast
  then have "add_lines [] ?ls 1 = Inr chs" using add_all_lines [OF assms(2,3), of "[]" 1] by simp
  moreover have "sort_key templateIndex chs = chs" by (rule sort_key_id_if_sorted) (use assms(4) strict_sorted_iff in blast)
  ultimately show ?thesis using m ne by (simp add: channelsFromMappingText_def bind_sum_def)
qed

section \<open>What a mapping is read into\<close>

lemma split_pieces: "w \<in> set (js_split sep s) \<Longrightarrow> sep \<notin> set w \<and> set w \<subseteq> set s"
proof (induction sep s arbitrary: w rule: js_split.induct)
  case (2 sep c cs)
  then show ?case by (fastforce split: list.splits if_splits)
qed simp

definition cells_of :: "jsstring \<Rightarrow> jsstring list" where "cells_of s = map js_trim (js_split bar s)"

lemma cells_clean: "newline \<notin> set s \<Longrightarrow> c \<in> set (cells_of s) \<Longrightarrow> clean c"
proof -
  assume n: "newline \<notin> set s" and "c \<in> set (cells_of s)"
  then obtain w where w: "w \<in> set (js_split bar s)" "c = js_trim w" by (auto simp: cells_of_def)
  then have "set c \<subseteq> set w" using set_js_trim by blast
  then show "clean c" using split_pieces [OF w(1)] n w(2) by (auto simp: clean_def js_trim_idem)
qed

lemma bind_Inr: "bind_sum x f = Inr b \<longleftrightarrow> (\<exists>a. x = Inr a \<and> f a = Inr b)"
  by (cases x) (simp_all add: bind_sum_def)

lemma if_Inr: "(if c then Inl e else x) = Inr b \<longleftrightarrow> \<not> c \<and> x = Inr b"
  by (cases c) simp_all

lemma required_ok: "requiredCell v e = Inr t \<Longrightarrow> (\<And>c. v = Some c \<Longrightarrow> clean c) \<Longrightarrow> full t"
  by (cases v) (auto simp: requiredCell_def or_empty_def full_def clean_def Let_def split: if_splits)

lemma optional_integer_ok: "parseOptionalInteger v line col = Inr x \<Longrightarrow> case x of None \<Rightarrow> True | Some n \<Rightarrow> 0 \<le> n"
  by (auto simp: parseOptionalInteger_def split: if_splits option.splits)

lemma optional_number_ok: "parseOptionalNumber v line col = Inr x \<Longrightarrow> case x of None \<Rightarrow> True | Some n \<Rightarrow> 0 \<le> n"
  by (auto simp: parseOptionalNumber_def split: if_splits jsnum.splits option.splits)

lemma integer_ok: "parseInteger v line col = Inr n \<Longrightarrow> 0 \<le> n"
  by (auto simp: parseInteger_def split: if_splits option.splits sum.splits)

lemma channel_name_full: "0 \<le> k \<Longrightarrow> full (channel_name k)"
proof -
  assume k: "0 \<le> k"
  have d: "\<forall>c \<in> set (decimal k). is_digit c" using decimal_chars [OF k] by blast
  have l: "last (channel_name k) = last (decimal k)" by (simp add: channel_name_def)
  have "js_trim (channel_name k) = channel_name k"
    by (rule js_trim_fixed) (use d l digit_not_space in \<open>simp add: channel_name_def js_def is_space_def\<close>)
  moreover have "bar \<notin> set (channel_name k)" "newline \<notin> set (channel_name k)"
    using clean_decimal [OF k] by (auto simp: channel_name_def js_def bar_def newline_def clean_def)
  ultimately show ?thesis by (simp add: full_def clean_def channel_name_def js_def)
qed

lemma parse_line_ok:
  assumes "newline \<notin> set s" and "parse_line line s = Inr (k, name, st)"
  shows "0 \<le> k \<and> full name \<and> stream_ok st"
proof -
  have cl: "cell (cells_of s) j = Some c \<Longrightarrow> clean c" for j c
    using cells_clean [OF assms(1)] by (auto simp: cell_def split: if_splits)
  have ce: "clean (or_empty (\<lambda>x. x) (cell (cells_of s) j))" for j
    using cl by (cases "cell (cells_of s) j") (auto simp: or_empty_def)
  let ?c = "cell (cells_of s)"
  from assms(2) obtain r l src p w h f b where
    k: "parseInteger (?c 0) line ColumnChannel = Inr k" and r: "requiredCell (?c 2) (CellMissing line ColumnRole) = Inr r"
    and l: "requiredCell (?c 3) (CellMissing line ColumnLabel) = Inr l" and src: "requiredCell (?c 4) (CellMissing line ColumnSource) = Inr src"
    and p: "requiredCell (?c 5) (CellMissing line ColumnPath) = Inr p"
    and url: "\<not> (contains_sub p (js ''://'') \<or> contains_sub p (js ''@''))"
    and w: "parseOptionalInteger (?c 8) line ColumnWidth = Inr w" and h: "parseOptionalInteger (?c 9) line ColumnHeight = Inr h"
    and f: "parseOptionalNumber (?c 10) line ColumnFps = Inr f" and b: "parseOptionalInteger (?c 11) line ColumnBitrate = Inr b"
    and name: "name = (if or_empty (\<lambda>x. x) (?c 1) \<noteq> [] then the (?c 1) else channel_name k)"
    and st: "st = \<lparr>streamRole = r, streamLabel = l, streamSource = src, streamPath = p,
            streamToken = Some (or_empty (\<lambda>x. x) (?c 6)), streamCodec = Some (or_empty (\<lambda>x. x) (?c 7)),
            streamWidth = w, streamHeight = h, streamFps = f, streamBitrate = b\<rparr>"
    unfolding parse_line_def Let_def cells_of_def [symmetric] bind_Inr if_Inr sum.inject prod.inject
    by (elim exE conjE, hypsubst) (rule that, (assumption | rule refl)+)
  have "full name"
    using name cl [of 1] channel_name_full [OF integer_ok [OF k]] by (cases "?c 1") (auto simp: or_empty_def full_def split: if_splits)
  moreover have "stream_ok st"
    unfolding stream_ok_def st
    using required_ok [OF r cl] required_ok [OF l cl] required_ok [OF src cl] required_ok [OF p cl] url ce
      optional_integer_ok [OF w] optional_integer_ok [OF h] optional_number_ok [OF f] optional_integer_ok [OF b] by simp
  ultimately show ?thesis using integer_ok [OF k] by simp
qed

definition accumulated :: "template_channel list \<Rightarrow> bool" where
  "accumulated chs \<longleftrightarrow> (\<forall>ch \<in> set chs. channel_ok ch) \<and> distinct (map templateIndex chs)"

lemma add_stream_indices: "set (map templateIndex (add_stream k name st chs)) = insert k (set (map templateIndex chs))"
  by (induction chs) auto

lemma channel_ok_more: "channel_ok ch \<Longrightarrow> stream_ok st \<Longrightarrow> channel_ok (ch\<lparr>templateStreams := templateStreams ch @ [st]\<rparr>)"
  unfolding channel_ok_def by auto

lemma channel_ok_new: "0 \<le> k \<Longrightarrow> full name \<Longrightarrow> stream_ok st \<Longrightarrow> channel_ok \<lparr>templateIndex = k, templateName = name, templateStreams = [st]\<rparr>"
  by (simp add: channel_ok_def)

lemma add_stream_channels:
  assumes "0 \<le> k" and "full name" and "stream_ok st"
  shows "\<forall>ch \<in> set chs. channel_ok ch \<Longrightarrow> \<forall>ch \<in> set (add_stream k name st chs). channel_ok ch"
  using channel_ok_new [OF assms] channel_ok_more [OF _ assms(3)] by (induction chs) simp_all

lemma add_stream_distinct: "distinct (map templateIndex chs) \<Longrightarrow> distinct (map templateIndex (add_stream k name st chs))"
proof (induction chs)
  case (Cons ch chs)
  then show ?case using add_stream_indices [of k name st chs] by (cases "templateIndex ch = k") simp_all
qed simp

lemma accumulated_add:
  "accumulated chs \<Longrightarrow> 0 \<le> k \<Longrightarrow> full name \<Longrightarrow> stream_ok st \<Longrightarrow> accumulated (add_stream k name st chs) \<and> add_stream k name st chs \<noteq> []"
  using add_stream_channels [of k name st chs] add_stream_distinct [of chs k name st] add_stream_indices [of k name st chs]
  unfolding accumulated_def by (metis empty_iff insert_not_empty list.set(1) list.simps(8))

lemma add_lines_ok:
  "add_lines chs ss line = Inr out \<Longrightarrow> accumulated chs \<Longrightarrow> \<forall>s \<in> set ss. newline \<notin> set s
   \<Longrightarrow> accumulated out \<and> (chs \<noteq> [] \<or> ss \<noteq> [] \<longrightarrow> out \<noteq> [])"
proof (induction chs ss line rule: add_lines.induct)
  case (2 chs s ss line)
  from 2(2) obtain k name st where p: "parse_line line s = Inr (k, name, st)"
    and r: "add_lines (add_stream k name st chs) ss (Suc line) = Inr out"
    by (auto simp: bind_Inr addMappingLine_def)
  have ok: "accumulated (add_stream k name st chs)" "add_stream k name st chs \<noteq> []"
    using accumulated_add [OF 2(3)] parse_line_ok [OF _ p] 2(4) by auto
  have "addMappingLine chs s line = Inr (add_stream k name st chs)" by (simp add: addMappingLine_def p bind_sum_def)
  from 2(1) [OF r ok(1)] 2(4) ok(2) show ?case by simp
qed simp

lemma mapping_lines_no_newline: "s \<in> set (mapping_lines t) \<Longrightarrow> newline \<notin> set s"
  using split_pieces set_js_trim by (fastforce simp: mapping_lines_def)

lemma read_mapping_ok:
  assumes "channelsFromMappingText s = Inr chs"
  shows "chs \<noteq> [] \<and> (\<forall>ch \<in> set chs. channel_ok ch) \<and> sorted_wrt (<) (map templateIndex chs)"
proof -
  from assms obtain out where ls: "mapping_lines s \<noteq> []" and out: "add_lines [] (mapping_lines s) 1 = Inr out"
    and chs: "chs = sort_key templateIndex out"
    by (auto simp: channelsFromMappingText_def bind_Inr Let_def split: if_splits)
  have "accumulated out \<and> ([] \<noteq> ([] :: template_channel list) \<or> mapping_lines s \<noteq> [] \<longrightarrow> out \<noteq> [])"
    by (rule add_lines_ok [OF out]) (simp_all add: accumulated_def mapping_lines_no_newline)
  then have a: "accumulated out" "out \<noteq> []" using ls by auto
  have "distinct (map templateIndex chs)" using a(1) by (simp add: chs accumulated_def distinct_map)
  moreover have "sorted (map templateIndex chs)" by (simp add: chs)
  ultimately have "sorted_wrt (<) (map templateIndex chs)" using strict_sorted_iff by blast
  moreover have "chs \<noteq> []" using a(2) by (metis chs length_0_conv length_sort)
  ultimately show ?thesis using a(1) by (simp add: chs accumulated_def)
qed

section \<open>Property\<close>

text \<open>The fractions of a template are written so that they are read back.\<close>

definition readable :: "(rat \<Rightarrow> jsstring) \<Rightarrow> template_channel list \<Rightarrow> bool" where
  "readable show chs \<longleftrightarrow> list_all (\<lambda>ch. list_all (shown show) (templateStreams ch)) chs"

lemma template_reopens:
  assumes "profileInputFromForm f = Inr t" and "readable show (inputChannels t)"
  shows "profileInputFromForm (formFromTemplate show t) = Inr t"
proof -
  let ?v = "parse_int (formVersion f)"
  from assms(1) obtain chs where c: "channelsFromMappingText (formMapping f) = Inr chs"
    and ok: "js_trim (formName f) \<noteq> []" "js_trim (formManufacturer f) \<noteq> []" "js_trim (formModel f) \<noteq> []"
      "js_trim (formAdapter f) \<noteq> []" "?v \<noteq> None" "1 \<le> the ?v"
    and t: "t = \<lparr>inputName = js_trim (formName f), inputManufacturer = js_trim (formManufacturer f), inputModel = js_trim (formModel f),
        inputAdapter = js_trim (formAdapter f), inputVersion = the ?v,
        inputRules = [(js ''manufacturer'', js ''equals'', js_trim (formManufacturer f)), (js ''model'', js ''contains'', js_trim (formModel f))],
        inputChannels = chs, inputCapabilities = \<lparr>capOnvif = Some (formOnvif f), capRtsp = Some (formRtsp f),
          capSnapshot = Some (formSnapshot f), capMulti = Some (formMulti f \<or> length chs > 1)\<rparr>\<rparr>"
    by (auto simp: profileInputFromForm_def Let_def bind_Inr not_less split: if_splits)
  have "channels_shown show chs" using assms(2) by (simp add: t readable_def channels_shown_def list_all_iff)
  then have "channelsFromMappingText (mappingTextFromChannels show chs) = Inr chs"
    using mapping_roundtrip read_mapping_ok [OF c] by blast
  moreover have "parse_int (decimal (the ?v)) = Some (the ?v)" using ok(6) by (simp add: parse_int_plain)
  ultimately show ?thesis
    using ok by (simp add: profileInputFromForm_def formFromTemplate_def t js_trim_idem bind_sum_def or_false_def Let_def)
qed

text \<open>C24: a template that was accepted once can be opened and saved without being changed. What the form
  accepts is a template; the form that this template fills in is accepted again and stands for the same
  template, whatever lines, comments, spaces and order of channels the first text had.\<close>

theorem saved_template_reopens:
  assumes "profileInputFromForm f = Inr t" and "readable show (inputChannels t)"
  shows "profileInputFromForm (formFromTemplate show t) = Inr t"
  using assms by (rule template_reopens)

definition example_form :: library_form where
  "example_form = emptyProfileForm\<lparr>formName := js ''Goat '', formManufacturer := js ''Acme'', formModel := js ''X'', formMapping := js ''1||live|sub|manual|/sub''\<rparr>"

theorem saved_template_reopens_witness:
  "\<exists>t. profileInputFromForm example_form = Inr t \<and> profileInputFromForm (formFromTemplate (\<lambda>x. decimal \<lfloor>x\<rfloor>) t) = Inr t
       \<and> formMapping (formFromTemplate (\<lambda>x. decimal \<lfloor>x\<rfloor>) t) = js ''1|channel 1|live|sub|manual|/sub||||||''"
proof -
  let ?st = "\<lparr>streamRole = js ''live'', streamLabel = js ''sub'', streamSource = js ''manual'', streamPath = js ''/sub'', streamToken = Some [],
      streamCodec = Some [], streamWidth = None, streamHeight = None, streamFps = None, streamBitrate = None\<rparr>"
  let ?chs = "[\<lparr>templateIndex = 1, templateName = js ''channel 1'', templateStreams = [?st]\<rparr>]"
  have d: "decimal 1 = js ''1''" by (simp add: decimal_def decimal_digits.simps js_def)
  have sp: "mapping_lines (js ''1||live|sub|manual|/sub'') = [js ''1||live|sub|manual|/sub'']"
    by (simp add: mapping_lines_def js_def newline_def js_trim_def is_space_def)
  have pl: "parse_line 1 (js ''1||live|sub|manual|/sub'') = Inr (1, js ''channel 1'', ?st)"
  proof -
    have m: "map js_trim (js_split bar (js ''1||live|sub|manual|/sub'')) = [js ''1'', [], js ''live'', js ''sub'', js ''manual'', js ''/sub'']"
      by (simp add: js_def bar_def js_trim_def is_space_def)
    have one: "parse_int (js ''1'') = Some 1" using parse_int_plain [of 1] d by simp
    have tr: "js_trim (js ''1'') = js ''1''" "js_trim (js ''live'') = js ''live''" "js_trim (js ''sub'') = js ''sub''"
      "js_trim (js ''manual'') = js ''manual''" "js_trim (js ''/sub'') = js ''/sub''"
      by (simp_all add: js_def js_trim_def is_space_def)
    have u: "\<not> contains_sub (js ''/sub'') (js ''://'')" "\<not> contains_sub (js ''/sub'') (js ''@'')" by (simp_all add: js_def)
    show ?thesis
      unfolding parse_line_def m Let_def
      by (simp add: cell_def parseInteger_def requiredCell_def or_empty_def bind_sum_def parseOptionalInteger_def parseOptionalNumber_def
          one tr u channel_name_def d Let_def) (simp add: js_def)
  qed
  have "channelsFromMappingText (js ''1||live|sub|manual|/sub'') = Inr ?chs"
    using pl by (simp add: channelsFromMappingText_def sp addMappingLine_def bind_sum_def)
  moreover have "parse_int (js ''1'') = Some 1" using parse_int_plain [of 1] d by simp
  moreover have "js_trim (js ''Goat '') = js ''Goat''" "js_trim (js ''Acme'') = js ''Acme''" "js_trim (js ''X'') = js ''X''"
    "js_trim (js ''manual'') = js ''manual''" by (simp_all add: js_def js_trim_def is_space_def)
  ultimately obtain t where t: "profileInputFromForm example_form = Inr t" "inputChannels t = ?chs"
    by (simp add: profileInputFromForm_def example_form_def emptyProfileForm_def bind_sum_def Let_def)
  have "profileInputFromForm (formFromTemplate (\<lambda>x. decimal \<lfloor>x\<rfloor>) t) = Inr t"
    by (rule saved_template_reopens [OF t(1)]) (simp add: readable_def t(2) shown_def)
  moreover have "formMapping (formFromTemplate (\<lambda>x. decimal \<lfloor>x\<rfloor>) t) = js ''1|channel 1|live|sub|manual|/sub||||||''"
    by (simp add: formFromTemplate_def mappingTextFromChannels_def t(2) streamLine_def d or_empty_def) (simp add: js_def bar_def)
  ultimately show ?thesis using t(1) by blast
qed

end
