(* ===== verification/CameraWorkflowProps.thy ===== *)
theory CameraWorkflowProps
  imports CameraWorkflow CameraPolicyProps ProfileLibraryProps
begin

text \<open>
  What the registration of a camera sends to the server, and what happens to a scan that is answered after the
  operator has gone on typing.
\<close>

section \<open>Requests that save\<close>

definition payload_ok :: "device_profile set \<Rightarrow> camera_payload \<Rightarrow> bool" where
  "payload_ok P p \<longleftrightarrow> cpProfile p \<in> P
     \<and> (\<exists>sel. selectionReady sel \<and> cpChannel p = channelIndex sel
          \<and> cpStreams p = [(js ''recording'', recordingToken sel), (js ''live'', liveToken sel)]
          \<and> policy_ok (available_for (cpProfile p) sel) (cpOutputs p))"

fun call_ok :: "device_profile set \<Rightarrow> workflow_call \<Rightarrow> bool" where
  "call_ok P (CreateCall p) = payload_ok P p"
| "call_ok P (UpdateCall n p) = payload_ok P p"
| "call_ok P c = True"

fun task_ok :: "device_profile set \<Rightarrow> workflow_task \<Rightarrow> bool" where
  "task_ok P (AfterCreateProfile c) =
     (scProfile c \<in> P \<and> selectionReady (scSelection c) \<and> policy_ok (available_for (scProfile c) (scSelection c)) (scOutputs c))"
| "task_ok P t = True"

fun profile_in :: "device_profile set \<Rightarrow> workflow_input \<Rightarrow> bool" where
  "profile_in P (WorkflowAnswer k (Scanned p ms r)) = (p \<in> P)"
| "profile_in P i = True"

definition workflow_ok :: "device_profile set \<Rightarrow> workflow \<Rightarrow> bool" where
  "workflow_ok P s \<longleftrightarrow> (\<forall>p. wfScan s = Some p \<longrightarrow> p \<in> P) \<and> list_all (\<lambda>(k, t). task_ok P t) (wfTasks s) \<and> list_all (call_ok P) (wfCalls s)"

lemma ok_same:
  "workflow_ok P s \<Longrightarrow> wfScan t = wfScan s \<Longrightarrow> wfTasks t = wfTasks s \<Longrightarrow> wfCalls t = wfCalls s \<Longrightarrow> workflow_ok P t"
  by (simp add: workflow_ok_def)

lemma ok_clear: "workflow_ok P s \<Longrightarrow> workflow_ok P (clear_scan s)"
  by (simp add: workflow_ok_def clear_scan_def)

lemma ok_reset: "workflow_ok P s \<Longrightarrow> workflow_ok P (reset_workflow s)"
  by (simp add: workflow_ok_def reset_workflow_def clear_scan_def Let_def)

lemma ok_request: "workflow_ok P s \<Longrightarrow> call_ok P c \<Longrightarrow> task_ok P t \<Longrightarrow> workflow_ok P (workflow_request c t s)"
  by (simp add: workflow_ok_def workflow_request_def)

lemma ok_drop: "workflow_ok P s \<Longrightarrow> workflow_ok P (s\<lparr>wfTasks := filter f (wfTasks s)\<rparr>)"
  by (auto simp: workflow_ok_def list_all_iff)

lemma payload_of:
  assumes "task_ok P (AfterCreateProfile c)"
  shows "payload_ok P (cameraPayload (scMode c) (scForm c) (scProfile c) (scSelection c) t (scCamera c) (scOutputs c))"
proof -
  have "streamSelections (scSelection c) = [(js ''recording'', recordingToken (scSelection c)), (js ''live'', liveToken (scSelection c))]"
    using assms by (simp add: streamSelections_def selectionReady_def)
  with assms show ?thesis by (auto simp: payload_ok_def cameraPayload_def Let_def)
qed

lemma ok_send: "workflow_ok P s \<Longrightarrow> task_ok P (AfterCreateProfile c) \<Longrightarrow> workflow_ok P (send_save c t s)"
  using payload_of [of P c t]
  by (auto simp: send_save_def Let_def intro!: ok_request split: workflow_mode.split option.split)

lemma ok_validated:
  assumes "workflow_ok P s"
    and "\<And>p u. workflow_ok P u \<Longrightarrow> task_ok P (AfterCreateProfile (save_context_of p u)) \<Longrightarrow> workflow_ok P (go p u)"
  shows "workflow_ok P (validated go s)"
proof (cases "wfScan s")
  case (Some p)
  let ?e = "validateStreamOutputs (wfOutputs s) (available_for p (wfSelection s))"
  have v: "workflow_ok P (s\<lparr>wfValidation := ?e\<rparr>)" by (rule ok_same [OF assms(1)]) simp_all
  have "?e = None \<Longrightarrow> selectionReady (wfSelection s) \<Longrightarrow> task_ok P (AfterCreateProfile (save_context_of p (s\<lparr>wfValidation := ?e\<rparr>)))"
    using assms(1) Some by (simp add: workflow_ok_def save_context_of_def policy_accepted)
  with assms(1) v Some assms(2) [OF v] show ?thesis by (auto simp: validated_def Let_def)
qed (simp add: validated_def assms(1))

lemma ok_save: "workflow_ok P s \<Longrightarrow> workflow_ok P (onSave s)"
  unfolding onSave_def by (rule ok_validated) (simp_all add: ok_send)

lemma ok_save_profile: "workflow_ok P s \<Longrightarrow> workflow_ok P (onSaveWithNewProfile show url_path s)"
  unfolding onSaveWithNewProfile_def by (rule ok_validated) (auto simp: ok_request split: sum.split)

lemma ok_select: "workflow_ok P s \<Longrightarrow> workflow_ok P (select_streams sel s)"
  by (auto simp: select_streams_def Let_def elim: ok_same split: option.split)

lemma ok_preview: "workflow_ok P s \<Longrightarrow> workflow_ok P (preview_of show r t s)"
  by (auto simp: preview_of_def onPreview_def Let_def intro!: ok_request split: option.split)

lemma ok_resume:
  assumes "workflow_ok P s" and "task_ok P t" and "profile_in P (WorkflowAnswer k a)"
  shows "workflow_ok P (workflow_resume t a s)"
proof (cases a)
  case (Scanned p ms r)
  with assms show ?thesis by (cases t) (auto simp: scanned_def workflow_ok_def Let_def)
next
  case (CameraSaved st w)
  have "workflow_ok P (s\<lparr>wfNotice := n\<rparr>)" for n by (rule ok_same [OF assms(1)]) simp_all
  with CameraSaved assms(1) show ?thesis by (cases t) (auto intro: ok_clear)
next
  case (ProfileCreated i)
  have "workflow_ok P (s\<lparr>wfTemplate := Some i\<rparr>)" by (rule ok_same [OF assms(1)]) simp_all
  with ProfileCreated assms(1,2) show ?thesis by (cases t) (auto intro: ok_send)
qed (use assms(1) in \<open>cases t; auto elim: ok_same\<close>)+

lemma workflow_ok_exec:
  assumes "workflow_ok P s" and "profile_in P i"
  shows "workflow_ok P (workflow_exec show url_path i s)"
proof (cases i)
  case (CameraChanged c)
  have "workflow_ok P (s\<lparr>wfCamera := c\<rparr>)" "workflow_ok P (s\<lparr>wfCamera := c, wfReset := c\<rparr>)"
    by (rule ok_same [OF assms(1)], simp_all)+
  with CameraChanged show ?thesis by (simp add: ok_reset Let_def)
next
  case (TypeField f v)
  have "workflow_ok P (s\<lparr>wfForm := set_field f v (wfForm s), wfNotice := None\<rparr>)" by (rule ok_same [OF assms(1)]) simp_all
  with TypeField assms(1) show ?thesis by (auto simp: updateField_def ok_clear Let_def simp del: set_field.simps)
next
  case SubmitScan
  with assms(1) show ?thesis by (auto simp: onScan_def Let_def intro: ok_request)
next
  case (WorkflowAnswer k a)
  show ?thesis
  proof (cases "map_of (wfTasks s) k")
    case (Some t)
    then have "task_ok P t" using assms(1) by (auto simp: workflow_ok_def list_all_iff dest: map_of_SomeD)
    with WorkflowAnswer Some assms show ?thesis by (auto intro!: ok_resume ok_drop)
  qed (use WorkflowAnswer assms(1) in simp)
next
  case ConfirmDelete
  with assms(1) show ?thesis by (auto simp: onDelete_def intro: ok_request)
next
  case (ChooseChannel k)
  with assms(1) show ?thesis by (auto intro: ok_select split: option.split)
qed (use assms(1) in \<open>auto intro: ok_save ok_save_profile ok_select ok_preview elim: ok_same split: option.split\<close>)

definition scanned_in :: "workflow_input list \<Rightarrow> device_profile set" where
  "scanned_in ins = {p. \<exists>k ms r. WorkflowAnswer k (Scanned p ms r) \<in> set ins}"

lemma profile_inI: "(\<And>k p ms r. i = WorkflowAnswer k (Scanned p ms r) \<Longrightarrow> p \<in> P) \<Longrightarrow> profile_in P i"
  by (cases "(P, i)" rule: profile_in.cases) simp_all

section \<open>Properties\<close>

text \<open>C22: a camera is registered or changed only with a profile that the server has scanned, with both streams
  chosen from it, and with a policy that the validation accepts for exactly the inputs of this choice;
  whatever was typed, chosen, answered or changed in between, also when a profile is saved first.\<close>

theorem cameras_are_saved_valid:
  "list_all (call_ok (scanned_in ins)) (wfCalls (workflow_run show url_path ins (new_workflow m c)))"
proof -
  let ?P = "scanned_in ins"
  have step: "workflow_ok P s \<Longrightarrow> list_all (profile_in P) is \<Longrightarrow> workflow_ok P (workflow_run show url_path is s)" for P s "is"
    unfolding workflow_run_def by (induction "is" arbitrary: s) (simp_all add: workflow_ok_exec)
  have "i \<in> set ins \<Longrightarrow> profile_in ?P i" for i
    by (rule profile_inI) (auto simp: scanned_in_def)
  then have "list_all (profile_in ?P) ins" by (simp add: list_all_iff)
  moreover have "workflow_ok ?P (new_workflow m c)"
    by (simp add: new_workflow_def reset_workflow_def clear_scan_def workflow_ok_def Let_def)
  ultimately show ?thesis using step by (simp add: workflow_ok_def)
qed

text \<open>C30: a scan that is answered late is taken for a scan of what is typed now. The operator scans the host
  \<open>u\<close> and types another host \<open>v\<close> before the answer; the answer shows the profile of the first device, and the
  save registers the second host with it.\<close>

theorem late_scan_is_saved:
  assumes "u \<noteq> []" and "selectionReady (defaultRoleSelection p)"
  shows "\<exists>q d. wfCalls (workflow_run show url_path [TypeField FieldHost u, SubmitScan, TypeField FieldHost v,
            WorkflowAnswer 0 (Scanned p ms r), ClickSaveCamera] (new_workflow CreateMode None)) = [ScanNew q, CreateCall d]
     \<and> srHost q = js_trim u \<and> srHost (cpRequest d) = js_trim v \<and> cpProfile d = p"
proof -
  let ?live = "selectionHasLiveSource p (defaultRoleSelection p)"
  have "available_for p (defaultRoleSelection p) = (if ?live then [RecordingSource, LiveSource] else [RecordingSource])"
    by (simp add: available_for_def)
  then have ok: "validateStreamOutputs (recommendedStreamOutputs ?live) (available_for p (defaultRoleSelection p)) = None"
    using recommended_ok [of ?live] by (simp add: policy_accepted)
  show ?thesis
    using assms ok
    by (simp add: workflow_run_def new_workflow_def reset_workflow_def clear_scan_def updateField_def editMode_def scanPending_def
        savePending_def onScan_def workflow_request_def scanned_def onSave_def validated_def send_save_def save_context_of_def
        cameraPayload_def toScanRequest_def Let_def) blast
qed

definition example_profile :: device_profile where
  "example_profile = \<lparr>dpManufacturer = js ''Acme'', dpModel = js ''X'', dpAdapter = js ''onvif'',
     dpChannels = [\<lparr>scanIndex = 0, scanLabel = js ''main'', scanCandidates =
       [\<lparr>roleHint = js ''recording'', candLabel = js ''main'', candSource = js ''onvif'', redactedUrl = None, candCodec = None, candWidth = None,
         candHeight = None, candFps = None, candBitrate = None, candToken = Some (js ''P0''), producerKey = None\<rparr>]\<rparr>]\<rparr>"

theorem late_scan_is_saved_witness:
  "selectionReady (defaultRoleSelection example_profile)
   \<and> (\<exists>q d. wfCalls (workflow_run (\<lambda>x. []) (\<lambda>u. None) [TypeField FieldHost (js ''one''), SubmitScan, TypeField FieldHost (js ''two''),
            WorkflowAnswer 0 (Scanned example_profile [] None), ClickSaveCamera] (new_workflow CreateMode None)) = [ScanNew q, CreateCall d]
     \<and> srHost q = js ''one'' \<and> srHost (cpRequest d) = js ''two'' \<and> cpProfile d = example_profile)"
proof -
  have r: "selectionReady (defaultRoleSelection example_profile)"
    by (simp add: defaultRoleSelection_def example_profile_def preferredCandidate_def token_of_def selectionReady_def)
  have t: "js_trim (js ''one'') = js ''one''" "js_trim (js ''two'') = js ''two''" "js ''one'' \<noteq> []"
    by (simp_all add: js_def js_trim_def is_space_def)
  show ?thesis
    using late_scan_is_saved [OF t(3) r, of "\<lambda>x. []" "\<lambda>u. None" "js ''two''" "[]" None] r unfolding t by blast
qed

end
