(* ===== verification/LibraryPanel.thy ===== *)
theory LibraryPanel
  imports ProfileLibraryProps
begin

text \<open>
  The panel of the profile library: the state of \<open>web/src/pages/cameras/ProfileLibrary.tsx\<close> and the rows of
  \<open>ProfileLibraryControls.tsx\<close>. The list of the templates arrives as an input; a request is a task until it is
  answered.
\<close>

section \<open>State\<close>

datatype library_call = UpdateTemplate int profile_input | CreateTemplate profile_input | DeleteTemplate int

datatype library_task =
  AfterTemplateUpdate
| AfterTemplateCreate
| AfterTemplateDelete int "int option"       \<comment> \<open>the template and what was selected\<close>

datatype delete_error = TemplateInUse | DeleteFailed jsstring

record library_panel =
  libTemplates :: "template list"
  libSelected :: "int option"
  libConfirm :: "int option"
  libForm :: library_form
  libFormError :: "mapping_error option"
  libDeleteError :: "delete_error option"
  libTasks :: "(nat \<times> library_task) list"
  libNext :: nat
  libCalls :: "library_call list"

definition new_library :: library_panel where
  "new_library =
     \<lparr>libTemplates = [], libSelected = None, libConfirm = None, libForm = emptyProfileForm, libFormError = None, libDeleteError = None,
      libTasks = [], libNext = 0, libCalls = []\<rparr>"

definition selectedTemplate :: "library_panel \<Rightarrow> template option" where
  "selectedTemplate s = find (\<lambda>t. Some (templateId t) = libSelected s) (libTemplates s)"

definition libSavePending :: "library_panel \<Rightarrow> bool" where
  "libSavePending s \<longleftrightarrow> list_ex (\<lambda>(k, t). t = AfterTemplateUpdate \<or> t = AfterTemplateCreate) (libTasks s)"

definition libDeletePending :: "library_panel \<Rightarrow> bool" where
  "libDeletePending s \<longleftrightarrow> list_ex (\<lambda>(k, t). case t of AfterTemplateDelete i sel \<Rightarrow> True | _ \<Rightarrow> False) (libTasks s)"

definition library_request :: "library_call \<Rightarrow> library_task \<Rightarrow> library_panel \<Rightarrow> library_panel" where
  "library_request c t s = s\<lparr>libCalls := libCalls s @ [c], libTasks := libTasks s @ [(libNext s, t)], libNext := Suc (libNext s)\<rparr>"

section \<open>Handlers\<close>

definition library_updateField :: "(library_form \<Rightarrow> library_form) \<Rightarrow> library_panel \<Rightarrow> library_panel" where
  "library_updateField f s = s\<lparr>libForm := f (libForm s), libFormError := None\<rparr>"

definition show_form :: "int option \<Rightarrow> library_form \<Rightarrow> library_panel \<Rightarrow> library_panel" where
  "show_form i f s = s\<lparr>libSelected := i, libConfirm := None, libForm := f, libFormError := None, libDeleteError := None\<rparr>"

definition startCreate :: "library_panel \<Rightarrow> library_panel" where
  "startCreate = show_form None emptyProfileForm"

definition startEdit :: "(rat \<Rightarrow> jsstring) \<Rightarrow> template \<Rightarrow> library_panel \<Rightarrow> library_panel" where
  "startEdit show t = show_form (Some (templateId t)) (formFromTemplate show t)"

definition startFromScan ::
  "(rat \<Rightarrow> jsstring) \<Rightarrow> (jsstring \<Rightarrow> jsstring option) \<Rightarrow> (device_profile \<times> role_selection) option \<Rightarrow> library_panel \<Rightarrow> library_panel" where
  "startFromScan show url_path source s =
     (case source of None \<Rightarrow> s | Some (p, sel) \<Rightarrow> show_form None (formFromDraftSource show url_path p sel) s)"

definition onSubmit :: "library_panel \<Rightarrow> library_panel" where
  "onSubmit s =
     (let s1 = s\<lparr>libFormError := None\<rparr>
      in case profileInputFromForm (libForm s) of
           Inl e \<Rightarrow> s1\<lparr>libFormError := Some e\<rparr>
         | Inr input \<Rightarrow>
             (case selectedTemplate s of
                Some t \<Rightarrow> library_request (UpdateTemplate (templateId t) input) AfterTemplateUpdate s1
              | None \<Rightarrow> library_request (CreateTemplate input) AfterTemplateCreate s1))"

definition library_onDelete :: "int \<Rightarrow> library_panel \<Rightarrow> library_panel" where
  "library_onDelete i s = library_request (DeleteTemplate i) (AfterTemplateDelete i (libSelected s)) (s\<lparr>libDeleteError := None\<rparr>)"

definition localizeDeleteError :: "jsstring \<Rightarrow> delete_error" where
  "localizeDeleteError m =
     (if contains_sub m (js ''referenced'') \<or> contains_sub m (js ''in use'') then TemplateInUse else DeleteFailed m)"

section \<open>Inputs\<close>

datatype library_answer = LibraryRejected jsstring | TemplateSaved template | TemplateDeleted

fun library_resume :: "(rat \<Rightarrow> jsstring) \<Rightarrow> library_task \<Rightarrow> library_answer \<Rightarrow> library_panel \<Rightarrow> library_panel" where
  "library_resume show AfterTemplateUpdate (TemplateSaved t) s = s\<lparr>libForm := formFromTemplate show t\<rparr>"
| "library_resume show AfterTemplateCreate (TemplateSaved t) s = s\<lparr>libSelected := Some (templateId t), libForm := formFromTemplate show t\<rparr>"
| "library_resume show (AfterTemplateDelete i sel) TemplateDeleted s = (if sel = Some i then startCreate s else s)\<lparr>libConfirm := None\<rparr>"
| "library_resume show (AfterTemplateDelete i sel) (LibraryRejected m) s = s\<lparr>libDeleteError := Some (localizeDeleteError m)\<rparr>"
| "library_resume show t a s = s"

datatype library_input =
  TemplatesArrive "template list"
| EditField "library_form \<Rightarrow> library_form"
| ClickCreate
| ClickEdit int
| ClickFromScan "(device_profile \<times> role_selection) option"
| SubmitProfile
| ArmTemplateDelete int | CancelTemplateDelete | ClickTemplateDelete int
| LibraryAnswer nat library_answer

fun library_exec :: "(rat \<Rightarrow> jsstring) \<Rightarrow> (jsstring \<Rightarrow> jsstring option) \<Rightarrow> library_input \<Rightarrow> library_panel \<Rightarrow> library_panel" where
  "library_exec show url_path (TemplatesArrive ts) s = s\<lparr>libTemplates := ts\<rparr>"
| "library_exec show url_path (EditField f) s = library_updateField f s"
| "library_exec show url_path ClickCreate s = startCreate s"
| "library_exec show url_path (ClickEdit i) s =
     (case find (\<lambda>t. templateId t = i) (libTemplates s) of None \<Rightarrow> s | Some t \<Rightarrow> startEdit show t s)"
| "library_exec show url_path (ClickFromScan source) s = startFromScan show url_path source s"
| "library_exec show url_path SubmitProfile s = (if libSavePending s then s else onSubmit s)"
| "library_exec show url_path (ArmTemplateDelete i) s = s\<lparr>libConfirm := Some i\<rparr>"
| "library_exec show url_path CancelTemplateDelete s = s\<lparr>libConfirm := None\<rparr>"
| "library_exec show url_path (ClickTemplateDelete i) s = (if libConfirm s \<noteq> Some i \<or> libDeletePending s then s else library_onDelete i s)"
| "library_exec show url_path (LibraryAnswer k a) s =
     (case map_of (libTasks s) k of
        None \<Rightarrow> s
      | Some t \<Rightarrow> library_resume show t a (s\<lparr>libTasks := filter (\<lambda>(j, _). j \<noteq> k) (libTasks s)\<rparr>))"

definition library_run :: "(rat \<Rightarrow> jsstring) \<Rightarrow> (jsstring \<Rightarrow> jsstring option) \<Rightarrow> library_input list \<Rightarrow> library_panel \<Rightarrow> library_panel" where
  "library_run show url_path ins s = fold (library_exec show url_path) ins s"

section \<open>Lemmas\<close>

text \<open>The answer to a save is shown in the form of whatever is selected by then: the template \<open>b\<close> that was opened
  while the save of another one was under way receives the other's contents with the next save.\<close>

lemma late_template_overwrites:
  assumes "map_of (libTasks s) k = Some AfterTemplateUpdate" and "find (\<lambda>t. templateId t = templateId b) (libTemplates s) = Some b"
    and "profileInputFromForm f = Inr (profile_input.truncate a)" and "readable show (inputChannels a)"
    and "libTasks s = [(k, AfterTemplateUpdate)]"
  shows "let s1 = library_run show url_path [ClickEdit (templateId b), LibraryAnswer k (TemplateSaved a), SubmitProfile] s
         in libCalls s1 = libCalls s @ [UpdateTemplate (templateId b) (profile_input.truncate a)]"
proof -
  have t: "formFromTemplate show (profile_input.truncate a) = formFromTemplate show a"
    by (simp add: formFromTemplate_def profile_input.truncate_def split: option.split)
  have "profileInputFromForm (formFromTemplate show (profile_input.truncate a)) = Inr (profile_input.truncate a)"
    by (rule template_reopens [OF assms(3)]) (use assms(4) in \<open>simp add: profile_input.truncate_def\<close>)
  then have "profileInputFromForm (formFromTemplate show a) = Inr (profile_input.truncate a)" by (simp only: t)
  moreover have "find (\<lambda>t. templateId t = templateId b) (libTemplates s) = Some b" by (rule assms(2))
  ultimately show ?thesis
    using assms(1,5)
    by (simp add: library_run_def startEdit_def show_form_def libSavePending_def onSubmit_def selectedTemplate_def library_request_def)
qed

end
