(* ===== verification/ViewerAdmin.thy ===== *)
theory ViewerAdmin
  imports LiveLayout
begin

text \<open>
  The operator's panel for the viewers: \<open>web/src/pages/viewers/viewerCommandModel.ts\<close>,
  \<open>viewerCameraReception.ts\<close>, \<open>viewerFormat.ts\<close> and the state of \<open>ViewerCommandPanel.tsx\<close>. What the
  queries of the panel hold is the record \<open>admin_data\<close>, given with every event. Reading a date is a
  parameter; messages are constructors.
\<close>

section \<open>Viewers, cameras and commands\<close>

record stream_health =
  healthStream :: jsstring
  healthState :: jsstring
  healthTransport :: jsstring
  progressAt :: jsstring                   \<comment> \<open>the empty text stands for no value\<close>
  updatedAt :: jsstring

record viewer_row =
  viewerId :: jsstring
  viewerLabel :: jsstring
  viewerDisplayName :: jsstring
  viewerStatus :: jsstring
  agentState :: "jsstring option"
  controlState :: "jsstring option"
  appState :: "jsstring option"
  rendererState :: "jsstring option"
  rendererHeartbeat :: jsstring
  viewerStreams :: "stream_health list"

record camera_row =
  cameraName :: jsstring
  cameraEnabled :: bool
  cameraStreams :: playback_streams

datatype command_state = CPending | CDelivered | CAcknowledged | CRunning | CSucceeded | CFailed | CRejected | CExpired
  | CCancelled | CDeleted

datatype operator_command = CPing | ReloadLive | ResubscribeStream | RestartViewer | RestartService

record command_row =
  commandId :: nat
  commandViewer :: jsstring
  commandType :: jsstring
  commandStream :: jsstring
  commandState :: command_state

section \<open>viewerCommandModel.ts\<close>

fun type_name :: "operator_command \<Rightarrow> jsstring" where
  "type_name CPing = js ''ping''"
| "type_name ReloadLive = js ''reload_live''"
| "type_name ResubscribeStream = js ''resubscribe_stream''"
| "type_name RestartViewer = js ''restart_viewer''"
| "type_name RestartService = js ''restart_service''"

definition VIEWER_COMMAND_ACTIONS :: "operator_command list" where
  "VIEWER_COMMAND_ACTIONS = [CPing, ReloadLive, ResubscribeStream, RestartViewer, RestartService]"

definition is_disruptive :: "operator_command \<Rightarrow> bool" where
  "is_disruptive t \<longleftrightarrow> t = RestartViewer \<or> t = RestartService"

definition requiresStream :: "operator_command \<Rightarrow> bool" where
  "requiresStream t \<longleftrightarrow> t = ResubscribeStream"

definition viewerCommandAction :: "jsstring \<Rightarrow> operator_command" where
  "viewerCommandAction name =
     (case find (\<lambda>t. type_name t = name) VIEWER_COMMAND_ACTIONS of Some t \<Rightarrow> t | None \<Rightarrow> CPing)"

definition viewerCommandIsActive :: "command_state \<Rightarrow> bool" where
  "viewerCommandIsActive st \<longleftrightarrow> st \<notin> {CSucceeded, CFailed, CRejected, CExpired, CCancelled, CDeleted}"

datatype unavailable = NoViewer | ServiceOffline | ControlOffline | AppNotRunning | ScreenNotReady | NoStreamChosen
  | StreamNotRegistered

definition viewerCommandUnavailableReason ::
  "viewer_row option \<Rightarrow> operator_command \<Rightarrow> jsstring \<Rightarrow> jsstring list option \<Rightarrow> unavailable option" where
  "viewerCommandUnavailableReason viewer t name configured =
     (case viewer of
        None \<Rightarrow> Some NoViewer
      | Some v \<Rightarrow>
          if viewerStatus v = js ''offline'' \<or> viewerStatus v = js ''stale'' then Some ServiceOffline
          else if controlState v \<noteq> Some (js ''online'') then Some ControlOffline
          else if (t = ReloadLive \<or> t = ResubscribeStream) \<and> appState v \<noteq> Some (js ''running'') then Some AppNotRunning
          else if (t = ReloadLive \<or> t = ResubscribeStream) \<and> rendererState v \<noteq> Some (js ''ready'') then Some ScreenNotReady
          else if requiresStream t \<and> name = [] then Some NoStreamChosen
          else let registered = (case configured of
                       Some names \<Rightarrow> name \<in> set names
                     | None \<Rightarrow> list_ex (\<lambda>x. healthStream x = name) (viewerStreams v))
               in if requiresStream t \<and> \<not> registered then Some StreamNotRegistered else None)"

datatype command_label = ActionLabel operator_command | RawType jsstring

definition viewerCommandTypeLabel :: "jsstring \<Rightarrow> command_label" where
  "viewerCommandTypeLabel name =
     (if name = js ''restart_agent'' then ActionLabel (viewerCommandAction (js ''restart_service''))
      else case find (\<lambda>t. type_name t = name) VIEWER_COMMAND_ACTIONS of Some t \<Rightarrow> ActionLabel t | None \<Rightarrow> RawType name)"

section \<open>viewerFormat.ts\<close>

definition viewerBadgeState :: "jsstring option \<Rightarrow> jsstring" where
  "viewerBadgeState st =
     (case st of
        None \<Rightarrow> js ''offline''
      | Some x \<Rightarrow>
          if x \<in> set (map js [''online'', ''active'', ''healthy'', ''ready'', ''running'', ''playing'']) then js ''running''
          else if x \<in> set (map js [''stale'', ''control_degraded'', ''recovering'', ''restarting'']) then js ''warning''
          else if x \<in> set (map js [''offline'', ''crashed'', ''failed'', ''recovery_failed'']) then js ''offline''
          else x)"

definition viewerAgentState :: "viewer_row \<Rightarrow> jsstring option" where
  "viewerAgentState v =
     (if viewerStatus v = js ''offline'' \<or> viewerStatus v = js ''stale'' then Some (viewerStatus v) else agentState v)"

definition canCancelViewerCommand :: "command_state \<Rightarrow> bool" where
  "canCancelViewerCommand st \<longleftrightarrow> st = CPending"

definition canDeleteViewer :: "jsstring \<Rightarrow> bool" where
  "canDeleteViewer st \<longleftrightarrow> st = js ''offline'' \<or> st = js ''stale''"

definition displayViewer :: "viewer_row \<Rightarrow> jsstring" where
  "displayViewer v =
     (if viewerLabel v \<noteq> [] then viewerLabel v else if viewerDisplayName v \<noteq> [] then viewerDisplayName v else viewerId v)"

section \<open>viewerCameraReception.ts\<close>

definition CURRENT_TELEMETRY_WINDOW_MS :: rat where "CURRENT_TELEMETRY_WINDOW_MS = 15000"
definition FUTURE_CLOCK_TOLERANCE_MS :: rat where "FUTURE_CLOCK_TOLERANCE_MS = 5000"

record reception =
  rCamera :: jsstring
  rStream :: jsstring
  resubscribeStreamName :: jsstring
  receiving :: bool
  activeStream :: "jsstring option"
  rTransport :: "jsstring option"
  rProgress :: "jsstring option"

text \<open>\<open>parse\<close> is \<open>Date.parse\<close>, \<open>None\<close> when it is not a number.\<close>

definition parseTimestamp :: "(jsstring \<Rightarrow> rat option) \<Rightarrow> jsstring \<Rightarrow> rat option" where
  "parseTimestamp parse v = (if v = [] then None else parse v)"

definition viewerIsRendering :: "viewer_row option \<Rightarrow> bool" where
  "viewerIsRendering viewer \<longleftrightarrow>
     (case viewer of
        None \<Rightarrow> False
      | Some v \<Rightarrow> viewerStatus v \<noteq> js ''offline'' \<and> viewerStatus v \<noteq> js ''stale'' \<and> appState v = Some (js ''running'')
                  \<and> rendererState v = Some (js ''ready''))"

definition latestTelemetryReference :: "(jsstring \<Rightarrow> rat option) \<Rightarrow> viewer_row option \<Rightarrow> stream_health list \<Rightarrow> rat option" where
  "latestTelemetryReference parse viewer streams =
     (let timestamps = List.map_filter id
            ((case viewer of None \<Rightarrow> None | Some v \<Rightarrow> parseTimestamp parse (rendererHeartbeat v))
             # map (\<lambda>x. parseTimestamp parse (updatedAt x)) streams)
      in case timestamps of [] \<Rightarrow> None | t # ts \<Rightarrow> Some (fold max ts t))"

definition timestampIsCurrent :: "rat \<Rightarrow> rat \<Rightarrow> bool" where
  "timestampIsCurrent t ref \<longleftrightarrow> t \<ge> ref - CURRENT_TELEMETRY_WINDOW_MS \<and> t \<le> ref + FUTURE_CLOCK_TOLERANCE_MS"

definition streamIsReceiving :: "(jsstring \<Rightarrow> rat option) \<Rightarrow> stream_health \<Rightarrow> rat option \<Rightarrow> bool" where
  "streamIsReceiving parse x referenceAt \<longleftrightarrow>
     (case (referenceAt, parseTimestamp parse (progressAt x), parseTimestamp parse (updatedAt x)) of
        (Some ref, Some p, Some u) \<Rightarrow> healthState x = js ''playing'' \<and> timestampIsCurrent p ref \<and> timestampIsCurrent u ref
      | _ \<Rightarrow> False)"

definition more_recent :: "(jsstring \<Rightarrow> rat option) \<Rightarrow> stream_health \<Rightarrow> stream_health \<Rightarrow> bool" where
  "more_recent parse a b \<longleftrightarrow>
     (let ua = or_zero (parseTimestamp parse (updatedAt a)); ub = or_zero (parseTimestamp parse (updatedAt b));
          pa = or_zero (parseTimestamp parse (progressAt a)); pb = or_zero (parseTimestamp parse (progressAt b))
      in ua > ub \<or> (ua = ub \<and> pa > pb))"

text \<open>The first of a stable sort by \<open>compareMostRecentStream\<close>.\<close>

fun most_recent :: "(jsstring \<Rightarrow> rat option) \<Rightarrow> stream_health list \<Rightarrow> stream_health option" where
  "most_recent parse [] = None"
| "most_recent parse (x # xs) =
     (case most_recent parse xs of None \<Rightarrow> Some x | Some y \<Rightarrow> if more_recent parse y x then Some y else Some x)"

definition non_empty :: "jsstring \<Rightarrow> jsstring option" where
  "non_empty x = (if x = [] then None else Some x)"

definition camera_reception :: "(jsstring \<Rightarrow> rat option) \<Rightarrow> viewer_row option \<Rightarrow> camera_row \<Rightarrow> reception" where
  "camera_reception parse viewer c =
     (let streams = (case viewer of None \<Rightarrow> [] | Some v \<Rightarrow> viewerStreams v);
          candidates = playbackStreamCandidates (cameraStreams c) False;
          current = most_recent parse (filter (\<lambda>x. healthStream x \<in> set candidates) streams)
      in \<lparr>rCamera = cameraName c, rStream = streamName (cameraStreams c), resubscribeStreamName = hd candidates,
          receiving = (viewerIsRendering viewer \<and> (case current of None \<Rightarrow> False
             | Some x \<Rightarrow> streamIsReceiving parse x (latestTelemetryReference parse viewer streams))),
          activeStream = Option.bind current (\<lambda>x. non_empty (healthStream x)),
          rTransport = Option.bind current (\<lambda>x. non_empty (healthTransport x)),
          rProgress = Option.bind current (\<lambda>x. non_empty (progressAt x))\<rparr>)"

definition receptions_of :: "(jsstring \<Rightarrow> rat option) \<Rightarrow> viewer_row option \<Rightarrow> camera_row list \<Rightarrow> reception list" where
  "receptions_of parse viewer cameras = map (camera_reception parse viewer) (filter cameraEnabled cameras)"

record reception_summary =
  allReceptions :: "reception list"
  receivingOnes :: "reception list"
  missingOnes :: "reception list"

definition viewerCameraReceptionSummary :: "(jsstring \<Rightarrow> rat option) \<Rightarrow> viewer_row option \<Rightarrow> camera_row list \<Rightarrow> reception_summary" where
  "viewerCameraReceptionSummary parse viewer cameras =
     (let rs = receptions_of parse viewer cameras
      in \<lparr>allReceptions = rs, receivingOnes = filter receiving rs, missingOnes = filter (\<lambda>r. \<not> receiving r) rs\<rparr>)"

section \<open>The panel\<close>

datatype confirm_action = ConfirmCancel | ConfirmDelete

record command_input =
  inputType :: operator_command
  inputStream :: "jsstring option"
  inputMessage :: "jsstring option"

datatype admin_request = CreateCommand jsstring command_input | CancelCommand jsstring nat | DeleteCommand jsstring nat

record admin_panel =
  selectedViewerId :: jsstring
  actionType :: operator_command
  commandReason :: jsstring
  chosenStream :: jsstring
  pendingRetry :: jsstring
  armedAction :: "operator_command option"
  confirmState :: "(confirm_action \<times> nat) option"
  createPending :: bool
  changePending :: bool
  requestsSent :: "admin_request list"

definition new_admin :: "jsstring \<Rightarrow> admin_panel" where
  "new_admin v = \<lparr>selectedViewerId = v, actionType = CPing, commandReason = [], chosenStream = [], pendingRetry = [],
     armedAction = None, confirmState = None, createPending = False, changePending = False, requestsSent = []\<rparr>"

text \<open>What the queries hold when an event arrives.\<close>

record admin_data =
  viewerRows :: "viewer_row list"
  cameraRows :: "camera_row list"
  commandRows :: "command_row list"

definition selectedViewer :: "admin_data \<Rightarrow> admin_panel \<Rightarrow> viewer_row option" where
  "selectedViewer d p = find (\<lambda>v. viewerId v = selectedViewerId p) (viewerRows d)"

definition configuredStreamNames :: "(jsstring \<Rightarrow> rat option) \<Rightarrow> admin_data \<Rightarrow> admin_panel \<Rightarrow> jsstring list" where
  "configuredStreamNames parse d p = map resubscribeStreamName (receptions_of parse (selectedViewer d p) (cameraRows d))"

definition activeResubscribeStreams :: "admin_data \<Rightarrow> jsstring list" where
  "activeResubscribeStreams d =
     filter (\<lambda>n. n \<noteq> []) (map commandStream (filter (\<lambda>c. commandType c = js ''resubscribe_stream'' \<and> viewerCommandIsActive (commandState c))
       (commandRows d)))"

definition unavailable_reason :: "(jsstring \<Rightarrow> rat option) \<Rightarrow> admin_data \<Rightarrow> operator_command \<Rightarrow> jsstring \<Rightarrow> admin_panel \<Rightarrow> unavailable option" where
  "unavailable_reason parse d t name p =
     viewerCommandUnavailableReason (selectedViewer d p) t name (Some (configuredStreamNames parse d p))"

definition send :: "admin_request \<Rightarrow> admin_panel \<Rightarrow> admin_panel" where
  "send r p = p\<lparr>requestsSent := requestsSent p @ [r]\<rparr>"

text \<open>Another viewer: the handler, then the effect.\<close>

definition selectViewer :: "jsstring \<Rightarrow> admin_panel \<Rightarrow> admin_panel" where
  "selectViewer v p =
     (if v = selectedViewerId p then p\<lparr>armedAction := None, confirmState := None\<rparr>
      else p\<lparr>armedAction := None, confirmState := None, selectedViewerId := v, chosenStream := [], pendingRetry := []\<rparr>)"

definition selectAction :: "operator_command \<Rightarrow> admin_panel \<Rightarrow> admin_panel" where
  "selectAction t p =
     p\<lparr>actionType := t, armedAction := None, commandReason := [],
       chosenStream := (if t \<noteq> ResubscribeStream then [] else chosenStream p)\<rparr>"

text \<open>\<open>trim\<close> is \<open>String.prototype.trim\<close>. A button that is disabled does not submit its form.\<close>

definition submit :: "(jsstring \<Rightarrow> rat option) \<Rightarrow> (jsstring \<Rightarrow> jsstring) \<Rightarrow> admin_data \<Rightarrow> admin_panel \<Rightarrow> admin_panel" where
  "submit parse trim d p =
     (case selectedViewer d p of
        None \<Rightarrow> p
      | Some v \<Rightarrow>
          if createPending p \<or> unavailable_reason parse d (actionType p) (chosenStream p) p \<noteq> None then p
          else if is_disruptive (actionType p) \<and> armedAction p \<noteq> Some (actionType p) then p\<lparr>armedAction := Some (actionType p)\<rparr>
          else send (CreateCommand (viewerId v)
                  \<lparr>inputType = actionType p, inputStream = (if requiresStream (actionType p) then Some (chosenStream p) else None),
                   inputMessage = (if is_disruptive (actionType p) \<and> trim (commandReason p) \<noteq> [] then Some (trim (commandReason p)) else None)\<rparr>)
                 (p\<lparr>createPending := True\<rparr>))"

definition create_settled :: "bool \<Rightarrow> bool \<Rightarrow> admin_panel \<Rightarrow> admin_panel" where
  "create_settled isRetry ok p =
     (let p1 = p\<lparr>createPending := False\<rparr>
      in if isRetry then p1\<lparr>pendingRetry := []\<rparr>
         else if ok then p1\<lparr>armedAction := None, commandReason := []\<rparr> else p1)"

definition retryCamera :: "(jsstring \<Rightarrow> rat option) \<Rightarrow> admin_data \<Rightarrow> reception \<Rightarrow> admin_panel \<Rightarrow> admin_panel" where
  "retryCamera parse d r p =
     (let name = resubscribeStreamName r
      in case selectedViewer d p of
           None \<Rightarrow> p
         | Some v \<Rightarrow>
             if unavailable_reason parse d ResubscribeStream name p \<noteq> None \<or> createPending p
                \<or> name \<in> set (activeResubscribeStreams d) then p
             else send (CreateCommand (viewerId v) \<lparr>inputType = ResubscribeStream, inputStream = Some name, inputMessage = None\<rparr>)
                    (p\<lparr>actionType := ResubscribeStream, chosenStream := name, armedAction := None, pendingRetry := name,
                       createPending := True\<rparr>))"

text \<open>The buttons of a command: which are enabled, and the two clicks they take.\<close>

definition command_enabled :: "confirm_action \<Rightarrow> command_row \<Rightarrow> admin_panel \<Rightarrow> bool" where
  "command_enabled a c p \<longleftrightarrow> \<not> changePending p
     \<and> (case a of ConfirmCancel \<Rightarrow> canCancelViewerCommand (commandState c)
        | ConfirmDelete \<Rightarrow> commandState c = CPending \<or> commandState c = CCancelled)"

definition runConfirmed :: "confirm_action \<Rightarrow> command_row \<Rightarrow> admin_panel \<Rightarrow> admin_panel" where
  "runConfirmed a c p =
     (if \<not> command_enabled a c p then p
      else if confirmState p \<noteq> Some (a, commandId c) then p\<lparr>confirmState := Some (a, commandId c)\<rparr>
      else send (case a of ConfirmCancel \<Rightarrow> CancelCommand (commandViewer c) (commandId c)
                 | ConfirmDelete \<Rightarrow> DeleteCommand (commandViewer c) (commandId c)) (p\<lparr>changePending := True\<rparr>))"

datatype admin_input =
  SelectViewer jsstring
| SelectAction operator_command
| SetReason jsstring
| ChooseStream jsstring
| Submit admin_data
| CreateSettled bool bool
| RetryCamera admin_data reception
| Confirm confirm_action command_row
| ChangeSettled

fun admin_exec :: "(jsstring \<Rightarrow> rat option) \<Rightarrow> (jsstring \<Rightarrow> jsstring) \<Rightarrow> admin_input \<Rightarrow> admin_panel \<Rightarrow> admin_panel" where
  "admin_exec parse trim (SelectViewer v) p = selectViewer v p"
| "admin_exec parse trim (SelectAction t) p = selectAction t p"
| "admin_exec parse trim (SetReason r) p = p\<lparr>commandReason := r, armedAction := None\<rparr>"
| "admin_exec parse trim (ChooseStream n) p = p\<lparr>chosenStream := n, armedAction := None\<rparr>"
| "admin_exec parse trim (Submit d) p = submit parse trim d p"
| "admin_exec parse trim (CreateSettled isRetry ok) p = create_settled isRetry ok p"
| "admin_exec parse trim (RetryCamera d r) p = retryCamera parse d r p"
| "admin_exec parse trim (Confirm a c) p = runConfirmed a c p"
| "admin_exec parse trim ChangeSettled p = p\<lparr>changePending := False, confirmState := None\<rparr>"

definition admin_run :: "(jsstring \<Rightarrow> rat option) \<Rightarrow> (jsstring \<Rightarrow> jsstring) \<Rightarrow> admin_input list \<Rightarrow> admin_panel \<Rightarrow> admin_panel" where
  "admin_run parse trim ins p = fold (admin_exec parse trim) ins p"

end
