(* ===== verification/ViewerAdminProps.thy ===== *)
theory ViewerAdminProps
  imports ViewerAdmin
begin

text \<open>
  The operator's panel asks twice before it restarts a viewer, and it sends only what the viewer can do.
\<close>

lemma send_fields [simp]:
  "armedAction (send r p) = armedAction p" "selectedViewerId (send r p) = selectedViewerId p" "actionType (send r p) = actionType p"
  "commandReason (send r p) = commandReason p" "createPending (send r p) = createPending p" "chosenStream (send r p) = chosenStream p"
  "requestsSent (send r p) = requestsSent p @ [r]"
  by (simp_all add: send_def)

definition armed_for :: "operator_command \<Rightarrow> jsstring \<Rightarrow> jsstring \<Rightarrow> admin_panel \<Rightarrow> bool" where
  "armed_for t v r p \<longleftrightarrow> armedAction p = Some t \<and> actionType p = t \<and> selectedViewerId p = v \<and> commandReason p = r"

text \<open>After an event the panel is armed only if it was, for the same thing, or if the event was a submit.\<close>

lemma armed_step:
  assumes "armedAction (admin_exec parse trim i p) = Some t" and inv: "\<And>u. armedAction p = Some u \<Longrightarrow> actionType p = u"
  shows "actionType (admin_exec parse trim i p) = t
     \<and> selectedViewerId (admin_exec parse trim i p) = selectedViewerId p \<and> commandReason (admin_exec parse trim i p) = commandReason p
     \<and> actionType p = t \<and> (armedAction p = Some t \<or> (\<exists>d. i = Submit d))"
proof (cases i)
  case (SelectViewer v)
  with assms show ?thesis by (simp add: selectViewer_def split: if_splits)
next
  case (SelectAction u)
  with assms show ?thesis by (simp add: selectAction_def)
next
  case (Submit d)
  have f: "actionType (submit parse trim d p) = actionType p" "selectedViewerId (submit parse trim d p) = selectedViewerId p"
    "commandReason (submit parse trim d p) = commandReason p"
    by (simp_all add: submit_def split: option.split)
  have "armedAction (submit parse trim d p) = armedAction p \<or> armedAction (submit parse trim d p) = Some (actionType p)"
    by (simp add: submit_def split: option.split)
  with Submit assms(1) have "actionType p = t" using inv [of t] by auto
  with Submit f show ?thesis by simp
next
  case (CreateSettled isRetry ok)
  with assms show ?thesis by (auto simp: create_settled_def Let_def split: if_splits)
next
  case (RetryCamera d r)
  have "retryCamera parse d r p = p \<or> armedAction (retryCamera parse d r p) = None"
    by (simp add: retryCamera_def Let_def split: option.split)
  with RetryCamera assms show ?thesis by auto
next
  case (Confirm a c)
  with assms show ?thesis by (auto simp: runConfirmed_def split: if_splits)
qed (use assms in auto)

lemma armed_type: "armedAction (admin_run parse trim ins (new_admin v0)) = Some t \<Longrightarrow> actionType (admin_run parse trim ins (new_admin v0)) = t"
proof (induction ins arbitrary: t rule: rev_induct)
  case Nil
  then show ?case by (simp add: admin_run_def new_admin_def)
next
  case (snoc i ins)
  from armed_step [of parse trim i "admin_run parse trim ins (new_admin v0)" t] snoc show ?case by (simp add: admin_run_def)
qed

text \<open>The submit that armed the panel, and that nothing changed since.\<close>

lemma armed_since:
  assumes "armedAction (admin_run parse trim ins (new_admin v0)) = Some t"
  shows "\<exists>k < length ins. (\<exists>d. ins ! k = Submit d) \<and> (\<forall>j. k < j \<and> j \<le> length ins \<longrightarrow>
     armed_for t (selectedViewerId (admin_run parse trim (take k ins) (new_admin v0)))
       (commandReason (admin_run parse trim (take k ins) (new_admin v0))) (admin_run parse trim (take j ins) (new_admin v0)))"
  using assms
proof (induction ins rule: rev_induct)
  case Nil
  then show ?case by (simp add: admin_run_def new_admin_def)
next
  case (snoc i ins)
  let ?run = "\<lambda>is. admin_run parse trim is (new_admin v0)"
  have e: "?run (ins @ [i]) = admin_exec parse trim i (?run ins)" by (simp add: admin_run_def)
  have step: "actionType (?run (ins @ [i])) = t" "selectedViewerId (?run (ins @ [i])) = selectedViewerId (?run ins)"
      "commandReason (?run (ins @ [i])) = commandReason (?run ins)" "armedAction (?run ins) = Some t \<or> (\<exists>d. i = Submit d)"
    using armed_step [of parse trim i "?run ins" t] snoc.prems armed_type [of parse trim ins v0] by (simp_all add: e)
  show ?case
  proof (cases "armedAction (?run ins) = Some t")
    case True
    from snoc.IH [OF True] obtain k where k: "k < length ins" "\<exists>d. ins ! k = Submit d"
      and since: "\<And>j. k < j \<Longrightarrow> j \<le> length ins \<Longrightarrow> armed_for t (selectedViewerId (?run (take k ins))) (commandReason (?run (take k ins))) (?run (take j ins))"
      by blast
    have "armed_for t (selectedViewerId (?run (take k ins))) (commandReason (?run (take k ins))) (?run ins)"
      using since [of "length ins"] k(1) by simp
    then have last: "armed_for t (selectedViewerId (?run (take k ins))) (commandReason (?run (take k ins))) (?run (ins @ [i]))"
      using step snoc.prems by (simp add: armed_for_def)
    have "armed_for t (selectedViewerId (?run (take k (ins @ [i])))) (commandReason (?run (take k (ins @ [i])))) (?run (take j (ins @ [i])))"
      if "k < j" "j \<le> length (ins @ [i])" for j
      using that since [of j] last k(1) by (cases "j \<le> length ins") (simp_all add: not_le Suc_le_eq)
    moreover have "\<exists>d. (ins @ [i]) ! k = Submit d" using k by (simp add: nth_append)
    ultimately show ?thesis using k(1) by (intro exI [of _ k]) simp
  next
    case False
    with step(4) have "\<exists>d. (ins @ [i]) ! length ins = Submit d" by simp
    moreover have "armed_for t (selectedViewerId (?run ins)) (commandReason (?run ins)) (?run (ins @ [i]))"
      using step snoc.prems by (simp add: armed_for_def)
    ultimately show ?thesis by (intro exI [of _ "length ins"]) (auto simp: le_Suc_eq)
  qed
qed

text \<open>What an event sends. The stream of a command, for the check of what the viewer can do.\<close>

definition input_stream :: "command_input \<Rightarrow> jsstring" where
  "input_stream c = (case inputStream c of Some n \<Rightarrow> n | None \<Rightarrow> [])"

lemma reason_without_stream: "\<not> requiresStream t \<Longrightarrow> unavailable_reason parse d t n p = unavailable_reason parse d t m p"
  by (simp add: unavailable_reason_def viewerCommandUnavailableReason_def split: option.split)

lemma created:
  assumes "requestsSent (admin_exec parse trim i p) = requestsSent p @ [CreateCommand v c]"
  shows "v = selectedViewerId p
     \<and> (is_disruptive (inputType c) \<longrightarrow> armedAction p = Some (inputType c))
     \<and> (\<exists>d. (i = Submit d \<or> (\<exists>r. i = RetryCamera d r)) \<and> unavailable_reason parse d (inputType c) (input_stream c) p = None)"
proof -
  have sel: "selectedViewer d p = Some x \<Longrightarrow> viewerId x = selectedViewerId p" for d x
    by (auto simp: selectedViewer_def find_Some_iff)
  show ?thesis
  proof (cases i)
    case (Submit d)
    have "unavailable_reason parse d (actionType p) (if requiresStream (actionType p) then chosenStream p else []) p = None"
      if "unavailable_reason parse d (actionType p) (chosenStream p) p = None"
      using that reason_without_stream [of "actionType p" parse d "[]" p "chosenStream p"] by simp
    with Submit assms sel show ?thesis by (auto simp: submit_def input_stream_def split: option.splits if_splits)
  next
    case (RetryCamera d r)
    with assms sel show ?thesis
      by (auto simp: retryCamera_def input_stream_def is_disruptive_def Let_def split: option.splits if_splits)
  next
    case (Confirm a x)
    with assms show ?thesis by (auto simp: runConfirmed_def split: if_splits confirm_action.splits)
  next
    case (CreateSettled r ok)
    with assms show ?thesis by (auto simp: create_settled_def Let_def split: if_splits)
  qed (use assms in \<open>auto simp: selectViewer_def selectAction_def split: if_splits\<close>)
qed

section \<open>Property\<close>

text \<open>C17: a viewer or its service is restarted only after the operator has asked twice. When the panel
  sends a disruptive command, an earlier submit armed it, and from then on the panel stayed armed for this
  command, this viewer and this reason; and every command that is sent is one that the viewer could carry
  out by what the panel knew when it was sent.\<close>

theorem restart_needs_two_submits:
  assumes "requestsSent (admin_exec parse trim i (admin_run parse trim ins (new_admin v0)))
      = requestsSent (admin_run parse trim ins (new_admin v0)) @ [CreateCommand v c]"
  shows "v = selectedViewerId (admin_run parse trim ins (new_admin v0))
   \<and> (\<exists>d. (i = Submit d \<or> (\<exists>r. i = RetryCamera d r))
        \<and> unavailable_reason parse d (inputType c) (input_stream c) (admin_run parse trim ins (new_admin v0)) = None)
   \<and> (is_disruptive (inputType c) \<longrightarrow>
        (\<exists>k < length ins. (\<exists>d. ins ! k = Submit d) \<and> (\<forall>j. k < j \<and> j \<le> length ins \<longrightarrow>
           armed_for (inputType c) v (commandReason (admin_run parse trim (take k ins) (new_admin v0)))
             (admin_run parse trim (take j ins) (new_admin v0)))))"
proof -
  let ?p = "admin_run parse trim ins (new_admin v0)"
  note s = created [OF assms]
  have "\<exists>k < length ins. (\<exists>d. ins ! k = Submit d) \<and> (\<forall>j. k < j \<and> j \<le> length ins \<longrightarrow>
           armed_for (inputType c) v (commandReason (admin_run parse trim (take k ins) (new_admin v0)))
             (admin_run parse trim (take j ins) (new_admin v0)))" if d: "is_disruptive (inputType c)"
  proof -
    from s d have "armedAction ?p = Some (inputType c)" by blast
    from armed_since [OF this] obtain k where k: "k < length ins" "\<exists>d. ins ! k = Submit d"
      and since: "\<And>j. k < j \<Longrightarrow> j \<le> length ins \<Longrightarrow> armed_for (inputType c) (selectedViewerId (admin_run parse trim (take k ins) (new_admin v0)))
         (commandReason (admin_run parse trim (take k ins) (new_admin v0))) (admin_run parse trim (take j ins) (new_admin v0))" by blast
    have "selectedViewerId (admin_run parse trim (take k ins) (new_admin v0)) = v"
      using since [of "length ins"] k(1) s by (simp add: armed_for_def)
    with k since show ?thesis by auto
  qed
  with s show ?thesis by blast
qed

definition example_data :: admin_data where
  "example_data = \<lparr>viewerRows = [\<lparr>viewerId = js ''v'', viewerLabel = [], viewerDisplayName = [], viewerStatus = js ''online'',
     agentState = None, controlState = Some (js ''online''), appState = None, rendererState = None, rendererHeartbeat = [],
     viewerStreams = []\<rparr>], cameraRows = [], commandRows = []\<rparr>"

theorem restart_needs_two_submits_witness:
  "requestsSent (admin_run (\<lambda>_. None) id [SelectAction RestartViewer, Submit example_data, Submit example_data] (new_admin (js ''v'')))
      = [CreateCommand (js ''v'') \<lparr>inputType = RestartViewer, inputStream = None, inputMessage = None\<rparr>]
   \<and> (\<exists>k < 2. \<exists>d. [SelectAction RestartViewer, Submit example_data] ! k = Submit d)"
proof -
  let ?ins = "[SelectAction RestartViewer, Submit example_data]" and ?c = "\<lparr>inputType = RestartViewer, inputStream = None, inputMessage = None\<rparr>"
  let ?p = "admin_run (\<lambda>_. None) id ?ins (new_admin (js ''v''))"
  have sent: "requestsSent ?p = [] \<and> requestsSent (admin_exec (\<lambda>_. None) id (Submit example_data) ?p) = [CreateCommand (js ''v'') ?c]"
    by (simp add: admin_run_def new_admin_def selectAction_def submit_def selectedViewer_def unavailable_reason_def example_data_def
      viewerCommandUnavailableReason_def is_disruptive_def requiresStream_def js_def)
  then have "requestsSent (admin_exec (\<lambda>_. None) id (Submit example_data) ?p) = requestsSent ?p @ [CreateCommand (js ''v'') ?c]" by simp
  from restart_needs_two_submits [OF this] have "\<exists>k < length ?ins. \<exists>d. ?ins ! k = Submit d" by (auto simp: is_disruptive_def)
  with sent show ?thesis by (simp add: admin_run_def numeral_2_eq_2)
qed

end
