(* ===== verification/Spec2Isabelle.thy ===== *)
theory Spec2Isabelle
  imports SessionProps Connection Pipe Diagnostics TargetProps ViewerOutage RecordedVideo PtzProps TimelineProps LivePageProps RecordingsPageProps SettingsConsole ViewerLayout PtzPresets CameraPolicyProps CameraWorkflowProps LibraryPanel ViewerAdminProps
begin
text \<open>
  CamStation records network cameras and shows them live. A Go server (\<open>cmd\<close>, \<open>internal\<close>) records and
  serves streams; a React application (\<open>web\<close>) is its operator's interface; a native viewer
  (\<open>viewer-app\<close>, Electron) shows the live page on wall displays and is managed by a Windows service; a
  Node program (\<open>scripts/windows\<close>) operates the two Windows machines. This development models the
  JavaScript and TypeScript of the repository: the live and the recorded player, the pages around them,
  the viewer and the Windows script.

  How the parts interact:
  \<^item> Every tile of the live page (\<open>LivePage\<close>, \<open>LiveLayout\<close>) runs one session (\<open>Session\<close>,
    \<open>useWebRtcMseStream.ts\<close>). The session opens a connection (\<open>Connection\<close>, \<open>playbackConnection.ts\<close>),
    asks the retry budget (\<open>Recovery\<close>, \<open>playbackRecovery.ts\<close>) what to do after a failure, and on a
    fallback lets the promoter (\<open>Promoter\<close>) probe the primary stream. What it experiences is reported
    through \<open>Diagnostics\<close> (\<open>playbackDiagnosticsApi.ts\<close>) to the server and through \<open>Bridge\<close>
    (\<open>viewerBridge.ts\<close>) to the native viewer.
  \<^item> The same page plays recordings: \<open>Playback\<close> (\<open>usePlaybackWorkspace.ts\<close>, \<open>playbackClock.ts\<close>) keeps
    one clock for all cameras, which the recording browser (\<open>RecordingBrowser\<close>, within \<open>RecordingsPage\<close>) uses as
    well; \<open>RecordedVideo\<close> loads one recording into a video, \<open>Timeline\<close>
    (\<open>PlaybackTimeline.tsx\<close>) is the axis the operator drags. \<open>PtzHold\<close> moves a camera while a button
    is held; the page stops it before it seeks.
  \<^item> In the native viewer, \<open>ViewerMain\<close> (\<open>main.ts\<close>) decides with \<open>ViewerHelpers\<close> (\<open>viewerLifecycle.ts\<close>,
    \<open>navigation.ts\<close>, the connection form, the preload bridge) what the window shows, and speaks to its
    service through \<open>Pipe\<close> (\<open>managementPipe.ts\<close>). \<open>ViewerAdmin\<close> is the panel of the web application
    from which an operator sends commands to the viewers, \<open>ViewerLayout\<close> the plain wall display page.
  \<^item> Cameras are registered by \<open>CameraWorkflow\<close> (\<open>pages/cameras\<close>) with the stream policies of \<open>CameraPolicy\<close>
    and the templates of \<open>ProfileLibrary\<close>, which \<open>LibraryPanel\<close> keeps on the server.
  \<^item> \<open>TargetArguments\<close>, \<open>TargetRemote\<close>, \<open>TargetModes\<close> and \<open>TargetExecute\<close> are
    \<open>Invoke-CamStationWindowsTarget.mjs\<close>, independent of the rest.

  How the code is modelled. An object, a closure or a hook with its refs is a record; its methods and
  handlers are functions on the record, with the names of the source. An \<open>async\<close> function is cut at each
  \<open>await\<close>: what follows is a task (in some parts a flight or a pending request) with what the closure has
  captured, and inputs settle the tasks in any order. What the browser, Electron, the server or a remote
  machine does is an input, so a statement about all runs is about all their behaviours. The operations of
  a component are composed by one function (\<open>session_exec\<close>, \<open>page_exec\<close>, \<open>main_exec\<close> and so on), and
  reachable states are the results of input lists or of an inductive relation. Strings are lists of
  UTF-16 code units, values of type \<open>unknown\<close> a datatype, times integers or rationals; an exception is
  \<open>Inl\<close> or an option. A loop of the source is structural
  recursion over what it consumes, or a \<open>function\<close> with a measure: the bytes left in \<open>receive_loop\<close> of
  \<open>Pipe\<close>, the requests left in \<open>drain\<close> of \<open>ViewerMain\<close>. No fuel is used.

  Parameters, each an argument of the definitions that use it: the URL parser (\<open>url_env\<close>), \<open>JSON\<close>,
  the reading of dates, the exponential of the zoom, the file system and processes of the Windows script
  (\<open>profile_env\<close>, \<open>target_env\<close>), the identifiers that \<open>crypto\<close> makes.

  The theories and what their lemmas show:
  \<^item> \<open>Prelude\<close>, \<open>Names\<close>: strings, maps in insertion order, the interfaces \<open>keyed_store\<close>,
    \<open>generation_counter\<close> and \<open>generation_guard\<close>, the patterns for names.
  \<^item> \<open>Recovery\<close>, \<open>Promoter\<close>: the answers to the failures of one episode, step by step, its bounds, the interfaces \<open>timeout_clock\<close> and
    \<open>promoter_clock\<close> and their interpretation on the browser's timers; a running promoter always waits for one
    thing, a stopped one for none, and has aborted its probes.
  \<^item> \<open>Session\<close>, \<open>SessionInv\<close>, \<open>SessionProps\<close>: the invariant of a tile (waiting, setting up, playing,
    closed) and from it that a tile goes on, holds one connection, ignores what it gave up and refines the
    machine of its four modes.
  \<^item> \<open>Connection\<close>, \<open>Bridge\<close>, \<open>Diagnostics\<close>, \<open>Pipe\<close>: order of the media, settling of probes and
    requests, framing that does not depend on the chunks, well-formed events.
  \<^item> \<open>ViewerMain\<close>, \<open>ViewerFrames\<close>, \<open>ViewerAttempts\<close>, \<open>ViewerService\<close>, \<open>ViewerProps\<close>, \<open>ViewerOutage\<close>: while attempts
    to connect do not overlap there is at most one open connection; a lost service is looked for again
    (without overlap, or without a new configuration), the live picture survives the outage, commands are
    settled once, every request of the page is answered once or still waits for something that can answer;
    what two overlapping attempts do: a leaked connection, and a lost reconnection timer.
  \<^item> \<open>TargetProps\<close>: preflight before everything, cleaning of staging directories, verified artifacts.
  \<^item> \<open>Playback\<close> with \<open>PlaybackProps\<close>, \<open>RecordedVideo\<close>: no camera loads for ever, where the shared
    clock goes, answers that come too late.
  \<^item> \<open>PtzHold\<close>, \<open>PtzProps\<close>: a camera moves only while a button is held, and is stopped afterwards.
  \<^item> \<open>LiveLayout\<close>, \<open>Timeline\<close>, \<open>TimelineProps\<close>, \<open>LivePage\<close>, \<open>LivePageProps\<close>: tiles inside the grid, merged
    ranges, gestures of the axis, the last wish of the user, the fields of date and time, a layout
    saved too late.
  \<^item> \<open>Decimal\<close>, \<open>KstTime\<close>: numbers as text; dates and times of day in Korea, whose fields name the second they
    were filled from.
  \<^item> \<open>PlaybackControls\<close>, \<open>RecordingBrowser\<close>, \<open>RecordingBrowserProps\<close>, \<open>RecordingsPage\<close>, \<open>RecordingsPageProps\<close>: a
    recording of the list is played once and stays selected, no wish to seek is left behind when the effects have
    come to rest, removals need two presses, and the date field that does not follow the axis.
  \<^item> \<open>CameraPolicy\<close>, \<open>CameraPolicyProps\<close>, \<open>ProfileLibrary\<close>, \<open>ProfileLibraryProps\<close>, \<open>CameraWorkflow\<close>,
    \<open>CameraWorkflowProps\<close>, \<open>LibraryPanel\<close>: what is saved was validated, a save expects the revision that was loaded, a
    template opens again as it was saved, a scan that comes late.
  \<^item> \<open>ViewerAdmin\<close>, \<open>ViewerAdminProps\<close>, \<open>PtzPresets\<close>, \<open>SettingsConsole\<close>, \<open>ViewerLayout\<close>: disruptive commands need a
    confirmation, one request of a kind at a time, what a form sends that was not loaded, tiles within the display.

  Bounds: the widths and limits of the source are kept as constants (queue lengths, 15 s lookups, 3 s between
  retries, the grid of 48 by 48 cells). Numbers of JavaScript are integers or rationals, so the rounding of
  IEEE arithmetic and values above \<open>2 ^ 53\<close> are outside the model, as is a system clock that runs
  backwards where a statement says so.

  Not modelled. The Go server, the PowerShell, Python and shell scripts and the installers are other
  languages, met here only as the environment. Of the web application: rendering, styles, translations, the
  thin request wrappers of \<open>web/src/app\<close> with their query hooks, and the pages for backups, logs, the system
  and the overview, which show what the server answers. The script that lists the files of the installer rests on
  hashes of \<open>node:crypto\<close> and is part of the build. Bundled assets under \<open>cmd/camstationd/web\<close>
  are generated from \<open>web\<close>.
\<close>
end
